(* ===== verification/Prelude.thy ===== *)
theory Prelude
  imports Main
begin

text \<open>
  Shared vocabulary of the development: the fact collections the component theories extend,
  JavaScript strings (as UTF-8 byte strings), decimal rendering of naturals, the nullish
  operator, and the keyed lists ("find by id", "replace or prepend") that every collection
  of the Product API is.
\<close>

named_theorems view_simps "how the observers of a component read an updated state"
named_theorems keyed_simps "lookup, length and keys of keyed lists after an update"

section \<open>Nullish values and results\<close>

text \<open>\<open>a ?? b\<close> where \<open>None\<close> stands for \<open>null\<close> or \<open>undefined\<close>.\<close>

definition nullish :: "'a option \<Rightarrow> 'a \<Rightarrow> 'a" where
  "nullish a b = (case a of None \<Rightarrow> b | Some x \<Rightarrow> x)"

lemma nullish_simps [simp]: "nullish None b = b" "nullish (Some a) b = a"
  by (simp_all add: nullish_def)

text \<open>\<open>a ?? b\<close> where the right operand may be missing as well.\<close>

definition nullish_opt :: "'a option \<Rightarrow> 'a option \<Rightarrow> 'a option" where
  "nullish_opt a b = (case a of None \<Rightarrow> b | Some x \<Rightarrow> Some x)"

lemma nullish_opt_simps [simp]: "nullish_opt None b = b" "nullish_opt (Some a) b = Some a"
  by (simp_all add: nullish_opt_def)

text \<open>
  Exceptions the modelled code can raise, with the message that reaches the user.
\<close>

datatype js_error =
    TypeError string
  | SyntaxError string
  | RangeError string
  | PlainError string

fun error_message :: "js_error \<Rightarrow> string" where
  "error_message (TypeError m) = m"
| "error_message (SyntaxError m) = m"
| "error_message (RangeError m) = m"
| "error_message (PlainError m) = m"

text \<open>Running on after a step that may have thrown.\<close>

definition res_bind :: "'e + 'a \<Rightarrow> ('a \<Rightarrow> 'e + 'b) \<Rightarrow> 'e + 'b" where
  "res_bind r k = (case r of Inl e \<Rightarrow> Inl e | Inr x \<Rightarrow> k x)"

lemma res_bind_simps [simp]: "res_bind (Inl e) k = Inl e" "res_bind (Inr x) k = k x"
  by (simp_all add: res_bind_def)

lemma res_bind_Inr [simp]: "res_bind r k = Inr y \<longleftrightarrow> (\<exists>x. r = Inr x \<and> k x = Inr y)"
  by (cases r) simp_all

lemma res_bind_Inl [simp]:
  "res_bind r k = Inl e \<longleftrightarrow> r = Inl e \<or> (\<exists>x. r = Inr x \<and> k x = Inl e)"
  by (cases r) simp_all

lemma map_res_bind:
  assumes "\<And>x. map_sum id g (k x) = k' (f x)"
  shows "map_sum id g (res_bind r k) = res_bind (map_sum id f r) k'"
  using assms by (cases r) simp_all

section \<open>JavaScript strings\<close>

text \<open>
  A string is the list of bytes of its UTF-8 encoding. Equality, concatenation and prefix
  tests with ASCII separators mean the same on both representations. \<open>String.prototype.trim\<close>
  removes the ECMAScript white space and line terminators, of which the ones beyond ASCII
  are two or three bytes long.
\<close>

definition ws1 :: "char \<Rightarrow> bool" where
  "ws1 a = (a \<in> set [CHR 0x09, CHR 0x0A, CHR 0x0B, CHR 0x0C, CHR 0x0D, CHR 0x20])"

definition ws2 :: "char \<Rightarrow> char \<Rightarrow> bool" where
  "ws2 a b = (a = CHR 0xC2 \<and> b = CHR 0xA0)"

definition ws3 :: "char \<Rightarrow> char \<Rightarrow> char \<Rightarrow> bool" where
  "ws3 a b c =
     (a = CHR 0xE1 \<and> b = CHR 0x9A \<and> c = CHR 0x80
    \<or> a = CHR 0xE2 \<and> b = CHR 0x80 \<and>
        c \<in> set [CHR 0x80, CHR 0x81, CHR 0x82, CHR 0x83, CHR 0x84, CHR 0x85, CHR 0x86, CHR 0x87,
                 CHR 0x88, CHR 0x89, CHR 0x8A, CHR 0xA8, CHR 0xA9, CHR 0xAF]
    \<or> a = CHR 0xE2 \<and> b = CHR 0x81 \<and> c = CHR 0x9F
    \<or> a = CHR 0xE3 \<and> b = CHR 0x80 \<and> c = CHR 0x80
    \<or> a = CHR 0xEF \<and> b = CHR 0xBB \<and> c = CHR 0xBF)"

text \<open>The byte length of the white-space character a string starts with, 0 when none.\<close>

definition ws_len :: "string \<Rightarrow> nat" where
  "ws_len s = (case s of
      [] \<Rightarrow> 0
    | a # s1 \<Rightarrow> if ws1 a then 1 else (case s1 of
        [] \<Rightarrow> 0
      | b # s2 \<Rightarrow> if ws2 a b then 2 else (case s2 of
          [] \<Rightarrow> 0
        | c # s3 \<Rightarrow> if ws3 a b c then 3 else 0)))"

text \<open>The same on the reversed string, for the end.\<close>

definition ws_len_rev :: "string \<Rightarrow> nat" where
  "ws_len_rev s = (case s of
      [] \<Rightarrow> 0
    | c # s1 \<Rightarrow> if ws1 c then 1 else (case s1 of
        [] \<Rightarrow> 0
      | b # s2 \<Rightarrow> if ws2 b c then 2 else (case s2 of
          [] \<Rightarrow> 0
        | a # s3 \<Rightarrow> if ws3 a b c then 3 else 0)))"

lemma ws_len_le: "ws_len s \<le> length s"
  by (auto simp: ws_len_def split: list.splits)

lemma ws_len_rev_le: "ws_len_rev s \<le> length s"
  by (auto simp: ws_len_rev_def split: list.splits)

function trim_start :: "string \<Rightarrow> string" where
  "trim_start s = (if ws_len s = 0 then s else trim_start (drop (ws_len s) s))"
  by pat_completeness auto
termination
proof (relation "measure length")
  fix s :: string
  assume "ws_len s \<noteq> 0"
  with ws_len_le [of s] show "(drop (ws_len s) s, s) \<in> measure length"
    by simp
qed simp

function trim_start_rev :: "string \<Rightarrow> string" where
  "trim_start_rev s = (if ws_len_rev s = 0 then s else trim_start_rev (drop (ws_len_rev s) s))"
  by pat_completeness auto
termination
proof (relation "measure length")
  fix s :: string
  assume "ws_len_rev s \<noteq> 0"
  with ws_len_rev_le [of s] show "(drop (ws_len_rev s) s, s) \<in> measure length"
    by simp
qed simp

declare trim_start.simps [simp del] trim_start_rev.simps [simp del]

definition trim :: "string \<Rightarrow> string" where
  "trim s = rev (trim_start_rev (rev (trim_start s)))"

lemma ws_len_trim_start: "ws_len (trim_start s) = 0"
  by (induction s rule: trim_start.induct) (subst trim_start.simps, auto)

lemma ws_len_trim_start_rev: "ws_len_rev (trim_start_rev s) = 0"
  by (induction s rule: trim_start_rev.induct) (subst trim_start_rev.simps, auto)

lemma trim_start_id: "ws_len s = 0 \<Longrightarrow> trim_start s = s"
  by (subst trim_start.simps) simp

lemma trim_start_rev_id: "ws_len_rev s = 0 \<Longrightarrow> trim_start_rev s = s"
  by (subst trim_start_rev.simps) simp

lemma trim_start_rev_suffix: "\<exists>p. s = p @ trim_start_rev s"
proof (induction s rule: trim_start_rev.induct)
  case (1 s)
  show ?case
  proof (cases "ws_len_rev s = 0")
    case True
    then show ?thesis by (simp add: trim_start_rev_id)
  next
    case False
    with "1.IH" obtain p where p: "drop (ws_len_rev s) s = p @ trim_start_rev (drop (ws_len_rev s) s)"
      by blast
    have "s = take (ws_len_rev s) s @ drop (ws_len_rev s) s" by simp
    also have "\<dots> = (take (ws_len_rev s) s @ p) @ trim_start_rev (drop (ws_len_rev s) s)"
      using p by simp
    also have "trim_start_rev (drop (ws_len_rev s) s) = trim_start_rev s"
      using False by (subst (2) trim_start_rev.simps) simp
    finally show ?thesis by blast
  qed
qed

lemma ws_len_prefix: "ws_len (p @ q) = 0 \<Longrightarrow> ws_len p = 0"
  by (auto simp: ws_len_def split: list.splits if_splits)

text \<open>Trimming twice changes nothing more.\<close>

lemma trim_idem [simp]: "trim (trim s) = trim s"
proof -
  let ?m = "trim_start s" and ?t = "trim s"
  obtain p where "rev ?m = p @ trim_start_rev (rev ?m)"
    using trim_start_rev_suffix by blast
  then have "?m = ?t @ rev p"
    by (metis rev_append rev_rev_ident trim_def)
  then have "ws_len ?t = 0"
    using ws_len_trim_start [of s] by (metis ws_len_prefix)
  then have "trim_start ?t = ?t" by (rule trim_start_id)
  moreover have "ws_len_rev (rev ?t) = 0"
    by (simp add: trim_def ws_len_trim_start_rev)
  ultimately show ?thesis
    by (simp add: trim_def trim_start_rev_id ws_len_trim_start_rev)
qed

lemma ws_len_snoc:
  assumes "\<not> ws1 z" and "\<And>a. \<not> ws2 a z" and "\<And>a b. \<not> ws3 a b z"
  shows "ws_len (p @ [z]) \<le> length p"
proof (cases p)
  case Nil
  with assms show ?thesis by (simp add: ws_len_def)
next
  case a: (Cons a p1)
  show ?thesis
  proof (cases p1)
    case Nil
    with a assms show ?thesis by (simp add: ws_len_def)
  next
    case b: (Cons b p2)
    with a assms show ?thesis by (cases p2) (simp_all add: ws_len_def)
  qed
qed

text \<open>A string whose last byte cannot end a white-space character is not blank.\<close>

lemma trim_start_last:
  assumes "\<not> ws1 z" and "\<And>a. \<not> ws2 a z" and "\<And>a b. \<not> ws3 a b z"
  shows "\<exists>p'. trim_start (p @ [z]) = p' @ [z]"
proof -
  have "s = p @ [z] \<Longrightarrow> \<exists>p'. trim_start s = p' @ [z]" for s p
  proof (induction s arbitrary: p rule: trim_start.induct)
    case (1 s)
    have le: "ws_len s \<le> length p"
      using ws_len_snoc [OF assms] 1(2) by simp
    show ?case
    proof (cases "ws_len s = 0")
      case True
      with 1(2) show ?thesis by (simp add: trim_start_id)
    next
      case False
      have "drop (ws_len s) s = drop (ws_len s) p @ [z]" using 1(2) le by simp
      with 1(1) [OF False] False show ?thesis by (subst trim_start.simps) auto
    qed
  qed
  then show ?thesis by blast
qed

lemma trim_last_nonblank:
  assumes z: "\<not> ws1 z" "\<And>a. \<not> ws2 a z" "\<And>a b. \<not> ws3 a b z"
  shows "trim (p @ [z]) \<noteq> []"
proof -
  obtain p' where p': "trim_start (p @ [z]) = p' @ [z]" using trim_start_last [OF z] by blast
  have "ws_len_rev (z # rev p') = 0"
    using z by (auto simp: ws_len_rev_def split: list.splits)
  then have "trim_start_rev (rev (p' @ [z])) = rev (p' @ [z])"
    by (simp add: trim_start_rev_id)
  then show ?thesis by (simp add: trim_def p')
qed

text \<open>Evaluation on literals: one step of the two loops.\<close>

lemmas trim_eval = trim_def trim_start.simps trim_start_rev.simps ws_len_def ws_len_rev_def
  ws1_def ws2_def ws3_def

lemma trim_Nil [simp]: "trim [] = []"
  by (simp add: trim_eval)

text \<open>\<open>value?.trim() || fallback\<close> for an optional string.\<close>

definition trim_or :: "string option \<Rightarrow> string \<Rightarrow> string" where
  "trim_or v d = (case v of None \<Rightarrow> d | Some s \<Rightarrow> if trim s = [] then d else trim s)"

section \<open>Decimal rendering\<close>

definition digit_char :: "nat \<Rightarrow> char" where
  "digit_char d = ''0123456789'' ! d"

fun nat_str :: "nat \<Rightarrow> string" where
  "nat_str n = (if n < 10 then [digit_char n] else nat_str (n div 10) @ [digit_char (n mod 10)])"

declare nat_str.simps [simp del]

definition digit_val :: "char \<Rightarrow> nat" where
  "digit_val c = of_char c - 48"

definition str_nat :: "string \<Rightarrow> nat" where
  "str_nat s = foldl (\<lambda>a c. 10 * a + digit_val c) 0 s"

lemma digit_val_char: "d < 10 \<Longrightarrow> digit_val (digit_char d) = d"
proof -
  assume "d < 10"
  then have "d \<in> set [0,1,2,3,4,5,6,7,8,9]" by auto
  then show ?thesis by (auto simp: digit_val_def digit_char_def)
qed

text \<open>Reading back what was rendered: distinct numbers have distinct texts.\<close>

lemma str_nat_str [simp]: "str_nat (nat_str n) = n"
proof (induction n rule: nat_str.induct)
  case (1 n)
  show ?case
  proof (cases "n < 10")
    case True
    then show ?thesis by (subst nat_str.simps) (simp add: str_nat_def digit_val_char)
  next
    case False
    with 1 have "str_nat (nat_str (n div 10)) = n div 10" by simp
    with False show ?thesis
      by (subst nat_str.simps) (simp add: str_nat_def digit_val_char)
  qed
qed

lemma nat_str_inj [simp]: "nat_str m = nat_str n \<longleftrightarrow> m = n"
  by (metis str_nat_str)

lemma nat_str_nonempty [simp]: "nat_str n \<noteq> []"
  by (subst nat_str.simps) simp

text \<open>A number after a separator that is no digit can be read off the end of a text.\<close>

lemma digit_char_in: "n < 10 \<Longrightarrow> digit_char n \<in> set ''0123456789''"
  using nth_mem [of n "''0123456789''"] by (simp add: digit_char_def del: nth_mem)

lemma nat_str_digits: "c \<in> set (nat_str n) \<Longrightarrow> c \<in> set ''0123456789''"
proof (induction n rule: nat_str.induct)
  case (1 n)
  then show ?case
    using digit_char_in [of n] digit_char_in [of "n mod 10"]
    by (subst (asm) (2) nat_str.simps) (auto split: if_splits)
qed

lemma number_suffix_unique:
  assumes "p @ c # nat_str j = q @ c # nat_str k" and "c \<notin> set ''0123456789''"
  shows "j = k"
proof -
  have "rev (nat_str j) @ c # rev p = rev (nat_str k) @ c # rev q"
    using arg_cong [OF assms(1), of rev] by simp
  moreover have "takeWhile (\<lambda>x. x \<noteq> c) (rev (nat_str n) @ c # r) = rev (nat_str n)" for n r
    using assms(2) nat_str_digits by (subst takeWhile_append2) auto
  ultimately have "rev (nat_str j) = rev (nat_str k)" by metis
  then show ?thesis by simp
qed

text \<open>Evaluation on numerals, which cannot loop on an open term.\<close>

lemma nat_str_numeral:
  "nat_str (numeral k) = (if (numeral k :: nat) < 10 then [digit_char (numeral k)]
     else nat_str (numeral k div 10) @ [digit_char (numeral k mod 10)])"
  by (rule nat_str.simps)

lemma nat_str_0 [simp]: "nat_str 0 = ''0''" and nat_str_1 [simp]: "nat_str (Suc 0) = ''1''"
  by (simp_all add: nat_str.simps [of 0] nat_str.simps [of "Suc 0"] digit_char_def)

lemmas nat_str_eval = nat_str_numeral digit_char_def

section \<open>Keyed lists\<close>

text \<open>
  \<open>xs.find((item) => item.id === k)\<close> and
  "\<open>findIndex\<close>, then replace the element there or \<open>unshift\<close>".
\<close>

definition find_by :: "('a \<Rightarrow> 'k) \<Rightarrow> 'k \<Rightarrow> 'a list \<Rightarrow> 'a option" where
  "find_by key k xs = List.find (\<lambda>x. key x = k) xs"

primrec update_first :: "('a \<Rightarrow> 'k) \<Rightarrow> 'k \<Rightarrow> ('a \<Rightarrow> 'a) \<Rightarrow> 'a list \<Rightarrow> 'a list" where
  "update_first key k f [] = []"
| "update_first key k f (x # xs) = (if key x = k then f x # xs else x # update_first key k f xs)"

definition upsert_by :: "('a \<Rightarrow> 'k) \<Rightarrow> ('a \<Rightarrow> 'a \<Rightarrow> 'a) \<Rightarrow> 'a \<Rightarrow> 'a list \<Rightarrow> 'a list" where
  "upsert_by key merge x xs =
     (if key x \<in> key ` set xs then update_first key (key x) (\<lambda>old. merge old x) xs else x # xs)"

lemma find_by_simps [simp]:
  "find_by key k [] = None"
  "find_by key k (x # xs) = (if key x = k then Some x else find_by key k xs)"
  by (simp_all add: find_by_def)

lemma find_by_None: "find_by key k xs = None \<longleftrightarrow> k \<notin> key ` set xs"
  by (induction xs) auto

lemma find_by_Some: "find_by key k xs = Some x \<Longrightarrow> x \<in> set xs \<and> key x = k"
  by (induction xs) (auto split: if_splits)

lemma find_by_Some_key: "find_by key k xs = Some x \<Longrightarrow> key x = k"
  by (drule find_by_Some) (erule conjunct2)

lemma find_by_in: "k \<in> key ` set xs \<Longrightarrow> \<exists>x. find_by key k xs = Some x"
  by (induction xs) auto

lemma length_update_first [simp]: "length (update_first key k f xs) = length xs"
  by (induction xs) auto

lemma update_first_notin: "k \<notin> key ` set xs \<Longrightarrow> update_first key k f xs = xs"
  by (induction xs) auto

lemma map_update_first:
  assumes f: "\<And>x. key x = k \<Longrightarrow> key (f x) = k"
  shows "map key (update_first key k f xs) = map key xs"
proof (induction xs)
  case (Cons x xs)
  show ?case
  proof (cases "key x = k")
    case True
    with f have "key (f x) = k" by blast
    with True show ?thesis by simp
  next
    case False
    with Cons show ?thesis by simp
  qed
qed simp

lemma find_update_first:
  assumes f: "\<And>x. key x = k \<Longrightarrow> key (f x) = k"
  shows "find_by key k' (update_first key k f xs)
     = (if k' = k then map_option f (find_by key k xs) else find_by key k' xs)"
proof (induction xs)
  case (Cons x xs)
  show ?case
  proof (cases "key x = k")
    case True
    with f have "key (f x) = k" by blast
    with True show ?thesis by simp
  next
    case False
    with Cons show ?thesis by (cases "k' = k") simp_all
  qed
qed simp

text \<open>Two lists kept in step stay in step when both are updated.\<close>

lemma map_update_first_sync:
  assumes "\<And>x. key' (h x) = key x" and "\<And>x. key x = k \<Longrightarrow> h (f x) = g (h x)"
  shows "map h (update_first key k f xs) = update_first key' k g (map h xs)"
proof (induction xs)
  case (Cons x xs)
  then show ?case using assms by (cases "key x = k") simp_all
qed simp

lemma map_upsert_sync:
  assumes key: "\<And>x. key' (h x) = key x" and "\<And>old. h (m old x) = m' (h old) (h x)"
  shows "map h (upsert_by key m x xs) = upsert_by key' m' (h x) (map h xs)"
proof -
  have "(key x \<in> key ` set xs) = (key' (h x) \<in> key' ` set (map h xs))"
    using key by (simp add: image_image)
  then show ?thesis
    using assms by (simp add: upsert_by_def key map_update_first_sync)
qed

text \<open>
  A collection whose entries keep their key when merged: the interface the repository's
  collections share. The laws proved here are what every client of an upsert relies on.
\<close>

locale keyed_collection =
  fixes key :: "'a \<Rightarrow> 'k"
    and merge :: "'a \<Rightarrow> 'a \<Rightarrow> 'a"
  assumes key_merge: "key old = key new \<Longrightarrow> key (merge old new) = key new"
begin

abbreviation upsert :: "'a \<Rightarrow> 'a list \<Rightarrow> 'a list" where
  "upsert \<equiv> upsert_by key merge"

lemma keys_upsert:
  "map key (upsert x xs) = (if key x \<in> key ` set xs then map key xs else key x # map key xs)"
  by (simp add: upsert_by_def map_update_first key_merge)

lemma find_upsert_same:
  "find_by key (key x) (upsert x xs)
     = Some (case find_by key (key x) xs of None \<Rightarrow> x | Some old \<Rightarrow> merge old x)"
proof (cases "key x \<in> key ` set xs")
  case True
  from find_by_in [OF this] obtain y where "find_by key (key x) xs = Some y" by blast
  with True show ?thesis by (simp add: upsert_by_def find_update_first key_merge)
next
  case False
  then have "find_by key (key x) xs = None" by (simp add: find_by_None)
  with False show ?thesis by (simp add: upsert_by_def)
qed

lemma find_upsert_other: "k \<noteq> key x \<Longrightarrow> find_by key k (upsert x xs) = find_by key k xs"
  by (auto simp: upsert_by_def find_update_first key_merge)

lemma distinct_upsert: "distinct (map key xs) \<Longrightarrow> distinct (map key (upsert x xs))"
  by (simp add: keys_upsert)

lemma length_upsert:
  "length (upsert x xs) = (if key x \<in> key ` set xs then length xs else Suc (length xs))"
  by (simp add: upsert_by_def)

lemma keyset_upsert: "key ` set (upsert x xs) = insert (key x) (key ` set xs)"
proof -
  have "key ` set (upsert x xs) = set (map key (upsert x xs))" by simp
  also have "\<dots> = insert (key x) (key ` set xs)" by (simp only: keys_upsert) auto
  finally show ?thesis .
qed

lemma upsert_nonempty: "upsert x xs \<noteq> []"
  by (cases xs) (auto simp: upsert_by_def)

end

end
