(* ===== verification/JsValue.thy ===== *)
theory JsValue
  imports Prelude "HOL-Library.AList" Complex_Main
begin

text \<open>
  The JavaScript values the code handles without static types: parsed JSON, property
  lookup, truthiness, object spread, and the part of \<open>Date\<close> the code calls. A value that may be
  \<open>undefined\<close> is an option, \<open>None\<close> for \<open>undefined\<close>. A finite number is the rational it denotes.
  \<open>json_wire\<close> is what a value becomes on its way through JSON text.
\<close>

datatype jnum = Fin rat | PosInf | NegInf | NaN

datatype json =
    JNull
  | JBool bool
  | JNum jnum
  | JStr string
  | JArr "json list"
  | JObj "(string \<times> json) list"

type_synonym jsval = "json option"
type_synonym entries = "(string \<times> json) list"

abbreviation js_int :: "int \<Rightarrow> json" where
  "js_int i \<equiv> JNum (Fin (of_int i))"

section \<open>Tests and property lookup\<close>

fun truthy :: "jsval \<Rightarrow> bool" where
  "truthy None = False"
| "truthy (Some JNull) = False"
| "truthy (Some (JBool b)) = b"
| "truthy (Some (JNum n)) = (n \<noteq> Fin 0 \<and> n \<noteq> NaN)"
| "truthy (Some (JStr s)) = (s \<noteq> [])"
| "truthy (Some (JArr xs)) = True"
| "truthy (Some (JObj kvs)) = True"

text \<open>\<open>typeof v === "string"\<close> and \<open>typeof v === "number" && Number.isFinite(v)\<close>, with the value.\<close>

fun as_str :: "jsval \<Rightarrow> string option" where
  "as_str (Some (JStr s)) = Some s"
| "as_str _ = None"

fun as_finite :: "jsval \<Rightarrow> rat option" where
  "as_finite (Some (JNum (Fin q))) = Some q"
| "as_finite _ = None"

fun is_num :: "jsval \<Rightarrow> bool" where
  "is_num (Some (JNum _)) = True"
| "is_num _ = False"

text \<open>A non-null object (\<open>value && typeof value === "object"\<close>), and one that is no array.\<close>

fun is_object :: "jsval \<Rightarrow> bool" where
  "is_object (Some (JArr _)) = True"
| "is_object (Some (JObj _)) = True"
| "is_object _ = False"

fun is_plain_object :: "jsval \<Rightarrow> bool" where
  "is_plain_object (Some (JObj _)) = True"
| "is_plain_object _ = False"

lemma is_plain_objectE: "is_plain_object v \<Longrightarrow> (\<And>kvs. v = Some (JObj kvs) \<Longrightarrow> P) \<Longrightarrow> P"
  by (cases v rule: is_plain_object.cases) simp_all

text \<open>
  \<open>value.key\<close> for a value that is neither null nor undefined and a key that is no built-in
  property of it.
\<close>

fun getp :: "json \<Rightarrow> string \<Rightarrow> jsval" where
  "getp (JObj kvs) k = map_of kvs k"
| "getp _ k = None"

text \<open>\<open>a ?? b\<close> on values: \<open>null\<close> and \<open>undefined\<close> are skipped.\<close>

fun js_nullish :: "jsval \<Rightarrow> jsval \<Rightarrow> jsval" where
  "js_nullish None b = b"
| "js_nullish (Some JNull) b = b"
| "js_nullish (Some v) b = Some v"

section \<open>Objects\<close>

text \<open>Assigning a property; \<open>undefined\<close> is the same as leaving it out for every later read.\<close>

definition obj_put :: "string \<Rightarrow> jsval \<Rightarrow> entries \<Rightarrow> entries" where
  "obj_put k v kvs = (case v of Some x \<Rightarrow> AList.update k x kvs | None \<Rightarrow> AList.delete k kvs)"

text \<open>\<open>{...base, ...added}\<close>, the properties of \<open>added\<close> in order.\<close>

definition obj_spread :: "entries \<Rightarrow> entries \<Rightarrow> entries" where
  "obj_spread base added = fold (\<lambda>(k, v). AList.update k v) added base"

text \<open>An object literal whose undefined fields are left out.\<close>

definition mk_obj :: "(string \<times> jsval) list \<Rightarrow> json" where
  "mk_obj fs = JObj (List.map_filter (\<lambda>(k, v). map_option (Pair k) v) fs)"

definition obj_wf :: "entries \<Rightarrow> bool" where
  "obj_wf kvs = distinct (map fst kvs)"

text \<open>
  The own enumerable properties a spread copies: an array's elements under their index, an
  object's entries, nothing for a number, a boolean, \<open>null\<close> or \<open>undefined\<close>. A string spreads to
  its characters (its UTF-8 sequences here; a character beyond the BMP would be two).
\<close>

fun utf8_chars :: "nat \<Rightarrow> string \<Rightarrow> string list" where
  "utf8_chars 0 s = []"
| "utf8_chars (Suc n) [] = []"
| "utf8_chars (Suc n) (c # cs) =
     (let k = (let b = (of_char c :: nat) in
               if b < 192 then 0 else if b < 224 then 1 else if b < 240 then 2 else 3)
      in (c # take k cs) # utf8_chars n (drop k cs))"

definition indexed :: "json list \<Rightarrow> entries" where
  "indexed xs = zip (map nat_str [0..<length xs]) xs"

fun own_entries :: "jsval \<Rightarrow> entries" where
  "own_entries (Some (JObj kvs)) = kvs"
| "own_entries (Some (JArr xs)) = indexed xs"
| "own_entries (Some (JStr s)) = indexed (map JStr (utf8_chars (length s) s))"
| "own_entries _ = []"

lemma map_of_obj_put [simp]: "map_of (obj_put k v kvs) = (map_of kvs)(k := v)"
  by (cases v) (simp_all add: obj_put_def update_conv' delete_conv' restrict_map_def fun_eq_iff)

lemma map_of_rev_distinct: "distinct (map fst xs) \<Longrightarrow> map_of (rev xs) = map_of xs"
proof (induction xs)
  case (Cons x xs)
  then have "map_of xs (fst x) = None" by (simp add: map_of_eq_None_iff)
  with Cons show ?case by (auto simp: map_add_def fun_eq_iff split: option.splits)
qed simp

lemma map_of_obj_spread_rev: "map_of (obj_spread base added) = map_of base ++ map_of (rev added)"
  by (induction added arbitrary: base)
     (auto simp: obj_spread_def update_conv' map_add_def fun_eq_iff split: option.splits)

lemma map_of_obj_spread [simp]:
  "obj_wf added \<Longrightarrow> map_of (obj_spread base added) = map_of base ++ map_of added"
  by (simp add: map_of_obj_spread_rev obj_wf_def map_of_rev_distinct)

lemma obj_wf_put [simp]: "obj_wf kvs \<Longrightarrow> obj_wf (obj_put k v kvs)"
  by (cases v) (simp_all add: obj_put_def obj_wf_def distinct_update distinct_delete)

lemma obj_wf_spread [simp]: "obj_wf base \<Longrightarrow> obj_wf (obj_spread base added)"
  by (induction added arbitrary: base) (auto simp: obj_spread_def obj_wf_def distinct_update)

lemma obj_wf_simps [simp]:
  "obj_wf []" "obj_wf ((k, v) # kvs) \<longleftrightarrow> k \<notin> fst ` set kvs \<and> obj_wf kvs"
  by (simp_all add: obj_wf_def)

lemma mk_obj_Nil: "mk_obj [] = JObj []"
  by (simp add: mk_obj_def map_filter_simps)

lemma mk_obj_entries:
  "mk_obj ((k, v) # fs)
     = (case (v, mk_obj fs) of (Some x, JObj kvs) \<Rightarrow> JObj ((k, x) # kvs) | (_, r) \<Rightarrow> r)"
  by (cases v) (simp_all add: mk_obj_def map_filter_simps)

lemma getp_mk_obj: "distinct (map fst fs) \<Longrightarrow> getp (mk_obj fs) k = (case map_of fs k of Some v \<Rightarrow> v | None \<Rightarrow> None)"
proof (induction fs)
  case Nil
  then show ?case by (simp add: mk_obj_Nil)
next
  case (Cons f fs)
  obtain a v where f: "f = (a, v)" by (cases f)
  from Cons have IH: "getp (mk_obj fs) k = (case map_of fs k of Some v \<Rightarrow> v | None \<Rightarrow> None)"
    by simp
  have "a \<notin> fst ` set fs" using Cons.prems f by simp
  then have none: "map_of fs a = None" by (simp add: map_of_eq_None_iff)
  show ?case
    using IH none f by (cases v) (auto simp: mk_obj_def map_filter_simps)
qed

section \<open>Dates\<close>

text \<open>
  The clock: \<open>clk k\<close> is the k-th reading an operation takes, in milliseconds since the epoch,
  always a valid time value. \<open>iso_of_ms\<close> is \<open>Date.prototype.toISOString\<close> on the proleptic
  Gregorian calendar.
\<close>

type_synonym clock = "nat \<Rightarrow> int"

definition pad :: "nat \<Rightarrow> nat \<Rightarrow> string" where
  "pad w n = (let s = nat_str n in replicate (w - length s) (CHR ''0'') @ s)"

definition civil_of_days :: "int \<Rightarrow> int \<times> int \<times> int" where
  "civil_of_days days =
     (let z = days + 719468; era = z div 146097; doe = z mod 146097;
          yoe = (doe - doe div 1460 + doe div 36524 - doe div 146096) div 365;
          doy = doe - (365 * yoe + yoe div 4 - yoe div 100);
          mp = (5 * doy + 2) div 153;
          d = doy - (153 * mp + 2) div 5 + 1;
          m = (if mp < 10 then mp + 3 else mp - 9);
          y = yoe + era * 400 + (if m \<le> 2 then 1 else 0)
      in (y, m, d))"

definition iso_year :: "int \<Rightarrow> string" where
  "iso_year y = (if 0 \<le> y \<and> y \<le> 9999 then pad 4 (nat y)
                 else (if y < 0 then ''-'' else ''+'') @ pad 6 (nat \<bar>y\<bar>))"

definition iso_of_ms :: "int \<Rightarrow> string" where
  "iso_of_ms t =
     (let days = t div 86400000; r = t mod 86400000; (y, m, d) = civil_of_days days
      in iso_year y @ ''-'' @ pad 2 (nat m) @ ''-'' @ pad 2 (nat d) @ ''T'' @
         pad 2 (nat (r div 3600000)) @ '':'' @ pad 2 (nat (r div 60000 mod 60)) @ '':'' @
         pad 2 (nat (r div 1000 mod 60)) @ ''.'' @ pad 3 (nat (r mod 1000)) @ ''Z'')"

text \<open>
  \<open>new Date(q).toISOString()\<close>: a time value beyond 8.64e15 ms is an invalid date, whose
  conversion throws.
\<close>

definition rat_trunc :: "rat \<Rightarrow> int" where
  "rat_trunc q = (if q < 0 then - \<lfloor>- q\<rfloor> else \<lfloor>q\<rfloor>)"

definition date_iso :: "rat \<Rightarrow> js_error + string" where
  "date_iso q = (if \<bar>q\<bar> > 8640000000000000 then Inl (RangeError ''Invalid time value'')
                 else Inr (iso_of_ms (rat_trunc q)))"

lemma iso_of_ms_epoch: "iso_of_ms 1776672600000 = ''2026-04-20T08:10:00.000Z''"
  by code_simp

lemma iso_of_ms_nonempty [simp]: "iso_of_ms t \<noteq> []"
  by (simp add: iso_of_ms_def Let_def split: prod.splits)

section \<open>Through JSON text\<close>

text \<open>\<open>JSON.parse(JSON.stringify(v))\<close>: a number that is not finite comes back as null.\<close>

fun json_wire :: "json \<Rightarrow> json" where
  "json_wire (JNum (Fin q)) = JNum (Fin q)"
| "json_wire (JNum _) = JNull"
| "json_wire (JArr xs) = JArr (map json_wire xs)"
| "json_wire (JObj kvs) = JObj (map (\<lambda>(k, v). (k, json_wire v)) kvs)"
| "json_wire v = v"

lemma getp_wire: "getp (json_wire v) k = map_option json_wire (getp v k)"
proof (cases v)
  case (JNum x)
  then show ?thesis by (cases x) simp_all
next
  case (JObj kvs)
  have "map_of (map (\<lambda>(k, v). (k, json_wire v)) kvs) k = map_option json_wire (map_of kvs k)"
    by (induction kvs) auto
  with JObj show ?thesis by simp
qed simp_all

text \<open>Values whose numbers are all finite come back as they were; what came back once stays.\<close>

fun only_finite :: "json \<Rightarrow> bool" where
  "only_finite (JNum x) \<longleftrightarrow> (case x of Fin q \<Rightarrow> True | _ \<Rightarrow> False)"
| "only_finite (JArr xs) \<longleftrightarrow> list_all only_finite xs"
| "only_finite (JObj kvs) \<longleftrightarrow> list_all (\<lambda>(k, v). only_finite v) kvs"
| "only_finite v \<longleftrightarrow> True"

lemma json_wire_finite: "only_finite v \<Longrightarrow> json_wire v = v"
proof (induction v rule: json_wire.induct)
  case (3 xs)
  then show ?case by (simp add: list_all_iff map_idI)
next
  case (4 kvs)
  then have "json_wire v = v" if "(k, v) \<in> set kvs" for k v using that by (force simp: list_all_iff)
  then show ?case by (auto intro!: map_idI)
qed simp_all

lemma only_finite_wire: "only_finite (json_wire v)"
proof (induction v rule: json_wire.induct)
  case (3 xs)
  then show ?case by (auto simp: list_all_iff)
next
  case (4 kvs)
  then show ?case by (fastforce simp: list_all_iff)
qed simp_all

lemma json_wire_twice [simp]: "json_wire (json_wire v) = json_wire v"
  by (rule json_wire_finite) (rule only_finite_wire)

end
