(* ===== verification/ApiTypes.thy ===== *)
theory ApiTypes
  imports JsValue
begin

text \<open>
  The data of the Product API (packages/api): the summaries and details of workflows, runs
  and sessions, connections, settings, knowledge sources, automations, audit events, the state
  that holds them, and the mock state a fresh server starts with. A detail type extends its
  summary, as in the source. Optional fields are options, \<open>None\<close> for an absent property.
  Fields that the HTTP layer fills from a request body without checking them (settings, a
  source's type, an automation's trigger) are JSON values.
\<close>

record workbench =
  pendingApprovals :: int
  recentRuns :: int
  recentSessions :: int
  connectedChannels :: int

datatype workflow_status = WfDraft | WfActive | WfPaused

record workflow_summary =
  wf_id :: string
  wf_name :: string
  wf_status :: workflow_status
  wf_lastRunAt :: string

record workflow_detail = workflow_summary +
  wf_description :: "string option"

datatype run_status = Queued | Running | Completed | Failed

record run_summary =
  run_id :: string
  run_workflowId :: string
  run_title :: string
  run_status_of :: run_status
  run_startedAt :: string

record run_detail = run_summary +
  run_resultSummary :: "string option"

datatype session_status = SActive | SEnded

record session_summary =
  se_id :: string
  se_title :: string
  se_channelType :: string
  se_status :: session_status
  se_updatedAt :: string

record session_detail = session_summary +
  se_messageCount :: "int option"

datatype connection_status = Connected | Offline | Pending

record connection =
  conn_id :: string
  conn_channelType :: string
  conn_status :: connection_status
  conn_lastActiveAt :: string

type_synonym settings = entries

datatype knowledge_status = KReady | KSyncing | KError

record knowledge_source =
  ks_id :: string
  ks_name :: string
  ks_sourceType :: json
  ks_status :: knowledge_status
  ks_updatedAt :: string
  ks_documentCount :: int

datatype automation_status = AActive | APaused

record automation =
  au_id :: string
  au_name :: string
  au_triggerType :: json
  au_status :: automation_status
  au_lastRunAt :: "string option"
  au_nextRunAt :: "string option"

datatype audit_level = Info | Warning | ErrorLevel

record audit_event =
  ae_id :: string
  ae_action :: string
  ae_level :: audit_level
  ae_happenedAt :: string

section \<open>Mock data\<close>

definition mockWorkbench :: workbench where
  "mockWorkbench = \<lparr>pendingApprovals = 2, recentRuns = 12, recentSessions = 6, connectedChannels = 1\<rparr>"

definition mockWorkflows :: "workflow_summary list" where
  "mockWorkflows =
    [\<lparr>wf_id = ''wf-1'', wf_name = [CHR 0xE9, CHR 0xA3, CHR 0x9E, CHR 0xE4, CHR 0xB9, CHR 0xA6,
        CHR 0xE6, CHR 0x97, CHR 0xA5, CHR 0xE6, CHR 0x8A, CHR 0xA5, CHR 0xE6, CHR 0xB1, CHR 0x87, CHR 0xE6,
        CHR 0x80, CHR 0xBB], wf_status = WfActive,
      wf_lastRunAt = ''2026-04-20T08:05:00.000Z''\<rparr>,
     \<lparr>wf_id = ''wf-2'', wf_name = [CHR 0xE5, CHR 0xB7, CHR 0xA1, CHR 0xE6, CHR 0xA3, CHR 0x80,
         CHR 0xE6, CHR 0x8F, CHR 0x90, CHR 0xE9, CHR 0x86, CHR 0x92], wf_status = WfDraft,
      wf_lastRunAt = ''2026-04-20T07:35:00.000Z''\<rparr>]"

definition mockWorkflowDetails :: "workflow_detail list" where
  "mockWorkflowDetails =
    [\<lparr>wf_id = ''wf-1'', wf_name = [CHR 0xE9, CHR 0xA3, CHR 0x9E, CHR 0xE4, CHR 0xB9, CHR 0xA6,
        CHR 0xE6, CHR 0x97, CHR 0xA5, CHR 0xE6, CHR 0x8A, CHR 0xA5, CHR 0xE6, CHR 0xB1, CHR 0x87, CHR 0xE6,
        CHR 0x80, CHR 0xBB], wf_status = WfActive,
      wf_lastRunAt = ''2026-04-20T08:05:00.000Z'',
      wf_description = Some [CHR 0xE8, CHR 0x81, CHR 0x9A, CHR 0xE5, CHR 0x90, CHR 0x88, CHR 0xE9,
          CHR 0xA3, CHR 0x9E, CHR 0xE4, CHR 0xB9, CHR 0xA6, CHR 0xE5, CHR 0x85, CHR 0xA5, CHR 0xE5,
          CHR 0x8F, CHR 0xA3, CHR 0xE4, CHR 0xB8, CHR 0xAD, CHR 0xE7, CHR 0x9A, CHR 0x84, CHR 0xE6,
          CHR 0x97, CHR 0xA5, CHR 0xE6, CHR 0x8A, CHR 0xA5, CHR 0xE5, CHR 0x86, CHR 0x85, CHR 0xE5,
          CHR 0xAE, CHR 0xB9, CHR 0xEF, CHR 0xBC, CHR 0x8C, CHR 0xE7, CHR 0x94, CHR 0x9F, CHR 0xE6,
          CHR 0x88, CHR 0x90, CHR 0xE7, CHR 0xBB, CHR 0x93, CHR 0xE6, CHR 0x9E, CHR 0x84, CHR 0xE5,
          CHR 0x8C, CHR 0x96, CHR 0xE6, CHR 0xB1, CHR 0x87, CHR 0xE6, CHR 0x80, CHR 0xBB, CHR 0xE5,
          CHR 0xB9, CHR 0xB6, CHR 0xE5, CHR 0x90, CHR 0x8C, CHR 0xE6, CHR 0xAD, CHR 0xA5, CHR 0xE5,
          CHR 0x88, CHR 0xB0, CHR 0xE5, CHR 0xB7, CHR 0xA5, CHR 0xE4, CHR 0xBD, CHR 0x9C, CHR 0xE5,
          CHR 0x8F, CHR 0xB0, CHR 0xE3, CHR 0x80, CHR 0x82]\<rparr>,
     \<lparr>wf_id = ''wf-2'', wf_name = [CHR 0xE5, CHR 0xB7, CHR 0xA1, CHR 0xE6, CHR 0xA3, CHR 0x80,
         CHR 0xE6, CHR 0x8F, CHR 0x90, CHR 0xE9, CHR 0x86, CHR 0x92], wf_status = WfDraft,
      wf_lastRunAt = ''2026-04-20T07:35:00.000Z'',
      wf_description = Some [CHR 0xE6, CHR 0x8C, CHR 0x89, CHR 0xE9, CHR 0xA2, CHR 0x84, CHR 0xE8,
          CHR 0xAE, CHR 0xBE, CHR 0xE6, CHR 0x97, CHR 0xB6, CHR 0xE9, CHR 0x97, CHR 0xB4, CHR 0xE8,
          CHR 0xA7, CHR 0xA6, CHR 0xE5, CHR 0x8F, CHR 0x91, CHR 0xE5, CHR 0xB7, CHR 0xA1, CHR 0xE6,
          CHR 0xA3, CHR 0x80, CHR 0xE4, CHR 0xBB, CHR 0xBB, CHR 0xE5, CHR 0x8A, CHR 0xA1, CHR 0xEF,
          CHR 0xBC, CHR 0x8C, CHR 0xE5, CHR 0xB9, CHR 0xB6, CHR 0xE5, CHR 0xB0, CHR 0x86, CHR 0xE5,
          CHR 0xBC, CHR 0x82, CHR 0xE5, CHR 0xB8, CHR 0xB8, CHR 0xE9, CHR 0xA1, CHR 0xB9, CHR 0xE5,
          CHR 0x86, CHR 0x99, CHR 0xE5, CHR 0x85, CHR 0xA5, CHR 0xE5, CHR 0xAE, CHR 0xA1, CHR 0xE8,
          CHR 0xAE, CHR 0xA1, CHR 0xE4, CHR 0xBA, CHR 0x8B, CHR 0xE4, CHR 0xBB, CHR 0xB6, CHR 0xE5,
          CHR 0x88, CHR 0x97, CHR 0xE8, CHR 0xA1, CHR 0xA8, CHR 0xE3, CHR 0x80, CHR 0x82]\<rparr>]"

definition mockRuns :: "run_summary list" where
  "mockRuns =
    [\<lparr>run_id = ''run-1'', run_workflowId = ''wf-1'', run_title = [CHR 0xE9, CHR 0xA3, CHR 0x9E,
        CHR 0xE4, CHR 0xB9, CHR 0xA6, CHR 0xE6, CHR 0x97, CHR 0xA5, CHR 0xE6, CHR 0x8A, CHR 0xA5, CHR 0xE6,
        CHR 0xB1, CHR 0x87, CHR 0xE6, CHR 0x80, CHR 0xBB],
      run_status_of = Running, run_startedAt = ''2026-04-20T08:10:00.000Z''\<rparr>,
     \<lparr>run_id = ''run-2'', run_workflowId = ''wf-2'', run_title = [CHR 0xE5, CHR 0xB7, CHR 0xA1,
         CHR 0xE6, CHR 0xA3, CHR 0x80, CHR 0xE6, CHR 0x8F, CHR 0x90, CHR 0xE9, CHR 0x86, CHR 0x92],
      run_status_of = Failed, run_startedAt = ''2026-04-20T07:00:00.000Z''\<rparr>]"

definition mockRunDetails :: "run_detail list" where
  "mockRunDetails =
    [\<lparr>run_id = ''run-1'', run_workflowId = ''wf-1'', run_title = [CHR 0xE9, CHR 0xA3, CHR 0x9E,
        CHR 0xE4, CHR 0xB9, CHR 0xA6, CHR 0xE6, CHR 0x97, CHR 0xA5, CHR 0xE6, CHR 0x8A, CHR 0xA5, CHR 0xE6,
        CHR 0xB1, CHR 0x87, CHR 0xE6, CHR 0x80, CHR 0xBB],
      run_status_of = Running, run_startedAt = ''2026-04-20T08:10:00.000Z'',
      run_resultSummary = Some ([CHR 0xE7, CHR 0xAD, CHR 0x89, CHR 0xE5, CHR 0xBE,
          CHR 0x85] @ '' OpenClaw runtime '' @ [CHR 0xE5, CHR 0xAE, CHR 0x8C, CHR 0xE6, CHR 0x88, CHR 0x90,
          CHR 0xE6, CHR 0xB5, CHR 0x81, CHR 0xE5, CHR 0xBC, CHR 0x8F, CHR 0xE6, CHR 0x89, CHR 0xA7,
          CHR 0xE8, CHR 0xA1, CHR 0x8C, CHR 0xEF, CHR 0xBC, CHR 0x8C, CHR 0xE5, CHR 0xBD, CHR 0x93,
          CHR 0xE5, CHR 0x89, CHR 0x8D, CHR 0xE5, CHR 0xA4, CHR 0x84, CHR 0xE4, CHR 0xBA, CHR 0x8E,
          CHR 0xE5, CHR 0xB7, CHR 0xA5, CHR 0xE5, CHR 0x85, CHR 0xB7, CHR 0xE8, CHR 0xB0, CHR 0x83,
          CHR 0xE7, CHR 0x94, CHR 0xA8, CHR 0xE9, CHR 0x98, CHR 0xB6, CHR 0xE6, CHR 0xAE, CHR 0xB5,
          CHR 0xE3, CHR 0x80, CHR 0x82])\<rparr>,
     \<lparr>run_id = ''run-2'', run_workflowId = ''wf-2'', run_title = [CHR 0xE5, CHR 0xB7, CHR 0xA1,
         CHR 0xE6, CHR 0xA3, CHR 0x80, CHR 0xE6, CHR 0x8F, CHR 0x90, CHR 0xE9, CHR 0x86, CHR 0x92],
      run_status_of = Failed, run_startedAt = ''2026-04-20T07:00:00.000Z'',
      run_resultSummary = Some [CHR 0xE8, CHR 0xB0, CHR 0x83, CHR 0xE7, CHR 0x94, CHR 0xA8, CHR 0xE5,
          CHR 0xA4, CHR 0x96, CHR 0xE9, CHR 0x83, CHR 0xA8, CHR 0xE7, CHR 0xB3, CHR 0xBB, CHR 0xE7,
          CHR 0xBB, CHR 0x9F, CHR 0xE5, CHR 0xA4, CHR 0xB1, CHR 0xE8, CHR 0xB4, CHR 0xA5, CHR 0xEF,
          CHR 0xBC, CHR 0x8C, CHR 0xE7, CHR 0xAD, CHR 0x89, CHR 0xE5, CHR 0xBE, CHR 0x85, CHR 0xE4,
          CHR 0xBA, CHR 0xBA, CHR 0xE5, CHR 0xB7, CHR 0xA5, CHR 0xE9, CHR 0x87, CHR 0x8D, CHR 0xE8,
          CHR 0xAF, CHR 0x95, CHR 0xE3, CHR 0x80, CHR 0x82]\<rparr>]"

definition mockSessions :: "session_summary list" where
  "mockSessions =
    [\<lparr>se_id = ''session-1'', se_title = [CHR 0xE6, CHR 0x97, CHR 0xA5, CHR 0xE6, CHR 0x8A, CHR 0xA5,
        CHR 0xE6, CHR 0xB1, CHR 0x87, CHR 0xE6, CHR 0x80, CHR 0xBB, CHR 0xE4, CHR 0xBC, CHR 0x9A, CHR 0xE8,
        CHR 0xAF, CHR 0x9D], se_channelType = ''feishu'',
      se_status = SActive, se_updatedAt = ''2026-04-20T08:12:00.000Z''\<rparr>,
     \<lparr>se_id = ''session-2'', se_title = [CHR 0xE6, CHR 0x96, CHR 0x87, CHR 0xE6, CHR 0xA1, CHR 0xA3,
         CHR 0xE6, CHR 0x80, CHR 0xBB, CHR 0xE7, CHR 0xBB, CHR 0x93, CHR 0xE4, CHR 0xBC, CHR 0x9A,
         CHR 0xE8, CHR 0xAF, CHR 0x9D], se_channelType = ''web'',
      se_status = SEnded, se_updatedAt = ''2026-04-20T06:45:00.000Z''\<rparr>]"

definition mockSessionDetails :: "session_detail list" where
  "mockSessionDetails =
    [\<lparr>se_id = ''session-1'', se_title = [CHR 0xE6, CHR 0x97, CHR 0xA5, CHR 0xE6, CHR 0x8A, CHR 0xA5,
        CHR 0xE6, CHR 0xB1, CHR 0x87, CHR 0xE6, CHR 0x80, CHR 0xBB, CHR 0xE4, CHR 0xBC, CHR 0x9A, CHR 0xE8,
        CHR 0xAF, CHR 0x9D], se_channelType = ''feishu'',
      se_status = SActive, se_updatedAt = ''2026-04-20T08:12:00.000Z'', se_messageCount = Some 14\<rparr>,
     \<lparr>se_id = ''session-2'', se_title = [CHR 0xE6, CHR 0x96, CHR 0x87, CHR 0xE6, CHR 0xA1, CHR 0xA3,
         CHR 0xE6, CHR 0x80, CHR 0xBB, CHR 0xE7, CHR 0xBB, CHR 0x93, CHR 0xE4, CHR 0xBC, CHR 0x9A,
         CHR 0xE8, CHR 0xAF, CHR 0x9D], se_channelType = ''web'',
      se_status = SEnded, se_updatedAt = ''2026-04-20T06:45:00.000Z'', se_messageCount = Some 9\<rparr>]"

definition mockConnections :: "connection list" where
  "mockConnections =
    [\<lparr>conn_id = ''conn-feishu'', conn_channelType = ''feishu'', conn_status = Connected,
      conn_lastActiveAt = ''2026-04-20T08:00:00.000Z''\<rparr>,
     \<lparr>conn_id = ''conn-wecom'', conn_channelType = ''wecom'', conn_status = Offline,
      conn_lastActiveAt = ''2026-04-19T12:00:00.000Z''\<rparr>]"

definition mockSettings :: settings where
  "mockSettings =
    [(''defaultModel'', JStr ''gpt-5.2''),
     (''realtimeMode'', JStr ''proxy-openclaw-events''),
     (''workspaceName'', JStr ''Vertx Workspace'')]"

definition mockKnowledgeSources :: "knowledge_source list" where
  "mockKnowledgeSources =
    [\<lparr>ks_id = ''knowledge-1'', ks_name = [CHR 0xE9, CHR 0xA3, CHR 0x9E, CHR 0xE4, CHR 0xB9,
        CHR 0xA6, CHR 0xE9, CHR 0x94, CHR 0x80, CHR 0xE5, CHR 0x94, CHR 0xAE, CHR 0xE7, CHR 0x9F, CHR 0xA5,
        CHR 0xE8, CHR 0xAF, CHR 0x86, CHR 0xE5, CHR 0xBA, CHR 0x93], ks_sourceType = JStr ''feishu-doc'',
      ks_status = KReady, ks_updatedAt = ''2026-04-20T08:20:00.000Z'', ks_documentCount = 24\<rparr>,
     \<lparr>ks_id = ''knowledge-2'', ks_name = (''FAQ '' @ [CHR 0xE5, CHR 0xAF, CHR 0xBC, CHR 0xE5,
         CHR 0x85, CHR 0xA5, CHR 0xE9, CHR 0x9B, CHR 0x86, CHR 0xE5, CHR 0x90, CHR 0x88]),
         ks_sourceType = JStr ''faq'',
      ks_status = KSyncing, ks_updatedAt = ''2026-04-20T07:55:00.000Z'', ks_documentCount = 8\<rparr>]"

definition mockAutomations :: "automation list" where
  "mockAutomations =
    [\<lparr>au_id = ''automation-1'', au_name = [CHR 0xE6, CHR 0x97, CHR 0xA5, CHR 0xE6, CHR 0x8A,
        CHR 0xA5, CHR 0xE6, CHR 0xB1, CHR 0x87, CHR 0xE6, CHR 0x80, CHR 0xBB, CHR 0xE5, CHR 0xAE, CHR 0x9A,
        CHR 0xE6, CHR 0x97, CHR 0xB6, CHR 0xE4, CHR 0xBB, CHR 0xBB, CHR 0xE5, CHR 0x8A, CHR 0xA1],
        au_triggerType = JStr ''schedule'',
      au_status = AActive, au_lastRunAt = Some ''2026-04-20T08:00:00.000Z'',
      au_nextRunAt = Some ''2026-04-21T08:00:00.000Z''\<rparr>,
     \<lparr>au_id = ''automation-2'', au_name = [CHR 0xE7, CHR 0x9F, CHR 0xA5, CHR 0xE8, CHR 0xAF,
         CHR 0x86, CHR 0xE5, CHR 0xBA, CHR 0x93, CHR 0xE5, CHR 0xA2, CHR 0x9E, CHR 0xE9, CHR 0x87,
         CHR 0x8F, CHR 0xE5, CHR 0x90, CHR 0x8C, CHR 0xE6, CHR 0xAD, CHR 0xA5],
         au_triggerType = JStr ''event'',
      au_status = APaused, au_lastRunAt = Some ''2026-04-19T18:30:00.000Z'', au_nextRunAt = None\<rparr>]"

definition mockAuditEvents :: "audit_event list" where
  "mockAuditEvents =
    [\<lparr>ae_id = ''audit-1'', ae_action = ''workflow.run.started'', ae_level = Info,
      ae_happenedAt = ''2026-04-20T08:10:00.000Z''\<rparr>,
     \<lparr>ae_id = ''audit-2'', ae_action = ''approval.requested'', ae_level = Warning,
      ae_happenedAt = ''2026-04-20T08:13:00.000Z''\<rparr>]"

section \<open>The state\<close>

record product_state =
  workbench_st :: workbench
  workflows :: "workflow_summary list"
  workflowDetails :: "workflow_detail list"
  runs :: "run_summary list"
  runDetails :: "run_detail list"
  sessions :: "session_summary list"
  sessionDetails :: "session_detail list"
  connections :: "connection list"
  settings_st :: settings
  knowledgeSources :: "knowledge_source list"
  automations :: "automation list"
  auditEvents :: "audit_event list"

definition createMockProductApiState :: product_state where
  "createMockProductApiState =
    \<lparr>workbench_st = mockWorkbench,
     workflows = mockWorkflows,
     workflowDetails = mockWorkflowDetails,
     runs = mockRuns,
     runDetails = mockRunDetails,
     sessions = mockSessions,
     sessionDetails = mockSessionDetails,
     connections = mockConnections,
     settings_st = mockSettings,
     knowledgeSources = mockKnowledgeSources,
     automations = mockAutomations,
     auditEvents = mockAuditEvents\<rparr>"

lemmas mock_defs = createMockProductApiState_def mockWorkbench_def mockWorkflows_def
  mockWorkflowDetails_def mockRuns_def mockRunDetails_def mockSessions_def mockSessionDetails_def
  mockConnections_def mockSettings_def mockKnowledgeSources_def mockAutomations_def
  mockAuditEvents_def

end
