(* ===== verification/Repository.thy ===== *)
theory Repository
  imports ApiTypes
begin

text \<open>
  The repository of packages/domain: the interface \<open>ProductApiRepository\<close> as a record of
  functions over an arbitrary store, and its in-memory implementation. Every operation of the
  source is one definition \<open>im_\<dots>\<close>; a mutation returns the new state. The locale
  \<open>product_repository\<close> is what the store and the mirror rely on: an implementation is
  observed through a \<open>product_state\<close>, and each operation acts on that view as the in-memory
  one does.
\<close>

section \<open>The interface\<close>

record 's repository =
  getWorkbenchState :: "'s \<Rightarrow> workbench"
  setWorkbenchState :: "workbench \<Rightarrow> 's \<Rightarrow> 's"
  listWorkflows :: "'s \<Rightarrow> workflow_summary list"
  listWorkflowDetails :: "'s \<Rightarrow> workflow_detail list"
  getWorkflowSummary :: "string \<Rightarrow> 's \<Rightarrow> workflow_summary option"
  getWorkflowDetail :: "string \<Rightarrow> 's \<Rightarrow> workflow_detail option"
  prependWorkflow :: "workflow_detail \<Rightarrow> 's \<Rightarrow> 's"
  updateWorkflowLastRunAt :: "string \<Rightarrow> string \<Rightarrow> 's \<Rightarrow> 's"
  listRuns :: "'s \<Rightarrow> run_summary list"
  listRunDetails :: "'s \<Rightarrow> run_detail list"
  getRunDetail :: "string \<Rightarrow> 's \<Rightarrow> run_detail option"
  prependRun :: "run_detail \<Rightarrow> 's \<Rightarrow> 's"
  upsertRun :: "run_detail \<Rightarrow> 's \<Rightarrow> run_detail \<times> 's"
  listSessions :: "'s \<Rightarrow> session_summary list"
  listSessionDetails :: "'s \<Rightarrow> session_detail list"
  getSessionDetail :: "string \<Rightarrow> 's \<Rightarrow> session_detail option"
  upsertSession :: "session_detail \<Rightarrow> 's \<Rightarrow> session_detail \<times> 's"
  listConnections :: "'s \<Rightarrow> connection list"
  upsertConnection :: "connection \<Rightarrow> 's \<Rightarrow> connection \<times> 's"
  getSettings :: "'s \<Rightarrow> settings"
  setSettings :: "settings \<Rightarrow> 's \<Rightarrow> 's"
  listKnowledgeSources :: "'s \<Rightarrow> knowledge_source list"
  prependKnowledgeSource :: "knowledge_source \<Rightarrow> 's \<Rightarrow> 's"
  listAutomations :: "'s \<Rightarrow> automation list"
  getAutomation :: "string \<Rightarrow> 's \<Rightarrow> automation option"
  prependAutomation :: "automation \<Rightarrow> 's \<Rightarrow> 's"
  upsertAutomation :: "automation \<Rightarrow> 's \<Rightarrow> automation \<times> 's"
  listAuditEvents :: "'s \<Rightarrow> audit_event list"
  prependAuditEvent :: "audit_event \<Rightarrow> 's \<Rightarrow> 's"

section \<open>The in-memory repository\<close>

subsection \<open>Workbench and workflows\<close>

definition im_setWorkbenchState :: "workbench \<Rightarrow> product_state \<Rightarrow> product_state" where
  "im_setWorkbenchState w s = s\<lparr>workbench_st := w\<rparr>"

definition im_getWorkflowSummary :: "string \<Rightarrow> product_state \<Rightarrow> workflow_summary option" where
  "im_getWorkflowSummary i s = find_by wf_id i (workflows s)"

definition im_getWorkflowDetail :: "string \<Rightarrow> product_state \<Rightarrow> workflow_detail option" where
  "im_getWorkflowDetail i s = find_by wf_id i (workflowDetails s)"

definition workflow_summary_of :: "workflow_detail \<Rightarrow> workflow_summary" where
  "workflow_summary_of w = \<lparr>wf_id = wf_id w, wf_name = wf_name w, wf_status = wf_status w,
     wf_lastRunAt = wf_lastRunAt w\<rparr>"

definition im_prependWorkflow :: "workflow_detail \<Rightarrow> product_state \<Rightarrow> product_state" where
  "im_prependWorkflow w s = s\<lparr>workflowDetails := w # workflowDetails s,
     workflows := workflow_summary_of w # workflows s\<rparr>"

definition im_updateWorkflowLastRunAt :: "string \<Rightarrow> string \<Rightarrow> product_state \<Rightarrow> product_state" where
  "im_updateWorkflowLastRunAt i t s =
     s\<lparr>workflows := update_first wf_id i (\<lambda>w. w\<lparr>wf_lastRunAt := t\<rparr>) (workflows s),
       workflowDetails := update_first wf_id i (\<lambda>w. w\<lparr>wf_lastRunAt := t\<rparr>) (workflowDetails s)\<rparr>"

subsection \<open>Runs\<close>

definition im_getRunDetail :: "string \<Rightarrow> product_state \<Rightarrow> run_detail option" where
  "im_getRunDetail i s = find_by run_id i (runDetails s)"

definition run_summary_of :: "run_detail \<Rightarrow> run_summary" where
  "run_summary_of r = \<lparr>run_id = run_id r, run_workflowId = run_workflowId r,
     run_title = run_title r, run_status_of = run_status_of r, run_startedAt = run_startedAt r\<rparr>"

definition im_prependRun :: "run_detail \<Rightarrow> product_state \<Rightarrow> product_state" where
  "im_prependRun r s = s\<lparr>runDetails := r # runDetails s, runs := run_summary_of r # runs s\<rparr>"

text \<open>\<open>{...old, ...run}\<close>: an optional field the new object lacks keeps its old value.\<close>

definition merge_run_detail :: "run_detail \<Rightarrow> run_detail \<Rightarrow> run_detail" where
  "merge_run_detail old r = r\<lparr>run_resultSummary := nullish_opt (run_resultSummary r) (run_resultSummary old)\<rparr>"

definition merge_run_summary :: "run_summary \<Rightarrow> run_summary \<Rightarrow> run_summary" where
  "merge_run_summary old r = r"

definition im_upsertRun :: "run_detail \<Rightarrow> product_state \<Rightarrow> run_detail \<times> product_state" where
  "im_upsertRun r s =
     (let details = upsert_by run_id merge_run_detail r (runDetails s);
          s' = s\<lparr>runDetails := details,
                 runs := upsert_by run_id merge_run_summary (run_summary_of r) (runs s)\<rparr>
      in (nullish (find_by run_id (run_id r) details) r, s'))"

subsection \<open>Sessions\<close>

definition im_getSessionDetail :: "string \<Rightarrow> product_state \<Rightarrow> session_detail option" where
  "im_getSessionDetail i s = find_by se_id i (sessionDetails s)"

definition session_summary_of :: "session_detail \<Rightarrow> session_summary" where
  "session_summary_of d = \<lparr>se_id = se_id d, se_title = se_title d,
     se_channelType = se_channelType d, se_status = se_status d, se_updatedAt = se_updatedAt d\<rparr>"

definition merge_session_detail :: "session_detail \<Rightarrow> session_detail \<Rightarrow> session_detail" where
  "merge_session_detail old d = d\<lparr>se_messageCount := nullish_opt (se_messageCount d) (se_messageCount old)\<rparr>"

definition merge_session_summary :: "session_summary \<Rightarrow> session_summary \<Rightarrow> session_summary" where
  "merge_session_summary old d = d"

definition im_upsertSession :: "session_detail \<Rightarrow> product_state \<Rightarrow> session_detail \<times> product_state" where
  "im_upsertSession d s =
     (let details = upsert_by se_id merge_session_detail d (sessionDetails s);
          s' = s\<lparr>sessionDetails := details,
                 sessions := upsert_by se_id merge_session_summary (session_summary_of d) (sessions s)\<rparr>
      in (nullish (find_by se_id (se_id d) details) d, s'))"

subsection \<open>Connections, settings, knowledge, automations, audit\<close>

definition im_upsertConnection :: "connection \<Rightarrow> product_state \<Rightarrow> connection \<times> product_state" where
  "im_upsertConnection c s = (c, s\<lparr>connections := upsert_by conn_id (\<lambda>_ n. n) c (connections s)\<rparr>)"

definition im_setSettings :: "settings \<Rightarrow> product_state \<Rightarrow> product_state" where
  "im_setSettings st s = s\<lparr>settings_st := st\<rparr>"

definition im_prependKnowledgeSource :: "knowledge_source \<Rightarrow> product_state \<Rightarrow> product_state" where
  "im_prependKnowledgeSource k s = s\<lparr>knowledgeSources := k # knowledgeSources s\<rparr>"

definition im_getAutomation :: "string \<Rightarrow> product_state \<Rightarrow> automation option" where
  "im_getAutomation i s = find_by au_id i (automations s)"

definition im_prependAutomation :: "automation \<Rightarrow> product_state \<Rightarrow> product_state" where
  "im_prependAutomation a s = s\<lparr>automations := a # automations s\<rparr>"

definition im_upsertAutomation :: "automation \<Rightarrow> product_state \<Rightarrow> automation \<times> product_state" where
  "im_upsertAutomation a s = (a, s\<lparr>automations := upsert_by au_id (\<lambda>_ n. n) a (automations s)\<rparr>)"

definition im_prependAuditEvent :: "audit_event \<Rightarrow> product_state \<Rightarrow> product_state" where
  "im_prependAuditEvent e s = s\<lparr>auditEvents := e # auditEvents s\<rparr>"

definition createInMemoryProductApiRepository :: "product_state repository" where
  "createInMemoryProductApiRepository =
     \<lparr>getWorkbenchState = workbench_st,
      setWorkbenchState = im_setWorkbenchState,
      listWorkflows = workflows,
      listWorkflowDetails = workflowDetails,
      getWorkflowSummary = im_getWorkflowSummary,
      getWorkflowDetail = im_getWorkflowDetail,
      prependWorkflow = im_prependWorkflow,
      updateWorkflowLastRunAt = im_updateWorkflowLastRunAt,
      listRuns = runs,
      listRunDetails = runDetails,
      getRunDetail = im_getRunDetail,
      prependRun = im_prependRun,
      upsertRun = im_upsertRun,
      listSessions = sessions,
      listSessionDetails = sessionDetails,
      getSessionDetail = im_getSessionDetail,
      upsertSession = im_upsertSession,
      listConnections = connections,
      upsertConnection = im_upsertConnection,
      getSettings = settings_st,
      setSettings = im_setSettings,
      listKnowledgeSources = knowledgeSources,
      prependKnowledgeSource = im_prependKnowledgeSource,
      listAutomations = automations,
      getAutomation = im_getAutomation,
      prependAutomation = im_prependAutomation,
      upsertAutomation = im_upsertAutomation,
      listAuditEvents = auditEvents,
      prependAuditEvent = im_prependAuditEvent\<rparr>"

lemmas im_defs = im_setWorkbenchState_def im_getWorkflowSummary_def im_getWorkflowDetail_def
  im_prependWorkflow_def im_updateWorkflowLastRunAt_def im_getRunDetail_def im_prependRun_def
  im_upsertRun_def im_getSessionDetail_def im_upsertSession_def im_upsertConnection_def
  im_setSettings_def im_prependKnowledgeSource_def im_getAutomation_def im_prependAutomation_def
  im_upsertAutomation_def im_prependAuditEvent_def

lemmas summary_defs = workflow_summary_of_def run_summary_of_def session_summary_of_def
lemmas merge_defs = merge_run_detail_def merge_run_summary_def merge_session_detail_def
  merge_session_summary_def

lemma summary_ids [simp]:
  "wf_id (workflow_summary_of w) = wf_id w"
  "run_id (run_summary_of r) = run_id r"
  "se_id (session_summary_of d) = se_id d"
  by (simp_all add: summary_defs)

section \<open>The collections are keyed\<close>

interpretation run_details: keyed_collection run_id merge_run_detail
  by unfold_locales (simp add: merge_defs)

interpretation run_summaries: keyed_collection run_id merge_run_summary
  by unfold_locales (simp add: merge_defs)

interpretation session_details: keyed_collection se_id merge_session_detail
  by unfold_locales (simp add: merge_defs)

interpretation session_summaries: keyed_collection se_id merge_session_summary
  by unfold_locales (simp add: merge_defs)

interpretation connection_list: keyed_collection conn_id "\<lambda>_ n. n"
  by unfold_locales simp

interpretation automation_list: keyed_collection au_id "\<lambda>_ n. n"
  by unfold_locales simp

section \<open>Summaries and details in step\<close>

text \<open>
  The invariant of the state: each summary list is the projection of its detail list, entry
  by entry.
\<close>

definition summaries_agree :: "product_state \<Rightarrow> bool" where
  "summaries_agree s \<longleftrightarrow>
     workflows s = map workflow_summary_of (workflowDetails s)
   \<and> runs s = map run_summary_of (runDetails s)
   \<and> sessions s = map session_summary_of (sessionDetails s)"

lemma summaries_agree_mock: "summaries_agree createMockProductApiState"
  by (simp add: summaries_agree_def mock_defs summary_defs)

lemma runs_upsert_sync:
  "map run_summary_of (upsert_by run_id merge_run_detail r ds)
     = upsert_by run_id merge_run_summary (run_summary_of r) (map run_summary_of ds)"
  by (rule map_upsert_sync) (simp_all add: merge_defs run_summary_of_def)

lemma sessions_upsert_sync:
  "map session_summary_of (upsert_by se_id merge_session_detail d ds)
     = upsert_by se_id merge_session_summary (session_summary_of d) (map session_summary_of ds)"
  by (rule map_upsert_sync) (simp_all add: merge_defs session_summary_of_def)

lemma workflows_touch_sync:
  "map workflow_summary_of (update_first wf_id i (\<lambda>w. w\<lparr>wf_lastRunAt := t\<rparr>) ds)
     = update_first wf_id i (\<lambda>w. w\<lparr>wf_lastRunAt := t\<rparr>) (map workflow_summary_of ds)"
  by (rule map_update_first_sync) (simp_all add: workflow_summary_of_def)

lemma summaries_agree_step:
  assumes "summaries_agree s"
  shows "summaries_agree (im_setWorkbenchState w s)"
    and "summaries_agree (im_prependWorkflow wd s)"
    and "summaries_agree (im_updateWorkflowLastRunAt i t s)"
    and "summaries_agree (im_prependRun r s)"
    and "summaries_agree (snd (im_upsertRun r s))"
    and "summaries_agree (snd (im_upsertSession d s))"
    and "summaries_agree (snd (im_upsertConnection c s))"
    and "summaries_agree (im_setSettings st s)"
    and "summaries_agree (im_prependKnowledgeSource k s)"
    and "summaries_agree (im_prependAutomation a s)"
    and "summaries_agree (snd (im_upsertAutomation a s))"
    and "summaries_agree (im_prependAuditEvent e s)"
  using assms
  by (simp_all add: summaries_agree_def im_defs Let_def runs_upsert_sync sessions_upsert_sync
      workflows_touch_sync)

section \<open>The contract of a repository\<close>

locale product_repository =
  fixes R :: "'s repository" and view :: "'s \<Rightarrow> product_state"
  assumes law_getWorkbenchState: "getWorkbenchState R s = workbench_st (view s)"
    and law_setWorkbenchState: "view (setWorkbenchState R w s) = im_setWorkbenchState w (view s)"
    and law_listWorkflows: "listWorkflows R s = workflows (view s)"
    and law_listWorkflowDetails: "listWorkflowDetails R s = workflowDetails (view s)"
    and law_getWorkflowSummary: "getWorkflowSummary R i s = im_getWorkflowSummary i (view s)"
    and law_getWorkflowDetail: "getWorkflowDetail R i s = im_getWorkflowDetail i (view s)"
    and law_prependWorkflow: "view (prependWorkflow R wd s) = im_prependWorkflow wd (view s)"
    and law_updateWorkflowLastRunAt:
      "view (updateWorkflowLastRunAt R i t s) = im_updateWorkflowLastRunAt i t (view s)"
    and law_listRuns: "listRuns R s = runs (view s)"
    and law_listRunDetails: "listRunDetails R s = runDetails (view s)"
    and law_getRunDetail: "getRunDetail R i s = im_getRunDetail i (view s)"
    and law_prependRun: "view (prependRun R r s) = im_prependRun r (view s)"
    and law_upsertRun: "map_prod id view (upsertRun R r s) = im_upsertRun r (view s)"
    and law_listSessions: "listSessions R s = sessions (view s)"
    and law_listSessionDetails: "listSessionDetails R s = sessionDetails (view s)"
    and law_getSessionDetail: "getSessionDetail R i s = im_getSessionDetail i (view s)"
    and law_upsertSession: "map_prod id view (upsertSession R d s) = im_upsertSession d (view s)"
    and law_listConnections: "listConnections R s = connections (view s)"
    and law_upsertConnection:
      "map_prod id view (upsertConnection R c s) = im_upsertConnection c (view s)"
    and law_getSettings: "getSettings R s = settings_st (view s)"
    and law_setSettings: "view (setSettings R st s) = im_setSettings st (view s)"
    and law_listKnowledgeSources: "listKnowledgeSources R s = knowledgeSources (view s)"
    and law_prependKnowledgeSource:
      "view (prependKnowledgeSource R k s) = im_prependKnowledgeSource k (view s)"
    and law_listAutomations: "listAutomations R s = automations (view s)"
    and law_getAutomation: "getAutomation R i s = im_getAutomation i (view s)"
    and law_prependAutomation: "view (prependAutomation R a s) = im_prependAutomation a (view s)"
    and law_upsertAutomation:
      "map_prod id view (upsertAutomation R a s) = im_upsertAutomation a (view s)"
    and law_listAuditEvents: "listAuditEvents R s = auditEvents (view s)"
    and law_prependAuditEvent: "view (prependAuditEvent R e s) = im_prependAuditEvent e (view s)"
begin

lemma fst_upsertRun: "fst (upsertRun R r s) = fst (im_upsertRun r (view s))"
  using law_upsertRun [of r s] by (metis fst_map_prod id_apply)

lemma view_upsertRun: "view (snd (upsertRun R r s)) = snd (im_upsertRun r (view s))"
  using law_upsertRun [of r s] by (metis snd_map_prod)

lemma fst_upsertSession: "fst (upsertSession R d s) = fst (im_upsertSession d (view s))"
  using law_upsertSession [of d s] by (metis fst_map_prod id_apply)

lemma view_upsertSession: "view (snd (upsertSession R d s)) = snd (im_upsertSession d (view s))"
  using law_upsertSession [of d s] by (metis snd_map_prod)

lemma view_upsertConnection:
  "view (snd (upsertConnection R c s)) = snd (im_upsertConnection c (view s))"
  using law_upsertConnection [of c s] by (metis snd_map_prod)

lemma view_upsertAutomation:
  "view (snd (upsertAutomation R a s)) = snd (im_upsertAutomation a (view s))"
  using law_upsertAutomation [of a s] by (metis snd_map_prod)

lemmas getter_laws = law_getWorkbenchState law_listWorkflows law_listWorkflowDetails
  law_getWorkflowSummary law_getWorkflowDetail law_listRuns law_listRunDetails law_getRunDetail
  law_listSessions law_listSessionDetails law_getSessionDetail law_listConnections
  law_getSettings law_listKnowledgeSources law_listAutomations law_getAutomation
  law_listAuditEvents

lemmas mutator_laws = law_setWorkbenchState law_prependWorkflow law_updateWorkflowLastRunAt
  law_prependRun view_upsertRun fst_upsertRun view_upsertSession fst_upsertSession
  view_upsertConnection law_setSettings law_prependKnowledgeSource law_prependAutomation
  view_upsertAutomation law_prependAuditEvent

lemmas repo_laws = getter_laws mutator_laws

end

interpretation in_memory: product_repository createInMemoryProductApiRepository id
  by unfold_locales (simp_all add: createInMemoryProductApiRepository_def prod.map_id)

lemmas in_memory_laws = in_memory.repo_laws [unfolded id_apply]

end
