(* ===== verification/FileRepository.thy ===== *)
theory FileRepository
  imports Repository
begin

text \<open>
  The file-backed repository of packages/product-api-server/src/file-repository.ts: an
  in-memory repository whose every mutation rewrites the state file. The file stands for what
  \<open>JSON.parse\<close> makes of its text, \<open>None\<close> when it does not exist; what \<open>JSON.stringify\<close> writes is
  the image of the state under JSON text, in which a number that is not finite is null. Numbers that
  need not be finite are found in the fields that hold any JSON value. A failing disk is outside
  the model.
\<close>

record file_state =
  mem :: product_state
  disk :: "product_state option"

text \<open>What comes back of a state that goes through JSON text.\<close>

definition source_wire :: "knowledge_source \<Rightarrow> knowledge_source" where
  "source_wire k = k\<lparr>ks_sourceType := json_wire (ks_sourceType k)\<rparr>"

definition automation_wire :: "automation \<Rightarrow> automation" where
  "automation_wire a = a\<lparr>au_triggerType := json_wire (au_triggerType a)\<rparr>"

definition state_wire :: "product_state \<Rightarrow> product_state" where
  "state_wire st = st\<lparr>settings_st := map (\<lambda>(k, v). (k, json_wire v)) (settings_st st),
     knowledgeSources := map source_wire (knowledgeSources st),
     automations := map automation_wire (automations st)\<rparr>"

definition readState :: "product_state option \<Rightarrow> product_state" where
  "readState f = (case f of None \<Rightarrow> createMockProductApiState | Some st \<Rightarrow> st)"

definition writeState :: "product_state \<Rightarrow> file_state \<Rightarrow> file_state" where
  "writeState st s = s\<lparr>disk := Some (state_wire st)\<rparr>"

definition persist :: "file_state \<Rightarrow> file_state" where
  "persist s = writeState (mem s) s"

text \<open>Opening the repository: read the file, then write it back.\<close>

definition openFileRepository :: "product_state option \<Rightarrow> file_state" where
  "openFileRepository f = persist \<lparr>mem = readState f, disk = f\<rparr>"

definition persisting :: "(product_state \<Rightarrow> product_state) \<Rightarrow> file_state \<Rightarrow> file_state" where
  "persisting f s = persist (s\<lparr>mem := f (mem s)\<rparr>)"

definition persisting_result ::
    "(product_state \<Rightarrow> 'r \<times> product_state) \<Rightarrow> file_state \<Rightarrow> 'r \<times> file_state" where
  "persisting_result f s = (let (r, m) = f (mem s) in (r, persist (s\<lparr>mem := m\<rparr>)))"

definition createFileProductApiRepository :: "file_state repository" where
  "createFileProductApiRepository =
     \<lparr>getWorkbenchState = workbench_st \<circ> mem,
      setWorkbenchState = (\<lambda>w. persisting (im_setWorkbenchState w)),
      listWorkflows = workflows \<circ> mem,
      listWorkflowDetails = workflowDetails \<circ> mem,
      getWorkflowSummary = (\<lambda>i. im_getWorkflowSummary i \<circ> mem),
      getWorkflowDetail = (\<lambda>i. im_getWorkflowDetail i \<circ> mem),
      prependWorkflow = (\<lambda>w. persisting (im_prependWorkflow w)),
      updateWorkflowLastRunAt = (\<lambda>i t. persisting (im_updateWorkflowLastRunAt i t)),
      listRuns = runs \<circ> mem,
      listRunDetails = runDetails \<circ> mem,
      getRunDetail = (\<lambda>i. im_getRunDetail i \<circ> mem),
      prependRun = (\<lambda>r. persisting (im_prependRun r)),
      upsertRun = (\<lambda>r. persisting_result (im_upsertRun r)),
      listSessions = sessions \<circ> mem,
      listSessionDetails = sessionDetails \<circ> mem,
      getSessionDetail = (\<lambda>i. im_getSessionDetail i \<circ> mem),
      upsertSession = (\<lambda>d. persisting_result (im_upsertSession d)),
      listConnections = connections \<circ> mem,
      upsertConnection = (\<lambda>c. persisting_result (im_upsertConnection c)),
      getSettings = settings_st \<circ> mem,
      setSettings = (\<lambda>st. persisting (im_setSettings st)),
      listKnowledgeSources = knowledgeSources \<circ> mem,
      prependKnowledgeSource = (\<lambda>k. persisting (im_prependKnowledgeSource k)),
      listAutomations = automations \<circ> mem,
      getAutomation = (\<lambda>i. im_getAutomation i \<circ> mem),
      prependAutomation = (\<lambda>a. persisting (im_prependAutomation a)),
      upsertAutomation = (\<lambda>a. persisting_result (im_upsertAutomation a)),
      listAuditEvents = auditEvents \<circ> mem,
      prependAuditEvent = (\<lambda>e. persisting (im_prependAuditEvent e))\<rparr>"

lemma mem_persist [simp]: "mem (persist s) = mem s"
  by (simp add: persist_def writeState_def)

lemma mem_persisting [simp]: "mem (persisting f s) = f (mem s)"
  by (simp add: persisting_def)

lemma mem_persisting_result [simp]: "map_prod id mem (persisting_result f s) = f (mem s)"
  by (simp add: persisting_result_def split: prod.split)

section \<open>It is a repository\<close>

interpretation file_backed: product_repository createFileProductApiRepository mem
  by unfold_locales (simp_all add: createFileProductApiRepository_def)

section \<open>The file follows the memory\<close>

text \<open>States without numbers that are not finite.\<close>

definition state_finite :: "product_state \<Rightarrow> bool" where
  "state_finite st \<longleftrightarrow> list_all (only_finite \<circ> snd) (settings_st st)
     \<and> list_all (only_finite \<circ> ks_sourceType) (knowledgeSources st)
     \<and> list_all (only_finite \<circ> au_triggerType) (automations st)"

lemma state_wire_finite: "state_finite st \<Longrightarrow> state_wire st = st"
proof -
  assume f: "state_finite st"
  have "map (\<lambda>(k, v). (k, json_wire v)) (settings_st st) = settings_st st"
    using f by (intro map_idI) (auto simp: state_finite_def list_all_iff json_wire_finite)
  moreover have "map source_wire (knowledgeSources st) = knowledgeSources st"
    using f by (intro map_idI) (simp add: state_finite_def list_all_iff json_wire_finite source_wire_def)
  moreover have "map automation_wire (automations st) = automations st"
    using f by (intro map_idI) (simp add: state_finite_def list_all_iff json_wire_finite automation_wire_def)
  ultimately show ?thesis by (simp add: state_wire_def)
qed

lemma state_finite_wire: "state_finite (state_wire st)"
  by (auto simp: state_finite_def state_wire_def source_wire_def automation_wire_def list_all_iff only_finite_wire)

lemma state_wire_twice [simp]: "state_wire (state_wire st) = state_wire st"
  by (rule state_wire_finite) (rule state_finite_wire)

definition synced :: "file_state \<Rightarrow> bool" where
  "synced s \<longleftrightarrow> disk s = Some (state_wire (mem s))"

lemma synced_persist [simp]: "synced (persist s)"
  by (simp add: synced_def persist_def writeState_def)

lemma synced_persisting [simp]: "synced (persisting f s)"
  by (simp add: persisting_def)

lemma synced_persisting_result [simp]: "synced (snd (persisting_result f s))"
  by (simp add: persisting_result_def split: prod.split)

lemma synced_open: "synced (openFileRepository f)"
  by (simp add: openFileRepository_def)

text \<open>
  The mutations of a repository, as a predicate on two states: every operation of the
  interface that returns a new state.
\<close>

inductive repo_step :: "'s repository \<Rightarrow> 's \<Rightarrow> 's \<Rightarrow> bool" for R where
  set_workbench: "repo_step R s (setWorkbenchState R w s)"
| prepend_workflow: "repo_step R s (prependWorkflow R wd s)"
| touch_workflow: "repo_step R s (updateWorkflowLastRunAt R i t s)"
| prepend_run: "repo_step R s (prependRun R r s)"
| upsert_run: "repo_step R s (snd (upsertRun R r s))"
| upsert_session: "repo_step R s (snd (upsertSession R d s))"
| upsert_connection: "repo_step R s (snd (upsertConnection R c s))"
| set_settings: "repo_step R s (setSettings R st s)"
| prepend_source: "repo_step R s (prependKnowledgeSource R k s)"
| prepend_automation: "repo_step R s (prependAutomation R a s)"
| upsert_automation: "repo_step R s (snd (upsertAutomation R a s))"
| prepend_audit: "repo_step R s (prependAuditEvent R e s)"

inductive_cases repo_stepE: "repo_step R s t"

inductive repo_steps :: "'s repository \<Rightarrow> 's \<Rightarrow> 's \<Rightarrow> bool" for R where
  steps_refl: "repo_steps R s s"
| steps_step: "repo_steps R s t \<Longrightarrow> repo_step R t u \<Longrightarrow> repo_steps R s u"

lemmas steps_one = steps_step [OF steps_refl]

lemma file_step_synced: "repo_step createFileProductApiRepository s t \<Longrightarrow> synced t"
  by (erule repo_stepE) (simp_all add: createFileProductApiRepository_def)

lemma im_step_summaries_agree:
  "repo_step createInMemoryProductApiRepository s t \<Longrightarrow> summaries_agree s \<Longrightarrow> summaries_agree t"
  by (erule repo_stepE) (simp_all add: createInMemoryProductApiRepository_def summaries_agree_step)

context product_repository
begin

text \<open>Every step of an implementation is an in-memory step on its view.\<close>

lemma step_view: "repo_step R s t \<Longrightarrow> repo_step createInMemoryProductApiRepository (view s) (view t)"
  by (erule repo_stepE)
     (simp_all only: mutator_laws, simp_all only: in_memory_laws [symmetric] repo_step.intros)

lemma steps_view:
  "repo_steps R s t \<Longrightarrow> repo_steps createInMemoryProductApiRepository (view s) (view t)"
  by (induction rule: repo_steps.induct) (blast intro: repo_steps.intros step_view)+

lemma steps_summaries_agree:
  "repo_steps R s t \<Longrightarrow> summaries_agree (view s) \<Longrightarrow> summaries_agree (view t)"
  by (induction rule: repo_steps.induct) (blast intro: im_step_summaries_agree step_view)+

end

end
