(* ===== verification/Mirror.thy ===== *)
theory Mirror
  imports FileRepository
begin

text \<open>
  The realtime mirror of packages/domain: how one event frame changes the repository. A
  handler returns the new repository state, or the exception it throws (\<open>toISOString\<close> on a
  time stamp out of range), in which case nothing was written. \<open>clk k\<close> is the clock at the
  k-th program point of the operation that reads it.
\<close>

section \<open>Helpers\<close>

definition isoNow :: "clock \<Rightarrow> nat \<Rightarrow> string" where
  "isoNow clk k = iso_of_ms (clk k)"

definition buildAuditEvent :: "nat \<Rightarrow> string \<Rightarrow> audit_level \<Rightarrow> string \<Rightarrow> audit_event" where
  "buildAuditEvent n action level now =
     \<lparr>ae_id = ''audit-'' @ nat_str n, ae_action = action, ae_level = level, ae_happenedAt = now\<rparr>"

definition isRecord :: "jsval \<Rightarrow> bool" where
  "isRecord v \<longleftrightarrow> is_object v"

fun stringField :: "json \<Rightarrow> string list \<Rightarrow> string option" where
  "stringField r [] = None"
| "stringField r (k # ks) =
     (case as_str (getp r k) of
        Some s \<Rightarrow> if trim s \<noteq> [] then Some s else stringField r ks
      | None \<Rightarrow> stringField r ks)"

fun numberField :: "json \<Rightarrow> string list \<Rightarrow> rat option" where
  "numberField r [] = None"
| "numberField r (k # ks) =
     (case as_finite (getp r k) of Some q \<Rightarrow> Some q | None \<Rightarrow> numberField r ks)"

declare stringField.simps [simp del] numberField.simps [simp del]

definition isoFromValue :: "jsval \<Rightarrow> string \<Rightarrow> js_error + string" where
  "isoFromValue v now =
     (case as_str v of
        Some s \<Rightarrow> if trim s \<noteq> [] then Inr s else Inr now
      | None \<Rightarrow> (case as_finite v of Some q \<Rightarrow> date_iso q | None \<Rightarrow> Inr now))"

definition toRunStatus :: "jsval \<Rightarrow> run_status" where
  "toRunStatus v =
     (if v = Some (JStr ''queued'') then Queued
      else if v = Some (JStr ''completed'') \<or> v = Some (JStr ''final'') then Completed
      else if v = Some (JStr ''failed'') \<or> v = Some (JStr ''error'') \<or> v = Some (JStr ''aborted'')
        then Failed
      else Running)"

fun run_status_str :: "run_status \<Rightarrow> string" where
  "run_status_str Queued = ''queued''"
| "run_status_str Running = ''running''"
| "run_status_str Completed = ''completed''"
| "run_status_str Failed = ''failed''"

definition sessionIdFromPayload :: "json \<Rightarrow> string option" where
  "sessionIdFromPayload p = stringField p [''sessionKey'', ''sessionId'', ''id'', ''key'']"

definition approvalIdFromPayload :: "json \<Rightarrow> string option" where
  "approvalIdFromPayload p = stringField p [''approvalId'', ''id'', ''toolCallId'', ''requestId'']"

section \<open>Approvals\<close>

definition approval_suffix :: "string option \<Rightarrow> string" where
  "approval_suffix i = (case i of None \<Rightarrow> [] | Some x \<Rightarrow> ''.'' @ x)"

definition mirrorApprovalRequest :: "'s repository \<Rightarrow> clock \<Rightarrow> json \<Rightarrow> 's \<Rightarrow> 's" where
  "mirrorApprovalRequest R clk p s =
     (let w = getWorkbenchState R s;
          s1 = setWorkbenchState R (w\<lparr>pendingApprovals := pendingApprovals w + 1\<rparr>) s
      in prependAuditEvent R
           (buildAuditEvent (length (listAuditEvents R s1) + 1)
              (''runtime.approval.requested'' @ approval_suffix (approvalIdFromPayload p))
              Warning (isoNow clk 0)) s1)"

definition mirrorApprovalResolved :: "'s repository \<Rightarrow> clock \<Rightarrow> json \<Rightarrow> 's \<Rightarrow> 's" where
  "mirrorApprovalResolved R clk p s =
     (let w = getWorkbenchState R s;
          s1 = setWorkbenchState R (w\<lparr>pendingApprovals := max 0 (pendingApprovals w - 1)\<rparr>) s
      in prependAuditEvent R
           (buildAuditEvent (length (listAuditEvents R s1) + 1)
              (''runtime.approval.resolved'' @ approval_suffix (approvalIdFromPayload p))
              Info (isoNow clk 0)) s1)"

section \<open>Runs and sessions\<close>

record mirror_run_input =
  mr_runId :: string
  mr_sessionKey :: "string option"
  mr_status :: jsval
  mr_title :: "string option"
  mr_ts :: jsval
  mr_resultSummary :: "string option"

definition mirror_run_detail ::
    "mirror_run_input \<Rightarrow> run_detail option \<Rightarrow> string \<Rightarrow> run_detail" where
  "mirror_run_detail i existing startedAt =
     (let status = toRunStatus (mr_status i) in
      \<lparr>run_id = mr_runId i,
       run_workflowId = nullish (map_option run_workflowId existing)
         (nullish (mr_sessionKey i) ''openclaw-runtime''),
       run_title = nullish (map_option run_title existing)
         (nullish (mr_title i) (''OpenClaw Run '' @ mr_runId i)),
       run_status_of = status,
       run_startedAt = startedAt,
       run_resultSummary = Some (nullish (mr_resultSummary i)
         (nullish (Option.bind existing run_resultSummary)
           ((''OpenClaw runtime '' @ [CHR 0xE7, CHR 0x8A, CHR 0xB6, CHR 0xE6, CHR 0x80, CHR 0x81, CHR 0xE5,
               CHR 0xB7, CHR 0xB2, CHR 0xE5, CHR 0x90, CHR 0x8C, CHR 0xE6, CHR 0xAD, CHR 0xA5, CHR 0xE4,
               CHR 0xB8, CHR 0xBA] @ '' '') @ run_status_str status @ [CHR 0xE3, CHR 0x80,
               CHR 0x82])))\<rparr>)"

definition mirrorRun ::
    "'s repository \<Rightarrow> string \<Rightarrow> mirror_run_input \<Rightarrow> 's \<Rightarrow> js_error + (run_detail \<times> 's)" where
  "mirrorRun R now i s =
     (let existing = getRunDetail R (mr_runId i) s in
      case (case existing of Some e \<Rightarrow> Inr (run_startedAt e) | None \<Rightarrow> isoFromValue (mr_ts i) now) of
        Inl e \<Rightarrow> Inl e
      | Inr startedAt \<Rightarrow>
          (let run = mirror_run_detail i existing startedAt
           in Inr (run, snd (upsertRun R run s))))"

record mirror_session_input =
  ms_sessionId :: string
  ms_title :: "string option"
  ms_channelType :: "string option"
  ms_status :: "session_status option"
  ms_updatedAt :: jsval
  ms_increment :: bool

definition mirror_session_detail ::
    "mirror_session_input \<Rightarrow> session_detail option \<Rightarrow> string \<Rightarrow> session_detail" where
  "mirror_session_detail i existing updatedAt =
     \<lparr>se_id = ms_sessionId i,
      se_title = nullish (map_option se_title existing)
        (nullish (ms_title i) (''OpenClaw Session '' @ ms_sessionId i)),
      se_channelType = nullish (map_option se_channelType existing)
        (nullish (ms_channelType i) ''openclaw''),
      se_status = nullish (ms_status i) (nullish (map_option se_status existing) SActive),
      se_updatedAt = updatedAt,
      se_messageCount = Some (nullish (Option.bind existing se_messageCount) 0
        + (if ms_increment i then 1 else 0))\<rparr>"

definition mirrorSession ::
    "'s repository \<Rightarrow> string \<Rightarrow> mirror_session_input \<Rightarrow> 's \<Rightarrow> js_error + (session_detail \<times> 's)" where
  "mirrorSession R now i s =
     (let existing = getSessionDetail R (ms_sessionId i) s in
      case isoFromValue (ms_updatedAt i) now of
        Inl e \<Rightarrow> Inl e
      | Inr updatedAt \<Rightarrow>
          (let session = mirror_session_detail i existing updatedAt
           in Inr (session, snd (upsertSession R session s))))"

section \<open>The event handlers\<close>

datatype mirror_event =
    MChat | MSessionMessage | MSessionsChanged | MRunStatus | MToolStatus
  | MApprovalRequested | MApprovalResolved

definition append_runtime_audit :: "'s repository \<Rightarrow> string \<Rightarrow> string \<Rightarrow> 's \<Rightarrow> 's" where
  "append_runtime_audit R action now s =
     prependAuditEvent R (buildAuditEvent (length (listAuditEvents R s) + 1) action Info now) s"

definition mirror_run_status :: "'s repository \<Rightarrow> clock \<Rightarrow> json \<Rightarrow> 's \<Rightarrow> js_error + 's" where
  "mirror_run_status R clk p s =
     (case stringField p [''runId'', ''id''] of
        None \<Rightarrow> Inr s
      | Some runId \<Rightarrow>
          res_bind (mirrorRun R (isoNow clk 0)
             \<lparr>mr_runId = runId,
              mr_sessionKey = stringField p [''sessionKey'', ''sessionId''],
              mr_status = js_nullish (getp p ''status'') (getp p ''phase''),
              mr_title = None, mr_ts = getp p ''ts'', mr_resultSummary = None\<rparr> s)
            (\<lambda>(run, s1).
               Inr (append_runtime_audit R (''runtime.run.'' @ run_status_str (run_status_of run))
                 (isoNow clk 1) s1)))"

text \<open>A chat event updates its run, then its session.\<close>

definition chat_run_part ::
    "'s repository \<Rightarrow> clock \<Rightarrow> json \<Rightarrow> string option \<Rightarrow> 's \<Rightarrow> js_error + 's" where
  "chat_run_part R clk p st s =
     (case stringField p [''runId''] of
        None \<Rightarrow> Inr s
      | Some i \<Rightarrow>
          res_bind (mirrorRun R (isoNow clk 0)
            \<lparr>mr_runId = i, mr_sessionKey = sessionIdFromPayload p, mr_status = map_option JStr st,
             mr_title = None, mr_ts = None,
             mr_resultSummary = (if st = Some ''error'' then stringField p [''errorMessage'']
                                 else None)\<rparr> s)
            (\<lambda>(run, s1). Inr s1))"

definition chat_session_part ::
    "'s repository \<Rightarrow> clock \<Rightarrow> json \<Rightarrow> string option \<Rightarrow> 's \<Rightarrow> js_error + 's" where
  "chat_session_part R clk p st s =
     (case sessionIdFromPayload p of
        None \<Rightarrow> Inr s
      | Some i \<Rightarrow>
          res_bind (mirrorSession R (isoNow clk 2)
            \<lparr>ms_sessionId = i, ms_title = None, ms_channelType = None,
             ms_status = Some (if st = Some ''final'' \<or> st = Some ''aborted'' \<or> st = Some ''error''
                               then SEnded else SActive),
             ms_updatedAt = Some (JStr (isoNow clk 1)),
             ms_increment = (st = Some ''final'' \<or> st = Some ''error'')\<rparr> s)
            (\<lambda>(session, s1). Inr s1))"

definition mirror_chat :: "'s repository \<Rightarrow> clock \<Rightarrow> json \<Rightarrow> 's \<Rightarrow> js_error + 's" where
  "mirror_chat R clk p s =
     (let st = stringField p [''state'']
      in res_bind (chat_run_part R clk p st s) (chat_session_part R clk p st))"

definition mirror_session_message :: "'s repository \<Rightarrow> clock \<Rightarrow> json \<Rightarrow> 's \<Rightarrow> js_error + 's" where
  "mirror_session_message R clk p s =
     (case sessionIdFromPayload p of
        None \<Rightarrow> Inr s
      | Some i \<Rightarrow>
          res_bind (mirrorSession R (isoNow clk 0)
            \<lparr>ms_sessionId = i, ms_title = None, ms_channelType = None, ms_status = None,
             ms_updatedAt = (case stringField p [''updatedAt'', ''createdAt''] of
                 Some t \<Rightarrow> Some (JStr t)
               | None \<Rightarrow> map_option (\<lambda>q. JNum (Fin q)) (numberField p [''ts''])),
             ms_increment = True\<rparr> s)
            (\<lambda>(session, s1). Inr s1))"

definition mirror_sessions_changed :: "'s repository \<Rightarrow> clock \<Rightarrow> json \<Rightarrow> 's \<Rightarrow> js_error + 's" where
  "mirror_sessions_changed R clk p s =
     (case sessionIdFromPayload p of
        None \<Rightarrow> Inr s
      | Some i \<Rightarrow>
          res_bind (mirrorSession R (isoNow clk 0)
            \<lparr>ms_sessionId = i, ms_title = None, ms_channelType = None,
             ms_status = Some (if getp p ''status'' = Some (JStr ''ended'') then SEnded else SActive),
             ms_updatedAt = (case stringField p [''updatedAt''] of
                 Some t \<Rightarrow> Some (JStr t)
               | None \<Rightarrow> map_option (\<lambda>q. JNum (Fin q)) (numberField p [''ts''])),
             ms_increment = False\<rparr> s)
            (\<lambda>(session, s1). Inr s1))"

definition mirror_tool_status :: "'s repository \<Rightarrow> clock \<Rightarrow> json \<Rightarrow> 's \<Rightarrow> js_error + 's" where
  "mirror_tool_status R clk p s =
     (case stringField p [''runId''] of
        None \<Rightarrow> Inr s
      | Some runId \<Rightarrow>
          (let phase = stringField p [''phase''] in
           res_bind (mirrorRun R (isoNow clk 0)
             \<lparr>mr_runId = runId,
              mr_sessionKey = stringField p [''sessionKey'', ''sessionId''],
              mr_status = Some (JStr (if phase = Some ''failed'' then ''failed''
                                      else if phase = Some ''completed'' then ''running''
                                      else ''running'')),
              mr_title = stringField p [''name''],
              mr_ts = map_option JStr (stringField p [''startedAt'', ''updatedAt'']),
              mr_resultSummary = Some (([CHR 0xE5, CHR 0xB7, CHR 0xA5, CHR 0xE5, CHR 0x85,
                  CHR 0xB7] @ '' '') @ nullish (stringField p [''name'']) ''tool'' @
                ('' '' @ [CHR 0xE7, CHR 0x8A, CHR 0xB6, CHR 0xE6, CHR 0x80, CHR 0x81, CHR 0xEF, CHR 0xBC,
                    CHR 0x9A]) @ nullish phase ''unknown'')\<rparr> s)
             (\<lambda>(run, s1). Inr (append_runtime_audit R (''runtime.tool.'' @ nullish phase ''unknown'')
                (isoNow clk 1) s1))))"

definition mirrorRealtimeEvent ::
    "'s repository \<Rightarrow> clock \<Rightarrow> mirror_event \<Rightarrow> jsval \<Rightarrow> 's \<Rightarrow> js_error + 's" where
  "mirrorRealtimeEvent R clk ev payload s =
     (if \<not> isRecord payload then Inr s
      else (let p = the payload in
        case ev of
          MRunStatus \<Rightarrow> mirror_run_status R clk p s
        | MChat \<Rightarrow> mirror_chat R clk p s
        | MSessionMessage \<Rightarrow> mirror_session_message R clk p s
        | MSessionsChanged \<Rightarrow> mirror_sessions_changed R clk p s
        | MToolStatus \<Rightarrow> mirror_tool_status R clk p s
        | MApprovalRequested \<Rightarrow> Inr (mirrorApprovalRequest R clk p s)
        | MApprovalResolved \<Rightarrow> Inr (mirrorApprovalResolved R clk p s)))"

lemmas mirror_handler_defs = mirror_run_status_def mirror_chat_def mirror_session_message_def
  mirror_sessions_changed_def mirror_tool_status_def mirrorApprovalRequest_def
  mirrorApprovalResolved_def append_runtime_audit_def

section \<open>The mirror only uses the repository's operations\<close>

lemma repo_steps_trans: "repo_steps R t u \<Longrightarrow> repo_steps R s t \<Longrightarrow> repo_steps R s u"
  by (induction rule: repo_steps.induct) (auto intro: repo_steps.intros)

lemmas one_step = repo_step.intros [THEN steps_one]

lemma mirrorRun_steps: "mirrorRun R now i s = Inr (r, t) \<Longrightarrow> repo_steps R s t"
  by (auto simp: mirrorRun_def Let_def split: sum.splits intro: one_step)

lemma mirrorSession_steps: "mirrorSession R now i s = Inr (r, t) \<Longrightarrow> repo_steps R s t"
  by (auto simp: mirrorSession_def Let_def split: sum.splits intro: one_step)

lemma append_runtime_audit_steps: "repo_steps R s (append_runtime_audit R a now s)"
  by (simp add: append_runtime_audit_def one_step)

lemma approval_steps:
  "repo_steps R s (mirrorApprovalRequest R clk p s)"
  "repo_steps R s (mirrorApprovalResolved R clk p s)"
  by (auto simp: mirrorApprovalRequest_def mirrorApprovalResolved_def Let_def
      intro: steps_step [OF one_step(1)] repo_step.intros)

lemma mirror_run_status_steps: "mirror_run_status R clk p s = Inr t \<Longrightarrow> repo_steps R s t"
  by (auto simp: mirror_run_status_def split: option.splits intro: steps_refl
      dest!: mirrorRun_steps intro: repo_steps_trans [OF append_runtime_audit_steps])

lemma mirror_tool_status_steps: "mirror_tool_status R clk p s = Inr t \<Longrightarrow> repo_steps R s t"
  unfolding mirror_tool_status_def Let_def
  by (cases "stringField p [''runId'']")
     (auto intro: steps_refl dest!: mirrorRun_steps
       intro: repo_steps_trans [OF append_runtime_audit_steps])

lemma chat_run_part_steps: "chat_run_part R clk p st s = Inr t \<Longrightarrow> repo_steps R s t"
  unfolding chat_run_part_def
  by (cases "stringField p [''runId'']") (auto intro: steps_refl dest!: mirrorRun_steps)

lemma chat_session_part_steps: "chat_session_part R clk p st s = Inr t \<Longrightarrow> repo_steps R s t"
  unfolding chat_session_part_def
  by (cases "sessionIdFromPayload p") (auto intro: steps_refl dest!: mirrorSession_steps)

lemma mirror_chat_steps: "mirror_chat R clk p s = Inr t \<Longrightarrow> repo_steps R s t"
  by (auto simp: mirror_chat_def Let_def dest!: chat_run_part_steps chat_session_part_steps
      intro: repo_steps_trans)

lemma mirror_sessions_steps:
  "mirror_session_message R clk p s = Inr t \<Longrightarrow> repo_steps R s t"
  "mirror_sessions_changed R clk p s = Inr t \<Longrightarrow> repo_steps R s t"
  unfolding mirror_session_message_def mirror_sessions_changed_def
  by (cases "sessionIdFromPayload p", auto intro: steps_refl dest!: mirrorSession_steps)+

lemma mirror_event_steps: "mirrorRealtimeEvent R clk ev payload s = Inr t \<Longrightarrow> repo_steps R s t"
  by (cases ev)
     (auto simp: mirrorRealtimeEvent_def split: if_splits intro: steps_refl approval_steps
       dest: mirror_run_status_steps mirror_tool_status_steps mirror_chat_steps
       mirror_sessions_steps)

section \<open>Every repository mirrors alike\<close>

abbreviation im_repo :: "product_state repository" where
  "im_repo \<equiv> createInMemoryProductApiRepository"

context product_repository
begin

lemma mirrorRun_view:
  "map_sum id (map_prod id view) (mirrorRun R now i s) = mirrorRun im_repo now i (view s)"
  by (simp add: mirrorRun_def Let_def repo_laws in_memory_laws split: sum.split)

lemma mirrorSession_view:
  "map_sum id (map_prod id view) (mirrorSession R now i s) = mirrorSession im_repo now i (view s)"
  by (simp add: mirrorSession_def Let_def repo_laws in_memory_laws split: sum.split)

lemma append_runtime_audit_view:
  "view (append_runtime_audit R a now s) = append_runtime_audit im_repo a now (view s)"
  by (simp add: append_runtime_audit_def repo_laws in_memory_laws)

text \<open>A handler that runs on after a mirrored run or session acts alike on the view.\<close>

lemma run_bind_view:
  "(\<And>r t. map_sum id view (k (r, t)) = k' (r, view t)) \<Longrightarrow>
   map_sum id view (res_bind (mirrorRun R now i s) k)
     = res_bind (mirrorRun im_repo now i (view s)) k'"
  by (subst map_res_bind [where f = "map_prod id view" and k' = k']) (auto simp: mirrorRun_view)

lemma session_bind_view:
  "(\<And>r t. map_sum id view (k (r, t)) = k' (r, view t)) \<Longrightarrow>
   map_sum id view (res_bind (mirrorSession R now i s) k)
     = res_bind (mirrorSession im_repo now i (view s)) k'"
  by (subst map_res_bind [where f = "map_prod id view" and k' = k']) (auto simp: mirrorSession_view)

lemma mirror_run_status_view:
  "map_sum id view (mirror_run_status R clk p s) = mirror_run_status im_repo clk p (view s)"
  unfolding mirror_run_status_def
  by (cases "stringField p [''runId'', ''id'']")
     (auto intro!: run_bind_view simp: append_runtime_audit_view)

lemma mirror_tool_status_view:
  "map_sum id view (mirror_tool_status R clk p s) = mirror_tool_status im_repo clk p (view s)"
  unfolding mirror_tool_status_def Let_def
  by (cases "stringField p [''runId'']") (auto intro!: run_bind_view simp: append_runtime_audit_view)

lemma mirror_sessions_view:
  "map_sum id view (mirror_session_message R clk p s) = mirror_session_message im_repo clk p (view s)"
  "map_sum id view (mirror_sessions_changed R clk p s) = mirror_sessions_changed im_repo clk p (view s)"
  unfolding mirror_session_message_def mirror_sessions_changed_def
  by (cases "sessionIdFromPayload p", auto intro!: session_bind_view)+

lemma chat_run_part_view:
  "map_sum id view (chat_run_part R clk p st s) = chat_run_part im_repo clk p st (view s)"
  unfolding chat_run_part_def
  by (cases "stringField p [''runId'']") (auto intro!: run_bind_view)

lemma chat_session_part_view:
  "map_sum id view (chat_session_part R clk p st s) = chat_session_part im_repo clk p st (view s)"
  unfolding chat_session_part_def
  by (cases "sessionIdFromPayload p") (auto intro!: session_bind_view)

lemma mirror_chat_view:
  "map_sum id view (mirror_chat R clk p s) = mirror_chat im_repo clk p (view s)"
  unfolding mirror_chat_def Let_def
  by (subst map_res_bind [where f = view
        and k' = "chat_session_part im_repo clk p (stringField p [''state''])"])
     (simp_all add: chat_session_part_view chat_run_part_view)

lemma mirror_event_view:
  "map_sum id view (mirrorRealtimeEvent R clk ev payload s)
     = mirrorRealtimeEvent im_repo clk ev payload (view s)"
  by (cases ev)
     (simp_all add: mirrorRealtimeEvent_def mirror_run_status_view mirror_tool_status_view
       mirror_sessions_view mirror_chat_view mirrorApprovalRequest_def mirrorApprovalResolved_def
       Let_def repo_laws in_memory_laws)

end

section \<open>What a mirrored run or session becomes\<close>

lemma trim_iso [simp]: "trim (iso_of_ms t) \<noteq> []"
proof -
  have "last (iso_of_ms t) = CHR ''Z''"
    by (simp add: iso_of_ms_def Let_def split: prod.split)
  then obtain p where p: "iso_of_ms t = p @ [CHR ''Z'']"
    by (metis append_butlast_last_id iso_of_ms_nonempty)
  show ?thesis unfolding p
    by (rule trim_last_nonblank) (simp_all add: ws1_def ws2_def ws3_def)
qed

lemma isoFromValue_simps [simp]:
  "isoFromValue None now = Inr now"
  "isoFromValue (Some (JStr (isoNow clk k))) now = Inr (isoNow clk k)"
  by (simp_all add: isoFromValue_def isoNow_def)

lemma stringField_nonblank: "stringField r ks = Some s \<Longrightarrow> trim s \<noteq> []"
  by (induction ks) (auto simp: stringField.simps split: option.splits if_splits)

lemma isoFromValue_field [simp]:
  "stringField r ks = Some s \<Longrightarrow> isoFromValue (Some (JStr s)) now = Inr s"
  by (simp add: isoFromValue_def stringField_nonblank)

lemma isoFromValue_number [simp]: "isoFromValue (Some (JNum (Fin q))) now = date_iso q"
  by (simp add: isoFromValue_def)

lemma isoFromValue_error:
  "isoFromValue v now = Inl e \<longleftrightarrow>
     e = RangeError ''Invalid time value'' \<and> (\<exists>q. as_finite v = Some q \<and> \<bar>q\<bar> > 8640000000000000)"
  by (cases v rule: as_finite.cases) (auto simp: isoFromValue_def date_iso_def)

lemma mirrorRun_im:
  assumes "mirrorRun im_repo now i s = Inr (r, t)"
  shows "im_getRunDetail (mr_runId i) t = Some r"
    and "j \<noteq> mr_runId i \<Longrightarrow> im_getRunDetail j t = im_getRunDetail j s"
    and "\<exists>ds rs. t = s\<lparr>runDetails := ds, runs := rs\<rparr>"
    and "run_status_of r = toRunStatus (mr_status i)"
    and "im_getRunDetail (mr_runId i) s = Some old \<Longrightarrow>
           run_startedAt r = run_startedAt old \<and> run_title r = run_title old
           \<and> run_workflowId r = run_workflowId old"
proof -
  obtain st where r: "r = mirror_run_detail i (im_getRunDetail (mr_runId i) s) st"
    and t: "t = snd (im_upsertRun r s)"
    and st: "im_getRunDetail (mr_runId i) s = Some old \<Longrightarrow> st = run_startedAt old" for old
    using assms by (auto simp: mirrorRun_def Let_def in_memory_laws split: sum.splits option.splits)
  have id: "run_id r = mr_runId i" by (simp add: r mirror_run_detail_def Let_def)
  have sum: "\<exists>x. run_resultSummary r = Some x" by (simp add: r mirror_run_detail_def Let_def)
  show "im_getRunDetail (mr_runId i) t = Some r"
    using run_details.find_upsert_same [of r "runDetails s"] sum
    by (auto simp: t im_upsertRun_def Let_def im_getRunDetail_def id merge_run_detail_def
        split: option.splits)
  show "j \<noteq> mr_runId i \<Longrightarrow> im_getRunDetail j t = im_getRunDetail j s"
    by (simp add: t im_upsertRun_def Let_def im_getRunDetail_def id run_details.find_upsert_other)
  show "\<exists>ds rs. t = s\<lparr>runDetails := ds, runs := rs\<rparr>"
    by (auto simp: t im_upsertRun_def Let_def)
  show "run_status_of r = toRunStatus (mr_status i)"
    by (simp add: r mirror_run_detail_def Let_def)
  show "im_getRunDetail (mr_runId i) s = Some old \<Longrightarrow>
      run_startedAt r = run_startedAt old \<and> run_title r = run_title old
      \<and> run_workflowId r = run_workflowId old"
    using st by (simp add: r mirror_run_detail_def Let_def)
qed

lemma mirrorSession_im:
  assumes "mirrorSession im_repo now i s = Inr (d, t)"
  shows "im_getSessionDetail (ms_sessionId i) t = Some d"
    and "j \<noteq> ms_sessionId i \<Longrightarrow> im_getSessionDetail j t = im_getSessionDetail j s"
    and "\<exists>ds ss. t = s\<lparr>sessionDetails := ds, sessions := ss\<rparr>"
    and "se_messageCount d = Some (nullish (Option.bind (im_getSessionDetail (ms_sessionId i) s) se_messageCount) 0
           + (if ms_increment i then 1 else 0))"
    and "se_status d = nullish (ms_status i)
           (nullish (map_option se_status (im_getSessionDetail (ms_sessionId i) s)) SActive)"
proof -
  obtain u where d: "d = mirror_session_detail i (im_getSessionDetail (ms_sessionId i) s) u"
    and t: "t = snd (im_upsertSession d s)"
    using assms by (auto simp: mirrorSession_def Let_def in_memory_laws split: sum.splits)
  have id: "se_id d = ms_sessionId i" by (simp add: d mirror_session_detail_def)
  have sum: "\<exists>x. se_messageCount d = Some x" by (simp add: d mirror_session_detail_def)
  show "im_getSessionDetail (ms_sessionId i) t = Some d"
    using session_details.find_upsert_same [of d "sessionDetails s"] sum
    by (auto simp: t im_upsertSession_def Let_def im_getSessionDetail_def id
        merge_session_detail_def split: option.splits)
  show "j \<noteq> ms_sessionId i \<Longrightarrow> im_getSessionDetail j t = im_getSessionDetail j s"
    by (simp add: t im_upsertSession_def Let_def im_getSessionDetail_def id
        session_details.find_upsert_other)
  show "\<exists>ds ss. t = s\<lparr>sessionDetails := ds, sessions := ss\<rparr>"
    by (auto simp: t im_upsertSession_def Let_def)
  show "se_messageCount d = Some (nullish (Option.bind (im_getSessionDetail (ms_sessionId i) s) se_messageCount) 0
           + (if ms_increment i then 1 else 0))"
    and "se_status d = nullish (ms_status i)
           (nullish (map_option se_status (im_getSessionDetail (ms_sessionId i) s)) SActive)"
    by (simp_all add: d mirror_session_detail_def)
qed

lemma mirrorSession_effect:
  assumes "mirrorSession im_repo now i s = Inr (d, t)"
  shows "im_getSessionDetail (ms_sessionId i) t = Some d
    \<and> se_messageCount d = Some (nullish (Option.bind (im_getSessionDetail (ms_sessionId i) s) se_messageCount) 0
           + (if ms_increment i then 1 else 0))
    \<and> (\<forall>j. j \<noteq> ms_sessionId i \<longrightarrow> im_getSessionDetail j t = im_getSessionDetail j s)"
  using mirrorSession_im(1,2,4) [OF assms] by simp

lemma mirrorRun_error_iff:
  "mirrorRun im_repo now i s = Inl e \<longleftrightarrow>
     im_getRunDetail (mr_runId i) s = None \<and> isoFromValue (mr_ts i) now = Inl e"
  by (auto simp: mirrorRun_def Let_def in_memory_laws split: sum.splits option.splits)

lemma mirrorSession_error_iff:
  "mirrorSession im_repo now i s = Inl e \<longleftrightarrow> isoFromValue (ms_updatedAt i) now = Inl e"
  by (auto simp: mirrorSession_def Let_def in_memory_laws split: sum.splits)

section \<open>Properties\<close>

lemma append_runtime_audit_im:
  "append_runtime_audit im_repo a now s
     = s\<lparr>auditEvents := buildAuditEvent (length (auditEvents s) + 1) a Info now # auditEvents s\<rparr>"
  by (simp add: append_runtime_audit_def in_memory_laws im_prependAuditEvent_def)

lemma audit_frame [simp]:
  "im_getRunDetail i (s\<lparr>auditEvents := es\<rparr>) = im_getRunDetail i s"
  "im_getSessionDetail i (s\<lparr>auditEvents := es\<rparr>) = im_getSessionDetail i s"
  by (simp_all add: im_getRunDetail_def im_getSessionDetail_def)

lemma mirrorRun_status:
  "mirrorRun im_repo now i s = Inr (r, t) \<Longrightarrow>
     \<exists>r. im_getRunDetail (mr_runId i) t = Some r \<and> run_status_of r = toRunStatus (mr_status i)"
  using mirrorRun_im(1,4) by blast

lemma mirror_event_run_status:
  assumes "mirrorRealtimeEvent im_repo clk MRunStatus (Some p) s = Inr t"
    and "is_object (Some p)" and "stringField p [''runId'', ''id''] = Some i"
  shows "\<exists>r. im_getRunDetail i t = Some r
      \<and> run_status_of r = toRunStatus (js_nullish (getp p ''status'') (getp p ''phase''))"
  using assms
  by (auto simp: mirrorRealtimeEvent_def isRecord_def mirror_run_status_def append_runtime_audit_im
      dest!: mirrorRun_status)

text \<open>
  C27: a \<open>run.status\<close> event with a run id leaves that run with the status its \<open>status\<close> (else
  \<open>phase\<close>) maps to; a run that was already known keeps its start time, its title and its
  workflow; every other run and every session is untouched, and one audit event is added.
\<close>

theorem mirror_run_status_effect:
  assumes "mirrorRealtimeEvent im_repo clk MRunStatus (Some p) s = Inr t"
    and "is_object (Some p)" and "stringField p [''runId'', ''id''] = Some i"
  shows "\<exists>r. im_getRunDetail i t = Some r
      \<and> run_status_of r = toRunStatus (js_nullish (getp p ''status'') (getp p ''phase''))
      \<and> (\<forall>old. im_getRunDetail i s = Some old \<longrightarrow> run_startedAt r = run_startedAt old
             \<and> run_title r = run_title old \<and> run_workflowId r = run_workflowId old)
      \<and> (\<forall>j. j \<noteq> i \<longrightarrow> im_getRunDetail j t = im_getRunDetail j s)
      \<and> sessionDetails t = sessionDetails s
      \<and> length (auditEvents t) = Suc (length (auditEvents s))"
proof -
  let ?inp = "\<lparr>mr_runId = i, mr_sessionKey = stringField p [''sessionKey'', ''sessionId''],
      mr_status = js_nullish (getp p ''status'') (getp p ''phase''),
      mr_title = None, mr_ts = getp p ''ts'', mr_resultSummary = None\<rparr>"
  obtain r u where run: "mirrorRun im_repo (isoNow clk 0) ?inp s = Inr (r, u)"
    and t: "t = append_runtime_audit im_repo (''runtime.run.'' @ run_status_str (run_status_of r))
              (isoNow clk 1) u"
    using assms by (auto simp: mirrorRealtimeEvent_def isRecord_def mirror_run_status_def)
  note eff = mirrorRun_im [OF run]
  obtain ds rs where "u = s\<lparr>runDetails := ds, runs := rs\<rparr>" using eff(3) by blast
  then show ?thesis
    using eff(1,2,4,5) by (auto simp: t append_runtime_audit_im)
qed

lemma mirror_run_status_effect_witness:
  "\<exists>t r. mirrorRealtimeEvent im_repo (\<lambda>_. 0) MRunStatus
      (Some (JObj [(''runId'', JStr ''run-1''), (''phase'', JStr ''error'')]))
      createMockProductApiState = Inr t
    \<and> im_getRunDetail ''run-1'' t = Some r \<and> run_status_of r = Failed"
proof -
  let ?p = "JObj [(''runId'', JStr ''run-1''), (''phase'', JStr ''error'')]"
  let ?m = "mirrorRealtimeEvent im_repo (\<lambda>_. 0) MRunStatus (Some ?p) createMockProductApiState"
  have "\<not> isl ?m" by code_simp
  then obtain t where t: "?m = Inr t" by (cases ?m) auto
  have i: "stringField ?p [''runId'', ''id''] = Some ''run-1''" by code_simp
  have st: "toRunStatus (js_nullish (getp ?p ''status'') (getp ?p ''phase'')) = Failed" by code_simp
  from mirror_run_status_effect [OF t _ i] st t show ?thesis by auto
qed

lemma stringField_as_str: "stringField r ks = Some x \<Longrightarrow> \<exists>k\<in>set ks. as_str (getp r k) = Some x"
  by (induction ks) (auto simp: stringField.simps split: option.splits if_splits)

definition time_out_of_range :: "rat option \<Rightarrow> bool" where
  "time_out_of_range q = (case q of None \<Rightarrow> False | Some x \<Rightarrow> \<bar>x\<bar> > 8640000000000000)"

lemma date_iso_error:
  "date_iso q = Inl e \<longleftrightarrow> e = RangeError ''Invalid time value'' \<and> \<bar>q\<bar> > 8640000000000000"
  by (auto simp: date_iso_def)

text \<open>
  The only exception a mirrored event can raise is the \<open>RangeError\<close> of \<open>toISOString\<close>, and
  it is raised exactly by a finite \<open>ts\<close> beyond 8.64e15 that is needed as a time: the start of
  an unknown run, or the update of a session whose payload has no usable time text.
\<close>

theorem mirror_throws_iff:
  "mirrorRealtimeEvent im_repo clk ev payload s = Inl e \<longleftrightarrow>
     (\<exists>p. payload = Some p \<and> is_object payload \<and> e = RangeError ''Invalid time value'' \<and>
       (ev = MRunStatus \<and> (\<exists>i. stringField p [''runId'', ''id''] = Some i
          \<and> im_getRunDetail i s = None) \<and> time_out_of_range (as_finite (getp p ''ts''))
     \<or> ev = MSessionMessage \<and> sessionIdFromPayload p \<noteq> None
          \<and> stringField p [''updatedAt'', ''createdAt''] = None
          \<and> time_out_of_range (numberField p [''ts''])
     \<or> ev = MSessionsChanged \<and> sessionIdFromPayload p \<noteq> None
          \<and> stringField p [''updatedAt''] = None
          \<and> time_out_of_range (numberField p [''ts''])))"
proof (cases "is_object payload")
  case False
  then show ?thesis by (auto simp: mirrorRealtimeEvent_def isRecord_def)
next
  case True
  then obtain p where p: "payload = Some p" by (cases payload) auto
  have chat: "mirror_chat im_repo clk p s \<noteq> Inl e"
    by (auto simp: mirror_chat_def Let_def chat_run_part_def chat_session_part_def
        mirrorRun_error_iff mirrorSession_error_iff split: option.splits)
  have tool: "mirror_tool_status im_repo clk p s \<noteq> Inl e"
    by (cases "stringField p [''startedAt'', ''updatedAt'']")
       (auto simp: mirror_tool_status_def Let_def mirrorRun_error_iff split: option.splits)
  show ?thesis
    using True p chat tool
    by (cases ev)
       (auto simp: mirrorRealtimeEvent_def isRecord_def mirror_run_status_def
         mirror_session_message_def mirror_sessions_changed_def mirrorRun_error_iff
         mirrorSession_error_iff isoFromValue_error time_out_of_range_def date_iso_error
         split: option.splits)
qed

lemma mirror_throws_iff_witness:
  "mirrorRealtimeEvent im_repo (\<lambda>_. 0) MSessionMessage
     (Some (JObj [(''sessionKey'', JStr ''s''), (''ts'', js_int 9000000000000000)]))
     createMockProductApiState = Inl (RangeError ''Invalid time value'')"
  by (subst mirror_throws_iff)
     (simp add: sessionIdFromPayload_def stringField.simps numberField.simps time_out_of_range_def
       trim_eval)

text \<open>
  The count of pending approvals never becomes negative: a request adds one, a resolution
  takes one away but stops at zero, and no other event changes it.
\<close>

theorem mirror_pending_approvals:
  assumes "mirrorRealtimeEvent im_repo clk ev (Some (JObj kvs)) s = Inr t"
  shows "pendingApprovals (workbench_st t) =
     (case ev of MApprovalRequested \<Rightarrow> pendingApprovals (workbench_st s) + 1
      | MApprovalResolved \<Rightarrow> max 0 (pendingApprovals (workbench_st s) - 1)
      | _ \<Rightarrow> pendingApprovals (workbench_st s))"
proof -
  have chat: "chat_run_part im_repo clk p st a = Inr b \<Longrightarrow> workbench_st b = workbench_st a"
    "chat_session_part im_repo clk p st a = Inr b \<Longrightarrow> workbench_st b = workbench_st a" for p st a b
    by (auto simp: chat_run_part_def chat_session_part_def split: option.splits
        dest!: mirrorRun_im(3) mirrorSession_im(3))
  show ?thesis
    using assms
    by (cases ev)
       (auto simp: mirrorRealtimeEvent_def isRecord_def mirror_run_status_def mirror_tool_status_def
         Let_def mirror_session_message_def mirror_sessions_changed_def mirror_chat_def
         mirrorApprovalRequest_def mirrorApprovalResolved_def in_memory_laws im_defs
         append_runtime_audit_im split: option.splits
         dest!: mirrorRun_im(3) mirrorSession_im(3) chat)
qed

lemma mirror_pending_approvals_witness:
  "\<exists>t. mirrorRealtimeEvent im_repo (\<lambda>_. 0) MApprovalResolved (Some (JObj []))
      createMockProductApiState = Inr t \<and> pendingApprovals (workbench_st t) = 1"
proof -
  let ?m = "mirrorRealtimeEvent im_repo (\<lambda>_. 0) MApprovalResolved (Some (JObj []))
      createMockProductApiState"
  have "\<not> isl ?m" by code_simp
  then obtain t where t: "?m = Inr t" by (cases ?m) auto
  show ?thesis using mirror_pending_approvals [OF t] t by (simp add: mock_defs)
qed

text \<open>
  A \<open>session.message\<close> adds exactly one to its session's message count (from zero for an
  unknown or uncounted session), a chat event adds one exactly when its state is \<open>final\<close> or
  \<open>error\<close>, a \<open>sessions.changed\<close> adds none; no other session changes.
\<close>

theorem mirror_message_count:
  assumes "mirrorRealtimeEvent im_repo clk ev (Some (JObj kvs)) s = Inr t"
    and "sessionIdFromPayload (JObj kvs) = Some i"
    and "ev = MSessionMessage \<or> ev = MSessionsChanged \<or> ev = MChat"
  shows "\<exists>d. im_getSessionDetail i t = Some d
      \<and> se_messageCount d = Some (nullish (Option.bind (im_getSessionDetail i s) se_messageCount) 0
          + (if ev = MSessionMessage \<or> ev = MChat
               \<and> stringField (JObj kvs) [''state''] \<in> {Some ''final'', Some ''error''}
             then 1 else 0))
      \<and> (\<forall>j. j \<noteq> i \<longrightarrow> im_getSessionDetail j t = im_getSessionDetail j s)"
proof -
  have frame: "chat_run_part im_repo clk p st a = Inr b \<Longrightarrow> im_getSessionDetail j b = im_getSessionDetail j a"
    for p st a b j
    by (auto simp: chat_run_part_def im_getSessionDetail_def split: option.splits
        dest!: mirrorRun_im(3))
  show ?thesis
    using assms(3)
  proof (elim disjE)
    assume ev: "ev = MChat"
    obtain a where a: "chat_run_part im_repo clk (JObj kvs) (stringField (JObj kvs) [''state'']) s = Inr a"
      and t: "chat_session_part im_repo clk (JObj kvs) (stringField (JObj kvs) [''state'']) a = Inr t"
      using assms(1) ev by (auto simp: mirrorRealtimeEvent_def isRecord_def mirror_chat_def Let_def)
    from t show ?thesis
      using assms(2) ev
      by (auto simp: chat_session_part_def frame [OF a, symmetric]
          dest!: mirrorSession_effect)
  qed (use assms(1,2) in \<open>auto simp: mirrorRealtimeEvent_def isRecord_def Let_def
         mirror_session_message_def mirror_sessions_changed_def dest!: mirrorSession_effect\<close>)
qed

lemma mirror_message_count_witness:
  "\<exists>t d. mirrorRealtimeEvent im_repo (\<lambda>_. 0) MSessionMessage
       (Some (JObj [(''sessionKey'', JStr ''session-1'')])) createMockProductApiState = Inr t
     \<and> im_getSessionDetail ''session-1'' t = Some d \<and> se_messageCount d = Some 15"
proof -
  let ?kvs = "[(''sessionKey'', JStr ''session-1'')]"
  let ?m = "mirrorRealtimeEvent im_repo (\<lambda>_. 0) MSessionMessage (Some (JObj ?kvs))
      createMockProductApiState"
  have "\<not> isl ?m" by code_simp
  then obtain t where t: "?m = Inr t" by (cases ?m) auto
  have i: "sessionIdFromPayload (JObj ?kvs) = Some ''session-1''" by code_simp
  have c: "nullish (Option.bind (im_getSessionDetail ''session-1'' createMockProductApiState)
      se_messageCount) 0 = 14" by code_simp
  from mirror_message_count [OF t i] c t show ?thesis by auto
qed

text \<open>
  A \<open>tool.status\<close> event never leaves its run completed or queued: unless the phase is
  \<open>failed\<close>, the run is running afterwards, whatever it was. A tool event that arrives after the
  run's terminal event so reopens a finished run.
\<close>

theorem tool_status_reopens_run:
  assumes "mirrorRealtimeEvent im_repo clk MToolStatus (Some (JObj kvs)) s = Inr t"
    and "stringField (JObj kvs) [''runId''] = Some i"
  shows "map_option run_status_of (im_getRunDetail i t)
     = Some (if stringField (JObj kvs) [''phase''] = Some ''failed'' then Failed else Running)"
proof -
  let ?ph = "stringField (JObj kvs) [''phase'']" and ?nm = "stringField (JObj kvs) [''name'']"
  let ?inp = "\<lparr>mr_runId = i, mr_sessionKey = stringField (JObj kvs) [''sessionKey'', ''sessionId''],
      mr_status = Some (JStr (if ?ph = Some ''failed'' then ''failed''
        else if ?ph = Some ''completed'' then ''running'' else ''running'')),
      mr_title = ?nm,
      mr_ts = map_option JStr (stringField (JObj kvs) [''startedAt'', ''updatedAt'']),
      mr_resultSummary = Some (([CHR 0xE5, CHR 0xB7, CHR 0xA5, CHR 0xE5, CHR 0x85,
          CHR 0xB7] @ '' '') @ nullish ?nm ''tool'' @ ('' '' @ [CHR 0xE7, CHR 0x8A, CHR 0xB6, CHR 0xE6,
          CHR 0x80, CHR 0x81, CHR 0xEF, CHR 0xBC, CHR 0x9A]) @ nullish ?ph ''unknown'')\<rparr>"
  obtain r u where run: "mirrorRun im_repo (isoNow clk 0) ?inp s = Inr (r, u)"
    and t: "im_getRunDetail i t = im_getRunDetail i u"
    using assms
    by (auto simp: mirrorRealtimeEvent_def isRecord_def mirror_tool_status_def Let_def
        append_runtime_audit_im)
  show ?thesis
    using mirrorRun_im(1,4) [OF run] t by (auto simp: toRunStatus_def)
qed

lemma tool_status_reopens_run_witness:
  "\<exists>t. mirrorRealtimeEvent im_repo (\<lambda>_. 0) MToolStatus
       (Some (JObj [(''runId'', JStr ''run-2''), (''phase'', JStr ''completed'')]))
       createMockProductApiState = Inr t
     \<and> map_option run_status_of (im_getRunDetail ''run-2'' createMockProductApiState) = Some Failed
     \<and> map_option run_status_of (im_getRunDetail ''run-2'' t) = Some Running"
proof -
  let ?kvs = "[(''runId'', JStr ''run-2''), (''phase'', JStr ''completed'')]"
  let ?m = "mirrorRealtimeEvent im_repo (\<lambda>_. 0) MToolStatus (Some (JObj ?kvs))
      createMockProductApiState"
  have "\<not> isl ?m" by code_simp
  then obtain t where t: "?m = Inr t" by (cases ?m) auto
  have i: "stringField (JObj ?kvs) [''runId''] = Some ''run-2''" by code_simp
  have ph: "stringField (JObj ?kvs) [''phase''] = Some ''completed''" by code_simp
  have old: "map_option run_status_of (im_getRunDetail ''run-2'' createMockProductApiState)
      = Some Failed" by code_simp
  from tool_status_reopens_run [OF t i] ph old t show ?thesis by auto
qed

text \<open>
  Mirroring into the file-backed repository is mirroring into its in-memory state: same
  exception or same resulting state, for every event and payload.
\<close>

theorem mirror_file_refines:
  "map_sum id mem (mirrorRealtimeEvent createFileProductApiRepository clk ev payload s)
     = mirrorRealtimeEvent createInMemoryProductApiRepository clk ev payload (mem s)"
  by (rule file_backed.mirror_event_view)

text \<open>
  C34: after any mutation of the file-backed repository the file holds the memory's state as JSON
  text can hold it, and opening it establishes this from any earlier content. Opening the file again
  yields the memory's state with null for every number in it that is not finite (the settings, the
  type of a source and the trigger of an automation can hold one), so exactly the same data when
  there is none; and it leaves the file as it is.
\<close>

theorem file_durable:
  "disk (openFileRepository f) = Some (state_wire (mem (openFileRepository f)))
   \<and> (repo_step createFileProductApiRepository s t
        \<longrightarrow> mem (openFileRepository (disk t)) = state_wire (mem t)
          \<and> (state_finite (mem t) \<longrightarrow> mem (openFileRepository (disk t)) = mem t)
          \<and> disk (openFileRepository (disk t)) = disk t)"
  using synced_open [of f] synced_open [of "disk t"] file_step_synced [of s t]
  by (auto simp: synced_def openFileRepository_def readState_def state_wire_finite)

lemma file_durable_witness:
  "mem (openFileRepository (disk (setSettings createFileProductApiRepository []
       (openFileRepository None)))) = im_setSettings [] createMockProductApiState
   \<and> mem (openFileRepository (disk (setSettings createFileProductApiRepository [(''limit'', JNum PosInf)]
       (openFileRepository None)))) = im_setSettings [(''limit'', JNull)] createMockProductApiState"
proof -
  have m: "mem (openFileRepository None) = createMockProductApiState"
    by (simp add: openFileRepository_def readState_def)
  have s: "mem (setSettings createFileProductApiRepository e (openFileRepository None)) = im_setSettings e createMockProductApiState" for e
    using file_backed.law_setSettings [of e "openFileRepository None"] m by simp
  have w: "state_finite (im_setSettings [] createMockProductApiState)"
    "state_wire (im_setSettings [(''limit'', JNum PosInf)] createMockProductApiState)
      = im_setSettings [(''limit'', JNull)] createMockProductApiState"
    by code_simp+
  show ?thesis
    using file_durable [of None "openFileRepository None" "setSettings createFileProductApiRepository [] (openFileRepository None)"]
      file_durable [of None "openFileRepository None" "setSettings createFileProductApiRepository [(''limit'', JNum PosInf)] (openFileRepository None)"]
      repo_step.set_settings [of createFileProductApiRepository "openFileRepository None"] s w state_wire_finite [OF w(1)]
    by simp
qed

end
