(* ===== verification/Store.thy ===== *)
theory Store
  imports Mirror
begin

text \<open>
  The Product API store of packages/domain (\<open>createProductApiStore\<close>): the counters its closure
  keeps next to the repository, and one definition per method. Request bodies are JSON values
  the store does not validate, so a method that trims a field throws a \<open>TypeError\<close> on a
  non-string; the counter it had already advanced stays advanced.
\<close>

section \<open>State\<close>

record store_counters =
  workflowCounter :: nat
  runCounter :: nat
  knowledgeCounter :: nat
  automationCounter :: nat
  auditCounter :: nat

record 's store =
  counters :: store_counters
  repo :: 's

definition createProductApiStore :: "'s repository \<Rightarrow> 's \<Rightarrow> 's store" where
  "createProductApiStore R s =
     \<lparr>counters = \<lparr>workflowCounter = length (listWorkflows R s) + 1,
                  runCounter = length (listRuns R s) + 1,
                  knowledgeCounter = length (listKnowledgeSources R s) + 1,
                  automationCounter = length (listAutomations R s) + 1,
                  auditCounter = length (listAuditEvents R s) + 1\<rparr>,
      repo = s\<rparr>"

definition computeWorkbenchFromRepository :: "'s repository \<Rightarrow> 's \<Rightarrow> workbench" where
  "computeWorkbenchFromRepository R s = (getWorkbenchState R s)
     \<lparr>recentRuns := int (length (listRuns R s)),
      recentSessions := int (length (listSessions R s)),
      connectedChannels := int (length (filter (\<lambda>c. conn_status c = Connected) (listConnections R s)))\<rparr>"

definition appendAuditEvent :: "'s repository \<Rightarrow> string \<Rightarrow> string \<Rightarrow> 's store \<Rightarrow> 's store" where
  "appendAuditEvent R action now st =
     (let n = auditCounter (counters st) in
      st\<lparr>counters := (counters st)\<lparr>auditCounter := n + 1\<rparr>,
         repo := prependAuditEvent R (buildAuditEvent n action Info now) (repo st)\<rparr>)"

section \<open>Reading a request body\<close>

definition null_read :: "string \<Rightarrow> js_error" where
  "null_read k = TypeError (''Cannot read properties of null (reading '' @ [CHR 0x27] @ k @ [CHR 0x27] @ '')'')"

text \<open>\<open>input.k?.trim() || fallback\<close>\<close>

definition trim_field :: "json \<Rightarrow> string \<Rightarrow> string \<Rightarrow> js_error + string" where
  "trim_field input k fallback =
     (if input = JNull then Inl (null_read k)
      else case getp input k of
        None \<Rightarrow> Inr fallback
      | Some JNull \<Rightarrow> Inr fallback
      | Some (JStr s) \<Rightarrow> Inr (if trim s = [] then fallback else trim s)
      | Some _ \<Rightarrow> Inl (TypeError (''input.'' @ k @ ''?.trim is not a function'')))"

section \<open>Workflows and runs\<close>

definition createWorkflow ::
    "'s repository \<Rightarrow> clock \<Rightarrow> json \<Rightarrow> 's store \<Rightarrow> (js_error + workflow_detail) \<times> 's store" where
  "createWorkflow R clk input st =
     (let n = workflowCounter (counters st);
          i = ''wf-'' @ nat_str n;
          st1 = st\<lparr>counters := (counters st)\<lparr>workflowCounter := n + 1\<rparr>\<rparr>
      in case trim_field input ''name'' (([CHR 0xE6, CHR 0x9C, CHR 0xAA, CHR 0xE5, CHR 0x91, CHR 0xBD,
          CHR 0xE5, CHR 0x90, CHR 0x8D, CHR 0xE6, CHR 0xB5, CHR 0x81, CHR 0xE7, CHR 0xA8,
          CHR 0x8B] @ '' '') @ i) of
           Inl e \<Rightarrow> (Inl e, st1)
         | Inr name \<Rightarrow>
             (case trim_field input ''description'' [CHR 0xE7, CHR 0xAD, CHR 0x89, CHR 0xE5, CHR 0xBE,
                 CHR 0x85, CHR 0xE8, CHR 0xA1, CHR 0xA5, CHR 0xE5, CHR 0x85, CHR 0x85, CHR 0xE6, CHR 0xB5,
                 CHR 0x81, CHR 0xE7, CHR 0xA8, CHR 0x8B, CHR 0xE6, CHR 0x8F, CHR 0x8F, CHR 0xE8, CHR 0xBF,
                 CHR 0xB0, CHR 0xE3, CHR 0x80, CHR 0x82] of
                Inl e \<Rightarrow> (Inl e, st1)
              | Inr description \<Rightarrow>
                  (let workflow = \<lparr>wf_id = i, wf_name = name, wf_status = WfDraft,
                         wf_lastRunAt = isoNow clk 0, wf_description = Some description\<rparr>;
                       st2 = st1\<lparr>repo := prependWorkflow R workflow (repo st1)\<rparr>
                   in (Inr workflow, appendAuditEvent R ''workflow.created'' (isoNow clk 1) st2))))"

definition createRunFromWorkflow ::
    "'s repository \<Rightarrow> clock \<Rightarrow> workflow_detail \<Rightarrow> string \<Rightarrow> 's store \<Rightarrow> run_detail \<times> 's store" where
  "createRunFromWorkflow R clk workflow action st =
     (let n = runCounter (counters st);
          st1 = st\<lparr>counters := (counters st)\<lparr>runCounter := n + 1\<rparr>\<rparr>;
          startedAt = isoNow clk 0;
          run = \<lparr>run_id = ''run-'' @ nat_str n, run_workflowId = wf_id workflow,
                 run_title = wf_name workflow, run_status_of = Queued, run_startedAt = startedAt,
                 run_resultSummary = Some ([CHR 0xE5, CHR 0xB7, CHR 0xB2, CHR 0xE8, CHR 0xBF, CHR 0x9B,
                     CHR 0xE5, CHR 0x85, CHR 0xA5, CHR 0xE9, CHR 0x98, CHR 0x9F, CHR 0xE5, CHR 0x88,
                     CHR 0x97, CHR 0xEF, CHR 0xBC, CHR 0x8C, CHR 0xE7, CHR 0xAD, CHR 0x89, CHR 0xE5,
                     CHR 0xBE, CHR 0x85] @ '' OpenClaw runtime '' @ [CHR 0xE6, CHR 0x89, CHR 0xA7,
                     CHR 0xE8, CHR 0xA1, CHR 0x8C, CHR 0xE3, CHR 0x80, CHR 0x82])\<rparr>;
          s2 = updateWorkflowLastRunAt R (wf_id workflow) startedAt (prependRun R run (repo st1))
      in (run, appendAuditEvent R action (isoNow clk 1) (st1\<lparr>repo := s2\<rparr>)))"

definition startWorkflowRun ::
    "'s repository \<Rightarrow> clock \<Rightarrow> string \<Rightarrow> 's store \<Rightarrow> run_detail option \<times> 's store" where
  "startWorkflowRun R clk workflowId st =
     (case getWorkflowDetail R workflowId (repo st) of
        None \<Rightarrow> (None, st)
      | Some workflow \<Rightarrow>
          map_prod Some id (createRunFromWorkflow R clk workflow ''workflow.run.started'' st))"

definition retryRun ::
    "'s repository \<Rightarrow> clock \<Rightarrow> string \<Rightarrow> 's store \<Rightarrow> run_detail option \<times> 's store" where
  "retryRun R clk runId st =
     (case getRunDetail R runId (repo st) of
        None \<Rightarrow> (None, st)
      | Some runDetail \<Rightarrow>
          (case getWorkflowDetail R (run_workflowId runDetail) (repo st) of
             None \<Rightarrow> (None, st)
           | Some workflow \<Rightarrow>
               map_prod Some id (createRunFromWorkflow R clk workflow ''workflow.run.retried'' st)))"

section \<open>Connections and settings\<close>

definition feishu_connection :: "connection option \<Rightarrow> string \<Rightarrow> connection" where
  "feishu_connection existing now =
     (case existing of
        Some c \<Rightarrow> c\<lparr>conn_status := Connected, conn_lastActiveAt := now\<rparr>
      | None \<Rightarrow> \<lparr>conn_id = ''conn-feishu'', conn_channelType = ''feishu'',
                 conn_status = Connected, conn_lastActiveAt = now\<rparr>)"

definition connectFeishu :: "'s repository \<Rightarrow> clock \<Rightarrow> 's store \<Rightarrow> connection \<times> 's store" where
  "connectFeishu R clk st =
     (let existing = find_by conn_channelType ''feishu'' (listConnections R (repo st));
          connection = feishu_connection existing (isoNow clk 0);
          st1 = st\<lparr>repo := snd (upsertConnection R connection (repo st))\<rparr>
      in (connection, appendAuditEvent R ''channel_connection.feishu.connected'' (isoNow clk 1) st1))"

definition updateSettings ::
    "'s repository \<Rightarrow> clock \<Rightarrow> json \<Rightarrow> 's store \<Rightarrow> settings \<times> 's store" where
  "updateSettings R clk input st =
     (let settings = obj_spread (getSettings R (repo st)) (own_entries (Some input));
          st1 = st\<lparr>repo := setSettings R settings (repo st)\<rparr>
      in (settings, appendAuditEvent R ''settings.updated'' (isoNow clk 0) st1))"

section \<open>Knowledge sources and automations\<close>

definition createKnowledgeSource ::
    "'s repository \<Rightarrow> clock \<Rightarrow> json \<Rightarrow> 's store \<Rightarrow> (js_error + knowledge_source) \<times> 's store" where
  "createKnowledgeSource R clk input st =
     (let n = knowledgeCounter (counters st);
          i = ''knowledge-'' @ nat_str n;
          st1 = st\<lparr>counters := (counters st)\<lparr>knowledgeCounter := n + 1\<rparr>\<rparr>
      in case trim_field input ''name'' (([CHR 0xE6, CHR 0x9C, CHR 0xAA, CHR 0xE5, CHR 0x91, CHR 0xBD,
          CHR 0xE5, CHR 0x90, CHR 0x8D, CHR 0xE7, CHR 0x9F, CHR 0xA5, CHR 0xE8, CHR 0xAF, CHR 0x86,
          CHR 0xE6, CHR 0xBA, CHR 0x90] @ '' '') @ i) of
           Inl e \<Rightarrow> (Inl e, st1)
         | Inr name \<Rightarrow>
             (let source = \<lparr>ks_id = i, ks_name = name,
                    ks_sourceType = the (js_nullish (getp input ''sourceType'') (Some (JStr ''web-upload''))),
                    ks_status = KSyncing, ks_updatedAt = isoNow clk 0, ks_documentCount = 0\<rparr>;
                  st2 = st1\<lparr>repo := prependKnowledgeSource R source (repo st1)\<rparr>
              in (Inr source, appendAuditEvent R ''knowledge_source.created'' (isoNow clk 1) st2)))"

definition createAutomation ::
    "'s repository \<Rightarrow> clock \<Rightarrow> json \<Rightarrow> 's store \<Rightarrow> (js_error + automation) \<times> 's store" where
  "createAutomation R clk input st =
     (let n = automationCounter (counters st);
          i = ''automation-'' @ nat_str n;
          st1 = st\<lparr>counters := (counters st)\<lparr>automationCounter := n + 1\<rparr>\<rparr>
      in if input = JNull then (Inl (null_read ''triggerType''), st1)
         else (let triggerType = the (js_nullish (getp input ''triggerType'') (Some (JStr ''schedule'')))
           in case trim_field input ''name'' (([CHR 0xE6, CHR 0x9C, CHR 0xAA, CHR 0xE5, CHR 0x91, CHR 0xBD,
               CHR 0xE5, CHR 0x90, CHR 0x8D, CHR 0xE8, CHR 0x87, CHR 0xAA, CHR 0xE5, CHR 0x8A, CHR 0xA8,
               CHR 0xE5, CHR 0x8C, CHR 0x96] @ '' '') @ i) of
             Inl e \<Rightarrow> (Inl e, st1)
           | Inr name \<Rightarrow>
               (let automation = \<lparr>au_id = i, au_name = name, au_triggerType = triggerType,
                      au_status = AActive, au_lastRunAt = None,
                      au_nextRunAt = (if triggerType = JStr ''manual'' then None
                                      else Some (isoNow clk 0))\<rparr>;
                    st2 = st1\<lparr>repo := prependAutomation R automation (repo st1)\<rparr>
                in (Inr automation, appendAuditEvent R ''automation.created'' (isoNow clk 1) st2))))"

fun automation_status_str :: "automation_status \<Rightarrow> string" where
  "automation_status_str AActive = ''active''"
| "automation_status_str APaused = ''paused''"

definition toggled_automation :: "automation \<Rightarrow> string \<Rightarrow> automation" where
  "toggled_automation a now =
     (let nextStatus = (if au_status a = AActive then APaused else AActive) in
      a\<lparr>au_status := nextStatus,
        au_nextRunAt := (if nextStatus = AActive \<and> au_triggerType a \<noteq> JStr ''manual'' then Some now
                         else None)\<rparr>)"

definition toggleAutomation ::
    "'s repository \<Rightarrow> clock \<Rightarrow> string \<Rightarrow> 's store \<Rightarrow> automation option \<times> 's store" where
  "toggleAutomation R clk automationId st =
     (case getAutomation R automationId (repo st) of
        None \<Rightarrow> (None, st)
      | Some a \<Rightarrow>
          (let a' = toggled_automation a (isoNow clk 0);
               st1 = st\<lparr>repo := snd (upsertAutomation R a' (repo st))\<rparr>
           in (Some a', appendAuditEvent R (''automation.'' @ automation_status_str (au_status a'))
                (isoNow clk 1) st1)))"

definition triggered_automation :: "automation \<Rightarrow> string \<Rightarrow> string \<Rightarrow> automation" where
  "triggered_automation a now now' =
     a\<lparr>au_lastRunAt := Some now,
       au_nextRunAt := (if au_status a = AActive \<and> au_triggerType a \<noteq> JStr ''manual'' then Some now'
                        else au_nextRunAt a)\<rparr>"

definition runAutomation ::
    "'s repository \<Rightarrow> clock \<Rightarrow> string \<Rightarrow> 's store \<Rightarrow> automation option \<times> 's store" where
  "runAutomation R clk automationId st =
     (case getAutomation R automationId (repo st) of
        None \<Rightarrow> (None, st)
      | Some a \<Rightarrow>
          (let a' = triggered_automation a (isoNow clk 0) (isoNow clk 1);
               st1 = st\<lparr>repo := snd (upsertAutomation R a' (repo st))\<rparr>
           in (Some a', appendAuditEvent R ''automation.run.triggered'' (isoNow clk 2) st1)))"

section \<open>Operation sequences\<close>

text \<open>
  What changes the product state of a running API server: a store method, or an event of the
  realtime mirror, which writes to the same repository without the store's counters. A mirror
  event that throws writes nothing.
\<close>

datatype api_op =
    CreateWorkflow json
  | StartRun string
  | RetryRun string
  | ConnectFeishu
  | UpdateSettings json
  | CreateSource json
  | CreateAutomation json
  | ToggleAutomation string
  | RunAutomation string
  | MirrorEvent mirror_event jsval

definition mirror_op ::
    "'s repository \<Rightarrow> clock \<Rightarrow> mirror_event \<Rightarrow> jsval \<Rightarrow> 's store \<Rightarrow> 's store" where
  "mirror_op R clk ev payload st =
     (case mirrorRealtimeEvent R clk ev payload (repo st) of Inl e \<Rightarrow> st | Inr s \<Rightarrow> st\<lparr>repo := s\<rparr>)"

fun apply_op :: "'s repository \<Rightarrow> clock \<Rightarrow> api_op \<Rightarrow> 's store \<Rightarrow> 's store" where
  "apply_op R clk (CreateWorkflow b) st = snd (createWorkflow R clk b st)"
| "apply_op R clk (StartRun i) st = snd (startWorkflowRun R clk i st)"
| "apply_op R clk (RetryRun i) st = snd (retryRun R clk i st)"
| "apply_op R clk ConnectFeishu st = snd (connectFeishu R clk st)"
| "apply_op R clk (UpdateSettings b) st = snd (updateSettings R clk b st)"
| "apply_op R clk (CreateSource b) st = snd (createKnowledgeSource R clk b st)"
| "apply_op R clk (CreateAutomation b) st = snd (createAutomation R clk b st)"
| "apply_op R clk (ToggleAutomation i) st = snd (toggleAutomation R clk i st)"
| "apply_op R clk (RunAutomation i) st = snd (runAutomation R clk i st)"
| "apply_op R clk (MirrorEvent ev p) st = mirror_op R clk ev p st"

fun apply_ops :: "'s repository \<Rightarrow> (clock \<times> api_op) list \<Rightarrow> 's store \<Rightarrow> 's store" where
  "apply_ops R [] st = st"
| "apply_ops R ((clk, a) # ops) st = apply_ops R ops (apply_op R clk a st)"

lemmas store_defs = createWorkflow_def createRunFromWorkflow_def startWorkflowRun_def retryRun_def
  connectFeishu_def updateSettings_def createKnowledgeSource_def createAutomation_def
  toggleAutomation_def runAutomation_def appendAuditEvent_def mirror_op_def

section \<open>A store is a client of its repository\<close>

definition store_map :: "('s \<Rightarrow> 't) \<Rightarrow> 's store \<Rightarrow> 't store" where
  "store_map f st = \<lparr>counters = counters st, repo = f (repo st)\<rparr>"

lemma store_map_simps [simp]:
  "counters (store_map f st) = counters st" "repo (store_map f st) = f (repo st)"
  "store_map f (st\<lparr>counters := c\<rparr>) = (store_map f st)\<lparr>counters := c\<rparr>"
  "store_map f (st\<lparr>repo := s\<rparr>) = (store_map f st)\<lparr>repo := f s\<rparr>"
  by (simp_all add: store_map_def)

lemma appendAuditEvent_steps: "repo_steps R s (repo st) \<Longrightarrow> repo_steps R s (repo (appendAuditEvent R a now st))"
  by (auto simp: appendAuditEvent_def Let_def intro: repo_steps.intros repo_step.intros)

lemma createRunFromWorkflow_steps:
  "repo_steps R (repo st) (repo (snd (createRunFromWorkflow R clk w a st)))"
proof -
  have "repo_steps R s (updateWorkflowLastRunAt R i t (prependRun R r s))" for i t r s
    by (rule steps_step [OF one_step(4)]) (rule repo_step.intros)
  then show ?thesis
    by (auto simp: createRunFromWorkflow_def Let_def intro!: appendAuditEvent_steps)
qed

text \<open>Every operation of a running server is a sequence of repository operations.\<close>

lemma apply_op_steps: "repo_steps R (repo st) (repo (apply_op R clk a st))"
proof (cases a)
  case (MirrorEvent ev p)
  then show ?thesis
    by (auto simp: mirror_op_def intro: steps_refl dest: mirror_event_steps split: sum.split)
qed (auto simp: createWorkflow_def startWorkflowRun_def retryRun_def connectFeishu_def
      updateSettings_def createKnowledgeSource_def createAutomation_def toggleAutomation_def
      runAutomation_def Let_def createRunFromWorkflow_steps
      intro!: appendAuditEvent_steps one_step steps_refl split: sum.split option.split)

lemma apply_ops_steps: "repo_steps R (repo st) (repo (apply_ops R ops st))"
proof (induction ops arbitrary: st)
  case (Cons x ops)
  then show ?case
    by (cases x) (auto intro: repo_steps_trans [OF _ apply_op_steps])
qed (simp add: steps_refl)

context product_repository
begin

lemma appendAuditEvent_view:
  "store_map view (appendAuditEvent R a now st) = appendAuditEvent im_repo a now (store_map view st)"
  by (simp add: appendAuditEvent_def Let_def repo_laws in_memory_laws)

lemma createWorkflow_view:
  "map_prod id (store_map view) (createWorkflow R clk b st) = createWorkflow im_repo clk b (store_map view st)"
  by (simp add: createWorkflow_def Let_def appendAuditEvent_view repo_laws in_memory_laws
      split: sum.split)

lemma createRunFromWorkflow_view:
  "map_prod id (store_map view) (createRunFromWorkflow R clk w a st)
     = createRunFromWorkflow im_repo clk w a (store_map view st)"
  by (simp add: createRunFromWorkflow_def Let_def appendAuditEvent_view repo_laws in_memory_laws)

lemma created_run_view:
  "map_prod id (store_map view) (map_prod Some id (createRunFromWorkflow R clk w a st))
     = map_prod Some id (createRunFromWorkflow im_repo clk w a (store_map view st))"
  by (simp add: createRunFromWorkflow_view [symmetric] prod.map_comp comp_def)

lemma startWorkflowRun_view:
  "map_prod id (store_map view) (startWorkflowRun R clk i st)
     = startWorkflowRun im_repo clk i (store_map view st)"
  by (simp add: startWorkflowRun_def created_run_view repo_laws in_memory_laws split: option.split)

lemma retryRun_view:
  "map_prod id (store_map view) (retryRun R clk i st) = retryRun im_repo clk i (store_map view st)"
  by (simp add: retryRun_def created_run_view repo_laws in_memory_laws split: option.split)

lemma connectFeishu_view:
  "map_prod id (store_map view) (connectFeishu R clk st) = connectFeishu im_repo clk (store_map view st)"
  by (simp add: connectFeishu_def Let_def appendAuditEvent_view repo_laws in_memory_laws)

lemma updateSettings_view:
  "map_prod id (store_map view) (updateSettings R clk b st)
     = updateSettings im_repo clk b (store_map view st)"
  by (simp add: updateSettings_def Let_def appendAuditEvent_view repo_laws in_memory_laws)

lemma createKnowledgeSource_view:
  "map_prod id (store_map view) (createKnowledgeSource R clk b st)
     = createKnowledgeSource im_repo clk b (store_map view st)"
  by (simp add: createKnowledgeSource_def Let_def appendAuditEvent_view repo_laws in_memory_laws
      split: sum.split)

lemma createAutomation_view:
  "map_prod id (store_map view) (createAutomation R clk b st)
     = createAutomation im_repo clk b (store_map view st)"
  by (simp add: createAutomation_def Let_def appendAuditEvent_view repo_laws in_memory_laws
      split: sum.split)

lemma toggleAutomation_view:
  "map_prod id (store_map view) (toggleAutomation R clk i st)
     = toggleAutomation im_repo clk i (store_map view st)"
  by (simp add: toggleAutomation_def Let_def appendAuditEvent_view repo_laws in_memory_laws
      split: option.split)

lemma runAutomation_view:
  "map_prod id (store_map view) (runAutomation R clk i st)
     = runAutomation im_repo clk i (store_map view st)"
  by (simp add: runAutomation_def Let_def appendAuditEvent_view repo_laws in_memory_laws
      split: option.split)

lemma mirror_op_view:
  "store_map view (mirror_op R clk ev p st) = mirror_op im_repo clk ev p (store_map view st)"
  by (simp add: mirror_op_def mirror_event_view [symmetric] split: sum.split)

lemmas op_views = createWorkflow_view startWorkflowRun_view retryRun_view connectFeishu_view
  updateSettings_view createKnowledgeSource_view createAutomation_view toggleAutomation_view
  runAutomation_view

lemma apply_op_view: "store_map view (apply_op R clk a st) = apply_op im_repo clk a (store_map view st)"
  by (cases a) (simp_all add: op_views [symmetric] mirror_op_view)

lemma apply_ops_view:
  "store_map view (apply_ops R ops st) = apply_ops im_repo ops (store_map view st)"
proof (induction ops arbitrary: st)
  case (Cons x ops)
  then show ?case by (cases x) (simp add: apply_op_view)
qed simp

lemma createProductApiStore_view:
  "store_map view (createProductApiStore R s) = createProductApiStore im_repo (view s)"
  by (simp add: createProductApiStore_def store_map_def repo_laws in_memory_laws)

end

section \<open>Fresh identifiers\<close>

text \<open>What a mirrored event cannot touch.\<close>

definition configured :: "product_state \<Rightarrow> _" where
  "configured s = (workflows s, workflowDetails s, knowledgeSources s, automations s,
     connections s, settings_st s)"

lemma mirror_configured:
  assumes "mirrorRealtimeEvent im_repo clk ev p s = Inr t"
  shows "configured t = configured s"
proof -
  have chat: "chat_run_part im_repo clk p st a = Inr b \<Longrightarrow> configured b = configured a"
    "chat_session_part im_repo clk p st a = Inr b \<Longrightarrow> configured b = configured a" for p st a b
    by (auto simp: chat_run_part_def chat_session_part_def configured_def split: option.splits
        dest!: mirrorRun_im(3) mirrorSession_im(3))
  have all: "mirror_chat im_repo clk p s = Inr t \<Longrightarrow> configured t = configured s" for p
    by (auto simp: mirror_chat_def Let_def dest!: chat)
  show ?thesis
    using assms
    by (cases ev)
       (auto simp: mirrorRealtimeEvent_def isRecord_def mirror_run_status_def mirror_tool_status_def
         Let_def mirror_session_message_def mirror_sessions_changed_def
         mirrorApprovalRequest_def mirrorApprovalResolved_def in_memory_laws im_defs
         append_runtime_audit_im configured_def split: option.splits if_splits
         dest!: mirrorRun_im(3) mirrorSession_im(3) all [unfolded configured_def])
qed

definition ids_below :: "string \<Rightarrow> nat \<Rightarrow> string list \<Rightarrow> bool" where
  "ids_below p n is \<longleftrightarrow> distinct is \<and> (\<forall>i\<in>set is. \<exists>k<n. i = p @ nat_str k)"

lemma ids_below_fresh: "ids_below p n is \<Longrightarrow> p @ nat_str n \<notin> set is"
  by (auto simp: ids_below_def)

lemma ids_below_distinct: "ids_below p n is \<Longrightarrow> distinct is"
  by (simp add: ids_below_def)

lemma ids_below_Cons: "ids_below p n is \<Longrightarrow> ids_below p (Suc n) ((p @ nat_str n) # is)"
  by (auto simp: ids_below_def intro: less_SucI)

lemma ids_below_Suc: "ids_below p n is \<Longrightarrow> ids_below p (Suc n) is"
  by (auto simp: ids_below_def intro: less_SucI)

lemmas new_ids = ids_below_Cons [of "''wf-''", simplified] ids_below_Cons [of "''knowledge-''", simplified]
  ids_below_Cons [of "''automation-''", simplified]

definition ids_fresh :: "product_state store \<Rightarrow> bool" where
  "ids_fresh st \<longleftrightarrow>
     ids_below ''wf-'' (workflowCounter (counters st)) (map wf_id (workflows (repo st)))
   \<and> ids_below ''knowledge-'' (knowledgeCounter (counters st)) (map ks_id (knowledgeSources (repo st)))
   \<and> ids_below ''automation-'' (automationCounter (counters st)) (map au_id (automations (repo st)))"

lemma getAutomation_id: "im_getAutomation i s = Some a \<Longrightarrow> au_id a = i \<and> a \<in> set (automations s)"
  by (auto simp: im_getAutomation_def dest: find_by_Some)

lemma touch_ids [simp]:
  "map wf_id (update_first wf_id i (\<lambda>w. w\<lparr>wf_lastRunAt := t\<rparr>) ws) = map wf_id (ws :: workflow_summary list)"
  by (rule map_update_first) simp

lemma upsert_present_ids:
  "a \<in> set as \<Longrightarrow> au_id b = au_id a \<Longrightarrow> map au_id (upsert_by au_id (\<lambda>_ n. n) b as) = map au_id as"
  by (auto simp: upsert_by_def intro: map_update_first)

lemma changed_automation_ids [simp]:
  "au_id (toggled_automation a now) = au_id a" "au_id (triggered_automation a now now') = au_id a"
  by (simp_all add: toggled_automation_def triggered_automation_def Let_def)

lemma created_run_ids:
  "ids_fresh st \<Longrightarrow> ids_fresh (snd (createRunFromWorkflow im_repo clk w a st))"
  by (simp add: createRunFromWorkflow_def appendAuditEvent_def Let_def in_memory_laws im_defs
      ids_fresh_def)

lemma ids_fresh_step: "ids_fresh st \<Longrightarrow> ids_fresh (apply_op im_repo clk a st)"
proof (cases a)
  case (MirrorEvent ev p)
  assume "ids_fresh st"
  with MirrorEvent show ?thesis
    by (auto simp: mirror_op_def ids_fresh_def configured_def dest!: mirror_configured split: sum.split)
next
  case (ToggleAutomation i)
  assume "ids_fresh st"
  with ToggleAutomation show ?thesis
    by (auto simp: toggleAutomation_def appendAuditEvent_def Let_def in_memory_laws ids_fresh_def
        im_upsertAutomation_def im_prependAuditEvent_def upsert_present_ids
        dest: getAutomation_id split: option.split)
next
  case (RunAutomation i)
  assume "ids_fresh st"
  with RunAutomation show ?thesis
    by (auto simp: runAutomation_def appendAuditEvent_def Let_def in_memory_laws ids_fresh_def
        im_upsertAutomation_def im_prependAuditEvent_def upsert_present_ids
        dest: getAutomation_id split: option.split)
qed (auto simp: startWorkflowRun_def retryRun_def created_run_ids split: option.split,
     auto simp: createWorkflow_def connectFeishu_def
      updateSettings_def createKnowledgeSource_def createAutomation_def appendAuditEvent_def Let_def
      in_memory_laws im_prependWorkflow_def im_upsertConnection_def im_setSettings_def
      im_prependKnowledgeSource_def im_prependAutomation_def im_prependAuditEvent_def
      workflow_summary_of_def ids_fresh_def new_ids ids_below_Suc split: sum.split option.split)

lemma ids_fresh_steps: "ids_fresh st \<Longrightarrow> ids_fresh (apply_ops im_repo ops st)"
proof (induction ops arbitrary: st)
  case (Cons x ops)
  then show ?case by (cases x) (simp add: ids_fresh_step)
qed simp

abbreviation fresh_server :: "product_state store" where
  "fresh_server \<equiv> createProductApiStore im_repo createMockProductApiState"

lemma ids_fresh_server: "ids_fresh fresh_server"
proof -
  have "ids_below ''wf-'' 3 [''wf-1'', ''wf-2'']"
    "ids_below ''knowledge-'' 3 [''knowledge-1'', ''knowledge-2'']"
    "ids_below ''automation-'' 3 [''automation-1'', ''automation-2'']"
    by (auto simp: ids_below_def nat_str_eval intro: exI [of _ 1] exI [of _ 2])
  then show ?thesis
    by (simp add: ids_fresh_def createProductApiStore_def in_memory_laws mock_defs eval_nat_numeral)
qed

section \<open>What the operations do\<close>

lemma created_run_effect:
  assumes "createRunFromWorkflow im_repo clk w a st = (r, st')"
  shows "r = \<lparr>run_id = ''run-'' @ nat_str (runCounter (counters st)), run_workflowId = wf_id w,
             run_title = wf_name w, run_status_of = Queued, run_startedAt = isoNow clk 0,
             run_resultSummary = Some ([CHR 0xE5, CHR 0xB7, CHR 0xB2, CHR 0xE8, CHR 0xBF, CHR 0x9B,
                 CHR 0xE5, CHR 0x85, CHR 0xA5, CHR 0xE9, CHR 0x98, CHR 0x9F, CHR 0xE5, CHR 0x88, CHR 0x97,
                 CHR 0xEF, CHR 0xBC, CHR 0x8C, CHR 0xE7, CHR 0xAD, CHR 0x89, CHR 0xE5, CHR 0xBE,
                 CHR 0x85] @ '' OpenClaw runtime '' @ [CHR 0xE6, CHR 0x89, CHR 0xA7, CHR 0xE8, CHR 0xA1,
                 CHR 0x8C, CHR 0xE3, CHR 0x80, CHR 0x82])\<rparr>"
    and "runDetails (repo st') = r # runDetails (repo st)"
    and "runs (repo st') = run_summary_of r # runs (repo st)"
    and "runCounter (counters st') = Suc (runCounter (counters st))"
    and "workflowDetails (repo st')
           = update_first wf_id (wf_id w) (\<lambda>x. x\<lparr>wf_lastRunAt := run_startedAt r\<rparr>) (workflowDetails (repo st))"
    and "workflows (repo st')
           = update_first wf_id (wf_id w) (\<lambda>x. x\<lparr>wf_lastRunAt := run_startedAt r\<rparr>) (workflows (repo st))"
    and "auditEvents (repo st') = buildAuditEvent (auditCounter (counters st)) a Info (isoNow clk 1)
           # auditEvents (repo st)"
  using assms
  by (auto simp: createRunFromWorkflow_def appendAuditEvent_def Let_def in_memory_laws im_defs)

lemma created_run_lookups:
  assumes "createRunFromWorkflow im_repo clk w a st = (r, st')"
    and "im_getWorkflowDetail (wf_id w) (repo st) = Some w"
  shows "im_getRunDetail (run_id r) (repo st') = Some r"
    and "j \<noteq> run_id r \<Longrightarrow> im_getRunDetail j (repo st') = im_getRunDetail j (repo st)"
    and "im_getWorkflowDetail (wf_id w) (repo st') = Some (w\<lparr>wf_lastRunAt := run_startedAt r\<rparr>)"
    and "k \<noteq> wf_id w \<Longrightarrow> im_getWorkflowDetail k (repo st') = im_getWorkflowDetail k (repo st)"
  using assms(2) created_run_effect [OF assms(1)]
  by (simp_all add: im_getRunDetail_def im_getWorkflowDetail_def find_update_first)

lemma getWorkflowDetail_id: "im_getWorkflowDetail i s = Some w \<Longrightarrow> wf_id w = i"
  by (auto simp: im_getWorkflowDetail_def dest: find_by_Some)

lemma startWorkflowRun_Some:
  "startWorkflowRun im_repo clk i st = (Some r, st') \<longleftrightarrow>
     (\<exists>w. im_getWorkflowDetail i (repo st) = Some w
        \<and> createRunFromWorkflow im_repo clk w ''workflow.run.started'' st = (r, st'))"
  by (auto simp: startWorkflowRun_def in_memory_laws map_prod_def split: option.splits prod.splits)

lemma retryRun_Some:
  "retryRun im_repo clk i st = (Some r, st') \<longleftrightarrow>
     (\<exists>old w. im_getRunDetail i (repo st) = Some old
        \<and> im_getWorkflowDetail (run_workflowId old) (repo st) = Some w
        \<and> createRunFromWorkflow im_repo clk w ''workflow.run.retried'' st = (r, st'))"
  by (auto simp: retryRun_def in_memory_laws map_prod_def split: option.splits prod.splits)

lemma trim_field_error:
  "trim_field b k d = Inl e \<Longrightarrow> b = JNull \<or> (\<exists>v. getp b k = Some v \<and> v \<noteq> JNull \<and> as_str (Some v) = None)"
  by (auto simp: trim_field_def split: if_splits option.splits json.splits)

lemma trim_field_nonempty: "trim_field b k d = Inr x \<Longrightarrow> d \<noteq> [] \<Longrightarrow> x \<noteq> []"
  by (auto simp: trim_field_def split: if_splits option.splits json.splits)

lemma workflow_id_fresh:
  "ids_fresh st \<Longrightarrow> ''wf-'' @ nat_str (workflowCounter (counters st)) \<notin> wf_id ` set (workflows (repo st))"
  unfolding ids_fresh_def by (metis ids_below_fresh set_map)

section \<open>Properties\<close>

text \<open>
  A server on the file-backed repository and a server on the in-memory repository that
  receive the same requests and realtime events hold the same data and the same counters, and
  return what the in-memory one returns.
\<close>

theorem store_file_refines:
  "store_map mem (apply_ops createFileProductApiRepository ops
       (createProductApiStore createFileProductApiRepository (openFileRepository f)))
     = apply_ops im_repo ops (createProductApiStore im_repo (readState f))"
  by (simp add: file_backed.apply_ops_view file_backed.createProductApiStore_view openFileRepository_def)

text \<open>
  C29: in every state a fresh server reaches by requests and realtime events, each summary list
  (workflows, runs, sessions) is entry by entry the projection of its detail list.
\<close>

theorem reachable_summaries_agree:
  "summaries_agree (repo (apply_ops im_repo ops fresh_server))"
proof -
  have "repo_steps im_repo (repo fresh_server) (repo (apply_ops im_repo ops fresh_server))"
    by (rule apply_ops_steps)
  then show ?thesis
    using in_memory.steps_summaries_agree summaries_agree_mock
    by (simp add: createProductApiStore_def)
qed

text \<open>
  C25: in every state a fresh server reaches, no two workflows, no two knowledge sources and no
  two automations share an identifier, and the identifiers that the counters of workflows,
  knowledge sources and automations will give out next are not in use. (Of the entries of the
  audit log and of runs this is not claimed: they also come from the realtime mirror, with
  identifiers that the store's counters know nothing of.)
\<close>

theorem reachable_ids_distinct:
  fixes ops defines "st \<equiv> apply_ops im_repo ops fresh_server"
  shows "distinct (map wf_id (workflowDetails (repo st)))
    \<and> distinct (map ks_id (knowledgeSources (repo st)))
    \<and> distinct (map au_id (automations (repo st)))
    \<and> im_getWorkflowDetail (''wf-'' @ nat_str (workflowCounter (counters st))) (repo st) = None
    \<and> ''knowledge-'' @ nat_str (knowledgeCounter (counters st)) \<notin> set (map ks_id (knowledgeSources (repo st)))
    \<and> im_getAutomation (''automation-'' @ nat_str (automationCounter (counters st))) (repo st) = None"
proof -
  have fresh: "ids_fresh st"
    unfolding st_def by (rule ids_fresh_steps [OF ids_fresh_server])
  have "summaries_agree (repo st)"
    unfolding st_def using in_memory.steps_summaries_agree [OF apply_ops_steps] summaries_agree_mock
    by (simp add: createProductApiStore_def)
  then have wf: "map wf_id (workflowDetails (repo st)) = map wf_id (workflows (repo st))"
    by (simp add: summaries_agree_def comp_def)
  from fresh have "ids_below ''wf-'' (workflowCounter (counters st)) (map wf_id (workflowDetails (repo st)))"
    by (simp only: ids_fresh_def wf)
  with fresh show ?thesis
    by (auto simp only: ids_fresh_def im_getWorkflowDetail_def im_getAutomation_def find_by_None
        set_map [symmetric] dest: ids_below_fresh intro: ids_below_distinct)
qed

lemma createWorkflow_result:
  assumes "ids_fresh st" and "createWorkflow im_repo clk b st = (res, st')"
  shows "case res of
      Inl e \<Rightarrow> repo st' = repo st \<and> workflowCounter (counters st') = Suc (workflowCounter (counters st))
        \<and> (b = JNull \<or> (\<exists>k\<in>{''name'', ''description''}. \<exists>v. getp b k = Some v \<and> v \<noteq> JNull
             \<and> as_str (Some v) = None))
    | Inr w \<Rightarrow> wf_status w = WfDraft \<and> wf_name w \<noteq> []
        \<and> im_getWorkflowDetail (wf_id w) (repo st') = Some w
        \<and> wf_id w \<notin> wf_id ` set (workflows (repo st))
        \<and> workflows (repo st') = workflow_summary_of w # workflows (repo st)
        \<and> (\<forall>j. j \<noteq> wf_id w \<longrightarrow> im_getWorkflowDetail j (repo st') = im_getWorkflowDetail j (repo st))"
proof (cases res)
  case (Inl e)
  then have "trim_field b ''name'' (([CHR 0xE6, CHR 0x9C, CHR 0xAA, CHR 0xE5, CHR 0x91, CHR 0xBD, CHR 0xE5,
      CHR 0x90, CHR 0x8D, CHR 0xE6, CHR 0xB5, CHR 0x81, CHR 0xE7, CHR 0xA8,
      CHR 0x8B] @ '' '') @ ''wf-'' @ nat_str (workflowCounter (counters st))) = Inl e
      \<or> trim_field b ''description'' [CHR 0xE7, CHR 0xAD, CHR 0x89, CHR 0xE5, CHR 0xBE, CHR 0x85,
          CHR 0xE8, CHR 0xA1, CHR 0xA5, CHR 0xE5, CHR 0x85, CHR 0x85, CHR 0xE6, CHR 0xB5, CHR 0x81,
          CHR 0xE7, CHR 0xA8, CHR 0x8B, CHR 0xE6, CHR 0x8F, CHR 0x8F, CHR 0xE8, CHR 0xBF, CHR 0xB0,
          CHR 0xE3, CHR 0x80, CHR 0x82] = Inl e"
    using assms(2) by (simp add: createWorkflow_def Let_def split: sum.splits)
  moreover have "repo st' = repo st" "workflowCounter (counters st') = Suc (workflowCounter (counters st))"
    using assms(2) Inl by (auto simp: createWorkflow_def Let_def split: sum.splits)
  ultimately show ?thesis
    using Inl by (auto dest: trim_field_error)
next
  case (Inr w)
  note new = workflow_id_fresh [OF assms(1)]
  obtain d where name: "trim_field b ''name'' (([CHR 0xE6, CHR 0x9C, CHR 0xAA, CHR 0xE5, CHR 0x91,
      CHR 0xBD, CHR 0xE5, CHR 0x90, CHR 0x8D, CHR 0xE6, CHR 0xB5, CHR 0x81, CHR 0xE7, CHR 0xA8,
      CHR 0x8B] @ '' '') @ ''wf-'' @ nat_str (workflowCounter (counters st)))
        = Inr (wf_name w)"
    and w: "w = \<lparr>wf_id = ''wf-'' @ nat_str (workflowCounter (counters st)), wf_name = wf_name w,
             wf_status = WfDraft, wf_lastRunAt = isoNow clk 0, wf_description = Some d\<rparr>"
    and r: "repo st' = im_prependAuditEvent (buildAuditEvent (auditCounter (counters st)) ''workflow.created''
              Info (isoNow clk 1)) (im_prependWorkflow w (repo st))"
    using assms(2) Inr
    by (auto simp: createWorkflow_def Let_def appendAuditEvent_def in_memory_laws split: sum.splits)
  have i: "wf_id w = ''wf-'' @ nat_str (workflowCounter (counters st))" "wf_status w = WfDraft"
    by (subst w, simp)+
  show ?thesis
    using new i r trim_field_nonempty [OF name]
    by (simp add: Inr im_prependAuditEvent_def im_prependWorkflow_def im_getWorkflowDetail_def)
qed

text \<open>
  Creating a workflow on a server whose identifiers are fresh either fails, when the body is
  null or its name or description is neither text nor nullish, leaving the data untouched but
  using up an identifier; or it returns a new draft whose detail can be read back, whose id no
  workflow had, and no other workflow changes.
\<close>

theorem createWorkflow_effect:
  assumes "ids_fresh st" and "createWorkflow im_repo clk b st = (res, st')"
  shows "case res of
      Inl e \<Rightarrow> repo st' = repo st \<and> workflowCounter (counters st') = Suc (workflowCounter (counters st))
        \<and> (b = JNull \<or> (\<exists>k\<in>{''name'', ''description''}. \<exists>v. getp b k = Some v \<and> v \<noteq> JNull
             \<and> as_str (Some v) = None))
    | Inr w \<Rightarrow> wf_status w = WfDraft \<and> wf_name w \<noteq> []
        \<and> im_getWorkflowDetail (wf_id w) (repo st') = Some w
        \<and> wf_id w \<notin> wf_id ` set (workflows (repo st))
        \<and> workflows (repo st') = workflow_summary_of w # workflows (repo st)
        \<and> (\<forall>j. j \<noteq> wf_id w \<longrightarrow> im_getWorkflowDetail j (repo st') = im_getWorkflowDetail j (repo st))"
  by (rule createWorkflow_result [OF assms])

lemma createWorkflow_effect_witness:
  "\<exists>w. fst (createWorkflow im_repo (\<lambda>_. 0) (JObj [(''name'', JStr ''x'')]) fresh_server) = Inr w
     \<and> wf_status w = WfDraft \<and> wf_id w \<notin> {''wf-1'', ''wf-2''}"
proof -
  let ?c = "createWorkflow im_repo (\<lambda>_. 0) (JObj [(''name'', JStr ''x'')]) fresh_server"
  have "\<not> isl (fst ?c)" by code_simp
  then obtain w where w: "fst ?c = Inr w" by (cases "fst ?c") auto
  have ids: "wf_id ` set (workflows (repo fresh_server)) = {''wf-1'', ''wf-2''}"
    by (auto simp: createProductApiStore_def mock_defs)
  show ?thesis
    using createWorkflow_effect [OF ids_fresh_server surjective_pairing [of ?c]]
    unfolding w ids by simp
qed

text \<open>
  Starting a workflow that does not exist returns nothing and changes nothing; starting one
  that does returns a queued run of that workflow, readable under its id, and stamps the
  workflow's last run time in the detail and in the summary; the runs with other ids and the
  other workflows stay as they were.
\<close>

theorem startWorkflowRun_effect:
  assumes "startWorkflowRun im_repo clk i st = (res, st')"
  shows "case res of
      None \<Rightarrow> im_getWorkflowDetail i (repo st) = None \<and> st' = st
    | Some r \<Rightarrow> run_workflowId r = i \<and> run_status_of r = Queued
        \<and> im_getRunDetail (run_id r) (repo st') = Some r
        \<and> runs (repo st') = run_summary_of r # runs (repo st)
        \<and> map_option wf_lastRunAt (im_getWorkflowDetail i (repo st')) = Some (run_startedAt r)
        \<and> workflows (repo st') = update_first wf_id i (\<lambda>w. w\<lparr>wf_lastRunAt := run_startedAt r\<rparr>)
             (workflows (repo st))
        \<and> (\<forall>j. j \<noteq> run_id r \<longrightarrow> im_getRunDetail j (repo st') = im_getRunDetail j (repo st))
        \<and> (\<forall>k. k \<noteq> i \<longrightarrow> im_getWorkflowDetail k (repo st') = im_getWorkflowDetail k (repo st))"
proof (cases res)
  case None
  with assms show ?thesis
    by (auto simp: startWorkflowRun_def in_memory_laws map_prod_def split: option.splits prod.splits)
next
  case (Some r)
  with assms obtain w where w: "im_getWorkflowDetail i (repo st) = Some w"
    and c: "createRunFromWorkflow im_repo clk w ''workflow.run.started'' st = (r, st')"
    by (auto simp: startWorkflowRun_Some)
  from w have i: "wf_id w = i" by (rule getWorkflowDetail_id)
  note eff = created_run_effect [OF c] and look = created_run_lookups [OF c, unfolded i, OF w]
  have "run_workflowId r = i" "run_status_of r = Queued" by (subst eff(1), simp add: i)+
  with eff(3,6) look show ?thesis by (simp add: Some i)
qed

lemma startWorkflowRun_effect_witness:
  "\<exists>r. fst (startWorkflowRun im_repo (\<lambda>_. 0) ''wf-1'' fresh_server) = Some r \<and> run_workflowId r = ''wf-1''
     \<and> runs (repo (snd (startWorkflowRun im_repo (\<lambda>_. 0) ''wf-1'' fresh_server)))
         = run_summary_of r # runs createMockProductApiState"
proof -
  let ?c = "startWorkflowRun im_repo (\<lambda>_. 0) ''wf-1'' fresh_server"
  have "fst ?c \<noteq> None" by code_simp
  then obtain r where r: "fst ?c = Some r" by blast
  have "repo fresh_server = createMockProductApiState" by (simp add: createProductApiStore_def)
  then show ?thesis
    using startWorkflowRun_effect [OF surjective_pairing [of ?c]] unfolding r by simp
qed

text \<open>
  Retrying succeeds exactly when both the run and the workflow it belongs to are known, and
  then queues a new run of that workflow and keeps every run with another id; otherwise, as for
  a run mirrored from the runtime whose workflow id names no workflow, nothing changes.
\<close>

theorem retryRun_effect:
  "(fst (retryRun im_repo clk i st) \<noteq> None \<longleftrightarrow>
      (\<exists>old. im_getRunDetail i (repo st) = Some old
         \<and> im_getWorkflowDetail (run_workflowId old) (repo st) \<noteq> None))
   \<and> (case retryRun im_repo clk i st of
       (None, st') \<Rightarrow> st' = st
     | (Some r, st') \<Rightarrow> run_status_of r = Queued
         \<and> map_option run_workflowId (im_getRunDetail i (repo st)) = Some (run_workflowId r)
         \<and> im_getRunDetail (run_id r) (repo st') = Some r
         \<and> (\<forall>j. j \<noteq> run_id r \<longrightarrow> im_getRunDetail j (repo st') = im_getRunDetail j (repo st)))"
proof (cases "fst (retryRun im_repo clk i st)")
  case None
  then show ?thesis
    by (auto simp: retryRun_def in_memory_laws map_prod_def split: option.splits prod.splits)
next
  case (Some r)
  obtain st' where e: "retryRun im_repo clk i st = (Some r, st')"
    using Some by (cases "retryRun im_repo clk i st") simp
  then obtain old w where old: "im_getRunDetail i (repo st) = Some old"
    and w: "im_getWorkflowDetail (run_workflowId old) (repo st) = Some w"
    and c: "createRunFromWorkflow im_repo clk w ''workflow.run.retried'' st = (r, st')"
    by (auto simp: retryRun_Some)
  from w have i: "wf_id w = run_workflowId old" by (rule getWorkflowDetail_id)
  have "run_workflowId r = run_workflowId old" "run_status_of r = Queued"
    by (subst created_run_effect(1) [OF c], simp add: i)+
  with created_run_lookups(1,2) [OF c, unfolded i, OF w] old w e show ?thesis by simp
qed

lemma retryRun_effect_witness:
  "\<exists>r. fst (retryRun im_repo (\<lambda>_. 0) ''run-2'' fresh_server) = Some r \<and> run_workflowId r = ''wf-2''
     \<and> run_status_of r = Queued"
proof -
  let ?c = "retryRun im_repo (\<lambda>_. 0) ''run-2'' fresh_server"
  have "fst ?c \<noteq> None" by code_simp
  then obtain r where r: "fst ?c = Some r" by blast
  have "map_option run_workflowId (im_getRunDetail ''run-2'' (repo fresh_server)) = Some ''wf-2''"
    by code_simp
  then show ?thesis
    using retryRun_effect [of "\<lambda>_. 0" "''run-2''" fresh_server] r
    by (auto simp: split_beta split: option.splits)
qed

lemma getAutomation_upsert:
  "im_getAutomation (au_id a) (snd (im_upsertAutomation a s)) = Some a"
  "j \<noteq> au_id a \<Longrightarrow> im_getAutomation j (snd (im_upsertAutomation a s)) = im_getAutomation j s"
  using automation_list.find_upsert_same [of a "automations s"]
    automation_list.find_upsert_other [of j a "automations s"]
  by (auto simp: im_getAutomation_def im_upsertAutomation_def split: option.splits)

lemma getAutomation_audit [simp]:
  "im_getAutomation j (im_prependAuditEvent e s) = im_getAutomation j s"
  by (simp add: im_getAutomation_def im_prependAuditEvent_def)

text \<open>
  Toggling a known automation flips its status and stores it; while it is paused, or when
  its trigger is manual, it has no next run; toggling twice restores its status and every field
  but the next run.
\<close>

theorem toggleAutomation_twice:
  assumes "im_getAutomation i (repo st) = Some a"
  shows "\<exists>b st1 c st2. toggleAutomation im_repo clk i st = (Some b, st1)
     \<and> toggleAutomation im_repo clk' i st1 = (Some c, st2)
     \<and> im_getAutomation i (repo st1) = Some b \<and> im_getAutomation i (repo st2) = Some c
     \<and> au_status b \<noteq> au_status a \<and> c\<lparr>au_nextRunAt := au_nextRunAt a\<rparr> = a
     \<and> (\<forall>x\<in>{b, c}. au_nextRunAt x = None
          \<longleftrightarrow> au_status x = APaused \<or> au_triggerType x = JStr ''manual'')"
proof -
  have step: "\<exists>st2. toggleAutomation im_repo k i st1 = (Some (toggled_automation x (isoNow k 0)), st2)
      \<and> im_getAutomation i (repo st2) = Some (toggled_automation x (isoNow k 0))"
    if "im_getAutomation i (repo st1) = Some x" for k x and st1 :: "product_state store"
    using that getAutomation_id [OF that]
      getAutomation_upsert(1) [of "toggled_automation x (isoNow k 0)" "repo st1"]
    by (simp add: toggleAutomation_def Let_def appendAuditEvent_def in_memory_laws)
  let ?b = "toggled_automation a (isoNow clk 0)"
  obtain st1 where 1: "toggleAutomation im_repo clk i st = (Some ?b, st1)"
      "im_getAutomation i (repo st1) = Some ?b" using step [OF assms] by blast
  obtain st2 where 2: "toggleAutomation im_repo clk' i st1 = (Some (toggled_automation ?b (isoNow clk' 0)), st2)"
      "im_getAutomation i (repo st2) = Some (toggled_automation ?b (isoNow clk' 0))"
    using step [OF 1(2)] by blast
  show ?thesis
    by (rule exI [of _ ?b], rule exI [of _ st1], rule exI, rule exI [of _ st2], rule conjI [OF 1(1)],
        rule conjI [OF 2(1)])
       (use 1(2) 2(2) in \<open>cases a; cases "au_status a"; auto simp: toggled_automation_def Let_def\<close>)
qed

lemma toggleAutomation_twice_witness:
  "\<exists>b st1. toggleAutomation im_repo (\<lambda>_. 0) ''automation-1'' fresh_server = (Some b, st1)
     \<and> au_status b = APaused \<and> au_nextRunAt b = None"
proof -
  have a: "im_getAutomation ''automation-1'' (repo fresh_server) = Some (hd mockAutomations)"
    by (simp add: createProductApiStore_def mock_defs im_getAutomation_def)
  have "au_status (hd mockAutomations) = AActive" by (simp add: mock_defs)
  with toggleAutomation_twice [OF a, of "\<lambda>_. 0" "\<lambda>_. 0"] show ?thesis
    by (metis (full_types) automation_status.exhaust insertI1)
qed

text \<open>
  Updating the settings with an object is a partial update: a field of the body gets the
  body's value, every other field keeps its own; what is returned is what is stored.
\<close>

theorem updateSettings_partial:
  assumes "obj_wf body" and "updateSettings im_repo clk (JObj body) st = (new, st')"
  shows "settings_st (repo st') = new
    \<and> map_of new k = (case map_of body k of Some v \<Rightarrow> Some v | None \<Rightarrow> map_of (settings_st (repo st)) k)
    \<and> (obj_wf (settings_st (repo st)) \<longrightarrow> obj_wf new)"
  using assms
  by (auto simp: updateSettings_def Let_def appendAuditEvent_def in_memory_laws im_setSettings_def
      im_prependAuditEvent_def map_add_def)

lemma updateSettings_partial_witness:
  "map_of (fst (updateSettings im_repo (\<lambda>_. 0) (JObj [(''workspaceName'', JStr ''W'')]) fresh_server))
     ''workspaceName'' = Some (JStr ''W'')"
  using updateSettings_partial [of "[(''workspaceName'', JStr ''W'')]" "\<lambda>_. 0" fresh_server _ _
      "''workspaceName''", OF _ surjective_pairing]
  by simp

text \<open>
  Identifiers that are not unique. An audit event of the realtime mirror is numbered by the
  length of the log and one of the store by the store's counter, so one approval request
  followed by one store operation yields two events with the same id; and a request that fails
  uses up a workflow id, so after a restart, which counts the workflows again, the next
  workflow gets the id of an existing one.
\<close>

theorem audit_and_restart_collisions:
  "\<not> distinct (map ae_id (auditEvents (repo (apply_ops im_repo
       [(\<lambda>_. 0, MirrorEvent MApprovalRequested (Some (JObj []))), (\<lambda>_. 0, ConnectFeishu)]
       fresh_server))))
   \<and> (let st = apply_ops im_repo [(\<lambda>_. 0, CreateWorkflow JNull), (\<lambda>_. 0, CreateWorkflow (JObj []))]
                 fresh_server;
          restarted = createProductApiStore im_repo (repo st)
      in \<not> distinct (map wf_id (workflows (repo (apply_ops im_repo
           [(\<lambda>_. 0, CreateWorkflow (JObj []))] restarted)))))"
  by (simp add: mirror_op_def mirrorRealtimeEvent_def isRecord_def mirrorApprovalRequest_def
      connectFeishu_def createWorkflow_def trim_field_def appendAuditEvent_def Let_def
      in_memory_laws im_setWorkbenchState_def im_prependAuditEvent_def im_upsertConnection_def
      im_prependWorkflow_def workflow_summary_of_def createProductApiStore_def mock_defs
      buildAuditEvent_def)

end
