(* ===== verification/Config.thy ===== *)
theory Config
  imports JsValue
begin

text \<open>
  How the two servers read their environment (packages/product-api-server/src/index.ts and
  packages/realtime-gateway-server/src/index.ts): JavaScript's \<open>Number\<close> on strings with the
  rounding to a double, paths, lists and flags, and the two configuration records.
\<close>

section \<open>JavaScript numbers from text\<close>

definition is_digit :: "char \<Rightarrow> bool" where
  "is_digit c \<longleftrightarrow> c \<in> set ''0123456789''"

fun ilog2 :: "nat \<Rightarrow> nat" where
  "ilog2 n = (if n < 2 then 0 else Suc (ilog2 (n div 2)))"

declare ilog2.simps [simp del]

definition rat_scale :: "rat \<Rightarrow> nat \<Rightarrow> int \<Rightarrow> rat" where
  "rat_scale q b k = (if k < 0 then q / of_nat b ^ nat (- k) else q * of_nat b ^ nat k)"

definition round_half_even :: "rat \<Rightarrow> int" where
  "round_half_even q =
     (let f = \<lfloor>q\<rfloor>; r = q - of_int f
      in if r < 1 / 2 then f else if 1 / 2 < r then f + 1 else if even f then f else f + 1)"

text \<open>The double nearest to a non-negative rational, ties to the even significand.\<close>

definition double_of_rat :: "rat \<Rightarrow> jnum" where
  "double_of_rat q =
     (if q = 0 then Fin 0
      else (let (n, d) = quotient_of q;
                k = int (ilog2 (nat n)) - int (ilog2 (nat d));
                e = (if rat_scale 1 2 k \<le> q then k else k - 1);
                u = max (e - 52) (- 1074);
                v = rat_scale (of_int (round_half_even (rat_scale q 2 (- u)))) 2 u
            in if rat_scale 1 2 1024 \<le> v then PosInf else Fin v))"

text \<open>An exponent part: nothing, or \<open>e\<close> with an optional sign and digits up to the end.\<close>

definition js_exponent :: "string \<Rightarrow> int option" where
  "js_exponent s = (case s of
      [] \<Rightarrow> Some 0
    | c # t \<Rightarrow>
        (let (sg, ds) = (case t of [] \<Rightarrow> (1, []) | x # xs \<Rightarrow>
               if x = CHR ''-'' then (-1, xs) else if x = CHR ''+'' then (1, xs) else (1, t))
         in if c \<in> set ''eE'' \<and> ds \<noteq> [] \<and> list_all is_digit ds
            then Some (sg * int (str_nat ds)) else None))"

definition js_unsigned_decimal :: "string \<Rightarrow> rat option" where
  "js_unsigned_decimal s =
     (let ip = takeWhile is_digit s; r = dropWhile is_digit s;
          (fp, t) = (case r of c # r' \<Rightarrow> if c = CHR ''.'' then (takeWhile is_digit r', dropWhile is_digit r')
                                     else ([], r) | [] \<Rightarrow> ([], []))
      in if ip = [] \<and> fp = [] then None
         else map_option (\<lambda>e. rat_scale (of_nat (str_nat (ip @ fp))) 10 (e - int (length fp)))
                (js_exponent t))"

definition radix_digit :: "char \<Rightarrow> nat" where
  "radix_digit c =
     (let n = of_char c :: nat
      in if 48 \<le> n \<and> n \<le> 57 then n - 48 else if 97 \<le> n \<and> n \<le> 102 then n - 87
         else if 65 \<le> n \<and> n \<le> 70 then n - 55 else 99)"

definition js_radix :: "nat \<Rightarrow> string \<Rightarrow> rat option" where
  "js_radix b ds =
     (if ds \<noteq> [] \<and> list_all (\<lambda>c. radix_digit c < b) ds
      then Some (of_nat (foldl (\<lambda>a c. b * a + radix_digit c) 0 ds)) else None)"

definition neg_num :: "jnum \<Rightarrow> jnum" where
  "neg_num x = (case x of Fin q \<Rightarrow> Fin (- q) | PosInf \<Rightarrow> NegInf | NegInf \<Rightarrow> PosInf | NaN \<Rightarrow> NaN)"

definition js_unsigned :: "string \<Rightarrow> jnum" where
  "js_unsigned s = (if s = ''Infinity'' then PosInf
     else case js_unsigned_decimal s of None \<Rightarrow> NaN | Some q \<Rightarrow> double_of_rat q)"

definition js_radix_number :: "nat \<Rightarrow> string \<Rightarrow> jnum" where
  "js_radix_number b ds = (case js_radix b ds of None \<Rightarrow> NaN | Some q \<Rightarrow> double_of_rat q)"

text \<open>\<open>Number(s)\<close> for a trimmed non-empty \<open>s\<close>; the radix prefixes take no sign.\<close>

definition js_number :: "string \<Rightarrow> jnum" where
  "js_number s =
     (if take 2 s \<in> {''0x'', ''0X''} then js_radix_number 16 (drop 2 s)
      else if take 2 s \<in> {''0o'', ''0O''} then js_radix_number 8 (drop 2 s)
      else if take 2 s \<in> {''0b'', ''0B''} then js_radix_number 2 (drop 2 s)
      else (case s of
              [] \<Rightarrow> Fin 0
            | c # t \<Rightarrow> if c = CHR ''-'' then neg_num (js_unsigned t)
                       else if c = CHR ''+'' then js_unsigned t else js_unsigned s))"

section \<open>Reading one variable\<close>

type_synonym env = "string \<Rightarrow> string option"

text \<open>\<open>env[key]?.trim() || fallback\<close>, without and with a fallback.\<close>

definition env_trim :: "env \<Rightarrow> string \<Rightarrow> string option" where
  "env_trim env key = (case env key of None \<Rightarrow> None
     | Some s \<Rightarrow> if trim s = [] then None else Some (trim s))"

definition readRequiredEnv :: "env \<Rightarrow> string \<Rightarrow> string option \<Rightarrow> js_error + string" where
  "readRequiredEnv env key fallback =
     (case nullish_opt (env_trim env key) fallback of
        None \<Rightarrow> Inl (PlainError (''missing required env: '' @ key))
      | Some v \<Rightarrow> if v = [] then Inl (PlainError (''missing required env: '' @ key)) else Inr v)"

definition normalizePath :: "string option \<Rightarrow> string \<Rightarrow> string" where
  "normalizePath value fallback =
     (let raw = trim_or value fallback;
          prefixed = (if take 1 raw = ''/'' then raw else ''/'' @ raw)
      in if 1 < length prefixed \<and> last prefixed = CHR ''/'' then butlast prefixed else prefixed)"

definition readOptionalNumberEnv :: "env \<Rightarrow> string \<Rightarrow> js_error + int option" where
  "readOptionalNumberEnv env key =
     (case env_trim env key of
        None \<Rightarrow> Inr None
      | Some raw \<Rightarrow>
          (case js_number raw of
             Fin q \<Rightarrow> if of_int \<lfloor>q\<rfloor> = q \<and> 0 < q then Inr (Some \<lfloor>q\<rfloor>)
                      else Inl (PlainError (''invalid number env '' @ key @ '': '' @ raw))
           | _ \<Rightarrow> Inl (PlainError (''invalid number env '' @ key @ '': '' @ raw))))"

text \<open>
  \<open>toLowerCase\<close>, on ASCII: no character outside it lower-cases to a letter of the eight accepted
  words.
\<close>

definition ascii_lower :: "string \<Rightarrow> string" where
  "ascii_lower = map (\<lambda>c. let n = of_char c :: nat in
     if 65 \<le> n \<and> n \<le> 90 then char_of (n + 32) else c)"

definition readOptionalBooleanEnv :: "env \<Rightarrow> string \<Rightarrow> js_error + bool option" where
  "readOptionalBooleanEnv env key =
     (case map_option ascii_lower (env_trim env key) of
        None \<Rightarrow> Inr None
      | Some raw \<Rightarrow>
          if raw \<in> set [''1'', ''true'', ''yes'', ''on''] then Inr (Some True)
          else if raw \<in> set [''0'', ''false'', ''no'', ''off''] then Inr (Some False)
          else Inl (PlainError (''invalid boolean env '' @ key @ '': '' @ nullish (env key) [])))"

fun split_on :: "char \<Rightarrow> string \<Rightarrow> string list" where
  "split_on sep [] = [[]]"
| "split_on sep (c # cs) =
     (if c = sep then [] # split_on sep cs
      else (case split_on sep cs of x # xs \<Rightarrow> (c # x) # xs | [] \<Rightarrow> [[c]]))"

definition readOptionalListEnv :: "env \<Rightarrow> string \<Rightarrow> string list option" where
  "readOptionalListEnv env key =
     map_option (\<lambda>raw. filter (\<lambda>e. e \<noteq> []) (map trim (split_on (CHR '','') raw))) (env_trim env key)"

definition base_url :: "string \<Rightarrow> string \<Rightarrow> nat \<Rightarrow> string" where
  "base_url scheme host port =
     scheme @ ''://'' @ (if host = ''0.0.0.0'' then ''127.0.0.1'' else host) @ '':'' @ nat_str port"

definition httpBaseUrl :: "string \<Rightarrow> nat \<Rightarrow> string" where
  "httpBaseUrl host port = base_url ''http'' host port"

definition wsBaseUrl :: "string \<Rightarrow> nat \<Rightarrow> string" where
  "wsBaseUrl host port = base_url ''ws'' host port"

section \<open>The configurations\<close>

record product_config =
  pc_host :: string
  pc_port :: int
  pc_basePath :: string
  pc_healthPath :: string
  pc_workspaceId :: string
  pc_serverVersion :: string
  pc_stateFilePath :: "string option"
  pc_realtimeMirrorUrl :: "string option"
  pc_reconnectDelayMs :: "int option"

definition loadProductApiServerConfig :: "env \<Rightarrow> js_error + product_config" where
  "loadProductApiServerConfig env =
     res_bind (readOptionalNumberEnv env ''VERTX_API_PORT'') (\<lambda>port.
     res_bind (readRequiredEnv env ''VERTX_WORKSPACE_ID'' (Some ''workspace-dev'')) (\<lambda>workspace.
     res_bind (readOptionalNumberEnv env ''VERTX_REALTIME_MIRROR_RECONNECT_DELAY_MS'') (\<lambda>delay.
       Inr \<lparr>pc_host = nullish (env_trim env ''VERTX_API_HOST'') ''127.0.0.1'',
            pc_port = nullish port 8788,
            pc_basePath = normalizePath (env ''VERTX_API_BASE_PATH'') ''/api'',
            pc_healthPath = normalizePath (env ''VERTX_API_HEALTH_PATH'') ''/healthz'',
            pc_workspaceId = workspace,
            pc_serverVersion = nullish (env_trim env ''VERTX_API_SERVER_VERSION'') ''0.1.0'',
            pc_stateFilePath = env_trim env ''VERTX_API_STATE_FILE'',
            pc_realtimeMirrorUrl = env_trim env ''VERTX_REALTIME_MIRROR_URL'',
            pc_reconnectDelayMs = delay\<rparr>)))"

record gateway_client_info =
  ci_id :: "string option"
  ci_displayName :: "string option"
  ci_version :: "string option"
  ci_platform :: "string option"
  ci_mode :: "string option"
  ci_instanceId :: "string option"

record openclaw_config =
  oc_url :: string
  oc_token :: "string option"
  oc_password :: "string option"
  oc_role :: "string option"
  oc_scopes :: "string list option"
  oc_caps :: "string list option"
  oc_protocolVersion :: "int option"
  oc_autoSubscribeSessions :: "bool option"
  oc_reconnectDelayMs :: "int option"
  oc_requestTimeoutMs :: "int option"
  oc_client :: gateway_client_info

record gateway_config =
  gc_host :: string
  gc_port :: int
  gc_path :: string
  gc_healthPath :: string
  gc_workspaceId :: string
  gc_serverVersion :: string
  gc_openclaw :: openclaw_config

definition loadRealtimeGatewayServerConfig :: "env \<Rightarrow> js_error + gateway_config" where
  "loadRealtimeGatewayServerConfig env =
     res_bind (readOptionalNumberEnv env ''VERTX_REALTIME_PORT'') (\<lambda>port.
     res_bind (readRequiredEnv env ''VERTX_WORKSPACE_ID'' None) (\<lambda>workspace.
     res_bind (readRequiredEnv env ''OPENCLAW_GATEWAY_URL'' None) (\<lambda>url.
     res_bind (readOptionalNumberEnv env ''OPENCLAW_GATEWAY_PROTOCOL_VERSION'') (\<lambda>protocol.
     res_bind (readOptionalBooleanEnv env ''OPENCLAW_GATEWAY_AUTO_SUBSCRIBE_SESSIONS'') (\<lambda>auto.
     res_bind (readOptionalNumberEnv env ''OPENCLAW_GATEWAY_RECONNECT_DELAY_MS'') (\<lambda>delay.
     res_bind (readOptionalNumberEnv env ''OPENCLAW_GATEWAY_REQUEST_TIMEOUT_MS'') (\<lambda>timeout.
       Inr \<lparr>gc_host = nullish (env_trim env ''VERTX_REALTIME_HOST'') ''127.0.0.1'',
            gc_port = nullish port 8787,
            gc_path = normalizePath (env ''VERTX_REALTIME_PATH'') ''/realtime'',
            gc_healthPath = normalizePath (env ''VERTX_REALTIME_HEALTH_PATH'') ''/healthz'',
            gc_workspaceId = workspace,
            gc_serverVersion = nullish (env_trim env ''VERTX_REALTIME_SERVER_VERSION'') ''0.1.0'',
            gc_openclaw =
              \<lparr>oc_url = url,
               oc_token = env_trim env ''OPENCLAW_GATEWAY_TOKEN'',
               oc_password = env_trim env ''OPENCLAW_GATEWAY_PASSWORD'',
               oc_role = env_trim env ''OPENCLAW_GATEWAY_ROLE'',
               oc_scopes = readOptionalListEnv env ''OPENCLAW_GATEWAY_SCOPES'',
               oc_caps = readOptionalListEnv env ''OPENCLAW_GATEWAY_CAPS'',
               oc_protocolVersion = protocol,
               oc_autoSubscribeSessions = auto,
               oc_reconnectDelayMs = delay,
               oc_requestTimeoutMs = timeout,
               oc_client =
                 \<lparr>ci_id = env_trim env ''OPENCLAW_GATEWAY_CLIENT_ID'',
                  ci_displayName = env_trim env ''OPENCLAW_GATEWAY_CLIENT_NAME'',
                  ci_version = env_trim env ''OPENCLAW_GATEWAY_CLIENT_VERSION'',
                  ci_platform = env_trim env ''OPENCLAW_GATEWAY_CLIENT_PLATFORM'',
                  ci_mode = env_trim env ''OPENCLAW_GATEWAY_CLIENT_MODE'',
                  ci_instanceId = env_trim env ''OPENCLAW_GATEWAY_CLIENT_INSTANCE_ID''\<rparr>\<rparr>\<rparr>)))))))"

section \<open>Lemmas\<close>

lemma env_trim_nonempty: "env_trim env k = Some v \<Longrightarrow> v \<noteq> [] \<and> trim v = v"
  by (auto simp: env_trim_def split: option.splits if_splits)

lemma readOptionalNumberEnv_positive: "readOptionalNumberEnv env k = Inr (Some n) \<Longrightarrow> 0 < n"
  by (auto simp: readOptionalNumberEnv_def split: option.splits jnum.splits if_splits)

lemma normalizePath_slash: "\<exists>t. normalizePath v d = CHR ''/'' # t"
proof -
  let ?r = "trim_or v d"
  have "\<exists>t. (if take 1 ?r = ''/'' then ?r else ''/'' @ ?r) = CHR ''/'' # t"
    by (cases ?r) auto
  then obtain t where t: "(if take 1 ?r = ''/'' then ?r else ''/'' @ ?r) = CHR ''/'' # t" by blast
  show ?thesis unfolding normalizePath_def Let_def t by auto
qed

text \<open>A canonical path, absolute and without a trailing slash, is kept.\<close>

lemma normalizePath_canonical:
  "trim p = p \<Longrightarrow> take 1 p = ''/'' \<Longrightarrow> last p \<noteq> CHR ''/'' \<or> p = ''/'' \<Longrightarrow> normalizePath (Some p) d = p"
  by (auto simp: normalizePath_def trim_or_def Let_def)

lemma ilog2_numeral:
  "ilog2 (numeral k) = (if (numeral k :: nat) < 2 then 0 else Suc (ilog2 (numeral k div 2)))"
  "ilog2 (Suc 0) = 0"
  by (simp_all add: ilog2.simps [of "numeral k"] ilog2.simps [of "Suc 0"])

lemmas decimal_defs = js_unsigned_decimal_def js_exponent_def is_digit_def str_nat_def
  digit_val_def rat_scale_def

text \<open>Samples: an integer, an exponent, the rounding to a double, and texts that are no number.\<close>

lemma js_number_samples:
  "js_number ''8788'' = Fin 8788" "js_number ''1e3'' = Fin 1000"
  "js_number ''9007199254740993'' = Fin 9007199254740992"
  "js_number ''8788px'' = NaN" "js_number ''-Infinity'' = NegInf" "js_number ''.'' = NaN"
proof -
  have dec: "js_unsigned_decimal ''8788'' = Some 8788" "js_unsigned_decimal ''1e3'' = Some 1000"
      "js_unsigned_decimal ''9007199254740993'' = Some 9007199254740993"
      "js_unsigned_decimal ''8788px'' = None" "js_unsigned_decimal ''.'' = None"
    by (simp_all add: decimal_defs)
  have half: "\<lfloor>9007199254740993 / 2 :: rat\<rfloor> = 4503599627370496"
    by (rule floor_unique) simp_all
  have dbl: "double_of_rat 8788 = Fin 8788" "double_of_rat 1000 = Fin 1000"
      "double_of_rat 9007199254740993 = Fin 9007199254740992"
    by (simp_all add: double_of_rat_def ilog2_numeral rat_scale_def round_half_even_def
        half Let_def)
  show "js_number ''8788'' = Fin 8788" "js_number ''1e3'' = Fin 1000"
      "js_number ''9007199254740993'' = Fin 9007199254740992"
      "js_number ''8788px'' = NaN" "js_number ''-Infinity'' = NegInf" "js_number ''.'' = NaN"
    by (simp_all add: js_number_def js_unsigned_def neg_num_def dec dbl)
qed

section \<open>Properties\<close>

text \<open>
  Loading the Product API configuration fails exactly when the port or the reconnect delay is
  set to something that is no positive integer; what it loads has a positive port and delay, a
  non-empty host, workspace and version, and absolute base and health paths.
\<close>

theorem product_config_loads:
  "case loadProductApiServerConfig env of
     Inl e \<Rightarrow> readOptionalNumberEnv env ''VERTX_API_PORT'' = Inl e
       \<or> readOptionalNumberEnv env ''VERTX_REALTIME_MIRROR_RECONNECT_DELAY_MS'' = Inl e
   | Inr c \<Rightarrow> 0 < pc_port c \<and> (pc_reconnectDelayMs c = None \<or> 0 < the (pc_reconnectDelayMs c))
       \<and> pc_host c \<noteq> [] \<and> pc_workspaceId c \<noteq> [] \<and> pc_serverVersion c \<noteq> []
       \<and> (\<exists>s t. pc_basePath c = CHR ''/'' # s \<and> pc_healthPath c = CHR ''/'' # t)"
proof -
  have ws: "\<exists>v. readRequiredEnv env k (Some (x # xs)) = Inr v \<and> v \<noteq> []" for k x xs
    by (cases "env_trim env k") (auto simp: readRequiredEnv_def dest: env_trim_nonempty)
  have ne: "d \<noteq> [] \<Longrightarrow> nullish (env_trim env k) d \<noteq> []" for k d
    by (cases "env_trim env k") (auto dest: env_trim_nonempty)
  have pos: "readOptionalNumberEnv env k = Inr p \<Longrightarrow> 0 < d \<Longrightarrow> 0 < nullish p d" for k p d
    by (cases p) (auto dest: readOptionalNumberEnv_positive)
  obtain v where v: "readRequiredEnv env ''VERTX_WORKSPACE_ID'' (Some ''workspace-dev'') = Inr v" "v \<noteq> []"
    using ws by blast
  show ?thesis
  proof (cases "loadProductApiServerConfig env")
    case (Inl e)
    with v show ?thesis by (auto simp: loadProductApiServerConfig_def)
  next
    case (Inr c)
    then obtain p d where p: "readOptionalNumberEnv env ''VERTX_API_PORT'' = Inr p"
      and d: "readOptionalNumberEnv env ''VERTX_REALTIME_MIRROR_RECONNECT_DELAY_MS'' = Inr d"
      and c: "pc_port c = nullish p 8788" "pc_reconnectDelayMs c = d"
        "pc_host c = nullish (env_trim env ''VERTX_API_HOST'') ''127.0.0.1''"
        "pc_workspaceId c = v"
        "pc_serverVersion c = nullish (env_trim env ''VERTX_API_SERVER_VERSION'') ''0.1.0''"
        "pc_basePath c = normalizePath (env ''VERTX_API_BASE_PATH'') ''/api''"
        "pc_healthPath c = normalizePath (env ''VERTX_API_HEALTH_PATH'') ''/healthz''"
      using v by (auto simp: loadProductApiServerConfig_def)
    have "0 < pc_port c" using pos [OF p] c by simp
    moreover have "d = None \<or> 0 < the d" using d by (cases d) (auto dest: readOptionalNumberEnv_positive)
    ultimately show ?thesis
      using Inr v ne normalizePath_slash c by simp
  qed
qed

text \<open>
  A path without blanks around it that is absolute and has no trailing slash is kept as it
  is, but one trailing slash more is not removed with the first: normalizing is not idempotent,
  \<open>/api//\<close> becomes \<open>/api/\<close>.
\<close>

theorem normalizePath_fixed:
  "(trim p = p \<and> take 1 p = ''/'' \<and> (last p \<noteq> CHR ''/'' \<or> p = ''/'')
      \<longrightarrow> normalizePath (Some p) d = p)
   \<and> normalizePath (Some ''/api//'') d = ''/api/''
   \<and> normalizePath (Some (normalizePath (Some ''/api//'') d)) d = ''/api''"
  by (simp add: normalizePath_canonical) (simp add: normalizePath_def trim_or_def trim_eval Let_def)

lemma normalizePath_fixed_witness: "normalizePath (Some ''/v1/api'') ''/api'' = ''/v1/api''"
  using normalizePath_fixed [of "''/v1/api''" "''/api''"] by (simp add: trim_eval)

end
