(* ===== verification/HttpServer.thy ===== *)
theory HttpServer
  imports Store Config
begin

text \<open>
  The HTTP server of packages/product-api-server/src/index.ts: the request handler with its
  routes, errors and CORS headers, and the start-up and shutdown sequences. A request arrives
  with its method, the path name \<open>new URL\<close> read from its target (\<open>None\<close> when that throws) and
  its decoded body. A body is complete before the handler that reads it touches the store, so
  a request acts on the store in one step. Response bodies are the JSON values that
  \<open>JSON.stringify\<close> is given.
\<close>

section \<open>Response bodies\<close>

definition workbench_json :: "workbench \<Rightarrow> json" where
  "workbench_json w = JObj
     [(''pendingApprovals'', js_int (pendingApprovals w)), (''recentRuns'', js_int (recentRuns w)),
      (''recentSessions'', js_int (recentSessions w)),
      (''connectedChannels'', js_int (connectedChannels w))]"

fun workflow_status_str :: "workflow_status \<Rightarrow> string" where
  "workflow_status_str WfDraft = ''draft''"
| "workflow_status_str WfActive = ''active''"
| "workflow_status_str WfPaused = ''paused''"

definition workflow_fields :: "'a workflow_summary_scheme \<Rightarrow> (string \<times> jsval) list" where
  "workflow_fields w =
     [(''id'', Some (JStr (wf_id w))), (''name'', Some (JStr (wf_name w))),
      (''status'', Some (JStr (workflow_status_str (wf_status w)))),
      (''lastRunAt'', Some (JStr (wf_lastRunAt w)))]"

definition workflow_summary_json :: "workflow_summary \<Rightarrow> json" where
  "workflow_summary_json w = mk_obj (workflow_fields w)"

definition workflow_detail_json :: "workflow_detail \<Rightarrow> json" where
  "workflow_detail_json w = mk_obj (workflow_fields w @ [(''description'', map_option JStr (wf_description w))])"

definition run_fields :: "'a run_summary_scheme \<Rightarrow> (string \<times> jsval) list" where
  "run_fields r =
     [(''id'', Some (JStr (run_id r))), (''workflowId'', Some (JStr (run_workflowId r))),
      (''title'', Some (JStr (run_title r))),
      (''status'', Some (JStr (run_status_str (run_status_of r)))),
      (''startedAt'', Some (JStr (run_startedAt r)))]"

definition run_summary_json :: "run_summary \<Rightarrow> json" where
  "run_summary_json r = mk_obj (run_fields r)"

definition run_detail_json :: "run_detail \<Rightarrow> json" where
  "run_detail_json r = mk_obj (run_fields r @ [(''resultSummary'', map_option JStr (run_resultSummary r))])"

fun session_status_str :: "session_status \<Rightarrow> string" where
  "session_status_str SActive = ''active''"
| "session_status_str SEnded = ''ended''"

definition session_fields :: "'a session_summary_scheme \<Rightarrow> (string \<times> jsval) list" where
  "session_fields d =
     [(''id'', Some (JStr (se_id d))), (''title'', Some (JStr (se_title d))),
      (''channelType'', Some (JStr (se_channelType d))),
      (''status'', Some (JStr (session_status_str (se_status d)))),
      (''updatedAt'', Some (JStr (se_updatedAt d)))]"

definition session_summary_json :: "session_summary \<Rightarrow> json" where
  "session_summary_json d = mk_obj (session_fields d)"

definition session_detail_json :: "session_detail \<Rightarrow> json" where
  "session_detail_json d = mk_obj (session_fields d @ [(''messageCount'', map_option js_int (se_messageCount d))])"

fun connection_status_str :: "connection_status \<Rightarrow> string" where
  "connection_status_str Connected = ''connected''"
| "connection_status_str Offline = ''offline''"
| "connection_status_str Pending = ''pending''"

definition connection_json :: "connection \<Rightarrow> json" where
  "connection_json c = JObj
     [(''id'', JStr (conn_id c)), (''channelType'', JStr (conn_channelType c)),
      (''status'', JStr (connection_status_str (conn_status c))),
      (''lastActiveAt'', JStr (conn_lastActiveAt c))]"

fun knowledge_status_str :: "knowledge_status \<Rightarrow> string" where
  "knowledge_status_str KReady = ''ready''"
| "knowledge_status_str KSyncing = ''syncing''"
| "knowledge_status_str KError = ''error''"

definition knowledge_json :: "knowledge_source \<Rightarrow> json" where
  "knowledge_json k = JObj
     [(''id'', JStr (ks_id k)), (''name'', JStr (ks_name k)), (''sourceType'', ks_sourceType k),
      (''status'', JStr (knowledge_status_str (ks_status k))), (''updatedAt'', JStr (ks_updatedAt k)),
      (''documentCount'', js_int (ks_documentCount k))]"

definition automation_json :: "automation \<Rightarrow> json" where
  "automation_json a = mk_obj
     [(''id'', Some (JStr (au_id a))), (''name'', Some (JStr (au_name a))),
      (''triggerType'', Some (au_triggerType a)),
      (''status'', Some (JStr (automation_status_str (au_status a)))),
      (''lastRunAt'', map_option JStr (au_lastRunAt a)),
      (''nextRunAt'', map_option JStr (au_nextRunAt a))]"

fun audit_level_str :: "audit_level \<Rightarrow> string" where
  "audit_level_str Info = ''info''"
| "audit_level_str Warning = ''warning''"
| "audit_level_str ErrorLevel = ''error''"

definition audit_json :: "audit_event \<Rightarrow> json" where
  "audit_json e = JObj
     [(''id'', JStr (ae_id e)), (''action'', JStr (ae_action e)),
      (''level'', JStr (audit_level_str (ae_level e))), (''happenedAt'', JStr (ae_happenedAt e))]"

section \<open>Requests and responses\<close>

datatype request_body = NoBody | Body "js_error + json"

record http_request =
  rq_method :: string
  rq_pathname :: "string option"
  rq_body :: request_body

record http_response =
  rs_status :: nat
  rs_headers :: "(string \<times> string) list"
  rs_body :: "json option"

definition CORS_HEADERS :: "(string \<times> string) list" where
  "CORS_HEADERS =
     [(''access-control-allow-origin'', ''*''),
      (''access-control-allow-methods'', ''GET,POST,PUT,OPTIONS''),
      (''access-control-allow-headers'', ''content-type'')]"

definition writeJson :: "nat \<Rightarrow> json \<Rightarrow> http_response" where
  "writeJson status body =
     \<lparr>rs_status = status,
      rs_headers = CORS_HEADERS @ [(''content-type'', ''application/json; charset=utf-8'')],
      rs_body = Some body\<rparr>"

definition notFound :: http_response where
  "notFound = writeJson 404 (JObj [(''ok'', JBool False), (''error'', JStr ''not_found'')])"

text \<open>A body without chunks is the empty object; the text \<open>JSON.parse\<close> rejects throws.\<close>

definition readJsonBody :: "request_body \<Rightarrow> js_error + json" where
  "readJsonBody b = (case b of NoBody \<Rightarrow> Inr (JObj []) | Body r \<Rightarrow> r)"

text \<open>
  The capture of \<open>/^<prefix>([^/]+)<suffix>$/\<close>, for a suffix that is empty or starts with a slash.
\<close>

definition match_seg :: "string \<Rightarrow> string \<Rightarrow> string \<Rightarrow> string option" where
  "match_seg pre suf path =
     (let rest = drop (length pre) path; n = length rest - length suf; m = take n rest
      in if take (length pre) path = pre \<and> drop n rest = suf \<and> m \<noteq> [] \<and> CHR ''/'' \<notin> set m
         then Some m else None)"

text \<open>
  What the chain of route tests inside the handler's \<open>try\<close> did: answered, threw, or fell through
  to the next test.
\<close>

datatype 's routed =
    Answered http_response "'s store"
  | Threw js_error "'s store"
  | NoRoute

definition or_else :: "'s routed \<Rightarrow> 's routed \<Rightarrow> 's routed" where
  "or_else a b = (case a of NoRoute \<Rightarrow> b | _ \<Rightarrow> a)"

definition get_list :: "('a \<Rightarrow> json) \<Rightarrow> 'a list \<Rightarrow> 's store \<Rightarrow> 's routed" where
  "get_list enc xs st = Answered (writeJson 200 (JArr (map enc xs))) st"

definition found_or_404 :: "nat \<Rightarrow> ('a \<Rightarrow> json) \<Rightarrow> 'a option \<times> 's store \<Rightarrow> 's routed" where
  "found_or_404 status enc r =
     (case r of (None, st) \<Rightarrow> Answered notFound st
              | (Some x, st) \<Rightarrow> Answered (writeJson status (enc x)) st)"

definition with_body ::
    "request_body \<Rightarrow> (json \<Rightarrow> 's store \<Rightarrow> 's routed) \<Rightarrow> 's store \<Rightarrow> 's routed" where
  "with_body b k st = (case readJsonBody b of Inl e \<Rightarrow> Threw e st | Inr payload \<Rightarrow> k payload st)"

definition created_or_threw :: "('a \<Rightarrow> json) \<Rightarrow> (js_error + 'a) \<times> 's store \<Rightarrow> 's routed" where
  "created_or_threw enc r =
     (case r of (Inl e, st) \<Rightarrow> Threw e st | (Inr x, st) \<Rightarrow> Answered (writeJson 201 (enc x)) st)"

section \<open>Routes\<close>

definition workflow_routes ::
    "'s repository \<Rightarrow> clock \<Rightarrow> string \<Rightarrow> string \<Rightarrow> request_body \<Rightarrow> 's store \<Rightarrow> 's routed" where
  "workflow_routes R clk m path body st =
     (if m = ''GET'' \<and> path = ''/workbench/summary''
      then Answered (writeJson 200 (workbench_json (computeWorkbenchFromRepository R (repo st)))) st
      else if m = ''GET'' \<and> path = ''/workflows''
      then get_list workflow_summary_json (listWorkflows R (repo st)) st
      else if m = ''POST'' \<and> path = ''/workflows''
      then with_body body (\<lambda>b st. created_or_threw workflow_detail_json (createWorkflow R clk b st)) st
      else if m = ''GET'' \<and> match_seg ''/workflows/'' [] path \<noteq> None
      then found_or_404 200 workflow_detail_json
             (getWorkflowDetail R (the (match_seg ''/workflows/'' [] path)) (repo st), st)
      else if m = ''POST'' \<and> match_seg ''/workflows/'' ''/run'' path \<noteq> None
      then found_or_404 201 run_detail_json
             (startWorkflowRun R clk (the (match_seg ''/workflows/'' ''/run'' path)) st)
      else NoRoute)"

definition run_routes ::
    "'s repository \<Rightarrow> clock \<Rightarrow> string \<Rightarrow> string \<Rightarrow> 's store \<Rightarrow> 's routed" where
  "run_routes R clk m path st =
     (if m = ''GET'' \<and> path = ''/runs'' then get_list run_summary_json (listRuns R (repo st)) st
      else if m = ''GET'' \<and> match_seg ''/runs/'' [] path \<noteq> None
      then found_or_404 200 run_detail_json
             (getRunDetail R (the (match_seg ''/runs/'' [] path)) (repo st), st)
      else if m = ''POST'' \<and> match_seg ''/runs/'' ''/retry'' path \<noteq> None
      then found_or_404 201 run_detail_json
             (retryRun R clk (the (match_seg ''/runs/'' ''/retry'' path)) st)
      else NoRoute)"

definition session_routes ::
    "'s repository \<Rightarrow> string \<Rightarrow> string \<Rightarrow> 's store \<Rightarrow> 's routed" where
  "session_routes R m path st =
     (if m = ''GET'' \<and> path = ''/sessions''
      then get_list session_summary_json (listSessions R (repo st)) st
      else if m = ''GET'' \<and> match_seg ''/sessions/'' [] path \<noteq> None
      then found_or_404 200 session_detail_json
             (getSessionDetail R (the (match_seg ''/sessions/'' [] path)) (repo st), st)
      else NoRoute)"

definition settings_routes ::
    "'s repository \<Rightarrow> clock \<Rightarrow> string \<Rightarrow> string \<Rightarrow> request_body \<Rightarrow> 's store \<Rightarrow> 's routed" where
  "settings_routes R clk m path body st =
     (if m = ''GET'' \<and> path = ''/channel-connections''
      then get_list connection_json (listConnections R (repo st)) st
      else if m = ''POST'' \<and> path = ''/channel-connections/feishu/connect''
      then (case connectFeishu R clk st of (c, st') \<Rightarrow> Answered (writeJson 200 (connection_json c)) st')
      else if m = ''GET'' \<and> path = ''/settings''
      then Answered (writeJson 200 (JObj (getSettings R (repo st)))) st
      else if m = ''PUT'' \<and> path = ''/settings''
      then with_body body (\<lambda>b st. case updateSettings R clk b st of
             (new, st') \<Rightarrow> Answered (writeJson 200 (JObj new)) st') st
      else if m = ''GET'' \<and> path = ''/knowledge-sources''
      then get_list knowledge_json (listKnowledgeSources R (repo st)) st
      else if m = ''POST'' \<and> path = ''/knowledge-sources''
      then with_body body (\<lambda>b st. created_or_threw knowledge_json (createKnowledgeSource R clk b st)) st
      else NoRoute)"

definition automation_routes ::
    "'s repository \<Rightarrow> clock \<Rightarrow> string \<Rightarrow> string \<Rightarrow> request_body \<Rightarrow> 's store \<Rightarrow> 's routed" where
  "automation_routes R clk m path body st =
     (if m = ''GET'' \<and> path = ''/automations''
      then get_list automation_json (listAutomations R (repo st)) st
      else if m = ''POST'' \<and> path = ''/automations''
      then with_body body (\<lambda>b st. created_or_threw automation_json (createAutomation R clk b st)) st
      else if m = ''POST'' \<and> match_seg ''/automations/'' ''/toggle'' path \<noteq> None
      then found_or_404 200 automation_json
             (toggleAutomation R clk (the (match_seg ''/automations/'' ''/toggle'' path)) st)
      else if m = ''POST'' \<and> match_seg ''/automations/'' ''/run'' path \<noteq> None
      then found_or_404 200 automation_json
             (runAutomation R clk (the (match_seg ''/automations/'' ''/run'' path)) st)
      else if m = ''GET'' \<and> path = ''/audit-events''
      then get_list audit_json (listAuditEvents R (repo st)) st
      else NoRoute)"

definition routes ::
    "'s repository \<Rightarrow> clock \<Rightarrow> string \<Rightarrow> string \<Rightarrow> request_body \<Rightarrow> 's store \<Rightarrow> 's routed" where
  "routes R clk m path body st =
     or_else (workflow_routes R clk m path body st)
       (or_else (run_routes R clk m path st)
         (or_else (session_routes R m path st)
           (or_else (settings_routes R clk m path body st)
             (automation_routes R clk m path body st))))"

section \<open>The request handler\<close>

text \<open>
  \<open>None\<close> when the handler rejects without an answer: only \<open>new URL\<close> runs outside its \<open>try\<close>.
\<close>

definition health_body :: "product_config \<Rightarrow> json" where
  "health_body cfg = JObj
     [(''ok'', JBool True), (''service'', JStr ''vertx-product-api''),
      (''workspaceId'', JStr (pc_workspaceId cfg)), (''version'', JStr (pc_serverVersion cfg))]"

definition route_path :: "product_config \<Rightarrow> string \<Rightarrow> string" where
  "route_path cfg pathname =
     (let p = drop (length (pc_basePath cfg)) pathname in if p = [] then ''/'' else p)"

definition finish :: "'s store \<Rightarrow> 's routed \<Rightarrow> http_response \<times> 's store" where
  "finish st r =
     (case r of
        Answered rs st' \<Rightarrow> (rs, st')
      | Threw e st' \<Rightarrow> (writeJson 500 (JObj [(''ok'', JBool False), (''error'', JStr (error_message e))]), st')
      | NoRoute \<Rightarrow> (notFound, st))"

definition handle_request ::
    "product_config \<Rightarrow> 's repository \<Rightarrow> clock \<Rightarrow> http_request \<Rightarrow> 's store
       \<Rightarrow> http_response option \<times> 's store" where
  "handle_request cfg R clk rq st =
     (case rq_pathname rq of
        None \<Rightarrow> (None, st)
      | Some pathname \<Rightarrow>
          if rq_method rq = ''OPTIONS''
          then (Some \<lparr>rs_status = 204, rs_headers = CORS_HEADERS, rs_body = None\<rparr>, st)
          else if rq_method rq = ''GET'' \<and> pathname = pc_healthPath cfg
          then (Some (writeJson 200 (health_body cfg)), st)
          else if take (length (pc_basePath cfg)) pathname \<noteq> pc_basePath cfg
          then (Some notFound, st)
          else map_prod Some id
                 (finish st (routes R clk (rq_method rq) (route_path cfg pathname) (rq_body rq) st)))"

section \<open>Start-up and shutdown\<close>

text \<open>
  What the operating system answers to \<open>listen\<close>: an error, or an address, which has a port
  unless it is a pipe. The effects are listed in the order the code has them.
\<close>

datatype listen_outcome = ListenFailed js_error | ListeningOn "nat option"

datatype lifecycle_effect =
    StartMirror string
  | CloseMirror
  | CloseHttp
  | LogInfo string
  | LogFailure string
  | SetExitCode nat

record product_runtime =
  rt_config :: product_config
  rt_url :: string
  rt_healthUrl :: string
  rt_mirrored :: bool

definition close_mirror :: "product_config \<Rightarrow> lifecycle_effect list" where
  "close_mirror cfg = (if pc_realtimeMirrorUrl cfg = None then [] else [CloseMirror])"

definition startProductApiServer ::
    "product_config \<Rightarrow> listen_outcome \<Rightarrow> (js_error + product_runtime) \<times> lifecycle_effect list" where
  "startProductApiServer cfg outcome =
     (let mirror = (case pc_realtimeMirrorUrl cfg of None \<Rightarrow> [] | Some u \<Rightarrow> [StartMirror u])
      in case outcome of
           ListenFailed e \<Rightarrow> (Inl e, mirror @ close_mirror cfg)
         | ListeningOn None \<Rightarrow>
             (Inl (PlainError ''product api server did not expose an inet address''),
              mirror @ close_mirror cfg @ [CloseHttp])
         | ListeningOn (Some port) \<Rightarrow>
             (let url = httpBaseUrl (pc_host cfg) port @ pc_basePath cfg;
                  healthUrl = httpBaseUrl (pc_host cfg) port @ pc_healthPath cfg
              in (Inr \<lparr>rt_config = cfg\<lparr>pc_port := int port\<rparr>, rt_url = url, rt_healthUrl = healthUrl,
                       rt_mirrored = (pc_realtimeMirrorUrl cfg \<noteq> None)\<rparr>,
                  mirror @ [LogInfo (''[vertx-api] listening on '' @ url),
                            LogInfo (''[vertx-api] health check on '' @ healthUrl)])))"

text \<open>\<open>runtime.close\<close>, and the signal handler around it; \<open>closing\<close> is the flag of its closure.\<close>

definition close_runtime :: "product_runtime \<Rightarrow> lifecycle_effect list" where
  "close_runtime rt = close_mirror (rt_config rt) @ [CloseHttp]"

definition shutdown ::
    "product_runtime \<Rightarrow> string \<Rightarrow> bool \<Rightarrow> bool \<Rightarrow> bool \<times> lifecycle_effect list" where
  "shutdown rt signal close_fails closing =
     (if closing then (True, [])
      else (True, LogInfo (''[vertx-api] received '' @ signal @ '', shutting down...'') # close_runtime rt @
             (if close_fails then [LogFailure ''[vertx-api] shutdown failed'', SetExitCode 1]
              else [LogInfo ''[vertx-api] shutdown complete''])))"

fun signals :: "product_runtime \<Rightarrow> (string \<times> bool) list \<Rightarrow> bool \<Rightarrow> lifecycle_effect list" where
  "signals rt [] closing = []"
| "signals rt ((s, fails) # rest) closing =
     (let (closing', effs) = shutdown rt s fails closing in effs @ signals rt rest closing')"

section \<open>Lemmas on routes\<close>

lemmas route_group_defs = workflow_routes_def run_routes_def session_routes_def settings_routes_def
  automation_routes_def

lemma or_else_simps [simp]:
  "or_else NoRoute b = b" "or_else (Answered r s) b = Answered r s" "or_else (Threw e s) b = Threw e s"
  by (simp_all add: or_else_def)

lemma if_SomeD: "(if c then Some x else None) = Some y \<Longrightarrow> c \<and> x = y"
  by (simp split: if_splits)

lemma match_seg_Some:
  assumes "match_seg pre suf path = Some m"
  shows "path = pre @ m @ suf \<and> m \<noteq> [] \<and> CHR ''/'' \<notin> set m"
proof -
  let ?rest = "drop (length pre) path"
  let ?n = "length ?rest - length suf"
  have c: "(take (length pre) path = pre \<and> drop ?n ?rest = suf \<and> take ?n ?rest \<noteq> []
      \<and> CHR ''/'' \<notin> set (take ?n ?rest)) \<and> take ?n ?rest = m"
    by (rule if_SomeD) (rule assms [unfolded match_seg_def Let_def])
  note c1 = c [THEN conjunct1] and t3 = c [THEN conjunct2]
  note t1 = c1 [THEN conjunct1] and t2 = c1 [THEN conjunct2, THEN conjunct1]
    and t4 = c1 [THEN conjunct2, THEN conjunct2, unfolded t3]
  have r: "m @ suf = ?rest" using append_take_drop_id [of ?n ?rest] unfolding t2 t3 .
  have "pre @ ?rest = path" using append_take_drop_id [of "length pre" path] unfolding t1 .
  then have "path = pre @ m @ suf" unfolding r [symmetric] by (rule sym)
  with t4 show ?thesis by (intro conjI) simp_all
qed

lemma match_seg_make: "m \<noteq> [] \<Longrightarrow> CHR ''/'' \<notin> set m \<Longrightarrow> match_seg pre suf (pre @ m @ suf) = Some m"
  by (simp add: match_seg_def Let_def)

lemma match_seg_slash: "take 1 path \<noteq> ''/'' \<Longrightarrow> match_seg (CHR ''/'' # pre) suf path = None"
  by (cases path) (auto simp: match_seg_def Let_def)

lemma match_seg_root: "match_seg (CHR ''/'' # c # pre) suf ''/'' = None"
  by (auto simp: match_seg_def Let_def)

lemma no_route_outside:
  "take 1 path \<noteq> ''/'' \<or> path = ''/'' \<Longrightarrow> routes R clk m path body st = NoRoute"
proof (elim disjE)
  assume out: "take 1 path \<noteq> ''/''"
  then have lit: "path \<noteq> CHR ''/'' # p" for p by auto
  show ?thesis
    by (simp only: routes_def route_group_defs match_seg_slash [OF out] lit) simp
next
  assume "path = ''/''"
  then show ?thesis
    by (simp only: routes_def route_group_defs match_seg_root list.inject list.distinct) simp
qed

definition routed_map :: "('s \<Rightarrow> 't) \<Rightarrow> 's routed \<Rightarrow> 't routed" where
  "routed_map f r = (case r of Answered rs st \<Rightarrow> Answered rs (store_map f st)
     | Threw e st \<Rightarrow> Threw e (store_map f st) | NoRoute \<Rightarrow> NoRoute)"

lemma routed_map_simps [simp]:
  "routed_map f NoRoute = NoRoute" "routed_map f (Answered rs st) = Answered rs (store_map f st)"
  "routed_map f (Threw e st) = Threw e (store_map f st)"
  "routed_map f (or_else a b) = or_else (routed_map f a) (routed_map f b)"
  by (simp_all add: routed_map_def or_else_def split: routed.split)

lemma found_or_404_map:
  "map_prod id (store_map f) r = r' \<Longrightarrow> routed_map f (found_or_404 n enc r) = found_or_404 n enc r'"
  by (cases r; cases "fst r") (auto simp: found_or_404_def)

lemma created_or_threw_map:
  "map_prod id (store_map f) r = r' \<Longrightarrow> routed_map f (created_or_threw enc r) = created_or_threw enc r'"
  by (cases r; cases "fst r") (auto simp: created_or_threw_def)

lemma with_body_map:
  "(\<And>b. routed_map f (k b st) = k' b (store_map f st)) \<Longrightarrow>
   routed_map f (with_body body k st) = with_body body k' (store_map f st)"
  by (simp add: with_body_def split: sum.split)

lemma answered_map:
  "map_prod id (store_map f) r = r' \<Longrightarrow>
   routed_map f (case r of (c, st') \<Rightarrow> Answered (mk c) st') = (case r' of (c, st') \<Rightarrow> Answered (mk c) st')"
  by (cases r) auto

lemma routed_map_if: "routed_map f (if c then a else b) = (if c then routed_map f a else routed_map f b)"
  by simp

lemma get_list_map: "xs = ys \<Longrightarrow> routed_map f (get_list enc xs st) = get_list enc ys (store_map f st)"
  by (simp add: get_list_def)

context product_repository
begin

lemma computeWorkbench_view:
  "computeWorkbenchFromRepository R s = computeWorkbenchFromRepository im_repo (view s)"
  by (simp add: computeWorkbenchFromRepository_def repo_laws in_memory_laws)

lemma routes_view:
  "routed_map view (routes R clk m path body st) = routes im_repo clk m path body (store_map view st)"
  unfolding routes_def route_group_defs routed_map_if routed_map_simps computeWorkbench_view
  by (intro arg_cong2 [where f = or_else] if_cong refl
      get_list_map found_or_404_map with_body_map created_or_threw_map answered_map
      createWorkflow_view startWorkflowRun_view retryRun_view connectFeishu_view updateSettings_view
      createKnowledgeSource_view createAutomation_view toggleAutomation_view runAutomation_view)
     (simp_all add: repo_laws in_memory_laws)

lemma handle_request_view:
  "map_prod id (store_map view) (handle_request cfg R clk rq st)
     = handle_request cfg im_repo clk rq (store_map view st)"
proof -
  have fin: "map_prod id (store_map view) (finish st r) = finish (store_map view st) (routed_map view r)" for r
    by (cases r) (simp_all add: finish_def)
  have "map_prod id (store_map view) (map_prod Some id (finish st r))
      = map_prod Some id (finish (store_map view st) (routed_map view r))" for r
    by (simp add: fin [symmetric] prod.map_comp comp_def)
  then show ?thesis
    by (simp add: handle_request_def routes_view split: option.split)
qed

end

section \<open>Lemmas on answers\<close>

lemma nat_str_no_slash [simp]: "CHR ''/'' \<notin> set (nat_str n)"
  by (auto dest: nat_str_digits)

lemma getp_mk_obj_hd [simp]: "getp (mk_obj ((k, Some v) # fs)) k = Some v"
  by (simp add: mk_obj_def map_filter_simps)

text \<open>A read: it answers from the store it was given and keeps it.\<close>

definition reads :: "'s store \<Rightarrow> 's routed \<Rightarrow> bool" where
  "reads st r = (case r of Answered rs st' \<Rightarrow> st' = st | Threw e st' \<Rightarrow> False | NoRoute \<Rightarrow> True)"

lemma reads_simps [simp]:
  "reads st NoRoute" "reads st (Answered rs st)" "reads st (get_list enc xs st)"
  "reads st (found_or_404 n enc (x, st))"
  "reads st a \<Longrightarrow> reads st b \<Longrightarrow> reads st (or_else a b)"
  by (cases a; auto simp: reads_def get_list_def found_or_404_def or_else_def split: option.split)+

lemma safe_method_reads:
  "m \<noteq> ''POST'' \<Longrightarrow> m \<noteq> ''PUT'' \<Longrightarrow> reads st (routes R clk m path body st)"
  by (simp only: routes_def route_group_defs simp_thms if_False) (simp split: if_split)

text \<open>The statuses the routes answer with.\<close>

definition routed_ok :: "'s routed \<Rightarrow> bool" where
  "routed_ok r = (case r of Answered rs st' \<Rightarrow> rs_status rs \<in> {200, 201, 404} | _ \<Rightarrow> True)"

lemma routed_ok_simps [simp]:
  "routed_ok NoRoute" "routed_ok (Threw e st)" "routed_ok (get_list enc xs st)"
  "n \<in> {200, 201} \<Longrightarrow> routed_ok (found_or_404 n enc r)"
  "n \<in> {200, 201} \<Longrightarrow> routed_ok (Answered (writeJson n b) st)"
  "routed_ok (created_or_threw enc c)"
  "(\<And>b. routed_ok (k b st)) \<Longrightarrow> routed_ok (with_body body k st)"
  "routed_ok a \<Longrightarrow> routed_ok b' \<Longrightarrow> routed_ok (or_else a b')"
proof -
  show "(\<And>b. routed_ok (k b st)) \<Longrightarrow> routed_ok (with_body body k st)"
    by (cases "readJsonBody body") (simp_all add: with_body_def routed_ok_def)
qed (auto simp: routed_ok_def get_list_def found_or_404_def or_else_def created_or_threw_def
      writeJson_def notFound_def split: routed.split option.split sum.split prod.split)

lemma routes_ok: "routed_ok (routes R clk m path body st)"
  by (simp add: routes_def route_group_defs split: if_split prod.split)

lemma finish_status:
  "routed_ok r \<Longrightarrow> rs_status (fst (finish st r)) \<in> {200, 201, 404, 500}"
  by (auto simp: finish_def routed_ok_def writeJson_def notFound_def split: routed.split)

lemma finish_reads:
  "reads st r \<Longrightarrow> routed_ok r \<Longrightarrow> snd (finish st r) = st \<and> rs_status (fst (finish st r)) \<in> {200, 201, 404}"
  by (auto simp: finish_def reads_def routed_ok_def writeJson_def notFound_def split: routed.split)

lemma route_create_workflow:
  "routes R clk ''POST'' ''/workflows'' body st
     = with_body body (\<lambda>b st. created_or_threw workflow_detail_json (createWorkflow R clk b st)) st"
  by (simp add: routes_def workflow_routes_def with_body_def created_or_threw_def split: sum.split prod.split)

lemma route_get_workflow:
  assumes "i \<noteq> []" and "CHR ''/'' \<notin> set i"
  shows "routes R clk ''GET'' (''/workflows/'' @ i) body st
     = found_or_404 200 workflow_detail_json (getWorkflowDetail R i (repo st), st)"
  using match_seg_make [OF assms, of "''/workflows/''" "[]"]
  by (simp add: routes_def workflow_routes_def found_or_404_def or_else_def split: option.split)

lemma route_get_session:
  assumes "i \<noteq> []" and "CHR ''/'' \<notin> set i"
  shows "routes R clk ''GET'' (''/sessions/'' @ i) body st
     = found_or_404 200 session_detail_json (getSessionDetail R i (repo st), st)"
proof -
  have "match_seg ''/workflows/'' [] (''/sessions/'' @ i) = None"
    "match_seg ''/runs/'' [] (''/sessions/'' @ i) = None"
    by (simp_all add: match_seg_def Let_def)
  then show ?thesis
    using match_seg_make [OF assms, of "''/sessions/''" "[]"]
    by (simp add: routes_def workflow_routes_def run_routes_def session_routes_def
        found_or_404_def or_else_def split: option.split)
qed

lemma api_request:
  assumes "rq_pathname rq = Some (pc_basePath cfg @ p)" and "rq_method rq \<noteq> ''OPTIONS''"
    and "\<not> (rq_method rq = ''GET'' \<and> pc_basePath cfg @ p = pc_healthPath cfg)"
  shows "handle_request cfg R clk rq st
     = map_prod Some id (finish st (routes R clk (rq_method rq) (if p = [] then ''/'' else p) (rq_body rq) st))"
  using assms by (auto simp: handle_request_def route_path_def)

section \<open>Properties\<close>

text \<open>
  C3: a server on the file-backed repository answers every request as one on the in-memory
  repository that holds the same data, and both hold the same data and counters afterwards.
\<close>

theorem http_file_refines:
  "map_prod id (store_map mem) (handle_request cfg createFileProductApiRepository clk rq st)
     = handle_request cfg im_repo clk rq (store_map mem st)"
  by (rule file_backed.handle_request_view)

text \<open>
  A request whose target the URL parser accepts is always answered, with status 200, 201, 204,
  404 or 500; one that is neither a \<open>POST\<close> nor a \<open>PUT\<close> changes nothing and is never a 500. A
  target the parser rejects is never answered: the handler rejects outside its \<open>try\<close>.
\<close>

theorem request_answered:
  "(case rq_pathname rq of
      None \<Rightarrow> handle_request cfg R clk rq st = (None, st)
    | Some p \<Rightarrow> (\<exists>rs. fst (handle_request cfg R clk rq st) = Some rs
        \<and> rs_status rs \<in> {200, 201, 204, 404, 500}
        \<and> (rq_method rq \<notin> {''POST'', ''PUT''}
             \<longrightarrow> rs_status rs \<noteq> 500 \<and> snd (handle_request cfg R clk rq st) = st)))"
proof (cases "rq_pathname rq")
  case None
  then show ?thesis by (simp add: handle_request_def)
next
  case (Some p)
  let ?r = "routes R clk (rq_method rq) (route_path cfg p) (rq_body rq) st"
  have "rs_status (fst (finish st ?r)) \<in> {200, 201, 404, 500}"
    by (rule finish_status [OF routes_ok])
  moreover have "rq_method rq \<notin> {''POST'', ''PUT''} \<Longrightarrow>
      snd (finish st ?r) = st \<and> rs_status (fst (finish st ?r)) \<in> {200, 201, 404}"
    by (rule finish_reads [OF safe_method_reads routes_ok]) simp_all
  ultimately show ?thesis
    using Some by (auto simp: handle_request_def writeJson_def notFound_def)
qed

text \<open>
  What a client creates it can read: when a \<open>POST\<close> to the workflows answers 201, the body
  has an id under which a later \<open>GET\<close> answers 200 with the same body.
\<close>

theorem create_then_get:
  assumes "ids_fresh st" and "take (length (pc_basePath cfg)) (pc_healthPath cfg) \<noteq> pc_basePath cfg"
    and "handle_request cfg im_repo clk
           \<lparr>rq_method = ''POST'', rq_pathname = Some (pc_basePath cfg @ ''/workflows''), rq_body = body\<rparr> st
         = (Some rs, st')"
    and "rs_status rs = 201" and "rs_body rs = Some b"
  shows "\<exists>i. getp b ''id'' = Some (JStr i)
     \<and> handle_request cfg im_repo clk'
         \<lparr>rq_method = ''GET'', rq_pathname = Some (pc_basePath cfg @ ''/workflows/'' @ i), rq_body = NoBody\<rparr> st'
       = (Some (writeJson 200 b), st')"
proof -
  let ?post = "\<lparr>rq_method = ''POST'', rq_pathname = Some (pc_basePath cfg @ ''/workflows''), rq_body = body\<rparr>"
  have "handle_request cfg im_repo clk ?post st
    = map_prod Some id (finish st (routes im_repo clk ''POST'' ''/workflows'' body st))"
    using api_request [of ?post cfg "''/workflows''"] by simp
  then obtain payload w where c: "createWorkflow im_repo clk payload st = (Inr w, st')"
    and b: "b = workflow_detail_json w"
    using assms(3-5)
    by (auto simp: route_create_workflow with_body_def created_or_threw_def finish_def writeJson_def
        split: sum.splits prod.splits)
  from createWorkflow_result [OF assms(1) c]
  have get: "im_getWorkflowDetail (wf_id w) (repo st') = Some w" by simp
  have i: "wf_id w \<noteq> []" "CHR ''/'' \<notin> set (wf_id w)"
    using c by (auto simp: createWorkflow_def Let_def split: sum.splits)
  let ?get = "\<lparr>rq_method = ''GET'', rq_pathname = Some (pc_basePath cfg @ ''/workflows/'' @ wf_id w),
      rq_body = NoBody\<rparr>"
  have "pc_basePath cfg @ q \<noteq> pc_healthPath cfg" for q
  proof
    assume "pc_basePath cfg @ q = pc_healthPath cfg"
    then have "take (length (pc_basePath cfg)) (pc_healthPath cfg) = pc_basePath cfg"
      by (metis append_eq_conv_conj)
    with assms(2) show False ..
  qed
  then have "handle_request cfg im_repo clk' ?get st' = (Some (writeJson 200 b), st')"
    using api_request [of ?get cfg "''/workflows/'' @ wf_id w" im_repo clk' st'] get i
    by (simp add: route_get_workflow [simplified] in_memory_laws found_or_404_def finish_def b)
  moreover have "getp b ''id'' = Some (JStr (wf_id w))"
    by (simp add: b workflow_detail_json_def workflow_fields_def)
  ultimately show ?thesis by blast
qed

definition default_config :: product_config where
  "default_config = \<lparr>pc_host = ''127.0.0.1'', pc_port = 8788, pc_basePath = ''/api'',
     pc_healthPath = ''/healthz'', pc_workspaceId = ''workspace-dev'', pc_serverVersion = ''0.1.0'',
     pc_stateFilePath = None, pc_realtimeMirrorUrl = None, pc_reconnectDelayMs = None\<rparr>"

lemma default_config_loads: "loadProductApiServerConfig (\<lambda>_. None) = Inr default_config"
  by (simp add: loadProductApiServerConfig_def readOptionalNumberEnv_def readRequiredEnv_def
      env_trim_def normalizePath_def trim_or_def default_config_def)

lemma create_then_get_witness:
  "\<exists>i rs st'. handle_request default_config im_repo (\<lambda>_. 0)
      \<lparr>rq_method = ''POST'', rq_pathname = Some ''/api/workflows'', rq_body = NoBody\<rparr> fresh_server
      = (Some rs, st')
    \<and> rs_status (the (fst (handle_request default_config im_repo (\<lambda>_. 0)
         \<lparr>rq_method = ''GET'', rq_pathname = Some (''/api/workflows/'' @ i), rq_body = NoBody\<rparr> st'))) = 200"
proof -
  let ?h = "handle_request default_config im_repo (\<lambda>_. 0)
      \<lparr>rq_method = ''POST'', rq_pathname = Some ''/api/workflows'', rq_body = NoBody\<rparr> fresh_server"
  have d: "pc_basePath default_config = ''/api''" "pc_healthPath default_config = ''/healthz''"
    by (simp_all add: default_config_def)
  obtain rs st' where h: "?h = (Some rs, st')" "rs_status rs = 201" "rs_body rs \<noteq> None"
    by (simp add: handle_request_def d route_path_def route_create_workflow [simplified] with_body_def
        readJsonBody_def created_or_threw_def finish_def createWorkflow_def trim_field_def Let_def
        writeJson_def)
  then obtain b where b: "rs_body rs = Some b" by blast
  have p: "handle_request default_config im_repo (\<lambda>_. 0) \<lparr>rq_method = ''POST'',
      rq_pathname = Some (pc_basePath default_config @ ''/workflows''), rq_body = NoBody\<rparr> fresh_server = (Some rs, st')"
    using h(1) by (simp add: d)
  obtain i where "handle_request default_config im_repo (\<lambda>_. 0) \<lparr>rq_method = ''GET'',
      rq_pathname = Some (''/api/workflows/'' @ i), rq_body = NoBody\<rparr> st' = (Some (writeJson 200 b), st')"
    using create_then_get [OF ids_fresh_server _ p h(2) b, of "\<lambda>_. 0"] by (auto simp: d)
  then have "rs_status (the (fst (handle_request default_config im_repo (\<lambda>_. 0) \<lparr>rq_method = ''GET'',
      rq_pathname = Some (''/api/workflows/'' @ i), rq_body = NoBody\<rparr> st'))) = 200"
    by (simp add: writeJson_def)
  with h(1) show ?thesis by blast
qed

lemma request_answered_witness:
  "\<exists>rs. fst (handle_request default_config im_repo (\<lambda>_. 0)
      \<lparr>rq_method = ''GET'', rq_pathname = Some ''/api/runs'', rq_body = NoBody\<rparr> fresh_server) = Some rs
    \<and> rs_status rs \<noteq> 500"
  using request_answered [where rq = "\<lparr>rq_method = ''GET'', rq_pathname = Some ''/api/runs'', rq_body = NoBody\<rparr>"
      and cfg = default_config and R = im_repo and clk = "\<lambda>_. 0" and st = fresh_server]
  by auto

text \<open>
  With a base path that ends in a slash, such as the accepted value \<open>/\<close>, no route is reachable
  at its address: what follows the base path has lost its leading slash, so everything but the
  health check and \<open>OPTIONS\<close> answers 404 and changes nothing.
\<close>

theorem slash_base_unreachable:
  assumes "rq_pathname rq = Some (pc_basePath cfg @ p)" and "take 1 p \<noteq> ''/''"
    and "rq_method rq \<noteq> ''OPTIONS''"
    and "\<not> (rq_method rq = ''GET'' \<and> pc_basePath cfg @ p = pc_healthPath cfg)"
  shows "handle_request cfg R clk rq st = (Some notFound, st)"
proof -
  have "routes R clk (rq_method rq) (if p = [] then ''/'' else p) (rq_body rq) st = NoRoute"
    using assms(2) by (intro no_route_outside) auto
  then show ?thesis by (simp only: api_request [OF assms(1,3,4)]) (simp add: finish_def)
qed

lemma slash_base_unreachable_witness:
  "normalizePath (Some ''/'') ''/api'' = ''/''
   \<and> handle_request (default_config\<lparr>pc_basePath := ''/''\<rparr>) im_repo (\<lambda>_. 0)
      \<lparr>rq_method = ''GET'', rq_pathname = Some ''/workflows'', rq_body = NoBody\<rparr> fresh_server
     = (Some notFound, fresh_server)"
  using slash_base_unreachable [of "\<lparr>rq_method = ''GET'', rq_pathname = Some ''/workflows'', rq_body = NoBody\<rparr>"
      "default_config\<lparr>pc_basePath := ''/''\<rparr>" "''workflows''" im_repo "\<lambda>_. 0" fresh_server]
  by (simp add: default_config_def normalizePath_def trim_or_def trim_eval)

text \<open>
  A server that fails to start has closed the mirror it started; and however many signals
  arrive, in whatever order and whether or not closing fails, the server is closed exactly once.
\<close>

theorem lifecycle_closes_once:
  "(\<exists>e. fst (startProductApiServer cfg outcome) = Inl e) = (outcome \<notin> range (\<lambda>p. ListeningOn (Some p)))
   \<and> (isl (fst (startProductApiServer cfg outcome)) \<longrightarrow>
        count_list (snd (startProductApiServer cfg outcome)) CloseMirror
          = (if pc_realtimeMirrorUrl cfg = None then 0 else 1))
   \<and> count_list (signals rt sigs False) CloseHttp = (if sigs = [] then 0 else 1)"
proof -
  have quiet: "signals rt sigs True = []" for sigs
    by (induction sigs) (auto simp: shutdown_def)
  have "count_list (signals rt sigs False) CloseHttp = (if sigs = [] then 0 else 1)"
    by (cases sigs) (auto simp: shutdown_def quiet close_runtime_def close_mirror_def)
  then show ?thesis
    by (auto simp: startProductApiServer_def close_mirror_def Let_def
        split: listen_outcome.split option.split)
qed

lemma lifecycle_closes_once_witness:
  "count_list (snd (startProductApiServer (default_config\<lparr>pc_realtimeMirrorUrl := Some ''ws://h''\<rparr>)
      (ListeningOn None))) CloseMirror = 1"
proof -
  let ?c = "default_config\<lparr>pc_realtimeMirrorUrl := Some ''ws://h''\<rparr>"
  have "isl (fst (startProductApiServer ?c (ListeningOn None)))"
    by (simp add: startProductApiServer_def)
  with lifecycle_closes_once [of ?c "ListeningOn None"] show ?thesis by simp
qed

end
