(* ===== verification/JsonText.thy ===== *)
theory JsonText
  imports Config
begin

text \<open>
  The text of a JSON value: \<open>Number.prototype.toString\<close> (the shortest digits that read back as the
  same double) and \<open>JSON.stringify(value, null, 2)\<close>, on the entries of an object in enumeration
  order.
\<close>

section \<open>Numbers\<close>

text \<open>The exponent \<open>n\<close> with \<open>10^(n-1) <= q < 10^n\<close>, for a positive \<open>q\<close>.\<close>

definition decimal_point :: "rat \<Rightarrow> int" where
  "decimal_point q =
     (if 1 \<le> q then int (length (nat_str (nat \<lfloor>q\<rfloor>)))
      else (let l = int (length (nat_str (nat \<lfloor>1 / q\<rfloor>)))
            in if rat_scale q 10 (l - 1) = 1 then 2 - l else 1 - l))"

definition digits_at :: "rat \<Rightarrow> nat \<Rightarrow> nat" where
  "digits_at q k = nat (round_half_even (rat_scale q 10 (int k - decimal_point q)))"

definition reads_back :: "rat \<Rightarrow> nat \<Rightarrow> bool" where
  "reads_back q k \<longleftrightarrow>
     double_of_rat (rat_scale (of_nat (digits_at q k)) 10 (decimal_point q - int k)) = Fin q"

definition shortest :: "rat \<Rightarrow> nat" where
  "shortest q = (case List.find (reads_back q) [1..<17] of Some k \<Rightarrow> k | None \<Rightarrow> 17)"

definition strip_zeros :: "string \<Rightarrow> string" where
  "strip_zeros s = rev (dropWhile (\<lambda>c. c = CHR ''0'') (rev s))"

definition layout_digits :: "string \<Rightarrow> int \<Rightarrow> string" where
  "layout_digits ds n =
     (let k = int (length ds)
      in if k \<le> n \<and> n \<le> 21 then ds @ replicate (nat (n - k)) (CHR ''0'')
         else if 0 < n \<and> n \<le> 21 then take (nat n) ds @ ''.'' @ drop (nat n) ds
         else if -6 < n \<and> n \<le> 0 then ''0.'' @ replicate (nat (- n)) (CHR ''0'') @ ds
         else take 1 ds @ (if k = 1 then [] else ''.'' @ drop 1 ds) @ ''e'' @
              (if 0 < n then ''+'' else ''-'') @ nat_str (nat \<bar>n - 1\<bar>))"

definition positive_str :: "rat \<Rightarrow> string" where
  "positive_str q =
     (let k = shortest q; s = nat_str (digits_at q k)
      in layout_digits (strip_zeros s) (decimal_point q + int (length s) - int k))"

definition number_str :: "jnum \<Rightarrow> string" where
  "number_str x = (case x of
      Fin q \<Rightarrow> if q = 0 then ''0'' else if q < 0 then ''-'' @ positive_str (- q) else positive_str q
    | PosInf \<Rightarrow> ''Infinity'' | NegInf \<Rightarrow> ''-Infinity'' | NaN \<Rightarrow> ''NaN'')"

section \<open>Strings\<close>

definition hex_digit :: "nat \<Rightarrow> char" where
  "hex_digit n = ''0123456789abcdef'' ! n"

definition escape_char :: "char \<Rightarrow> string" where
  "escape_char c =
     (let n = of_char c :: nat
      in if c = CHR 0x22 then [CHR 0x5C, CHR 0x22]
         else if c = CHR 0x5C then [CHR 0x5C, CHR 0x5C]
         else if n = 8 then [CHR 0x5C] @ ''b''
         else if n = 9 then [CHR 0x5C] @ ''t''
         else if n = 10 then [CHR 0x5C] @ ''n''
         else if n = 12 then [CHR 0x5C] @ ''f''
         else if n = 13 then [CHR 0x5C] @ ''r''
         else if n < 32 then [CHR 0x5C] @ ''u00'' @ [hex_digit (n div 16), hex_digit (n mod 16)]
         else [c])"

definition quote :: "string \<Rightarrow> string" where
  "quote s = [CHR 0x22] @ concat (map escape_char s) @ [CHR 0x22]"

section \<open>Values\<close>

fun intercalate :: "string \<Rightarrow> string list \<Rightarrow> string" where
  "intercalate sep [] = []"
| "intercalate sep [x] = x"
| "intercalate sep (x # y # xs) = x @ sep @ intercalate sep (y # xs)"

definition nl :: "nat \<Rightarrow> string" where
  "nl n = CHR 0x0A # replicate n (CHR '' '')"

definition bracketed :: "nat \<Rightarrow> string \<Rightarrow> string \<Rightarrow> string list \<Rightarrow> string" where
  "bracketed n l r xs =
     (if xs = [] then l @ r else l @ nl (n + 2) @ intercalate ('','' @ nl (n + 2)) xs @ nl n @ r)"

fun json_pretty :: "nat \<Rightarrow> json \<Rightarrow> string" where
  "json_pretty n JNull = ''null''"
| "json_pretty n (JBool b) = (if b then ''true'' else ''false'')"
| "json_pretty n (JNum (Fin q)) = number_str (Fin q)"
| "json_pretty n (JNum x) = ''null''"
| "json_pretty n (JStr s) = quote s"
| "json_pretty n (JArr xs) = bracketed n ''['' '']'' (map (json_pretty (n + 2)) xs)"
| "json_pretty n (JObj kvs) = bracketed n ''{'' ''}''
     (map (\<lambda>(k, v). quote k @ '': '' @ json_pretty (n + 2) v) kvs)"

section \<open>String conversion\<close>

text \<open>\<open>String(v)\<close> of a JSON value without a property named \<open>toString\<close> of its own.\<close>

fun js_to_string :: "json \<Rightarrow> string" where
  "js_to_string JNull = ''null''"
| "js_to_string (JBool b) = (if b then ''true'' else ''false'')"
| "js_to_string (JNum x) = number_str x"
| "js_to_string (JStr s) = s"
| "js_to_string (JArr xs) = intercalate '','' (map (\<lambda>x. if x = JNull then [] else js_to_string x) xs)"
| "js_to_string (JObj kvs) = ''[object Object]''"

end
