(* ===== verification/Contracts.thy ===== *)
theory Contracts
  imports JsValue
begin

text \<open>
  The frames of packages/realtime-gateway-contracts and their JSON. A frame crosses a socket as
  the text of its JSON; a field that is \<open>undefined\<close> is absent there. Sequence numbers are
  JavaScript numbers.
\<close>

datatype gateway_event =
    EvChat | EvAgent | EvSessionMessage | EvSessionsChanged | EvRunStatus | EvToolStatus
  | EvApprovalRequested | EvApprovalResolved | EvShutdown

fun event_name :: "gateway_event \<Rightarrow> string" where
  "event_name EvChat = ''chat''"
| "event_name EvAgent = ''agent''"
| "event_name EvSessionMessage = ''session.message''"
| "event_name EvSessionsChanged = ''sessions.changed''"
| "event_name EvRunStatus = ''run.status''"
| "event_name EvToolStatus = ''tool.status''"
| "event_name EvApprovalRequested = ''approval.requested''"
| "event_name EvApprovalResolved = ''approval.resolved''"
| "event_name EvShutdown = ''shutdown''"

definition all_events :: "gateway_event list" where
  "all_events = [EvChat, EvAgent, EvSessionMessage, EvSessionsChanged, EvRunStatus, EvToolStatus,
     EvApprovalRequested, EvApprovalResolved, EvShutdown]"

definition event_of_name :: "string \<Rightarrow> gateway_event option" where
  "event_of_name n = List.find (\<lambda>e. event_name e = n) all_events"

record hello_frame =
  hf_protocol :: jnum
  hf_version :: string
  hf_methods :: "string list"
  hf_events :: "gateway_event list"
  hf_snapshot :: entries

record request_frame =
  rf_id :: string
  rf_method :: string
  rf_payload :: jsval

record response_error =
  re_code :: string
  re_message :: string

record response_frame =
  sf_id :: string
  sf_ok :: bool
  sf_payload :: jsval
  sf_error :: "response_error option"

record event_frame =
  ef_event :: gateway_event
  ef_seq :: jnum
  ef_payload :: jsval
  ef_stateVersion :: jsval

datatype gateway_frame =
    HelloF hello_frame
  | RequestF request_frame
  | ResponseF response_frame
  | ErrorF string string
  | EventF event_frame

definition strings_json :: "string list \<Rightarrow> json" where
  "strings_json xs = JArr (map JStr xs)"

definition response_error_json :: "response_error \<Rightarrow> json" where
  "response_error_json e = JObj [(''code'', JStr (re_code e)), (''message'', JStr (re_message e))]"

fun frame_json :: "gateway_frame \<Rightarrow> json" where
  "frame_json (HelloF h) = JObj
     [(''type'', JStr ''hello''), (''protocol'', JNum (hf_protocol h)),
      (''server'', JObj [(''version'', JStr (hf_version h))]),
      (''features'', JObj [(''methods'', strings_json (hf_methods h)),
                           (''events'', strings_json (map event_name (hf_events h)))]),
      (''snapshot'', JObj (hf_snapshot h))]"
| "frame_json (RequestF r) = mk_obj
     [(''type'', Some (JStr ''req'')), (''id'', Some (JStr (rf_id r))),
      (''method'', Some (JStr (rf_method r))), (''payload'', rf_payload r)]"
| "frame_json (ResponseF r) = mk_obj
     [(''type'', Some (JStr ''res'')), (''id'', Some (JStr (sf_id r))),
      (''ok'', Some (JBool (sf_ok r))), (''payload'', sf_payload r),
      (''error'', map_option response_error_json (sf_error r))]"
| "frame_json (ErrorF c m) =
     JObj [(''type'', JStr ''error''), (''code'', JStr c), (''message'', JStr m)]"
| "frame_json (EventF e) = mk_obj
     [(''type'', Some (JStr ''event'')), (''event'', Some (JStr (event_name (ef_event e)))),
      (''seq'', Some (JNum (ef_seq e))), (''payload'', ef_payload e),
      (''stateVersion'', ef_stateVersion e)]"

lemma event_of_name_name [simp]: "event_of_name (event_name e) = Some e"
  by (cases e) (simp_all add: event_of_name_def all_events_def)

lemma event_name_inj [simp]: "event_name e = event_name f \<longleftrightarrow> e = f"
  by (metis event_of_name_name option.inject)

lemma event_of_name_Some: "event_of_name n = Some e \<Longrightarrow> event_name e = n"
  by (auto simp: event_of_name_def all_events_def split: if_splits)

lemma event_frame_fields:
  "getp (frame_json (EventF e)) ''type'' = Some (JStr ''event'')"
  "getp (frame_json (EventF e)) ''event'' = Some (JStr (event_name (ef_event e)))"
  "getp (frame_json (EventF e)) ''seq'' = Some (JNum (ef_seq e))"
  "getp (frame_json (EventF e)) ''payload'' = ef_payload e"
  "getp (frame_json (EventF e)) ''stateVersion'' = ef_stateVersion e"
  by (simp_all add: getp_mk_obj)

lemma request_frame_fields:
  "getp (frame_json (RequestF r)) ''type'' = Some (JStr ''req'')"
  "getp (frame_json (RequestF r)) ''id'' = Some (JStr (rf_id r))"
  "getp (frame_json (RequestF r)) ''method'' = Some (JStr (rf_method r))"
  "getp (frame_json (RequestF r)) ''payload'' = rf_payload r"
  by (simp_all add: getp_mk_obj)

lemma response_frame_fields:
  "getp (frame_json (ResponseF r)) ''type'' = Some (JStr ''res'')"
  "getp (frame_json (ResponseF r)) ''id'' = Some (JStr (sf_id r))"
  "getp (frame_json (ResponseF r)) ''ok'' = Some (JBool (sf_ok r))"
  "getp (frame_json (ResponseF r)) ''payload'' = sf_payload r"
  "getp (frame_json (ResponseF r)) ''error'' = map_option response_error_json (sf_error r)"
  by (simp_all add: getp_mk_obj)

end
