(* ===== verification/Adapter.thy ===== *)
theory Adapter
  imports Contracts JsonText Mirror
begin

text \<open>
  The event normalisation and the bridge adapter of packages/openclaw-adapter/src/index.ts. A
  frame of the OpenClaw gateway arrives decoded with the types the source declares for it: the
  event name (\<open>None\<close> for one that is no text), a sequence number or none, any payload.
\<close>

record bridge_context =
  bc_workspaceId :: string
  bc_tenantId :: "string option"
  bc_userId :: "string option"

record source_event =
  sv_event :: gateway_event
  sv_payload :: jsval
  sv_seq :: "jnum option"
  sv_stateVersion :: jsval

record openclaw_event =
  oe_event :: "string option"
  oe_seq :: "jnum option"
  oe_payload :: jsval
  oe_stateVersion :: jsval

section \<open>Payloads\<close>

definition normalizeEventName :: "string \<Rightarrow> gateway_event option" where
  "normalizeEventName e =
     (if e = ''chat'' then Some EvChat
      else if e = ''session.message'' then Some EvSessionMessage
      else if e = ''sessions.changed'' then Some EvSessionsChanged
      else if e = ''shutdown'' then Some EvShutdown
      else if e = ''exec.approval.requested'' \<or> e = ''plugin.approval.requested''
      then Some EvApprovalRequested
      else if e = ''exec.approval.resolved'' \<or> e = ''plugin.approval.resolved''
      then Some EvApprovalResolved
      else None)"

definition nonblank_text :: "jsval \<Rightarrow> string option" where
  "nonblank_text v = (case as_str v of None \<Rightarrow> None | Some s \<Rightarrow> if trim s = [] then None else Some s)"

definition block_text :: "json \<Rightarrow> string option" where
  "block_text entry = (if is_object (Some entry) then nonblank_text (getp entry ''text'') else None)"

definition extractTextParts :: "jsval \<Rightarrow> string list" where
  "extractTextParts v =
     (case as_str v of
        Some s \<Rightarrow> if trim s = [] then [] else [s]
      | None \<Rightarrow>
          if \<not> is_object v then []
          else (case nonblank_text (getp (the v) ''text'') of
                  Some s \<Rightarrow> [s]
                | None \<Rightarrow> (case getp (the v) ''content'' of
                    Some (JArr xs) \<Rightarrow> List.map_filter block_text xs
                  | _ \<Rightarrow> [])))"

definition join_lines :: "string list \<Rightarrow> string" where
  "join_lines = intercalate [CHR 0x0A]"

definition extractOpenClawChatPayloadText :: "json \<Rightarrow> string option" where
  "extractOpenClawChatPayloadText payload =
     (let parts = extractTextParts (getp payload ''message'')
      in if parts = [] then None else Some (join_lines parts))"

definition stringifyToolOutput :: "jsval \<Rightarrow> string option" where
  "stringifyToolOutput v =
     (let parts = extractTextParts v
      in if parts \<noteq> [] then Some (join_lines parts)
         else case v of None \<Rightarrow> None | Some JNull \<Rightarrow> None | Some x \<Rightarrow> Some (json_pretty 0 x))"

definition toIsoString :: "string \<Rightarrow> jsval \<Rightarrow> js_error + string" where
  "toIsoString now ts = (case as_finite ts of Some q \<Rightarrow> date_iso q | None \<Rightarrow> Inr now)"

definition mapToolPhase :: "string \<Rightarrow> string" where
  "mapToolPhase phase =
     (if phase = ''start'' then ''started''
      else if phase = ''update'' then ''streaming''
      else if phase = ''error'' then ''failed''
      else ''completed'')"

text \<open>\<open>typeof v === "string"\<close> and truthy.\<close>

definition text_field :: "json \<Rightarrow> string \<Rightarrow> string option" where
  "text_field p k = (case as_str (getp p k) of Some s \<Rightarrow> if s = [] then None else Some s | None \<Rightarrow> None)"

definition event_data :: "json \<Rightarrow> json" where
  "event_data payload =
     (if is_object (getp payload ''data'') then the (getp payload ''data'') else payload)"

definition tool_output :: "string \<Rightarrow> json \<Rightarrow> string option" where
  "tool_output phase data =
     (if phase = ''update'' then stringifyToolOutput (getp data ''partialResult'')
      else if phase = ''error''
      then stringifyToolOutput (js_nullish (getp data ''error'') (getp data ''result''))
      else stringifyToolOutput (js_nullish (getp data ''result'') (getp data ''output'')))"

definition normalizeToolStatusPayload :: "clock \<Rightarrow> json \<Rightarrow> js_error + json option" where
  "normalizeToolStatusPayload clk payload =
     (let data = event_data payload in
      case (text_field data ''toolCallId'', text_field payload ''runId'', text_field payload ''sessionKey'') of
        (Some toolCallId, Some runId, Some sessionKey) \<Rightarrow>
          (let phase = nullish (as_str (getp data ''phase'')) ''result''
           in res_bind (toIsoString (isoNow clk 0) (getp payload ''ts'')) (\<lambda>startedAt.
                Inr (Some (mk_obj
                  [(''runId'', Some (JStr runId)), (''sessionKey'', Some (JStr sessionKey)),
                   (''toolCallId'', Some (JStr toolCallId)),
                   (''name'', Some (JStr (nullish (as_str (getp data ''name'')) ''tool''))),
                   (''args'', getp data ''args''),
                   (''output'', map_option JStr (tool_output phase data)),
                   (''phase'', Some (JStr (mapToolPhase phase))),
                   (''startedAt'', Some (JStr startedAt)),
                   (''updatedAt'', Some (JStr (isoNow clk 1)))]))))
      | _ \<Rightarrow> Inr None)"

definition lifecycle_phase :: "json \<Rightarrow> string option" where
  "lifecycle_phase payload =
     (let inner = (if is_object (getp payload ''data'')
                   then as_str (getp (the (getp payload ''data'')) ''phase'') else None)
      in case inner of Some s \<Rightarrow> Some s | None \<Rightarrow> as_str (getp payload ''phase''))"

definition lifecycle_status :: "string \<Rightarrow> string option" where
  "lifecycle_status phase =
     (if phase = ''start'' then Some ''started''
      else if phase = ''end'' then Some ''completed''
      else if phase = ''error'' then Some ''error''
      else None)"

definition str_or_null :: "jsval \<Rightarrow> json" where
  "str_or_null v = (case as_str v of Some s \<Rightarrow> JStr s | None \<Rightarrow> JNull)"

definition normalizeRunStatusPayload :: "clock \<Rightarrow> json \<Rightarrow> json option" where
  "normalizeRunStatusPayload clk payload =
     (case lifecycle_phase payload of
        None \<Rightarrow> None
      | Some phase \<Rightarrow>
          (case lifecycle_status phase of
             None \<Rightarrow> None
           | Some status \<Rightarrow> Some (JObj
               [(''runId'', str_or_null (getp payload ''runId'')),
                (''sessionKey'', str_or_null (getp payload ''sessionKey'')),
                (''status'', JStr status), (''phase'', JStr phase),
                (''ts'', if is_num (getp payload ''ts'') then the (getp payload ''ts'')
                         else js_int (clk 0))])))"

section \<open>Events\<close>

definition source_event_of :: "openclaw_event \<Rightarrow> gateway_event \<Rightarrow> jsval \<Rightarrow> source_event" where
  "source_event_of f ev payload = \<lparr>sv_event = ev, sv_payload = payload, sv_seq = oe_seq f,
     sv_stateVersion = oe_stateVersion f\<rparr>"

definition normalize_chat :: "openclaw_event \<Rightarrow> source_event list" where
  "normalize_chat f =
     (if \<not> truthy (oe_payload f) then []
      else (let payload = the (oe_payload f) in
        [source_event_of f EvChat (Some (JObj (obj_put ''message''
           (Some (mk_obj [(''text'', map_option JStr (extractOpenClawChatPayloadText payload))]))
           (own_entries (oe_payload f)))))]))"

definition normalize_tool :: "clock \<Rightarrow> openclaw_event \<Rightarrow> json \<Rightarrow> js_error + source_event list" where
  "normalize_tool clk f payload =
     res_bind (normalizeToolStatusPayload clk payload) (\<lambda>r.
       Inr (case r of None \<Rightarrow> [] | Some p \<Rightarrow> [source_event_of f EvToolStatus (Some p)]))"

definition normalize_agent :: "clock \<Rightarrow> openclaw_event \<Rightarrow> js_error + source_event list" where
  "normalize_agent clk f =
     (if \<not> truthy (oe_payload f) then Inr []
      else (let payload = the (oe_payload f) in
        case as_str (getp payload ''stream'') of
          None \<Rightarrow> Inr []
        | Some stream \<Rightarrow>
            if stream = ''tool'' then normalize_tool clk f payload
            else if stream = ''lifecycle''
            then Inr (case normalizeRunStatusPayload clk payload of
                        None \<Rightarrow> [] | Some p \<Rightarrow> [source_event_of f EvRunStatus (Some p)])
            else Inr []))"

definition approval_kind :: "string \<Rightarrow> string option" where
  "approval_kind e = (if take 5 e = ''exec.'' then Some ''exec''
     else if take 7 e = ''plugin.'' then Some ''plugin'' else None)"

definition approval_payload :: "string \<Rightarrow> jsval \<Rightarrow> json" where
  "approval_payload e payload =
     (let base = (if is_object payload then own_entries payload else [])
      in JObj (case approval_kind e of Some k \<Rightarrow> obj_put ''approvalKind'' (Some (JStr k)) base
                                     | None \<Rightarrow> base))"

definition normalize_named :: "openclaw_event \<Rightarrow> string \<Rightarrow> source_event list" where
  "normalize_named f e =
     (case normalizeEventName e of
        None \<Rightarrow> []
      | Some n \<Rightarrow> [source_event_of f n
          (if n = EvApprovalRequested \<or> n = EvApprovalResolved
           then Some (approval_payload e (oe_payload f)) else oe_payload f)])"

definition normalizeOpenClawEvent :: "clock \<Rightarrow> openclaw_event \<Rightarrow> js_error + source_event list" where
  "normalizeOpenClawEvent clk f =
     (case oe_event f of
        None \<Rightarrow> Inr []
      | Some e \<Rightarrow>
          if e = ''chat'' then Inr (normalize_chat f)
          else if e = ''agent'' then normalize_agent clk f
          else if e = ''session.tool''
          then (if truthy (oe_payload f) then normalize_tool clk f (the (oe_payload f)) else Inr [])
          else Inr (normalize_named f e))"

section \<open>The bridge adapter\<close>

text \<open>\<open>...(v ? {k: v} : {})\<close> for an optional text: the empty text counts as missing.\<close>

definition put_text :: "string \<Rightarrow> string option \<Rightarrow> entries \<Rightarrow> entries" where
  "put_text k v kvs = (case v of Some s \<Rightarrow> if s = [] then kvs else obj_put k (Some (JStr s)) kvs | None \<Rightarrow> kvs)"

definition context_fields :: "bridge_context \<Rightarrow> entries" where
  "context_fields c =
     put_text ''userId'' (bc_userId c)
       (put_text ''tenantId'' (bc_tenantId c) [(''workspaceId'', JStr (bc_workspaceId c))])"

definition injectContext :: "jsval \<Rightarrow> bridge_context \<Rightarrow> entries" where
  "injectContext payload c =
     (if is_plain_object payload then obj_spread (own_entries payload) (context_fields c)
      else obj_put ''data'' payload (context_fields c))"

record hello_options =
  ho_protocol :: "jnum option"
  ho_serverVersion :: "string option"
  ho_methods :: "string list option"
  ho_events :: "gateway_event list option"
  ho_snapshot :: jsval

definition buildHelloFrame :: "bridge_context \<Rightarrow> hello_options \<Rightarrow> hello_frame" where
  "buildHelloFrame c o' =
     \<lparr>hf_protocol = nullish (ho_protocol o') (Fin 1),
      hf_version = nullish (ho_serverVersion o') ''0.1.0'',
      hf_methods = nullish (ho_methods o') [],
      hf_events = nullish (ho_events o') [],
      hf_snapshot = injectContext (js_nullish (ho_snapshot o') (Some (JObj []))) c\<rparr>"

definition with_context :: "event_frame \<Rightarrow> bridge_context \<Rightarrow> event_frame" where
  "with_context e c = e\<lparr>ef_payload := Some (JObj (injectContext (ef_payload e) c))\<rparr>"

definition normalizeFrame :: "gateway_frame \<Rightarrow> bridge_context \<Rightarrow> gateway_frame" where
  "normalizeFrame f c =
     (case f of EventF e \<Rightarrow> EventF (with_context e c) | _ \<Rightarrow> f)"

fun jnum_max :: "jnum \<Rightarrow> jnum \<Rightarrow> jnum" where
  "jnum_max NaN y = NaN"
| "jnum_max x NaN = NaN"
| "jnum_max PosInf y = PosInf"
| "jnum_max x PosInf = PosInf"
| "jnum_max NegInf y = y"
| "jnum_max x NegInf = x"
| "jnum_max (Fin a) (Fin b) = Fin (max a b)"

text \<open>\<open>x + 1\<close> for a number that is never negative, rounded to a double.\<close>

fun jnum_succ :: "jnum \<Rightarrow> jnum" where
  "jnum_succ (Fin q) = double_of_rat (q + 1)"
| "jnum_succ x = x"

text \<open>The adapter's state is \<open>nextEventSeq\<close>.\<close>

definition createEventFrame ::
    "source_event \<Rightarrow> bridge_context \<Rightarrow> jnum \<Rightarrow> event_frame \<times> jnum" where
  "createEventFrame sv c next_seq =
     (let seq = nullish (sv_seq sv) (jnum_succ next_seq)
      in (with_context \<lparr>ef_event = sv_event sv, ef_seq = seq, ef_payload = sv_payload sv,
             ef_stateVersion = sv_stateVersion sv\<rparr> c,
          jnum_max next_seq seq))"

fun event_frames :: "source_event list \<Rightarrow> bridge_context \<Rightarrow> jnum \<Rightarrow> event_frame list" where
  "event_frames [] c n = []"
| "event_frames (e # es) c n =
     (let (f, n') = createEventFrame e c n in f # event_frames es c n')"

section \<open>Lemmas\<close>

lemma context_fields_wf [simp]: "obj_wf (context_fields c)"
  by (auto simp: context_fields_def put_text_def split: option.split)

lemma context_fields_keys:
  "k \<notin> {''workspaceId'', ''tenantId'', ''userId''} \<Longrightarrow> map_of (context_fields c) k = None"
  by (auto simp: context_fields_def put_text_def split: option.split)

lemma map_of_inject:
  "map_of (injectContext payload c)
     = (if is_plain_object payload then map_of (own_entries payload) ++ map_of (context_fields c)
        else (map_of (context_fields c))(''data'' := payload))"
  by (simp add: injectContext_def)

lemma ef_with_context [simp]:
  "ef_seq (with_context e c) = ef_seq e" "ef_event (with_context e c) = ef_event e"
  "ef_payload (with_context e c) = Some (JObj (injectContext (ef_payload e) c))"
  by (simp_all add: with_context_def)

lemma ilog2_bounds: "0 < n \<Longrightarrow> 2 ^ ilog2 n \<le> n \<and> n < 2 * 2 ^ ilog2 n"
proof (induction n rule: ilog2.induct)
  case (1 n)
  show ?case
  proof (cases "n < 2")
    case True
    with 1(2) show ?thesis by (subst (1 2) ilog2.simps) simp
  next
    case False
    with 1 have "2 ^ ilog2 (n div 2) \<le> n div 2" "n div 2 < 2 * 2 ^ ilog2 (n div 2)" by auto
    with False show ?thesis by (subst (1 2) ilog2.simps) auto
  qed
qed

lemma round_half_even_int [simp]: "round_half_even (of_int i) = i"
  by (simp add: round_half_even_def)

lemma rat_scale_inverse: "0 < b \<Longrightarrow> rat_scale (rat_scale q b k) b (- k) = q"
  by (auto simp: rat_scale_def)

text \<open>Integers below \<open>2^53\<close> are doubles.\<close>

lemma double_of_nat:
  assumes "n < 2 ^ 53"
  shows "double_of_rat (of_nat n) = Fin (of_nat n)"
proof (cases "n = 0")
  case False
  let ?k = "ilog2 n"
  have b: "2 ^ ?k \<le> n" "n < 2 * 2 ^ ?k" using ilog2_bounds [of n] False by auto
  have k: "?k < 53"
  proof (rule ccontr)
    assume "\<not> ?k < 53"
    then have "(2::nat) ^ 53 \<le> 2 ^ ?k" by (intro power_increasing) simp_all
    with b assms show False by simp
  qed
  have q: "quotient_of (of_nat n) = (int n, 1)"
    by simp
  have le: "rat_scale 1 2 (int ?k) \<le> of_nat n"
    using of_nat_mono [OF b(1), where 'a = rat] by (simp add: rat_scale_def)
  let ?u = "max (int ?k - 52) (- 1074)"
  have u: "?u \<le> 0" using k by simp
  have e: "rat_scale (of_nat n) 2 (- ?u) = of_int (int n * 2 ^ nat (- ?u))"
    using u by (simp add: rat_scale_def)
  have "rat_scale (rat_scale (of_nat n) 2 (- ?u)) 2 (- (- ?u)) = of_nat n"
    by (rule rat_scale_inverse) simp
  then have r: "rat_scale (of_int (round_half_even (rat_scale (of_nat n) 2 (- ?u)))) 2 ?u = of_nat n"
    unfolding e round_half_even_int minus_minus .
  have "(of_nat n :: rat) < 2 ^ 53" using assms by (metis of_nat_less_iff of_nat_numeral of_nat_power)
  also have "(2 :: rat) ^ 53 \<le> 2 ^ 1024" by (rule power_increasing) simp_all
  finally have "\<not> rat_scale 1 2 1024 \<le> (of_nat n :: rat)" by (simp add: rat_scale_def)
  with False q le r show ?thesis
    by (simp add: double_of_rat_def ilog2.simps [of "Suc 0"] Let_def)
qed (simp add: double_of_rat_def)

lemma jnum_succ_nat: "Suc n < 2 ^ 53 \<Longrightarrow> jnum_succ (Fin (of_nat n)) = Fin (of_nat (Suc n))"
  using double_of_nat [of "Suc n"] by (simp add: add.commute)

lemma event_frames_unsequenced:
  "\<forall>e\<in>set es. sv_seq e = None \<Longrightarrow> m + length es < 2 ^ 53 \<Longrightarrow>
     map ef_seq (event_frames es c (Fin (of_nat m))) = map (\<lambda>i. Fin (of_nat i)) [Suc m..<Suc (m + length es)]"
proof (induction es arbitrary: m)
  case (Cons e es)
  have s: "jnum_succ (Fin (of_nat m)) = Fin (of_nat (Suc m))"
    using Cons.prems(2) by (intro jnum_succ_nat) simp
  have f: "createEventFrame e c (Fin (of_nat m))
      = (with_context \<lparr>ef_event = sv_event e, ef_seq = Fin (of_nat (Suc m)), ef_payload = sv_payload e,
           ef_stateVersion = sv_stateVersion e\<rparr> c, Fin (of_nat (Suc m)))"
    using Cons.prems(1) s by (simp add: createEventFrame_def Let_def max_def)
  have "map ef_seq (event_frames es c (Fin (of_nat (Suc m))))
      = map (\<lambda>i. Fin (of_nat i)) [Suc (Suc m)..<Suc (Suc m + length es)]"
    using Cons.prems by (intro Cons.IH) auto
  then show ?case by (simp add: f upt_conv_Cons del: of_nat_Suc upt_Suc)
qed simp

lemma tool_payload_cases:
  "normalizeToolStatusPayload clk payload =
     (if text_field (event_data payload) ''toolCallId'' = None \<or> text_field payload ''runId'' = None
         \<or> text_field payload ''sessionKey'' = None then Inr None
      else map_sum id (\<lambda>startedAt. Some (mk_obj
        [(''runId'', Some (JStr (the (text_field payload ''runId'')))),
         (''sessionKey'', Some (JStr (the (text_field payload ''sessionKey'')))),
         (''toolCallId'', Some (JStr (the (text_field (event_data payload) ''toolCallId'')))),
         (''name'', Some (JStr (nullish (as_str (getp (event_data payload) ''name'')) ''tool''))),
         (''args'', getp (event_data payload) ''args''),
         (''output'', map_option JStr (tool_output
            (nullish (as_str (getp (event_data payload) ''phase'')) ''result'') (event_data payload))),
         (''phase'', Some (JStr (mapToolPhase (nullish (as_str (getp (event_data payload) ''phase'')) ''result'')))),
         (''startedAt'', Some (JStr startedAt)), (''updatedAt'', Some (JStr (isoNow clk 1)))]))
        (toIsoString (isoNow clk 0) (getp payload ''ts'')))"
  by (cases "toIsoString (isoNow clk 0) (getp payload ''ts'')")
     (auto simp: normalizeToolStatusPayload_def Let_def split: option.splits)

section \<open>Properties\<close>

text \<open>
  Every payload that reaches a client carries the gateway's own workspace, and its tenant and
  user when they are set, whatever the payload claimed; an object keeps all its other fields, and
  anything else becomes the \<open>data\<close> of an object.
\<close>

theorem injectContext_authoritative:
  "map_of (injectContext payload c) ''workspaceId'' = Some (JStr (bc_workspaceId c))
   \<and> (bc_tenantId c \<notin> {None, Some []} \<longrightarrow>
        map_of (injectContext payload c) ''tenantId'' = map_option JStr (bc_tenantId c))
   \<and> (bc_userId c \<notin> {None, Some []} \<longrightarrow>
        map_of (injectContext payload c) ''userId'' = map_option JStr (bc_userId c))
   \<and> (\<forall>k. k \<notin> {''workspaceId'', ''tenantId'', ''userId''} \<longrightarrow> map_of (injectContext payload c) k
        = (if is_plain_object payload then map_of (own_entries payload) k
           else if k = ''data'' then payload else None))"
  unfolding map_of_inject
  by (auto simp: context_fields_keys context_fields_def put_text_def map_add_def split: option.split)

lemma injectContext_authoritative_witness:
  "map_of (injectContext (Some (JObj [(''workspaceId'', JStr ''other''), (''x'', JNull)]))
      \<lparr>bc_workspaceId = ''w'', bc_tenantId = Some ''t'', bc_userId = None\<rparr>) ''tenantId'' = Some (JStr ''t'')"
  using injectContext_authoritative [of "Some (JObj [(''workspaceId'', JStr ''other''), (''x'', JNull)])"
      "\<lparr>bc_workspaceId = ''w'', bc_tenantId = Some ''t'', bc_userId = None\<rparr>"]
  by simp

text \<open>
  Events that carry no sequence number are numbered consecutively after the highest number
  seen so far (below \<open>2^53\<close>), so the number a later event brings along can be one that was already
  given out: two different frames then have the same number.
\<close>

theorem event_numbering:
  "((\<forall>e\<in>set es. sv_seq e = None) \<and> m + length es < 2 ^ 53 \<longrightarrow>
     map ef_seq (event_frames es c (Fin (of_nat m))) = map (\<lambda>i. Fin (of_nat i)) [Suc m..<Suc (m + length es)])
   \<and> \<not> distinct (map ef_seq (event_frames
       [\<lparr>sv_event = EvShutdown, sv_payload = None, sv_seq = None, sv_stateVersion = None\<rparr>,
        \<lparr>sv_event = EvChat, sv_payload = None, sv_seq = Some (Fin 1), sv_stateVersion = None\<rparr>] c (Fin 0)))"
  using event_frames_unsequenced [of es m c] jnum_succ_nat [of 0]
  by (auto simp: createEventFrame_def Let_def)

lemma event_numbering_witness:
  "map ef_seq (event_frames
      [\<lparr>sv_event = EvShutdown, sv_payload = None, sv_seq = None, sv_stateVersion = None\<rparr>]
      \<lparr>bc_workspaceId = ''w'', bc_tenantId = None, bc_userId = None\<rparr> (Fin 0)) = [Fin 1]"
  using event_numbering [of "[\<lparr>sv_event = EvShutdown, sv_payload = None, sv_seq = None, sv_stateVersion = None\<rparr>]"
      0 "\<lparr>bc_workspaceId = ''w'', bc_tenantId = None, bc_userId = None\<rparr>"]
  by simp

text \<open>
  A tool event is forwarded exactly when its tool call, run and session are named by
  non-empty texts and its time stamp is absent, no finite number, or a valid time; what is
  forwarded names the same call, run and session and has one of the four phases of the contract.
  An invalid time stamp throws.
\<close>

theorem tool_payload_forwarded:
  "case normalizeToolStatusPayload clk payload of
     Inl e \<Rightarrow> \<exists>q. as_finite (getp payload ''ts'') = Some q \<and> \<bar>q\<bar> > 8640000000000000
   | Inr None \<Rightarrow> text_field (event_data payload) ''toolCallId'' = None
        \<or> text_field payload ''runId'' = None \<or> text_field payload ''sessionKey'' = None
   | Inr (Some p) \<Rightarrow> text_field p ''toolCallId'' = text_field (event_data payload) ''toolCallId''
        \<and> text_field p ''runId'' = text_field payload ''runId''
        \<and> text_field p ''sessionKey'' = text_field payload ''sessionKey''
        \<and> text_field p ''runId'' \<noteq> None
        \<and> text_field p ''phase'' \<in> Some ` {''started'', ''streaming'', ''completed'', ''failed''}"
proof -
  have ne: "text_field p k = Some x \<Longrightarrow> x \<noteq> []" for p k x
    by (auto simp: text_field_def split: option.splits if_splits)
  have ph: "mapToolPhase x \<in> {''started'', ''streaming'', ''completed'', ''failed''}" for x
    by (simp add: mapToolPhase_def)
  have err: "toIsoString now v = Inl e \<Longrightarrow> \<exists>q. as_finite v = Some q \<and> \<bar>q\<bar> > 8640000000000000" for now v e
    by (auto simp: toIsoString_def date_iso_def split: option.splits if_splits)
  have phase: "getp p ''phase'' = Some (JStr (mapToolPhase x)) \<Longrightarrow>
      text_field p ''phase'' \<in> Some ` {''started'', ''streaming'', ''completed'', ''failed''}" for p x
    using ph [of x] by (auto simp: text_field_def)
  show ?thesis
  proof (cases "text_field (event_data payload) ''toolCallId'' = None \<or> text_field payload ''runId'' = None
      \<or> text_field payload ''sessionKey'' = None")
    case True
    then show ?thesis by (subst tool_payload_cases) simp
  next
    case False
    then obtain a b c where abc: "text_field (event_data payload) ''toolCallId'' = Some a"
        "text_field payload ''runId'' = Some b" "text_field payload ''sessionKey'' = Some c"
      by auto
    note named = abc [THEN ne]
    show ?thesis
    proof (cases "toIsoString (isoNow clk 0) (getp payload ''ts'')")
      case (Inl e)
      with False err [OF Inl] show ?thesis by (subst tool_payload_cases) simp
    next
      case (Inr s)
      then obtain p where p: "normalizeToolStatusPayload clk payload = Inr (Some p)"
        and f: "getp p ''toolCallId'' = Some (JStr a)" "getp p ''runId'' = Some (JStr b)"
          "getp p ''sessionKey'' = Some (JStr c)"
        and q: "getp p ''phase'' = Some (JStr (mapToolPhase
          (nullish (as_str (getp (event_data payload) ''phase'')) ''result'')))"
        using abc by (simp add: tool_payload_cases getp_mk_obj)
      from q have "text_field p ''phase'' \<in> Some ` {''started'', ''streaming'', ''completed'', ''failed''}"
        using phase by blast
      moreover have "text_field p ''toolCallId'' = Some a" "text_field p ''runId'' = Some b"
          "text_field p ''sessionKey'' = Some c"
        using f named by (simp_all add: text_field_def)
      ultimately show ?thesis unfolding p abc by simp
    qed
  qed
qed

definition forwarded_events :: "string list" where
  "forwarded_events = [''chat'', ''agent'', ''session.tool'', ''session.message'',
     ''sessions.changed'', ''shutdown'', ''exec.approval.requested'', ''plugin.approval.requested'',
     ''exec.approval.resolved'', ''plugin.approval.resolved'']"

lemma forwarded_names: "normalize_named f e \<noteq> [] \<Longrightarrow> e \<in> set forwarded_events"
proof (rule ccontr)
  assume "e \<notin> set forwarded_events"
  then have "e \<noteq> ''chat''" "e \<noteq> ''session.message''" "e \<noteq> ''sessions.changed''" "e \<noteq> ''shutdown''"
      "e \<noteq> ''exec.approval.requested''" "e \<noteq> ''plugin.approval.requested''"
      "e \<noteq> ''exec.approval.resolved''" "e \<noteq> ''plugin.approval.resolved''"
    by (simp_all add: forwarded_events_def)
  then have "normalizeEventName e = None" by (simp only: normalizeEventName_def if_False simp_thms)
  moreover assume "normalize_named f e \<noteq> []"
  ultimately show False by (simp add: normalize_named_def)
qed

lemma forwarded_special:
  "''chat'' \<in> set forwarded_events" "''agent'' \<in> set forwarded_events"
  "''session.tool'' \<in> set forwarded_events"
  by (simp_all add: forwarded_events_def)

text \<open>
  An OpenClaw event is forwarded as at most one event, with the sequence number and state
  version it came with; and only the names the bridge knows are forwarded at all: every other
  event is dropped, its sequence number with it.
\<close>

theorem normalized_at_most_one:
  assumes "normalizeOpenClawEvent clk f = Inr svs"
  shows "(\<forall>sv\<in>set svs. sv_seq sv = oe_seq f \<and> sv_stateVersion sv = oe_stateVersion f)
    \<and> length svs \<le> 1
    \<and> (svs \<noteq> [] \<longrightarrow> (\<exists>e\<in>set forwarded_events. oe_event f = Some e))"
proof -
  have tool: "normalize_tool clk f p = Inr ys \<Longrightarrow> length ys \<le> 1 \<and>
      (\<forall>sv\<in>set ys. sv_seq sv = oe_seq f \<and> sv_stateVersion sv = oe_stateVersion f)" for p ys
    by (cases "normalizeToolStatusPayload clk p"; cases "projr (normalizeToolStatusPayload clk p)")
       (auto simp: normalize_tool_def source_event_of_def)
  have agent: "normalize_agent clk f = Inr ys \<Longrightarrow> length ys \<le> 1 \<and>
      (\<forall>sv\<in>set ys. sv_seq sv = oe_seq f \<and> sv_stateVersion sv = oe_stateVersion f)" for ys
    by (auto simp: normalize_agent_def Let_def source_event_of_def dest: tool
        split: option.splits if_splits)
  have chat: "length (normalize_chat f) \<le> 1 \<and>
      (\<forall>sv\<in>set (normalize_chat f). sv_seq sv = oe_seq f \<and> sv_stateVersion sv = oe_stateVersion f)"
    by (simp add: normalize_chat_def Let_def source_event_of_def)
  have named: "length (normalize_named f e) \<le> 1 \<and>
      (\<forall>sv\<in>set (normalize_named f e). sv_seq sv = oe_seq f \<and> sv_stateVersion sv = oe_stateVersion f)" for e
    by (cases "normalizeEventName e") (simp_all add: normalize_named_def source_event_of_def)
  show ?thesis
  proof (cases "oe_event f")
    case None
    with assms show ?thesis by (simp add: normalizeOpenClawEvent_def)
  next
    case (Some e)
    have "e = ''chat'' \<and> svs = normalize_chat f \<or> e = ''agent'' \<and> normalize_agent clk f = Inr svs
      \<or> e = ''session.tool'' \<and> normalize_tool clk f (the (oe_payload f)) = Inr svs
      \<or> svs = [] \<or> svs = normalize_named f e"
      using assms unfolding normalizeOpenClawEvent_def Some option.case
      by (simp split: if_split_asm)
    then show ?thesis
    proof (elim disjE conjE)
      assume "svs = normalize_named f e"
      with Some named [of e] forwarded_names [of f e] show ?thesis by auto
    next
      assume "e = ''agent''" "normalize_agent clk f = Inr svs"
      with Some agent forwarded_special show ?thesis by auto
    next
      assume "e = ''session.tool''" "normalize_tool clk f (the (oe_payload f)) = Inr svs"
      with Some tool forwarded_special show ?thesis by auto
    qed (use Some chat forwarded_special in auto)
  qed
qed

lemma normalized_at_most_one_witness:
  "normalizeOpenClawEvent (\<lambda>_. 0) \<lparr>oe_event = Some ''shutdown'', oe_seq = Some (Fin 7), oe_payload = None,
       oe_stateVersion = None\<rparr>
     = Inr [\<lparr>sv_event = EvShutdown, sv_payload = None, sv_seq = Some (Fin 7), sv_stateVersion = None\<rparr>]"
proof -
  let ?f = "\<lparr>oe_event = Some ''shutdown'', oe_seq = Some (Fin 7), oe_payload = None, oe_stateVersion = None\<rparr>"
  have n: "normalizeOpenClawEvent (\<lambda>_. 0) ?f
      = Inr [\<lparr>sv_event = EvShutdown, sv_payload = None, sv_seq = Some (Fin 7), sv_stateVersion = None\<rparr>]"
    by (simp add: normalizeOpenClawEvent_def normalize_named_def normalizeEventName_def source_event_of_def)
  from normalized_at_most_one [OF n] n show ?thesis by simp
qed

lemma getp_inject_object:
  "k \<notin> {''workspaceId'', ''tenantId'', ''userId''} \<Longrightarrow>
     getp (JObj (injectContext (Some (JObj kvs)) c)) k = map_of kvs k"
  by (simp add: map_of_inject context_fields_keys map_add_def)

lemma stringField_inject:
  "set ks \<inter> {''workspaceId'', ''tenantId'', ''userId''} = {} \<Longrightarrow>
     stringField (JObj (injectContext (Some (JObj kvs)) c)) ks = stringField (JObj kvs) ks"
proof (induction ks)
  case (Cons k ks)
  then have "k \<notin> {''workspaceId'', ''tenantId'', ''userId''}" by auto
  from getp_inject_object [OF this] Cons show ?case by (simp add: stringField.simps split: option.split)
qed (simp add: stringField.simps)

text \<open>
  C1: the way of a run through the whole product: an agent lifecycle event of the OpenClaw gateway
  that names its run, normalised by the adapter, framed by the bridge and mirrored by the Product
  API, leaves that run running after \<open>start\<close>, completed after \<open>end\<close> and failed after \<open>error\<close>.
\<close>

theorem lifecycle_reaches_product:
  assumes "oe_event f = Some ''agent''" and "oe_payload f = Some (JObj kvs)"
    and "map_of kvs ''stream'' = Some (JStr ''lifecycle'')"
    and "map_of kvs ''runId'' = Some (JStr r)" and "trim r \<noteq> []"
    and "lifecycle_phase (JObj kvs) = Some ph" and "ph \<in> {''start'', ''end'', ''error''}"
    and "normalizeOpenClawEvent clk f = Inr [sv]"
    and "mirrorRealtimeEvent im_repo clk' MRunStatus (ef_payload (fst (createEventFrame sv c n))) s = Inr t"
  shows "sv_event sv = EvRunStatus \<and> map_option run_status_of (im_getRunDetail r t)
     = Some (if ph = ''start'' then Running else if ph = ''end'' then Completed else Failed)"
proof -
  obtain status where st: "lifecycle_status ph = Some status"
    using assms(7) by (auto simp: lifecycle_status_def)
  define p where "p = [(''runId'', JStr r), (''sessionKey'', str_or_null (map_of kvs ''sessionKey'')),
      (''status'', JStr status), (''phase'', JStr ph),
      (''ts'', if is_num (map_of kvs ''ts'') then the (map_of kvs ''ts'') else js_int (clk 0))]"
  have run: "normalizeRunStatusPayload clk (JObj kvs) = Some (JObj p)"
    by (simp add: normalizeRunStatusPayload_def assms(4,6) st p_def str_or_null_def)
  have sv: "sv = source_event_of f EvRunStatus (Some (JObj p))"
    using assms(8) by (simp add: normalizeOpenClawEvent_def normalize_agent_def assms(1-3) run)
  have q: "ef_payload (fst (createEventFrame sv c n)) = Some (JObj (injectContext (Some (JObj p)) c))"
    by (simp add: sv source_event_of_def createEventFrame_def Let_def)
  have i: "stringField (JObj (injectContext (Some (JObj p)) c)) [''runId'', ''id''] = Some r"
    using stringField_inject [of "[''runId'', ''id'']" p c] assms(5) by (simp add: p_def stringField.simps)
  have status: "getp (JObj (injectContext (Some (JObj p)) c)) ''status'' = Some (JStr status)"
    using getp_inject_object [of "''status''" p c] by (simp add: p_def)
  obtain d where "im_getRunDetail r t = Some d" "run_status_of d = toRunStatus (Some (JStr status))"
    using mirror_event_run_status [OF assms(9) [unfolded q] _ i] status by auto
  then show ?thesis
    using st assms(7)
    by (auto simp: sv source_event_of_def lifecycle_status_def toRunStatus_def split: if_splits)
qed

lemma lifecycle_reaches_product_witness:
  "\<exists>t. mirrorRealtimeEvent im_repo (\<lambda>_. 0) MRunStatus (ef_payload (fst (createEventFrame
       \<lparr>sv_event = EvRunStatus, sv_payload = Some (JObj [(''runId'', JStr ''run-1''), (''sessionKey'', JNull),
          (''status'', JStr ''completed''), (''phase'', JStr ''end''), (''ts'', js_int 5)]),
        sv_seq = Some (Fin 1), sv_stateVersion = None\<rparr>
       \<lparr>bc_workspaceId = ''w'', bc_tenantId = None, bc_userId = None\<rparr> (Fin 0)))) createMockProductApiState = Inr t
     \<and> map_option run_status_of (im_getRunDetail ''run-1'' t) = Some Completed"
proof -
  let ?kvs = "[(''stream'', JStr ''lifecycle''), (''runId'', JStr ''run-1''), (''ts'', js_int 5),
      (''data'', JObj [(''phase'', JStr ''end'')])]"
  let ?f = "\<lparr>oe_event = Some ''agent'', oe_seq = Some (Fin 1), oe_payload = Some (JObj ?kvs), oe_stateVersion = None\<rparr>"
  let ?sv = "\<lparr>sv_event = EvRunStatus, sv_payload = Some (JObj [(''runId'', JStr ''run-1''), (''sessionKey'', JNull),
      (''status'', JStr ''completed''), (''phase'', JStr ''end''), (''ts'', js_int 5)]),
      sv_seq = Some (Fin 1), sv_stateVersion = None\<rparr>"
  let ?c = "\<lparr>bc_workspaceId = ''w'', bc_tenantId = None, bc_userId = None\<rparr>"
  let ?m = "mirrorRealtimeEvent im_repo (\<lambda>_. 0) MRunStatus (ef_payload (fst (createEventFrame ?sv ?c (Fin 0))))
      createMockProductApiState"
  have ph: "lifecycle_phase (JObj ?kvs) = Some ''end''" by (simp add: lifecycle_phase_def)
  have run: "normalizeRunStatusPayload (\<lambda>_. 0) (JObj ?kvs) = Some (the (sv_payload ?sv))"
    by (simp only: normalizeRunStatusPayload_def ph) (simp add: lifecycle_status_def str_or_null_def)
  have "normalize_agent (\<lambda>_. 0) ?f = Inr [?sv]"
    unfolding normalize_agent_def Let_def openclaw_event.select_convs option.sel run
    by (simp add: source_event_of_def)
  then have n: "normalizeOpenClawEvent (\<lambda>_. 0) ?f = Inr [?sv]"
    by (simp add: normalizeOpenClawEvent_def)
  obtain q where q: "ef_payload (fst (createEventFrame ?sv ?c (Fin 0))) = Some (JObj q)"
      "stringField (JObj q) [''runId'', ''id''] = Some ''run-1''"
    by (simp add: createEventFrame_def Let_def injectContext_def context_fields_def put_text_def
        obj_spread_def stringField.simps trim_eval)
  have known: "im_getRunDetail ''run-1'' createMockProductApiState \<noteq> None"
    by (simp add: im_getRunDetail_def mock_defs)
  have "?m \<noteq> Inl e" for e
    unfolding q(1) mirrorRealtimeEvent_def
    by (auto simp: q(2) isRecord_def mirror_run_status_def mirrorRun_error_iff known)
  then obtain t where t: "?m = Inr t" by (cases ?m) auto
  have "trim ''run-1'' \<noteq> []" by code_simp
  from lifecycle_reaches_product [OF _ _ _ _ this ph _ n t] t show ?thesis by auto
qed

end
