(* ===== verification/Effects.thy ===== *)
theory Effects
  imports Prelude "HOL-Library.Multiset"
begin

text \<open>
  Event handlers as state transformers that also emit effects, in order: what the code does to
  its own fields and what it does to the outside (sends, timers, settled promises).
\<close>

type_synonym ('s, 'e) act = "'s \<Rightarrow> 's \<times> 'e list"

definition skip :: "('s, 'e) act" where
  "skip s = (s, [])"

definition update :: "('s \<Rightarrow> 's) \<Rightarrow> ('s, 'e) act" where
  "update f s = (f s, [])"

definition emit :: "'e list \<Rightarrow> ('s, 'e) act" where
  "emit es s = (s, es)"

definition seq :: "('s, 'e) act \<Rightarrow> ('s, 'e) act \<Rightarrow> ('s, 'e) act" where
  "seq a b s = (let (s1, es1) = a s; (s2, es2) = b s1 in (s2, es1 @ es2))"

text \<open>A continuation that reads the state it starts in.\<close>

definition with_state :: "('s \<Rightarrow> ('s, 'e) act) \<Rightarrow> ('s, 'e) act" where
  "with_state k s = k s s"

primrec for_each :: "('a \<Rightarrow> ('s, 'e) act) \<Rightarrow> 'a list \<Rightarrow> ('s, 'e) act" where
  "for_each f [] = skip"
| "for_each f (x # xs) = seq (f x) (for_each f xs)"

definition act_all :: "('s, 'e) act list \<Rightarrow> ('s, 'e) act" where
  "act_all as = for_each (\<lambda>a. a) as"

lemma act_simps [simp]:
  "skip s = (s, [])" "update f s = (f s, [])" "emit es s = (s, es)"
  "with_state k s = k s s"
  "act_all [] = skip" "act_all (a # as) = seq a (act_all as)"
  by (simp_all add: skip_def update_def emit_def with_state_def act_all_def)

lemma fst_seq [simp]: "fst (seq a b s) = fst (b (fst (a s)))"
  by (simp add: seq_def split: prod.split)

lemma snd_seq [simp]: "snd (seq a b s) = snd (a s) @ snd (b (fst (a s)))"
  by (simp add: seq_def split: prod.split)

lemma seq_skip [simp]: "seq skip a = a" "seq a skip = a"
  by (simp_all add: fun_eq_iff seq_def split: prod.split)

lemma seq_update [simp]: "seq (update f) a s = a (f s)"
  by (simp add: seq_def split: prod.split)

section \<open>Conservation\<close>

text \<open>
  An account of obligations: \<open>owed s\<close> is what state \<open>s\<close> still has to answer, \<open>paid e\<close> what an
  effect answers. An action balances with \<open>new\<close> when it answers or keeps everything it owed
  and everything new, each exactly once.
\<close>

locale account =
  fixes owed :: "'s \<Rightarrow> 'k multiset" and paid :: "'e \<Rightarrow> 'k multiset"
begin

definition balanced :: "'k multiset \<Rightarrow> ('s, 'e) act \<Rightarrow> 's \<Rightarrow> bool" where
  "balanced new a s \<longleftrightarrow>
     owed (fst (a s)) + sum_list (map paid (snd (a s))) = owed s + new"

lemma balanced_skip [simp]: "balanced {#} skip s"
  by (simp add: balanced_def)

lemma balanced_update: "owed (f s) = owed s + new \<Longrightarrow> balanced new (update f) s"
  by (simp add: balanced_def)

lemma balanced_emit: "sum_list (map paid es) = new \<Longrightarrow> balanced new (emit es) s"
  by (simp add: balanced_def)

lemma balanced_seq:
  "balanced n1 a s \<Longrightarrow> balanced n2 b (fst (a s)) \<Longrightarrow> n1 + n2 = new \<Longrightarrow> balanced new (seq a b) s"
  by (auto simp: balanced_def ac_simps)

lemma balanced_with_state: "balanced new (k s) s \<Longrightarrow> balanced new (with_state k) s"
  by (simp add: balanced_def)

lemma balanced_for_each:
  assumes "\<And>x s. x \<in> set xs \<Longrightarrow> P s \<Longrightarrow> balanced (new x) (f x) s \<and> P (fst (f x s))" and "P s"
  shows "balanced (sum_list (map new xs)) (for_each f xs) s \<and> P (fst (for_each f xs s))"
  using assms
proof (induction xs arbitrary: s)
  case (Cons x xs)
  then have x: "balanced (new x) (f x) s" "P (fst (f x s))" by auto
  then have "balanced (sum_list (map new xs)) (for_each f xs) (fst (f x s))
      \<and> P (fst (for_each f xs (fst (f x s))))"
    using Cons by auto
  with x show ?case by (auto intro: balanced_seq)
qed simp

end

end
