(* ===== verification/GatewaySource.thy ===== *)
theory GatewaySource
  imports Adapter Effects
begin

text \<open>
  The connection of packages/openclaw-adapter/src/index.ts to the OpenClaw gateway
  (\<open>OpenClawGatewaySource\<close>): one handler per method and per callback of the socket and of the
  timers. Sockets, reconnect timers and calls from outside are numbered. A promise's
  continuations run before the next event, so they are part of the step that settles it; a
  rejection nobody handles is an effect of its own. The random part of a request id comes with
  the event, and the configured URL is one that \<open>WebSocket\<close> accepts.
\<close>

section \<open>State\<close>

datatype ready_state = Connecting | OpenState | Closing | ClosedState

datatype promise_state = PPending | PResolved jsval | PRejected js_error

text \<open>Who awaits a request: a call from outside, the connect of a socket, or nobody.\<close>

datatype caller = External nat | ConnectCall nat | SubscribeCall

text \<open>What runs on after \<open>ensureConnected\<close>: nothing, a request, or reading the snapshot.\<close>

datatype waiter = WBackground | WRequest nat string jsval string | WSnapshot nat

datatype gs_effect =
    OpenSocket nat string
  | SendJson nat json
  | CloseSocket nat
  | StartTimer string int
  | ClearTimer string
  | StartReconnect nat int
  | ClearReconnect nat
  | EmitTo nat source_event
  | Settle nat "js_error + jsval"
  | Unhandled js_error

record gs_state =
  gs_socket :: "nat option"
  gs_ready :: "nat \<Rightarrow> ready_state"
  gs_hello :: jsval
  gs_connectPromise :: "nat option"
  gs_promise :: "nat \<Rightarrow> promise_state"
  gs_waiters :: "(nat \<times> waiter) list"
  gs_stopped :: bool
  gs_connectSent :: bool
  gs_connectRequestId :: "string option"
  gs_reconnectTimer :: "nat option"
  gs_timers :: "nat list"
  gs_pending :: "(string \<times> string \<times> caller) list"
  gs_listeners :: "nat list"
  gs_sockets :: nat
  gs_timerCount :: nat

type_synonym gs_act = "(gs_state, gs_effect) act"

definition new_source :: gs_state where
  "new_source = \<lparr>gs_socket = None, gs_ready = (\<lambda>_. Connecting), gs_hello = None,
     gs_connectPromise = None, gs_promise = (\<lambda>_. PPending), gs_waiters = [], gs_stopped = False,
     gs_connectSent = False, gs_connectRequestId = None, gs_reconnectTimer = None, gs_timers = [],
     gs_pending = [], gs_listeners = [], gs_sockets = 0, gs_timerCount = 0\<rparr>"

section \<open>Settling\<close>

fun waiter_error :: "js_error \<Rightarrow> waiter \<Rightarrow> gs_effect" where
  "waiter_error e WBackground = Unhandled e"
| "waiter_error e (WRequest k m p i) = Settle k (Inl e)"
| "waiter_error e (WSnapshot k) = Settle k (Inl e)"

definition waiters_of :: "nat \<Rightarrow> gs_state \<Rightarrow> waiter list" where
  "waiters_of n s = map snd (filter (\<lambda>w. fst w = n) (gs_waiters s))"

definition settled :: "nat \<Rightarrow> promise_state \<Rightarrow> gs_state \<Rightarrow> gs_state" where
  "settled n p s = s\<lparr>gs_promise := (gs_promise s)(n := p),
     gs_waiters := filter (\<lambda>w. fst w \<noteq> n) (gs_waiters s)\<rparr>"

definition reject_promise :: "nat \<Rightarrow> js_error \<Rightarrow> gs_act" where
  "reject_promise n e = with_state (\<lambda>s.
     if gs_promise s n = PPending
     then seq (update (settled n (PRejected e))) (emit (map (waiter_error e) (waiters_of n s)))
     else skip)"

text \<open>The closure \<open>fail\<close> of the n-th socket.\<close>

definition fail :: "nat \<Rightarrow> js_error \<Rightarrow> gs_act" where
  "fail n e = seq (update (\<lambda>s. s\<lparr>gs_connectPromise := None\<rparr>)) (reject_promise n e)"

fun settle_caller :: "caller \<Rightarrow> js_error + jsval \<Rightarrow> gs_act" where
  "settle_caller (External k) r = emit [Settle k r]"
| "settle_caller (ConnectCall n) (Inl e) = fail n e"
| "settle_caller (ConnectCall n) (Inr v) = skip"
| "settle_caller SubscribeCall (Inl e) = emit [Unhandled e]"
| "settle_caller SubscribeCall (Inr v) = skip"

section \<open>Requests\<close>

definition request_json :: "string \<Rightarrow> string \<Rightarrow> jsval \<Rightarrow> json" where
  "request_json i method payload = mk_obj
     [(''type'', Some (JStr ''req'')), (''id'', Some (JStr i)), (''method'', Some (JStr method)),
      (''params'', payload)]"

definition sendRequest :: "openclaw_config \<Rightarrow> string \<Rightarrow> jsval \<Rightarrow> string \<Rightarrow> caller \<Rightarrow> gs_act" where
  "sendRequest opts method payload i c = with_state (\<lambda>s.
     case gs_socket s of
       None \<Rightarrow> settle_caller c (Inl (PlainError ''openclaw gateway is not connected''))
     | Some n \<Rightarrow>
         if gs_ready s n \<noteq> OpenState
         then settle_caller c (Inl (PlainError ''openclaw gateway is not connected''))
         else seq (update (\<lambda>s. s\<lparr>gs_pending := AList.update i (method, c) (gs_pending s)\<rparr>))
                (emit [StartTimer i (nullish (oc_requestTimeoutMs opts) 30000),
                       SendJson n (request_json i method payload)]))"

definition snapshot_of :: "jsval \<Rightarrow> js_error + jsval" where
  "snapshot_of hello =
     (case hello of
        None \<Rightarrow> Inl (TypeError (''Cannot read properties of undefined (reading '' @ [CHR 0x27] @ ''snapshot'' @ [CHR 0x27] @ '')''))
      | Some JNull \<Rightarrow> Inl (TypeError (''Cannot read properties of null (reading '' @ [CHR 0x27] @ ''snapshot'' @ [CHR 0x27] @ '')''))
      | Some h \<Rightarrow> Inr (getp h ''snapshot''))"

fun waiter_ok :: "openclaw_config \<Rightarrow> jsval \<Rightarrow> waiter \<Rightarrow> gs_act" where
  "waiter_ok opts hello WBackground = skip"
| "waiter_ok opts hello (WRequest k m p i) = sendRequest opts m p i (External k)"
| "waiter_ok opts hello (WSnapshot k) = emit [Settle k (snapshot_of hello)]"

definition resolve_promise :: "openclaw_config \<Rightarrow> nat \<Rightarrow> jsval \<Rightarrow> gs_act" where
  "resolve_promise opts n hello = with_state (\<lambda>s.
     if gs_promise s n = PPending
     then seq (update (settled n (PResolved hello))) (for_each (waiter_ok opts hello) (waiters_of n s))
     else skip)"

section \<open>Connecting\<close>

definition is_open :: "gs_state \<Rightarrow> bool" where
  "is_open s = (case gs_socket s of None \<Rightarrow> False | Some n \<Rightarrow> gs_ready s n = OpenState)"

definition open_socket :: "waiter \<Rightarrow> gs_state \<Rightarrow> gs_state" where
  "open_socket w s = (let n = gs_sockets s in
     s\<lparr>gs_connectSent := False, gs_connectRequestId := None, gs_hello := None, gs_socket := Some n,
       gs_ready := (gs_ready s)(n := Connecting), gs_promise := (gs_promise s)(n := PPending),
       gs_connectPromise := Some n, gs_sockets := Suc n, gs_waiters := gs_waiters s @ [(n, w)]\<rparr>)"

definition ensureConnected :: "openclaw_config \<Rightarrow> waiter \<Rightarrow> gs_act" where
  "ensureConnected opts w = with_state (\<lambda>s.
     if truthy (gs_hello s) \<and> is_open s then waiter_ok opts (gs_hello s) w
     else case gs_connectPromise s of
         Some n \<Rightarrow>
           (case gs_promise s n of
              PPending \<Rightarrow> update (\<lambda>s. s\<lparr>gs_waiters := gs_waiters s @ [(n, w)]\<rparr>)
            | PResolved hello \<Rightarrow> waiter_ok opts hello w
            | PRejected e \<Rightarrow> emit [waiter_error e w])
       | None \<Rightarrow> seq (update (open_socket w)) (emit [OpenSocket (gs_sockets s) (oc_url opts)]))"

definition auth_json :: "openclaw_config \<Rightarrow> jsval" where
  "auth_json opts =
     (let fs = put_text ''password'' (oc_password opts) (put_text ''token'' (oc_token opts) [])
      in if fs = [] then None else Some (JObj fs))"

definition connect_payload :: "openclaw_config \<Rightarrow> json" where
  "connect_payload opts =
     (let protocol = js_int (nullish (oc_protocolVersion opts) 3); client = oc_client opts
      in mk_obj
       [(''minProtocol'', Some protocol), (''maxProtocol'', Some protocol),
        (''client'', Some (mk_obj
           [(''id'', Some (JStr (nullish (ci_id client) ''gateway-client''))),
            (''displayName'', Some (JStr (nullish (ci_displayName client) ''Vertx Realtime Bridge''))),
            (''version'', Some (JStr (nullish (ci_version client) ''0.1.0''))),
            (''platform'', Some (JStr (nullish (ci_platform client) ''vertx''))),
            (''mode'', Some (JStr (nullish (ci_mode client) ''backend''))),
            (''instanceId'', map_option JStr (ci_instanceId client))])),
        (''role'', Some (JStr (nullish (oc_role opts) ''operator''))),
        (''scopes'', Some (strings_json (nullish (oc_scopes opts)
           [''operator.read'', ''operator.write'', ''operator.approvals'']))),
        (''caps'', Some (strings_json (nullish (oc_caps opts) [''tool-events'']))),
        (''auth'', auth_json opts)])"

definition sendConnectRequest :: "openclaw_config \<Rightarrow> string \<Rightarrow> nat \<Rightarrow> gs_act" where
  "sendConnectRequest opts uuid n = with_state (\<lambda>s.
     if gs_connectSent s then skip
     else seq (update (\<lambda>s. s\<lparr>gs_connectSent := True, gs_connectRequestId := Some (''connect:'' @ uuid)\<rparr>))
            (sendRequest opts ''connect'' (Some (connect_payload opts)) (''connect:'' @ uuid) (ConnectCall n)))"

section \<open>Messages\<close>

definition decode_event :: "json \<Rightarrow> openclaw_event" where
  "decode_event p = \<lparr>oe_event = as_str (getp p ''event''),
     oe_seq = (case getp p ''seq'' of Some (JNum x) \<Rightarrow> Some x | _ \<Rightarrow> None),
     oe_payload = getp p ''payload'', oe_stateVersion = getp p ''stateVersion''\<rparr>"

definition forward_event :: "clock \<Rightarrow> openclaw_event \<Rightarrow> gs_act" where
  "forward_event clk f = with_state (\<lambda>s.
     case normalizeOpenClawEvent clk f of
       Inl e \<Rightarrow> emit [Unhandled e]
     | Inr svs \<Rightarrow> emit (concat (map (\<lambda>sv. map (\<lambda>l. EmitTo l sv) (gs_listeners s)) svs)))"

definition response_failure :: "json \<Rightarrow> string \<Rightarrow> js_error" where
  "response_failure p method =
     (let err = getp p ''error'';
          msg = (case err of None \<Rightarrow> None | Some JNull \<Rightarrow> None | Some e \<Rightarrow> getp e ''message'')
      in PlainError (js_to_string
           (the (js_nullish msg (Some (JStr (''openclaw request failed: '' @ method)))))))"

definition connected :: "openclaw_config \<Rightarrow> nat \<Rightarrow> jsval \<Rightarrow> caller \<Rightarrow> string \<Rightarrow> gs_act" where
  "connected opts n hello c uuid =
     seq (update (\<lambda>s. s\<lparr>gs_hello := hello\<rparr>))
       (seq (settle_caller c (Inr hello))
         (seq (if oc_autoSubscribeSessions opts = Some False then skip
               else sendRequest opts ''sessions.subscribe'' (Some (JObj []))
                      (''sessions.subscribe:'' @ uuid) SubscribeCall)
           (resolve_promise opts n hello)))"

definition handle_response :: "openclaw_config \<Rightarrow> nat \<Rightarrow> json \<Rightarrow> string \<Rightarrow> gs_act" where
  "handle_response opts n p uuid = with_state (\<lambda>s.
     case as_str (getp p ''id'') of
       None \<Rightarrow> skip
     | Some i \<Rightarrow>
         (case map_of (gs_pending s) i of
            None \<Rightarrow> skip
          | Some (method, c) \<Rightarrow>
              seq (update (\<lambda>s. s\<lparr>gs_pending := AList.delete i (gs_pending s)\<rparr>))
                (seq (emit [ClearTimer i])
                  (if \<not> truthy (getp p ''ok'')
                   then (if gs_connectRequestId s = Some i then fail n (response_failure p method)
                         else settle_caller c (Inl (response_failure p method)))
                   else if gs_connectRequestId s = Some i
                   then connected opts n (getp p ''payload'') c uuid
                   else settle_caller c (Inr (getp p ''payload''))))))"

definition handleMessage :: "openclaw_config \<Rightarrow> clock \<Rightarrow> nat \<Rightarrow> json option \<Rightarrow> string \<Rightarrow> gs_act" where
  "handleMessage opts clk n parsed uuid =
     (case parsed of
        None \<Rightarrow> skip
      | Some p \<Rightarrow>
          if \<not> is_object parsed then skip
          else if getp p ''type'' = Some (JStr ''event'')
          then (if getp p ''event'' = Some (JStr ''connect.challenge'')
                then sendConnectRequest opts uuid n
                else forward_event clk (decode_event p))
          else if getp p ''type'' \<noteq> Some (JStr ''res'') then skip
          else handle_response opts n p uuid)"

section \<open>Steps\<close>

datatype gs_event =
    Subscribe nat
  | Unsubscribe nat
  | Request nat string jsval string
  | GetSnapshot nat
  | CloseSource
  | SocketOpened nat
  | SocketMessage nat "json option" string
  | SocketError nat js_error
  | SocketClosed nat
  | RequestTimer string
  | ReconnectTimer nat

definition close_source :: gs_act where
  "close_source = with_state (\<lambda>s.
     act_all
       [update (\<lambda>s. s\<lparr>gs_stopped := True, gs_reconnectTimer := None, gs_pending := [], gs_socket := None,
          gs_timers := (case gs_reconnectTimer s of None \<Rightarrow> gs_timers s
                          | Some t \<Rightarrow> filter (\<lambda>x. x \<noteq> t) (gs_timers s)),
          gs_ready := (case gs_socket s of None \<Rightarrow> gs_ready s
                         | Some n \<Rightarrow> (gs_ready s)(n := Closing))\<rparr>),
        emit ((case gs_reconnectTimer s of None \<Rightarrow> [] | Some t \<Rightarrow> [ClearReconnect t])
              @ map (\<lambda>e. ClearTimer (fst e)) (gs_pending s)
              @ (case gs_socket s of None \<Rightarrow> [] | Some n \<Rightarrow> [CloseSocket n])),
        for_each (\<lambda>e. settle_caller (snd (snd e)) (Inl (PlainError ''openclaw gateway source closed'')))
          (gs_pending s)])"

definition socket_closed :: "openclaw_config \<Rightarrow> nat \<Rightarrow> gs_act" where
  "socket_closed opts n = seq
     (update (\<lambda>s. s\<lparr>gs_ready := (gs_ready s)(n := ClosedState), gs_socket := None,
        gs_connectPromise := None, gs_hello := None\<rparr>))
     (with_state (\<lambda>s.
        if gs_stopped s \<or> gs_listeners s = [] then skip
        else (let t = gs_timerCount s in
          seq (update (\<lambda>s. s\<lparr>gs_reconnectTimer := Some t, gs_timers := gs_timers s @ [t],
                 gs_timerCount := Suc t\<rparr>))
              (emit [StartReconnect t (nullish (oc_reconnectDelayMs opts) 1000)]))))"

definition request_timed_out :: "string \<Rightarrow> gs_act" where
  "request_timed_out i = with_state (\<lambda>s.
     case map_of (gs_pending s) i of
       None \<Rightarrow> skip
     | Some (method, c) \<Rightarrow>
         seq (update (\<lambda>s. s\<lparr>gs_pending := AList.delete i (gs_pending s)\<rparr>))
           (settle_caller c (Inl (PlainError (''openclaw request timed out: '' @ method)))))"

definition reconnect_fired :: "openclaw_config \<Rightarrow> nat \<Rightarrow> gs_act" where
  "reconnect_fired opts t = with_state (\<lambda>s.
     if t \<notin> set (gs_timers s) then skip
     else seq (update (\<lambda>s. s\<lparr>gs_timers := filter (\<lambda>x. x \<noteq> t) (gs_timers s), gs_reconnectTimer := None\<rparr>))
            (ensureConnected opts WBackground))"

fun gs_step :: "openclaw_config \<Rightarrow> clock \<Rightarrow> gs_event \<Rightarrow> gs_act" where
  "gs_step opts clk (Subscribe l) =
     seq (update (\<lambda>s. s\<lparr>gs_listeners := (if l \<in> set (gs_listeners s) then gs_listeners s
                                        else gs_listeners s @ [l])\<rparr>))
       (ensureConnected opts WBackground)"
| "gs_step opts clk (Unsubscribe l) =
     update (\<lambda>s. s\<lparr>gs_listeners := filter (\<lambda>x. x \<noteq> l) (gs_listeners s)\<rparr>)"
| "gs_step opts clk (Request k method payload uuid) =
     ensureConnected opts (WRequest k method payload (method @ '':'' @ uuid))"
| "gs_step opts clk (GetSnapshot k) = ensureConnected opts (WSnapshot k)"
| "gs_step opts clk CloseSource = close_source"
| "gs_step opts clk (SocketOpened n) = update (\<lambda>s. s\<lparr>gs_ready := (gs_ready s)(n := OpenState)\<rparr>)"
| "gs_step opts clk (SocketMessage n parsed uuid) = handleMessage opts clk n parsed uuid"
| "gs_step opts clk (SocketError n e) = fail n e"
| "gs_step opts clk (SocketClosed n) = socket_closed opts n"
| "gs_step opts clk (RequestTimer i) = request_timed_out i"
| "gs_step opts clk (ReconnectTimer t) = reconnect_fired opts t"

definition gs_run :: "openclaw_config \<Rightarrow> clock \<Rightarrow> gs_event list \<Rightarrow> gs_act" where
  "gs_run opts clk evs = for_each (gs_step opts clk) evs"

section \<open>Calls are answered once\<close>

fun waiter_calls :: "waiter \<Rightarrow> nat multiset" where
  "waiter_calls WBackground = {#}"
| "waiter_calls (WRequest k m p i) = {#k#}"
| "waiter_calls (WSnapshot k) = {#k#}"

fun waiter_ids :: "waiter \<Rightarrow> string list" where
  "waiter_ids (WRequest k m p i) = [i]"
| "waiter_ids _ = []"

fun caller_calls :: "caller \<Rightarrow> nat multiset" where
  "caller_calls (External k) = {#k#}"
| "caller_calls _ = {#}"

text \<open>The calls from outside that are still open, and those an effect answers.\<close>

definition open_calls :: "gs_state \<Rightarrow> nat multiset" where
  "open_calls s = (\<Sum>w\<leftarrow>gs_waiters s. waiter_calls (snd w)) + (\<Sum>e\<leftarrow>gs_pending s. caller_calls (snd (snd e)))"

fun answered_calls :: "gs_effect \<Rightarrow> nat multiset" where
  "answered_calls (Settle k r) = {#k#}"
| "answered_calls _ = {#}"

fun new_calls :: "gs_event \<Rightarrow> nat multiset" where
  "new_calls (Request k m p u) = {#k#}"
| "new_calls (GetSnapshot k) = {#k#}"
| "new_calls _ = {#}"

text \<open>The request ids in use, and those an event may introduce.\<close>

definition gs_ids :: "gs_state \<Rightarrow> string list" where
  "gs_ids s = map fst (gs_pending s) @ concat (map (\<lambda>w. waiter_ids (snd w)) (gs_waiters s))"

fun event_ids :: "gs_event \<Rightarrow> string list" where
  "event_ids (Request k m p u) = [m @ '':'' @ u]"
| "event_ids (SocketMessage n p u) = [''connect:'' @ u, ''sessions.subscribe:'' @ u]"
| "event_ids _ = []"

interpretation calls: account open_calls answered_calls
  by unfold_locales

text \<open>The ids of calls from outside; a connect request must not have one of them.\<close>

definition call_ids :: "gs_state \<Rightarrow> string list" where
  "call_ids s = map fst (filter (\<lambda>e. caller_calls (snd (snd e)) \<noteq> {#}) (gs_pending s))
     @ concat (map (\<lambda>w. waiter_ids (snd w)) (gs_waiters s))"

fun caller_ids :: "string \<Rightarrow> caller \<Rightarrow> string list" where
  "caller_ids i (External k) = [i]"
| "caller_ids i _ = []"

text \<open>
  An action is sound with new ids \<open>is\<close>, of which \<open>xs\<close> belong to calls, when on a state whose ids
  are distinct and fresh for \<open>is\<close> it balances, keeps the ids distinct, adds no other id, and
  leaves the id of the connect request alone or forgets it.
\<close>

definition sound :: "nat multiset \<Rightarrow> string list \<Rightarrow> string list \<Rightarrow> gs_act \<Rightarrow> gs_state \<Rightarrow> bool" where
  "sound new is xs a s \<longleftrightarrow> (distinct (is @ gs_ids s) \<longrightarrow>
     calls.balanced new a s
     \<and> distinct (gs_ids (fst (a s))) \<and> set (gs_ids (fst (a s))) \<subseteq> set is \<union> set (gs_ids s)
     \<and> set (call_ids (fst (a s))) \<subseteq> set xs \<union> set (call_ids s)
     \<and> gs_connectRequestId (fst (a s)) \<in> {None, gs_connectRequestId s})"

lemma sound_seq:
  assumes a: "sound n1 i1 x1 a s" and b: "sound n2 i2 x2 b (fst (a s))"
  shows "sound (n1 + n2) (i1 @ i2) (x1 @ x2) (seq a b) s"
proof (unfold sound_def, intro impI)
  assume d: "distinct ((i1 @ i2) @ gs_ids s)"
  then have a': "calls.balanced n1 a s"
      "distinct (gs_ids (fst (a s)))" "set (gs_ids (fst (a s))) \<subseteq> set i1 \<union> set (gs_ids s)"
      "set (call_ids (fst (a s))) \<subseteq> set x1 \<union> set (call_ids s)"
      "gs_connectRequestId (fst (a s)) \<in> {None, gs_connectRequestId s}"
    using a by (auto simp: sound_def)
  with d have "distinct (i2 @ gs_ids (fst (a s)))" by auto
  with b have b': "calls.balanced n2 b (fst (a s))"
      "distinct (gs_ids (fst (b (fst (a s)))))"
      "set (gs_ids (fst (b (fst (a s))))) \<subseteq> set i2 \<union> set (gs_ids (fst (a s)))"
      "set (call_ids (fst (b (fst (a s))))) \<subseteq> set x2 \<union> set (call_ids (fst (a s)))"
      "gs_connectRequestId (fst (b (fst (a s)))) \<in> {None, gs_connectRequestId (fst (a s))}"
    by (auto simp: sound_def)
  show "calls.balanced (n1 + n2) (seq a b) s
      \<and> distinct (gs_ids (fst (seq a b s)))
      \<and> set (gs_ids (fst (seq a b s))) \<subseteq> set (i1 @ i2) \<union> set (gs_ids s)
      \<and> set (call_ids (fst (seq a b s))) \<subseteq> set (x1 @ x2) \<union> set (call_ids s)
      \<and> gs_connectRequestId (fst (seq a b s)) \<in> {None, gs_connectRequestId s}"
    using calls.balanced_seq [OF a'(1) b'(1)] a'(3-5) b'(2-5) by auto
qed

lemma sound_seq_quiet: "sound {#} [] [] a s \<Longrightarrow> sound n is xs b (fst (a s)) \<Longrightarrow> sound n is xs (seq a b) s"
  using sound_seq [of "{#}" "[]" "[]" a s n "is" xs b] by simp

lemma sound_seq_done: "sound n is xs a s \<Longrightarrow> sound {#} [] [] b (fst (a s)) \<Longrightarrow> sound n is xs (seq a b) s"
  using sound_seq [of n "is" xs a s "{#}" "[]" "[]" b] by simp

lemma sound_weaken:
  "sound n is xs a s \<Longrightarrow> (distinct js \<Longrightarrow> distinct is) \<Longrightarrow> set is \<subseteq> set js \<Longrightarrow> set xs \<subseteq> set ys \<Longrightarrow> sound n js ys a s"
  by (auto simp: sound_def)

lemma sound_quiet: "sound n [] [] a s \<Longrightarrow> sound n is xs a s"
  by (erule sound_weaken) simp_all

lemma sound_skip [simp]: "sound {#} is xs skip s"
  by (simp add: sound_def)

lemma sound_emit [simp]: "sum_list (map answered_calls es) = n \<Longrightarrow> sound n is xs (emit es) s"
  by (simp add: sound_def calls.balanced_emit)

lemma sound_update [simp]:
  "gs_pending (f s) = gs_pending s \<Longrightarrow> gs_waiters (f s) = gs_waiters s \<Longrightarrow>
   gs_connectRequestId (f s) = gs_connectRequestId s \<Longrightarrow> sound {#} is xs (update f) s"
  by (simp add: sound_def calls.balanced_def open_calls_def gs_ids_def call_ids_def)

lemma sound_with_state: "sound n is xs (k s) s \<Longrightarrow> sound n is xs (with_state k) s"
  by (simp add: sound_def calls.balanced_def)

lemma answered_waiters: "sum_list (map (answered_calls \<circ> waiter_error e) ws) = (\<Sum>w\<leftarrow>ws. waiter_calls w)"
proof -
  have "answered_calls (waiter_error e w) = waiter_calls w" for w by (cases w) simp_all
  then show ?thesis by (simp add: comp_def)
qed

lemma split_waiters:
  "(\<Sum>w\<leftarrow>filter (\<lambda>w. fst w \<noteq> n) ws. waiter_calls (snd w)) + (\<Sum>w\<leftarrow>filter (\<lambda>w. fst w = n) ws. waiter_calls (snd w))
     = (\<Sum>w\<leftarrow>ws. waiter_calls (snd w))"
  by (induction ws) auto

lemma settled_calls:
  "open_calls (settled n p s) + (\<Sum>w\<leftarrow>waiters_of n s. waiter_calls w) = open_calls s"
  using split_waiters [of n "gs_waiters s"]
  by (simp add: open_calls_def settled_def waiters_of_def comp_def ac_simps)

lemma settled_ids:
  assumes "distinct (gs_ids s)"
  shows "distinct (concat (map waiter_ids (waiters_of n s)) @ gs_ids (settled n p s))"
    and "set (gs_ids (settled n p s)) \<subseteq> set (gs_ids s)"
    and "set (call_ids (settled n p s)) \<subseteq> set (call_ids s)"
    and "set (concat (map waiter_ids (waiters_of n s))) \<subseteq> set (gs_ids s)"
    and "set (concat (map waiter_ids (waiters_of n s))) \<subseteq> set (call_ids s)"
    and "gs_connectRequestId (settled n p s) = gs_connectRequestId s"
proof -
  have "distinct (concat (map (\<lambda>w. waiter_ids (snd w)) ws)) \<Longrightarrow>
      distinct (concat (map (\<lambda>w. waiter_ids (snd w)) (filter (\<lambda>w. fst w = n) ws))
        @ concat (map (\<lambda>w. waiter_ids (snd w)) (filter (\<lambda>w. fst w \<noteq> n) ws)))" for ws :: "(nat \<times> waiter) list"
    by (induction ws) auto
  from this [of "gs_waiters s"] assms
  show "distinct (concat (map waiter_ids (waiters_of n s)) @ gs_ids (settled n p s))"
    by (auto simp: gs_ids_def settled_def waiters_of_def comp_def)
qed (auto simp: gs_ids_def call_ids_def settled_def waiters_of_def)

lemma sound_reject: "sound {#} [] [] (reject_promise n e) s"
proof (cases "gs_promise s n = PPending")
  case True
  show ?thesis
    using settled_calls [of n "PRejected e" s] settled_ids(1-3,6) [of s n "PRejected e"] True
    by (auto simp: reject_promise_def sound_def calls.balanced_def answered_waiters)
qed (simp add: reject_promise_def sound_def calls.balanced_def)

lemma sound_fail: "sound {#} is xs (fail n e) s"
  unfolding fail_def by (rule sound_quiet, rule sound_seq_quiet) (simp_all add: sound_reject)

lemma sound_settle: "sound (caller_calls c) is xs (settle_caller c r) s"
  by (cases "(c, r)" rule: settle_caller.cases) (simp_all add: sound_fail)

lemma update_append: "k \<notin> fst ` set al \<Longrightarrow> AList.update k v al = al @ [(k, v)]"
  by (induction al) auto

lemma sound_sendRequest: "sound (caller_calls c) [i] (caller_ids i c) (sendRequest opts m p i c) s"
proof (cases "is_open s")
  case False
  then show ?thesis
    by (auto simp: sendRequest_def is_open_def intro!: sound_with_state sound_settle split: option.splits)
next
  case True
  then obtain n where n: "gs_socket s = Some n" "gs_ready s n = OpenState"
    by (auto simp: is_open_def split: option.splits)
  let ?f = "\<lambda>s. s\<lparr>gs_pending := AList.update i (m, c) (gs_pending s)\<rparr>"
  have "sound (caller_calls c) [i] (caller_ids i c) (update ?f) s"
  proof (unfold sound_def, intro impI)
    assume "distinct ([i] @ gs_ids s)"
    then have i: "i \<notin> fst ` set (gs_pending s)" and d: "i \<notin> set (gs_ids s)" "distinct (gs_ids s)"
      by (auto simp: gs_ids_def)
    then show "calls.balanced (caller_calls c) (update ?f) s \<and> distinct (gs_ids (fst (update ?f s)))
        \<and> set (gs_ids (fst (update ?f s))) \<subseteq> set [i] \<union> set (gs_ids s)
        \<and> set (call_ids (fst (update ?f s))) \<subseteq> set (caller_ids i c) \<union> set (call_ids s)
        \<and> gs_connectRequestId (fst (update ?f s)) \<in> {None, gs_connectRequestId s}"
      by (cases c) (auto simp: update_append calls.balanced_def open_calls_def gs_ids_def call_ids_def ac_simps)
  qed
  then show ?thesis
    unfolding sendRequest_def using n by (auto intro!: sound_with_state sound_seq_done)
qed

lemma sound_waiter_ok: "sound (waiter_calls w) (waiter_ids w) (waiter_ids w) (waiter_ok opts h w) s"
proof (cases w)
  case (WRequest k m p i)
  then show ?thesis using sound_sendRequest [of "External k" i opts m p s] by simp
qed simp_all

lemma sound_waiters_ok:
  "sound (\<Sum>w\<leftarrow>ws. waiter_calls w) (concat (map waiter_ids ws)) (concat (map waiter_ids ws))
     (for_each (waiter_ok opts h) ws) s"
  by (induction ws arbitrary: s) (auto intro!: sound_seq sound_waiter_ok)

lemma sound_resolve: "sound {#} [] [] (resolve_promise opts n h) s"
proof (cases "gs_promise s n = PPending")
  case True
  let ?t = "settled n (PResolved h) s" and ?ws = "waiters_of n s"
  show ?thesis
  proof (unfold sound_def, intro impI)
    assume "distinct ([] @ gs_ids s)"
    then have d: "distinct (gs_ids s)" by simp
    note ids = settled_ids(1-3,6) [OF d, of n "PResolved h"] settled_ids(4,5) [OF d, of n]
    have "sound (\<Sum>w\<leftarrow>?ws. waiter_calls w) (concat (map waiter_ids ?ws)) (concat (map waiter_ids ?ws))
        (for_each (waiter_ok opts h) ?ws) ?t"
      by (rule sound_waiters_ok)
    note w = this [unfolded sound_def, rule_format, OF ids(1)]
    then have bal: "calls.balanced {#} (resolve_promise opts n h) s"
      using settled_calls [of n "PResolved h" s] True
      by (auto simp: resolve_promise_def calls.balanced_def ac_simps)
    have r: "fst (resolve_promise opts n h s) = fst (for_each (waiter_ok opts h) ?ws ?t)"
      using True by (simp add: resolve_promise_def)
    show "calls.balanced {#} (resolve_promise opts n h) s
        \<and> distinct (gs_ids (fst (resolve_promise opts n h s)))
        \<and> set (gs_ids (fst (resolve_promise opts n h s))) \<subseteq> set [] \<union> set (gs_ids s)
        \<and> set (call_ids (fst (resolve_promise opts n h s))) \<subseteq> set [] \<union> set (call_ids s)
        \<and> gs_connectRequestId (fst (resolve_promise opts n h s)) \<in> {None, gs_connectRequestId s}"
      unfolding r using bal w ids(2-6) by (intro conjI) (simp_all, blast+)
  qed
qed (simp add: resolve_promise_def sound_def calls.balanced_def)

lemma sound_ensureConnected: "sound (waiter_calls w) (waiter_ids w) (waiter_ids w) (ensureConnected opts w) s"
proof -
  have wait: "sound (waiter_calls w) (waiter_ids w) (waiter_ids w) (update (\<lambda>s. s\<lparr>gs_waiters := gs_waiters s @ [(n, w)]\<rparr>)) s" for n
    by (auto simp: sound_def calls.balanced_def open_calls_def gs_ids_def call_ids_def ac_simps)
  have fresh_socket: "sound (waiter_calls w) (waiter_ids w) (waiter_ids w) (update (open_socket w)) s"
    by (auto simp: sound_def calls.balanced_def open_calls_def gs_ids_def call_ids_def open_socket_def
        Let_def ac_simps)
  have err: "answered_calls (waiter_error e w) = waiter_calls w" for e by (cases w) simp_all
  show ?thesis
    unfolding ensureConnected_def
    by (auto intro!: sound_with_state sound_waiter_ok wait sound_seq_done [OF fresh_socket] simp: err
        split: option.split promise_state.split)
qed

lemma delete_pending:
  assumes "map_of ps i = Some (m, c)" and "distinct (map fst ps)"
  shows "(\<Sum>e\<leftarrow>AList.delete i ps. caller_calls (snd (snd e))) + caller_calls c
    = (\<Sum>e\<leftarrow>ps. caller_calls (snd (snd e)))"
  using assms
proof (induction ps)
  case (Cons p ps)
  show ?case
  proof (cases "fst p = i")
    case True
    with Cons.prems(2) have "i \<notin> fst ` set ps" by auto
    then have "AList.delete i ps = ps" by (simp add: AList.delete_idem)
    with True Cons.prems(1) show ?thesis by (cases p) (simp add: ac_simps)
  next
    case False
    with Cons show ?thesis by (cases p) (simp add: ac_simps)
  qed
qed simp

text \<open>Taking a request out of the table leaves its call to whatever comes next.\<close>

lemma sound_take:
  assumes c: "map_of (gs_pending s) i = Some (m, c)"
    and a: "sound (caller_calls c) is xs a (s\<lparr>gs_pending := AList.delete i (gs_pending s)\<rparr>)"
  shows "sound {#} is xs (seq (update (\<lambda>s. s\<lparr>gs_pending := AList.delete i (gs_pending s)\<rparr>)) a) s"
proof (unfold sound_def, intro impI)
  let ?t = "s\<lparr>gs_pending := AList.delete i (gs_pending s)\<rparr>"
  assume d: "distinct (is @ gs_ids s)"
  then have "distinct (map fst (gs_pending s))" by (simp add: gs_ids_def)
  with c have oc: "open_calls ?t + caller_calls c = open_calls s"
    using delete_pending by (force simp: open_calls_def ac_simps)
  have sub: "set (gs_ids ?t) \<subseteq> set (gs_ids s)" "set (call_ids ?t) \<subseteq> set (call_ids s)"
    by (auto simp: gs_ids_def call_ids_def AList.delete_eq)
  have "distinct (gs_ids ?t)"
    using d by (auto simp: gs_ids_def AList.delete_eq distinct_map_filter)
  with d sub(1) have "distinct (is @ gs_ids ?t)" by auto
  note r = a [unfolded sound_def, rule_format, OF this]
  show "calls.balanced {#} (seq (update (\<lambda>s. s\<lparr>gs_pending := AList.delete i (gs_pending s)\<rparr>)) a) s
      \<and> distinct (gs_ids (fst (seq (update (\<lambda>s. s\<lparr>gs_pending := AList.delete i (gs_pending s)\<rparr>)) a s)))
      \<and> set (gs_ids (fst (seq (update (\<lambda>s. s\<lparr>gs_pending := AList.delete i (gs_pending s)\<rparr>)) a s)))
          \<subseteq> set is \<union> set (gs_ids s)
      \<and> set (call_ids (fst (seq (update (\<lambda>s. s\<lparr>gs_pending := AList.delete i (gs_pending s)\<rparr>)) a s)))
          \<subseteq> set xs \<union> set (call_ids s)
      \<and> gs_connectRequestId (fst (seq (update (\<lambda>s. s\<lparr>gs_pending := AList.delete i (gs_pending s)\<rparr>)) a s))
          \<in> {None, gs_connectRequestId s}"
    using r oc sub unfolding calls.balanced_def seq_update by (intro conjI) (auto simp: ac_simps)
qed

lemma call_id_external: "map_of (gs_pending s) i = Some (m, c) \<Longrightarrow> i \<notin> set (call_ids s) \<Longrightarrow> caller_calls c = {#}"
  by (force simp: call_ids_def dest: map_of_SomeD)

definition connect_ok :: "gs_state \<Rightarrow> bool" where
  "connect_ok s \<longleftrightarrow> (\<forall>i. gs_connectRequestId s = Some i \<longrightarrow> i \<notin> set (call_ids s))"

lemma sound_subscribe:
  "sound {#} [i] [] (sendRequest opts m p i SubscribeCall) s"
  "sound {#} [i] [] (sendRequest opts m p i (ConnectCall n)) s"
  using sound_sendRequest [of SubscribeCall i opts m p s] sound_sendRequest [of "ConnectCall n" i opts m p s]
  by simp_all

lemma sound_connected:
  assumes "caller_calls c = {#}"
  shows "sound {#} [''sessions.subscribe:'' @ u] [] (connected opts n h c u) s"
proof -
  have quiet: "sound {#} [] [] (settle_caller c r) s'" for r s'
    using sound_settle [of c "[]" "[]" r s'] assms by simp
  show ?thesis
    unfolding connected_def
    by (rule sound_seq_quiet, simp, rule sound_seq_quiet [OF quiet], rule sound_seq_done [OF _ sound_resolve])
       (simp only: sound_skip sound_subscribe simp_thms split: if_split)
qed

lemma sound_response:
  assumes "connect_ok s"
  shows "sound {#} [''sessions.subscribe:'' @ u] [] (handle_response opts n p u) s"
proof (cases "as_str (getp p ''id'')")
  case None
  then show ?thesis by (simp add: handle_response_def sound_with_state)
next
  case (Some i)
  show ?thesis
  proof (cases "map_of (gs_pending s) i")
    case None
    with Some show ?thesis by (simp add: handle_response_def sound_with_state)
  next
    case (Some e)
    then obtain m c where c: "map_of (gs_pending s) i = Some (m, c)" by (cases e) auto
    have conn: "gs_connectRequestId s = Some i \<Longrightarrow> caller_calls c = {#}"
      using assms c by (auto simp: connect_ok_def intro: call_id_external)
    show ?thesis
      unfolding handle_response_def
      by (rule sound_with_state, simp only: \<open>as_str (getp p ''id'') = Some i\<close> c option.case prod.case,
          rule sound_take [OF c], rule sound_seq_quiet, simp)
         (simp add: sound_settle sound_fail sound_connected conn del: append_Cons)
  qed
qed

lemma sound_close: "sound {#} [] [] close_source s"
proof -
  let ?f = "\<lambda>s. s\<lparr>gs_stopped := True, gs_reconnectTimer := None, gs_pending := [], gs_socket := None,
      gs_timers := (case gs_reconnectTimer s of None \<Rightarrow> gs_timers s
                      | Some t \<Rightarrow> filter (\<lambda>x. x \<noteq> t) (gs_timers s)),
      gs_ready := (case gs_socket s of None \<Rightarrow> gs_ready s | Some n \<Rightarrow> (gs_ready s)(n := Closing))\<rparr>"
  let ?g = "\<lambda>e. settle_caller (snd (snd e)) (Inl (PlainError ''openclaw gateway source closed'')) :: gs_act"
  have all: "sound (\<Sum>e\<leftarrow>ps. caller_calls (snd (snd e))) [] [] (for_each ?g ps) t"
    for ps :: "(string \<times> string \<times> caller) list" and t
  proof (induction ps arbitrary: t)
    case (Cons e ps)
    show ?case
      using sound_seq [OF sound_settle [of "snd (snd e)" "[]" "[]" _ t] Cons.IH] by simp
  qed simp
  show ?thesis
  proof (unfold sound_def, intro impI)
    assume "distinct ([] @ gs_ids s)"
    then have d: "distinct (gs_ids s)" by simp
    have oc: "open_calls (?f s) + (\<Sum>e\<leftarrow>gs_pending s. caller_calls (snd (snd e))) = open_calls s"
      by (simp add: open_calls_def ac_simps)
    have sub: "set (gs_ids (?f s)) \<subseteq> set (gs_ids s)" "set (call_ids (?f s)) \<subseteq> set (call_ids s)"
      "distinct (gs_ids (?f s))" using d by (auto simp: gs_ids_def call_ids_def)
    have quiet: "answered_calls (ClearTimer i) = {#}" for i by simp
    define es where "es = (case gs_reconnectTimer s of None \<Rightarrow> [] | Some t \<Rightarrow> [ClearReconnect t])
        @ map (\<lambda>e. ClearTimer (fst e)) (gs_pending s)
        @ (case gs_socket s of None \<Rightarrow> [] | Some n \<Rightarrow> [CloseSocket n])"
    have es: "sum_list (map answered_calls es) = {#}"
      by (auto simp: es_def comp_def split: option.split)
    have run: "close_source s = seq (emit es) (for_each ?g (gs_pending s)) (?f s)"
      by (simp add: close_source_def es_def seq_def Let_def split: prod.split)
    have "sound (\<Sum>e\<leftarrow>gs_pending s. caller_calls (snd (snd e))) [] [] (seq (emit es) (for_each ?g (gs_pending s))) (?f s)"
      by (rule sound_seq_quiet) (simp_all add: es all)
    then have r: "calls.balanced (\<Sum>e\<leftarrow>gs_pending s. caller_calls (snd (snd e)))
          (seq (emit es) (for_each ?g (gs_pending s))) (?f s)"
        "distinct (gs_ids (fst (close_source s)))"
        "set (gs_ids (fst (close_source s))) \<subseteq> set (gs_ids (?f s))"
        "set (call_ids (fst (close_source s))) \<subseteq> set (call_ids (?f s))"
        "gs_connectRequestId (fst (close_source s)) \<in> {None, gs_connectRequestId (?f s)}"
      using sub(3) unfolding sound_def run by auto
    have "calls.balanced {#} close_source s"
      using r(1) oc unfolding calls.balanced_def run by (simp add: ac_simps)
    then show "calls.balanced {#} close_source s \<and> distinct (gs_ids (fst (close_source s)))
        \<and> set (gs_ids (fst (close_source s))) \<subseteq> set [] \<union> set (gs_ids s)
        \<and> set (call_ids (fst (close_source s))) \<subseteq> set [] \<union> set (call_ids s)
        \<and> gs_connectRequestId (fst (close_source s)) \<in> {None, gs_connectRequestId s}"
      using r(2-5) sub by auto
  qed
qed

lemma sound_socket_closed: "sound {#} [] [] (socket_closed opts n) s"
  unfolding socket_closed_def
  by (rule sound_seq_quiet, simp, rule sound_with_state) (auto simp: Let_def intro!: sound_seq_quiet)

lemma sound_timed_out: "sound {#} [] [] (request_timed_out i) s"
  unfolding request_timed_out_def
  by (rule sound_with_state) (auto intro: sound_take sound_settle split: option.split)

lemma sound_reconnect: "sound {#} [] [] (reconnect_fired opts t) s"
  unfolding reconnect_fired_def
  using sound_ensureConnected [of WBackground]
  by (intro sound_with_state) (auto intro!: sound_seq_quiet)

fun event_call_ids :: "gs_event \<Rightarrow> string list" where
  "event_call_ids (Request k m p u) = [m @ '':'' @ u]"
| "event_call_ids _ = []"

fun is_message :: "gs_event \<Rightarrow> bool" where
  "is_message (SocketMessage n p u) = True"
| "is_message _ = False"

lemma sound_step:
  assumes "\<not> is_message ev"
  shows "sound (new_calls ev) (event_ids ev) (event_call_ids ev) (gs_step opts clk ev) s"
proof (cases ev)
  case (Subscribe l)
  then show ?thesis using sound_ensureConnected [of WBackground] by (auto intro!: sound_seq_quiet)
next
  case (Request k m p u)
  then show ?thesis
    using sound_ensureConnected [of "WRequest k m p (m @ '':'' @ u)"] by simp
next
  case (GetSnapshot k)
  then show ?thesis using sound_ensureConnected [of "WSnapshot k"] by simp
qed (use assms in \<open>simp_all add: sound_close sound_socket_closed sound_timed_out sound_reconnect
       sound_fail\<close>)

definition gs_inv :: "gs_state \<Rightarrow> bool" where
  "gs_inv s \<longleftrightarrow> distinct (gs_ids s) \<and> connect_ok s"

definition fresh_ids :: "gs_event \<Rightarrow> gs_state \<Rightarrow> bool" where
  "fresh_ids ev s \<longleftrightarrow> set (event_ids ev) \<inter> (set (gs_ids s) \<union> set_option (gs_connectRequestId s)) = {}"

lemma sound_inv:
  assumes "sound n is xs a s" "distinct is" "set is \<inter> (set (gs_ids s) \<union> set_option (gs_connectRequestId s)) = {}"
    and "set xs \<subseteq> set is" "gs_inv s"
  shows "calls.balanced n a s \<and> gs_inv (fst (a s))"
proof -
  have "distinct (is @ gs_ids s)" using assms by (auto simp: gs_inv_def)
  note r = assms(1) [unfolded sound_def, rule_format, OF this]
  moreover from r assms(3-5) have "connect_ok (fst (a s))"
    by (auto simp: connect_ok_def gs_inv_def) blast
  ultimately show ?thesis by (simp add: gs_inv_def)
qed

lemma empty_sum: "\<forall>x\<in>set xs. x = {#} \<Longrightarrow> sum_list xs = {#}"
  by (induction xs) auto

lemma connect_step:
  assumes "gs_inv s" and "''connect:'' @ u \<notin> set (gs_ids s)"
  shows "calls.balanced {#} (sendConnectRequest opts u n) s \<and> gs_inv (fst (sendConnectRequest opts u n s))"
proof (cases "gs_connectSent s")
  case True
  with assms show ?thesis by (simp add: sendConnectRequest_def calls.balanced_def)
next
  case False
  define i where "i = ''connect:'' @ u"
  let ?t = "s\<lparr>gs_connectSent := True, gs_connectRequestId := Some i\<rparr>"
  let ?a = "sendRequest opts ''connect'' (Some (connect_payload opts)) i (ConnectCall n)"
  have same: "gs_ids ?t = gs_ids s" "call_ids ?t = call_ids s" "open_calls ?t = open_calls s"
    by (simp_all add: gs_ids_def call_ids_def open_calls_def)
  have i: "i \<notin> set (gs_ids s)" using assms(2) by (simp only: i_def not_False_eq_True)
  with assms(1) have "distinct ([i] @ gs_ids ?t)" by (simp add: same gs_inv_def)
  note r = sound_subscribe(2) [unfolded sound_def, rule_format, OF this, of opts "''connect''"
      "Some (connect_payload opts)" n]
  have "set (call_ids s) \<subseteq> set (gs_ids s)" by (auto simp: call_ids_def gs_ids_def)
  with i have "i \<notin> set (call_ids s)" by blast
  with r have "connect_ok (fst (?a ?t))" unfolding same by (auto simp: connect_ok_def)
  moreover have "sendConnectRequest opts u n s = ?a ?t"
    using False by (simp only: sendConnectRequest_def with_state_def if_False seq_update i_def)
  ultimately show ?thesis using r by (simp add: gs_inv_def calls.balanced_def same)
qed

lemma balanced_step:
  assumes "gs_inv s" and "fresh_ids ev s"
  shows "calls.balanced (new_calls ev) (gs_step opts clk ev) s \<and> gs_inv (fst (gs_step opts clk ev s))"
proof (cases "is_message ev")
  case False
  have "distinct (event_ids ev)" by (cases ev) simp_all
  moreover have "set (event_call_ids ev) \<subseteq> set (event_ids ev)" by (cases ev) simp_all
  ultimately show ?thesis
    using sound_inv [OF sound_step [OF False] _ _ _ assms(1)] assms(2) by (simp add: fresh_ids_def)
next
  case True
  then obtain n p u where ev: "ev = SocketMessage n p u" by (cases ev) auto
  have fresh: "''connect:'' @ u \<notin> set (gs_ids s)" "set [''sessions.subscribe:'' @ u] \<inter>
      (set (gs_ids s) \<union> set_option (gs_connectRequestId s)) = {}"
    using assms(2) by (auto simp: ev fresh_ids_def)
  have skip: "calls.balanced {#} skip s \<and> gs_inv (fst (skip s))" using assms(1) by simp
  have conn: "connect_ok s" using assms(1) by (simp add: gs_inv_def)
  have fwd: "calls.balanced {#} (forward_event clk e) s \<and> gs_inv (fst (forward_event clk e s))" for e
    using assms(1)
    by (auto simp: forward_event_def calls.balanced_def comp_def map_concat intro!: empty_sum split: sum.split if_splits)
  have resp: "calls.balanced {#} (handle_response opts n q u) s \<and> gs_inv (fst (handle_response opts n q u s))" for q
    by (rule sound_inv [OF sound_response [OF conn] _ fresh(2) _ assms(1)]) simp_all
  show ?thesis
    unfolding ev gs_step.simps new_calls.simps handleMessage_def
    by (auto simp only: skip resp fwd connect_step [OF assms(1) fresh(1)] split: option.split if_split)
qed

primrec fresh_run :: "openclaw_config \<Rightarrow> clock \<Rightarrow> gs_event list \<Rightarrow> gs_state \<Rightarrow> bool" where
  "fresh_run opts clk [] s = True"
| "fresh_run opts clk (ev # evs) s \<longleftrightarrow> fresh_ids ev s \<and> fresh_run opts clk evs (fst (gs_step opts clk ev s))"

lemma balanced_run:
  "gs_inv s \<Longrightarrow> fresh_run opts clk evs s \<Longrightarrow>
     calls.balanced (\<Sum>ev\<leftarrow>evs. new_calls ev) (gs_run opts clk evs) s \<and> gs_inv (fst (gs_run opts clk evs s))"
proof (induction evs arbitrary: s)
  case Nil
  then show ?case by (simp add: gs_run_def calls.balanced_def)
next
  case (Cons ev evs)
  then have st: "calls.balanced (new_calls ev) (gs_step opts clk ev) s" "gs_inv (fst (gs_step opts clk ev s))"
    using balanced_step by auto
  with Cons have "calls.balanced (\<Sum>ev\<leftarrow>evs. new_calls ev) (gs_run opts clk evs) (fst (gs_step opts clk ev s))
      \<and> gs_inv (fst (gs_run opts clk evs (fst (gs_step opts clk ev s))))" by simp
  then show ?case
    using st(1) by (auto simp: gs_run_def intro: calls.balanced_seq)
qed

section \<open>Losing a connection attempt\<close>

definition about_socket :: "nat \<Rightarrow> gs_event \<Rightarrow> bool" where
  "about_socket n ev = (case ev of SocketOpened m \<Rightarrow> m = n | SocketMessage m p u \<Rightarrow> m = n
     | SocketError m e \<Rightarrow> m = n | SocketClosed m \<Rightarrow> m = n | _ \<Rightarrow> False)"

text \<open>
  Waiter \<open>w\<close> of attempt \<open>n\<close> is stuck: the promise is pending, no connect request of it is in the
  table, and no new attempt can have its number.
\<close>

definition stuck :: "nat \<Rightarrow> waiter \<Rightarrow> gs_state \<Rightarrow> bool" where
  "stuck n w s \<longleftrightarrow> gs_promise s n = PPending \<and> (n, w) \<in> set (gs_waiters s) \<and> n < gs_sockets s
     \<and> (\<forall>(i, m, c)\<in>set (gs_pending s). c \<noteq> ConnectCall n)"

lemma stuck_frame:
  "stuck n w s \<Longrightarrow> gs_promise t = gs_promise s \<Longrightarrow> gs_waiters t = gs_waiters s \<Longrightarrow> gs_sockets t = gs_sockets s
   \<Longrightarrow> set (gs_pending t) \<subseteq> set (gs_pending s) \<Longrightarrow> stuck n w t"
  by (auto simp: stuck_def)

lemma stuck_reject: "stuck n w s \<Longrightarrow> m \<noteq> n \<Longrightarrow> stuck n w (fst (reject_promise m e s))"
  by (auto simp: reject_promise_def stuck_def settled_def)

lemma stuck_fail: "stuck n w s \<Longrightarrow> m \<noteq> n \<Longrightarrow> stuck n w (fst (fail m e s))"
  by (auto simp: fail_def intro!: stuck_reject elim: stuck_frame)

lemma stuck_settle: "stuck n w s \<Longrightarrow> c \<noteq> ConnectCall n \<Longrightarrow> stuck n w (fst (settle_caller c r s))"
  by (cases "(c, r)" rule: settle_caller.cases) (auto intro: stuck_fail)

lemma stuck_send: "stuck n w s \<Longrightarrow> c \<noteq> ConnectCall n \<Longrightarrow> stuck n w (fst (sendRequest opts m p i c s))"
proof -
  assume s: "stuck n w s" and c: "c \<noteq> ConnectCall n"
  have upd: "set (AList.update i (m, c) ps) \<subseteq> insert (i, m, c) (set ps)" for ps :: "(string \<times> string \<times> caller) list"
    by (induction ps) auto
  have "stuck n w (s\<lparr>gs_pending := AList.update i (m, c) (gs_pending s)\<rparr>)"
    using s c upd [of "gs_pending s"] by (auto simp: stuck_def)
  with s c show ?thesis
    by (auto simp: sendRequest_def stuck_settle split: option.split)
qed

lemma stuck_waiter_ok: "stuck n w s \<Longrightarrow> stuck n w (fst (waiter_ok opts h v s))"
  by (cases v) (auto intro: stuck_send)

lemma stuck_waiters_ok: "stuck n w s \<Longrightarrow> stuck n w (fst (for_each (waiter_ok opts h) vs s))"
  by (induction vs arbitrary: s) (auto intro: stuck_waiter_ok)

lemma stuck_settled: "stuck n w s \<Longrightarrow> m \<noteq> n \<Longrightarrow> stuck n w (settled m p s)"
  by (auto simp: stuck_def settled_def)

lemma stuck_resolve: "stuck n w s \<Longrightarrow> m \<noteq> n \<Longrightarrow> stuck n w (fst (resolve_promise opts m h s))"
  by (auto simp: resolve_promise_def intro: stuck_waiters_ok stuck_settled)

lemma stuck_ensure: "stuck n w s \<Longrightarrow> stuck n w (fst (ensureConnected opts v s))"
proof -
  assume s: "stuck n w s"
  then have "stuck n w (open_socket v s)" "stuck n w (s\<lparr>gs_waiters := gs_waiters s @ [(k, v)]\<rparr>)" for k
    by (auto simp: stuck_def open_socket_def Let_def)
  with s show ?thesis
    by (auto simp: ensureConnected_def stuck_waiter_ok split: option.split promise_state.split)
qed

lemma stuck_pending: "stuck n w s \<Longrightarrow> map_of (gs_pending s) i = Some (m, c) \<Longrightarrow> c \<noteq> ConnectCall n"
  by (auto simp: stuck_def dest!: map_of_SomeD)

lemma stuck_delete: "stuck n w s \<Longrightarrow> stuck n w (s\<lparr>gs_pending := AList.delete i (gs_pending s)\<rparr>)"
  by (auto simp: stuck_def AList.delete_eq)

lemma stuck_response: "stuck n w s \<Longrightarrow> m \<noteq> n \<Longrightarrow> stuck n w (fst (handle_response opts m p u s))"
proof -
  assume s: "stuck n w s" and m: "m \<noteq> n"
  have conn: "c \<noteq> ConnectCall n \<Longrightarrow> stuck n w t \<Longrightarrow> stuck n w (fst (connected opts m h c u t))" for c h t
    unfolding connected_def
    by (auto intro!: stuck_resolve [OF _ m] stuck_send stuck_settle elim: stuck_frame)
  with s m show ?thesis
    by (auto simp: handle_response_def intro!: conn stuck_fail stuck_settle stuck_delete
        dest: stuck_pending split: option.split)
qed

lemma stuck_close: "stuck n w s \<Longrightarrow> stuck n w (fst (close_source s))"
proof -
  have each: "\<forall>e\<in>set ps. snd (snd e) \<noteq> ConnectCall n \<Longrightarrow> stuck n w t \<Longrightarrow>
      stuck n w (fst (for_each (\<lambda>e. settle_caller (snd (snd e)) r) ps t))"
    for ps :: "(string \<times> string \<times> caller) list" and t r
    by (induction ps arbitrary: t) (auto intro: stuck_settle)
  assume s: "stuck n w s"
  then have "\<forall>e\<in>set (gs_pending s). snd (snd e) \<noteq> ConnectCall n" by (auto simp: stuck_def)
  with s show ?thesis
    by (auto simp: close_source_def intro!: each elim!: stuck_frame)
qed

lemma stuck_step:
  assumes "stuck n w s" and "\<not> about_socket n ev"
  shows "stuck n w (fst (gs_step opts clk ev s))"
proof (cases ev)
  case (SocketMessage m p u)
  with assms(2) have m: "m \<noteq> n" by (simp add: about_socket_def)
  have fwd: "fst (forward_event clk e s) = s" for e by (simp add: forward_event_def split: sum.split)
  have "stuck n w (fst (sendConnectRequest opts u m s))"
    using assms(1) m by (auto simp: sendConnectRequest_def intro!: stuck_send elim!: stuck_frame)
  then show ?thesis
    using assms(1) stuck_response [OF assms(1) m]
    by (auto simp: SocketMessage handleMessage_def fwd split: option.split)
next
  case (RequestTimer i)
  with assms(1) show ?thesis
    by (auto simp: request_timed_out_def intro!: stuck_settle stuck_delete dest: stuck_pending split: option.split)
next
  case (SocketClosed m)
  with assms(1) show ?thesis
    by (auto simp: socket_closed_def Let_def elim!: stuck_frame)
next
  case (ReconnectTimer t)
  with assms(1) show ?thesis
    by (auto simp: reconnect_fired_def intro!: stuck_ensure elim!: stuck_frame)
next
  case (Subscribe l)
  with assms(1) show ?thesis by (auto intro!: stuck_ensure elim!: stuck_frame)
qed (use assms in \<open>auto simp: about_socket_def intro!: stuck_ensure stuck_close stuck_fail elim!: stuck_frame\<close>)

lemma stuck_run:
  "stuck n w s \<Longrightarrow> \<forall>ev\<in>set evs. \<not> about_socket n ev \<Longrightarrow> stuck n w (fst (gs_run opts clk evs s))"
  by (induction evs arbitrary: s) (auto simp: gs_run_def intro: stuck_step)

section \<open>Properties\<close>

text \<open>
  C4: no call is lost or answered twice: along any run from a new source in which request ids are
  fresh, the calls made are, counted with multiplicity, the calls answered together with the ones
  still open (waiting for the connection or for a response).
\<close>

theorem calls_answered_once:
  assumes "fresh_run opts clk evs new_source"
  shows "(\<Sum>ev\<leftarrow>evs. new_calls ev)
    = (\<Sum>e\<leftarrow>snd (gs_run opts clk evs new_source). answered_calls e)
      + open_calls (fst (gs_run opts clk evs new_source))"
proof -
  have "gs_inv new_source" by (simp add: gs_inv_def connect_ok_def new_source_def gs_ids_def)
  from balanced_run [OF this assms] show ?thesis
    by (simp add: calls.balanced_def ac_simps) (simp add: open_calls_def new_source_def)
qed

definition no_options :: openclaw_config where
  "no_options = \<lparr>oc_url = ''ws://gateway'', oc_token = None, oc_password = None, oc_role = None,
     oc_scopes = None, oc_caps = None, oc_protocolVersion = None, oc_autoSubscribeSessions = None,
     oc_reconnectDelayMs = None, oc_requestTimeoutMs = None,
     oc_client = \<lparr>ci_id = None, ci_displayName = None, ci_version = None, ci_platform = None,
       ci_mode = None, ci_instanceId = None\<rparr>\<rparr>"

lemma calls_answered_once_witness:
  "(\<Sum>e\<leftarrow>snd (gs_run no_options (\<lambda>_. 0) [GetSnapshot 7, SocketError 0 (PlainError ''refused'')] new_source).
      answered_calls e) = {#7#}"
proof -
  have "fresh_run no_options (\<lambda>_. 0) [GetSnapshot 7, SocketError 0 (PlainError ''refused'')] new_source"
    by (simp add: fresh_ids_def)
  from calls_answered_once [OF this] show ?thesis
    by (simp add: gs_run_def ensureConnected_def new_source_def fail_def reject_promise_def
        open_socket_def waiters_of_def settled_def Let_def open_calls_def)
qed

text \<open>
  A connection attempt whose socket closes before its connect request was sent never settles:
  whatever happens afterwards, other than to that closed socket, its promise stays pending and
  everything that awaits it (a request, a snapshot for a hello frame) waits forever.
\<close>

theorem closed_before_connect_hangs:
  assumes "gs_promise s n = PPending" and "(n, w) \<in> set (gs_waiters s)" and "n < gs_sockets s"
    and "\<forall>(i, m, c)\<in>set (gs_pending s). c \<noteq> ConnectCall n"
    and "\<forall>ev\<in>set evs. \<not> about_socket n ev"
  shows "gs_promise (fst (gs_run opts clk (SocketClosed n # evs) s)) n = PPending
    \<and> (n, w) \<in> set (gs_waiters (fst (gs_run opts clk (SocketClosed n # evs) s)))"
proof -
  have "stuck n w s" using assms(1-4) by (simp add: stuck_def)
  then have "stuck n w (fst (socket_closed opts n s))"
    by (auto simp: socket_closed_def Let_def elim!: stuck_frame)
  from stuck_run [OF this assms(5)] show ?thesis by (simp add: gs_run_def stuck_def)
qed

lemma closed_before_connect_hangs_witness:
  "(0, WSnapshot 7) \<in> set (gs_waiters (fst (gs_run no_options (\<lambda>_. 0)
      [SocketClosed 0, ReconnectTimer 0, SocketOpened 1] (fst (gs_run no_options (\<lambda>_. 0)
        [GetSnapshot 7, SocketOpened 0] new_source)))))"
proof -
  let ?s = "fst (gs_run no_options (\<lambda>_. 0) [GetSnapshot 7, SocketOpened 0] new_source)"
  have s: "gs_promise ?s 0 = PPending" "(0, WSnapshot 7) \<in> set (gs_waiters ?s)" "0 < gs_sockets ?s"
    "\<forall>(i, m, c)\<in>set (gs_pending ?s). c \<noteq> ConnectCall 0"
    by (simp_all add: gs_run_def ensureConnected_def new_source_def open_socket_def Let_def)
  have "\<forall>ev\<in>set [ReconnectTimer 0, SocketOpened 1]. \<not> about_socket 0 ev" by (simp add: about_socket_def)
  from closed_before_connect_hangs [OF s this, of no_options "\<lambda>_. 0"] show ?thesis by blast
qed

text \<open>
  Closing the source stops it for its pending requests: none is left in the table, each of
  their timers is cleared, each call from outside among them is rejected, and no reconnect timer
  it knows of stays set.
\<close>

theorem close_rejects_pending:
  "gs_pending (fst (gs_step opts clk CloseSource s)) = []
   \<and> gs_stopped (fst (gs_step opts clk CloseSource s))
   \<and> gs_reconnectTimer (fst (gs_step opts clk CloseSource s)) = None
   \<and> (\<forall>(i, m, c)\<in>set (gs_pending s). ClearTimer i \<in> set (snd (gs_step opts clk CloseSource s))
        \<and> (\<forall>k. c = External k \<longrightarrow>
             Settle k (Inl (PlainError ''openclaw gateway source closed'')) \<in> set (snd (gs_step opts clk CloseSource s))))"
proof -
  let ?r = "Inl (PlainError ''openclaw gateway source closed'')"
  let ?g = "\<lambda>e. settle_caller (snd (snd e)) ?r :: gs_act"
  have fr: "gs_pending (fst (?g e t)) = gs_pending t \<and> gs_stopped (fst (?g e t)) = gs_stopped t
      \<and> gs_reconnectTimer (fst (?g e t)) = gs_reconnectTimer t" for e :: "string \<times> string \<times> caller" and t
    by (cases "snd (snd e)") (simp_all add: fail_def reject_promise_def settled_def)
  have all: "gs_pending (fst (for_each ?g ps t)) = gs_pending t \<and> gs_stopped (fst (for_each ?g ps t)) = gs_stopped t
      \<and> gs_reconnectTimer (fst (for_each ?g ps t)) = gs_reconnectTimer t"
    for ps :: "(string \<times> string \<times> caller) list" and t
    by (induction ps arbitrary: t) (simp_all add: fr)
  have tim: "(i, m, c) \<in> set ps \<Longrightarrow> ClearTimer i \<in> (\<lambda>e. ClearTimer (fst e)) ` set ps"
    for i m c and ps :: "(string \<times> string \<times> caller) list" by force
  have out: "(i, m, External k) \<in> set ps \<Longrightarrow> Settle k ?r \<in> set (snd (for_each ?g ps t))"
    for i m k and ps :: "(string \<times> string \<times> caller) list" and t
    by (induction ps arbitrary: t) auto
  show ?thesis
    by (auto simp: close_source_def all intro: out tim)
qed

lemma close_rejects_pending_witness:
  "Settle 3 (Inl (PlainError ''openclaw gateway source closed''))
     \<in> set (snd (gs_step no_options (\<lambda>_. 0) CloseSource (new_source\<lparr>gs_pending := [(''a'', ''m'', External 3)]\<rparr>)))"
  using close_rejects_pending [of no_options "\<lambda>_. 0" "new_source\<lparr>gs_pending := [(''a'', ''m'', External 3)]\<rparr>"]
  by simp

text \<open>
  A socket that closes late takes the next connection with it: when socket \<open>n\<close> closes while
  a later socket is the current and open one, the source forgets that one, so a
  request right afterwards opens a third socket, although the second is still open.
\<close>

theorem stale_close_forgets_connection:
  assumes "gs_socket s = Some m" and "m \<noteq> n" and "gs_ready s m = OpenState"
  shows "gs_socket (fst (gs_step opts clk (SocketClosed n) s)) = None
    \<and> gs_ready (fst (gs_step opts clk (SocketClosed n) s)) m = OpenState
    \<and> OpenSocket (gs_sockets s) (oc_url opts)
        \<in> set (snd (gs_run opts clk [SocketClosed n, Request k method payload u] s))"
  using assms(2,3)
  by (auto simp: socket_closed_def Let_def gs_run_def ensureConnected_def)

lemma stale_close_forgets_connection_witness:
  "OpenSocket 2 ''ws://gateway'' \<in> set (snd (gs_run no_options (\<lambda>_. 0) [SocketClosed 0, Request 5 ''m'' None ''u'']
     (fst (gs_run no_options (\<lambda>_. 0) [GetSnapshot 1, SocketOpened 0, SocketError 0 (PlainError ''e''),
        GetSnapshot 2, SocketOpened 1] new_source))))"
proof -
  let ?s = "fst (gs_run no_options (\<lambda>_. 0) [GetSnapshot 1, SocketOpened 0, SocketError 0 (PlainError ''e''),
        GetSnapshot 2, SocketOpened 1] new_source)"
  have s: "gs_socket ?s = Some 1" "(1::nat) \<noteq> 0" "gs_ready ?s 1 = OpenState" and n: "gs_sockets ?s = 2"
    by (simp_all add: gs_run_def ensureConnected_def new_source_def open_socket_def Let_def fail_def
        reject_promise_def waiters_of_def settled_def is_open_def)
  from stale_close_forgets_connection [OF s, of no_options "\<lambda>_. 0" 5 "''m''" None "''u''"] n
  show ?thesis by (simp add: no_options_def)
qed

end
