(* ===== verification/RealtimeGateway.thy ===== *)
theory RealtimeGateway
  imports GatewaySource
begin

text \<open>
  The WebSocket server of packages/realtime-gateway/src/index.ts, and the same server backed by
  an OpenClaw source (\<open>createOpenClawBackedRealtimeGatewayServer\<close>). Clients are numbered; a client
  message arrives decoded (\<open>None\<close> when \<open>JSON.parse\<close> fails). Work that awaits the source or the
  embedding's request handler is a numbered call with a continuation in the state.
\<close>

section \<open>State\<close>

record client_context =
  cc_base :: bridge_context
  cc_clientId :: string
  cc_connectedAt :: string

text \<open>What \<open>resolveContext\<close> returned for the upgrade request, each field optional.\<close>

record partial_context =
  px_workspaceId :: "string option"
  px_tenantId :: "string option"
  px_userId :: "string option"

text \<open>What answers requests: nothing, the embedding's handler, or the source.\<close>

datatype backend = NoBackend | HandlerBackend | SourceBackend

record gateway_options =
  go_workspaceId :: string
  go_path :: "string option"
  go_serverVersion :: "string option"
  go_methods :: "string list option"
  go_events :: "gateway_event list option"
  go_backend :: backend
  go_snapshotOption :: bool
  go_sourceSnapshot :: bool

datatype audit_kind = AuditConnect | AuditEvent | AuditRequest | AuditRequestError

record gateway_audit =
  ga_workspaceId :: string
  ga_clientId :: "string option"
  ga_kind :: audit_kind
  ga_frame :: "gateway_frame option"
  ga_method :: "string option"

text \<open>What was asked of the outside, with the number of the call.\<close>

datatype outside_call =
    AskOptionSnapshot bridge_context
  | AskSourceSnapshot
  | CallHandler string jsval client_context
  | CallSource string jsval

datatype rg_effect =
    SendTo nat gateway_frame
  | Call nat outside_call
  | Audit gateway_audit
  | DestroySocket
  | AcceptUpgrade
  | CloseClient nat
  | Unsubscribed
  | CloseBridge
  | StopListening
  | RgUnhandled "js_error option"

text \<open>Continuations: a hello that waits for a snapshot, a request that waits for its result.\<close>

datatype continuation =
    HelloOption nat client_context
  | HelloSource nat client_context
  | Reply nat request_frame client_context

record rg_state =
  rg_seq :: jnum
  rg_clients :: "nat list"
  rg_contexts :: "nat \<rightharpoonup> client_context"
  rg_calls :: "(nat \<times> continuation) list"
  rg_callCount :: nat

type_synonym rg_act = "(rg_state, rg_effect) act"

definition new_gateway :: rg_state where
  "new_gateway = \<lparr>rg_seq = Fin 0, rg_clients = [], rg_contexts = Map.empty, rg_calls = [], rg_callCount = 0\<rparr>"

definition call_outside :: "outside_call \<Rightarrow> continuation \<Rightarrow> rg_act" where
  "call_outside c k = with_state (\<lambda>s. seq
     (update (\<lambda>s. s\<lparr>rg_calls := rg_calls s @ [(rg_callCount s, k)], rg_callCount := Suc (rg_callCount s)\<rparr>))
     (emit [Call (rg_callCount s) c]))"

section \<open>Connecting\<close>

definition DEFAULT_EVENTS :: "gateway_event list" where
  "DEFAULT_EVENTS = [EvChat, EvAgent, EvSessionMessage, EvSessionsChanged, EvRunStatus, EvToolStatus,
     EvApprovalRequested, EvApprovalResolved, EvShutdown]"

definition upgrade_handler :: "gateway_options \<Rightarrow> string \<Rightarrow> rg_effect list" where
  "upgrade_handler opts pathname =
     (if pathname \<noteq> nullish (go_path opts) ''/'' then [DestroySocket] else [AcceptUpgrade])"

definition resolveClientContext ::
    "gateway_options \<Rightarrow> partial_context option \<Rightarrow> string \<Rightarrow> string \<Rightarrow> client_context" where
  "resolveClientContext opts resolved uuid now =
     \<lparr>cc_base = \<lparr>bc_workspaceId = nullish (Option.bind resolved px_workspaceId) (go_workspaceId opts),
                bc_tenantId = Option.bind resolved px_tenantId,
                bc_userId = Option.bind resolved px_userId\<rparr>,
      cc_clientId = uuid, cc_connectedAt = now\<rparr>"

definition send_hello_frame :: "gateway_options \<Rightarrow> nat \<Rightarrow> client_context \<Rightarrow> jsval \<Rightarrow> rg_act" where
  "send_hello_frame opts c ctx snapshot = emit
     [SendTo c (HelloF (buildHelloFrame (cc_base ctx)
        \<lparr>ho_protocol = None, ho_serverVersion = Some (nullish (go_serverVersion opts) ''0.1.0''),
         ho_methods = Some (nullish (go_methods opts) [''chat.send'', ''chat.history'']),
         ho_events = Some (nullish (go_events opts) DEFAULT_EVENTS), ho_snapshot = snapshot\<rparr>)),
      Audit \<lparr>ga_workspaceId = bc_workspaceId (cc_base ctx), ga_clientId = Some (cc_clientId ctx),
             ga_kind = AuditConnect, ga_frame = None, ga_method = None\<rparr>]"

text \<open>\<open>sendHello\<close> up to where it first awaits, and on after the snapshot of the options.\<close>

definition hello_from_source :: "gateway_options \<Rightarrow> nat \<Rightarrow> client_context \<Rightarrow> rg_act" where
  "hello_from_source opts c ctx =
     (if go_sourceSnapshot opts then call_outside AskSourceSnapshot (HelloSource c ctx)
      else send_hello_frame opts c ctx None)"

definition sendHello :: "gateway_options \<Rightarrow> nat \<Rightarrow> client_context \<Rightarrow> rg_act" where
  "sendHello opts c ctx =
     (if go_snapshotOption opts then call_outside (AskOptionSnapshot (cc_base ctx)) (HelloOption c ctx)
      else hello_from_source opts c ctx)"

definition client_connected ::
    "gateway_options \<Rightarrow> nat \<Rightarrow> partial_context option \<Rightarrow> string \<Rightarrow> string \<Rightarrow> rg_act" where
  "client_connected opts c resolved uuid now =
     (let ctx = resolveClientContext opts resolved uuid now in
      seq (update (\<lambda>s. s\<lparr>rg_clients := (if c \<in> set (rg_clients s) then rg_clients s else rg_clients s @ [c]),
                       rg_contexts := (rg_contexts s)(c \<mapsto> ctx)\<rparr>))
        (sendHello opts c ctx))"

section \<open>Requests\<close>

definition toErrorFrame :: "string \<Rightarrow> string \<Rightarrow> gateway_frame" where
  "toErrorFrame code message = ErrorF code message"

text \<open>What was thrown: an \<open>Error\<close> with its message, or anything else (\<open>None\<close>).\<close>

definition toResponseError :: "js_error option \<Rightarrow> response_error" where
  "toResponseError e = \<lparr>re_code = ''request_failed'',
     re_message = (case e of Some x \<Rightarrow> error_message x | None \<Rightarrow> ''realtime gateway request failed'')\<rparr>"

definition isRequestFrame :: "json \<Rightarrow> request_frame option" where
  "isRequestFrame v =
     (if is_object (Some v) \<and> getp v ''type'' = Some (JStr ''req'')
      then (case (as_str (getp v ''id''), as_str (getp v ''method'')) of
              (Some i, Some m) \<Rightarrow> Some \<lparr>rf_id = i, rf_method = m, rf_payload = getp v ''payload''\<rparr>
            | _ \<Rightarrow> None)
      else None)"

definition respond :: "nat \<Rightarrow> response_frame \<Rightarrow> audit_kind \<Rightarrow> string \<Rightarrow> client_context \<Rightarrow> rg_act" where
  "respond c frame kind method ctx = emit
     [SendTo c (ResponseF frame),
      Audit \<lparr>ga_workspaceId = bc_workspaceId (cc_base ctx), ga_clientId = Some (cc_clientId ctx),
             ga_kind = kind, ga_frame = Some (ResponseF frame), ga_method = Some method\<rparr>]"

definition ok_response :: "request_frame \<Rightarrow> jsval \<Rightarrow> response_frame" where
  "ok_response rf result = \<lparr>sf_id = rf_id rf, sf_ok = True, sf_payload = result, sf_error = None\<rparr>"

definition error_response :: "request_frame \<Rightarrow> response_error \<Rightarrow> response_frame" where
  "error_response rf e = \<lparr>sf_id = rf_id rf, sf_ok = False, sf_payload = None, sf_error = Some e\<rparr>"

definition handleRequestFrame :: "gateway_options \<Rightarrow> nat \<Rightarrow> request_frame \<Rightarrow> client_context \<Rightarrow> rg_act" where
  "handleRequestFrame opts c rf ctx =
     (case go_backend opts of
        NoBackend \<Rightarrow> respond c (error_response rf \<lparr>re_code = ''method_not_supported'',
            re_message = ''unsupported method: '' @ rf_method rf\<rparr>) AuditRequestError (rf_method rf) ctx
      | HandlerBackend \<Rightarrow> call_outside (CallHandler (rf_method rf) (rf_payload rf) ctx) (Reply c rf ctx)
      | SourceBackend \<Rightarrow> call_outside (CallSource (rf_method rf) (rf_payload rf)) (Reply c rf ctx))"

definition request_done :: "nat \<Rightarrow> request_frame \<Rightarrow> client_context \<Rightarrow> js_error option + jsval \<Rightarrow> rg_act" where
  "request_done c rf ctx r =
     (case r of
        Inr result \<Rightarrow> respond c (ok_response rf result) AuditRequest (rf_method rf) ctx
      | Inl e \<Rightarrow> respond c (error_response rf (toResponseError e)) AuditRequestError (rf_method rf) ctx)"

definition handleSocketMessage :: "gateway_options \<Rightarrow> nat \<Rightarrow> json option \<Rightarrow> rg_act" where
  "handleSocketMessage opts c parsed = with_state (\<lambda>s.
     case rg_contexts s c of
       None \<Rightarrow> skip
     | Some ctx \<Rightarrow>
         (case parsed of
            None \<Rightarrow> emit [SendTo c (toErrorFrame ''invalid_json'' ''invalid realtime frame'')]
          | Some v \<Rightarrow>
              (case isRequestFrame v of
                 None \<Rightarrow> emit [SendTo c (toErrorFrame ''invalid_frame'' ''expected request frame'')]
               | Some rf \<Rightarrow> handleRequestFrame opts c rf ctx)))"

section \<open>Events and answers\<close>

definition base_context :: "gateway_options \<Rightarrow> bridge_context" where
  "base_context opts = \<lparr>bc_workspaceId = go_workspaceId opts, bc_tenantId = None, bc_userId = None\<rparr>"

definition publish :: "gateway_options \<Rightarrow> source_event \<Rightarrow> rg_act" where
  "publish opts sv = with_state (\<lambda>s.
     case createEventFrame sv (base_context opts) (rg_seq s) of
       (frame, n) \<Rightarrow> seq (update (\<lambda>s. s\<lparr>rg_seq := n\<rparr>))
         (emit (map (\<lambda>c. SendTo c (EventF frame)) (rg_clients s) @
            [Audit \<lparr>ga_workspaceId = go_workspaceId opts, ga_clientId = None, ga_kind = AuditEvent,
                    ga_frame = Some (EventF frame), ga_method = None\<rparr>])))"

text \<open>The answer to an outside call resumes its continuation; a failed hello is unhandled.\<close>

definition resume :: "gateway_options \<Rightarrow> continuation \<Rightarrow> js_error option + jsval \<Rightarrow> rg_act" where
  "resume opts k r =
     (case k of
        Reply c rf ctx \<Rightarrow> request_done c rf ctx r
      | HelloOption c ctx \<Rightarrow>
          (case r of
             Inl e \<Rightarrow> emit [RgUnhandled e]
           | Inr v \<Rightarrow> if js_nullish v None = None then hello_from_source opts c ctx
                     else send_hello_frame opts c ctx v)
      | HelloSource c ctx \<Rightarrow>
          (case r of Inl e \<Rightarrow> emit [RgUnhandled e] | Inr v \<Rightarrow> send_hello_frame opts c ctx v))"

definition outside_answer :: "gateway_options \<Rightarrow> nat \<Rightarrow> js_error option + jsval \<Rightarrow> rg_act" where
  "outside_answer opts k r = with_state (\<lambda>s.
     case map_of (rg_calls s) k of
       None \<Rightarrow> skip
     | Some cont \<Rightarrow>
         seq (update (\<lambda>s. s\<lparr>rg_calls := AList.delete k (rg_calls s)\<rparr>)) (resume opts cont r))"

definition client_closed :: "nat \<Rightarrow> rg_act" where
  "client_closed c = update (\<lambda>s. s\<lparr>rg_clients := filter (\<lambda>x. x \<noteq> c) (rg_clients s)\<rparr>)"

definition close_gateway :: rg_act where
  "close_gateway = with_state (\<lambda>s.
     emit ([Unsubscribed, CloseBridge] @ map CloseClient (rg_clients s) @ [StopListening]))"

datatype rg_event =
    ClientConnected nat "partial_context option" string string
  | ClientMessage nat "json option"
  | ClientClosed nat
  | Publish source_event
  | OutsideAnswer nat "js_error option + jsval"
  | CloseGateway

fun rg_step :: "gateway_options \<Rightarrow> rg_event \<Rightarrow> rg_act" where
  "rg_step opts (ClientConnected c resolved uuid now) = client_connected opts c resolved uuid now"
| "rg_step opts (ClientMessage c parsed) = handleSocketMessage opts c parsed"
| "rg_step opts (ClientClosed c) = client_closed c"
| "rg_step opts (Publish sv) = publish opts sv"
| "rg_step opts (OutsideAnswer k r) = outside_answer opts k r"
| "rg_step opts CloseGateway = close_gateway"

definition rg_run :: "gateway_options \<Rightarrow> rg_event list \<Rightarrow> rg_act" where
  "rg_run opts evs = for_each (rg_step opts) evs"

section \<open>The gateway on an OpenClaw source\<close>

text \<open>
  The two state machines together. The gateway's calls become events of the source (the random
  part of a request id is \<open>uuid\<close>), and what the source emits or settles comes back as events of
  the gateway. The source's listener 0 is the gateway.
\<close>

record backed_state =
  bk_source :: gs_state
  bk_gateway :: rg_state

datatype backed_effect = SourceEffect gs_effect | GatewayEffect rg_effect

fun source_event_for :: "string \<Rightarrow> rg_effect \<Rightarrow> gs_event option" where
  "source_event_for uuid (Call k AskSourceSnapshot) = Some (GetSnapshot k)"
| "source_event_for uuid (Call k (CallSource m p)) = Some (Request k m p uuid)"
| "source_event_for uuid CloseBridge = Some CloseSource"
| "source_event_for uuid Unsubscribed = Some (Unsubscribe 0)"
| "source_event_for uuid _ = None"

fun gateway_event_for :: "gs_effect \<Rightarrow> rg_event option" where
  "gateway_event_for (EmitTo l sv) = Some (Publish sv)"
| "gateway_event_for (Settle k (Inl e)) = Some (OutsideAnswer k (Inl (Some e)))"
| "gateway_event_for (Settle k (Inr v)) = Some (OutsideAnswer k (Inr v))"
| "gateway_event_for _ = None"

definition lift_gateway :: "rg_act \<Rightarrow> (backed_state, backed_effect) act" where
  "lift_gateway a s = (let (g, es) = a (bk_gateway s) in (s\<lparr>bk_gateway := g\<rparr>, map GatewayEffect es))"

definition lift_source :: "gs_act \<Rightarrow> (backed_state, backed_effect) act" where
  "lift_source a s = (let (g, es) = a (bk_source s) in (s\<lparr>bk_source := g\<rparr>, map SourceEffect es))"

text \<open>An event of the source's own surroundings, with what the gateway does in response.\<close>

definition source_side ::
    "gateway_options \<Rightarrow> openclaw_config \<Rightarrow> clock \<Rightarrow> gs_event \<Rightarrow> (backed_state, backed_effect) act" where
  "source_side opts oc clk ev = with_state (\<lambda>s.
     seq (lift_source (gs_step oc clk ev))
       (for_each (\<lambda>e. lift_gateway (rg_step opts e))
          (List.map_filter gateway_event_for (snd (gs_step oc clk ev (bk_source s))))))"

text \<open>An event of a client, with what the source does in response.\<close>

definition client_side ::
    "gateway_options \<Rightarrow> openclaw_config \<Rightarrow> clock \<Rightarrow> string \<Rightarrow> rg_event \<Rightarrow> (backed_state, backed_effect) act" where
  "client_side opts oc clk uuid ev = with_state (\<lambda>s.
     seq (lift_gateway (rg_step opts ev))
       (for_each (source_side opts oc clk)
          (List.map_filter (source_event_for uuid) (snd (rg_step opts ev (bk_gateway s))))))"

text \<open>The options of the backed server: requests and snapshots go to the source.\<close>

definition backed_options :: "gateway_options \<Rightarrow> gateway_options" where
  "backed_options opts = opts\<lparr>go_backend := SourceBackend, go_sourceSnapshot := True\<rparr>"

definition createOpenClawBackedRealtimeGatewayServer ::
    "gateway_options \<Rightarrow> openclaw_config \<Rightarrow> clock \<Rightarrow> backed_state \<times> backed_effect list" where
  "createOpenClawBackedRealtimeGatewayServer opts oc clk =
     source_side (backed_options opts) oc clk (Subscribe 0)
       \<lparr>bk_source = new_source, bk_gateway = new_gateway\<rparr>"

section \<open>Connected clients\<close>

text \<open>Whether client \<open>c\<close>'s last connect comes after its last close.\<close>

definition live_after :: "nat \<Rightarrow> bool \<Rightarrow> rg_event \<Rightarrow> bool" where
  "live_after c b ev = (case ev of
     ClientConnected d r u n \<Rightarrow> b \<or> c = d | ClientClosed d \<Rightarrow> b \<and> c \<noteq> d | _ \<Rightarrow> b)"

definition live :: "nat \<Rightarrow> rg_event list \<Rightarrow> bool" where
  "live c evs = foldl (live_after c) False evs"

lemma clients_frame [simp]:
  "rg_clients (fst (call_outside a k s)) = rg_clients s"
  "rg_clients (fst (send_hello_frame opts c ctx v s)) = rg_clients s"
  "rg_clients (fst (respond c f kd m ctx s)) = rg_clients s"
  by (simp_all add: call_outside_def send_hello_frame_def respond_def)

lemma clients_hello [simp]:
  "rg_clients (fst (hello_from_source opts c ctx s)) = rg_clients s"
  "rg_clients (fst (sendHello opts c ctx s)) = rg_clients s"
  by (simp_all add: hello_from_source_def sendHello_def)

lemma clients_request [simp]:
  "rg_clients (fst (handleRequestFrame opts c rf ctx s)) = rg_clients s"
  "rg_clients (fst (request_done c rf ctx r s)) = rg_clients s"
  by (simp_all add: handleRequestFrame_def request_done_def split: backend.split sum.split)

lemma clients_resume [simp]: "rg_clients (fst (resume opts k r s)) = rg_clients s"
  by (simp add: resume_def split: continuation.split sum.split)

lemma clients_step:
  "distinct (rg_clients s) \<Longrightarrow> distinct (rg_clients (fst (rg_step opts ev s)))
     \<and> (c \<in> set (rg_clients (fst (rg_step opts ev s))) \<longleftrightarrow> live_after c (c \<in> set (rg_clients s)) ev)"
  by (cases ev)
     (auto simp: client_connected_def Let_def handleSocketMessage_def client_closed_def publish_def
       outside_answer_def close_gateway_def live_after_def
       split: option.splits prod.splits)

lemma clients_run:
  "distinct (rg_clients s) \<Longrightarrow> distinct (rg_clients (fst (rg_run opts evs s)))
     \<and> (c \<in> set (rg_clients (fst (rg_run opts evs s))) \<longleftrightarrow> foldl (live_after c) (c \<in> set (rg_clients s)) evs)"
proof (induction evs arbitrary: s)
  case (Cons ev evs)
  with clients_step [of s opts ev] show ?case by (simp add: rg_run_def)
qed (simp add: rg_run_def)

section \<open>Requests and responses\<close>

text \<open>The requests that still wait for their result, and those an effect answers.\<close>

fun continuation_requests :: "continuation \<Rightarrow> (nat \<times> string) multiset" where
  "continuation_requests (Reply c rf ctx) = {#(c, rf_id rf)#}"
| "continuation_requests _ = {#}"

definition open_requests :: "rg_state \<Rightarrow> (nat \<times> string) multiset" where
  "open_requests s = (\<Sum>k\<leftarrow>rg_calls s. continuation_requests (snd k))"

fun answered_requests :: "rg_effect \<Rightarrow> (nat \<times> string) multiset" where
  "answered_requests (SendTo c (ResponseF r)) = {#(c, sf_id r)#}"
| "answered_requests _ = {#}"

definition received_request :: "rg_event \<Rightarrow> rg_state \<Rightarrow> (nat \<times> string) multiset" where
  "received_request ev s = (case ev of
     ClientMessage c (Some v) \<Rightarrow>
       (case isRequestFrame v of Some rf \<Rightarrow> if rg_contexts s c = None then {#} else {#(c, rf_id rf)#}
                               | None \<Rightarrow> {#})
   | _ \<Rightarrow> {#})"

interpretation requests: account open_requests answered_requests
  by unfold_locales

definition calls_ok :: "rg_state \<Rightarrow> bool" where
  "calls_ok s \<longleftrightarrow> distinct (map fst (rg_calls s)) \<and> (\<forall>k\<in>set (rg_calls s). fst k < rg_callCount s)"

lemma balanced_call:
  "requests.balanced (continuation_requests k) (call_outside a k) s"
  by (simp add: requests.balanced_def call_outside_def open_requests_def)

lemma calls_ok_call: "calls_ok s \<Longrightarrow> calls_ok (fst (call_outside a k s))"
  by (auto simp: calls_ok_def call_outside_def)

lemma balanced_respond: "requests.balanced {#(c, sf_id f)#} (respond c f kd m ctx) s"
  by (simp add: requests.balanced_def respond_def)

lemma balanced_hello:
  "requests.balanced {#} (send_hello_frame opts c ctx v) s"
  "requests.balanced {#} (hello_from_source opts c ctx) s"
  "requests.balanced {#} (sendHello opts c ctx) s"
proof -
  show h: "requests.balanced {#} (send_hello_frame opts c ctx v) s" for v
    by (simp add: requests.balanced_def send_hello_frame_def)
  show g: "requests.balanced {#} (hello_from_source opts c ctx) s"
    using balanced_call [of "HelloSource c ctx"] by (simp add: hello_from_source_def h)
  show "requests.balanced {#} (sendHello opts c ctx) s"
    using balanced_call [of "HelloOption c ctx"] by (simp add: sendHello_def g)
qed

lemma balanced_resume: "requests.balanced (continuation_requests k) (resume opts k r) s"
  using balanced_respond [of _ "ok_response _ _"] balanced_respond [of _ "error_response _ _"]
  by (cases k; cases r)
     (auto simp: resume_def request_done_def balanced_hello ok_response_def error_response_def
       requests.balanced_emit)

lemma calls_ok_same:
  "rg_calls t = rg_calls s \<Longrightarrow> rg_callCount t = rg_callCount s \<Longrightarrow> calls_ok s \<Longrightarrow> calls_ok t"
  by (simp add: calls_ok_def)

lemma calls_ok_hello:
  "calls_ok s \<Longrightarrow> calls_ok (fst (hello_from_source opts c ctx s))"
  "calls_ok s \<Longrightarrow> calls_ok (fst (sendHello opts c ctx s))"
  by (simp_all add: hello_from_source_def sendHello_def send_hello_frame_def calls_ok_call)

lemma calls_ok_resume: "calls_ok s \<Longrightarrow> calls_ok (fst (resume opts k r s))"
  by (cases k; cases r) (simp_all add: resume_def request_done_def respond_def send_hello_frame_def calls_ok_hello)

lemma taken_requests:
  "map_of ps i = Some k \<Longrightarrow> distinct (map fst ps) \<Longrightarrow>
     (\<Sum>e\<leftarrow>AList.delete i ps. continuation_requests (snd e)) + continuation_requests k
       = (\<Sum>e\<leftarrow>ps. continuation_requests (snd e))"
proof (induction ps)
  case (Cons p ps)
  then show ?case
    by (cases p; cases "fst p = i") (auto simp: AList.delete_idem ac_simps)
qed simp

lemma balanced_answer:
  assumes "calls_ok s"
  shows "requests.balanced {#} (outside_answer opts i r) s \<and> calls_ok (fst (outside_answer opts i r s))"
proof (cases "map_of (rg_calls s) i")
  case None
  with assms show ?thesis by (simp add: outside_answer_def requests.balanced_def)
next
  case (Some k)
  let ?t = "s\<lparr>rg_calls := AList.delete i (rg_calls s)\<rparr>"
  have "open_requests ?t + continuation_requests k = open_requests s"
    using taken_requests [OF Some] assms by (simp add: open_requests_def calls_ok_def)
  moreover have "calls_ok ?t"
    using assms by (auto simp: calls_ok_def AList.delete_eq distinct_map_filter)
  ultimately show ?thesis
    using Some balanced_resume [of k opts r ?t] calls_ok_resume [of ?t opts k r]
    by (auto simp: outside_answer_def requests.balanced_def ac_simps)
qed

lemma balanced_rg_step:
  assumes "calls_ok s"
  shows "requests.balanced (received_request ev s) (rg_step opts ev) s \<and> calls_ok (fst (rg_step opts ev s))"
proof (cases ev)
  case (ClientConnected c res u now)
  let ?f = "\<lambda>s. s\<lparr>rg_clients := (if c \<in> set (rg_clients s) then rg_clients s else rg_clients s @ [c]),
      rg_contexts := (rg_contexts s)(c \<mapsto> resolveClientContext opts res u now)\<rparr>"
  have "requests.balanced {#} (update ?f) s" by (simp add: requests.balanced_def open_requests_def)
  then have "requests.balanced {#} (seq (update ?f) (sendHello opts c (resolveClientContext opts res u now))) s"
    by (rule requests.balanced_seq) (simp_all add: balanced_hello)
  moreover have "calls_ok (?f s)" using assms by (simp add: calls_ok_def)
  ultimately show ?thesis
    by (simp add: ClientConnected client_connected_def Let_def received_request_def calls_ok_hello)
next
  case (ClientMessage c parsed)
  show ?thesis
  proof (cases "rg_contexts s c")
    case None
    with ClientMessage assms show ?thesis
      by (simp add: handleSocketMessage_def requests.balanced_def received_request_def split: option.split)
  next
    case ctx: (Some ctx)
    show ?thesis
    proof (cases "Option.bind parsed isRequestFrame")
      case None
      with ClientMessage assms ctx show ?thesis
        by (cases parsed)
           (auto simp: handleSocketMessage_def requests.balanced_def received_request_def toErrorFrame_def)
    next
      case (Some rf)
      then obtain v where v: "parsed = Some v" "isRequestFrame v = Some rf" by (cases parsed) auto
      have "requests.balanced {#(c, rf_id rf)#} (handleRequestFrame opts c rf ctx) s
          \<and> calls_ok (fst (handleRequestFrame opts c rf ctx s))"
        using assms balanced_call [of "Reply c rf ctx"] balanced_respond [of c "error_response rf _"]
        by (cases "go_backend opts")
           (auto simp: handleRequestFrame_def calls_ok_call error_response_def respond_def)
      with ClientMessage ctx v show ?thesis
        by (simp add: handleSocketMessage_def requests.balanced_def received_request_def)
    qed
  qed
next
  case (ClientClosed c)
  with assms show ?thesis
    by (simp add: client_closed_def requests.balanced_def received_request_def open_requests_def calls_ok_def)
next
  case (Publish sv)
  obtain f n where fn: "createEventFrame sv (base_context opts) (rg_seq s) = (f, n)" by fastforce
  have "(\<Sum>c\<leftarrow>cs. answered_requests (SendTo c (EventF f))) = {#}" for cs by (induction cs) simp_all
  with Publish fn assms show ?thesis
    by (auto simp: publish_def requests.balanced_def received_request_def open_requests_def comp_def
        calls_ok_def)
next
  case (OutsideAnswer k r)
  with balanced_answer [OF assms] show ?thesis by (simp add: received_request_def)
next
  case CloseGateway
  have "(\<Sum>c\<leftarrow>cs. answered_requests (CloseClient c)) = {#}" for cs by (induction cs) simp_all
  with CloseGateway assms show ?thesis
    by (simp add: close_gateway_def requests.balanced_def received_request_def comp_def)
qed

primrec received_requests :: "gateway_options \<Rightarrow> rg_event list \<Rightarrow> rg_state \<Rightarrow> (nat \<times> string) multiset" where
  "received_requests opts [] s = {#}"
| "received_requests opts (ev # evs) s
     = received_request ev s + received_requests opts evs (fst (rg_step opts ev s))"

lemma balanced_rg_run:
  "calls_ok s \<Longrightarrow> requests.balanced (received_requests opts evs s) (rg_run opts evs) s"
proof (induction evs arbitrary: s)
  case Nil
  then show ?case by (simp add: rg_run_def requests.balanced_def)
next
  case (Cons ev evs)
  then show ?case
    using balanced_rg_step [of s ev opts]
    by (auto simp: rg_run_def intro: requests.balanced_seq)
qed

section \<open>Properties\<close>

text \<open>
  Publishing an event sends one and the same frame, once, to exactly the clients whose last
  connect is later than their last close, and it carries the gateway's workspace whatever the
  event's payload says and whatever workspace a client was resolved to.
\<close>

theorem publish_reaches_live_clients:
  fixes opts evs sv
  defines "s \<equiv> fst (rg_run opts evs new_gateway)"
  shows "\<exists>f cs kvs. filter (\<lambda>e. \<exists>c g. e = SendTo c g) (snd (publish opts sv s)) = map (\<lambda>c. SendTo c (EventF f)) cs
    \<and> distinct cs \<and> (\<forall>c. c \<in> set cs \<longleftrightarrow> live c evs)
    \<and> ef_payload f = Some (JObj kvs) \<and> map_of kvs ''workspaceId'' = Some (JStr (go_workspaceId opts))"
proof -
  obtain f n where f: "createEventFrame sv (base_context opts) (rg_seq s) = (f, n)" by fastforce
  have "ef_payload f = Some (JObj (injectContext (sv_payload sv) (base_context opts)))"
    using f by (auto simp: createEventFrame_def Let_def)
  moreover have "map_of (injectContext (sv_payload sv) (base_context opts)) ''workspaceId''
      = Some (JStr (go_workspaceId opts))"
    by (simp add: map_of_inject context_fields_def put_text_def base_context_def map_add_def)
  moreover have "distinct (rg_clients s)" "\<forall>c. c \<in> set (rg_clients s) \<longleftrightarrow> live c evs"
    using clients_run [of new_gateway opts evs] by (auto simp: s_def live_def new_gateway_def)
  moreover have "filter (\<lambda>e. \<exists>c g. e = SendTo c g) (snd (publish opts sv s))
      = map (\<lambda>c. SendTo c (EventF f)) (rg_clients s)"
    using f by (simp add: publish_def comp_def)
  ultimately show ?thesis by blast
qed

text \<open>
  C11: every request frame a known client sends is answered once or still waits for its result:
  over any run of the gateway, the requests received are, with multiplicity and under the ids
  the clients gave them, the responses sent plus the requests still open.
\<close>

theorem requests_answered_once:
  "received_requests opts evs new_gateway
     = (\<Sum>e\<leftarrow>snd (rg_run opts evs new_gateway). answered_requests e)
       + open_requests (fst (rg_run opts evs new_gateway))"
proof -
  have "calls_ok new_gateway" by (simp add: calls_ok_def new_gateway_def)
  from balanced_rg_run [OF this, of opts evs] show ?thesis
    by (simp add: requests.balanced_def ac_simps) (simp add: open_requests_def new_gateway_def)
qed

text \<open>
  On a gateway with a source, a well-formed request of a known client is handed to the source
  under whatever method it names, also one that the hello frame does not offer; any other
  message of a known client gets one error frame, and a message of an unknown client nothing.
\<close>

theorem client_message_cases:
  assumes "go_backend opts = SourceBackend"
  shows "snd (rg_step opts (ClientMessage c parsed) s) =
    (case rg_contexts s c of
       None \<Rightarrow> []
     | Some ctx \<Rightarrow>
         (case parsed of
            None \<Rightarrow> [SendTo c (ErrorF ''invalid_json'' ''invalid realtime frame'')]
          | Some v \<Rightarrow> (case isRequestFrame v of
              None \<Rightarrow> [SendTo c (ErrorF ''invalid_frame'' ''expected request frame'')]
            | Some rf \<Rightarrow> [Call (rg_callCount s) (CallSource (rf_method rf) (rf_payload rf))])))"
  using assms
  by (simp add: handleSocketMessage_def handleRequestFrame_def call_outside_def toErrorFrame_def
      split: option.split)

definition demo_options :: gateway_options where
  "demo_options = \<lparr>go_workspaceId = ''ws'', go_path = None, go_serverVersion = None, go_methods = None,
     go_events = None, go_backend = SourceBackend, go_snapshotOption = False, go_sourceSnapshot = False\<rparr>"

definition demo_request :: json where
  "demo_request = JObj [(''type'', JStr ''req''), (''id'', JStr ''r1''), (''method'', JStr ''cron.add'')]"

lemma demo_request_frame:
  "isRequestFrame demo_request = Some \<lparr>rf_id = ''r1'', rf_method = ''cron.add'', rf_payload = None\<rparr>"
  by (simp add: isRequestFrame_def demo_request_def)

lemma client_message_cases_witness:
  "snd (rg_step demo_options (ClientMessage 0 (Some demo_request))
      (fst (rg_run demo_options [ClientConnected 0 None ''u'' ''t''] new_gateway)))
    = [Call 0 (CallSource ''cron.add'' None)]"
proof -
  have b: "go_backend demo_options = SourceBackend" by (simp add: demo_options_def)
  let ?s = "fst (rg_run demo_options [ClientConnected 0 None ''u'' ''t''] new_gateway)"
  have "rg_contexts ?s 0 = Some (resolveClientContext demo_options None ''u'' ''t'')" "rg_callCount ?s = 0"
    by (simp_all add: rg_run_def client_connected_def Let_def sendHello_def hello_from_source_def
        send_hello_frame_def demo_options_def new_gateway_def)
  with client_message_cases [OF b, of 0 "Some demo_request" ?s] show ?thesis
    by (simp add: demo_request_frame)
qed

text \<open>What the gateway sends to its clients among the effects of a step of the backed server.\<close>

text \<open>What goes out on the sockets to OpenClaw.\<close>

definition sent_upstream :: "backed_effect list \<Rightarrow> (nat \<times> json) list" where
  "sent_upstream es = List.map_filter (\<lambda>e. case e of SourceEffect (SendJson n v) \<Rightarrow> Some (n, v) | _ \<Rightarrow> None) es"

definition sent_to_clients :: "backed_effect list \<Rightarrow> (nat \<times> gateway_frame) list" where
  "sent_to_clients es = List.map_filter
     (\<lambda>e. case e of GatewayEffect (SendTo c f) \<Rightarrow> Some (c, f) | _ \<Rightarrow> None) es"

lemma sent_to_clients_simps [simp]:
  "sent_to_clients [] = []"
  "sent_to_clients (GatewayEffect (SendTo c f) # es) = (c, f) # sent_to_clients es"
  "sent_to_clients (GatewayEffect (Audit a) # es) = sent_to_clients es"
  "sent_to_clients (SourceEffect e # es) = sent_to_clients es"
  by (simp_all add: sent_to_clients_def List.map_filter_def)

definition res_json :: "string \<Rightarrow> json \<Rightarrow> json" where
  "res_json i p = JObj [(''type'', JStr ''res''), (''id'', JStr i), (''ok'', JBool True), (''payload'', p)]"

lemma res_json_fields:
  "is_object (Some (res_json i p))" "getp (res_json i p) ''type'' = Some (JStr ''res'')"
  "as_str (getp (res_json i p) ''id'') = Some i" "truthy (getp (res_json i p) ''ok'')"
  "getp (res_json i p) ''payload'' = Some p"
  by (simp_all add: res_json_def)

lemma map_of_update_eq: "map_of (AList.update k v al) k = Some v"
  by (simp add: update_conv')

lemma update_delete_new: "k \<notin> fst ` set al \<Longrightarrow> AList.delete k (AList.update k v al) = al"
  by (induction al) (auto simp: AList.delete_eq)

text \<open>The upstream half: the request of a call, sent on an open connection.\<close>

lemma source_sends_request:
  assumes "truthy (gs_hello src)" and "gs_socket src = Some n" and "gs_ready src n = OpenState"
  shows "gs_step oc clk (Request k m p u) src =
    (src\<lparr>gs_pending := AList.update (m @ '':'' @ u) (m, External k) (gs_pending src)\<rparr>,
     [StartTimer (m @ '':'' @ u) (nullish (oc_requestTimeoutMs oc) 30000),
      SendJson n (request_json (m @ '':'' @ u) m p)])"
  using assms by (simp add: ensureConnected_def is_open_def sendRequest_def seq_def)

text \<open>The downstream half: its response, handed to the call.\<close>

lemma source_answers_call:
  assumes "gs_pending src = AList.update i (m, External k) ps" and "gs_connectRequestId src \<noteq> Some i"
    and "i \<notin> fst ` set ps"
  shows "gs_step oc clk (SocketMessage n (Some (res_json i p)) u) src
    = (src\<lparr>gs_pending := ps\<rparr>, [ClearTimer i, Settle k (Inr (Some p))])"
  using assms
  by (simp add: handleMessage_def handle_response_def res_json_fields seq_def
      update_delete_new map_of_update_eq)

text \<open>
  End to end, with the source connected: a client's request leaves on the source's socket
  under a fresh upstream id with the client's method and parameters, as the one frame that it
  causes there, and the upstream response to it reaches exactly that client as one response under the client's own
  id with the upstream payload.
\<close>

lemma gateway_roundtrip:
  assumes "truthy (gs_hello (bk_source s))" and "gs_socket (bk_source s) = Some n"
    and "gs_ready (bk_source s) n = OpenState" and "go_backend opts = SourceBackend"
    and "rg_contexts (bk_gateway s) c = Some ctx" and "isRequestFrame v = Some rf"
    and "calls_ok (bk_gateway s)"
    and "i = rf_method rf @ '':'' @ uuid" and "i \<notin> fst ` set (gs_pending (bk_source s))"
    and "gs_connectRequestId (bk_source s) \<noteq> Some i"
  shows "let s1 = client_side opts oc clk uuid (ClientMessage c (Some v)) s in
    sent_upstream (snd s1) = [(n, request_json i (rf_method rf) (rf_payload rf))]
    \<and> sent_to_clients (snd s1) = []
    \<and> sent_upstream (snd (source_side opts oc clk (SocketMessage n (Some (res_json i p)) u) (fst s1))) = []
    \<and> sent_to_clients (snd (source_side opts oc clk (SocketMessage n (Some (res_json i p)) u) (fst s1)))
      = [(c, ResponseF \<lparr>sf_id = rf_id rf, sf_ok = True, sf_payload = Some p, sf_error = None\<rparr>)]"
proof -
  let ?s1 = "client_side opts oc clk uuid (ClientMessage c (Some v)) s"
  let ?g = "bk_gateway s" and ?src = "bk_source s"
  let ?k = "rg_callCount ?g" and ?rep = "Reply c rf ctx"
  let ?g1 = "?g\<lparr>rg_calls := rg_calls ?g @ [(?k, ?rep)], rg_callCount := Suc ?k\<rparr>"
  let ?src1 = "?src\<lparr>gs_pending := AList.update i (rf_method rf, External ?k) (gs_pending ?src)\<rparr>"
  have gw: "rg_step opts (ClientMessage c (Some v)) ?g
      = (?g1, [Call ?k (CallSource (rf_method rf) (rf_payload rf))])"
    using assms(4-6) by (simp add: handleSocketMessage_def handleRequestFrame_def call_outside_def seq_def)
  have src: "gs_step oc clk (Request ?k (rf_method rf) (rf_payload rf) uuid) ?src = (?src1,
      [StartTimer i (nullish (oc_requestTimeoutMs oc) 30000), SendJson n (request_json i (rf_method rf) (rf_payload rf))])"
    using source_sends_request [OF assms(1-3)] assms(8) by simp
  have s1: "?s1 = (\<lparr>bk_source = ?src1, bk_gateway = ?g1\<rparr>,
      map GatewayEffect [Call ?k (CallSource (rf_method rf) (rf_payload rf))]
      @ map SourceEffect [StartTimer i (nullish (oc_requestTimeoutMs oc) 30000),
          SendJson n (request_json i (rf_method rf) (rf_payload rf))])"
    by (simp add: client_side_def source_side_def lift_gateway_def lift_source_def gw src
        List.map_filter_def seq_def del: rg_step.simps gs_step.simps)
  have ans: "gs_step oc clk (SocketMessage n (Some (res_json i p)) u) ?src1
      = (?src, [ClearTimer i, Settle ?k (Inr (Some p))])"
    using source_answers_call [of ?src1 i "rf_method rf" ?k "gs_pending ?src" oc clk n p u] assms(9,10) by simp
  have "map_of (rg_calls ?g) ?k = None"
    using assms(7) by (force simp: calls_ok_def map_of_eq_None_iff)
  then have call: "map_of (rg_calls ?g1) ?k = Some ?rep" by (simp add: map_add_def)
  have "sent_to_clients (snd (source_side opts oc clk (SocketMessage n (Some (res_json i p)) u) (fst ?s1)))
      = [(c, ResponseF \<lparr>sf_id = rf_id rf, sf_ok = True, sf_payload = Some p, sf_error = None\<rparr>)]
    \<and> sent_upstream (snd (source_side opts oc clk (SocketMessage n (Some (res_json i p)) u) (fst ?s1))) = []"
    using call rg_step.simps(5) by (simp add: sent_upstream_def s1 source_side_def lift_source_def lift_gateway_def ans List.map_filter_def seq_def
        outside_answer_def resume_def request_done_def respond_def ok_response_def
        del: gs_step.simps)
  then show ?thesis by (simp add: s1 Let_def sent_to_clients_def sent_upstream_def List.map_filter_def)
qed

text \<open>The request of client 0 above, on a connected source.\<close>

definition demo_backed :: backed_state where
  "demo_backed = \<lparr>bk_source = new_source\<lparr>gs_hello := Some (JObj []), gs_socket := Some 0,
       gs_ready := (\<lambda>_. OpenState)\<rparr>,
     bk_gateway = new_gateway\<lparr>rg_contexts := [0 \<mapsto> resolveClientContext demo_options None ''u'' ''t'']\<rparr>\<rparr>"

end
