(* ===== verification/MirrorClient.thy ===== *)
theory MirrorClient
  imports RealtimeGateway
begin

text \<open>
  The Product API's client of the realtime gateway
  (packages/product-api-server/src/realtime-mirror-client.ts): one WebSocket at a time, opened
  again some time after it closed, whose event frames are mirrored into the repository. Sockets
  and timers are numbered; a socket emits \<open>close\<close> once. A message arrives decoded, \<open>None\<close> when
  \<open>JSON.parse\<close> fails.
\<close>

section \<open>Frames\<close>

definition MIRROR_EVENTS :: "(string \<times> mirror_event) list" where
  "MIRROR_EVENTS = [(''chat'', MChat), (''session.message'', MSessionMessage),
     (''sessions.changed'', MSessionsChanged), (''run.status'', MRunStatus), (''tool.status'', MToolStatus),
     (''approval.requested'', MApprovalRequested), (''approval.resolved'', MApprovalResolved)]"

definition isGatewayFrame :: "jsval \<Rightarrow> bool" where
  "isGatewayFrame v \<longleftrightarrow> is_plain_object v \<and> as_str (getp (the v) ''type'') \<noteq> None"

definition parseFrame :: "json option \<Rightarrow> json option" where
  "parseFrame parsed = (if isGatewayFrame parsed then parsed else None)"

text \<open>\<open>isMirrorEventFrame\<close>, with the event it lets through.\<close>

definition mirrorEventFrame :: "json \<Rightarrow> mirror_event option" where
  "mirrorEventFrame frame =
     (if getp frame ''type'' = Some (JStr ''event'')
      then Option.bind (as_str (getp frame ''event'')) (map_of MIRROR_EVENTS) else None)"

section \<open>State\<close>

datatype mc_effect =
    McOpenSocket nat string
  | McStartTimer nat int
  | McClearTimer nat
  | McTerminate nat
  | McCloseSocket nat
  | McClosedCall nat
  | McInfo string
  | McError string
  | McUncaught js_error

record 's mc_state =
  mc_repo :: 's
  mc_socket :: "nat option"
  mc_ready :: "nat \<Rightarrow> ready_state"
  mc_timer :: "nat option"
  mc_stopped :: bool
  mc_closers :: "(nat \<times> nat) list"
  mc_sockets :: nat
  mc_timers :: nat

type_synonym 's mc_act = "('s mc_state, mc_effect) act"

record mc_options =
  mo_url :: string
  mo_reconnectDelayMs :: "int option"

section \<open>Handlers\<close>

definition clearReconnectTimer :: "'s mc_act" where
  "clearReconnectTimer = with_state (\<lambda>s.
     case mc_timer s of
       None \<Rightarrow> skip
     | Some t \<Rightarrow> seq (emit [McClearTimer t]) (update (\<lambda>s. s\<lparr>mc_timer := None\<rparr>)))"

definition scheduleReconnect :: "mc_options \<Rightarrow> 's mc_act" where
  "scheduleReconnect opts = with_state (\<lambda>s.
     if mc_stopped s \<or> mc_timer s \<noteq> None then skip
     else seq (emit [McStartTimer (mc_timers s) (nullish (mo_reconnectDelayMs opts) 1000)])
            (update (\<lambda>s. s\<lparr>mc_timer := Some (mc_timers s), mc_timers := Suc (mc_timers s)\<rparr>)))"

definition mc_handleMessage :: "'s repository \<Rightarrow> clock \<Rightarrow> json option \<Rightarrow> 's mc_act" where
  "mc_handleMessage R clk raw =
     (case parseFrame raw of
        None \<Rightarrow> skip
      | Some frame \<Rightarrow>
          (case mirrorEventFrame frame of
             None \<Rightarrow> skip
           | Some ev \<Rightarrow> with_state (\<lambda>s.
               case mirrorRealtimeEvent R clk ev (getp frame ''payload'') (mc_repo s) of
                 Inl e \<Rightarrow> emit [McUncaught e]
               | Inr r \<Rightarrow> update (\<lambda>s. s\<lparr>mc_repo := r\<rparr>))))"

definition mc_connect :: "mc_options \<Rightarrow> 's mc_act" where
  "mc_connect opts = with_state (\<lambda>s.
     if mc_stopped s then skip
     else seq (emit [McOpenSocket (mc_sockets s) (mo_url opts)])
            (update (\<lambda>s. s\<lparr>mc_socket := Some (mc_sockets s),
               mc_ready := (mc_ready s)(mc_sockets s := Connecting), mc_sockets := Suc (mc_sockets s)\<rparr>)))"

text \<open>The close event of socket \<open>n\<close>; the calls of \<open>close\<close> that wait for it return.\<close>

definition mc_socket_closed :: "mc_options \<Rightarrow> nat \<Rightarrow> 's mc_act" where
  "mc_socket_closed opts n = with_state (\<lambda>s.
     if n \<ge> mc_sockets s \<or> mc_ready s n = ClosedState then skip
     else act_all
       [update (\<lambda>s. s\<lparr>mc_ready := (mc_ready s)(n := ClosedState),
          mc_socket := (if mc_socket s = Some n then None else mc_socket s),
          mc_closers := filter (\<lambda>c. fst c \<noteq> n) (mc_closers s)\<rparr>),
        scheduleReconnect opts,
        emit (map (\<lambda>c. McClosedCall (snd c)) (filter (\<lambda>c. fst c = n) (mc_closers s)))])"

definition mc_timer_fired :: "mc_options \<Rightarrow> nat \<Rightarrow> 's mc_act" where
  "mc_timer_fired opts t = with_state (\<lambda>s.
     if mc_timer s \<noteq> Some t then skip
     else seq (update (\<lambda>s. s\<lparr>mc_timer := None\<rparr>)) (mc_connect opts))"

text \<open>A call of \<open>close\<close>, numbered \<open>k\<close>.\<close>

definition mc_close :: "nat \<Rightarrow> 's mc_act" where
  "mc_close k = act_all
     [update (\<lambda>s. s\<lparr>mc_stopped := True\<rparr>), clearReconnectTimer,
      with_state (\<lambda>s. seq (update (\<lambda>s. s\<lparr>mc_socket := None\<rparr>))
        (case mc_socket s of
           None \<Rightarrow> emit [McClosedCall k]
         | Some n \<Rightarrow>
             if mc_ready s n = ClosedState then emit [McClosedCall k]
             else seq (update (\<lambda>s. s\<lparr>mc_closers := mc_closers s @ [(n, k)],
                        mc_ready := (mc_ready s)(n := Closing)\<rparr>))
                    (emit [if mc_ready s n = Connecting then McTerminate n else McCloseSocket n])))]"

datatype mc_event =
    McOpened nat
  | McMessage nat clock "json option"
  | McFailed nat
  | McClosed nat
  | McTimer nat
  | McClose nat

fun mc_step :: "'s repository \<Rightarrow> mc_options \<Rightarrow> mc_event \<Rightarrow> 's mc_act" where
  "mc_step R opts (McOpened n) =
     seq (update (\<lambda>s. s\<lparr>mc_ready := (if mc_ready s n = Connecting then (mc_ready s)(n := OpenState) else mc_ready s)\<rparr>))
       (emit [McInfo (''[vertx-api] realtime mirror connected to '' @ mo_url opts)])"
| "mc_step R opts (McMessage n clk raw) = mc_handleMessage R clk raw"
| "mc_step R opts (McFailed n) = emit [McError ''[vertx-api] realtime mirror websocket error'']"
| "mc_step R opts (McClosed n) = mc_socket_closed opts n"
| "mc_step R opts (McTimer t) = mc_timer_fired opts t"
| "mc_step R opts (McClose k) = mc_close k"

definition new_mirror_client :: "'s \<Rightarrow> 's mc_state" where
  "new_mirror_client r = \<lparr>mc_repo = r, mc_socket = None, mc_ready = (\<lambda>_. Connecting), mc_timer = None,
     mc_stopped = False, mc_closers = [], mc_sockets = 0, mc_timers = 0\<rparr>"

definition mc_run :: "'s repository \<Rightarrow> mc_options \<Rightarrow> mc_event list \<Rightarrow> 's mc_act" where
  "mc_run R opts evs = for_each (mc_step R opts) evs"

definition startRealtimeMirrorClient :: "'s repository \<Rightarrow> mc_options \<Rightarrow> mc_event list \<Rightarrow> 's mc_act" where
  "startRealtimeMirrorClient R opts evs = seq (mc_connect opts) (mc_run R opts evs)"

section \<open>One connection\<close>

text \<open>The sockets that have not closed.\<close>

definition mc_live :: "'s mc_state \<Rightarrow> nat \<Rightarrow> bool" where
  "mc_live s n \<longleftrightarrow> n < mc_sockets s \<and> mc_ready s n \<noteq> ClosedState"

text \<open>
  At most one socket lives. Before \<open>close\<close> it is the current one and no timer is set, or none
  lives and a timer is set; after \<open>close\<close> no timer is set and no socket is current, and every
  call of \<open>close\<close> that has not returned waits for a socket that lives.
\<close>

definition mc_inv :: "'s mc_state \<Rightarrow> bool" where
  "mc_inv s \<longleftrightarrow>
     (if mc_stopped s
      then mc_timer s = None \<and> mc_socket s = None \<and> (\<forall>m n. mc_live s m \<longrightarrow> mc_live s n \<longrightarrow> m = n)
        \<and> (\<forall>c\<in>set (mc_closers s). mc_live s (fst c))
      else mc_closers s = [] \<and>
        (case mc_timer s of
           None \<Rightarrow> (\<exists>n. mc_socket s = Some n \<and> (\<forall>m. mc_live s m \<longleftrightarrow> m = n))
         | Some t \<Rightarrow> mc_socket s = None \<and> (\<forall>m. \<not> mc_live s m)))"

lemma mc_inv_same:
  "mc_inv s \<Longrightarrow> mc_stopped t = mc_stopped s \<Longrightarrow> mc_timer t = mc_timer s \<Longrightarrow> mc_socket t = mc_socket s
   \<Longrightarrow> mc_closers t = mc_closers s \<Longrightarrow> (\<And>n. mc_live t n = mc_live s n) \<Longrightarrow> mc_inv t"
  by (simp only: mc_inv_def)

lemma mc_inv_current:
  assumes "mc_inv s" and "\<not> mc_stopped s"
  shows "mc_live s n \<longleftrightarrow> mc_socket s = Some n" and "mc_timer s = None \<longleftrightarrow> (\<exists>n. mc_socket s = Some n)"
proof -
  have "(case mc_timer s of
      None \<Rightarrow> \<exists>n. mc_socket s = Some n \<and> (\<forall>m. mc_live s m \<longleftrightarrow> m = n)
    | Some t \<Rightarrow> mc_socket s = None \<and> (\<forall>m. \<not> mc_live s m))"
    using assms by (simp add: mc_inv_def)
  then consider n where "mc_timer s = None" "mc_socket s = Some n" "\<forall>m. mc_live s m \<longleftrightarrow> m = n"
    | t where "mc_timer s = Some t" "mc_socket s = None" "\<forall>m. \<not> mc_live s m"
    by (cases "mc_timer s") auto
  then show "mc_live s n \<longleftrightarrow> mc_socket s = Some n" and "mc_timer s = None \<longleftrightarrow> (\<exists>n. mc_socket s = Some n)"
    by (cases; force)+
qed

lemma mc_inv_message: "mc_inv s \<Longrightarrow> mc_inv (fst (mc_handleMessage R clk raw s))"
  by (erule mc_inv_same)
     (simp_all add: mc_handleMessage_def mc_live_def split: option.split sum.split)

lemma mc_inv_opened: "mc_inv s \<Longrightarrow> mc_inv (fst (mc_step R opts (McOpened n) s))"
  by (erule mc_inv_same) (simp_all add: mc_live_def)

lemma mc_inv_closed:
  assumes "mc_inv s"
  shows "mc_inv (fst (mc_socket_closed opts n s))"
proof (cases "mc_live s n")
  case False
  with assms show ?thesis by (simp add: mc_socket_closed_def mc_live_def not_less)
next
  case True
  show ?thesis
  proof (cases "mc_stopped s")
    case stopped: True
    with assms True show ?thesis
      by (auto simp: mc_socket_closed_def mc_inv_def mc_live_def scheduleReconnect_def split: if_splits)
  next
    case False
    with assms True obtain "mc_timer s = None" "mc_socket s = Some n" "\<forall>m. mc_live s m \<longleftrightarrow> m = n"
        "mc_closers s = []"
      by (auto simp: mc_inv_def split: option.splits)
    with False True show ?thesis
      by (auto simp: mc_socket_closed_def mc_inv_def mc_live_def scheduleReconnect_def)
  qed
qed

lemma mc_inv_timer: "mc_inv s \<Longrightarrow> mc_inv (fst (mc_timer_fired opts t s))"
  by (cases "mc_stopped s")
     (auto simp: mc_timer_fired_def mc_inv_def mc_live_def mc_connect_def less_Suc_eq split: option.splits)

lemma mc_inv_close:
  assumes "mc_inv s"
  shows "mc_inv (fst (mc_close k s)) \<and> mc_stopped (fst (mc_close k s))"
proof (cases "mc_stopped s \<or> mc_timer s \<noteq> None")
  case True
  with assms show ?thesis
    by (auto simp: mc_close_def mc_inv_def clearReconnectTimer_def mc_live_def split: option.splits if_splits)
next
  case False
  with assms obtain n where "mc_timer s = None" "mc_socket s = Some n" "\<forall>m. mc_live s m \<longleftrightarrow> m = n"
      "mc_closers s = []"
    by (auto simp: mc_inv_def split: option.splits)
  with False show ?thesis
    by (auto simp: mc_close_def mc_inv_def clearReconnectTimer_def mc_live_def)
qed

lemma mc_inv_step: "mc_inv s \<Longrightarrow> mc_inv (fst (mc_step R opts ev s))"
  by (cases ev)
     (simp_all add: mc_inv_message mc_inv_opened mc_inv_closed mc_inv_timer mc_inv_close del: mc_step.simps(1)
       mc_step.simps(2) | simp add: mc_inv_message)+

lemma mc_inv_run: "mc_inv s \<Longrightarrow> mc_inv (fst (mc_run R opts evs s))"
  by (induction evs arbitrary: s) (simp_all add: mc_run_def mc_inv_step)

lemma mc_inv_start: "mc_inv (fst (mc_connect opts (new_mirror_client r)))"
  by (simp add: mc_connect_def new_mirror_client_def mc_inv_def mc_live_def)

lemma mc_inv_reachable: "mc_inv (fst (startRealtimeMirrorClient R opts evs (new_mirror_client r)))"
  by (simp add: startRealtimeMirrorClient_def mc_inv_run mc_inv_start)

section \<open>After close\<close>

definition opens_or_retries :: "mc_effect \<Rightarrow> bool" where
  "opens_or_retries e \<longleftrightarrow> (case e of McOpenSocket n u \<Rightarrow> True | McStartTimer t d \<Rightarrow> True | _ \<Rightarrow> False)"

lemma opens_or_retries_simps [simp]:
  "opens_or_retries (McOpenSocket n u)" "opens_or_retries (McStartTimer t d)"
  "\<not> opens_or_retries (McClearTimer t)" "\<not> opens_or_retries (McTerminate n)"
  "\<not> opens_or_retries (McCloseSocket n)" "\<not> opens_or_retries (McClosedCall k)"
  "\<not> opens_or_retries (McInfo m)" "\<not> opens_or_retries (McError m)" "\<not> opens_or_retries (McUncaught x)"
  by (simp_all add: opens_or_retries_def)

lemma stopped_message:
  "mc_stopped (fst (mc_handleMessage R clk raw s)) = mc_stopped s"
  "e \<in> set (snd (mc_handleMessage R clk raw s)) \<Longrightarrow> \<not> opens_or_retries e"
  by (auto simp: mc_handleMessage_def split: option.splits sum.splits)

lemma stopped_step:
  assumes "mc_stopped s"
  shows "mc_stopped (fst (mc_step R opts ev s)) \<and> (\<forall>e\<in>set (snd (mc_step R opts ev s)). \<not> opens_or_retries e)"
proof (cases ev)
  case (McMessage n clk raw)
  with assms show ?thesis by (auto simp: stopped_message(1) dest: stopped_message(2))
qed (use assms in \<open>auto simp: mc_socket_closed_def scheduleReconnect_def mc_timer_fired_def mc_connect_def
    mc_close_def clearReconnectTimer_def split: option.splits if_splits\<close>)

lemma stopped_run:
  "mc_stopped s \<Longrightarrow> e \<in> set (snd (mc_run R opts evs s)) \<Longrightarrow> \<not> opens_or_retries e"
proof (induction evs arbitrary: s)
  case (Cons ev evs)
  with stopped_step [of s R opts ev] show ?case by (auto simp: mc_run_def)
qed (simp add: mc_run_def)

lemma close_returns:
  assumes "mc_inv s"
  shows "McClosedCall k \<in> set (snd (mc_close k s))
    \<or> (\<exists>n. mc_live (fst (mc_close k s)) n \<and> McClosedCall k \<in> set (snd (mc_socket_closed opts n (fst (mc_close k s)))))"
proof (cases "mc_socket s")
  case None
  then show ?thesis by (auto simp: mc_close_def clearReconnectTimer_def split: option.split)
next
  case (Some n)
  with assms have "mc_live s n" "mc_timer s = None"
    by (auto simp: mc_inv_def split: if_splits option.splits)
  with Some show ?thesis
    by (intro disjI2 exI [of _ n])
       (auto simp: mc_close_def clearReconnectTimer_def mc_live_def mc_socket_closed_def)
qed

section \<open>Frames of the gateway\<close>

lemma frame_object: "\<exists>kvs. frame_json f = JObj kvs"
  by (cases f) (simp_all add: mk_obj_def)

lemma frame_type:
  "getp (frame_json (HelloF h)) ''type'' = Some (JStr ''hello'')"
  "getp (frame_json (RequestF q)) ''type'' = Some (JStr ''req'')"
  "getp (frame_json (ResponseF r)) ''type'' = Some (JStr ''res'')"
  "getp (frame_json (ErrorF c m)) ''type'' = Some (JStr ''error'')"
  "getp (frame_json (EventF e)) ''type'' = Some (JStr ''event'')"
  by (simp, rule request_frame_fields, rule response_frame_fields, simp, rule event_frame_fields)

lemma parse_frame: "parseFrame (Some (json_wire (frame_json f))) = Some (json_wire (frame_json f))"
proof -
  have "\<exists>x. getp (frame_json f) ''type'' = Some (JStr x)"
    using frame_type by (cases f) blast+
  then have "as_str (getp (json_wire (frame_json f)) ''type'') \<noteq> None"
    unfolding getp_wire by auto
  moreover have "is_plain_object (Some (json_wire (frame_json f)))"
    using frame_object [of f] by auto
  ultimately show ?thesis by (simp add: parseFrame_def isGatewayFrame_def)
qed

definition mirrored_event :: "gateway_event \<Rightarrow> mirror_event option" where
  "mirrored_event ev = map_of MIRROR_EVENTS (event_name ev)"

lemma mirror_event_frame:
  "mirrorEventFrame (json_wire (frame_json f)) = (case f of EventF e \<Rightarrow> mirrored_event (ef_event e) | _ \<Rightarrow> None)"
  by (cases f) (simp_all only: mirrorEventFrame_def getp_wire frame_type event_frame_fields option.map
      json_wire.simps as_str.simps gateway_frame.case mirrored_event_def Option.bind.simps if_True
      option.inject json.inject list.inject char.inject simp_thms refl if_False list.distinct)

section \<open>Properties\<close>

text \<open>
  C28: the Product API's connection to the realtime gateway is never lost for good and never
  doubled: in every reachable state at most one socket has not closed, and as long as the client
  is not closed either that one is current and no reconnect timer is set, or there is none and a
  timer is set. After a call of \<open>close\<close> no event opens a socket or sets a timer any more, and
  the call returns at once or at the close event of the socket that still lives.
\<close>

theorem mirror_client_lifecycle:
  assumes "s = fst (startRealtimeMirrorClient R opts evs (new_mirror_client r))"
  shows "(\<forall>m n. mc_live s m \<longrightarrow> mc_live s n \<longrightarrow> m = n)
    \<and> (\<not> mc_stopped s \<longrightarrow> (mc_timer s = None \<longleftrightarrow> (\<exists>n. mc_live s n))
          \<and> (\<forall>n. mc_live s n \<longleftrightarrow> mc_socket s = Some n))
    \<and> (let (t, es) = mc_step R opts (McClose k) s in
        (\<forall>e\<in>set (snd (mc_run R opts evs' t)). \<not> opens_or_retries e)
        \<and> (McClosedCall k \<in> set es
           \<or> (\<exists>n. mc_live t n \<and> McClosedCall k \<in> set (snd (mc_step R opts (McClosed n) t)))))"
proof -
  have inv: "mc_inv s" unfolding assms by (rule mc_inv_reachable)
  have one: "\<forall>m n. mc_live s m \<longrightarrow> mc_live s n \<longrightarrow> m = n"
    using inv by (auto simp: mc_inv_def split: if_splits option.splits)
  have cur: "\<not> mc_stopped s \<longrightarrow> (mc_timer s = None \<longleftrightarrow> (\<exists>n. mc_live s n))
      \<and> (\<forall>n. mc_live s n \<longleftrightarrow> mc_socket s = Some n)"
    using mc_inv_current [OF inv] by simp
  have "mc_stopped (fst (mc_close k s))" using mc_inv_close [OF inv] by blast
  then have "\<forall>e\<in>set (snd (mc_run R opts evs' (fst (mc_close k s)))). \<not> opens_or_retries e"
    using stopped_run by blast
  with close_returns [OF inv, of k opts]
  have "let (t, es) = mc_step R opts (McClose k) s in
        (\<forall>e\<in>set (snd (mc_run R opts evs' t)). \<not> opens_or_retries e)
        \<and> (McClosedCall k \<in> set es
           \<or> (\<exists>n. mc_live t n \<and> McClosedCall k \<in> set (snd (mc_step R opts (McClosed n) t))))"
    by (simp add: split_beta Let_def)
  with one cur show ?thesis by blast
qed

lemma mirror_client_lifecycle_witness:
  "let s = fst (startRealtimeMirrorClient im_repo \<lparr>mo_url = ''ws://g'', mo_reconnectDelayMs = None\<rparr>
        [McOpened 0, McClosed 0, McTimer 0] (new_mirror_client createMockProductApiState))
   in mc_live s 1 \<and> mc_timer s = None
      \<and> (\<forall>n. mc_live s n \<longleftrightarrow> mc_socket s = Some n)"
proof -
  let ?o = "\<lparr>mo_url = ''ws://g'', mo_reconnectDelayMs = None\<rparr>"
  let ?s = "fst (startRealtimeMirrorClient im_repo ?o [McOpened 0, McClosed 0, McTimer 0]
      (new_mirror_client createMockProductApiState))"
  have "mc_live ?s 1" "\<not> mc_stopped ?s"
    by (simp_all add: startRealtimeMirrorClient_def mc_run_def mc_connect_def new_mirror_client_def
        mc_socket_closed_def scheduleReconnect_def mc_timer_fired_def mc_live_def)
  with mirror_client_lifecycle [OF refl, of im_repo ?o "[McOpened 0, McClosed 0, McTimer 0]"
      createMockProductApiState] show ?thesis
    unfolding Let_def by blast
qed

text \<open>
  What the gateway publishes is what the Product API mirrors: an event frame that reaches the
  mirror client as JSON is handed to the mirror under its own name with its own payload, for every
  event name but \<open>agent\<close> and \<open>shutdown\<close>; an exception of the mirror is not caught; and every
  other frame of the gateway leaves the repository alone.
\<close>

theorem published_event_is_mirrored:
  "mc_step R opts (McMessage n clk (Some (json_wire (frame_json f)))) s =
     (case f of
        EventF e \<Rightarrow>
          (case mirrored_event (ef_event e) of
             None \<Rightarrow> (s, [])
           | Some ev \<Rightarrow>
               (case mirrorRealtimeEvent R clk ev (map_option json_wire (ef_payload e)) (mc_repo s) of
                  Inl x \<Rightarrow> (s, [McUncaught x])
                | Inr r \<Rightarrow> (s\<lparr>mc_repo := r\<rparr>, [])))
      | _ \<Rightarrow> (s, []))
   \<and> (mirrored_event ev = None \<longleftrightarrow> ev = EvAgent \<or> ev = EvShutdown)"
proof
  show "mirrored_event ev = None \<longleftrightarrow> ev = EvAgent \<or> ev = EvShutdown"
    by (cases ev) (simp_all add: mirrored_event_def MIRROR_EVENTS_def)
qed (simp add: mc_handleMessage_def parse_frame mirror_event_frame getp_wire event_frame_fields
    del: frame_json.simps getp.simps split: gateway_frame.split option.split sum.split)

end
