(* ===== verification/GatewayServer.thy ===== *)
theory GatewayServer
  imports RealtimeGateway HttpServer
begin

text \<open>
  The process around the realtime gateway (packages/realtime-gateway-server/src/index.ts): its
  health endpoint, the way upgrades reach the gateway, start-up from the environment, and the
  handling of signals. As for the Product API, a request carries the path name that \<open>new URL\<close>
  reads from its target, \<open>None\<close> when that throws; neither callback has a \<open>try\<close> around it, so the
  exception leaves the event handler and ends the process.
\<close>

section \<open>Requests\<close>

datatype 'a handled = Handled 'a | UncaughtThrow

definition gateway_json :: "nat \<Rightarrow> json \<Rightarrow> http_response" where
  "gateway_json status body =
     \<lparr>rs_status = status, rs_headers = [(''content-type'', ''application/json; charset=utf-8'')],
      rs_body = Some body\<rparr>"

definition handleHealthRequest :: "gateway_config \<Rightarrow> http_request \<Rightarrow> http_response handled" where
  "handleHealthRequest cfg rq =
     (case rq_pathname rq of
        None \<Rightarrow> UncaughtThrow
      | Some pathname \<Rightarrow> Handled
          (if rq_method rq = ''GET'' \<and> pathname = gc_healthPath cfg
           then gateway_json 200 (JObj [(''ok'', JBool True), (''service'', JStr ''vertx-realtime-gateway''),
                  (''workspaceId'', JStr (gc_workspaceId cfg))])
           else gateway_json 404 (JObj [(''ok'', JBool False), (''error'', JStr ''not_found'')])))"

text \<open>The options the process gives the gateway: no methods, events, handlers or snapshot of its own.\<close>

definition process_options :: "gateway_config \<Rightarrow> gateway_options" where
  "process_options cfg = backed_options
     \<lparr>go_workspaceId = gc_workspaceId cfg, go_path = Some (gc_path cfg),
      go_serverVersion = Some (gc_serverVersion cfg), go_methods = None, go_events = None,
      go_backend = NoBackend, go_snapshotOption = False, go_sourceSnapshot = False\<rparr>"

definition handleUpgrade :: "gateway_config \<Rightarrow> http_request \<Rightarrow> rg_effect list handled" where
  "handleUpgrade cfg rq =
     (case rq_pathname rq of
        None \<Rightarrow> UncaughtThrow
      | Some pathname \<Rightarrow> Handled (upgrade_handler (process_options cfg) pathname))"

section \<open>Start-up and shutdown\<close>

datatype process_effect =
    CreateGateway gateway_options openclaw_config
  | CloseGatewayServer
  | CloseHttpServer
  | LogLine string
  | LogError string
  | ExitCode nat

record gateway_runtime =
  gr_config :: gateway_config
  gr_url :: string
  gr_healthUrl :: string

definition startRealtimeGatewayServer ::
    "gateway_config \<Rightarrow> listen_outcome \<Rightarrow> (js_error + gateway_runtime) \<times> process_effect list" where
  "startRealtimeGatewayServer cfg outcome =
     (let created = CreateGateway (process_options cfg) (gc_openclaw cfg)
      in case outcome of
           ListenFailed e \<Rightarrow> (Inl e, [created, CloseGatewayServer])
         | ListeningOn None \<Rightarrow>
             (Inl (PlainError ''realtime gateway server did not expose an inet address''),
              [created, CloseGatewayServer, CloseHttpServer])
         | ListeningOn (Some port) \<Rightarrow>
             (let url = wsBaseUrl (gc_host cfg) port @ gc_path cfg;
                  healthUrl = httpBaseUrl (gc_host cfg) port @ gc_healthPath cfg
              in (Inr \<lparr>gr_config = cfg\<lparr>gc_port := int port\<rparr>, gr_url = url, gr_healthUrl = healthUrl\<rparr>,
                  [created, LogLine (''[vertx-realtime] listening on '' @ url),
                   LogLine (''[vertx-realtime] health check on '' @ healthUrl)])))"

text \<open>\<open>runtime.close\<close>: the gateway first, then the HTTP server.\<close>

definition close_gateway_runtime :: "process_effect list" where
  "close_gateway_runtime = [CloseGatewayServer, CloseHttpServer]"

definition gateway_shutdown :: "string \<Rightarrow> bool \<Rightarrow> bool \<Rightarrow> bool \<times> process_effect list" where
  "gateway_shutdown signal close_fails closing =
     (if closing then (True, [])
      else (True, LogLine (''[vertx-realtime] received '' @ signal @ '', shutting down...'') #
             close_gateway_runtime @
             (if close_fails then [LogError ''[vertx-realtime] shutdown failed'', ExitCode 1]
              else [LogLine ''[vertx-realtime] shutdown complete''])))"

fun gateway_signals :: "(string \<times> bool) list \<Rightarrow> bool \<Rightarrow> process_effect list" where
  "gateway_signals [] closing = []"
| "gateway_signals ((s, fails) # rest) closing =
     (let (closing', effs) = gateway_shutdown s fails closing in effs @ gateway_signals rest closing')"

text \<open>A run of the process: what \<open>listen\<close> yields, and the signals that arrive afterwards.\<close>

definition runRealtimeGatewayServer ::
    "env \<Rightarrow> listen_outcome \<Rightarrow> (string \<times> bool) list \<Rightarrow> (js_error + gateway_runtime) \<times> process_effect list" where
  "runRealtimeGatewayServer env outcome sigs =
     (case loadRealtimeGatewayServerConfig env of
        Inl e \<Rightarrow> (Inl e, [])
      | Inr cfg \<Rightarrow>
          (case startRealtimeGatewayServer cfg outcome of
             (Inl e, effs) \<Rightarrow> (Inl e, effs)
           | (Inr rt, effs) \<Rightarrow> (Inr rt, effs @ gateway_signals sigs False)))"

section \<open>Lemmas\<close>

lemma signals_once:
  "gateway_signals sigs True = []"
  "count_list (gateway_signals sigs False) CloseGatewayServer = (if sigs = [] then 0 else 1)"
  "CreateGateway opts oc \<notin> set (gateway_signals sigs False)"
proof -
  show quiet: "gateway_signals sigs True = []" for sigs
    by (induction sigs) (auto simp: gateway_shutdown_def)
  show "count_list (gateway_signals sigs False) CloseGatewayServer = (if sigs = [] then 0 else 1)"
    by (cases "(sigs, False)" rule: gateway_signals.cases) (simp_all add: gateway_shutdown_def quiet close_gateway_runtime_def split_beta)
  show "CreateGateway opts oc \<notin> set (gateway_signals sigs False)"
    by (cases "(sigs, False)" rule: gateway_signals.cases) (simp_all add: gateway_shutdown_def quiet close_gateway_runtime_def split_beta)
qed

lemma gateway_config_required:
  assumes "loadRealtimeGatewayServerConfig env = Inr cfg"
  shows "env_trim env ''VERTX_WORKSPACE_ID'' = Some (gc_workspaceId cfg)"
    and "env_trim env ''OPENCLAW_GATEWAY_URL'' = Some (oc_url (gc_openclaw cfg))"
    and "gc_path cfg = normalizePath (env ''VERTX_REALTIME_PATH'') ''/realtime''"
proof -
  have req: "readRequiredEnv env k None = Inr v \<Longrightarrow> env_trim env k = Some v" for k v
    by (auto simp: readRequiredEnv_def nullish_opt_def split: option.splits if_splits)
  from assms show "env_trim env ''VERTX_WORKSPACE_ID'' = Some (gc_workspaceId cfg)"
    and "env_trim env ''OPENCLAW_GATEWAY_URL'' = Some (oc_url (gc_openclaw cfg))"
    and "gc_path cfg = normalizePath (env ''VERTX_REALTIME_PATH'') ''/realtime''"
    unfolding loadRealtimeGatewayServerConfig_def res_bind_def
    by (auto dest!: req simp del: char.inject list.inject split: sum.splits)
qed

section \<open>Properties\<close>

text \<open>
  The realtime gateway process never leaves an upstream connection behind: it connects to
  OpenClaw only with a workspace and a gateway URL from the environment, the gateway it created
  is closed exactly once when starting fails or a first signal arrives (however many follow), and
  stays open when it starts and no signal arrives.
\<close>

theorem gateway_process_closes:
  "case runRealtimeGatewayServer env outcome sigs of
     (r, effs) \<Rightarrow>
       (\<forall>opts oc. CreateGateway opts oc \<in> set effs \<longrightarrow>
          env_trim env ''VERTX_WORKSPACE_ID'' = Some (go_workspaceId opts)
          \<and> env_trim env ''OPENCLAW_GATEWAY_URL'' = Some (oc_url oc) \<and> go_backend opts = SourceBackend)
       \<and> count_list effs CloseGatewayServer
           = (if effs = [] \<or> \<not> isl r \<and> sigs = [] then 0 else 1)
       \<and> (effs = [] \<longleftrightarrow> isl (loadRealtimeGatewayServerConfig env))"
proof (cases "loadRealtimeGatewayServerConfig env")
  case (Inl e)
  then show ?thesis by (simp add: runRealtimeGatewayServer_def)
next
  case (Inr cfg)
  note req = gateway_config_required [OF Inr]
  show ?thesis
    using req signals_once
    by (cases outcome; cases sigs)
       (auto simp: runRealtimeGatewayServer_def Inr startRealtimeGatewayServer_def Let_def
         process_options_def backed_options_def split: option.splits)
qed

definition demo_env :: env where
  "demo_env = [''VERTX_WORKSPACE_ID'' \<mapsto> ''w'', ''OPENCLAW_GATEWAY_URL'' \<mapsto> ''ws://o'']"

lemma demo_env_loads: "\<exists>cfg. loadRealtimeGatewayServerConfig demo_env = Inr cfg"
proof -
  have t: "env_trim demo_env ''VERTX_WORKSPACE_ID'' = Some ''w''"
    "env_trim demo_env ''OPENCLAW_GATEWAY_URL'' = Some ''ws://o''"
    by (simp_all add: demo_env_def env_trim_def trim_eval)
  have n: "env_trim demo_env k = None" if "k \<noteq> ''VERTX_WORKSPACE_ID''" "k \<noteq> ''OPENCLAW_GATEWAY_URL''" for k
    using that by (simp add: demo_env_def env_trim_def)
  have req: "readRequiredEnv demo_env ''VERTX_WORKSPACE_ID'' None = Inr ''w''"
    "readRequiredEnv demo_env ''OPENCLAW_GATEWAY_URL'' None = Inr ''ws://o''"
    by (simp_all add: readRequiredEnv_def t nullish_opt_def)
  have num: "readOptionalNumberEnv demo_env k = Inr None \<and> readOptionalBooleanEnv demo_env k = Inr None"
    if "k \<noteq> ''VERTX_WORKSPACE_ID''" "k \<noteq> ''OPENCLAW_GATEWAY_URL''" for k
    by (simp add: readOptionalNumberEnv_def readOptionalBooleanEnv_def n that)
  show ?thesis by (simp add: loadRealtimeGatewayServerConfig_def req num)
qed

lemma gateway_process_closes_witness:
  "\<exists>opts oc. CreateGateway opts oc \<in> set (snd (runRealtimeGatewayServer demo_env (ListeningOn None) []))
     \<and> go_workspaceId opts = ''w'' \<and> oc_url oc = ''ws://o''
     \<and> count_list (snd (runRealtimeGatewayServer demo_env (ListeningOn None) [])) CloseGatewayServer = 1"
proof -
  obtain cfg where cfg: "loadRealtimeGatewayServerConfig demo_env = Inr cfg" using demo_env_loads by blast
  let ?r = "runRealtimeGatewayServer demo_env (ListeningOn None) []"
  have c: "CreateGateway (process_options cfg) (gc_openclaw cfg) \<in> set (snd ?r)" "isl (fst ?r)" "snd ?r \<noteq> []"
    by (simp_all add: runRealtimeGatewayServer_def cfg startRealtimeGatewayServer_def)
  have e: "env_trim demo_env ''VERTX_WORKSPACE_ID'' = Some ''w''"
    "env_trim demo_env ''OPENCLAW_GATEWAY_URL'' = Some ''ws://o''"
    by (simp_all add: demo_env_def env_trim_def trim_eval)
  have "go_workspaceId (process_options cfg) = ''w'' \<and> oc_url (gc_openclaw cfg) = ''ws://o''
      \<and> count_list (snd ?r) CloseGatewayServer = 1"
    using gateway_process_closes [where env = demo_env and outcome = "ListeningOn None" and sigs = "[]"] c e
    by (auto simp: split_beta)
  with c show ?thesis by blast
qed

text \<open>
  The gateway's HTTP surface: a request is answered 200 exactly for \<open>GET\<close> on the health path,
  404 otherwise, and an upgrade is accepted exactly on the configured path; but a target that the
  URL parser rejects is answered by neither: the exception leaves the event handler uncaught.
\<close>

theorem gateway_http_surface:
  "(handleHealthRequest cfg rq = UncaughtThrow \<longleftrightarrow> rq_pathname rq = None)
   \<and> (handleUpgrade cfg rq = UncaughtThrow \<longleftrightarrow> rq_pathname rq = None)
   \<and> (\<exists>rs. rq_pathname rq \<noteq> None \<longrightarrow> handleHealthRequest cfg rq = Handled rs
        \<and> rs_status rs = (if rq_method rq = ''GET'' \<and> rq_pathname rq = Some (gc_healthPath cfg) then 200 else 404))
   \<and> (handleUpgrade cfg rq = Handled [AcceptUpgrade] \<longleftrightarrow> rq_pathname rq = Some (gc_path cfg))"
  by (cases "rq_pathname rq")
     (auto simp: handleHealthRequest_def handleUpgrade_def gateway_json_def upgrade_handler_def
       process_options_def backed_options_def nullish_def)

lemma gateway_http_surface_witness:
  "\<exists>rs. handleHealthRequest
      \<lparr>gc_host = ''h'', gc_port = 1, gc_path = ''/realtime'', gc_healthPath = ''/healthz'', gc_workspaceId = ''w'',
       gc_serverVersion = ''0.1.0'', gc_openclaw = no_options\<rparr>
      \<lparr>rq_method = ''GET'', rq_pathname = Some ''/healthz'', rq_body = NoBody\<rparr> = Handled rs \<and> rs_status rs = 200"
proof -
  let ?c = "\<lparr>gc_host = ''h'', gc_port = 1, gc_path = ''/realtime'', gc_healthPath = ''/healthz'', gc_workspaceId = ''w'',
       gc_serverVersion = ''0.1.0'', gc_openclaw = no_options\<rparr>"
  let ?q = "\<lparr>rq_method = ''GET'', rq_pathname = Some ''/healthz'', rq_body = NoBody\<rparr>"
  show ?thesis using gateway_http_surface [of ?c ?q] by simp
qed

end
