(* ===== verification/RealtimeState.thy ===== *)
theory RealtimeState
  imports MirrorClient GatewayServer
begin

text \<open>
  The state of the session page and its reducer (app/web/src/shared/realtime/state.ts). Frames
  arrive as the JSON the gateway sent, so a field has whatever type the JSON has; reading a
  property of an absent or null payload raises a \<open>TypeError\<close> out of the reducer. Keys of the tool
  table are texts other than \<open>__proto__\<close>. \<open>structuredClone\<close> copies: it is the identity here.
\<close>

section \<open>State and actions\<close>

datatype connection_state = CIdle | CConnecting | CConnected | CRecovering | CClosed | CError

datatype chat_role = RoleUser | RoleAssistant

record chat_message =
  cm_id :: string
  cm_role :: chat_role
  cm_text :: string

record stream_segment =
  sg_text :: string
  sg_ts :: int

record queued_message =
  qm_id :: string
  qm_text :: string
  qm_createdAt :: int

record approval_item =
  ap_id :: string
  ap_title :: string

record realtime_state =
  chatMessages :: "chat_message list"
  chatStream :: "string option"
  chatStreamSegments :: "stream_segment list"
  chatStreamStartedAt :: jsval
  chatRunId :: jsval
  chatQueue :: "queued_message list"
  chatSending :: bool
  chatLoading :: bool
  toolStreamById :: "(string \<times> json) list"
  toolStreamOrder :: "jsval list"
  chatToolMessages :: "json list"
  pendingApprovalList :: "approval_item list"
  connectionStatus :: connection_state
  lastSeq :: jsval
  lastHelloSnapshot :: jsval
  lastError :: "string option"

datatype realtime_action =
    SessionReset
  | ConnectStart
  | RecoverStart string
  | ConnectError string
  | ConnectClose
  | Hello json
  | UserQueue string
  | HistoryLoaded "chat_message list"
  | Event json

text \<open>\<open>null\<close> fields of the state that hold any JSON value start as \<open>Some JNull\<close>.\<close>

definition initialRealtimeState :: realtime_state where
  "initialRealtimeState = \<lparr>chatMessages = [], chatStream = None, chatStreamSegments = [],
     chatStreamStartedAt = Some JNull, chatRunId = Some JNull, chatQueue = [], chatSending = False,
     chatLoading = False, toolStreamById = [], toolStreamOrder = [], chatToolMessages = [],
     pendingApprovalList = [], connectionStatus = CIdle, lastSeq = Some JNull,
     lastHelloSnapshot = Some JNull, lastError = None\<rparr>"

section \<open>Values\<close>

text \<open>\<open>payload.key\<close> on a value that may be absent or null.\<close>

definition read_prop :: "jsval \<Rightarrow> string \<Rightarrow> js_error + json" where
  "read_prop payload k =
     (case payload of
        None \<Rightarrow> Inl (TypeError (''Cannot read properties of undefined (reading '' @ [CHR 0x27] @ k @ [CHR 0x27] @ '')''))
      | Some JNull \<Rightarrow> Inl (null_read k)
      | Some p \<Rightarrow> Inr p)"

definition template :: "jsval \<Rightarrow> string" where
  "template v = (case v of None \<Rightarrow> ''undefined'' | Some x \<Rightarrow> js_to_string x)"

text \<open>A text that is not falsy.\<close>

definition nonempty :: "string option \<Rightarrow> string option" where
  "nonempty v = (if v = Some [] then None else v)"

text \<open>
  \<open>Array.includes\<close>: equal primitive values; an object of the payload is none of the copies in the
  state.
\<close>

definition same_value :: "jsval \<Rightarrow> jsval \<Rightarrow> bool" where
  "same_value v w \<longleftrightarrow> v = w \<and> \<not> is_object v"

text \<open>\<open>a ??= b\<close>\<close>

definition nullish_assign :: "jsval \<Rightarrow> jsval \<Rightarrow> jsval" where
  "nullish_assign a b = js_nullish a b"

section \<open>Helpers of the reducer\<close>

definition has_text :: "string option \<Rightarrow> bool" where
  "has_text v \<longleftrightarrow> (case v of None \<Rightarrow> False | Some s \<Rightarrow> s \<noteq> [] \<and> trim s \<noteq> [])"

definition syncToolMessages :: "realtime_state \<Rightarrow> realtime_state" where
  "syncToolMessages s = s\<lparr>chatToolMessages := filter (\<lambda>v. truthy (Some v))
     (List.map_filter (\<lambda>i. map_of (toolStreamById s) (template i)) (toolStreamOrder s))\<rparr>"

definition finalizeChatRun :: "realtime_state \<Rightarrow> realtime_state" where
  "finalizeChatRun s = s\<lparr>chatRunId := Some JNull, chatSending := False, chatLoading := False,
     chatStream := None, chatStreamStartedAt := Some JNull, chatQueue := []\<rparr>"

definition push_segment :: "int \<Rightarrow> realtime_state \<Rightarrow> realtime_state" where
  "push_segment now s = s\<lparr>chatStreamSegments := chatStreamSegments s @
     [\<lparr>sg_text = nullish (chatStream s) [], sg_ts = now\<rparr>]\<rparr>"

definition applyAgentStream :: "realtime_state \<Rightarrow> jsval \<Rightarrow> js_error + realtime_state" where
  "applyAgentStream s payload = res_bind (read_prop payload ''runId'') (\<lambda>p.
     Inr (s\<lparr>chatRunId := getp p ''runId'',
            chatStream := Some (nullish (chatStream s) [] @ template (getp p ''stream'')),
            chatStreamStartedAt := nullish_assign (chatStreamStartedAt s) (getp p ''ts'')\<rparr>))"

definition applyToolStatus :: "clock \<Rightarrow> realtime_state \<Rightarrow> jsval \<Rightarrow> js_error + realtime_state" where
  "applyToolStatus clk s payload = res_bind (read_prop payload ''runId'') (\<lambda>p.
     let s1 = (if has_text (chatStream s)
               then (push_segment (clk 0) s)\<lparr>chatStream := None, chatStreamStartedAt := Some JNull\<rparr>
               else s);
         i = getp p ''toolCallId''
     in Inr (syncToolMessages (s1\<lparr>chatRunId := getp p ''runId'',
          toolStreamById := AList.update (template i) p (toolStreamById s1),
          toolStreamOrder := (if list_ex (\<lambda>j. same_value j i) (toolStreamOrder s1) then toolStreamOrder s1
                              else toolStreamOrder s1 @ [i])\<rparr>)))"

text \<open>The final message of a run, with the stream so far kept as a segment.\<close>

definition push_final :: "clock \<Rightarrow> string option \<Rightarrow> string \<Rightarrow> realtime_state \<Rightarrow> realtime_state" where
  "push_final clk runId text s =
     (let s1 = (if has_text (chatStream s) then push_segment (clk 0) s else s)
      in s1\<lparr>chatMessages := chatMessages s1 @
           [\<lparr>cm_id = nullish runId ''assistant'' @ '':'' @ nat_str (length (chatMessages s1)),
             cm_role = RoleAssistant, cm_text = text\<rparr>]\<rparr>)"

definition chat_text :: "json \<Rightarrow> string option" where
  "chat_text p = (case getp p ''message'' of
     None \<Rightarrow> None | Some JNull \<Rightarrow> None | Some m \<Rightarrow> as_str (getp m ''text''))"

definition applyChatEvent :: "clock \<Rightarrow> realtime_state \<Rightarrow> jsval \<Rightarrow> js_error + realtime_state" where
  "applyChatEvent clk s payload = res_bind (read_prop payload ''runId'') (\<lambda>p.
     let runId = as_str (getp p ''runId''); st = as_str (getp p ''state''); text = nonempty (chat_text p)
     in Inr (
       if st = Some ''delta''
       then (case text of
               None \<Rightarrow> s
             | Some t \<Rightarrow> s\<lparr>chatRunId := Some (case runId of None \<Rightarrow> JNull | Some i \<Rightarrow> JStr i),
                 chatStream := Some (nullish (chatStream s) [] @ t),
                 chatStreamStartedAt := nullish_assign (chatStreamStartedAt s) (Some (js_int (clk 0)))\<rparr>)
       else (let s1 = (case text of Some t \<Rightarrow> if st = Some ''final'' then push_final clk runId t s else s
                                  | None \<Rightarrow> s)
             in if st = Some ''aborted'' \<or> st = Some ''error'' \<or> st = Some ''final''
                then finalizeChatRun s1 else s1)))"

definition run_phase :: "json \<Rightarrow> string option" where
  "run_phase p = (case as_str (getp p ''status'') of
     Some x \<Rightarrow> Some x | None \<Rightarrow> as_str (getp p ''phase''))"

definition applyRunStatus :: "realtime_state \<Rightarrow> jsval \<Rightarrow> js_error + realtime_state" where
  "applyRunStatus s payload = res_bind (read_prop payload ''status'') (\<lambda>p.
     let status = run_phase p
     in Inr (if status = Some ''completed'' \<or> status = Some ''aborted'' \<or> status = Some ''failed''
                \<or> status = Some ''error'' then finalizeChatRun s else s))"

definition approval_title :: "json \<Rightarrow> string" where
  "approval_title p = (case as_str (getp p ''title'') of
     Some x \<Rightarrow> x | None \<Rightarrow> nullish (as_str (getp p ''name'')) [CHR 0xE5, CHR 0xBE,
         CHR 0x85, CHR 0xE5, CHR 0xAE, CHR 0xA1, CHR 0xE6, CHR 0x89, CHR 0xB9, CHR 0xE6, CHR 0x93,
         CHR 0x8D, CHR 0xE4, CHR 0xBD, CHR 0x9C])"

definition applyApprovalRequested :: "realtime_state \<Rightarrow> jsval \<Rightarrow> js_error + realtime_state" where
  "applyApprovalRequested s payload = res_bind (read_prop payload ''id'') (\<lambda>p.
     Inr (case nonempty (as_str (getp p ''id'')) of
            None \<Rightarrow> s
          | Some i \<Rightarrow>
              if list_ex (\<lambda>a. ap_id a = i) (pendingApprovalList s) then s
              else s\<lparr>pendingApprovalList := pendingApprovalList s @ [\<lparr>ap_id = i, ap_title = approval_title p\<rparr>]\<rparr>))"

definition applyApprovalResolved :: "realtime_state \<Rightarrow> jsval \<Rightarrow> js_error + realtime_state" where
  "applyApprovalResolved s payload = res_bind (read_prop payload ''id'') (\<lambda>p.
     Inr (case nonempty (as_str (getp p ''id'')) of
            None \<Rightarrow> s
          | Some i \<Rightarrow> s\<lparr>pendingApprovalList := filter (\<lambda>a. ap_id a \<noteq> i) (pendingApprovalList s)\<rparr>))"

section \<open>The reducer\<close>

definition apply_event :: "clock \<Rightarrow> realtime_state \<Rightarrow> json \<Rightarrow> js_error + realtime_state" where
  "apply_event clk s frame =
     (let payload = getp frame ''payload'' in
      case Option.bind (as_str (getp frame ''event'')) event_of_name of
        Some EvChat \<Rightarrow> applyChatEvent clk s payload
      | Some EvAgent \<Rightarrow> applyAgentStream s payload
      | Some EvToolStatus \<Rightarrow> applyToolStatus clk s payload
      | Some EvRunStatus \<Rightarrow> applyRunStatus s payload
      | Some EvApprovalRequested \<Rightarrow> applyApprovalRequested s payload
      | Some EvApprovalResolved \<Rightarrow> applyApprovalResolved s payload
      | _ \<Rightarrow> Inr s)"

definition realtimeReducer :: "clock \<Rightarrow> realtime_state \<Rightarrow> realtime_action \<Rightarrow> js_error + realtime_state" where
  "realtimeReducer clk s action =
     (case action of
        SessionReset \<Rightarrow> Inr initialRealtimeState
      | ConnectStart \<Rightarrow> Inr (s\<lparr>connectionStatus := CConnecting, lastError := None\<rparr>)
      | RecoverStart reason \<Rightarrow>
          Inr (s\<lparr>connectionStatus := CRecovering, lastError := Some reason, chatLoading := True\<rparr>)
      | ConnectError e \<Rightarrow> Inr (s\<lparr>connectionStatus := CError, lastError := Some e, chatLoading := False\<rparr>)
      | ConnectClose \<Rightarrow> Inr (s\<lparr>connectionStatus := CClosed, chatLoading := False\<rparr>)
      | Hello frame \<Rightarrow> Inr (s\<lparr>connectionStatus := CConnected,
          lastHelloSnapshot := js_nullish (getp frame ''snapshot'') (Some JNull), chatLoading := False,
          lastError := None\<rparr>)
      | UserQueue text \<Rightarrow> Inr (s\<lparr>
          chatMessages := chatMessages s @
            [\<lparr>cm_id = ''user:'' @ nat_str (length (chatMessages s)), cm_role = RoleUser, cm_text = text\<rparr>],
          chatQueue := chatQueue s @
            [\<lparr>qm_id = ''queued:'' @ nat_str (nat (clk 0)), qm_text = text, qm_createdAt = clk 1\<rparr>],
          chatSending := True, chatLoading := True\<rparr>)
      | HistoryLoaded messages \<Rightarrow> Inr (s\<lparr>chatMessages := messages, chatLoading := False,
          connectionStatus := CConnected, lastError := None\<rparr>)
      | Event frame \<Rightarrow> apply_event clk (s\<lparr>lastSeq := getp frame ''seq''\<rparr>) frame)"

section \<open>Runs of the reducer\<close>

fun reduce_all :: "(clock \<times> realtime_action) list \<Rightarrow> realtime_state \<Rightarrow> js_error + realtime_state" where
  "reduce_all [] s = Inr s"
| "reduce_all ((clk, a) # as) s = res_bind (realtimeReducer clk s a) (reduce_all as)"

lemmas reducer_event_defs = applyChatEvent_def applyAgentStream_def applyToolStatus_def
  applyRunStatus_def applyApprovalRequested_def applyApprovalResolved_def

section \<open>The tool panel and the approvals\<close>

text \<open>
  The panel shows the table's entries in the order the tools were first seen; the order and the
  table have the same keys, no primitive key comes twice, and no approval either.
\<close>

definition tools_ok :: "realtime_state \<Rightarrow> bool" where
  "tools_ok s \<longleftrightarrow> syncToolMessages s = s
     \<and> fst ` set (toolStreamById s) = template ` set (toolStreamOrder s)
     \<and> distinct (filter (\<lambda>i. \<not> is_object i) (toolStreamOrder s))"

definition approvals_ok :: "realtime_state \<Rightarrow> bool" where
  "approvals_ok s \<longleftrightarrow> distinct (map ap_id (pendingApprovalList s))
     \<and> (\<forall>a\<in>set (pendingApprovalList s). ap_id a \<noteq> [])"

lemma sync_fields [simp]:
  "toolStreamById (syncToolMessages s) = toolStreamById s"
  "toolStreamOrder (syncToolMessages s) = toolStreamOrder s"
  "pendingApprovalList (syncToolMessages s) = pendingApprovalList s"
  "chatMessages (syncToolMessages s) = chatMessages s"
  "syncToolMessages (syncToolMessages s) = syncToolMessages s"
  by (simp_all add: syncToolMessages_def)

lemma tools_ok_same:
  "tools_ok s \<Longrightarrow> toolStreamById t = toolStreamById s \<Longrightarrow> toolStreamOrder t = toolStreamOrder s
   \<Longrightarrow> chatToolMessages t = chatToolMessages s \<Longrightarrow> tools_ok t"
  by (cases s; cases t) (simp add: tools_ok_def syncToolMessages_def)

lemma tool_status_ok:
  assumes "applyToolStatus clk s payload = Inr t" and "tools_ok s"
  shows "tools_ok t"
proof -
  obtain p where p: "read_prop payload ''runId'' = Inr p"
    using assms(1) by (auto simp: applyToolStatus_def)
  let ?i = "getp p ''toolCallId''"
  let ?s = "if has_text (chatStream s)
      then (push_segment (clk 0) s)\<lparr>chatStream := None, chatStreamStartedAt := Some JNull\<rparr> else s"
  let ?o = "toolStreamOrder s"
  have same: "toolStreamById ?s = toolStreamById s" "toolStreamOrder ?s = ?o"
    by (simp_all add: push_segment_def)
  have t: "toolStreamById t = AList.update (template ?i) p (toolStreamById s)"
      "toolStreamOrder t = (if list_ex (\<lambda>j. same_value j ?i) ?o then ?o else ?o @ [?i])"
      "syncToolMessages t = t"
    using assms(1) unfolding applyToolStatus_def p Let_def by (auto simp: same)
  have keys: "fst ` set (AList.update k v al) = insert k (fst ` set al)" for k and v :: json and al
    by (simp add: dom_map_of_conv_image_fst [symmetric] update_conv')
  have new: "?i \<in> set ?o \<or> \<not> list_ex (\<lambda>j. same_value j ?i) ?o" for P :: bool
    by (auto simp: list_ex_iff same_value_def)
  have "distinct (filter (\<lambda>i. \<not> is_object i) (toolStreamOrder t))"
    using assms(2) by (auto simp: t(2) tools_ok_def list_ex_iff same_value_def)
  moreover have "fst ` set (toolStreamById t) = template ` set (toolStreamOrder t)"
    using assms(2) new by (auto simp: t(1,2) keys tools_ok_def)
  ultimately show ?thesis using t(3) by (simp add: tools_ok_def)
qed

lemma push_final_fields [simp]:
  "toolStreamById (push_final clk r x s) = toolStreamById s"
  "toolStreamOrder (push_final clk r x s) = toolStreamOrder s"
  "chatToolMessages (push_final clk r x s) = chatToolMessages s"
  "pendingApprovalList (push_final clk r x s) = pendingApprovalList s"
  by (simp_all add: push_final_def push_segment_def Let_def)

lemma chat_event_fields:
  assumes "applyChatEvent clk s payload = Inr t"
  shows "toolStreamById t = toolStreamById s" "toolStreamOrder t = toolStreamOrder s"
    "chatToolMessages t = chatToolMessages s" "pendingApprovalList t = pendingApprovalList s"
  using assms by (auto simp: applyChatEvent_def Let_def finalizeChatRun_def split: option.splits if_splits)

lemma run_status_fields:
  assumes "applyRunStatus s payload = Inr t"
  shows "toolStreamById t = toolStreamById s" "toolStreamOrder t = toolStreamOrder s"
    "chatToolMessages t = chatToolMessages s" "pendingApprovalList t = pendingApprovalList s"
    "chatMessages t = chatMessages s"
  using assms by (auto simp: applyRunStatus_def Let_def finalizeChatRun_def split: if_splits)

lemma agent_fields:
  assumes "applyAgentStream s payload = Inr t"
  shows "toolStreamById t = toolStreamById s" "toolStreamOrder t = toolStreamOrder s"
    "chatToolMessages t = chatToolMessages s" "pendingApprovalList t = pendingApprovalList s"
    "chatMessages t = chatMessages s"
  using assms by (auto simp: applyAgentStream_def)

lemma tool_fields:
  assumes "applyToolStatus clk s payload = Inr t"
  shows "pendingApprovalList t = pendingApprovalList s" "chatMessages t = chatMessages s"
  using assms by (auto simp: applyToolStatus_def Let_def push_segment_def)

lemma approval_fields:
  assumes "applyApprovalRequested s payload = Inr t \<or> applyApprovalResolved s payload = Inr t"
  shows "toolStreamById t = toolStreamById s" "toolStreamOrder t = toolStreamOrder s"
    "chatToolMessages t = chatToolMessages s" "chatMessages t = chatMessages s"
  using assms
  by (auto simp: applyApprovalRequested_def applyApprovalResolved_def split: option.splits if_splits)

lemma approvals_kept:
  assumes "applyApprovalRequested s payload = Inr t \<or> applyApprovalResolved s payload = Inr t"
    and "approvals_ok s"
  shows "approvals_ok t"
  using assms
  by (auto simp: applyApprovalRequested_def applyApprovalResolved_def approvals_ok_def nonempty_def
      list_ex_iff distinct_map_filter split: option.splits if_splits)

lemma apply_event_cases:
  assumes "apply_event clk s frame = Inr t"
  obtains "t = s"
  | payload where "applyChatEvent clk s payload = Inr t"
  | payload where "applyAgentStream s payload = Inr t"
  | payload where "applyToolStatus clk s payload = Inr t"
  | payload where "applyRunStatus s payload = Inr t"
  | payload where "applyApprovalRequested s payload = Inr t \<or> applyApprovalResolved s payload = Inr t"
proof (cases "Option.bind (as_str (getp frame ''event'')) event_of_name")
  case None
  with assms that(1) show thesis by (simp add: apply_event_def)
next
  case (Some e)
  note ev = assms [unfolded apply_event_def Let_def Some option.case]
  show thesis
  proof (cases e)
    case EvApprovalRequested
    with ev that(6) [of "getp frame ''payload''"] show thesis by simp
  next
    case EvApprovalResolved
    with ev that(6) [of "getp frame ''payload''"] show thesis by simp
  qed (use ev that(1-5) in simp_all)
qed

lemma event_ok:
  assumes "apply_event clk s frame = Inr t" and "tools_ok s" and "approvals_ok s"
  shows "tools_ok t \<and> approvals_ok t"
  using assms(1)
proof (cases rule: apply_event_cases)
  case (2 payload)
  with assms(2,3) chat_event_fields [OF 2] tools_ok_same [of s t] show ?thesis by (simp add: approvals_ok_def)
next
  case (3 payload)
  with assms(2,3) agent_fields [OF 3] tools_ok_same [of s t] show ?thesis by (simp add: approvals_ok_def)
next
  case (4 payload)
  with assms(2,3) tool_status_ok [OF 4] tool_fields [OF 4] show ?thesis by (simp add: approvals_ok_def)
next
  case (5 payload)
  with assms(2,3) run_status_fields [OF 5] tools_ok_same [of s t] show ?thesis by (simp add: approvals_ok_def)
next
  case (6 payload)
  with assms(2,3) approval_fields [OF 6] tools_ok_same [of s t] approvals_kept [OF 6] show ?thesis by simp
qed (use assms in simp)

lemma reducer_ok:
  assumes "realtimeReducer clk s a = Inr t" and "tools_ok s" and "approvals_ok s"
  shows "tools_ok t \<and> approvals_ok t"
proof (cases a)
  case SessionReset
  with assms(1) show ?thesis
    by (auto simp: realtimeReducer_def initialRealtimeState_def tools_ok_def approvals_ok_def syncToolMessages_def)
next
  case (Event f)
  have "tools_ok (s\<lparr>lastSeq := getp f ''seq''\<rparr>)" "approvals_ok (s\<lparr>lastSeq := getp f ''seq''\<rparr>)"
    using assms(2,3) tools_ok_same [of s "s\<lparr>lastSeq := getp f ''seq''\<rparr>"] by (simp_all add: approvals_ok_def)
  with event_ok assms(1) Event show ?thesis by (auto simp: realtimeReducer_def)
qed (use assms tools_ok_same [of s t] in \<open>auto simp: realtimeReducer_def approvals_ok_def\<close>)

lemma reduce_all_ok:
  "reduce_all as s = Inr t \<Longrightarrow> tools_ok s \<Longrightarrow> approvals_ok s \<Longrightarrow> tools_ok t \<and> approvals_ok t"
proof (induction as s rule: reduce_all.induct)
  case (2 clk a as s)
  then show ?case using reducer_ok by (auto simp del: reduce_all.simps simp: reduce_all.simps(2))
qed simp

lemma initial_ok: "tools_ok initialRealtimeState" "approvals_ok initialRealtimeState"
  by (simp_all add: initialRealtimeState_def tools_ok_def approvals_ok_def syncToolMessages_def)

text \<open>
  The tool calls that the actions speak of since the last reset, with repetitions, and the order in
  which values were seen first. Objects are never the same value twice.
\<close>

definition spoken_call :: "realtime_action \<Rightarrow> jsval list" where
  "spoken_call a = (case a of
     Event frame \<Rightarrow>
       if Option.bind (as_str (getp frame ''event'')) event_of_name = Some EvToolStatus
       then [Option.bind (getp frame ''payload'') (\<lambda>p. getp p ''toolCallId'')] else []
   | _ \<Rightarrow> [])"

definition spoken_calls :: "(clock \<times> realtime_action) list \<Rightarrow> jsval list" where
  "spoken_calls as = fold (\<lambda>(clk, a) is. if a = SessionReset then [] else is @ spoken_call a) as []"

function first_seen :: "jsval list \<Rightarrow> jsval list" where
  "first_seen [] = []"
| "first_seen (x # xs) = x # first_seen (filter (\<lambda>y. \<not> same_value x y) xs)"
  by pat_completeness auto
termination
  by (relation "measure length") (auto simp: le_imp_less_Suc)

lemma first_seen_snoc:
  "first_seen (xs @ [i]) = (if list_ex (\<lambda>j. same_value j i) xs then first_seen xs else first_seen xs @ [i])"
proof (induction xs rule: first_seen.induct)
  case (2 x xs)
  have "list_ex (\<lambda>j. same_value j i) (filter (\<lambda>y. \<not> same_value x y) xs) \<longleftrightarrow> list_ex (\<lambda>j. same_value j i) xs" if "\<not> same_value x i"
    using that by (auto simp: list_ex_iff same_value_def)
  then show ?case using 2 by (cases "same_value x i") simp_all
qed simp

lemma first_seen_ex: "list_ex (\<lambda>j. same_value j i) (first_seen xs) \<longleftrightarrow> list_ex (\<lambda>j. same_value j i) xs"
proof (induction xs rule: first_seen.induct)
  case (2 x xs)
  have "same_value x i \<or> list_ex (\<lambda>j. same_value j i) (filter (\<lambda>y. \<not> same_value x y) xs)
      \<longleftrightarrow> same_value x i \<or> list_ex (\<lambda>j. same_value j i) xs"
    by (auto simp: list_ex_iff same_value_def)
  then show ?case using 2 by simp
qed simp

lemma tool_status_order:
  assumes "applyToolStatus clk s payload = Inr t"
  shows "toolStreamOrder t = (let i = Option.bind payload (\<lambda>p. getp p ''toolCallId'') in
     if list_ex (\<lambda>j. same_value j i) (toolStreamOrder s) then toolStreamOrder s else toolStreamOrder s @ [i])"
proof -
  obtain p where p: "payload = Some p" "read_prop payload ''runId'' = Inr p"
    using assms by (auto simp: applyToolStatus_def read_prop_def split: option.splits json.splits)
  show ?thesis using assms unfolding applyToolStatus_def p(2)
    by (auto simp: Let_def push_segment_def p(1))
qed

lemma event_order:
  assumes "apply_event clk s frame = Inr t"
  shows "toolStreamOrder t = fold (\<lambda>i is. if list_ex (\<lambda>j. same_value j i) is then is else is @ [i])
    (spoken_call (Event frame)) (toolStreamOrder s)"
proof (cases "Option.bind (as_str (getp frame ''event'')) event_of_name")
  case None
  then show ?thesis using assms by (simp add: apply_event_def spoken_call_def)
next
  case (Some e)
  note ev = assms [unfolded apply_event_def Let_def Some option.case]
  show ?thesis
  proof (cases "e = EvToolStatus")
    case True
    then show ?thesis using ev tool_status_order Some by (simp add: spoken_call_def Let_def)
  next
    case False
    then have "toolStreamOrder t = toolStreamOrder s"
      using ev chat_event_fields(2) [of clk s "getp frame ''payload''" t] agent_fields(2) [of s "getp frame ''payload''" t]
        run_status_fields(2) [of s "getp frame ''payload''" t] approval_fields(2) [of s "getp frame ''payload''" t]
      by (cases e) simp_all
    then show ?thesis using False Some by (simp add: spoken_call_def)
  qed
qed

lemma reducer_order:
  assumes "realtimeReducer clk s a = Inr t"
  shows "toolStreamOrder t = (if a = SessionReset then []
    else fold (\<lambda>i is. if list_ex (\<lambda>j. same_value j i) is then is else is @ [i]) (spoken_call a) (toolStreamOrder s))"
  using assms event_order [of clk "s\<lparr>lastSeq := x\<rparr>" for x]
  by (cases a) (auto simp: realtimeReducer_def initialRealtimeState_def spoken_call_def [of "ConnectStart"]
      spoken_call_def [of "RecoverStart _"] spoken_call_def [of "ConnectError _"] spoken_call_def [of "ConnectClose"]
      spoken_call_def [of "Hello _"] spoken_call_def [of "UserQueue _"] spoken_call_def [of "HistoryLoaded _"])

lemma spoken_call_short: "spoken_call a = [] \<or> (\<exists>i. spoken_call a = [i])"
  by (auto simp: spoken_call_def split: realtime_action.split)

lemma reduce_all_append: "reduce_all (as @ bs) s = res_bind (reduce_all as s) (reduce_all bs)"
proof (induction as s rule: reduce_all.induct)
  case (2 clk a as s)
  then show ?case by (cases "realtimeReducer clk s a") simp_all
qed simp

lemma order_first_seen:
  "reduce_all as initialRealtimeState = Inr s \<Longrightarrow> toolStreamOrder s = first_seen (spoken_calls as)"
proof (induction as arbitrary: s rule: rev_induct)
  case Nil
  then show ?case by (auto simp: initialRealtimeState_def spoken_calls_def)
next
  case (snoc x as)
  obtain clk a where x: "x = (clk, a)" by fastforce
  obtain u where u: "reduce_all as initialRealtimeState = Inr u" and r: "realtimeReducer clk u a = Inr s"
    using snoc.prems x by (cases "reduce_all as initialRealtimeState"; cases "realtimeReducer clk (projr (reduce_all as initialRealtimeState)) a")
      (auto simp: reduce_all_append)
  have calls: "spoken_calls (as @ [x]) = (if a = SessionReset then [] else spoken_calls as @ spoken_call a)"
    by (simp add: spoken_calls_def x)
  show ?case
    using reducer_order [OF r] snoc.IH [OF u] spoken_call_short [of a]
    by (auto simp: calls first_seen_snoc first_seen_ex)
qed

section \<open>The thread\<close>

text \<open>Without loading a history, a thread only grows, and every message's id ends in its position.\<close>

definition ids_by_position :: "chat_message list \<Rightarrow> bool" where
  "ids_by_position ms \<longleftrightarrow> (\<forall>k<length ms. \<exists>pre. cm_id (ms ! k) = pre @ '':'' @ nat_str k)"

lemma positions_distinct: "ids_by_position ms \<Longrightarrow> distinct (map cm_id ms)"
  unfolding ids_by_position_def distinct_conv_nth length_map
proof (intro allI impI)
  fix i j
  assume all: "\<forall>k<length ms. \<exists>pre. cm_id (ms ! k) = pre @ '':'' @ nat_str k"
    and ij: "i < length ms" "j < length ms" "i \<noteq> j"
  from all ij(1,2) obtain p q where pq: "cm_id (ms ! i) = p @ '':'' @ nat_str i" "cm_id (ms ! j) = q @ '':'' @ nat_str j"
    by meson
  show "map cm_id ms ! i \<noteq> map cm_id ms ! j"
  proof
    assume "map cm_id ms ! i = map cm_id ms ! j"
    then have "p @ '':'' @ nat_str i = q @ '':'' @ nat_str j" using ij(1,2) pq by (simp only: nth_map)
    with number_suffix_unique [of p "CHR '':''" i q j] ij(3) show False by simp
  qed
qed

lemma positions_snoc:
  "ids_by_position ms \<Longrightarrow> cm_id m = pre @ '':'' @ nat_str (length ms) \<Longrightarrow> ids_by_position (ms @ [m])"
  by (auto simp: ids_by_position_def nth_append less_Suc_eq)

definition grows_by_one :: "chat_message list \<Rightarrow> chat_message list \<Rightarrow> bool" where
  "grows_by_one ms ns \<longleftrightarrow> ns = ms \<or> (\<exists>m pre. ns = ms @ [m] \<and> cm_id m = pre @ '':'' @ nat_str (length ms))"

lemma chat_event_grows:
  "applyChatEvent clk s payload = Inr t \<Longrightarrow> grows_by_one (chatMessages s) (chatMessages t)"
  by (auto simp: applyChatEvent_def Let_def finalizeChatRun_def push_final_def push_segment_def
      grows_by_one_def split: option.splits if_splits)

lemma event_grows:
  assumes "apply_event clk s frame = Inr t"
  shows "grows_by_one (chatMessages s) (chatMessages t)"
  using assms
proof (cases rule: apply_event_cases)
  case (2 payload)
  then show ?thesis by (rule chat_event_grows)
next
  case (3 payload)
  from agent_fields [OF this] show ?thesis by (simp add: grows_by_one_def)
next
  case (4 payload)
  from tool_fields [OF this] show ?thesis by (simp add: grows_by_one_def)
next
  case (5 payload)
  from run_status_fields [OF this] show ?thesis by (simp add: grows_by_one_def)
next
  case (6 payload)
  from approval_fields [OF this] show ?thesis by (simp add: grows_by_one_def)
qed (simp add: grows_by_one_def)

definition keeps_thread :: "realtime_action \<Rightarrow> bool" where
  "keeps_thread a \<longleftrightarrow> a \<noteq> SessionReset \<and> (\<forall>ms. a \<noteq> HistoryLoaded ms)"

lemma reducer_grows:
  assumes "realtimeReducer clk s a = Inr t" and "keeps_thread a"
  shows "grows_by_one (chatMessages s) (chatMessages t)"
proof (cases a)
  case (UserQueue x)
  with assms show ?thesis by (auto simp: realtimeReducer_def grows_by_one_def intro: exI [of _ "''user''"])
next
  case (Event f)
  with assms(1) event_grows show ?thesis by (fastforce simp: realtimeReducer_def)
qed (use assms in \<open>auto simp: realtimeReducer_def keeps_thread_def grows_by_one_def\<close>)

lemma reduce_all_grows:
  "reduce_all as s = Inr t \<Longrightarrow> \<forall>a\<in>snd ` set as. keeps_thread a \<Longrightarrow> ids_by_position (chatMessages s)
   \<Longrightarrow> ids_by_position (chatMessages t) \<and> (\<exists>ms. chatMessages t = chatMessages s @ ms)"
proof (induction as s rule: reduce_all.induct)
  case (2 clk a as s)
  then obtain u where u: "realtimeReducer clk s a = Inr u" "reduce_all as u = Inr t" by auto
  with 2(3) reducer_grows have g: "grows_by_one (chatMessages s) (chatMessages u)" by auto
  with 2(4) have "ids_by_position (chatMessages u)"
    unfolding grows_by_one_def using positions_snoc by metis
  with 2(1) [OF u(2)] 2(3) g show ?case by (auto simp: grows_by_one_def)
qed simp

section \<open>Streaming\<close>

text \<open>The chat events of OpenClaw's gateway for a run: the text sits in a content block.\<close>

definition openclaw_chat :: "string \<Rightarrow> string \<Rightarrow> string \<Rightarrow> string \<Rightarrow> openclaw_event" where
  "openclaw_chat r k st text = \<lparr>oe_event = Some ''chat'', oe_seq = None,
     oe_payload = Some (JObj [(''runId'', JStr r), (''sessionKey'', JStr k), (''state'', JStr st),
       (''message'', JObj [(''role'', JStr ''assistant''),
          (''content'', JArr [JObj [(''type'', JStr ''text''), (''text'', JStr text)]])])]),
     oe_stateVersion = None\<rparr>"

text \<open>The frames the bridge makes of OpenClaw events, as the browser decodes them.\<close>

definition bridged_frames :: "bridge_context \<Rightarrow> jnum \<Rightarrow> openclaw_event list \<Rightarrow> json list" where
  "bridged_frames c n fs =
     map (\<lambda>f. json_wire (frame_json (EventF f))) (event_frames (concat (map normalize_chat fs)) c n)"

text \<open>A frame that carries the text \<open>x\<close> of run \<open>r\<close> in the given chat state.\<close>

definition chat_frame :: "string \<Rightarrow> string \<Rightarrow> string \<Rightarrow> json \<Rightarrow> bool" where
  "chat_frame r st x frame \<longleftrightarrow> getp frame ''event'' = Some (JStr ''chat'')
     \<and> (\<exists>kvs. getp frame ''payload'' = Some (JObj kvs) \<and> getp (JObj kvs) ''runId'' = Some (JStr r)
          \<and> getp (JObj kvs) ''state'' = Some (JStr st) \<and> chat_text (JObj kvs) = Some x)"

lemma bridged_chat:
  assumes "trim x \<noteq> []"
  shows "\<exists>frame n'. (\<forall>fs. bridged_frames c n (openclaw_chat r k st x # fs) = frame # bridged_frames c n' fs)
    \<and> chat_frame r st x frame"
proof -
  let ?m = "JObj [(''text'', JStr x)]"
  let ?p = "obj_put ''message'' (Some ?m) (own_entries (oe_payload (openclaw_chat r k st x)))"
  have parts: "extractOpenClawChatPayloadText (the (oe_payload (openclaw_chat r k st x))) = Some x"
    using assms by (simp add: extractOpenClawChatPayloadText_def openclaw_chat_def extractTextParts_def
        nonblank_text_def block_text_def List.map_filter_def join_lines_def)
  have norm: "normalize_chat (openclaw_chat r k st x)
      = [source_event_of (openclaw_chat r k st x) EvChat (Some (JObj ?p))]"
    unfolding normalize_chat_def Let_def parts by (simp add: openclaw_chat_def mk_obj_def List.map_filter_def)
  obtain f n' where f: "createEventFrame (source_event_of (openclaw_chat r k st x) EvChat (Some (JObj ?p))) c n = (f, n')"
    by fastforce
  let ?q = "injectContext (Some (JObj ?p)) c"
  have fields: "ef_event f = EvChat" "ef_payload f = Some (JObj ?q)"
    using f by (auto simp: createEventFrame_def Let_def source_event_of_def)
  have get: "map_of ?p ''runId'' = Some (JStr r)" "map_of ?p ''state'' = Some (JStr st)"
    "map_of ?p ''message'' = Some ?m"
    by (simp_all add: openclaw_chat_def obj_put_def update_conv')
  have "map_of ?q key = map_of ?p key" if "key \<in> {''runId'', ''state'', ''message''}" for key
    unfolding map_of_inject map_add_def using that context_fields_keys [of key c] by auto
  then have q: "getp (JObj ?q) ''runId'' = Some (JStr r)" "getp (JObj ?q) ''state'' = Some (JStr st)"
    "getp (JObj ?q) ''message'' = Some ?m"
    using get by simp_all
  have "chat_frame r st x (json_wire (frame_json (EventF f)))"
    unfolding chat_frame_def getp_wire event_frame_fields fields event_name.simps option.map json_wire.simps
    using q getp_wire [of "JObj ?q"] by (auto simp: chat_text_def simp del: getp.simps) simp_all
  moreover have "bridged_frames c n (openclaw_chat r k st x # fs)
      = json_wire (frame_json (EventF f)) # bridged_frames c n' fs" for fs
    by (simp add: bridged_frames_def norm f)
  ultimately show ?thesis by blast
qed

lemma chat_frame_step:
  assumes "chat_frame r st x frame"
  obtains kvs where "\<And>clk s. realtimeReducer clk s (Event frame)
      = applyChatEvent clk (s\<lparr>lastSeq := getp frame ''seq''\<rparr>) (Some (JObj kvs))"
    and "getp (JObj kvs) ''runId'' = Some (JStr r)" and "getp (JObj kvs) ''state'' = Some (JStr st)"
    and "chat_text (JObj kvs) = Some x"
proof -
  from assms obtain kvs where kvs: "getp frame ''event'' = Some (JStr ''chat'')"
      "getp frame ''payload'' = Some (JObj kvs)" "getp (JObj kvs) ''runId'' = Some (JStr r)"
      "getp (JObj kvs) ''state'' = Some (JStr st)" "chat_text (JObj kvs) = Some x"
    unfolding chat_frame_def by blast
  have chat: "event_of_name ''chat'' = Some EvChat"
    using event_of_name_name [of EvChat] by simp
  show thesis
    using that kvs chat by (simp add: realtimeReducer_def apply_event_def del: getp.simps)
qed

lemma delta_step:
  assumes "chat_frame r ''delta'' x frame" and "x \<noteq> []"
  shows "\<exists>t. realtimeReducer clk s (Event frame) = Inr t \<and> chatMessages t = chatMessages s
    \<and> chatStream t = Some (nullish (chatStream s) [] @ x) \<and> chatRunId t = Some (JStr r)"
proof -
  from assms(1) show ?thesis
    by (rule chat_frame_step)
       (use assms(2) in \<open>simp add: applyChatEvent_def read_prop_def nonempty_def Let_def del: getp.simps\<close>)
qed

lemma final_step:
  assumes "chat_frame r ''final'' x frame" and "x \<noteq> []"
  shows "\<exists>t m. realtimeReducer clk s (Event frame) = Inr t \<and> chatMessages t = chatMessages s @ [m]
    \<and> cm_text m = x \<and> cm_role m = RoleAssistant \<and> chatStream t = None \<and> chatRunId t = Some JNull
    \<and> chatQueue t = []"
proof -
  from assms(1) show ?thesis
    by (rule chat_frame_step)
       (use assms(2) in \<open>simp add: applyChatEvent_def read_prop_def nonempty_def Let_def push_final_def
          push_segment_def finalizeChatRun_def del: getp.simps\<close>)
qed

abbreviation events :: "clock \<Rightarrow> json list \<Rightarrow> (clock \<times> realtime_action) list" where
  "events clk frames \<equiv> map (\<lambda>f. (clk, Event f)) frames"

lemma deltas_accumulate:
  assumes "\<forall>x\<in>set xs. trim x \<noteq> []"
  shows "\<exists>t. reduce_all (events clk (bridged_frames c n (map (openclaw_chat r k ''delta'') xs))) s = Inr t
    \<and> chatMessages t = chatMessages s
    \<and> chatStream t = (if xs = [] then chatStream s else Some (nullish (chatStream s) [] @ concat xs))"
  using assms
proof (induction xs arbitrary: n s)
  case Nil
  then show ?case by (simp add: bridged_frames_def)
next
  case (Cons x xs)
  then have x: "trim x \<noteq> []" "x \<noteq> []" by auto
  from bridged_chat [OF x(1), of c n r k "''delta''"] obtain frame n'
    where f: "\<And>fs. bridged_frames c n (openclaw_chat r k ''delta'' x # fs) = frame # bridged_frames c n' fs"
      "chat_frame r ''delta'' x frame" by blast
  from delta_step [OF f(2) x(2), of clk s] obtain u where u: "realtimeReducer clk s (Event frame) = Inr u"
      "chatMessages u = chatMessages s" "chatStream u = Some (nullish (chatStream s) [] @ x)" by blast
  from Cons have "\<forall>x\<in>set xs. trim x \<noteq> []" by simp
  from Cons.IH [OF this, of n' u] u show ?case by (auto simp: f(1))
qed

section \<open>Properties\<close>

text \<open>
  C35: in every state the reducer reaches, the order of the tool calls is the order in which the
  \<open>tool.status\<close> events since the last reset first spoke of them, the tool panel lists the entries of
  the tool table in this order, the table has exactly the keys of the order, no call named by a text
  is listed twice, and no approval is pending twice or without an id.
\<close>

theorem panel_well_formed:
  assumes "reduce_all as initialRealtimeState = Inr s"
  shows "toolStreamOrder s = first_seen (spoken_calls as)
    \<and> chatToolMessages s = filter (\<lambda>v. truthy (Some v))
        (List.map_filter (\<lambda>i. map_of (toolStreamById s) (template i)) (toolStreamOrder s))
    \<and> fst ` set (toolStreamById s) = template ` set (toolStreamOrder s)
    \<and> distinct (filter (\<lambda>i. as_str i \<noteq> None) (toolStreamOrder s))
    \<and> distinct (map ap_id (pendingApprovalList s)) \<and> [] \<notin> ap_id ` set (pendingApprovalList s)"
proof -
  have ok: "tools_ok s" "approvals_ok s" using reduce_all_ok [OF assms] initial_ok by auto
  have "chatToolMessages (syncToolMessages s) = chatToolMessages s" using ok(1) by (simp add: tools_ok_def)
  moreover have "filter (\<lambda>i. as_str i \<noteq> None) (filter (\<lambda>i. \<not> is_object i) xs) = filter (\<lambda>i. as_str i \<noteq> None) xs" for xs
  proof -
    have "as_str i \<noteq> None \<Longrightarrow> \<not> is_object i" for i by (cases i rule: as_str.cases) auto
    then show ?thesis by (induction xs) auto
  qed
  moreover have "distinct (filter (\<lambda>i. as_str i \<noteq> None) (filter (\<lambda>i. \<not> is_object i) (toolStreamOrder s)))"
    using ok(1) by (simp only: tools_ok_def distinct_filter)
  ultimately show ?thesis
    using ok order_first_seen [OF assms] by (auto simp: tools_ok_def approvals_ok_def syncToolMessages_def)
qed

lemma panel_well_formed_witness:
  "\<exists>s. reduce_all [(\<lambda>_. 0, Event (JObj [(''event'', JStr ''approval.requested''), (''payload'', JObj [(''id'', JStr ''a'')])])),
        (\<lambda>_. 0, Event (JObj [(''event'', JStr ''approval.requested''), (''payload'', JObj [(''id'', JStr ''a'')])]))]
      initialRealtimeState = Inr s \<and> length (pendingApprovalList s) = 1
      \<and> distinct (map ap_id (pendingApprovalList s))"
proof -
  let ?as = "[(\<lambda>_. 0, Event (JObj [(''event'', JStr ''approval.requested''), (''payload'', JObj [(''id'', JStr ''a'')])])),
        (\<lambda>_. 0, Event (JObj [(''event'', JStr ''approval.requested''), (''payload'', JObj [(''id'', JStr ''a'')])]))]"
  have e: "event_of_name ''approval.requested'' = Some EvApprovalRequested"
    using event_of_name_name [of EvApprovalRequested] by simp
  have "\<exists>s. reduce_all ?as initialRealtimeState = Inr s \<and> length (pendingApprovalList s) = 1"
    by (simp add: realtimeReducer_def apply_event_def e applyApprovalRequested_def read_prop_def nonempty_def
        initialRealtimeState_def)
  then obtain s where s: "reduce_all ?as initialRealtimeState = Inr s" "length (pendingApprovalList s) = 1" by blast
  from s panel_well_formed [OF s(1)] show ?thesis by blast
qed

text \<open>
  Until a history is loaded or the session is reset, the thread only grows at its end, and
  the ids of its messages, the keys under which React renders them, stay distinct.
\<close>

theorem thread_grows:
  assumes "reduce_all as initialRealtimeState = Inr s" and "reduce_all bs s = Inr t"
    and "\<forall>a\<in>snd ` set (as @ bs). keeps_thread a"
  shows "(\<exists>ms. chatMessages t = chatMessages s @ ms) \<and> distinct (map cm_id (chatMessages t))"
proof -
  have k: "\<forall>a\<in>snd ` set as. keeps_thread a" "\<forall>a\<in>snd ` set bs. keeps_thread a"
    using assms(3) by auto
  have "ids_by_position (chatMessages s)"
    using reduce_all_grows [OF assms(1) k(1)] by (simp add: ids_by_position_def initialRealtimeState_def)
  with reduce_all_grows [OF assms(2) k(2)] positions_distinct show ?thesis by blast
qed

lemma thread_grows_witness:
  "\<exists>s t ms. reduce_all [(\<lambda>_. 0, UserQueue ''hi'')] initialRealtimeState = Inr s
     \<and> reduce_all [(\<lambda>_. 0, UserQueue ''again''), (\<lambda>_. 0, ConnectClose)] s = Inr t
     \<and> chatMessages t = chatMessages s @ ms \<and> distinct (map cm_id (chatMessages t)) \<and> length (chatMessages t) = 2"
proof -
  let ?as = "[(\<lambda>_. 0, UserQueue ''hi'')] :: (clock \<times> realtime_action) list"
    and ?bs = "[(\<lambda>_. 0, UserQueue ''again''), (\<lambda>_. 0, ConnectClose)] :: (clock \<times> realtime_action) list"
  have "\<exists>s t. reduce_all ?as initialRealtimeState = Inr s \<and> reduce_all ?bs s = Inr t \<and> length (chatMessages t) = 2"
    by (simp add: realtimeReducer_def initialRealtimeState_def)
  then obtain s t where st: "reduce_all ?as initialRealtimeState = Inr s" "reduce_all ?bs s = Inr t"
      "length (chatMessages t) = 2" by blast
  have "\<forall>a\<in>snd ` set (?as @ ?bs). keeps_thread a" by (simp add: keeps_thread_def)
  from thread_grows [OF st(1,2) this] st show ?thesis by blast
qed

text \<open>
  C36: from OpenClaw's gateway to the page: chat deltas of a run, normalised, framed and decoded,
  make the page show their texts one after the other. OpenClaw's gateway sends in each delta the
  text so far, so with two deltas or more the page does not show the text of the last one; the
  final event then adds one message, with exactly the final text, and clears the stream.
\<close>

theorem streamed_deltas:
  assumes "xs \<noteq> []" and "\<forall>x\<in>set xs. trim x \<noteq> []" and "trim y \<noteq> []" and "chatStream s = None"
  shows "\<exists>t. reduce_all (events clk (bridged_frames c n (map (openclaw_chat r k ''delta'') xs))) s = Inr t
      \<and> chatStream t = Some (concat xs) \<and> chatMessages t = chatMessages s
      \<and> (2 \<le> length xs \<longrightarrow> chatStream t \<noteq> Some (last xs))
      \<and> (\<exists>u m. reduce_all (events clk (bridged_frames c n' [openclaw_chat r k ''final'' y])) t = Inr u
          \<and> chatMessages u = chatMessages s @ [m] \<and> cm_text m = y \<and> chatStream u = None
          \<and> chatRunId u = Some JNull \<and> chatQueue u = [])"
proof -
  from deltas_accumulate [OF assms(2), of clk c n r k s] assms(1,4) obtain t
    where t: "reduce_all (events clk (bridged_frames c n (map (openclaw_chat r k ''delta'') xs))) s = Inr t"
      "chatStream t = Some (concat xs)" "chatMessages t = chatMessages s" by auto
  have "concat xs \<noteq> last xs" if "2 \<le> length xs"
  proof -
    from that obtain b where b: "xs = butlast xs @ [last xs]" "butlast xs \<noteq> []"
      by (cases xs rule: rev_cases) (auto simp: Suc_le_eq)
    then obtain a where "a \<in> set xs" "a \<in> set (butlast xs)" by (meson in_set_butlastD list.set_sel(1))
    with assms(2) have "concat (butlast xs) \<noteq> []" by force
    with b(1) show ?thesis by (metis concat.simps(1) concat.simps(2) concat_append append_Nil2 append_self_conv2)
  qed
  moreover from bridged_chat [OF assms(3), of c n' r k "''final''"] obtain frame
    where "bridged_frames c n' [openclaw_chat r k ''final'' y] = [frame]" "chat_frame r ''final'' y frame"
    by (auto simp: bridged_frames_def [of c _ "[]"])
  moreover have "y \<noteq> []" using assms(3) by auto
  ultimately show ?thesis
    using t final_step [of r y frame clk t] by (intro exI [of _ t]) auto
qed

lemma streamed_deltas_witness:
  "\<exists>t. reduce_all (events (\<lambda>_. 0) (bridged_frames \<lparr>bc_workspaceId = ''w'', bc_tenantId = None, bc_userId = None\<rparr>
        (Fin 0) (map (openclaw_chat ''r'' ''k'' ''delta'') [''He'', ''Hello'']))) initialRealtimeState = Inr t
     \<and> chatStream t = Some ''HeHello''"
proof -
  have h: "[''He'', ''Hello''] \<noteq> []" "\<forall>x\<in>set [''He'', ''Hello'']. trim x \<noteq> []" "trim ''Hello'' \<noteq> []"
    "chatStream initialRealtimeState = None"
    by (simp_all add: trim_eval initialRealtimeState_def)
  from streamed_deltas [OF h, of "\<lambda>_. 0" "\<lparr>bc_workspaceId = ''w'', bc_tenantId = None, bc_userId = None\<rparr>"
      "Fin 0" "''r''" "''k''"] show ?thesis by force
qed

end
