(* ===== verification/RealtimeClient.thy ===== *)
theory RealtimeClient
  imports RealtimeState
begin

text \<open>
  The browser's client of the realtime gateway (app/web/src/shared/realtime/client.ts). Sockets
  and calls of \<open>request\<close> are numbered; a message arrives decoded, \<open>None\<close> when \<open>JSON.parse\<close> throws,
  and what the handler throws is reported by the browser without ending anything. A frame's \<open>seq\<close>
  is a number, null or absent, and an error frame's message is shown as a text.
\<close>

section \<open>State\<close>

datatype rc_effect =
    WsOpen nat string
  | WsSend nat json
  | WsClose nat
  | OnStatus bool
  | OnFrame json
  | OnError string
  | OnGap jnum jnum
  | RcSettle nat "js_error + jsval"
  | ReportError js_error
  | ReportBadJson

record rc_state =
  rc_socket :: "nat option"
  rc_ready :: "nat \<Rightarrow> ready_state"
  rc_requestId :: nat
  rc_lastSeq :: jsval
  rc_pending :: "(string \<times> nat) list"
  rc_sockets :: nat

type_synonym rc_act = "(rc_state, rc_effect) act"

definition new_client :: rc_state where
  "new_client = \<lparr>rc_socket = None, rc_ready = (\<lambda>_. Connecting), rc_requestId = 0,
     rc_lastSeq = Some JNull, rc_pending = [], rc_sockets = 0\<rparr>"

section \<open>Numbers\<close>

fun seq_number :: "jsval \<Rightarrow> jnum" where
  "seq_number (Some JNull) = Fin 0"
| "seq_number (Some (JNum x)) = x"
| "seq_number _ = NaN"

text \<open>\<open>x + 1\<close> in doubles, and \<open>x > y\<close>.\<close>

fun jnum_add1 :: "jnum \<Rightarrow> jnum" where
  "jnum_add1 (Fin q) = (if q + 1 < 0 then neg_num (double_of_rat (- (q + 1))) else double_of_rat (q + 1))"
| "jnum_add1 x = x"

fun jnum_gt :: "jnum \<Rightarrow> jnum \<Rightarrow> bool" where
  "jnum_gt (Fin a) (Fin b) \<longleftrightarrow> a > b"
| "jnum_gt PosInf y \<longleftrightarrow> y \<noteq> PosInf \<and> y \<noteq> NaN"
| "jnum_gt (Fin a) NegInf \<longleftrightarrow> True"
| "jnum_gt _ _ \<longleftrightarrow> False"

section \<open>Handlers\<close>

definition rc_connect :: "string \<Rightarrow> rc_act" where
  "rc_connect url = with_state (\<lambda>s. seq
     (update (\<lambda>s. s\<lparr>rc_socket := Some (rc_sockets s), rc_ready := (rc_ready s)(rc_sockets s := Connecting),
        rc_sockets := Suc (rc_sockets s)\<rparr>))
     (emit [WsOpen (rc_sockets s) url]))"

definition response_result :: "json \<Rightarrow> js_error + jsval" where
  "response_result frame =
     (if truthy (getp frame ''ok'') then Inr (getp frame ''payload'')
      else (let e = getp frame ''error'';
                msg = (case e of None \<Rightarrow> None | Some JNull \<Rightarrow> None | Some x \<Rightarrow> getp x ''message'')
            in Inl (PlainError (js_to_string
                 (the (js_nullish msg (Some (JStr ''realtime gateway request failed''))))))))"

definition resolvePending :: "json \<Rightarrow> rc_act" where
  "resolvePending frame = with_state (\<lambda>s.
     case as_str (getp frame ''id'') of
       None \<Rightarrow> skip
     | Some i \<Rightarrow>
         (case map_of (rc_pending s) i of
            None \<Rightarrow> skip
          | Some k \<Rightarrow> seq (update (\<lambda>s. s\<lparr>rc_pending := AList.delete i (rc_pending s)\<rparr>))
                        (emit [RcSettle k (response_result frame)])))"

definition rejectPending :: "string \<Rightarrow> rc_act" where
  "rejectPending message = with_state (\<lambda>s. seq
     (update (\<lambda>s. s\<lparr>rc_pending := []\<rparr>))
     (emit (map (\<lambda>e. RcSettle (snd e) (Inl (PlainError message))) (rc_pending s))))"

definition track_seq :: "json \<Rightarrow> rc_act" where
  "track_seq frame = with_state (\<lambda>s. seq
     (emit (let expected = jnum_add1 (seq_number (rc_lastSeq s)); received = seq_number (getp frame ''seq'')
            in if rc_lastSeq s \<noteq> Some JNull \<and> jnum_gt received expected then [OnGap expected received] else []))
     (update (\<lambda>s. s\<lparr>rc_lastSeq := getp frame ''seq''\<rparr>)))"

definition rc_message :: "json option \<Rightarrow> rc_act" where
  "rc_message data =
     (case data of
        None \<Rightarrow> emit [ReportBadJson]
      | Some JNull \<Rightarrow> emit [ReportError (null_read ''type'')]
      | Some frame \<Rightarrow>
          (let type = getp frame ''type'' in act_all
             [if type = Some (JStr ''hello'') then update (\<lambda>s. s\<lparr>rc_lastSeq := Some JNull\<rparr>) else skip,
              if type = Some (JStr ''res'') then resolvePending frame else skip,
              if type = Some (JStr ''error'') then emit [OnError (template (getp frame ''message''))] else skip,
              if type = Some (JStr ''event'') then track_seq frame else skip,
              emit [OnFrame frame]]))"

definition rc_close :: rc_act where
  "rc_close = with_state (\<lambda>s. seq
     (update (\<lambda>s. s\<lparr>rc_socket := None, rc_lastSeq := Some JNull,
        rc_ready := (case rc_socket s of None \<Rightarrow> rc_ready s
          | Some n \<Rightarrow> (if rc_ready s n = ClosedState then rc_ready s else (rc_ready s)(n := Closing)))\<rparr>))
     (emit (case rc_socket s of None \<Rightarrow> [] | Some n \<Rightarrow> [WsClose n])))"

text \<open>A call of \<open>request\<close>, numbered \<open>k\<close>, at the time \<open>now\<close> of \<open>Date.now()\<close>.\<close>

definition request_id :: "nat \<Rightarrow> nat \<Rightarrow> string" where
  "request_id now n = ''req-'' @ nat_str now @ ''-'' @ nat_str n"

definition rc_request :: "nat \<Rightarrow> string \<Rightarrow> jsval \<Rightarrow> nat \<Rightarrow> rc_act" where
  "rc_request k method payload now = with_state (\<lambda>s.
     case rc_socket s of
       None \<Rightarrow> emit [RcSettle k (Inl (PlainError ''realtime gateway is not connected''))]
     | Some n \<Rightarrow>
         if rc_ready s n \<noteq> OpenState
         then emit [RcSettle k (Inl (PlainError ''realtime gateway is not connected''))]
         else (let i = request_id now (Suc (rc_requestId s)) in seq
           (update (\<lambda>s. s\<lparr>rc_requestId := Suc (rc_requestId s),
              rc_pending := AList.update i k (rc_pending s)\<rparr>))
           (emit [WsSend n (frame_json (RequestF \<lparr>rf_id = i, rf_method = method, rf_payload = payload\<rparr>))])))"

datatype rc_event =
    RcConnect
  | RcOpened nat
  | RcMessage nat "json option"
  | RcFailed nat
  | RcClosed nat
  | RcClose
  | RcRequest nat string jsval nat

fun rc_step :: "string \<Rightarrow> rc_event \<Rightarrow> rc_act" where
  "rc_step url RcConnect = rc_connect url"
| "rc_step url (RcOpened n) = seq (update (\<lambda>s. s\<lparr>rc_ready := (rc_ready s)(n := OpenState)\<rparr>)) (emit [OnStatus True])"
| "rc_step url (RcMessage n data) = rc_message data"
| "rc_step url (RcFailed n) = emit [OnError ''realtime gateway connection failed'']"
| "rc_step url (RcClosed n) = act_all
     [update (\<lambda>s. s\<lparr>rc_ready := (rc_ready s)(n := ClosedState)\<rparr>),
      rejectPending ''realtime gateway connection closed'', emit [OnStatus False]]"
| "rc_step url RcClose = rc_close"
| "rc_step url (RcRequest k method payload now) = rc_request k method payload now"

definition rc_run :: "string \<Rightarrow> rc_event list \<Rightarrow> rc_act" where
  "rc_run url evs = for_each (rc_step url) evs"

section \<open>Requests\<close>

definition rc_open :: "rc_state \<Rightarrow> nat multiset" where
  "rc_open s = mset (map snd (rc_pending s))"

fun rc_settled :: "rc_effect \<Rightarrow> nat multiset" where
  "rc_settled (RcSettle k r) = {#k#}"
| "rc_settled _ = {#}"

fun rc_calls :: "rc_event \<Rightarrow> nat multiset" where
  "rc_calls (RcRequest k m p now) = {#k#}"
| "rc_calls _ = {#}"

interpretation web: account rc_open rc_settled
  by unfold_locales

text \<open>The ids in the table are distinct and carry the numbers given out so far.\<close>

definition rc_inv :: "rc_state \<Rightarrow> bool" where
  "rc_inv s \<longleftrightarrow> distinct (map fst (rc_pending s))
     \<and> (\<forall>i\<in>fst ` set (rc_pending s). \<exists>now n. i = request_id now n \<and> n \<le> rc_requestId s)"

lemma request_id_number: "request_id now n = request_id now' n' \<Longrightarrow> n = n'"
proof -
  assume "request_id now n = request_id now' n'"
  then have "(''req-'' @ nat_str now) @ CHR ''-'' # nat_str n = (''req-'' @ nat_str now') @ CHR ''-'' # nat_str n'"
    by (simp add: request_id_def)
  then show ?thesis by (rule number_suffix_unique) simp
qed

lemma mset_delete:
  "map_of ps i = Some k \<Longrightarrow> distinct (map fst ps)
   \<Longrightarrow> add_mset k (mset (map snd (AList.delete i ps))) = mset (map snd ps)"
proof (induction ps)
  case (Cons p ps)
  show ?case
  proof (cases "fst p = i")
    case True
    with Cons.prems(2) have "AList.delete i ps = ps" by (auto intro: AList.delete_idem)
    with True Cons.prems(1) show ?thesis by (cases p) simp
  next
    case False
    with Cons show ?thesis by (cases p) auto
  qed
qed simp

lemma balanced_resolve:
  assumes "rc_inv s"
  shows "web.balanced {#} (resolvePending frame) s \<and> rc_inv (fst (resolvePending frame s))"
proof (cases "Option.bind (as_str (getp frame ''id'')) (map_of (rc_pending s))")
  case None
  with assms show ?thesis
    by (cases "as_str (getp frame ''id'')") (simp_all add: resolvePending_def web.balanced_def)
next
  case (Some k)
  then obtain i where i: "as_str (getp frame ''id'') = Some i" "map_of (rc_pending s) i = Some k"
    by (cases "as_str (getp frame ''id'')") auto
  from assms have d: "distinct (map fst (rc_pending s))" by (simp add: rc_inv_def)
  show ?thesis
    using assms mset_delete [OF i(2) d]
    by (auto simp: resolvePending_def i web.balanced_def rc_open_def rc_inv_def AList.delete_eq
        distinct_map_filter)
qed

lemma balanced_reject: "web.balanced {#} (rejectPending m) s \<and> rc_inv (fst (rejectPending m s))"
proof -
  have "(\<Sum>e\<leftarrow>ps. rc_settled (RcSettle (snd e) r)) = mset (map snd ps)" for ps :: "(string \<times> nat) list" and r
    by (induction ps) simp_all
  then show ?thesis by (simp add: rejectPending_def web.balanced_def rc_open_def rc_inv_def comp_def)
qed

text \<open>Actions that neither touch the table nor settle anything.\<close>

definition rc_quiet :: "rc_act \<Rightarrow> bool" where
  "rc_quiet a \<longleftrightarrow> (\<forall>s. rc_pending (fst (a s)) = rc_pending s \<and> rc_requestId (fst (a s)) = rc_requestId s
     \<and> (\<forall>e\<in>set (snd (a s)). rc_settled e = {#}))"

lemma quiet_balanced: "rc_quiet a \<Longrightarrow> rc_inv s \<Longrightarrow> web.balanced {#} a s \<and> rc_inv (fst (a s))"
proof -
  have "\<forall>e\<in>set es. rc_settled e = {#} \<Longrightarrow> sum_list (map rc_settled es) = {#}" for es
    by (induction es) auto
  then show "rc_quiet a \<Longrightarrow> rc_inv s \<Longrightarrow> web.balanced {#} a s \<and> rc_inv (fst (a s))"
    by (simp add: rc_quiet_def web.balanced_def rc_open_def rc_inv_def)
qed

lemma rc_seq:
  "web.balanced m a s \<and> rc_inv (fst (a s)) \<Longrightarrow>
   (rc_inv (fst (a s)) \<Longrightarrow> web.balanced n b (fst (a s)) \<and> rc_inv (fst (b (fst (a s)))))
   \<Longrightarrow> web.balanced (m + n) (seq a b) s \<and> rc_inv (fst (seq a b s))"
  using web.balanced_seq [of m a s n b "m + n"] by auto

lemma quiet_track: "rc_quiet (track_seq frame)"
  by (simp add: rc_quiet_def track_seq_def Let_def)

lemma quiet_basic:
  "rc_quiet skip" "rc_quiet (emit [OnFrame f])" "rc_quiet (emit [OnError m])" "rc_quiet (emit [ReportError x])"
  "rc_quiet (emit [ReportBadJson])"
  "rc_quiet (update (\<lambda>s. s\<lparr>rc_lastSeq := v\<rparr>))" "rc_quiet (rc_connect url)" "rc_quiet rc_close"
  by (auto simp: rc_quiet_def rc_connect_def rc_close_def split: option.split)

lemma balanced_message:
  assumes "rc_inv s"
  shows "web.balanced {#} (rc_message data) s \<and> rc_inv (fst (rc_message data s))"
proof (cases "data = None \<or> data = Some JNull")
  case True
  with assms quiet_balanced [OF quiet_basic(4)] quiet_balanced [OF quiet_basic(5)] show ?thesis by (auto simp: rc_message_def)
next
  case False
  then obtain f where f: "data = Some f" "f \<noteq> JNull" by auto
  let ?t = "getp f ''type''"
  have one: "rc_inv t \<Longrightarrow> web.balanced {#} a t \<and> rc_inv (fst (a t))"
    if "a \<in> {if ?t = Some (JStr ''hello'') then update (\<lambda>s. s\<lparr>rc_lastSeq := Some JNull\<rparr>) else skip,
              if ?t = Some (JStr ''res'') then resolvePending f else skip,
              if ?t = Some (JStr ''error'') then emit [OnError (template (getp f ''message''))] else skip,
              if ?t = Some (JStr ''event'') then track_seq f else skip,
              emit [OnFrame f]}" for a t
    using that balanced_resolve [of t f] quiet_balanced quiet_basic quiet_track
    by (auto simp del: act_simps split: if_splits)
  have all: "rc_inv t \<Longrightarrow> \<forall>a\<in>set as. \<forall>t. rc_inv t \<longrightarrow> web.balanced {#} a t \<and> rc_inv (fst (a t))
      \<Longrightarrow> web.balanced {#} (act_all as) t \<and> rc_inv (fst (act_all as t))" for as t
  proof (induction as arbitrary: t)
    case Nil
    show ?case using quiet_balanced [OF quiet_basic(1) Nil(1)] by (simp only: act_simps(5))
  next
    case (Cons a as)
    then show ?case using rc_seq [of "{#}" a t "{#}" "act_all as"] by simp
  qed
  show ?thesis
    unfolding rc_message_def f(1) using f(2) by (cases f; simp only: option.case json.case Let_def; intro all assms ballI allI impI one) auto
qed

lemma balanced_request:
  assumes "rc_inv s"
  shows "web.balanced {#k#} (rc_request k m p now) s \<and> rc_inv (fst (rc_request k m p now s))"
proof (cases "\<exists>n. rc_socket s = Some n \<and> rc_ready s n = OpenState")
  case False
  with assms show ?thesis
    by (auto simp: rc_request_def web.balanced_def rc_open_def split: option.split)
next
  case True
  then obtain n where n: "rc_socket s = Some n" "rc_ready s n = OpenState" by blast
  let ?i = "request_id now (Suc (rc_requestId s))"
  have new: "?i \<notin> fst ` set (rc_pending s)"
    using assms request_id_number by (fastforce simp: rc_inv_def)
  have "AList.update ?i k (rc_pending s) = rc_pending s @ [(?i, k)]"
    using new by (rule update_append)
  moreover have "\<exists>now' n'. j = request_id now' n' \<and> n' \<le> Suc (rc_requestId s)" if "j \<in> fst ` set (rc_pending s)" for j
    using assms that by (meson rc_inv_def le_Suc_eq)
  ultimately show ?thesis
    using assms new n
    by (auto simp: rc_request_def Let_def web.balanced_def rc_open_def rc_inv_def simp del: frame_json.simps)
qed

lemma balanced_rc_step:
  assumes "rc_inv s"
  shows "web.balanced (rc_calls ev) (rc_step url ev) s \<and> rc_inv (fst (rc_step url ev s))"
proof (cases ev)
  case (RcClosed n)
  let ?t = "s\<lparr>rc_ready := (rc_ready s)(n := ClosedState)\<rparr>"
  have "rc_open ?t = rc_open s" by (simp add: rc_open_def)
  with RcClosed balanced_reject [of "''realtime gateway connection closed''" ?t] show ?thesis
    by (simp add: web.balanced_def)
next
  case (RcOpened n)
  with assms show ?thesis by (simp add: web.balanced_def rc_open_def rc_inv_def)
next
  case (RcFailed n)
  with assms show ?thesis by (simp add: web.balanced_def)
qed (use assms balanced_message balanced_request quiet_balanced quiet_basic in simp_all)

lemma balanced_rc_run:
  "rc_inv s \<Longrightarrow> web.balanced (\<Sum>ev\<leftarrow>evs. rc_calls ev) (rc_run url evs) s"
proof (induction evs arbitrary: s)
  case Nil
  then show ?case by (simp add: rc_run_def web.balanced_def)
next
  case (Cons ev evs)
  with balanced_rc_step [OF Cons(2), of ev url] show ?case
    by (auto simp: rc_run_def intro: web.balanced_seq)
qed

lemma fst_for_each_snoc: "fst (for_each f (xs @ [x]) s) = fst (f x (fst (for_each f xs s)))"
  by (induction xs arbitrary: s) simp_all

section \<open>Gaps\<close>

fun gaps_between :: "nat list \<Rightarrow> (nat \<times> nat) list" where
  "gaps_between (a # b # xs) = (if b > a + 1 then [(a + 1, b)] else []) @ gaps_between (b # xs)"
| "gaps_between _ = []"

definition reported_gaps :: "rc_effect list \<Rightarrow> (jnum \<times> jnum) list" where
  "reported_gaps es = List.map_filter (\<lambda>e. case e of OnGap a b \<Rightarrow> Some (a, b) | _ \<Rightarrow> None) es"

lemma reported_gaps_simps [simp]:
  "reported_gaps [] = []" "reported_gaps (xs @ ys) = reported_gaps xs @ reported_gaps ys"
  "reported_gaps (OnGap a b # es) = (a, b) # reported_gaps es"
  "reported_gaps (OnFrame f # es) = reported_gaps es"
  by (simp_all add: reported_gaps_def List.map_filter_def)

abbreviation js_nat :: "nat \<Rightarrow> jnum" where
  "js_nat n \<equiv> Fin (of_nat n)"

definition event_with_seq :: "json \<Rightarrow> nat \<Rightarrow> bool" where
  "event_with_seq f i \<longleftrightarrow> getp f ''type'' = Some (JStr ''event'') \<and> getp f ''seq'' = Some (JNum (js_nat i))"

lemma event_message:
  assumes "event_with_seq f i" and "rc_lastSeq s = Some JNull \<or> (\<exists>j. j + 1 < 2 ^ 53 \<and> rc_lastSeq s = Some (JNum (js_nat j)))"
  shows "rc_lastSeq (fst (rc_message (Some f) s)) = Some (JNum (js_nat i))"
    and "reported_gaps (snd (rc_message (Some f) s)) = (case rc_lastSeq s of
      Some (JNum (Fin q)) \<Rightarrow> map (map_prod js_nat js_nat) (gaps_between [nat \<lfloor>q\<rfloor>, i]) | _ \<Rightarrow> [])"
proof -
  have t: "getp f ''type'' = Some (JStr ''event'')" "getp f ''seq'' = Some (JNum (js_nat i))"
    using assms(1) by (simp_all add: event_with_seq_def)
  then have "f \<noteq> JNull" by auto
  with t have run: "rc_message (Some f) s = seq (track_seq f) (emit [OnFrame f]) s"
    by (cases f) (simp_all add: rc_message_def del: getp.simps)
  show "rc_lastSeq (fst (rc_message (Some f) s)) = Some (JNum (js_nat i))"
    by (simp add: run track_seq_def t)
  have succ: "jnum_add1 (js_nat j) = js_nat (j + 1)" if "j + 1 < 2 ^ 53" for j
    using jnum_succ_nat [of j] that by simp
  have gt: "jnum_gt (js_nat a) (Fin (1 + of_nat b)) \<longleftrightarrow> a > b + 1" for a b
    using of_nat_less_iff [of "Suc b" a, where 'a = rat] by simp
  show "reported_gaps (snd (rc_message (Some f) s)) = (case rc_lastSeq s of
      Some (JNum (Fin q)) \<Rightarrow> map (map_prod js_nat js_nat) (gaps_between [nat \<lfloor>q\<rfloor>, i]) | _ \<Rightarrow> [])"
    using assms(2)
  proof
    assume "rc_lastSeq s = Some JNull"
    then show ?thesis by (simp add: run track_seq_def)
  next
    assume "\<exists>j. j + 1 < 2 ^ 53 \<and> rc_lastSeq s = Some (JNum (js_nat j))"
    then obtain j where j: "j + 1 < 2 ^ 53" "rc_lastSeq s = Some (JNum (js_nat j))" by blast
    have "nat \<lfloor>of_nat j :: rat\<rfloor> = j" by simp
    with j show ?thesis
      by (simp add: run track_seq_def t seq_number.simps succ [OF j(1)] gt Let_def del: jnum_add1.simps jnum_gt.simps)
  qed
qed

lemma event_messages:
  assumes "list_all2 event_with_seq fs is" and "\<forall>i\<in>set is. i + 1 < 2 ^ 53"
    and "rc_lastSeq s = Some (JNum (js_nat j))" and "j + 1 < 2 ^ 53"
  shows "reported_gaps (snd (rc_run url (map (\<lambda>f. RcMessage n (Some f)) fs) s))
    = map (map_prod js_nat js_nat) (gaps_between (j # is))"
  using assms
proof (induction fs "is" arbitrary: s j rule: list_all2_induct)
  case Nil
  then show ?case by (simp add: rc_run_def)
next
  case (Cons f fs i "is")
  have l: "rc_lastSeq s = Some JNull \<or> (\<exists>j. j + 1 < 2 ^ 53 \<and> rc_lastSeq s = Some (JNum (js_nat j)))"
    using Cons.prems(2,3) by blast
  note m = event_message [OF Cons.hyps(1) l]
  have "reported_gaps (snd (rc_message (Some f) s)) = map (map_prod js_nat js_nat) (gaps_between [j, i])"
    using m(2) Cons.prems(2) by simp
  with Cons.IH [OF _ m(1)] Cons.prems(1) show ?case by (simp add: rc_run_def)
qed

lemma gaps_exact:
  assumes "getp h ''type'' = Some (JStr ''hello'')" and "list_all2 event_with_seq fs is"
    and "\<forall>i\<in>set is. i + 1 < 2 ^ 53"
  shows "reported_gaps (snd (rc_run url (map (\<lambda>f. RcMessage n (Some f)) (h # fs)) s))
    = map (map_prod js_nat js_nat) (gaps_between is)"
proof -
  have "h \<noteq> JNull" using assms(1) by auto
  with assms(1) have hello: "rc_message (Some h) s = (s\<lparr>rc_lastSeq := Some JNull\<rparr>, [OnFrame h])"
    by (cases h) (simp_all add: rc_message_def seq_def del: getp.simps)
  let ?s = "s\<lparr>rc_lastSeq := Some JNull\<rparr>"
  show ?thesis
  proof (cases "is")
    case Nil
    with assms(2) show ?thesis by (simp add: rc_run_def hello)
  next
    case (Cons i js)
    with assms(2) obtain f gs where f: "fs = f # gs" "event_with_seq f i" "list_all2 event_with_seq gs js"
      by (cases fs) auto
    note m = event_message [OF f(2), of ?s, simplified]
    have "\<forall>j\<in>set js. j + 1 < 2 ^ 53" "i + 1 < 2 ^ 53" using assms(3) Cons by auto
    with event_messages [OF f(3) _ m(1)] m(2) show ?thesis
      by (simp add: rc_run_def hello f(1) Cons)
  qed
qed

section \<open>Properties\<close>

text \<open>
  Every request of the browser is settled once or still waits: over any run of a client the
  calls of \<open>request\<close> are, with multiplicity, the promises settled plus those in the table, the ids
  in the table are distinct, and when a socket closes none is left waiting.
\<close>

theorem web_requests_settled_once:
  "(\<Sum>ev\<leftarrow>evs. rc_calls ev)
     = (\<Sum>e\<leftarrow>snd (rc_run url evs new_client). rc_settled e) + rc_open (fst (rc_run url evs new_client))
   \<and> rc_pending (fst (rc_run url (evs @ [RcClosed n]) new_client)) = []"
proof
  have "rc_inv new_client" by (simp add: rc_inv_def new_client_def)
  from balanced_rc_run [OF this, of evs url]
  show "(\<Sum>ev\<leftarrow>evs. rc_calls ev)
      = (\<Sum>e\<leftarrow>snd (rc_run url evs new_client). rc_settled e) + rc_open (fst (rc_run url evs new_client))"
    by (simp add: web.balanced_def ac_simps) (simp add: rc_open_def new_client_def)
  show "rc_pending (fst (rc_run url (evs @ [RcClosed n]) new_client)) = []"
    by (simp add: rc_run_def fst_for_each_snoc rejectPending_def)
qed

text \<open>
  Gap detection is exact: after a hello frame, event frames with the numbers \<open>is\<close> (below
  \<open>2^53\<close>) make the client report exactly the jumps between neighbours, in order, each with the
  number it expected and the one it got; so it reports nothing if every number is at most one
  more than the one before.
\<close>

theorem gaps_are_jumps:
  assumes "getp h ''type'' = Some (JStr ''hello'')" and "list_all2 event_with_seq fs is"
    and "\<forall>i\<in>set is. i + 1 < 2 ^ 53"
  shows "reported_gaps (snd (rc_run url (map (\<lambda>f. RcMessage n (Some f)) (h # fs)) s))
    = map (map_prod js_nat js_nat) (gaps_between is)"
  by (rule gaps_exact [OF assms])

definition seq_event :: "nat \<Rightarrow> json" where
  "seq_event i = JObj [(''type'', JStr ''event''), (''seq'', JNum (js_nat i))]"

lemma gaps_are_jumps_witness:
  "reported_gaps (snd (rc_run ''ws://g'' (map (\<lambda>f. RcMessage 0 (Some f))
      (JObj [(''type'', JStr ''hello'')] # map seq_event [4, 5, 9, 2])) new_client)) = [(Fin 6, Fin 9)]"
proof -
  have h: "getp (JObj [(''type'', JStr ''hello'')]) ''type'' = Some (JStr ''hello'')"
    "list_all2 event_with_seq (map seq_event [4, 5, 9, 2]) [4, 5, 9, 2]" "\<forall>i\<in>set [4, 5, 9, 2]. i + 1 < (2::nat) ^ 53"
    by (simp_all add: event_with_seq_def seq_event_def)
  from gaps_are_jumps [OF h, of "''ws://g''" 0 new_client] show ?thesis by simp
qed

text \<open>
  An event the bridge drops reads as a loss: when OpenClaw numbers three events in a row and
  the bridge forwards only the outer two (the one between has a name it does not know, such as
  OpenClaw's \<open>tick\<close>), a browser that receives every frame the gateway sends still reports a gap.
\<close>

theorem dropped_event_reads_as_gap:
  assumes "normalizeOpenClawEvent clk f = Inr [sf]" and "sv_seq sf = Some (js_nat q)"
    and "normalizeOpenClawEvent clk h = Inr [sh]" and "sv_seq sh = Some (js_nat (q + 2))" and "q + 3 < 2 ^ 53"
    and "getp hello ''type'' = Some (JStr ''hello'')"
  shows "normalizeOpenClawEvent clk \<lparr>oe_event = Some ''tick'', oe_seq = Some (js_nat (q + 1)), oe_payload = p,
        oe_stateVersion = v\<rparr> = Inr []
    \<and> reported_gaps (snd (rc_run url (map (\<lambda>x. RcMessage n (Some x)) (hello #
        map (\<lambda>e. json_wire (frame_json (EventF e))) (event_frames [sf, sh] c m))) s))
      = [(js_nat (q + 1), js_nat (q + 2))]"
proof
  show "normalizeOpenClawEvent clk \<lparr>oe_event = Some ''tick'', oe_seq = Some (js_nat (q + 1)), oe_payload = p,
        oe_stateVersion = v\<rparr> = Inr []"
    by (simp add: normalizeOpenClawEvent_def normalize_named_def normalizeEventName_def)
  obtain f1 m1 where f1: "createEventFrame sf c m = (f1, m1)" by fastforce
  obtain f2 m2 where f2: "createEventFrame sh c m1 = (f2, m2)" by fastforce
  have "ef_seq f1 = js_nat q" "ef_seq f2 = js_nat (q + 2)"
    using f1 f2 assms(2,4) by (auto simp: createEventFrame_def Let_def)
  then have "list_all2 event_with_seq (map (\<lambda>e. json_wire (frame_json (EventF e))) (event_frames [sf, sh] c m)) [q, q + 2]"
    by (simp add: f1 f2 event_with_seq_def getp_wire event_frame_fields del: frame_json.simps getp.simps)
  from gaps_exact [OF assms(6) this, of url n s] assms(5)
  show "reported_gaps (snd (rc_run url (map (\<lambda>x. RcMessage n (Some x)) (hello #
        map (\<lambda>e. json_wire (frame_json (EventF e))) (event_frames [sf, sh] c m))) s))
      = [(js_nat (q + 1), js_nat (q + 2))]"
    by (simp add: comp_def)
qed

definition changed_event :: "nat \<Rightarrow> openclaw_event" where
  "changed_event i = \<lparr>oe_event = Some ''sessions.changed'', oe_seq = Some (js_nat i), oe_payload = None,
     oe_stateVersion = None\<rparr>"

lemma dropped_event_reads_as_gap_witness:
  "\<exists>sf sh. normalizeOpenClawEvent (\<lambda>_. 0) (changed_event 7) = Inr [sf]
     \<and> normalizeOpenClawEvent (\<lambda>_. 0) (changed_event 9) = Inr [sh]
     \<and> reported_gaps (snd (rc_run ''ws://g'' (map (\<lambda>x. RcMessage 0 (Some x)) (JObj [(''type'', JStr ''hello'')] #
        map (\<lambda>e. json_wire (frame_json (EventF e))) (event_frames [sf, sh]
          \<lparr>bc_workspaceId = ''w'', bc_tenantId = None, bc_userId = None\<rparr> (Fin 0)))) new_client))
      = [(js_nat (7 + 1), js_nat (7 + 2))]"
proof -
  let ?sv = "\<lambda>i. \<lparr>sv_event = EvSessionsChanged, sv_payload = None, sv_seq = Some (js_nat i), sv_stateVersion = None\<rparr>"
  have n: "normalizeOpenClawEvent (\<lambda>_. 0) (changed_event i) = Inr [?sv i]" for i
    by (simp add: normalizeOpenClawEvent_def normalize_named_def normalizeEventName_def changed_event_def
        source_event_of_def)
  have s: "sv_seq (?sv 7) = Some (js_nat 7)" "sv_seq (?sv 9) = Some (js_nat (7 + 2))" "(7::nat) + 3 < 2 ^ 53"
    "getp (JObj [(''type'', JStr ''hello'')]) ''type'' = Some (JStr ''hello'')"
    by simp_all
  from dropped_event_reads_as_gap [OF n s(1) n s(2-4)] n show ?thesis by blast
qed

end
