(* ===== verification/ApiClient.thy ===== *)
theory ApiClient
  imports RealtimeClient
begin

text \<open>
  The browser's client of the Product API (app/web/src/shared/api/client.ts). \<open>fetch\<close> is a
  parameter: what it answers to a request, an error or a status with what reading its body yields. Texts are UTF-8, so \<open>encodeURIComponent\<close> works byte by byte. Answers and mock
  data are JSON values.
\<close>

section \<open>Requests\<close>

record fetch_request =
  fq_url :: string
  fq_method :: string
  fq_headers :: "(string \<times> string) list"
  fq_body :: "json option"

record fetch_response =
  fr_status :: nat
  fr_json :: "js_error + json"

type_synonym fetch = "fetch_request \<Rightarrow> js_error + fetch_response"

definition JSON_HEADERS :: "(string \<times> string) list" where
  "JSON_HEADERS = [(''Accept'', ''application/json'')]"

definition JSON_MUTATION_HEADERS :: "(string \<times> string) list" where
  "JSON_MUTATION_HEADERS = JSON_HEADERS @ [(''Content-Type'', ''application/json'')]"

definition parseBooleanEnv :: "string option \<Rightarrow> bool \<Rightarrow> bool" where
  "parseBooleanEnv value fallback =
     (case value of
        None \<Rightarrow> fallback
      | Some v \<Rightarrow>
          if v = [] then fallback
          else (let normalized = ascii_lower (trim v) in
            if normalized \<in> {''1'', ''true'', ''yes'', ''on''} then True
            else if normalized \<in> {''0'', ''false'', ''no'', ''off''} then False
            else fallback))"

definition trimTrailingSlash :: "string option \<Rightarrow> string option" where
  "trimTrailingSlash value =
     (case value of
        None \<Rightarrow> None
      | Some v \<Rightarrow>
          let trimmed = trim v in
          if trimmed = [] then None
          else Some (if last trimmed = CHR ''/'' then butlast trimmed else trimmed))"

definition readJsonResponse :: "fetch_response \<Rightarrow> js_error + json" where
  "readJsonResponse response =
     (if fr_status response < 200 \<or> 299 < fr_status response
      then Inl (PlainError (''product api request failed with status '' @ nat_str (fr_status response)))
      else fr_json response)"

definition unreserved :: "char \<Rightarrow> bool" where
  "unreserved c \<longleftrightarrow> c \<in> set (''ABCDEFGHIJKLMNOPQRSTUVWXYZabcdefghijklmnopqrstuvwxyz0123456789-_.!~*()'' @ [CHR 0x27])"

definition upper_hex :: "nat \<Rightarrow> char" where
  "upper_hex n = ''0123456789ABCDEF'' ! n"

definition encode_byte :: "char \<Rightarrow> string" where
  "encode_byte c = (if unreserved c then [c]
     else [CHR ''%'', upper_hex (of_char c div 16), upper_hex (of_char c mod 16)])"

definition encodeURIComponent :: "string \<Rightarrow> string" where
  "encodeURIComponent s = concat (map encode_byte s)"

section \<open>The client\<close>

record api_client =
  ac_baseUrl :: "string option"
  ac_fallbackToMock :: bool
  ac_fetch :: fetch

record api_client_options =
  ao_baseUrl :: "string option"
  ao_fallbackToMock :: "bool option"
  ao_fetch :: fetch

definition new_api_client :: "api_client_options \<Rightarrow> api_client" where
  "new_api_client o' = \<lparr>ac_baseUrl = trimTrailingSlash (ao_baseUrl o'),
     ac_fallbackToMock = nullish (ao_fallbackToMock o') True, ac_fetch = ao_fetch o'\<rparr>"

text \<open>The client of the page, from the build's environment.\<close>

definition productApiClient :: "string option \<Rightarrow> string option \<Rightarrow> fetch \<Rightarrow> api_client" where
  "productApiClient baseUrlEnv fallbackEnv f = new_api_client
     \<lparr>ao_baseUrl = trimTrailingSlash baseUrlEnv,
      ao_fallbackToMock = Some (parseBooleanEnv fallbackEnv True), ao_fetch = f\<rparr>"

definition buildUrl :: "api_client \<Rightarrow> string \<Rightarrow> string" where
  "buildUrl c path =
     (case ac_baseUrl c of
        None \<Rightarrow> path
      | Some base \<Rightarrow>
          if base = [] then path
          else if drop (length base - 4) base = ''/api'' \<and> 4 \<le> length base \<and> take 5 path = ''/api/''
          then base @ drop 4 path
          else base @ path)"

definition with_fallback :: "api_client \<Rightarrow> json \<Rightarrow> js_error + json \<Rightarrow> js_error + json" where
  "with_fallback c mock r = (case r of Inr v \<Rightarrow> Inr v
     | Inl e \<Rightarrow> if ac_fallbackToMock c then Inr mock else Inl e)"

text \<open>A base URL that is missing or empty: the client answers from the mock data without a request.\<close>

definition has_base :: "api_client \<Rightarrow> bool" where
  "has_base c \<longleftrightarrow> nonempty (ac_baseUrl c) \<noteq> None"

definition api_read :: "api_client \<Rightarrow> string \<Rightarrow> json \<Rightarrow> js_error + json" where
  "api_read c path mock =
     (if \<not> has_base c then Inr mock
      else with_fallback c mock (res_bind (ac_fetch c
        \<lparr>fq_url = buildUrl c path, fq_method = ''GET'', fq_headers = JSON_HEADERS, fq_body = None\<rparr>)
        readJsonResponse))"

definition api_write :: "api_client \<Rightarrow> string \<Rightarrow> string \<Rightarrow> json option \<Rightarrow> json \<Rightarrow> js_error + json" where
  "api_write c path method body mock =
     (if \<not> has_base c then Inr mock
      else with_fallback c mock (res_bind (ac_fetch c
        \<lparr>fq_url = buildUrl c path, fq_method = method, fq_headers = JSON_MUTATION_HEADERS, fq_body = body\<rparr>)
        readJsonResponse))"

section \<open>Mock data\<close>

definition summary_or_first :: "('a \<Rightarrow> string) \<Rightarrow> string \<Rightarrow> 'a list \<Rightarrow> 'a" where
  "summary_or_first key i xs = (case find_by key i xs of Some x \<Rightarrow> x | None \<Rightarrow> hd xs)"

definition mock_workflow_detail :: "string \<Rightarrow> json" where
  "mock_workflow_detail workflowId =
     (case find_by wf_id workflowId mockWorkflowDetails of
        Some detail \<Rightarrow> workflow_detail_json detail
      | None \<Rightarrow> mk_obj (workflow_fields (summary_or_first wf_id workflowId mockWorkflows) @
          [(''description'', Some (JStr (''Product API mock fallback '' @ [CHR 0xE6, CHR 0x9C, CHR 0xAA,
              CHR 0xE6, CHR 0x89, CHR 0xBE, CHR 0xE5, CHR 0x88, CHR 0xB0, CHR 0xE8, CHR 0xAF, CHR 0xA5,
              CHR 0xE6, CHR 0xB5, CHR 0x81, CHR 0xE7, CHR 0xA8, CHR 0x8B, CHR 0xE8, CHR 0xAF, CHR 0xA6,
              CHR 0xE6, CHR 0x83, CHR 0x85, CHR 0xEF, CHR 0xBC, CHR 0x8C, CHR 0xE5, CHR 0xB7, CHR 0xB2,
              CHR 0xE8, CHR 0xBF, CHR 0x94, CHR 0xE5, CHR 0x9B, CHR 0x9E, CHR 0xE9, CHR 0xBB, CHR 0x98,
              CHR 0xE8, CHR 0xAE, CHR 0xA4, CHR 0xE6, CHR 0xB5, CHR 0x81, CHR 0xE7, CHR 0xA8, CHR 0x8B,
              CHR 0xE3, CHR 0x80, CHR 0x82])))]))"

definition mock_run_detail :: "string \<Rightarrow> json" where
  "mock_run_detail runId =
     (case find_by run_id runId mockRunDetails of
        Some detail \<Rightarrow> run_detail_json detail
      | None \<Rightarrow> mk_obj (run_fields (summary_or_first run_id runId mockRuns) @
          [(''resultSummary'', Some (JStr (''Product API mock fallback '' @ [CHR 0xE6, CHR 0x9C, CHR 0xAA,
              CHR 0xE6, CHR 0x89, CHR 0xBE, CHR 0xE5, CHR 0x88, CHR 0xB0, CHR 0xE8, CHR 0xAF, CHR 0xA5,
              CHR 0xE8, CHR 0xBF, CHR 0x90, CHR 0xE8, CHR 0xA1, CHR 0x8C, CHR 0xE8, CHR 0xAF, CHR 0xA6,
              CHR 0xE6, CHR 0x83, CHR 0x85, CHR 0xEF, CHR 0xBC, CHR 0x8C, CHR 0xE5, CHR 0xB7, CHR 0xB2,
              CHR 0xE8, CHR 0xBF, CHR 0x94, CHR 0xE5, CHR 0x9B, CHR 0x9E, CHR 0xE9, CHR 0xBB, CHR 0x98,
              CHR 0xE8, CHR 0xAE, CHR 0xA4, CHR 0xE8, CHR 0xBF, CHR 0x90, CHR 0xE8, CHR 0xA1, CHR 0x8C,
              CHR 0xE3, CHR 0x80, CHR 0x82])))]))"

definition mock_session_detail :: "string \<Rightarrow> json" where
  "mock_session_detail sessionId =
     (case find_by se_id sessionId mockSessionDetails of
        Some detail \<Rightarrow> session_detail_json detail
      | None \<Rightarrow> mk_obj (session_fields (summary_or_first se_id sessionId mockSessions) @
          [(''messageCount'', Some (js_int 0))]))"

definition mock_run :: "string \<Rightarrow> string \<Rightarrow> string \<Rightarrow> string \<Rightarrow> string \<Rightarrow> json" where
  "mock_run i workflowId title now summary = JObj
     [(''id'', JStr i), (''workflowId'', JStr workflowId), (''title'', JStr title), (''status'', JStr ''queued''),
      (''startedAt'', JStr now), (''resultSummary'', JStr summary)]"

section \<open>Operations\<close>

text \<open>\<open>now\<close> is \<open>new Date().toISOString()\<close> in a mock answer.\<close>

definition getWorkbenchSummary :: "api_client \<Rightarrow> js_error + json" where
  "getWorkbenchSummary c = api_read c ''/api/workbench/summary'' (workbench_json mockWorkbench)"

definition getWorkflowSummaries :: "api_client \<Rightarrow> js_error + json" where
  "getWorkflowSummaries c = api_read c ''/api/workflows'' (JArr (map workflow_summary_json mockWorkflows))"

record create_workflow_input =
  cw_name :: "string option"
  cw_description :: "string option"

definition workflow_input_json :: "create_workflow_input \<Rightarrow> json" where
  "workflow_input_json i = mk_obj
     [(''name'', map_option JStr (cw_name i)), (''description'', map_option JStr (cw_description i))]"

definition client_createWorkflow :: "api_client \<Rightarrow> string \<Rightarrow> create_workflow_input \<Rightarrow> js_error + json" where
  "client_createWorkflow c now i = api_write c ''/api/workflows'' ''POST'' (Some (workflow_input_json i))
     (JObj [(''id'', JStr ''wf-local''), (''name'', JStr (trim_or (cw_name i) [CHR 0xE6, CHR 0x9C,
         CHR 0xAA, CHR 0xE5, CHR 0x91, CHR 0xBD, CHR 0xE5, CHR 0x90, CHR 0x8D, CHR 0xE6, CHR 0xB5,
         CHR 0x81, CHR 0xE7, CHR 0xA8, CHR 0x8B])),
            (''status'', JStr ''draft''), (''lastRunAt'', JStr now),
            (''description'', JStr (trim_or (cw_description i) ([CHR 0xE6, CHR 0x9C, CHR 0xAC, CHR 0xE5,
                CHR 0x9C, CHR 0xB0] @ '' mock fallback '' @ [CHR 0xE5, CHR 0x88, CHR 0x9B, CHR 0xE5,
                CHR 0xBB, CHR 0xBA, CHR 0xE7, CHR 0x9A, CHR 0x84, CHR 0xE6, CHR 0xB5, CHR 0x81, CHR 0xE7,
                CHR 0xA8, CHR 0x8B, CHR 0xE3, CHR 0x80, CHR 0x82])))])"

definition client_getWorkflowDetail :: "api_client \<Rightarrow> string \<Rightarrow> js_error + json" where
  "client_getWorkflowDetail c workflowId =
     api_read c (''/api/workflows/'' @ encodeURIComponent workflowId) (mock_workflow_detail workflowId)"

definition client_startWorkflowRun :: "api_client \<Rightarrow> string \<Rightarrow> string \<Rightarrow> js_error + json" where
  "client_startWorkflowRun c now workflowId =
     api_write c (''/api/workflows/'' @ encodeURIComponent workflowId @ ''/run'') ''POST'' None
       (mock_run ''run-local'' workflowId
          (case find_by wf_id workflowId mockWorkflows of Some w \<Rightarrow> wf_name w | None \<Rightarrow> [CHR 0xE6,
              CHR 0x9C, CHR 0xAC, CHR 0xE5, CHR 0x9C, CHR 0xB0, CHR 0xE6, CHR 0xB5, CHR 0x81, CHR 0xE7,
              CHR 0xA8, CHR 0x8B, CHR 0xE8, CHR 0xBF, CHR 0x90, CHR 0xE8, CHR 0xA1, CHR 0x8C]) now
          (''Product API mock fallback '' @ [CHR 0xE5, CHR 0xB7, CHR 0xB2, CHR 0xE5, CHR 0x88, CHR 0x9B,
              CHR 0xE5, CHR 0xBB, CHR 0xBA, CHR 0xE6, CHR 0x9C, CHR 0xAC, CHR 0xE5, CHR 0x9C, CHR 0xB0,
              CHR 0xE8, CHR 0xBF, CHR 0x90, CHR 0xE8, CHR 0xA1, CHR 0x8C, CHR 0xE3, CHR 0x80, CHR 0x82]))"

definition getWorkflowRunSummaries :: "api_client \<Rightarrow> js_error + json" where
  "getWorkflowRunSummaries c = api_read c ''/api/runs'' (JArr (map run_summary_json mockRuns))"

definition getWorkflowRunDetail :: "api_client \<Rightarrow> string \<Rightarrow> js_error + json" where
  "getWorkflowRunDetail c runId = api_read c (''/api/runs/'' @ encodeURIComponent runId) (mock_run_detail runId)"

definition retryWorkflowRun :: "api_client \<Rightarrow> string \<Rightarrow> string \<Rightarrow> js_error + json" where
  "retryWorkflowRun c now runId =
     api_write c (''/api/runs/'' @ encodeURIComponent runId @ ''/retry'') ''POST'' None
       (mock_run ''run-retry-local''
          (case find_by run_id runId mockRunDetails of Some r \<Rightarrow> run_workflowId r | None \<Rightarrow> ''wf-local'')
          [CHR 0xE6, CHR 0x9C, CHR 0xAC, CHR 0xE5, CHR 0x9C, CHR 0xB0, CHR 0xE9, CHR 0x87, CHR 0x8D,
              CHR 0xE8, CHR 0xAF, CHR 0x95, CHR 0xE8, CHR 0xBF, CHR 0x90, CHR 0xE8, CHR 0xA1,
              CHR 0x8C] now (''Product API mock fallback '' @ [CHR 0xE5, CHR 0xB7, CHR 0xB2, CHR 0xE5,
              CHR 0x88, CHR 0x9B, CHR 0xE5, CHR 0xBB, CHR 0xBA, CHR 0xE6, CHR 0x9C, CHR 0xAC, CHR 0xE5,
              CHR 0x9C, CHR 0xB0, CHR 0xE9, CHR 0x87, CHR 0x8D, CHR 0xE8, CHR 0xAF, CHR 0x95, CHR 0xE8,
              CHR 0xBF, CHR 0x90, CHR 0xE8, CHR 0xA1, CHR 0x8C, CHR 0xE3, CHR 0x80, CHR 0x82]))"

definition getSessionSummaries :: "api_client \<Rightarrow> js_error + json" where
  "getSessionSummaries c = api_read c ''/api/sessions'' (JArr (map session_summary_json mockSessions))"

definition client_getSessionDetail :: "api_client \<Rightarrow> string \<Rightarrow> js_error + json" where
  "client_getSessionDetail c sessionId =
     api_read c (''/api/sessions/'' @ encodeURIComponent sessionId) (mock_session_detail sessionId)"

definition getChannelConnectionSummaries :: "api_client \<Rightarrow> js_error + json" where
  "getChannelConnectionSummaries c = api_read c ''/api/channel-connections'' (JArr (map connection_json mockConnections))"

definition client_connectFeishu :: "api_client \<Rightarrow> string \<Rightarrow> js_error + json" where
  "client_connectFeishu c now = api_write c ''/api/channel-connections/feishu/connect'' ''POST'' None
     (connection_json \<lparr>conn_id = ''conn-feishu'', conn_channelType = ''feishu'', conn_status = Connected,
        conn_lastActiveAt = now\<rparr>)"

definition getSettingsDetail :: "api_client \<Rightarrow> js_error + json" where
  "getSettingsDetail c = api_read c ''/api/settings'' (JObj mockSettings)"

definition client_updateSettings :: "api_client \<Rightarrow> entries \<Rightarrow> js_error + json" where
  "client_updateSettings c i = api_write c ''/api/settings'' ''PUT'' (Some (JObj i))
     (JObj (obj_spread mockSettings i))"

definition getAuditEventSummaries :: "api_client \<Rightarrow> js_error + json" where
  "getAuditEventSummaries c = api_read c ''/api/audit-events'' (JArr (map audit_json mockAuditEvents))"

definition getKnowledgeSourceSummaries :: "api_client \<Rightarrow> js_error + json" where
  "getKnowledgeSourceSummaries c = api_read c ''/api/knowledge-sources'' (JArr (map knowledge_json mockKnowledgeSources))"

record create_knowledge_input =
  ck_name :: "string option"
  ck_sourceType :: "string option"

definition client_createKnowledgeSource :: "api_client \<Rightarrow> string \<Rightarrow> create_knowledge_input \<Rightarrow> js_error + json" where
  "client_createKnowledgeSource c now i = api_write c ''/api/knowledge-sources'' ''POST''
     (Some (mk_obj [(''name'', map_option JStr (ck_name i)), (''sourceType'', map_option JStr (ck_sourceType i))]))
     (knowledge_json \<lparr>ks_id = ''knowledge-local'', ks_name = trim_or (ck_name i) [CHR 0xE6,
         CHR 0x9C, CHR 0xAA, CHR 0xE5, CHR 0x91, CHR 0xBD, CHR 0xE5, CHR 0x90, CHR 0x8D, CHR 0xE7,
         CHR 0x9F, CHR 0xA5, CHR 0xE8, CHR 0xAF, CHR 0x86, CHR 0xE6, CHR 0xBA, CHR 0x90],
        ks_sourceType = JStr (nullish (ck_sourceType i) ''web-upload''), ks_status = KSyncing,
        ks_updatedAt = now, ks_documentCount = 0\<rparr>)"

definition getAutomationSummaries :: "api_client \<Rightarrow> js_error + json" where
  "getAutomationSummaries c = api_read c ''/api/automations'' (JArr (map automation_json mockAutomations))"

record create_automation_input =
  ca_name :: "string option"
  ca_triggerType :: "string option"

definition client_createAutomation :: "api_client \<Rightarrow> string \<Rightarrow> create_automation_input \<Rightarrow> js_error + json" where
  "client_createAutomation c now i = api_write c ''/api/automations'' ''POST''
     (Some (mk_obj [(''name'', map_option JStr (ca_name i)), (''triggerType'', map_option JStr (ca_triggerType i))]))
     (automation_json \<lparr>au_id = ''automation-local'', au_name = trim_or (ca_name i) [CHR 0xE6,
         CHR 0x9C, CHR 0xAA, CHR 0xE5, CHR 0x91, CHR 0xBD, CHR 0xE5, CHR 0x90, CHR 0x8D, CHR 0xE8,
         CHR 0x87, CHR 0xAA, CHR 0xE5, CHR 0x8A, CHR 0xA8, CHR 0xE5, CHR 0x8C, CHR 0x96],
        au_triggerType = JStr (nullish (ca_triggerType i) ''schedule''), au_status = AActive, au_lastRunAt = None,
        au_nextRunAt = (if nullish (ca_triggerType i) ''schedule'' = ''manual'' then None else Some now)\<rparr>)"

definition client_toggleAutomation :: "api_client \<Rightarrow> string \<Rightarrow> string \<Rightarrow> js_error + json" where
  "client_toggleAutomation c now automationId =
     api_write c (''/api/automations/'' @ encodeURIComponent automationId @ ''/toggle'') ''POST'' None
       (automation_json (toggled_automation (summary_or_first au_id automationId mockAutomations) now))"

definition client_runAutomation :: "api_client \<Rightarrow> string \<Rightarrow> string \<Rightarrow> js_error + json" where
  "client_runAutomation c now automationId =
     api_write c (''/api/automations/'' @ encodeURIComponent automationId @ ''/run'') ''POST'' None
       (automation_json ((summary_or_first au_id automationId mockAutomations)\<lparr>au_lastRunAt := Some now\<rparr>))"

section \<open>The server behind the client\<close>

text \<open>
  \<open>fetch\<close> against the Product API server. \<open>pathname_of\<close> is the URL parser: the path name of the
  request's URL, \<open>None\<close> for a text it rejects.
\<close>

definition server_fetch ::
    "product_config \<Rightarrow> 's repository \<Rightarrow> clock \<Rightarrow> (string \<Rightarrow> string option) \<Rightarrow> 's store \<Rightarrow> fetch" where
  "server_fetch cfg R clk pathname_of st rq =
     (case pathname_of (fq_url rq) of
        None \<Rightarrow> Inl (TypeError ''Failed to parse URL'')
      | Some p \<Rightarrow>
          (case fst (handle_request cfg R clk
               \<lparr>rq_method = fq_method rq, rq_pathname = Some p,
                rq_body = (case fq_body rq of None \<Rightarrow> NoBody | Some b \<Rightarrow> Body (Inr (json_wire b)))\<rparr> st) of
             None \<Rightarrow> Inl (TypeError ''Failed to fetch'')
           | Some rs \<Rightarrow> Inr \<lparr>fr_status = rs_status rs,
               fr_json = (case rs_body rs of None \<Rightarrow> Inl (SyntaxError ''Unexpected end of JSON input'')
                          | Some b \<Rightarrow> Inr (json_wire b))\<rparr>))"

text \<open>
  What the client relies on of the URL parser: after an origin, a path of unreserved characters
  and percent escapes is kept as it is, unless a segment of it means the same or the parent
  directory.
\<close>

definition dot_segments :: "string set" where
  "dot_segments = {''.'', ''..'', ''%2e'', ''%2E'', ''.%2e'', ''.%2E'', ''%2e.'', ''%2E.'', ''%2e%2e'',
     ''%2e%2E'', ''%2E%2e'', ''%2E%2E''}"

definition plain_path :: "string \<Rightarrow> bool" where
  "plain_path p \<longleftrightarrow> take 1 p = ''/'' \<and> (\<forall>c\<in>set p. unreserved c \<or> c = CHR ''/'' \<or> c = CHR ''%'')
     \<and> set (split_on (CHR ''/'') p) \<inter> dot_segments = {}"

definition keeps_plain_paths :: "(string \<Rightarrow> string option) \<Rightarrow> string \<Rightarrow> bool" where
  "keeps_plain_paths pathname_of origin \<longleftrightarrow> (\<forall>p. plain_path p \<longrightarrow> pathname_of (origin @ p) = Some p)"

section \<open>Lemmas\<close>

lemma unreserved_special [simp]: "\<not> unreserved (CHR ''%'')" "\<not> unreserved (CHR ''/'')"
  by (simp_all add: unreserved_def)

lemma upper_hex_unreserved: "n < 16 \<Longrightarrow> unreserved (upper_hex n)"
proof -
  assume "n < 16"
  then have "upper_hex n \<in> set ''0123456789ABCDEF''"
    using nth_mem [of n "''0123456789ABCDEF''"] by (simp add: upper_hex_def del: nth_mem)
  then show ?thesis by (auto simp: unreserved_def)
qed

lemma byte_digits: "of_char (c :: char) div 16 < (16 :: nat)" "of_char c mod 16 < (16 :: nat)"
proof -
  have "of_char c < (256 :: nat)" using mod_less_divisor [of 256 "of_char c :: nat"] by simp
  then show "of_char c div 16 < (16 :: nat)" "of_char c mod 16 < (16 :: nat)"
    by (simp_all add: less_mult_imp_div_less)
qed

lemma encode_byte_chars: "x \<in> set (encode_byte c) \<Longrightarrow> unreserved x \<or> x = CHR ''%''"
  using upper_hex_unreserved byte_digits [of c] by (auto simp: encode_byte_def split: if_splits)

lemma encode_chars: "x \<in> set (encodeURIComponent s) \<Longrightarrow> unreserved x \<or> x = CHR ''%''"
  using encode_byte_chars by (auto simp: encodeURIComponent_def)

lemma encode_no_slash: "CHR ''/'' \<notin> set (encodeURIComponent s)"
  using encode_chars by force

lemma encode_same: "encodeURIComponent s = s \<longleftrightarrow> (\<forall>c\<in>set s. unreserved c)"
proof
  show "\<forall>c\<in>set s. unreserved c \<Longrightarrow> encodeURIComponent s = s"
    by (induction s) (simp_all add: encodeURIComponent_def encode_byte_def)
  have len: "length (encodeURIComponent s) \<ge> length s" for s
    by (induction s) (auto simp: encodeURIComponent_def encode_byte_def)
  show "encodeURIComponent s = s \<Longrightarrow> \<forall>c\<in>set s. unreserved c"
  proof (induction s)
    case (Cons c s)
    have "unreserved c"
    proof (rule ccontr)
      assume "\<not> unreserved c"
      then have "length (encodeURIComponent (c # s)) = 3 + length (encodeURIComponent s)"
        by (simp add: encodeURIComponent_def encode_byte_def)
      with len [of s] Cons.prems show False by simp
    qed
    with Cons show ?case by (simp add: encodeURIComponent_def encode_byte_def)
  qed simp
qed

lemma encode_empty [simp]: "encodeURIComponent s = [] \<longleftrightarrow> s = []"
  by (cases s) (auto simp: encodeURIComponent_def encode_byte_def)

text \<open>What the encoding means: decoding the escapes gives the text back.\<close>

definition hex_value :: "char \<Rightarrow> nat" where
  "hex_value c = (let n = of_char c in if n \<le> 57 then n - 48 else if n \<le> 70 then n - 55 else n - 87)"

fun percent_decode :: "string \<Rightarrow> string" where
  "percent_decode (c # a # b # s) =
     (if c = CHR ''%'' then char_of (16 * hex_value a + hex_value b) # percent_decode s
      else c # percent_decode (a # b # s))"
| "percent_decode s = s"

lemma hex_value_upper: "n < 16 \<Longrightarrow> hex_value (upper_hex n) = n"
proof -
  have "\<forall>n\<in>set [0..<16]. hex_value (upper_hex n) = n" by code_simp
  then show "n < 16 \<Longrightarrow> hex_value (upper_hex n) = n" by simp
qed

lemma decode_step: "c \<noteq> CHR ''%'' \<Longrightarrow> percent_decode (c # s) = c # percent_decode s"
  by (cases s; cases "tl s") simp_all

lemma decode_encode: "percent_decode (encodeURIComponent s) = s"
proof (induction s)
  case (Cons c s)
  show ?case
  proof (cases "unreserved c")
    case True
    then have "c \<noteq> CHR ''%''" by auto
    with True Cons show ?thesis by (simp add: encodeURIComponent_def encode_byte_def decode_step)
  next
    case False
    have "16 * (of_char c div 16) + of_char c mod 16 = (of_char c :: nat)" by simp
    then have "char_of (16 * hex_value (upper_hex (of_char c div 16)) + hex_value (upper_hex (of_char c mod 16))) = c"
      using byte_digits [of c] by (simp only: hex_value_upper char_of_char)
    with False Cons show ?thesis by (simp add: encodeURIComponent_def encode_byte_def)
  qed
qed (simp add: encodeURIComponent_def)

lemma encode_not_dot: "encodeURIComponent s \<in> dot_segments \<Longrightarrow> s = ''.'' \<or> s = ''..''"
proof -
  have "\<forall>d\<in>dot_segments. percent_decode d = ''.'' \<or> percent_decode d = ''..''"
    unfolding dot_segments_def by code_simp
  then show "encodeURIComponent s \<in> dot_segments \<Longrightarrow> s = ''.'' \<or> s = ''..''"
    using decode_encode [of s] by metis
qed

lemma split_on_none: "sep \<notin> set s \<Longrightarrow> split_on sep s = [s]"
  by (induction s) auto

lemma split_on_append: "split_on sep (p @ sep # s) = split_on sep p @ split_on sep s"
proof (induction p)
  case (Cons c p)
  have "split_on sep p \<noteq> []" by (cases p) (auto split: list.split)
  with Cons show ?case by (auto split: list.split)
qed simp

lemma plain_append:
  assumes "plain_path p" and "\<forall>c\<in>set s. unreserved c \<or> c = CHR ''%''" and "s \<notin> dot_segments"
  shows "plain_path (p @ CHR ''/'' # s)"
proof -
  have "CHR ''/'' \<notin> set s" using assms(2) by auto
  then have "split_on (CHR ''/'') (p @ CHR ''/'' # s) = split_on (CHR ''/'') p @ [s]"
    by (simp add: split_on_append split_on_none)
  moreover have "p \<noteq> []" using assms(1) by (auto simp: plain_path_def)
  ultimately show ?thesis using assms by (auto simp: plain_path_def take_Cons' simp del: split_on.simps)
qed

lemma plain_collections: "plain_path ''/api/sessions''" "plain_path ''/api/workflows''"
  by (simp_all add: plain_path_def unreserved_def dot_segments_def)

lemma id_path_plain:
  assumes "plain_path p" and "s \<noteq> ''.''" and "s \<noteq> ''..''"
  shows "plain_path (p @ CHR ''/'' # encodeURIComponent s)"
  using encode_not_dot assms by (intro plain_append) (auto dest: encode_chars)

lemma in_memory_getSessionDetail: "getSessionDetail im_repo = im_getSessionDetail"
  by (simp add: createInMemoryProductApiRepository_def)

text \<open>A client of a server under \<open>/api\<close>; \<open>origin\<close> is the server's origin.\<close>

definition client_of ::
    "product_config \<Rightarrow> clock \<Rightarrow> (string \<Rightarrow> string option) \<Rightarrow> string \<Rightarrow> bool \<Rightarrow> product_state store \<Rightarrow> api_client" where
  "client_of cfg clk pathname_of origin fallback st =
     \<lparr>ac_baseUrl = Some (origin @ ''/api''), ac_fallbackToMock = fallback,
      ac_fetch = server_fetch cfg im_repo clk pathname_of st\<rparr>"

definition default_paths :: "product_config \<Rightarrow> bool" where
  "default_paths cfg \<longleftrightarrow> pc_basePath cfg = ''/api'' \<and> pc_healthPath cfg = ''/healthz''"

lemma client_url: "buildUrl (client_of cfg clk f origin b st) (''/api/'' @ p) = origin @ ''/api/'' @ p"
  by (simp add: buildUrl_def client_of_def)

lemma client_has_base [simp]: "has_base (client_of cfg clk f origin b st)"
  by (simp add: has_base_def client_of_def nonempty_def)

text \<open>A request of the client to a plain path is the server's request on the route.\<close>

lemma client_request:
  assumes "keeps_plain_paths f origin" and "plain_path (''/api/'' @ p)" and "default_paths cfg" and "m \<noteq> ''OPTIONS''"
  shows "ac_fetch (client_of cfg clk f origin b st)
      \<lparr>fq_url = origin @ ''/api/'' @ p, fq_method = m, fq_headers = h, fq_body = None\<rparr>
    = (let rs = fst (finish st (routes im_repo clk m (CHR ''/'' # p) NoBody st))
       in Inr \<lparr>fr_status = rs_status rs, fr_json = (case rs_body rs of
            None \<Rightarrow> Inl (SyntaxError ''Unexpected end of JSON input'') | Some v \<Rightarrow> Inr (json_wire v))\<rparr>)"
proof -
  let ?rq = "\<lparr>rq_method = m, rq_pathname = Some (''/api/'' @ p), rq_body = NoBody\<rparr>"
  have f: "f (origin @ ''/api/'' @ p) = Some (''/api/'' @ p)"
    using assms(1,2) unfolding keeps_plain_paths_def by blast
  have "handle_request cfg im_repo clk ?rq st
      = map_prod Some id (finish st (routes im_repo clk m (CHR ''/'' # p) NoBody st))"
    using api_request [of ?rq cfg "CHR ''/'' # p" im_repo clk st] assms(3,4) by (simp add: default_paths_def)
  then show ?thesis
    unfolding client_of_def server_fetch_def by (simp add: f [simplified] Let_def)
qed

section \<open>Properties\<close>

text \<open>
  C39: the session page over HTTP: for a session id that is not \<open>.\<close> or \<open>..\<close> the browser gets the
  session that the server has under the percent-encoded text of the id, because the server does not
  decode the path; when there is none it gets an error, or with the default fallback a mock
  session in its place. The encoded text is the id itself only if every character is
  unreserved; a session key such as \<open>agent:main:main\<close>, under which the mirror stores a session,
  is not.
\<close>

theorem session_detail_over_http:
  assumes "keeps_plain_paths pathname_of origin" and "default_paths cfg" and "s \<notin> {[], ''.'', ''..''}"
  shows "client_getSessionDetail (client_of cfg clk pathname_of origin fallback st) s =
      (case im_getSessionDetail (encodeURIComponent s) (repo st) of
         Some d \<Rightarrow> Inr (json_wire (session_detail_json d))
       | None \<Rightarrow> if fallback then Inr (mock_session_detail s)
                else Inl (PlainError ''product api request failed with status 404''))
    \<and> (encodeURIComponent s = s \<longleftrightarrow> (\<forall>c\<in>set s. unreserved c))
    \<and> encodeURIComponent ''agent:main:main'' = ''agent%3Amain%3Amain''"
proof -
  let ?c = "client_of cfg clk pathname_of origin fallback st"
  let ?e = "encodeURIComponent s"
  have plain: "plain_path (''/api/'' @ ''sessions/'' @ ?e)"
    using id_path_plain [OF plain_collections(1), of s] assms(3) by simp
  have e: "?e \<noteq> []" "CHR ''/'' \<notin> set ?e" using assms(3) encode_no_slash by auto
  have url: "buildUrl ?c (''/api/sessions/'' @ ?e) = origin @ ''/api/'' @ ''sessions/'' @ ?e"
    using client_url [of cfg clk pathname_of origin fallback st "''sessions/'' @ ?e"] by simp
  have fb: "ac_fallbackToMock ?c = fallback" by (simp add: client_of_def)
  have "client_getSessionDetail ?c s =
      (case im_getSessionDetail ?e (repo st) of
         Some d \<Rightarrow> Inr (json_wire (session_detail_json d))
       | None \<Rightarrow> if fallback then Inr (mock_session_detail s)
                else Inl (PlainError ''product api request failed with status 404''))"
    using client_request [OF assms(1) plain assms(2), of "''GET''" clk fallback st JSON_HEADERS]
      route_get_session [OF e, of im_repo clk NoBody st]
    by (cases "im_getSessionDetail ?e (repo st)")
       (simp_all add: client_getSessionDetail_def api_read_def url [simplified] with_fallback_def fb
         readJsonResponse_def found_or_404_def finish_def writeJson_def notFound_def nat_str_eval Let_def
         in_memory_getSessionDetail)
  moreover have "encodeURIComponent ''agent:main:main'' = ''agent%3Amain%3Amain''"
    by code_simp
  ultimately show ?thesis using encode_same by blast
qed

definition strip_origin :: "string \<Rightarrow> string \<Rightarrow> string option" where
  "strip_origin origin url = Some (drop (length origin) url)"

lemma strip_origin_plain: "keeps_plain_paths (strip_origin origin) origin"
  by (simp add: keeps_plain_paths_def strip_origin_def)

lemma session_detail_over_http_witness:
  "client_getSessionDetail (client_of default_config (\<lambda>_. 0) (strip_origin ''http://h:1'') ''http://h:1'' False fresh_server)
      ''session-1'' \<noteq> Inl (PlainError ''product api request failed with status 404'')
   \<and> client_getSessionDetail (client_of default_config (\<lambda>_. 0) (strip_origin ''http://h:1'') ''http://h:1'' False fresh_server)
      ''agent:main:main'' = Inl (PlainError ''product api request failed with status 404'')"
proof -
  have d: "default_paths default_config" by (simp add: default_paths_def default_config_def)
  have s: "''session-1'' \<notin> {[], ''.'', ''..''}" "''agent:main:main'' \<notin> {[], ''.'', ''..''}" by simp_all
  have r: "repo fresh_server = createMockProductApiState" by (simp add: createProductApiStore_def)
  have e: "encodeURIComponent ''session-1'' = ''session-1''" "encodeURIComponent ''agent:main:main'' = ''agent%3Amain%3Amain''"
    by code_simp+
  have g: "im_getSessionDetail ''session-1'' createMockProductApiState \<noteq> None"
    "im_getSessionDetail ''agent%3Amain%3Amain'' createMockProductApiState = None" by code_simp+
  note t = session_detail_over_http [OF strip_origin_plain d, where origin = "''http://h:1''"
    and clk = "\<lambda>_. 0" and fallback = False and st = fresh_server]
  obtain d where "im_getSessionDetail ''session-1'' createMockProductApiState = Some d" using g(1) by blast
  then show ?thesis
    using t [OF s(1)] t [OF s(2)] g(2) unfolding r e by simp
qed

lemma route_start_run:
  assumes "i \<noteq> []" and "CHR ''/'' \<notin> set i"
  shows "routes R clk ''POST'' (''/workflows/'' @ i @ ''/run'') body st
     = found_or_404 201 run_detail_json (startWorkflowRun R clk i st)"
  using match_seg_make [OF assms, of "''/workflows/''" "''/run''"]
  by (simp add: routes_def workflow_routes_def found_or_404_def or_else_def split: option.split prod.split)

text \<open>
  C40: a refused write reads as a success: when the server does not know a workflow, starting it
  creates nothing, but with the default fallback the browser is told of a queued run of that
  workflow; only a client without fallback learns of the 404.
\<close>

theorem refused_run_reads_as_queued:
  assumes "keeps_plain_paths pathname_of origin" and "default_paths cfg" and "s \<notin> {[], ''.'', ''..''}"
    and "im_getWorkflowDetail (encodeURIComponent s) (repo st) = None"
  shows "handle_request cfg im_repo clk
        \<lparr>rq_method = ''POST'', rq_pathname = Some (''/api/workflows/'' @ encodeURIComponent s @ ''/run''), rq_body = NoBody\<rparr> st
      = (Some notFound, st)
    \<and> (\<exists>r. client_startWorkflowRun (client_of cfg clk pathname_of origin True st) now s = Inr r
        \<and> getp r ''status'' = Some (JStr ''queued'') \<and> getp r ''workflowId'' = Some (JStr s)
        \<and> getp r ''id'' = Some (JStr ''run-local''))
    \<and> client_startWorkflowRun (client_of cfg clk pathname_of origin False st) now s
        = Inl (PlainError ''product api request failed with status 404'')"
proof -
  let ?e = "encodeURIComponent s"
  let ?p = "''workflows/'' @ ?e @ ''/run''"
  have "plain_path (''/api/workflows/'' @ ?e)"
    using id_path_plain [OF plain_collections(2), of s] assms(3) by simp
  from plain_append [OF this, of "''run''"] have plain: "plain_path (''/api/'' @ ?p)"
    by (simp add: unreserved_def dot_segments_def)
  have e: "?e \<noteq> []" "CHR ''/'' \<notin> set ?e" using assms(3) encode_no_slash by auto
  have none: "startWorkflowRun im_repo clk ?e st = (None, st)"
    using assms(4) by (simp add: startWorkflowRun_def in_memory_laws)
  note route = route_start_run [OF e, of im_repo clk NoBody st, unfolded none]
  let ?rq = "\<lparr>rq_method = ''POST'', rq_pathname = Some (''/api/'' @ ?p), rq_body = NoBody\<rparr>"
  have "handle_request cfg im_repo clk ?rq st = (Some notFound, st)"
    using api_request [of ?rq cfg "CHR ''/'' # ?p" im_repo clk st] assms(2) route
    by (simp add: default_paths_def found_or_404_def finish_def)
  moreover have "ac_fetch (client_of cfg clk pathname_of origin b st)
      \<lparr>fq_url = origin @ ''/api/'' @ ?p, fq_method = ''POST'', fq_headers = JSON_MUTATION_HEADERS, fq_body = None\<rparr>
    = Inr \<lparr>fr_status = 404, fr_json = Inr (json_wire (the (rs_body notFound)))\<rparr>" for b
    using client_request [OF assms(1) plain assms(2), of "''POST''" clk b st JSON_MUTATION_HEADERS] route
    by (simp add: found_or_404_def finish_def notFound_def writeJson_def Let_def)
  then have "client_startWorkflowRun (client_of cfg clk pathname_of origin b st) now s
      = with_fallback (client_of cfg clk pathname_of origin b st)
          (mock_run ''run-local'' s (case find_by wf_id s mockWorkflows of Some w \<Rightarrow> wf_name w
             | None \<Rightarrow> [CHR 0xE6, CHR 0x9C, CHR 0xAC, CHR 0xE5, CHR 0x9C, CHR 0xB0, CHR 0xE6,
                 CHR 0xB5, CHR 0x81, CHR 0xE7, CHR 0xA8, CHR 0x8B, CHR 0xE8, CHR 0xBF, CHR 0x90, CHR 0xE8,
                 CHR 0xA1, CHR 0x8C]) now (''Product API mock fallback '' @ [CHR 0xE5, CHR 0xB7, CHR 0xB2,
                 CHR 0xE5, CHR 0x88, CHR 0x9B, CHR 0xE5, CHR 0xBB, CHR 0xBA, CHR 0xE6, CHR 0x9C, CHR 0xAC,
                 CHR 0xE5, CHR 0x9C, CHR 0xB0, CHR 0xE8, CHR 0xBF, CHR 0x90, CHR 0xE8, CHR 0xA1, CHR 0x8C,
                 CHR 0xE3, CHR 0x80, CHR 0x82]))
          (Inl (PlainError ''product api request failed with status 404''))" for b
    using client_url [of cfg clk pathname_of origin b st ?p]
    by (simp add: client_startWorkflowRun_def api_write_def readJsonResponse_def nat_str_eval)
  ultimately show ?thesis
    by (simp add: with_fallback_def client_of_def mock_run_def)
qed

lemma refused_run_reads_as_queued_witness:
  "client_startWorkflowRun (client_of default_config (\<lambda>_. 0) (strip_origin ''http://h:1'') ''http://h:1'' True fresh_server)
      ''2026-01-01T00:00:00.000Z'' ''wf gone'' \<noteq> Inl (PlainError ''product api request failed with status 404'')
   \<and> client_startWorkflowRun (client_of default_config (\<lambda>_. 0) (strip_origin ''http://h:1'') ''http://h:1'' False fresh_server)
      ''2026-01-01T00:00:00.000Z'' ''wf gone'' = Inl (PlainError ''product api request failed with status 404'')"
proof -
  have d: "default_paths default_config" by (simp add: default_paths_def default_config_def)
  have s: "''wf gone'' \<notin> {[], ''.'', ''..''}" by simp
  have "im_getWorkflowDetail (encodeURIComponent ''wf gone'') createMockProductApiState = None" by code_simp
  then have g: "im_getWorkflowDetail (encodeURIComponent ''wf gone'') (repo fresh_server) = None"
    by (simp add: createProductApiStore_def)
  show ?thesis
    using refused_run_reads_as_queued [OF strip_origin_plain d s g, where origin = "''http://h:1''"
      and clk = "\<lambda>_. 0" and now = "''2026-01-01T00:00:00.000Z''"]
    by (elim conjE exE) simp
qed

end
