(* ===== verification/Queries.thy ===== *)
theory Queries
  imports ApiClient "HOL-Library.Sublist"
begin

text \<open>
  The query and mutation hooks of the pages (app/web/src/shared/api/queries.ts): the key and the
  function of each query, and for each mutation the call it makes and what it tells the query
  cache when the call succeeded. The cache is the library's (react-query): which keys an
  invalidation reaches is a parameter \<open>matches\<close>. Items of the automation list and the answer to a
  mutation are objects.
\<close>

section \<open>Queries\<close>

type_synonym query_key = "string list"

datatype page_query =
    WorkbenchSummary
  | WorkflowSummaries
  | WorkflowDetail string
  | WorkflowRunSummaries
  | WorkflowRunDetail string
  | SessionSummaries
  | SessionDetail string
  | ChannelConnectionSummaries
  | SettingsDetail
  | AuditEventSummaries
  | KnowledgeSourceSummaries
  | AutomationSummaries

fun queryKey :: "page_query \<Rightarrow> query_key" where
  "queryKey WorkbenchSummary = [''workbench-summary'']"
| "queryKey WorkflowSummaries = [''workflow-summaries'']"
| "queryKey (WorkflowDetail i) = [''workflow-detail'', i]"
| "queryKey WorkflowRunSummaries = [''workflow-run-summaries'']"
| "queryKey (WorkflowRunDetail i) = [''workflow-run-detail'', i]"
| "queryKey SessionSummaries = [''session-summaries'']"
| "queryKey (SessionDetail i) = [''session-detail'', i]"
| "queryKey ChannelConnectionSummaries = [''channel-connection-summaries'']"
| "queryKey SettingsDetail = [''settings-detail'']"
| "queryKey AuditEventSummaries = [''audit-event-summaries'']"
| "queryKey KnowledgeSourceSummaries = [''knowledge-source-summaries'']"
| "queryKey AutomationSummaries = [''automation-summaries'']"

fun queryFn :: "api_client \<Rightarrow> page_query \<Rightarrow> js_error + json" where
  "queryFn c WorkbenchSummary = getWorkbenchSummary c"
| "queryFn c WorkflowSummaries = getWorkflowSummaries c"
| "queryFn c (WorkflowDetail i) = client_getWorkflowDetail c i"
| "queryFn c WorkflowRunSummaries = getWorkflowRunSummaries c"
| "queryFn c (WorkflowRunDetail i) = getWorkflowRunDetail c i"
| "queryFn c SessionSummaries = getSessionSummaries c"
| "queryFn c (SessionDetail i) = client_getSessionDetail c i"
| "queryFn c ChannelConnectionSummaries = getChannelConnectionSummaries c"
| "queryFn c SettingsDetail = getSettingsDetail c"
| "queryFn c AuditEventSummaries = getAuditEventSummaries c"
| "queryFn c KnowledgeSourceSummaries = getKnowledgeSourceSummaries c"
| "queryFn c AutomationSummaries = getAutomationSummaries c"

text \<open>\<open>enabled: Boolean(id)\<close>\<close>

fun query_enabled :: "page_query \<Rightarrow> bool" where
  "query_enabled (WorkflowDetail i) \<longleftrightarrow> i \<noteq> []"
| "query_enabled (WorkflowRunDetail i) \<longleftrightarrow> i \<noteq> []"
| "query_enabled (SessionDetail i) \<longleftrightarrow> i \<noteq> []"
| "query_enabled _ \<longleftrightarrow> True"

section \<open>Mutations\<close>

datatype page_mutation =
    CreateWorkflowMutation create_workflow_input
  | StartWorkflowRunMutation string
  | RetryWorkflowRunMutation string
  | ConnectFeishuMutation
  | UpdateSettingsMutation entries
  | CreateKnowledgeSourceMutation create_knowledge_input
  | CreateAutomationMutation create_automation_input
  | ToggleAutomationMutation string
  | RunAutomationMutation string

fun mutationFn :: "api_client \<Rightarrow> string \<Rightarrow> page_mutation \<Rightarrow> js_error + json" where
  "mutationFn c now (CreateWorkflowMutation i) = client_createWorkflow c now i"
| "mutationFn c now (StartWorkflowRunMutation w) = client_startWorkflowRun c now w"
| "mutationFn c now (RetryWorkflowRunMutation r) = retryWorkflowRun c now r"
| "mutationFn c now ConnectFeishuMutation = client_connectFeishu c now"
| "mutationFn c now (UpdateSettingsMutation i) = client_updateSettings c i"
| "mutationFn c now (CreateKnowledgeSourceMutation i) = client_createKnowledgeSource c now i"
| "mutationFn c now (CreateAutomationMutation i) = client_createAutomation c now i"
| "mutationFn c now (ToggleAutomationMutation a) = client_toggleAutomation c now a"
| "mutationFn c now (RunAutomationMutation a) = client_runAutomation c now a"

text \<open>What a mutation tells the cache; the updater gets the list under the key, if there is one.\<close>

datatype cache_call =
    InvalidateQueries query_key
  | SetQueryData query_key "json list option \<Rightarrow> json list"

definition prepend_automation :: "json \<Rightarrow> json list option \<Rightarrow> json list" where
  "prepend_automation automation current =
     automation # filter (\<lambda>item. getp item ''id'' \<noteq> getp automation ''id'') (nullish current [])"

definition replace_automation :: "json \<Rightarrow> json list option \<Rightarrow> json list" where
  "replace_automation automation current =
     map (\<lambda>item. if getp item ''id'' = getp automation ''id'' then automation else item) (nullish current [])"

fun onSuccess :: "page_mutation \<Rightarrow> json \<Rightarrow> cache_call list" where
  "onSuccess (CreateWorkflowMutation i) answer = [InvalidateQueries [''workflow-summaries'']]"
| "onSuccess (StartWorkflowRunMutation w) answer =
     [InvalidateQueries [''workflow-run-summaries''], InvalidateQueries [''workflow-detail'', w],
      InvalidateQueries [''workbench-summary'']]"
| "onSuccess (RetryWorkflowRunMutation r) answer =
     [InvalidateQueries [''workflow-run-summaries''], InvalidateQueries [''workflow-run-detail'', r],
      InvalidateQueries [''workbench-summary'']]"
| "onSuccess ConnectFeishuMutation answer =
     [InvalidateQueries [''channel-connection-summaries''], InvalidateQueries [''workbench-summary''],
      InvalidateQueries [''audit-event-summaries'']]"
| "onSuccess (UpdateSettingsMutation i) answer =
     [InvalidateQueries [''settings-detail''], InvalidateQueries [''audit-event-summaries'']]"
| "onSuccess (CreateKnowledgeSourceMutation i) answer =
     [InvalidateQueries [''knowledge-source-summaries''], InvalidateQueries [''audit-event-summaries'']]"
| "onSuccess (CreateAutomationMutation i) answer =
     [SetQueryData [''automation-summaries''] (prepend_automation answer),
      InvalidateQueries [''audit-event-summaries'']]"
| "onSuccess (ToggleAutomationMutation a) answer =
     [SetQueryData [''automation-summaries''] (replace_automation answer),
      InvalidateQueries [''audit-event-summaries'']]"
| "onSuccess (RunAutomationMutation a) answer =
     [SetQueryData [''automation-summaries''] (replace_automation answer),
      InvalidateQueries [''audit-event-summaries'']]"

text \<open>The cached queries a call refreshes, and the list under a key after the calls.\<close>

fun refreshes :: "(query_key \<Rightarrow> query_key \<Rightarrow> bool) \<Rightarrow> query_key \<Rightarrow> cache_call \<Rightarrow> bool" where
  "refreshes matches k (InvalidateQueries k') \<longleftrightarrow> matches k' k"
| "refreshes matches k (SetQueryData k' f) \<longleftrightarrow> k' = k"

fun cached_list :: "query_key \<Rightarrow> cache_call list \<Rightarrow> json list option \<Rightarrow> json list option" where
  "cached_list k [] cur = cur"
| "cached_list k (SetQueryData k' f # cs) cur = cached_list k cs (if k' = k then Some (f cur) else cur)"
| "cached_list k (InvalidateQueries k' # cs) cur = cached_list k cs cur"

text \<open>
  What the pages rely on of the library's partial matching: a key matches itself, and only keys
  that start with it.
\<close>

definition partial_matching :: "(query_key \<Rightarrow> query_key \<Rightarrow> bool) \<Rightarrow> bool" where
  "partial_matching matches \<longleftrightarrow> (\<forall>k. matches k k) \<and> (\<forall>k q. matches k q \<longrightarrow> prefix k q)"

section \<open>What the server answers\<close>

fun path_id_ok :: "string \<Rightarrow> bool" where
  "path_id_ok i \<longleftrightarrow> i \<notin> {[], ''.'', ''..''}"

fun query_ok :: "page_query \<Rightarrow> bool" where
  "query_ok (WorkflowDetail i) \<longleftrightarrow> path_id_ok i"
| "query_ok (WorkflowRunDetail i) \<longleftrightarrow> path_id_ok i"
| "query_ok (SessionDetail i) \<longleftrightarrow> path_id_ok i"
| "query_ok _ \<longleftrightarrow> True"

fun query_path :: "page_query \<Rightarrow> string" where
  "query_path WorkbenchSummary = ''workbench/summary''"
| "query_path WorkflowSummaries = ''workflows''"
| "query_path (WorkflowDetail i) = ''workflows/'' @ encodeURIComponent i"
| "query_path WorkflowRunSummaries = ''runs''"
| "query_path (WorkflowRunDetail i) = ''runs/'' @ encodeURIComponent i"
| "query_path SessionSummaries = ''sessions''"
| "query_path (SessionDetail i) = ''sessions/'' @ encodeURIComponent i"
| "query_path ChannelConnectionSummaries = ''channel-connections''"
| "query_path SettingsDetail = ''settings''"
| "query_path AuditEventSummaries = ''audit-events''"
| "query_path KnowledgeSourceSummaries = ''knowledge-sources''"
| "query_path AutomationSummaries = ''automations''"

fun query_mock :: "page_query \<Rightarrow> json" where
  "query_mock WorkbenchSummary = workbench_json mockWorkbench"
| "query_mock WorkflowSummaries = JArr (map workflow_summary_json mockWorkflows)"
| "query_mock (WorkflowDetail i) = mock_workflow_detail i"
| "query_mock WorkflowRunSummaries = JArr (map run_summary_json mockRuns)"
| "query_mock (WorkflowRunDetail i) = mock_run_detail i"
| "query_mock SessionSummaries = JArr (map session_summary_json mockSessions)"
| "query_mock (SessionDetail i) = mock_session_detail i"
| "query_mock ChannelConnectionSummaries = JArr (map connection_json mockConnections)"
| "query_mock SettingsDetail = JObj mockSettings"
| "query_mock AuditEventSummaries = JArr (map audit_json mockAuditEvents)"
| "query_mock KnowledgeSourceSummaries = JArr (map knowledge_json mockKnowledgeSources)"
| "query_mock AutomationSummaries = JArr (map automation_json mockAutomations)"

text \<open>The JSON value the server has for a query, \<open>None\<close> for a 404.\<close>

fun server_view :: "page_query \<Rightarrow> product_state \<Rightarrow> json option" where
  "server_view WorkbenchSummary s = Some (workbench_json (computeWorkbenchFromRepository im_repo s))"
| "server_view WorkflowSummaries s = Some (JArr (map workflow_summary_json (workflows s)))"
| "server_view (WorkflowDetail i) s = map_option workflow_detail_json (im_getWorkflowDetail (encodeURIComponent i) s)"
| "server_view WorkflowRunSummaries s = Some (JArr (map run_summary_json (runs s)))"
| "server_view (WorkflowRunDetail i) s = map_option run_detail_json (im_getRunDetail (encodeURIComponent i) s)"
| "server_view SessionSummaries s = Some (JArr (map session_summary_json (sessions s)))"
| "server_view (SessionDetail i) s = map_option session_detail_json (im_getSessionDetail (encodeURIComponent i) s)"
| "server_view ChannelConnectionSummaries s = Some (JArr (map connection_json (connections s)))"
| "server_view SettingsDetail s = Some (JObj (settings_st s))"
| "server_view AuditEventSummaries s = Some (JArr (map audit_json (auditEvents s)))"
| "server_view KnowledgeSourceSummaries s = Some (JArr (map knowledge_json (knowledgeSources s)))"
| "server_view AutomationSummaries s = Some (JArr (map automation_json (automations s)))"

lemma queryFn_read: "queryFn c q = api_read c (''/api/'' @ query_path q) (query_mock q)"
  by (cases q) (simp_all add: getWorkbenchSummary_def getWorkflowSummaries_def client_getWorkflowDetail_def
      getWorkflowRunSummaries_def getWorkflowRunDetail_def getSessionSummaries_def client_getSessionDetail_def
      getChannelConnectionSummaries_def getSettingsDetail_def getAuditEventSummaries_def
      getKnowledgeSourceSummaries_def getAutomationSummaries_def)

lemma plain_query:
  assumes "query_ok q"
  shows "plain_path (''/api/'' @ query_path q)"
proof -
  have "plain_path (''/api/'' @ p)"
    if "p \<in> {''workbench/summary'', ''workflows'', ''runs'', ''sessions'', ''channel-connections'',
      ''settings'', ''audit-events'', ''knowledge-sources'', ''automations''}" for p
    using that by (auto simp: plain_path_def unreserved_def dot_segments_def)
  moreover from this [of "''runs''"] have "plain_path ''/api/runs''" by simp
  ultimately show ?thesis
    using assms plain_collections id_path_plain [of "''/api/runs''"]
      id_path_plain [of "''/api/workflows''"] id_path_plain [of "''/api/sessions''"]
    by (cases q) auto
qed

definition routed_view :: "json option \<Rightarrow> 's store \<Rightarrow> 's routed" where
  "routed_view v st = Answered (case v of None \<Rightarrow> notFound | Some b \<Rightarrow> writeJson 200 b) st"

lemma found_view: "found_or_404 200 f (x, st) = routed_view (map_option f x) st"
  by (simp add: found_or_404_def routed_view_def split: option.split)

lemma route_get_run:
  assumes "i \<noteq> []" and "CHR ''/'' \<notin> set i"
  shows "routes R clk ''GET'' (''/runs/'' @ i) body st
     = found_or_404 200 run_detail_json (getRunDetail R i (repo st), st)"
proof -
  have "match_seg ''/workflows/'' [] (''/runs/'' @ i) = None"
    by (simp add: match_seg_def Let_def)
  then show ?thesis
    using match_seg_make [OF assms, of "''/runs/''" "[]"]
    by (simp add: routes_def workflow_routes_def run_routes_def found_or_404_def or_else_def split: option.split)
qed

lemma query_route:
  assumes "query_ok q"
  shows "routes im_repo clk ''GET'' (CHR ''/'' # query_path q) NoBody st = routed_view (server_view q (repo st)) st"
proof -
  have e: "i \<noteq> [] \<Longrightarrow> encodeURIComponent i \<noteq> [] \<and> CHR ''/'' \<notin> set (encodeURIComponent i)" for i
    using encode_no_slash by simp
  show ?thesis
    using assms e
    by (cases q)
       (simp_all add: route_get_workflow [simplified] route_get_run [simplified] route_get_session [simplified]
         found_view in_memory_laws in_memory_getSessionDetail
         routes_def route_group_defs or_else_def get_list_def routed_view_def match_seg_def Let_def)
qed

lemma query_answer:
  assumes "keeps_plain_paths f origin" and "default_paths cfg" and "query_ok q"
  shows "queryFn (client_of cfg clk f origin b st) q =
     (case server_view q (repo st) of
        Some v \<Rightarrow> Inr (json_wire v)
      | None \<Rightarrow> with_fallback (client_of cfg clk f origin b st) (query_mock q)
          (Inl (PlainError ''product api request failed with status 404'')))"
  using client_request [OF assms(1) plain_query [OF assms(3)] assms(2), of "''GET''" clk b st JSON_HEADERS]
    query_route [OF assms(3), of clk st] client_url [of cfg clk f origin b st "query_path q"]
  by (simp add: queryFn_read api_read_def routed_view_def finish_def writeJson_def notFound_def
      readJsonResponse_def with_fallback_def nat_str_eval Let_def split: option.split)

section \<open>What the server does\<close>

fun mutation_ok :: "page_mutation \<Rightarrow> bool" where
  "mutation_ok (StartWorkflowRunMutation w) \<longleftrightarrow> path_id_ok w"
| "mutation_ok (RetryWorkflowRunMutation r) \<longleftrightarrow> path_id_ok r"
| "mutation_ok (ToggleAutomationMutation a) \<longleftrightarrow> path_id_ok a"
| "mutation_ok (RunAutomationMutation a) \<longleftrightarrow> path_id_ok a"
| "mutation_ok _ \<longleftrightarrow> True"

fun mutation_path :: "page_mutation \<Rightarrow> string" where
  "mutation_path (CreateWorkflowMutation i) = ''workflows''"
| "mutation_path (StartWorkflowRunMutation w) = ''workflows/'' @ encodeURIComponent w @ ''/run''"
| "mutation_path (RetryWorkflowRunMutation r) = ''runs/'' @ encodeURIComponent r @ ''/retry''"
| "mutation_path ConnectFeishuMutation = ''channel-connections/feishu/connect''"
| "mutation_path (UpdateSettingsMutation i) = ''settings''"
| "mutation_path (CreateKnowledgeSourceMutation i) = ''knowledge-sources''"
| "mutation_path (CreateAutomationMutation i) = ''automations''"
| "mutation_path (ToggleAutomationMutation a) = ''automations/'' @ encodeURIComponent a @ ''/toggle''"
| "mutation_path (RunAutomationMutation a) = ''automations/'' @ encodeURIComponent a @ ''/run''"

fun mutation_method :: "page_mutation \<Rightarrow> string" where
  "mutation_method (UpdateSettingsMutation i) = ''PUT''"
| "mutation_method _ = ''POST''"

fun mutation_body :: "page_mutation \<Rightarrow> json option" where
  "mutation_body (CreateWorkflowMutation i) = Some (workflow_input_json i)"
| "mutation_body (UpdateSettingsMutation i) = Some (JObj i)"
| "mutation_body (CreateKnowledgeSourceMutation i) =
     Some (mk_obj [(''name'', map_option JStr (ck_name i)), (''sourceType'', map_option JStr (ck_sourceType i))])"
| "mutation_body (CreateAutomationMutation i) =
     Some (mk_obj [(''name'', map_option JStr (ca_name i)), (''triggerType'', map_option JStr (ca_triggerType i))])"
| "mutation_body _ = None"

definition wire_body :: "json option \<Rightarrow> request_body" where
  "wire_body b = (case b of None \<Rightarrow> NoBody | Some v \<Rightarrow> Body (Inr (json_wire v)))"

text \<open>The request of a mutation as the server gets it.\<close>

definition mutation_request :: "page_mutation \<Rightarrow> http_request" where
  "mutation_request m = \<lparr>rq_method = mutation_method m, rq_pathname = Some (''/api/'' @ mutation_path m),
     rq_body = wire_body (mutation_body m)\<rparr>"

text \<open>The store operation behind the route of a mutation.\<close>

fun mutation_op :: "page_mutation \<Rightarrow> api_op" where
  "mutation_op (CreateWorkflowMutation i) = CreateWorkflow (json_wire (workflow_input_json i))"
| "mutation_op (StartWorkflowRunMutation w) = StartRun (encodeURIComponent w)"
| "mutation_op (RetryWorkflowRunMutation r) = RetryRun (encodeURIComponent r)"
| "mutation_op ConnectFeishuMutation = ConnectFeishu"
| "mutation_op (UpdateSettingsMutation i) = UpdateSettings (json_wire (JObj i))"
| "mutation_op (CreateKnowledgeSourceMutation i) = CreateSource (json_wire
     (mk_obj [(''name'', map_option JStr (ck_name i)), (''sourceType'', map_option JStr (ck_sourceType i))]))"
| "mutation_op (CreateAutomationMutation i) = CreateAutomation (json_wire
     (mk_obj [(''name'', map_option JStr (ca_name i)), (''triggerType'', map_option JStr (ca_triggerType i))]))"
| "mutation_op (ToggleAutomationMutation a) = ToggleAutomation (encodeURIComponent a)"
| "mutation_op (RunAutomationMutation a) = RunAutomation (encodeURIComponent a)"

text \<open>The mutation function makes that request, and falls back to a mock answer.\<close>

lemma mutation_sends:
  assumes "has_base c"
  shows "\<exists>mock. mutationFn c now m = with_fallback c mock (res_bind (ac_fetch c
     \<lparr>fq_url = buildUrl c (''/api/'' @ mutation_path m), fq_method = mutation_method m,
      fq_headers = JSON_MUTATION_HEADERS, fq_body = mutation_body m\<rparr>) readJsonResponse)"
  using assms
  by (cases m) (auto simp: api_write_def client_createWorkflow_def client_startWorkflowRun_def
      retryWorkflowRun_def client_connectFeishu_def client_updateSettings_def
      client_createKnowledgeSource_def client_createAutomation_def client_toggleAutomation_def
      client_runAutomation_def)

lemma route_retry_run:
  assumes "i \<noteq> []" and "CHR ''/'' \<notin> set i"
  shows "routes R clk ''POST'' (''/runs/'' @ i @ ''/retry'') body st
     = found_or_404 201 run_detail_json (retryRun R clk i st)"
  using match_seg_make [OF assms, of "''/runs/''" "''/retry''"]
  by (simp add: routes_def workflow_routes_def run_routes_def found_or_404_def or_else_def match_seg_def Let_def
      split: option.split prod.split)

lemma route_automation:
  assumes "i \<noteq> []" and "CHR ''/'' \<notin> set i"
  shows "routes R clk ''POST'' (''/automations/'' @ i @ ''/toggle'') body st
       = found_or_404 200 automation_json (toggleAutomation R clk i st)"
    and "routes R clk ''POST'' (''/automations/'' @ i @ ''/run'') body st
       = found_or_404 200 automation_json (runAutomation R clk i st)"
  using match_seg_make [OF assms, of "''/automations/''" "''/toggle''"]
    match_seg_make [OF assms, of "''/automations/''" "''/run''"]
  by (simp_all add: routes_def route_group_defs found_or_404_def or_else_def match_seg_def Let_def
      split: option.split prod.split)

lemma route_fixed:
  "routes R clk ''POST'' ''/channel-connections/feishu/connect'' body st
     = (case connectFeishu R clk st of (c, st') \<Rightarrow> Answered (writeJson 200 (connection_json c)) st')"
  "routes R clk ''PUT'' ''/settings'' body st
     = with_body body (\<lambda>b st. case updateSettings R clk b st of
         (new, st') \<Rightarrow> Answered (writeJson 200 (JObj new)) st') st"
  "routes R clk ''POST'' ''/knowledge-sources'' body st
     = with_body body (\<lambda>b st. created_or_threw knowledge_json (createKnowledgeSource R clk b st)) st"
  "routes R clk ''POST'' ''/automations'' body st
     = with_body body (\<lambda>b st. created_or_threw automation_json (createAutomation R clk b st)) st"
  by (simp_all add: routes_def route_group_defs or_else_def with_body_def created_or_threw_def
      match_seg_def Let_def split: sum.split prod.split)

lemma server_mutation:
  assumes "default_paths cfg" and "mutation_ok m"
  shows "handle_request cfg im_repo clk (mutation_request m) st
    = map_prod Some id (finish st (routes im_repo clk (mutation_method m) (CHR ''/'' # mutation_path m)
        (wire_body (mutation_body m)) st))"
proof -
  have "mutation_method m \<noteq> ''OPTIONS''" "mutation_method m \<noteq> ''GET''" by (cases m; simp)+
  then show ?thesis
    using api_request [of "mutation_request m" cfg "CHR ''/'' # mutation_path m" im_repo clk st] assms(1)
    by (simp add: mutation_request_def default_paths_def)
qed

lemma server_effect:
  assumes "default_paths cfg" and "mutation_ok m"
  shows "snd (handle_request cfg im_repo clk (mutation_request m) st) = apply_op im_repo clk (mutation_op m) st"
proof -
  have e: "i \<noteq> [] \<Longrightarrow> encodeURIComponent i \<noteq> [] \<and> CHR ''/'' \<notin> set (encodeURIComponent i)" for i
    using encode_no_slash by simp
  show ?thesis
    unfolding server_mutation [OF assms]
    using assms(2) e
    by (cases m)
       (simp_all add: route_create_workflow [simplified] route_start_run [simplified] route_retry_run [simplified]
         route_automation [simplified] with_body_def created_or_threw_def found_or_404_def finish_def wire_body_def
         readJsonBody_def route_fixed [simplified]
         split: prod.split sum.split option.split)
qed

section \<open>Which views an operation changes\<close>

fun reads_workflow :: "string \<Rightarrow> page_query \<Rightarrow> bool" where
  "reads_workflow i (WorkflowDetail j) \<longleftrightarrow> encodeURIComponent j = i"
| "reads_workflow i _ \<longleftrightarrow> False"

fun reads_run :: "string \<Rightarrow> page_query \<Rightarrow> bool" where
  "reads_run i (WorkflowRunDetail j) \<longleftrightarrow> encodeURIComponent j = i"
| "reads_run i _ \<longleftrightarrow> False"

lemma encode_inj: "encodeURIComponent i = encodeURIComponent j \<longleftrightarrow> i = j"
  using decode_encode by metis

lemmas view_defs = appendAuditEvent_def Let_def in_memory_laws im_defs computeWorkbenchFromRepository_def

lemma view_create_workflow:
  assumes "q \<notin> {WorkflowSummaries, AuditEventSummaries}"
    and "\<not> reads_workflow (''wf-'' @ nat_str (workflowCounter (counters st))) q"
  shows "server_view q (repo (snd (createWorkflow im_repo clk b st))) = server_view q (repo st)"
  using assms by (cases q) (simp_all add: createWorkflow_def view_defs split: sum.split)

lemma view_created_run:
  assumes "q \<notin> {WorkflowRunSummaries, WorkbenchSummary, WorkflowSummaries, AuditEventSummaries}"
    and "\<not> reads_workflow (wf_id w) q" and "\<not> reads_run (''run-'' @ nat_str (runCounter (counters st))) q"
  shows "server_view q (repo (snd (createRunFromWorkflow im_repo clk w a st))) = server_view q (repo st)"
  using assms
  by (cases q) (simp_all add: createRunFromWorkflow_def view_defs find_update_first)

lemma view_start_run:
  assumes "q \<notin> {WorkflowRunSummaries, WorkbenchSummary, WorkflowSummaries, AuditEventSummaries}"
    and "\<not> reads_workflow i q" and "\<not> reads_run (''run-'' @ nat_str (runCounter (counters st))) q"
  shows "server_view q (repo (snd (startWorkflowRun im_repo clk i st))) = server_view q (repo st)"
  using assms view_created_run [OF assms(1) _ assms(3)] getWorkflowDetail_id [of i "repo st"]
  by (auto simp: startWorkflowRun_def in_memory_laws split: option.split)

lemma view_retry_run:
  assumes "q \<notin> {WorkflowRunSummaries, WorkbenchSummary, WorkflowSummaries, AuditEventSummaries}"
    and "\<And>old. im_getRunDetail i (repo st) = Some old \<Longrightarrow> \<not> reads_workflow (run_workflowId old) q"
    and "\<not> reads_run (''run-'' @ nat_str (runCounter (counters st))) q"
  shows "server_view q (repo (snd (retryRun im_repo clk i st))) = server_view q (repo st)"
  using assms view_created_run [OF assms(1) _ assms(3)] getWorkflowDetail_id [of _ "repo st"]
  by (auto simp: retryRun_def in_memory_laws split: option.split)

lemma view_other:
  "q \<notin> {ChannelConnectionSummaries, WorkbenchSummary, AuditEventSummaries} \<Longrightarrow>
     server_view q (repo (snd (connectFeishu im_repo clk st))) = server_view q (repo st)"
  "q \<notin> {SettingsDetail, AuditEventSummaries} \<Longrightarrow>
     server_view q (repo (snd (updateSettings im_repo clk b st))) = server_view q (repo st)"
  "q \<notin> {KnowledgeSourceSummaries, AuditEventSummaries} \<Longrightarrow>
     server_view q (repo (snd (createKnowledgeSource im_repo clk b st))) = server_view q (repo st)"
  by (cases q; simp add: connectFeishu_def updateSettings_def createKnowledgeSource_def view_defs
      split: sum.split)+

lemma view_automation:
  assumes "q \<notin> {AutomationSummaries, AuditEventSummaries}"
  shows "server_view q (repo (snd (createAutomation im_repo clk b st))) = server_view q (repo st)"
    and "server_view q (repo (snd (toggleAutomation im_repo clk i st))) = server_view q (repo st)"
    and "server_view q (repo (snd (runAutomation im_repo clk i st))) = server_view q (repo st)"
  using assms
  by (cases q; simp add: createAutomation_def toggleAutomation_def runAutomation_def view_defs
      split: sum.split option.split)+

section \<open>The automation list in the cache\<close>

definition automation_items :: "product_state \<Rightarrow> json list" where
  "automation_items s = map (json_wire \<circ> automation_json) (automations s)"

lemma automation_item_id [simp]: "getp (json_wire (automation_json a)) ''id'' = Some (JStr (au_id a))"
  by (simp add: getp_wire automation_json_def)

lemma replace_items:
  assumes "distinct (map au_id xs)"
  shows "replace_automation (json_wire (automation_json a)) (Some (map (json_wire \<circ> automation_json) xs))
    = map (json_wire \<circ> automation_json) (update_first au_id (au_id a) (\<lambda>_. a) xs)"
  using assms
proof (induction xs)
  case (Cons x xs)
  have "au_id a \<notin> set (map au_id xs) \<Longrightarrow>
      replace_automation (json_wire (automation_json a)) (Some (map (json_wire \<circ> automation_json) xs))
        = map (json_wire \<circ> automation_json) xs"
    by (force simp: replace_automation_def image_iff)
  with Cons show ?case by (auto simp: replace_automation_def update_first_notin)
qed (simp add: replace_automation_def)

lemma prepend_items:
  assumes "au_id a \<notin> set (map au_id xs)"
  shows "prepend_automation (json_wire (automation_json a)) (Some (map (json_wire \<circ> automation_json) xs))
    = map (json_wire \<circ> automation_json) (a # xs)"
proof -
  have "filter ((\<lambda>item. getp item ''id'' \<noteq> Some (JStr (au_id a))) \<circ> (json_wire \<circ> automation_json)) xs = xs"
    using assms by (intro filter_True) (auto simp: image_iff)
  then show ?thesis by (simp add: prepend_automation_def filter_map)
qed

lemma upserted_items:
  assumes "distinct (map au_id (automations s))" and "im_getAutomation i s = Some a" and "au_id b = au_id a"
  shows "replace_automation (json_wire (automation_json b)) (Some (automation_items s))
    = automation_items (snd (im_upsertAutomation b s))"
  using replace_items [OF assms(1), of b] getAutomation_id [OF assms(2)] assms(3)
  by (auto simp: automation_items_def im_upsertAutomation_def upsert_by_def image_iff)

lemma audited_items [simp]: "automation_items (repo (appendAuditEvent im_repo a now st)) = automation_items (repo st)"
  by (simp add: automation_items_def view_defs)

section \<open>Properties\<close>

text \<open>
  The views a mutation changes on the server without telling the cache: the audit log for the three
  operations on workflows and runs, the time of the last run in the workflow list, the workflow
  of a retried run, and the page of an id that did not exist before.
\<close>

fun missed :: "page_mutation \<Rightarrow> product_state store \<Rightarrow> page_query \<Rightarrow> bool" where
  "missed (CreateWorkflowMutation i) st q \<longleftrightarrow> q = AuditEventSummaries
     \<or> reads_workflow (''wf-'' @ nat_str (workflowCounter (counters st))) q"
| "missed (StartWorkflowRunMutation w) st q \<longleftrightarrow> q \<in> {AuditEventSummaries, WorkflowSummaries}
     \<or> reads_run (''run-'' @ nat_str (runCounter (counters st))) q"
| "missed (RetryWorkflowRunMutation r) st q \<longleftrightarrow> q \<in> {AuditEventSummaries, WorkflowSummaries}
     \<or> reads_run (''run-'' @ nat_str (runCounter (counters st))) q
     \<or> (case im_getRunDetail (encodeURIComponent r) (repo st) of
          None \<Rightarrow> False | Some old \<Rightarrow> reads_workflow (run_workflowId old) q)"
| "missed _ st q \<longleftrightarrow> False"

lemma refresh_keys:
  assumes "partial_matching matches" and "\<forall>c\<in>set (onSuccess m r). \<not> refreshes matches (queryKey q) c"
  shows "\<forall>c\<in>set (onSuccess m r). (case c of InvalidateQueries k \<Rightarrow> queryKey q \<noteq> k | SetQueryData k f \<Rightarrow> queryKey q \<noteq> k)"
  using assms by (auto simp: partial_matching_def split: cache_call.split)

lemma reads_workflow_key: "reads_workflow (encodeURIComponent w) q \<Longrightarrow> queryKey q = [''workflow-detail'', w]"
  by (cases q) (auto simp: encode_inj)

lemma unrefreshed_view:
  assumes "partial_matching matches" and "\<forall>c\<in>set (onSuccess m r). \<not> refreshes matches (queryKey q) c"
    and "\<not> missed m st q"
  shows "server_view q (repo (apply_op im_repo clk (mutation_op m) st)) = server_view q (repo st)"
  using assms(3) refresh_keys [OF assms(1,2)]
proof (cases m)
  case (StartWorkflowRunMutation w)
  with assms(3) refresh_keys [OF assms(1,2)] show ?thesis
    using reads_workflow_key [of w q] by (auto intro!: view_start_run)
next
  case (RetryWorkflowRunMutation r')
  with assms(3) refresh_keys [OF assms(1,2)] show ?thesis
    by (auto intro!: view_retry_run)
next
  case (CreateWorkflowMutation i)
  with assms(3) refresh_keys [OF assms(1,2)] show ?thesis by (auto intro!: view_create_workflow)
next
  case ConnectFeishuMutation
  with refresh_keys [OF assms(1,2)] show ?thesis by (auto intro!: view_other)
qed (auto intro!: view_other view_automation)

lemma three_missed:
  assumes "missed m st AuditEventSummaries"
  shows "(\<exists>i. m = CreateWorkflowMutation i) \<or> (\<exists>i. m = StartWorkflowRunMutation i) \<or> (\<exists>i. m = RetryWorkflowRunMutation i)"
  using assms by (cases m) auto

lemma audit_unrefreshed:
  assumes "missed m st AuditEventSummaries" and "partial_matching matches"
  shows "\<forall>c\<in>set (onSuccess m answer). \<not> refreshes matches (queryKey AuditEventSummaries) c"
proof -
  have "\<not> matches (a # k) [''audit-event-summaries'']" if "a \<noteq> ''audit-event-summaries''" for k a
  proof
    assume "matches (a # k) [''audit-event-summaries'']"
    then have "prefix (a # k) [''audit-event-summaries'']" using assms(2) unfolding partial_matching_def by blast
    with that show False by simp
  qed
  then show ?thesis
    using three_missed [OF assms(1)] by auto
qed

lemma audit_grows:
  "createWorkflow im_repo clk b st = (Inr w, st') \<Longrightarrow> length (auditEvents (repo st')) = Suc (length (auditEvents (repo st)))"
  "startWorkflowRun im_repo clk i st = (Some r, st') \<Longrightarrow> length (auditEvents (repo st')) = Suc (length (auditEvents (repo st)))"
  "retryRun im_repo clk i st = (Some r, st') \<Longrightarrow> length (auditEvents (repo st')) = Suc (length (auditEvents (repo st)))"
  using created_run_effect(7)
  by (auto simp: createWorkflow_def view_defs startWorkflowRun_Some retryRun_Some split: sum.splits)

lemma audit_logged:
  assumes "default_paths cfg" and "mutation_ok m" and "missed m st AuditEventSummaries"
    and "handle_request cfg im_repo clk (mutation_request m) st = (Some rs, st')" and "rs_status rs = 201"
  shows "length (auditEvents (repo st')) = Suc (length (auditEvents (repo st)))"
proof -
  have e: "i \<noteq> [] \<Longrightarrow> encodeURIComponent i \<noteq> [] \<and> CHR ''/'' \<notin> set (encodeURIComponent i)" for i
    using encode_no_slash by simp
  from three_missed [OF assms(3)] consider
      i where "m = CreateWorkflowMutation i"
    | i where "m = StartWorkflowRunMutation i"
    | i where "m = RetryWorkflowRunMutation i"
    by blast
  then show ?thesis
    using assms(2,4,5) e unfolding server_mutation [OF assms(1,2)]
    by cases
      (auto simp: route_create_workflow [simplified] route_start_run [simplified] route_retry_run [simplified]
         with_body_def created_or_threw_def found_or_404_def finish_def wire_body_def readJsonBody_def
         writeJson_def notFound_def audit_grows split: prod.splits sum.splits option.splits)
qed

text \<open>
  C26: what a mutation leaves stale in the cache: a query that the hook neither invalidates nor
  overwrites, and that is not in the table \<open>missed\<close>, gets the same answer from the server before and
  after the mutation's request. The table is not empty: when creating a
  workflow, starting or retrying a run succeeds, the audit log has a new entry, and nothing the
  hook does refreshes it.
\<close>

theorem page_views_fresh:
  assumes "keeps_plain_paths pathname_of origin" and "default_paths cfg" and "partial_matching matches"
    and "query_ok q" and "mutation_ok m"
    and "handle_request cfg im_repo clk (mutation_request m) st = (Some rs, st')"
  shows "((\<exists>c\<in>set (onSuccess m answer). refreshes matches (queryKey q) c) \<or> missed m st q
      \<or> queryFn (client_of cfg clk pathname_of origin fallback st') q
          = queryFn (client_of cfg clk pathname_of origin fallback st) q)
    \<and> (missed m st AuditEventSummaries \<and> rs_status rs = 201 \<longrightarrow>
        (\<forall>c\<in>set (onSuccess m answer). \<not> refreshes matches (queryKey AuditEventSummaries) c)
        \<and> queryFn (client_of cfg clk pathname_of origin fallback st') AuditEventSummaries
            \<noteq> queryFn (client_of cfg clk pathname_of origin fallback st) AuditEventSummaries)"
proof -
  have st': "st' = apply_op im_repo clk (mutation_op m) st"
    using server_effect [OF assms(2,5), of clk st] assms(6) by simp
  have same: "queryFn (client_of cfg clk pathname_of origin fallback st') q
      = queryFn (client_of cfg clk pathname_of origin fallback st) q"
    if "server_view q (repo st') = server_view q (repo st)"
  proof -
    have "with_fallback (client_of cfg clk pathname_of origin fallback st')
        = with_fallback (client_of cfg clk pathname_of origin fallback st)"
      by (simp add: fun_eq_iff with_fallback_def client_of_def split: sum.split)
    then show ?thesis unfolding query_answer [OF assms(1,2,4)] that by (simp split: option.split)
  qed
  have first: "(\<exists>c\<in>set (onSuccess m answer). refreshes matches (queryKey q) c) \<or> missed m st q
      \<or> queryFn (client_of cfg clk pathname_of origin fallback st') q
          = queryFn (client_of cfg clk pathname_of origin fallback st) q"
    using same unrefreshed_view [OF assms(3), of m answer q st clk] unfolding st' by blast
  have audit: "queryFn (client_of cfg clk pathname_of origin fallback s) AuditEventSummaries
      = Inr (JArr (map json_wire (map audit_json (auditEvents (repo s)))))" for s
    using query_answer [OF assms(1,2), of AuditEventSummaries] by simp
  have "queryFn (client_of cfg clk pathname_of origin fallback st') AuditEventSummaries
      \<noteq> queryFn (client_of cfg clk pathname_of origin fallback st) AuditEventSummaries"
    if "length (auditEvents (repo st')) = Suc (length (auditEvents (repo st)))"
    unfolding audit using that by (auto dest: map_eq_imp_length_eq)
  with first show ?thesis
    using audit_unrefreshed [OF _ assms(3)] audit_logged [OF assms(2,5) _ assms(6)] by blast
qed

lemma prefix_matching: "partial_matching prefix"
  by (simp add: partial_matching_def)

lemma page_views_fresh_witness:
  "\<exists>rs st'. handle_request default_config im_repo (\<lambda>_. 0) (mutation_request (StartWorkflowRunMutation ''wf-1'')) fresh_server
        = (Some rs, st') \<and> rs_status rs = 201
   \<and> queryFn (client_of default_config (\<lambda>_. 0) (strip_origin ''http://h:1'') ''http://h:1'' False st') AuditEventSummaries
      \<noteq> queryFn (client_of default_config (\<lambda>_. 0) (strip_origin ''http://h:1'') ''http://h:1'' False fresh_server) AuditEventSummaries
   \<and> queryFn (client_of default_config (\<lambda>_. 0) (strip_origin ''http://h:1'') ''http://h:1'' False st') SettingsDetail
      = queryFn (client_of default_config (\<lambda>_. 0) (strip_origin ''http://h:1'') ''http://h:1'' False fresh_server) SettingsDetail"
proof -
  let ?m = "StartWorkflowRunMutation ''wf-1''"
  have d: "default_paths default_config" by (simp add: default_paths_def default_config_def)
  have m: "mutation_ok ?m" by simp
  have q: "query_ok AuditEventSummaries" "query_ok SettingsDetail" by simp_all
  have "fst (startWorkflowRun im_repo (\<lambda>_. 0) ''wf-1'' fresh_server) \<noteq> None" by code_simp
  moreover have "encodeURIComponent ''wf-1'' = ''wf-1''" by code_simp
  ultimately obtain rs st' where r: "handle_request default_config im_repo (\<lambda>_. 0) (mutation_request ?m) fresh_server = (Some rs, st')"
    "rs_status rs = 201"
    using server_mutation [OF d m, of "\<lambda>_. 0" fresh_server] route_start_run [of "''wf-1''" im_repo "\<lambda>_. 0" _ fresh_server]
    by (auto simp: found_or_404_def finish_def writeJson_def split: prod.splits option.splits)
  note t = page_views_fresh [OF strip_origin_plain d prefix_matching _ m r(1), where origin = "''http://h:1''"
      and fallback = False and answer = JNull]
  show ?thesis
    using t [OF q(1)] t [OF q(2)] r by auto
qed

fun automation_mutation :: "page_mutation \<Rightarrow> bool" where
  "automation_mutation (CreateAutomationMutation i) \<longleftrightarrow> True"
| "automation_mutation (ToggleAutomationMutation a) \<longleftrightarrow> True"
| "automation_mutation (RunAutomationMutation a) \<longleftrightarrow> True"
| "automation_mutation _ \<longleftrightarrow> False"

lemma automation_answers:
  assumes "ids_fresh st"
  shows "createAutomation im_repo clk b st = (Inr a, st') \<Longrightarrow>
      automations (repo st') = a # automations (repo st) \<and> au_id a \<notin> set (map au_id (automations (repo st)))"
    and "toggleAutomation im_repo clk i st = (Some a, st') \<Longrightarrow>
      replace_automation (json_wire (automation_json a)) (Some (automation_items (repo st))) = automation_items (repo st')"
    and "runAutomation im_repo clk i st = (Some a, st') \<Longrightarrow>
      replace_automation (json_wire (automation_json a)) (Some (automation_items (repo st))) = automation_items (repo st')"
proof -
  have d: "distinct (map au_id (automations (repo st)))"
    using assms ids_below_distinct by (auto simp: ids_fresh_def)
  have f: "''automation-'' @ nat_str (automationCounter (counters st)) \<notin> set (map au_id (automations (repo st)))"
    using assms ids_below_fresh unfolding ids_fresh_def by metis
  show "createAutomation im_repo clk b st = (Inr a, st') \<Longrightarrow>
      automations (repo st') = a # automations (repo st) \<and> au_id a \<notin> set (map au_id (automations (repo st)))"
    using f by (auto simp: createAutomation_def view_defs split: sum.splits if_splits)
  show "toggleAutomation im_repo clk i st = (Some a, st') \<Longrightarrow>
      replace_automation (json_wire (automation_json a)) (Some (automation_items (repo st))) = automation_items (repo st')"
    using upserted_items [OF d]
    by (auto simp: toggleAutomation_def in_memory_laws Let_def split: option.splits)
  show "runAutomation im_repo clk i st = (Some a, st') \<Longrightarrow>
      replace_automation (json_wire (automation_json a)) (Some (automation_items (repo st))) = automation_items (repo st')"
    using upserted_items [OF d]
    by (auto simp: runAutomation_def in_memory_laws Let_def split: option.splits)
qed

text \<open>
  The automation list the page builds itself is the server's: after a successful creation,
  toggle or run, the list the hook writes into the cache, from the list it held and the answer, is
  exactly the list a new fetch from the server would bring. (The ids must be distinct and below
  the counter, as they are on every reachable server.)
\<close>

theorem automation_cache_agrees:
  assumes "keeps_plain_paths pathname_of origin" and "default_paths cfg" and "ids_fresh st"
    and "automation_mutation m" and "mutation_ok m"
    and "handle_request cfg im_repo clk (mutation_request m) st = (Some rs, st')"
    and "rs_status rs \<in> {200, 201}" and "rs_body rs = Some b"
  shows "\<exists>items items'.
      queryFn (client_of cfg clk pathname_of origin fallback st) AutomationSummaries = Inr (JArr items)
    \<and> queryFn (client_of cfg clk pathname_of origin fallback st') AutomationSummaries = Inr (JArr items')
    \<and> cached_list (queryKey AutomationSummaries) (onSuccess m (json_wire b)) (Some items) = Some items'"
proof -
  have list: "queryFn (client_of cfg clk pathname_of origin fallback s) AutomationSummaries
      = Inr (JArr (automation_items (repo s)))" for s
    using query_answer [OF assms(1,2), of AutomationSummaries] by (simp add: automation_items_def)
  have e: "i \<noteq> [] \<Longrightarrow> encodeURIComponent i \<noteq> [] \<and> CHR ''/'' \<notin> set (encodeURIComponent i)" for i
    using encode_no_slash by simp
  have "cached_list (queryKey AutomationSummaries) (onSuccess m (json_wire b)) (Some (automation_items (repo st)))
      = Some (automation_items (repo st'))"
    using assms(4-8) e automation_answers [OF assms(3)] prepend_items
    unfolding server_mutation [OF assms(2,5)]
    by (cases m)
      (auto simp: route_fixed [simplified] route_automation [simplified] with_body_def created_or_threw_def
         found_or_404_def finish_def wire_body_def readJsonBody_def writeJson_def notFound_def automation_items_def
         split: prod.splits sum.splits option.splits)
  with list show ?thesis by blast
qed

lemma automation_cache_agrees_witness:
  "\<exists>rs st' b items'. handle_request default_config im_repo (\<lambda>_. 0) (mutation_request (RunAutomationMutation ''automation-1''))
        fresh_server = (Some rs, st') \<and> rs_body rs = Some b
   \<and> queryFn (client_of default_config (\<lambda>_. 0) (strip_origin ''http://h:1'') ''http://h:1'' False st') AutomationSummaries
      = Inr (JArr items')
   \<and> (\<exists>items. replace_automation (json_wire b) (Some items) = items')"
proof -
  let ?m = "RunAutomationMutation ''automation-1''"
  have d: "default_paths default_config" by (simp add: default_paths_def default_config_def)
  have m: "mutation_ok ?m" "automation_mutation ?m" by simp_all
  have "getAutomation im_repo ''automation-1'' (repo fresh_server) \<noteq> None" by code_simp
  then have "fst (runAutomation im_repo (\<lambda>_. 0) ''automation-1'' fresh_server) \<noteq> None"
    by (simp add: runAutomation_def Let_def split: option.split)
  moreover have "encodeURIComponent ''automation-1'' = ''automation-1''" by code_simp
  ultimately obtain rs st' b where r: "handle_request default_config im_repo (\<lambda>_. 0) (mutation_request ?m) fresh_server = (Some rs, st')"
    "rs_status rs \<in> {200, 201}" "rs_body rs = Some b"
    using server_mutation [OF d m(1), of "\<lambda>_. 0" fresh_server]
      route_automation(2) [of "''automation-1''" im_repo "\<lambda>_. 0" _ fresh_server]
    by (auto simp: found_or_404_def finish_def writeJson_def split: prod.splits option.splits)
  show ?thesis
    using automation_cache_agrees [OF strip_origin_plain d ids_fresh_server m(2,1) r, where origin = "''http://h:1''"
      and fallback = False] r by auto
qed

end
