(* ===== verification/SessionRealtime.thy ===== *)
theory SessionRealtime
  imports RealtimeClient
begin

text \<open>
  The hook of the session page (app/web/src/shared/realtime/use-session-realtime.ts) and its demo
  frames (mock-frames.ts). Its clients are those of the theory \<open>RealtimeClient\<close>, numbered in the
  order they are made; each opens one socket. An event of the page is one step: the callbacks run
  at once, the continuations of settled promises at the end of the step. React's part is explicit:
  \<open>dispatch\<close> queues an action, a \<open>Rendered\<close> step reduces the queue and runs the effects whose
  dependencies changed; a reducer that throws takes the page down. The clock of a step is what
  \<open>Date.now()\<close> returns in it and in the reduction of the actions it queued.
\<close>

section \<open>Frames and history\<close>

definition sr_isRecord :: "jsval \<Rightarrow> bool" where
  "sr_isRecord v = is_plain_object v"

definition str_or :: "string option \<Rightarrow> string \<Rightarrow> string" where
  "str_or v d = (case v of Some s \<Rightarrow> s | None \<Rightarrow> d)"

definition history_text :: "json \<Rightarrow> string" where
  "history_text item =
     (case as_str (getp item ''text'') of
        Some t \<Rightarrow> t
      | None \<Rightarrow> if sr_isRecord (getp item ''message'')
                then str_or (as_str (getp (the (getp item ''message'')) ''text'')) [] else [])"

definition history_message :: "nat \<Rightarrow> json \<Rightarrow> chat_message list" where
  "history_message index item =
     (if \<not> sr_isRecord (Some item) then []
      else if trim (history_text item) = [] then []
      else [\<lparr>cm_id = str_or (as_str (getp item ''id'')) (''history:'' @ nat_str index),
             cm_role = (if getp item ''role'' = Some (JStr ''user'') then RoleUser else RoleAssistant),
             cm_text = history_text item\<rparr>])"

definition toHistoryMessages :: "jsval \<Rightarrow> chat_message list" where
  "toHistoryMessages payload =
     (case payload of
        Some (JObj kvs) \<Rightarrow>
          (case map_of kvs ''items'' of
             Some (JArr items) \<Rightarrow> concat (map (\<lambda>(i, x). history_message i x) (enumerate 0 items))
           | _ \<Rightarrow> [])
      | _ \<Rightarrow> [])"

definition payloadSessionKey :: "jsval \<Rightarrow> string option" where
  "payloadSessionKey payload =
     (if \<not> sr_isRecord payload then None
      else case as_str (getp (the payload) ''sessionKey'') of
             Some k \<Rightarrow> Some k
           | None \<Rightarrow> as_str (getp (the payload) ''sessionId''))"

definition isTerminalRunFrame :: "json \<Rightarrow> bool" where
  "isTerminalRunFrame frame =
     (let payload = getp frame ''payload'' in
      if getp frame ''type'' \<noteq> Some (JStr ''event'') \<or> \<not> sr_isRecord payload then False
      else if getp frame ''event'' = Some (JStr ''chat'')
      then template (getp (the payload) ''state'') \<in> {''final'', ''aborted'', ''error''}
      else if getp frame ''event'' = Some (JStr ''run.status'')
      then str_or (run_phase (the payload)) [] \<in> {''completed'', ''aborted'', ''failed'', ''error''}
      else False)"

section \<open>Demo frames\<close>

definition mockHelloFrame :: json where
  "mockHelloFrame = JObj
     [(''type'', JStr ''hello''), (''protocol'', js_int 1),
      (''server'', JObj [(''version'', JStr ''0.1.0'')]),
      (''features'', JObj
         [(''methods'', JArr [JStr ''chat.send'']),
          (''events'', JArr [JStr ''chat'', JStr ''agent'', JStr ''tool.status'', JStr ''approval.requested''])]),
      (''snapshot'', JObj [(''workspace'', JStr ''Vertx Workspace'')])]"

definition mock_event :: "string \<Rightarrow> int \<Rightarrow> (string \<times> json) list \<Rightarrow> json" where
  "mock_event name n payload = JObj
     [(''type'', JStr ''event''), (''event'', JStr name), (''seq'', js_int n), (''payload'', JObj payload)]"

text \<open>The clock is read when the page is loaded.\<close>

definition mockRealtimeFrames :: "clock \<Rightarrow> json list" where
  "mockRealtimeFrames clk =
     [mock_event ''agent'' 1
        [(''runId'', JStr ''run-1''), (''seq'', js_int 1), (''stream'', JStr ([CHR 0xE6, CHR 0xAD,
            CHR 0xA3, CHR 0xE5, CHR 0x9C, CHR 0xA8, CHR 0xE8, CHR 0xAF, CHR 0xBB, CHR 0xE5, CHR 0x8F,
            CHR 0x96, CHR 0xE6, CHR 0x9C, CHR 0x80, CHR 0xE8, CHR 0xBF, CHR 0x91] @ '' 7 '' @ [CHR 0xE5,
            CHR 0xA4, CHR 0xA9, CHR 0xE9, CHR 0xA3, CHR 0x9E, CHR 0xE4, CHR 0xB9, CHR 0xA6, CHR 0xE6,
            CHR 0x97, CHR 0xA5, CHR 0xE6, CHR 0x8A, CHR 0xA5, CHR 0xEF, CHR 0xBC, CHR 0x8C])),
         (''ts'', js_int (clk 0)), (''sessionKey'', JStr ''session-1''), (''data'', JObj [])],
      mock_event ''tool.status'' 2
        [(''runId'', JStr ''run-1''), (''sessionKey'', JStr ''session-1''), (''toolCallId'', JStr ''tool-1''),
         (''name'', JStr ''feishu.search_docs''), (''args'', JObj [(''range'', JStr ''7d'')]),
         (''output'', JStr ([CHR 0xE5, CHR 0x91, CHR 0xBD, CHR 0xE4, CHR 0xB8,
             CHR 0xAD] @ '' 18 '' @ [CHR 0xE7, CHR 0xAF, CHR 0x87, CHR 0xE6, CHR 0x97, CHR 0xA5, CHR 0xE6,
             CHR 0x8A, CHR 0xA5, CHR 0xE6, CHR 0x96, CHR 0x87, CHR 0xE6, CHR 0xA1, CHR 0xA3])), (''phase'',
             JStr ''completed''),
         (''startedAt'', JStr (isoNow clk 1)), (''updatedAt'', JStr (isoNow clk 2))],
      mock_event ''chat'' 3
        [(''runId'', JStr ''run-1''), (''sessionKey'', JStr ''session-1''), (''state'', JStr ''delta''),
         (''message'', JObj [(''text'', JStr [CHR 0xE5, CHR 0xB7, CHR 0xB2, CHR 0xE5, CHR 0xAE, CHR 0x8C,
             CHR 0xE6, CHR 0x88, CHR 0x90, CHR 0xE5, CHR 0xBD, CHR 0x92, CHR 0xE7, CHR 0xB1, CHR 0xBB,
             CHR 0xEF, CHR 0xBC, CHR 0x8C, CHR 0xE6, CHR 0xAD, CHR 0xA3, CHR 0xE5, CHR 0x9C, CHR 0xA8,
             CHR 0xE7, CHR 0x94, CHR 0x9F, CHR 0xE6, CHR 0x88, CHR 0x90, CHR 0xE9, CHR 0x87, CHR 0x8D,
             CHR 0xE7, CHR 0x82, CHR 0xB9, CHR 0xE6, CHR 0x91, CHR 0x98, CHR 0xE8, CHR 0xA6, CHR 0x81,
             CHR 0xE3, CHR 0x80, CHR 0x82])])],
      mock_event ''chat'' 4
        [(''runId'', JStr ''run-1''), (''sessionKey'', JStr ''session-1''), (''state'', JStr ''final''),
         (''message'', JObj [(''text'', JStr ([CHR 0xE6, CHR 0x9C, CHR 0xAC, CHR 0xE5, CHR 0x91, CHR 0xA8,
             CHR 0xE6, CHR 0x97, CHR 0xA5, CHR 0xE6, CHR 0x8A, CHR 0xA5, CHR 0xE6, CHR 0x98, CHR 0xBE,
             CHR 0xE7, CHR 0xA4, CHR 0xBA, CHR 0xE9, CHR 0x94, CHR 0x80, CHR 0xE5, CHR 0x94, CHR 0xAE,
             CHR 0xE7, CHR 0xBA, CHR 0xBF, CHR 0xE7, CHR 0xB4, CHR 0xA2, CHR 0xE5, CHR 0xA2, CHR 0x9E,
             CHR 0xE9, CHR 0x95, CHR 0xBF] @ '' 18%'' @ [CHR 0xEF, CHR 0xBC, CHR 0x8C, CHR 0xE4, CHR 0xBD,
             CHR 0x86, CHR 0xE4, CHR 0xBA, CHR 0xA4, CHR 0xE4, CHR 0xBB, CHR 0x98, CHR 0xE9, CHR 0x97,
             CHR 0xAE, CHR 0xE9, CHR 0xA2, CHR 0x98, CHR 0xE9, CHR 0x9B, CHR 0x86, CHR 0xE4, CHR 0xB8,
             CHR 0xAD, CHR 0xE5, CHR 0x9C, CHR 0xA8, CHR 0xE5, CHR 0x94, CHR 0xAE, CHR 0xE5, CHR 0x90,
             CHR 0x8E, CHR 0xE5, CHR 0x93, CHR 0x8D, CHR 0xE5, CHR 0xBA, CHR 0x94, CHR 0xE8, CHR 0xB6,
             CHR 0x85, CHR 0xE6, CHR 0x97, CHR 0xB6, CHR 0xE3, CHR 0x80, CHR 0x82]))])],
      mock_event ''approval.requested'' 5
        [(''id'', JStr ''approval-1''), (''title'', JStr [CHR 0xE5, CHR 0x85, CHR 0x81, CHR 0xE8, CHR 0xAE,
            CHR 0xB8, CHR 0xE5, CHR 0x8F, CHR 0x91, CHR 0xE9, CHR 0x80, CHR 0x81, CHR 0xE9, CHR 0xA3,
            CHR 0x9E, CHR 0xE4, CHR 0xB9, CHR 0xA6, CHR 0xE5, CHR 0x9B, CHR 0x9E, CHR 0xE6, CHR 0x89,
            CHR 0xA7]), (''approvalKind'', JStr ''exec'')]]"

section \<open>State\<close>

datatype call_use =
    HistoryUse
  | GapUse nat
  | ManualUse
  | SendUse
  | StopUse nat

datatype sr_effect =
    ClientIO nat rc_effect
  | StartReconnect nat int
  | StopReconnect nat
  | StartMock nat int
  | StopMock nat
  | CallerRejected js_error
  | CallerResolved
  | RenderFailed js_error

record sr_state =
  sr_key :: string
  sr_mounted :: bool
  sr_shown :: realtime_state
  sr_queue :: "(clock \<times> realtime_action) list"
  sr_clients :: "nat \<Rightarrow> rc_state"
  sr_clientKey :: "nat \<Rightarrow> string"
  sr_clientCount :: nat
  sr_current :: "nat option"
  sr_timer :: "(nat \<times> string) option"
  sr_timerCount :: nat
  sr_mockTimers :: "(nat \<times> json option) list"
  sr_mockCount :: nat
  sr_closedByUser :: bool
  sr_activeRun :: jsval
  sr_pendingReload :: bool
  sr_calls :: "(nat \<times> call_use) list"
  sr_nextCall :: nat
  sr_micro :: "(nat \<times> (js_error + jsval)) list"

type_synonym sr_act = "(sr_state, sr_effect) act"

text \<open>\<open>ho_gatewayUrl\<close> is \<open>options.gatewayUrl ?? import.meta.env.VITE_VERTX_REALTIME_URL\<close>.\<close>

record hook_options =
  ho_gatewayUrl :: "string option"
  ho_fallbackToMock :: "bool option"
  ho_loadClock :: clock

definition new_hook :: "string \<Rightarrow> sr_state" where
  "new_hook key = \<lparr>sr_key = key, sr_mounted = True, sr_shown = initialRealtimeState, sr_queue = [],
     sr_clients = (\<lambda>_. new_client), sr_clientKey = (\<lambda>_. []), sr_clientCount = 0, sr_current = None,
     sr_timer = None, sr_timerCount = 0, sr_mockTimers = [], sr_mockCount = 0, sr_closedByUser = False,
     sr_activeRun = Some JNull, sr_pendingReload = False, sr_calls = [], sr_nextCall = 0, sr_micro = []\<rparr>"

definition gateway_url :: "hook_options \<Rightarrow> string option" where
  "gateway_url opts = nonempty (ho_gatewayUrl opts)"

section \<open>Actions, timers, calls\<close>

definition dispatch :: "clock \<Rightarrow> realtime_action \<Rightarrow> sr_act" where
  "dispatch clk a = update (\<lambda>s. if sr_mounted s then s\<lparr>sr_queue := sr_queue s @ [(clk, a)]\<rparr> else s)"

definition sr_clearReconnectTimer :: sr_act where
  "sr_clearReconnectTimer = with_state (\<lambda>s.
     case sr_timer s of
       None \<Rightarrow> skip
     | Some (t, key) \<Rightarrow> seq (emit [StopReconnect t]) (update (\<lambda>s. s\<lparr>sr_timer := None\<rparr>)))"

definition clearMockTimers :: sr_act where
  "clearMockTimers = with_state (\<lambda>s. seq (emit (map (\<lambda>t. StopMock (fst t)) (sr_mockTimers s)))
     (update (\<lambda>s. s\<lparr>sr_mockTimers := []\<rparr>)))"

definition replayMockFrames :: "hook_options \<Rightarrow> clock \<Rightarrow> sr_act" where
  "replayMockFrames opts clk = act_all
     [dispatch clk (Hello mockHelloFrame),
      clearMockTimers,
      with_state (\<lambda>s. let frames = mockRealtimeFrames (ho_loadClock opts); n = sr_mockCount s in
        seq (update (\<lambda>s. s\<lparr>sr_mockTimers := sr_mockTimers s @ enumerate n (map Some frames), sr_mockCount := n + length frames\<rparr>))
          (emit (map (\<lambda>i. StartMock (n + i) (220 * (int i + 1))) [0..<length frames])))]"

text \<open>What a client does to its socket or reports, and the calls it settles.\<close>

fun is_io :: "rc_effect \<Rightarrow> bool" where
  "is_io (OnStatus b) = False"
| "is_io (OnFrame f) = False"
| "is_io (OnError e) = False"
| "is_io (OnGap a b) = False"
| "is_io (RcSettle k r) = False"
| "is_io _ = True"

fun settlement :: "rc_effect \<Rightarrow> (nat \<times> (js_error + jsval)) list" where
  "settlement (RcSettle k r) = [(k, r)]"
| "settlement _ = []"

text \<open>Client \<open>n\<close> does \<open>a\<close>; \<open>k\<close> handles what it calls back.\<close>

definition on_client :: "nat \<Rightarrow> rc_act \<Rightarrow> (rc_effect \<Rightarrow> sr_act) \<Rightarrow> sr_act" where
  "on_client n a k = with_state (\<lambda>s.
     let c = fst (a (sr_clients s n)); es = snd (a (sr_clients s n)) in
     act_all [update (\<lambda>s. s\<lparr>sr_clients := (sr_clients s)(n := c), sr_micro := sr_micro s @ concat (map settlement es)\<rparr>),
       emit (map (ClientIO n) (filter is_io es)),
       for_each k es])"

definition close_client :: "nat \<Rightarrow> sr_act" where
  "close_client n = on_client n rc_close (\<lambda>_. skip)"

definition call_client :: "clock \<Rightarrow> nat \<Rightarrow> string \<Rightarrow> json \<Rightarrow> call_use \<Rightarrow> sr_act" where
  "call_client clk n method payload use = with_state (\<lambda>s.
     seq (update (\<lambda>s. s\<lparr>sr_nextCall := Suc (sr_nextCall s), sr_calls := (sr_nextCall s, use) # sr_calls s\<rparr>))
       (on_client n (rc_request (sr_nextCall s) method (Some payload) (nat (clk 0))) (\<lambda>_. skip)))"

definition history_payload :: "string \<Rightarrow> json" where
  "history_payload key = JObj [(''sessionKey'', JStr key), (''limit'', js_int 50)]"

definition sr_loadHistory :: "clock \<Rightarrow> string \<Rightarrow> nat \<Rightarrow> string option \<Rightarrow> call_use \<Rightarrow> sr_act" where
  "sr_loadHistory clk key n reason use = seq
     (case reason of None \<Rightarrow> skip | Some r \<Rightarrow> if r = [] then skip else dispatch clk (RecoverStart r))
     (call_client clk n ''chat.history'' (history_payload key) use)"

definition requestHistoryFromCurrentClient :: "clock \<Rightarrow> string \<Rightarrow> string \<Rightarrow> sr_act" where
  "requestHistoryFromCurrentClient clk key reason = with_state (\<lambda>s.
     case sr_current s of None \<Rightarrow> skip | Some n \<Rightarrow> sr_loadHistory clk key n (Some reason) HistoryUse)"

section \<open>Callbacks of a client\<close>

text \<open>\<open>key\<close> is the session key the callbacks were made for.\<close>

definition handleFrame :: "clock \<Rightarrow> string \<Rightarrow> json \<Rightarrow> sr_act" where
  "handleFrame clk key frame =
     (let type = getp frame ''type'' in
      if type = Some (JStr ''hello'') then dispatch clk (Hello frame)
      else if type = Some (JStr ''event'') then seq (dispatch clk (Event frame))
        (with_state (\<lambda>s.
           if getp frame ''event'' = Some (JStr ''session.message'')
              \<and> payloadSessionKey (getp frame ''payload'') = Some key
           then (if truthy (sr_activeRun s) then update (\<lambda>s. s\<lparr>sr_pendingReload := True\<rparr>)
                 else requestHistoryFromCurrentClient clk key [CHR 0xE6, CHR 0xA3, CHR 0x80, CHR 0xE6,
                     CHR 0xB5, CHR 0x8B, CHR 0xE5, CHR 0x88, CHR 0xB0, CHR 0xE4, CHR 0xBC, CHR 0x9A,
                     CHR 0xE8, CHR 0xAF, CHR 0x9D, CHR 0xE6, CHR 0xB6, CHR 0x88, CHR 0xE6, CHR 0x81,
                     CHR 0xAF, CHR 0xE6, CHR 0x9B, CHR 0xB4, CHR 0xE6, CHR 0x96, CHR 0xB0, CHR 0xEF,
                     CHR 0xBC, CHR 0x8C, CHR 0xE6, CHR 0xAD, CHR 0xA3, CHR 0xE5, CHR 0x9C, CHR 0xA8,
                     CHR 0xE5, CHR 0x90, CHR 0x8C, CHR 0xE6, CHR 0xAD, CHR 0xA5, CHR 0xE5, CHR 0x8E,
                     CHR 0x86, CHR 0xE5, CHR 0x8F, CHR 0xB2, CHR 0xE2, CHR 0x80, CHR 0xA6])
           else if isTerminalRunFrame frame \<and> sr_pendingReload s
           then seq (update (\<lambda>s. s\<lparr>sr_pendingReload := False, sr_activeRun := Some JNull\<rparr>))
                  (requestHistoryFromCurrentClient clk key [CHR 0xE6, CHR 0xB4, CHR 0xBB, CHR 0xE8,
                      CHR 0xB7, CHR 0x83, CHR 0xE8, CHR 0xBF, CHR 0x90, CHR 0xE8, CHR 0xA1, CHR 0x8C,
                      CHR 0xE5, CHR 0xB7, CHR 0xB2, CHR 0xE7, CHR 0xBB, CHR 0x93, CHR 0xE6, CHR 0x9D,
                      CHR 0x9F, CHR 0xEF, CHR 0xBC, CHR 0x8C, CHR 0xE6, CHR 0xAD, CHR 0xA3, CHR 0xE5,
                      CHR 0x9C, CHR 0xA8, CHR 0xE5, CHR 0x90, CHR 0x8C, CHR 0xE6, CHR 0xAD, CHR 0xA5,
                      CHR 0xE5, CHR 0xBB, CHR 0xB6, CHR 0xE8, CHR 0xBF, CHR 0x9F, CHR 0xE7, CHR 0x9A,
                      CHR 0x84, CHR 0xE4, CHR 0xBC, CHR 0x9A, CHR 0xE8, CHR 0xAF, CHR 0x9D, CHR 0xE6,
                      CHR 0xB6, CHR 0x88, CHR 0xE6, CHR 0x81, CHR 0xAF, CHR 0xE2, CHR 0x80, CHR 0xA6])
           else skip))
      else if type = Some (JStr ''error'')
      then dispatch clk (ConnectError (template (getp frame ''message'')))
      else skip)"

definition gateway_closed :: "clock \<Rightarrow> string \<Rightarrow> sr_act" where
  "gateway_closed clk key = with_state (\<lambda>s.
     if sr_closedByUser s then skip
     else act_all
       [dispatch clk (RecoverStart (''Realtime '' @ [CHR 0xE8, CHR 0xBF, CHR 0x9E, CHR 0xE6, CHR 0x8E,
           CHR 0xA5, CHR 0xE5, CHR 0xB7, CHR 0xB2, CHR 0xE6, CHR 0x96, CHR 0xAD, CHR 0xE5, CHR 0xBC,
           CHR 0x80, CHR 0xEF, CHR 0xBC, CHR 0x8C, CHR 0xE6, CHR 0xAD, CHR 0xA3, CHR 0xE5, CHR 0x9C,
           CHR 0xA8, CHR 0xE6, CHR 0x81, CHR 0xA2, CHR 0xE5, CHR 0xA4, CHR 0x8D, CHR 0xE2, CHR 0x80,
           CHR 0xA6])),
        sr_clearReconnectTimer,
        with_state (\<lambda>s. seq (emit [StartReconnect (sr_timerCount s) 1200])
          (update (\<lambda>s. s\<lparr>sr_timer := Some (sr_timerCount s, key), sr_timerCount := Suc (sr_timerCount s)\<rparr>)))])"

fun client_callback :: "clock \<Rightarrow> nat \<Rightarrow> string \<Rightarrow> rc_effect \<Rightarrow> sr_act" where
  "client_callback clk n key (OnFrame frame) = handleFrame clk key frame"
| "client_callback clk n key (OnError e) = dispatch clk (ConnectError e)"
| "client_callback clk n key (OnGap expected received) =
     sr_loadHistory clk key n (Some [CHR 0xE6, CHR 0xA3, CHR 0x80, CHR 0xE6, CHR 0xB5, CHR 0x8B, CHR 0xE5,
         CHR 0x88, CHR 0xB0, CHR 0xE4, CHR 0xBA, CHR 0x8B, CHR 0xE4, CHR 0xBB, CHR 0xB6, CHR 0xE5,
         CHR 0xBA, CHR 0x8F, CHR 0xE5, CHR 0x88, CHR 0x97, CHR 0xE7, CHR 0xBC, CHR 0xBA, CHR 0xE5,
         CHR 0x8F, CHR 0xA3, CHR 0xEF, CHR 0xBC, CHR 0x8C, CHR 0xE6, CHR 0xAD, CHR 0xA3, CHR 0xE5,
         CHR 0x9C, CHR 0xA8, CHR 0xE6, CHR 0x81, CHR 0xA2, CHR 0xE5, CHR 0xA4, CHR 0x8D, CHR 0xE5,
         CHR 0x8E, CHR 0x86, CHR 0xE5, CHR 0x8F, CHR 0xB2, CHR 0xE6, CHR 0xB6, CHR 0x88, CHR 0xE6,
         CHR 0x81, CHR 0xAF, CHR 0xE2, CHR 0x80, CHR 0xA6]) (GapUse n)"
| "client_callback clk n key (OnStatus opened) = (if opened then skip else gateway_closed clk key)"
| "client_callback clk n key _ = skip"

definition connectGateway :: "hook_options \<Rightarrow> clock \<Rightarrow> string \<Rightarrow> sr_act" where
  "connectGateway opts clk key =
     (case gateway_url opts of
        None \<Rightarrow> dispatch clk (Hello mockHelloFrame)
      | Some url \<Rightarrow> act_all
          [sr_clearReconnectTimer,
           dispatch clk ConnectStart,
           with_state (\<lambda>s. let n = sr_clientCount s in seq
             (update (\<lambda>s. s\<lparr>sr_clients := (sr_clients s)(n := new_client), sr_clientKey := (sr_clientKey s)(n := key),
                sr_clientCount := Suc n, sr_current := Some n\<rparr>))
             (on_client n (rc_connect url) (\<lambda>_. skip)))])"

section \<open>Rendering and effects\<close>

definition hook_cleanup :: sr_act where
  "hook_cleanup = act_all
     [update (\<lambda>s. s\<lparr>sr_closedByUser := True, sr_pendingReload := False\<rparr>),
      sr_clearReconnectTimer, clearMockTimers,
      with_state (\<lambda>s. case sr_current s of None \<Rightarrow> skip | Some n \<Rightarrow> close_client n),
      update (\<lambda>s. s\<lparr>sr_current := None\<rparr>)]"

definition hook_unmount :: sr_act where
  "hook_unmount = seq hook_cleanup (update (\<lambda>s. s\<lparr>sr_mounted := False\<rparr>))"

definition render :: sr_act where
  "render = with_state (\<lambda>s.
     case reduce_all (sr_queue s) (sr_shown s) of
       Inl e \<Rightarrow> seq hook_unmount (emit [RenderFailed e])
     | Inr v \<Rightarrow> update (\<lambda>s. s\<lparr>sr_shown := v, sr_queue := []\<rparr>))"

text \<open>The effect on \<open>state.chatRunId\<close>, after a render that \<open>old\<close> was shown before.\<close>

definition run_effect :: "realtime_state \<Rightarrow> sr_act" where
  "run_effect old = update (\<lambda>s.
     if same_value (chatRunId (sr_shown s)) (chatRunId old) then s
     else s\<lparr>sr_activeRun := chatRunId (sr_shown s)\<rparr>)"

definition session_effect :: "clock \<Rightarrow> sr_act" where
  "session_effect clk = seq (update (\<lambda>s. s\<lparr>sr_pendingReload := False, sr_activeRun := Some JNull\<rparr>))
     (dispatch clk SessionReset)"

definition connect_effect :: "hook_options \<Rightarrow> clock \<Rightarrow> string \<Rightarrow> sr_act" where
  "connect_effect opts clk key = seq (update (\<lambda>s. s\<lparr>sr_closedByUser := False\<rparr>)) (connectGateway opts clk key)"

definition hook_mount :: "hook_options \<Rightarrow> clock \<Rightarrow> sr_act" where
  "hook_mount opts clk = with_state (\<lambda>s. act_all
     [update (\<lambda>s. s\<lparr>sr_activeRun := chatRunId (sr_shown s)\<rparr>), session_effect clk,
      connect_effect opts clk (sr_key s)])"

definition switch_session :: "hook_options \<Rightarrow> clock \<Rightarrow> string \<Rightarrow> sr_act" where
  "switch_session opts clk key = with_state (\<lambda>s0. seq render (with_state (\<lambda>s.
     if \<not> sr_mounted s then skip
     else act_all [update (\<lambda>s. s\<lparr>sr_key := key\<rparr>), hook_cleanup, run_effect (sr_shown s0), session_effect clk,
       connect_effect opts clk key])))"

section \<open>What the hook returns\<close>

definition send_failed :: "hook_options \<Rightarrow> clock \<Rightarrow> js_error \<Rightarrow> sr_act" where
  "send_failed opts clk e =
     (if ho_fallbackToMock opts \<noteq> Some False
      then seq (dispatch clk (RecoverStart (''Gateway '' @ [CHR 0xE8, CHR 0xAF, CHR 0xB7, CHR 0xE6,
          CHR 0xB1, CHR 0x82, CHR 0xE5, CHR 0xA4, CHR 0xB1, CHR 0xE8, CHR 0xB4, CHR 0xA5, CHR 0xEF,
          CHR 0xBC, CHR 0x8C, CHR 0xE5, CHR 0xB7, CHR 0xB2, CHR 0xE5, CHR 0x9B, CHR 0x9E, CHR 0xE9,
          CHR 0x80, CHR 0x80, CHR 0xE5, CHR 0x88, CHR 0xB0] @ '' mock stream'' @ [CHR 0xE3, CHR 0x80,
          CHR 0x82]))) (replayMockFrames opts clk)
      else dispatch clk (ConnectError (error_message e)))"

definition submitTask :: "hook_options \<Rightarrow> clock \<Rightarrow> string \<Rightarrow> sr_act" where
  "submitTask opts clk text = seq (dispatch clk (UserQueue text))
     (if gateway_url opts = None then replayMockFrames opts clk
      else with_state (\<lambda>s.
        case sr_current s of
          None \<Rightarrow> send_failed opts clk (PlainError ''realtime gateway is not connected'')
        | Some n \<Rightarrow> call_client clk n ''chat.send''
            (JObj [(''sessionKey'', JStr (sr_key s)), (''message'', JObj [(''text'', JStr text)]),
                   (''deliver'', JBool True)]) SendUse))"

definition stopTask :: "clock \<Rightarrow> sr_act" where
  "stopTask clk = seq clearMockTimers (with_state (\<lambda>s.
     case sr_current s of
       None \<Rightarrow> dispatch clk ConnectClose
     | Some n \<Rightarrow>
         if \<not> truthy (chatRunId (sr_shown s)) then dispatch clk ConnectClose
         else call_client clk n ''chat.stop''
           (mk_obj [(''sessionKey'', Some (JStr (sr_key s))), (''runId'', chatRunId (sr_shown s))]) (StopUse n)))"

definition loadHistory_returned :: "clock \<Rightarrow> sr_act" where
  "loadHistory_returned clk = with_state (\<lambda>s.
     case sr_current s of
       None \<Rightarrow> emit [CallerRejected (PlainError ''realtime gateway is not connected'')]
     | Some n \<Rightarrow> sr_loadHistory clk (sr_key s) n None ManualUse)"

section \<open>Settled promises\<close>

text \<open>
  A history that failed is seen one promise later than the other failures: its rejection goes
  through the promise of \<open>loadHistory\<close>.
\<close>

definition settle_first :: "hook_options \<Rightarrow> clock \<Rightarrow> nat \<times> (js_error + jsval) \<Rightarrow> sr_act" where
  "settle_first opts clk m = with_state (\<lambda>s.
     case (map_of (sr_calls s) (fst m), snd m) of
       (Some SendUse, Inl e) \<Rightarrow> send_failed opts clk e
     | (Some (StopUse n), Inl e) \<Rightarrow> close_client n
     | (Some HistoryUse, Inr v) \<Rightarrow> dispatch clk (HistoryLoaded (toHistoryMessages v))
     | (Some (GapUse n), Inr v) \<Rightarrow> dispatch clk (HistoryLoaded (toHistoryMessages v))
     | (Some ManualUse, Inr v) \<Rightarrow> seq (dispatch clk (HistoryLoaded (toHistoryMessages v))) (emit [CallerResolved])
     | _ \<Rightarrow> skip)"

definition settle_late :: "clock \<Rightarrow> nat \<times> (js_error + jsval) \<Rightarrow> sr_act" where
  "settle_late clk m = with_state (\<lambda>s.
     case (map_of (sr_calls s) (fst m), snd m) of
       (Some HistoryUse, Inl e) \<Rightarrow> dispatch clk (ConnectError (error_message e))
     | (Some (GapUse n), Inl e) \<Rightarrow> seq (dispatch clk (ConnectError (error_message e))) (close_client n)
     | (Some ManualUse, Inl e) \<Rightarrow> emit [CallerRejected e]
     | _ \<Rightarrow> skip)"

definition run_micro :: "hook_options \<Rightarrow> clock \<Rightarrow> sr_act" where
  "run_micro opts clk = with_state (\<lambda>s. act_all
     [update (\<lambda>s. s\<lparr>sr_micro := []\<rparr>), for_each (settle_first opts clk) (sr_micro s),
      for_each (settle_late clk) (sr_micro s)])"

section \<open>Steps\<close>

datatype sr_event =
    Rendered
  | SwitchSession string
  | Unmounted
  | SocketOpened nat
  | SocketMessage nat "json option"
  | SocketFailed nat
  | SocketClosed nat
  | ReconnectTimer nat
  | MockTimer nat
  | SubmitTask string
  | StopTask
  | LoadHistory

text \<open>
  An event of the socket of client \<open>n\<close>. A socket opens only while it connects, has messages only
  while it is open, and closes once.
\<close>

definition client_event :: "hook_options \<Rightarrow> clock \<Rightarrow> nat \<Rightarrow> (ready_state \<Rightarrow> bool) \<Rightarrow> rc_event \<Rightarrow> sr_act" where
  "client_event opts clk n allowed ev = with_state (\<lambda>s.
     if n \<ge> sr_clientCount s \<or> \<not> allowed (rc_ready (sr_clients s n) 0) then skip
     else on_client n (rc_step (nullish (gateway_url opts) []) ev) (client_callback clk n (sr_clientKey s n)))"

fun sr_event_act :: "hook_options \<Rightarrow> clock \<Rightarrow> sr_event \<Rightarrow> sr_act" where
  "sr_event_act opts clk Rendered = with_state (\<lambda>s0.
     if sr_queue s0 = [] \<or> \<not> sr_mounted s0 then skip
     else seq render (with_state (\<lambda>s. if sr_mounted s then run_effect (sr_shown s0) else skip)))"
| "sr_event_act opts clk (SwitchSession key) = with_state (\<lambda>s.
     if sr_mounted s \<and> key \<noteq> sr_key s then switch_session opts clk key else skip)"
| "sr_event_act opts clk Unmounted = with_state (\<lambda>s. if sr_mounted s then hook_unmount else skip)"
| "sr_event_act opts clk (SocketOpened n) = client_event opts clk n (\<lambda>r. r = Connecting) (RcOpened 0)"
| "sr_event_act opts clk (SocketMessage n data) = client_event opts clk n (\<lambda>r. r = OpenState) (RcMessage 0 data)"
| "sr_event_act opts clk (SocketFailed n) = client_event opts clk n (\<lambda>r. r \<noteq> ClosedState) (RcFailed 0)"
| "sr_event_act opts clk (SocketClosed n) = client_event opts clk n (\<lambda>r. r \<noteq> ClosedState) (RcClosed 0)"
| "sr_event_act opts clk (ReconnectTimer t) = with_state (\<lambda>s.
     case sr_timer s of
       None \<Rightarrow> skip
     | Some (t', key) \<Rightarrow> if t' = t then connectGateway opts clk key else skip)"
| "sr_event_act opts clk (MockTimer t) = with_state (\<lambda>s.
     case map_of (sr_mockTimers s) t of
       Some (Some frame) \<Rightarrow> seq (update (\<lambda>s. s\<lparr>sr_mockTimers := AList.update t None (sr_mockTimers s)\<rparr>))
         (dispatch clk (Event frame))
     | _ \<Rightarrow> skip)"
| "sr_event_act opts clk (SubmitTask text) = submitTask opts clk text"
| "sr_event_act opts clk StopTask = stopTask clk"
| "sr_event_act opts clk LoadHistory = loadHistory_returned clk"

definition sr_step :: "hook_options \<Rightarrow> clock \<times> sr_event \<Rightarrow> sr_act" where
  "sr_step opts e = seq (sr_event_act opts (fst e) (snd e)) (run_micro opts (fst e))"

definition useSessionRealtime :: "hook_options \<Rightarrow> string \<Rightarrow> clock \<Rightarrow> (clock \<times> sr_event) list \<Rightarrow> sr_state \<times> sr_effect list" where
  "useSessionRealtime opts key clk evs = seq (hook_mount opts clk) (for_each (sr_step opts) evs) (new_hook key)"

section \<open>The connection\<close>

text \<open>What the connection depends on: \<open>conn_closed\<close> is about the socket of a client.\<close>

record conn_view =
  cv_mounted :: bool
  cv_closedByUser :: bool
  cv_timer :: bool
  cv_current :: "nat option"
  cv_count :: nat
  cv_closed :: "nat \<Rightarrow> bool"

definition conn :: "sr_state \<Rightarrow> conn_view" where
  "conn s = \<lparr>cv_mounted = sr_mounted s, cv_closedByUser = sr_closedByUser s, cv_timer = (sr_timer s \<noteq> None),
     cv_current = sr_current s, cv_count = sr_clientCount s,
     cv_closed = (\<lambda>n. rc_ready (sr_clients s n) 0 = ClosedState)\<rparr>"

definition keeps_conn :: "sr_act \<Rightarrow> bool" where
  "keeps_conn a \<longleftrightarrow> (\<forall>s. conn (fst (a s)) = conn s)"

named_theorems keeps

lemma keeps_basic [keeps]:
  "keeps_conn skip" "keeps_conn (emit es)"
  "keeps_conn a \<Longrightarrow> keeps_conn b \<Longrightarrow> keeps_conn (seq a b)"
  "(\<And>s. keeps_conn (k s)) \<Longrightarrow> keeps_conn (with_state k)"
  "keeps_conn (act_all [])"
  "keeps_conn a \<Longrightarrow> keeps_conn (act_all as) \<Longrightarrow> keeps_conn (act_all (a # as))"
  by (simp_all add: keeps_conn_def)

lemma keeps_for_each [keeps]: "(\<And>x. keeps_conn (f x)) \<Longrightarrow> keeps_conn (for_each f xs)"
  by (induction xs) (simp_all add: keeps_basic)

lemma keeps_update [keeps]: "(\<And>s. conn (f s) = conn s) \<Longrightarrow> keeps_conn (update f)"
  by (simp add: keeps_conn_def)

lemma keeps_dispatch [keeps]: "keeps_conn (dispatch clk a)"
  unfolding dispatch_def by (intro keeps) (simp add: conn_def)

lemma keeps_clear_mock [keeps]: "keeps_conn clearMockTimers"
  unfolding clearMockTimers_def by (intro keeps) (simp add: conn_def)

lemma keeps_replay [keeps]: "keeps_conn (replayMockFrames opts clk)"
  unfolding replayMockFrames_def Let_def by (intro keeps) (simp add: conn_def)

lemma keeps_on_client:
  assumes "\<And>c. rc_ready (fst (a c)) 0 = ClosedState \<longleftrightarrow> rc_ready c 0 = ClosedState"
    and "\<And>e. keeps_conn (k e)"
  shows "keeps_conn (on_client n a k)"
proof -
  have "conn (fst (for_each k es s)) = conn s" for es s
    using keeps_for_each [of k es] assms(2) by (simp add: keeps_conn_def)
  then show ?thesis
    using assms(1) by (simp add: keeps_conn_def on_client_def Let_def conn_def fun_eq_iff)
qed

lemma close_closed: "rc_ready (fst (rc_close c)) 0 = ClosedState \<longleftrightarrow> rc_ready c 0 = ClosedState"
  by (auto simp: rc_close_def split: option.split)

lemma request_closed: "rc_ready (fst (rc_request k m p now c)) = rc_ready c"
  by (simp add: rc_request_def Let_def split: option.split)

lemma keeps_close [keeps]: "keeps_conn (close_client n)"
  unfolding close_client_def by (rule keeps_on_client) (simp_all only: close_closed keeps)

lemma keeps_call [keeps]: "keeps_conn (call_client clk n m p use)"
  unfolding call_client_def
  by (intro keeps keeps_on_client) (simp_all add: conn_def request_closed)

lemma keeps_history [keeps]: "keeps_conn (sr_loadHistory clk key n reason use)"
  unfolding sr_loadHistory_def by (cases reason) (auto intro!: keeps)

lemma keeps_current_history [keeps]: "keeps_conn (requestHistoryFromCurrentClient clk key reason)"
  unfolding requestHistoryFromCurrentClient_def by (rule keeps) (auto intro!: keeps split: option.split)

lemma keeps_if [keeps]: "(b \<Longrightarrow> keeps_conn x) \<Longrightarrow> (\<not> b \<Longrightarrow> keeps_conn y) \<Longrightarrow> keeps_conn (if b then x else y)"
  by simp

lemma keeps_frame [keeps]: "keeps_conn (handleFrame clk key frame)"
  unfolding handleFrame_def Let_def by (intro keeps) (simp_all add: conn_def)

lemma keeps_send_failed [keeps]: "keeps_conn (send_failed opts clk e)"
  unfolding send_failed_def by (intro keeps)

lemma keeps_settle [keeps]: "keeps_conn (settle_first opts clk m)" "keeps_conn (settle_late clk m)"
  unfolding settle_first_def settle_late_def
  by (rule keeps; auto intro!: keeps split: option.split call_use.split sum.split)+

lemma keeps_micro [keeps]: "keeps_conn (run_micro opts clk)"
  unfolding run_micro_def by (intro keeps) (simp add: conn_def)

lemma keeps_returned [keeps]:
  "keeps_conn (submitTask opts clk text)" "keeps_conn (stopTask clk)" "keeps_conn (loadHistory_returned clk)"
  unfolding submitTask_def stopTask_def loadHistory_returned_def
  by (intro keeps; auto intro!: keeps split: option.split)+

text \<open>While the page is mounted a client lives or the timer is set.\<close>

definition conn_ok :: "conn_view \<Rightarrow> bool" where
  "conn_ok v \<longleftrightarrow> (\<forall>n. cv_current v = Some n \<longrightarrow> n < cv_count v)
     \<and> (cv_mounted v \<longrightarrow> \<not> cv_closedByUser v
          \<and> (cv_timer v \<or> (\<exists>n. cv_current v = Some n \<and> \<not> cv_closed v n)))"

lemma conn_keeps: "keeps_conn a \<Longrightarrow> conn (fst (a s)) = conn s"
  by (simp add: keeps_conn_def)

lemma conn_clear_timer: "conn (fst (sr_clearReconnectTimer s)) = (conn s)\<lparr>cv_timer := False\<rparr>"
  by (simp add: sr_clearReconnectTimer_def conn_def split: option.split)

lemma conn_on_client:
  assumes "\<And>e. e \<in> set (snd (a (sr_clients s n))) \<Longrightarrow> keeps_conn (k e)"
  shows "conn (fst (on_client n a k s)) = (conn s)\<lparr>cv_closed :=
    (cv_closed (conn s))(n := rc_ready (fst (a (sr_clients s n))) 0 = ClosedState)\<rparr>"
proof -
  have "conn (fst (for_each k es s)) = conn s" if "\<And>e. e \<in> set es \<Longrightarrow> keeps_conn (k e)" for es s
    using that by (induction es arbitrary: s) (simp_all add: conn_keeps)
  from this [OF assms] show ?thesis
    by (simp add: on_client_def Let_def) (simp add: conn_def fun_eq_iff)
qed

lemma conn_connect:
  assumes "gateway_url opts = Some url"
  shows "conn (fst (connectGateway opts clk key s)) = (conn s)\<lparr>cv_timer := False,
    cv_current := Some (cv_count (conn s)), cv_count := Suc (cv_count (conn s)),
    cv_closed := (cv_closed (conn s))(cv_count (conn s) := False)\<rparr>"
proof -
  define s1 where "s1 = fst (dispatch clk ConnectStart (fst (sr_clearReconnectTimer s)))"
  have s1: "conn s1 = (conn s)\<lparr>cv_timer := False\<rparr>"
    by (simp add: s1_def conn_keeps [OF keeps_dispatch] conn_clear_timer)
  define s2 where "s2 = s1\<lparr>sr_clients := (sr_clients s1)(sr_clientCount s1 := new_client),
    sr_clientKey := (sr_clientKey s1)(sr_clientCount s1 := key), sr_clientCount := Suc (sr_clientCount s1),
    sr_current := Some (sr_clientCount s1)\<rparr>"
  have c: "rc_ready (fst (rc_connect url new_client)) 0 = Connecting"
    by (simp add: rc_connect_def new_client_def)
  have "fst (connectGateway opts clk key s) = fst (on_client (sr_clientCount s1) (rc_connect url) (\<lambda>_. skip) s2)"
    by (simp add: connectGateway_def assms s1_def s2_def Let_def)
  then have "conn (fst (connectGateway opts clk key s)) = (conn s2)\<lparr>cv_closed :=
      (cv_closed (conn s2))(sr_clientCount s1 := False)\<rparr>"
    using conn_on_client [of "rc_connect url" s2 "sr_clientCount s1" "\<lambda>_. skip"] c
    by (simp add: keeps s2_def)
  moreover have "sr_clientCount s1 = cv_count (conn s)" using arg_cong [OF s1, of cv_count] by (simp add: conn_def)
  ultimately show ?thesis
    using s1 by (simp add: s2_def conn_def fun_eq_iff)
qed

lemma conn_cleanup:
  "conn (fst (hook_cleanup s)) = (conn s)\<lparr>cv_closedByUser := True, cv_timer := False, cv_current := None\<rparr>"
proof -
  define s1 where "s1 = fst (clearMockTimers (fst (sr_clearReconnectTimer (s\<lparr>sr_closedByUser := True, sr_pendingReload := False\<rparr>))))"
  have s1: "conn s1 = (conn s)\<lparr>cv_closedByUser := True, cv_timer := False\<rparr>"
    unfolding s1_def conn_keeps [OF keeps_clear_mock] conn_clear_timer by (simp add: conn_def)
  define s2 where "s2 = fst ((case sr_current s1 of None \<Rightarrow> skip | Some n \<Rightarrow> close_client n) s1)"
  have "conn s2 = conn s1"
    unfolding s2_def by (cases "sr_current s1") (simp_all add: conn_keeps keeps)
  moreover have "fst (hook_cleanup s) = s2\<lparr>sr_current := None\<rparr>"
    by (simp add: hook_cleanup_def s1_def s2_def)
  ultimately show ?thesis
    using s1 by (simp add: conn_def)
qed

lemma conn_unmount:
  "conn (fst (hook_unmount s)) = (conn s)\<lparr>cv_mounted := False, cv_closedByUser := True, cv_timer := False, cv_current := None\<rparr>"
  using conn_cleanup [of s] by (simp add: hook_unmount_def conn_def)

lemma conn_render:
  "conn (fst (render s)) = (if isl (reduce_all (sr_queue s) (sr_shown s))
     then (conn s)\<lparr>cv_mounted := False, cv_closedByUser := True, cv_timer := False, cv_current := None\<rparr> else conn s)"
  by (auto simp: render_def conn_unmount split: sum.split) (simp add: conn_def)

lemma conn_gateway_closed:
  "conn (fst (gateway_closed clk key s)) = (if sr_closedByUser s then conn s else (conn s)\<lparr>cv_timer := True\<rparr>)"
proof -
  define s1 where "s1 = fst (sr_clearReconnectTimer (fst (dispatch clk (RecoverStart (''Realtime '' @ [CHR 0xE8,
      CHR 0xBF, CHR 0x9E, CHR 0xE6, CHR 0x8E, CHR 0xA5, CHR 0xE5, CHR 0xB7, CHR 0xB2, CHR 0xE6, CHR 0x96,
      CHR 0xAD, CHR 0xE5, CHR 0xBC, CHR 0x80, CHR 0xEF, CHR 0xBC, CHR 0x8C, CHR 0xE6, CHR 0xAD, CHR 0xA3,
      CHR 0xE5, CHR 0x9C, CHR 0xA8, CHR 0xE6, CHR 0x81, CHR 0xA2, CHR 0xE5, CHR 0xA4, CHR 0x8D, CHR 0xE2,
      CHR 0x80, CHR 0xA6])) s)))"
  have "conn s1 = (conn s)\<lparr>cv_timer := False\<rparr>"
    unfolding s1_def conn_clear_timer conn_keeps [OF keeps_dispatch] by simp
  moreover have "\<not> sr_closedByUser s \<Longrightarrow> fst (gateway_closed clk key s)
      = s1\<lparr>sr_timer := Some (sr_timerCount s1, key), sr_timerCount := Suc (sr_timerCount s1)\<rparr>"
    by (simp add: gateway_closed_def s1_def)
  ultimately show ?thesis
    by (cases "sr_closedByUser s") (simp add: gateway_closed_def, simp add: conn_def)
qed

lemma message_closed: "rc_ready (fst (rc_message data c)) = rc_ready c"
  by (auto simp: rc_message_def resolvePending_def track_seq_def Let_def split: option.split json.split)

lemma conn_closed_event:
  "conn (fst (on_client n (rc_step url (RcClosed 0)) (client_callback clk n key) s))
    = (let v = (conn s)\<lparr>cv_closed := (cv_closed (conn s))(n := True)\<rparr> in
       if cv_closedByUser v then v else v\<lparr>cv_timer := True\<rparr>)"
proof -
  let ?es = "map (\<lambda>e. RcSettle (snd e) (Inl (PlainError ''realtime gateway connection closed''))) (rc_pending (sr_clients s n))"
  have "snd (rc_step url (RcClosed 0) (sr_clients s n)) = ?es @ [OnStatus False]"
    by (simp add: rejectPending_def)
  moreover have "fst (for_each (client_callback clk n key) (map (\<lambda>e. RcSettle (snd e) r) xs @ es) s)
      = fst (for_each (client_callback clk n key) es s)" for r and xs :: "(string \<times> nat) list" and es s
    by (induction xs) simp_all
  moreover have "rc_ready (fst (rc_step url (RcClosed 0) (sr_clients s n))) 0 = ClosedState"
    by (simp add: rejectPending_def)
  ultimately have "conn (fst (on_client n (rc_step url (RcClosed 0)) (client_callback clk n key) s))
      = (let s' = s\<lparr>sr_clients := (sr_clients s)(n := fst (rc_step url (RcClosed 0) (sr_clients s n))),
             sr_micro := sr_micro s @ concat (map settlement (?es @ [OnStatus False]))\<rparr>
         in if sr_closedByUser s then conn s' else (conn s')\<lparr>cv_timer := True\<rparr>)"
    by (simp add: on_client_def Let_def conn_gateway_closed del: rc_step.simps)
  then show ?thesis
    by (simp add: Let_def conn_def fun_eq_iff rejectPending_def)
qed

lemma callbacks_keep:
  "e \<in> set (snd (rc_step url ev c)) \<Longrightarrow> (\<And>m. ev \<noteq> RcClosed m) \<Longrightarrow> keeps_conn (client_callback clk n key e)"
  by (cases ev; cases e)
     (auto intro!: keeps simp: rc_connect_def rc_message_def rc_close_def rc_request_def resolvePending_def track_seq_def
       Let_def split: option.splits json.splits if_splits)

lemma conn_client_event:
  assumes "\<And>m. ev \<noteq> RcClosed m"
    and "\<And>c. allowed (rc_ready c 0) \<Longrightarrow>
      (rc_ready (fst (rc_step (nullish (gateway_url opts) []) ev c)) 0 = ClosedState) = (rc_ready c 0 = ClosedState)"
  shows "conn (fst (client_event opts clk n allowed ev s)) = conn s"
proof (cases "n \<ge> sr_clientCount s \<or> \<not> allowed (rc_ready (sr_clients s n) 0)")
  case False
  then have "fst (client_event opts clk n allowed ev s)
      = fst (on_client n (rc_step (nullish (gateway_url opts) []) ev) (client_callback clk n (sr_clientKey s n)) s)"
    by (simp add: client_event_def)
  also have "conn \<dots> = conn s"
    using False assms(2) [of "sr_clients s n"]
    by (subst conn_on_client) (auto intro: callbacks_keep [OF _ assms(1)] simp: conn_def)
  finally show ?thesis .
qed (auto simp: client_event_def)

lemma conn_ok_step:
  assumes "gateway_url opts = Some url" and "conn_ok (conn s)"
  shows "conn_ok (conn (fst (sr_event_act opts clk ev s)))"
proof (cases ev)
  case Rendered
  have "conn (fst (run_effect old s)) = conn s" for old s by (simp add: run_effect_def conn_def)
  with Rendered assms(2) conn_render [of s] show ?thesis
    by (auto simp: conn_ok_def Let_def)
next
  case (SwitchSession key)
  have e: "conn (fst (run_effect old s)) = conn s" "conn (s\<lparr>sr_key := k\<rparr>) = conn s"
    "conn (fst (session_effect clk s)) = conn s" "conn (s\<lparr>sr_closedByUser := b\<rparr>) = (conn s)\<lparr>cv_closedByUser := b\<rparr>" for old s k b
    by (simp_all add: run_effect_def session_effect_def dispatch_def conn_def)
  from SwitchSession assms(2) conn_render [of s] show ?thesis
    by (auto simp: switch_session_def connect_effect_def conn_connect [OF assms(1)] e conn_cleanup conn_ok_def)
next
  case Unmounted
  with assms(2) conn_unmount [of s] show ?thesis by (simp add: conn_ok_def)
next
  case (SocketClosed n)
  with assms(2) conn_closed_event [of n _ clk _ s] show ?thesis
    by (auto simp: client_event_def conn_ok_def Let_def)
next
  case (SocketOpened n)
  have "conn (fst (client_event opts clk n (\<lambda>r. r = Connecting) (RcOpened 0) s)) = conn s"
    by (rule conn_client_event) simp_all
  with SocketOpened assms(2) show ?thesis by simp
next
  case (ReconnectTimer t)
  with assms(2) conn_connect [OF assms(1)] show ?thesis
    by (auto simp: conn_ok_def split: option.split)
next
  case (MockTimer t)
  have "conn (s\<lparr>sr_mockTimers := x\<rparr>) = conn s" for s x by (simp add: conn_def)
  with MockTimer assms(2) show ?thesis
    by (auto simp: conn_keeps keeps split: option.split)
qed (use assms(2) in \<open>simp_all add: conn_keeps keeps conn_client_event message_closed\<close>)

lemma conn_ok_run:
  assumes "gateway_url opts = Some url"
  shows "conn_ok (conn (fst (useSessionRealtime opts key clk evs)))"
proof -
  have step: "conn_ok (conn s) \<Longrightarrow> conn_ok (conn (fst (for_each (sr_step opts) evs s)))" for s
    by (induction evs arbitrary: s) (simp_all add: sr_step_def conn_keeps keeps conn_ok_step [OF assms])
  have "conn (fst (hook_mount opts clk (new_hook key))) = \<lparr>cv_mounted = True, cv_closedByUser = False, cv_timer = False,
      cv_current = Some 0, cv_count = 1, cv_closed = (\<lambda>_. False)\<rparr>"
    by (simp add: hook_mount_def session_effect_def connect_effect_def conn_connect [OF assms] dispatch_def)
       (simp add: conn_def new_hook_def new_client_def fun_eq_iff)
  then have "conn_ok (conn (fst (hook_mount opts clk (new_hook key))))" by (simp add: conn_ok_def)
  from step [OF this] show ?thesis by (simp add: useSessionRealtime_def)
qed

section \<open>A session change, step by step\<close>

text \<open>A client whose socket is connecting or open, and one that has been told to close.\<close>

definition hook_live :: "sr_state \<Rightarrow> nat \<Rightarrow> bool" where
  "hook_live s n \<longleftrightarrow> n < sr_clientCount s \<and> rc_ready (sr_clients s n) 0 \<in> {Connecting, OpenState}"

definition connected_client :: "string \<Rightarrow> rc_state" where
  "connected_client url = fst (rc_connect url new_client)"

lemma connected_client_ready [simp]: "rc_ready (connected_client url) 0 = Connecting" "rc_pending (connected_client url) = []"
  by (simp_all add: connected_client_def rc_connect_def new_client_def)

lemmas hook_defs = dispatch_def sr_clearReconnectTimer_def clearMockTimers_def on_client_def close_client_def
  connectGateway_def hook_cleanup_def run_effect_def session_effect_def connect_effect_def gateway_closed_def

lemma no_micro: "sr_micro s = [] \<Longrightarrow> fst (run_micro opts clk s) = s"
  by (simp add: run_micro_def)

lemma switched:
  assumes "gateway_url opts = Some url" and "sr_mounted s" and "key \<noteq> sr_key s" and "sr_current s = Some n"
    and "n < sr_clientCount s" and "rc_socket (sr_clients s n) = Some 0"
    and "rc_ready (sr_clients s n) 0 \<in> {Connecting, OpenState}" and "sr_micro s = []"
    and "reduce_all (sr_queue s) (sr_shown s) = Inr v"
    and "s' = fst (sr_step opts (clk, SwitchSession key) s)"
  shows "sr_mounted s'" "\<not> sr_closedByUser s'" "sr_key s' = key" "sr_current s' = Some (sr_clientCount s)"
    "sr_clientCount s' = Suc (sr_clientCount s)" "sr_timer s' = None" "sr_timerCount s' = sr_timerCount s"
    "sr_clientKey s' = (sr_clientKey s)(sr_clientCount s := key)" "sr_micro s' = []"
    "sr_clients s' = (sr_clients s)(n := fst (rc_close (sr_clients s n)), sr_clientCount s := connected_client url)"
proof -
  have c: "snd (rc_close (sr_clients s n)) = [WsClose 0]" "snd (rc_connect url new_client) = [WsOpen 0 url]"
    using assms(6) by (simp_all add: rc_close_def rc_connect_def new_client_def)
  let ?a = "fst (sr_event_act opts clk (SwitchSession key) s)"
  have "sr_mounted ?a \<and> \<not> sr_closedByUser ?a \<and> sr_key ?a = key \<and> sr_current ?a = Some (sr_clientCount s)
    \<and> sr_clientCount ?a = Suc (sr_clientCount s) \<and> sr_timer ?a = None \<and> sr_timerCount ?a = sr_timerCount s
    \<and> sr_clientKey ?a = (sr_clientKey s)(sr_clientCount s := key) \<and> sr_micro ?a = []
    \<and> sr_clients ?a = (sr_clients s)(n := fst (rc_close (sr_clients s n)), sr_clientCount s := connected_client url)"
    using assms(1-9) c
    by (cases "sr_timer s")
       (simp_all add: switch_session_def render_def hook_defs Let_def connected_client_def split_beta)
  then show "sr_mounted s'" "\<not> sr_closedByUser s'" "sr_key s' = key" "sr_current s' = Some (sr_clientCount s)"
    "sr_clientCount s' = Suc (sr_clientCount s)" "sr_timer s' = None" "sr_timerCount s' = sr_timerCount s"
    "sr_clientKey s' = (sr_clientKey s)(sr_clientCount s := key)" "sr_micro s' = []"
    "sr_clients s' = (sr_clients s)(n := fst (rc_close (sr_clients s n)), sr_clientCount s := connected_client url)"
    unfolding assms(10) sr_step_def by (simp_all add: no_micro del: sr_event_act.simps)
qed

lemma old_socket_closed:
  assumes "\<not> sr_closedByUser s" and "sr_timer s = None" and "n < sr_clientCount s"
    and "rc_ready (sr_clients s n) 0 = Closing" and "rc_pending (sr_clients s n) = []" and "sr_micro s = []"
    and "s' = fst (sr_step opts (clk, SocketClosed n) s)"
  shows "sr_timer s' = Some (sr_timerCount s, sr_clientKey s n)" "sr_mounted s' = sr_mounted s"
    "sr_key s' = sr_key s" "sr_clientCount s' = sr_clientCount s" "sr_clientKey s' = sr_clientKey s"
    "m \<noteq> n \<Longrightarrow> sr_clients s' m = sr_clients s m" "sr_micro s' = []" "sr_current s' = sr_current s"
proof -
  have e: "snd (rc_step (nullish (gateway_url opts) []) (RcClosed 0) (sr_clients s n)) = [OnStatus False]"
    using assms(5) by (simp add: rejectPending_def)
  let ?a = "fst (sr_event_act opts clk (SocketClosed n) s)"
  have "sr_timer ?a = Some (sr_timerCount s, sr_clientKey s n) \<and> sr_mounted ?a = sr_mounted s
    \<and> sr_key ?a = sr_key s \<and> sr_clientCount ?a = sr_clientCount s \<and> sr_clientKey ?a = sr_clientKey s
    \<and> (m \<noteq> n \<longrightarrow> sr_clients ?a m = sr_clients s m) \<and> sr_micro ?a = [] \<and> sr_current ?a = sr_current s"
    using assms(1-6) e
    by (simp add: client_event_def hook_defs Let_def del: rc_step.simps)
  then show "sr_timer s' = Some (sr_timerCount s, sr_clientKey s n)" "sr_mounted s' = sr_mounted s"
    "sr_key s' = sr_key s" "sr_clientCount s' = sr_clientCount s" "sr_clientKey s' = sr_clientKey s"
    "m \<noteq> n \<Longrightarrow> sr_clients s' m = sr_clients s m" "sr_micro s' = []" "sr_current s' = sr_current s"
    unfolding assms(7) sr_step_def by (simp_all add: no_micro del: sr_event_act.simps)
qed

lemma reconnected:
  assumes "gateway_url opts = Some url" and "sr_timer s = Some (t, key)" and "sr_micro s = []"
    and "s' = fst (sr_step opts (clk, ReconnectTimer t) s)"
  shows "sr_current s' = Some (sr_clientCount s)" "sr_clientCount s' = Suc (sr_clientCount s)"
    "sr_clientKey s' = (sr_clientKey s)(sr_clientCount s := key)" "sr_key s' = sr_key s" "sr_mounted s' = sr_mounted s"
    "sr_clients s' = (sr_clients s)(sr_clientCount s := connected_client url)" "sr_micro s' = []"
proof -
  have c: "snd (rc_connect url new_client) = [WsOpen 0 url]"
    by (simp add: rc_connect_def new_client_def)
  let ?a = "fst (sr_event_act opts clk (ReconnectTimer t) s)"
  have "sr_current ?a = Some (sr_clientCount s) \<and> sr_clientCount ?a = Suc (sr_clientCount s)
    \<and> sr_clientKey ?a = (sr_clientKey s)(sr_clientCount s := key) \<and> sr_key ?a = sr_key s \<and> sr_mounted ?a = sr_mounted s
    \<and> sr_clients ?a = (sr_clients s)(sr_clientCount s := connected_client url) \<and> sr_micro ?a = []"
    using assms(1-3) c by (simp add: hook_defs Let_def connected_client_def)
  then show "sr_current s' = Some (sr_clientCount s)" "sr_clientCount s' = Suc (sr_clientCount s)"
    "sr_clientKey s' = (sr_clientKey s)(sr_clientCount s := key)" "sr_key s' = sr_key s" "sr_mounted s' = sr_mounted s"
    "sr_clients s' = (sr_clients s)(sr_clientCount s := connected_client url)" "sr_micro s' = []"
    unfolding assms(4) sr_step_def by (simp_all add: no_micro del: sr_event_act.simps)
qed

section \<open>Reloading the history\<close>

definition open_current :: "sr_state \<Rightarrow> bool" where
  "open_current s \<longleftrightarrow> (\<exists>n m. sr_current s = Some n \<and> rc_socket (sr_clients s n) = Some m
     \<and> rc_ready (sr_clients s n) m = OpenState)"

fun is_history_request :: "sr_effect \<Rightarrow> bool" where
  "is_history_request (ClientIO n (WsSend m f)) \<longleftrightarrow> getp f ''method'' = Some (JStr ''chat.history'')"
| "is_history_request _ \<longleftrightarrow> False"

definition history_requests :: "sr_effect list \<Rightarrow> nat" where
  "history_requests es = length (filter is_history_request es)"

lemma history_requests_simps [simp]:
  "history_requests [] = 0" "history_requests (xs @ ys) = history_requests xs + history_requests ys"
  by (simp_all add: history_requests_def)

definition own_message :: "string \<Rightarrow> json \<Rightarrow> bool" where
  "own_message key f \<longleftrightarrow> getp f ''type'' = Some (JStr ''event'') \<and> getp f ''event'' = Some (JStr ''session.message'')
     \<and> payloadSessionKey (getp f ''payload'') = Some key"

lemma terminal_not_own: "isTerminalRunFrame f \<Longrightarrow> getp f ''type'' = Some (JStr ''event'') \<and> \<not> own_message key f"
  by (auto simp: isTerminalRunFrame_def own_message_def Let_def split: if_splits)

text \<open>A frame of the client, after the run effect gave \<open>activeRunRef\<close> some value.\<close>

definition frame_step :: "string \<Rightarrow> clock \<times> jsval \<times> json \<Rightarrow> sr_act" where
  "frame_step key x = seq (update (\<lambda>s. s\<lparr>sr_activeRun := fst (snd x)\<rparr>)) (handleFrame (fst x) key (snd (snd x)))"

lemma dispatch_state [simp]: "snd (dispatch clk a s) = []" "sr_pendingReload (fst (dispatch clk a s)) = sr_pendingReload s"
  "open_current (fst (dispatch clk a s)) = open_current s" "sr_activeRun (fst (dispatch clk a s)) = sr_activeRun s"
  by (simp_all add: dispatch_def open_current_def)

lemma history_sent:
  assumes "open_current s"
  shows "history_requests (snd (requestHistoryFromCurrentClient clk key r s)) = 1"
    and "open_current (fst (requestHistoryFromCurrentClient clk key r s))"
    and "sr_pendingReload (fst (requestHistoryFromCurrentClient clk key r s)) = sr_pendingReload s"
proof -
  obtain n m where n: "sr_current s = Some n" "rc_socket (sr_clients s n) = Some m" "rc_ready (sr_clients s n) m = OpenState"
    using assms by (auto simp: open_current_def)
  note simps = requestHistoryFromCurrentClient_def n sr_loadHistory_def call_client_def on_client_def rc_request_def
    Let_def dispatch_def
  show "history_requests (snd (requestHistoryFromCurrentClient clk key r s)) = 1"
    using n by (simp add: simps history_requests_def request_frame_fields del: frame_json.simps)
  show "open_current (fst (requestHistoryFromCurrentClient clk key r s))"
    using n by (simp add: simps open_current_def)
  show "sr_pendingReload (fst (requestHistoryFromCurrentClient clk key r s)) = sr_pendingReload s"
    using n by (simp add: simps)
qed

lemma handle_event:
  assumes "getp f ''type'' = Some (JStr ''event'')" and "s1 = fst (dispatch clk (Event f) s)"
  shows "handleFrame clk key f s =
     (if own_message key f
      then (if truthy (sr_activeRun s) then (s1\<lparr>sr_pendingReload := True\<rparr>, [])
            else requestHistoryFromCurrentClient clk key [CHR 0xE6, CHR 0xA3, CHR 0x80, CHR 0xE6, CHR 0xB5,
                CHR 0x8B, CHR 0xE5, CHR 0x88, CHR 0xB0, CHR 0xE4, CHR 0xBC, CHR 0x9A, CHR 0xE8, CHR 0xAF,
                CHR 0x9D, CHR 0xE6, CHR 0xB6, CHR 0x88, CHR 0xE6, CHR 0x81, CHR 0xAF, CHR 0xE6, CHR 0x9B,
                CHR 0xB4, CHR 0xE6, CHR 0x96, CHR 0xB0, CHR 0xEF, CHR 0xBC, CHR 0x8C, CHR 0xE6, CHR 0xAD,
                CHR 0xA3, CHR 0xE5, CHR 0x9C, CHR 0xA8, CHR 0xE5, CHR 0x90, CHR 0x8C, CHR 0xE6, CHR 0xAD,
                CHR 0xA5, CHR 0xE5, CHR 0x8E, CHR 0x86, CHR 0xE5, CHR 0x8F, CHR 0xB2, CHR 0xE2, CHR 0x80,
                CHR 0xA6] s1)
      else if isTerminalRunFrame f \<and> sr_pendingReload s
      then requestHistoryFromCurrentClient clk key [CHR 0xE6, CHR 0xB4, CHR 0xBB, CHR 0xE8, CHR 0xB7,
          CHR 0x83, CHR 0xE8, CHR 0xBF, CHR 0x90, CHR 0xE8, CHR 0xA1, CHR 0x8C, CHR 0xE5, CHR 0xB7,
          CHR 0xB2, CHR 0xE7, CHR 0xBB, CHR 0x93, CHR 0xE6, CHR 0x9D, CHR 0x9F, CHR 0xEF, CHR 0xBC,
          CHR 0x8C, CHR 0xE6, CHR 0xAD, CHR 0xA3, CHR 0xE5, CHR 0x9C, CHR 0xA8, CHR 0xE5, CHR 0x90,
          CHR 0x8C, CHR 0xE6, CHR 0xAD, CHR 0xA5, CHR 0xE5, CHR 0xBB, CHR 0xB6, CHR 0xE8, CHR 0xBF,
          CHR 0x9F, CHR 0xE7, CHR 0x9A, CHR 0x84, CHR 0xE4, CHR 0xBC, CHR 0x9A, CHR 0xE8, CHR 0xAF,
          CHR 0x9D, CHR 0xE6, CHR 0xB6, CHR 0x88, CHR 0xE6, CHR 0x81, CHR 0xAF, CHR 0xE2, CHR 0x80,
          CHR 0xA6]
             (s1\<lparr>sr_pendingReload := False, sr_activeRun := Some JNull\<rparr>)
      else (s1, []))"
proof -
  have own: "getp f ''event'' = Some (JStr ''session.message'') \<and> payloadSessionKey (getp f ''payload'') = Some key
      \<longleftrightarrow> own_message key f"
    using assms(1) by (simp add: own_message_def)
  show ?thesis
    unfolding handleFrame_def Let_def own assms by (simp add: seq_def split_beta)
qed

lemma handle_other:
  "getp f ''type'' \<noteq> Some (JStr ''event'') \<Longrightarrow>
     handleFrame clk key f = skip \<or> (\<exists>x. handleFrame clk key f = dispatch clk x)"
  by (auto simp: handleFrame_def Let_def)

lemma quiet_frame:
  assumes "\<not> own_message key f" and "\<not> isTerminalRunFrame f"
  shows "snd (frame_step key (clk, a, f) s) = []"
    and "open_current (fst (frame_step key (clk, a, f) s)) = open_current s"
    and "sr_pendingReload (fst (frame_step key (clk, a, f) s)) = sr_pendingReload s"
proof -
  let ?s = "s\<lparr>sr_activeRun := a\<rparr>"
  have "handleFrame clk key f ?s = (?s, []) \<or> (\<exists>x. handleFrame clk key f ?s = (fst (dispatch clk x ?s), []))"
  proof (cases "getp f ''type'' = Some (JStr ''event'')")
    case True
    then show ?thesis using assms handle_event [OF True refl, of clk key ?s] by auto
  next
    case False
    have "dispatch clk x ?s = (fst (dispatch clk x ?s), [])" for x by (simp add: dispatch_def)
    with handle_other [OF False, of clk key] show ?thesis by (metis act_simps(1))
  qed
  then show "snd (frame_step key (clk, a, f) s) = []"
    and "open_current (fst (frame_step key (clk, a, f) s)) = open_current s"
    and "sr_pendingReload (fst (frame_step key (clk, a, f) s)) = sr_pendingReload s"
    by (auto simp: frame_step_def) (auto simp: open_current_def)
qed

lemma quiet_frames:
  assumes "\<forall>x\<in>set xs. \<not> own_message key (snd (snd x)) \<and> \<not> isTerminalRunFrame (snd (snd x))"
  shows "snd (for_each (frame_step key) xs s) = []
    \<and> open_current (fst (for_each (frame_step key) xs s)) = open_current s
    \<and> sr_pendingReload (fst (for_each (frame_step key) xs s)) = sr_pendingReload s"
  using assms
proof (induction xs arbitrary: s)
  case (Cons x xs)
  obtain clk a f where x: "x = (clk, a, f)" by (cases x)
  with Cons.prems quiet_frame [of key f] Cons.IH [of "fst (frame_step key x s)"] show ?case by simp
qed simp

lemma own_frame:
  assumes "own_message key f" and "open_current s"
  shows "history_requests (snd (frame_step key (clk, a, f) s)) = (if truthy a then 0 else 1)"
    and "open_current (fst (frame_step key (clk, a, f) s))"
    and "sr_pendingReload (fst (frame_step key (clk, a, f) s)) = (truthy a \<or> sr_pendingReload s)"
proof -
  define s1 where "s1 = fst (dispatch clk (Event f) (s\<lparr>sr_activeRun := a\<rparr>))"
  have s1: "open_current s1" "sr_activeRun s1 = a" "sr_pendingReload s1 = sr_pendingReload s"
    using assms(2) by (simp_all add: s1_def) (simp add: open_current_def)
  have f: "handleFrame clk key f (s\<lparr>sr_activeRun := a\<rparr>) = (if truthy a then (s1\<lparr>sr_pendingReload := True\<rparr>, [])
      else requestHistoryFromCurrentClient clk key [CHR 0xE6, CHR 0xA3, CHR 0x80, CHR 0xE6, CHR 0xB5,
          CHR 0x8B, CHR 0xE5, CHR 0x88, CHR 0xB0, CHR 0xE4, CHR 0xBC, CHR 0x9A, CHR 0xE8, CHR 0xAF,
          CHR 0x9D, CHR 0xE6, CHR 0xB6, CHR 0x88, CHR 0xE6, CHR 0x81, CHR 0xAF, CHR 0xE6, CHR 0x9B,
          CHR 0xB4, CHR 0xE6, CHR 0x96, CHR 0xB0, CHR 0xEF, CHR 0xBC, CHR 0x8C, CHR 0xE6, CHR 0xAD,
          CHR 0xA3, CHR 0xE5, CHR 0x9C, CHR 0xA8, CHR 0xE5, CHR 0x90, CHR 0x8C, CHR 0xE6, CHR 0xAD,
          CHR 0xA5, CHR 0xE5, CHR 0x8E, CHR 0x86, CHR 0xE5, CHR 0x8F, CHR 0xB2, CHR 0xE2, CHR 0x80,
          CHR 0xA6] s1)"
    using assms(1) s1(2) handle_event [of f s1 clk "s\<lparr>sr_activeRun := a\<rparr>" key] by (simp add: s1_def own_message_def)
  show "history_requests (snd (frame_step key (clk, a, f) s)) = (if truthy a then 0 else 1)"
    and "open_current (fst (frame_step key (clk, a, f) s))"
    and "sr_pendingReload (fst (frame_step key (clk, a, f) s)) = (truthy a \<or> sr_pendingReload s)"
    using history_sent [OF s1(1)] s1 by (simp_all add: frame_step_def f) (simp add: open_current_def)
qed

lemma terminal_frame:
  assumes "isTerminalRunFrame f" and "open_current s"
  shows "history_requests (snd (frame_step key (clk, a, f) s)) = (if sr_pendingReload s then 1 else 0)"
    and "\<not> sr_pendingReload (fst (frame_step key (clk, a, f) s))"
proof -
  define s1 where "s1 = fst (dispatch clk (Event f) (s\<lparr>sr_activeRun := a\<rparr>))"
  define s2 where "s2 = s1\<lparr>sr_pendingReload := False, sr_activeRun := Some JNull\<rparr>"
  have s1: "open_current s2" "sr_pendingReload s1 = sr_pendingReload s" "\<not> sr_pendingReload s2"
    using assms(2) by (simp_all add: s1_def s2_def open_current_def dispatch_def)
  have f: "handleFrame clk key f (s\<lparr>sr_activeRun := a\<rparr>) = (if sr_pendingReload s
      then requestHistoryFromCurrentClient clk key [CHR 0xE6, CHR 0xB4, CHR 0xBB, CHR 0xE8, CHR 0xB7,
          CHR 0x83, CHR 0xE8, CHR 0xBF, CHR 0x90, CHR 0xE8, CHR 0xA1, CHR 0x8C, CHR 0xE5, CHR 0xB7,
          CHR 0xB2, CHR 0xE7, CHR 0xBB, CHR 0x93, CHR 0xE6, CHR 0x9D, CHR 0x9F, CHR 0xEF, CHR 0xBC,
          CHR 0x8C, CHR 0xE6, CHR 0xAD, CHR 0xA3, CHR 0xE5, CHR 0x9C, CHR 0xA8, CHR 0xE5, CHR 0x90,
          CHR 0x8C, CHR 0xE6, CHR 0xAD, CHR 0xA5, CHR 0xE5, CHR 0xBB, CHR 0xB6, CHR 0xE8, CHR 0xBF,
          CHR 0x9F, CHR 0xE7, CHR 0x9A, CHR 0x84, CHR 0xE4, CHR 0xBC, CHR 0x9A, CHR 0xE8, CHR 0xAF,
          CHR 0x9D, CHR 0xE6, CHR 0xB6, CHR 0x88, CHR 0xE6, CHR 0x81, CHR 0xAF, CHR 0xE2, CHR 0x80,
          CHR 0xA6] s2 else (s1, []))"
    using assms(1) terminal_not_own [OF assms(1), of key] handle_event [of f s1 clk "s\<lparr>sr_activeRun := a\<rparr>" key]
    by (simp add: s1_def s2_def)
  show "history_requests (snd (frame_step key (clk, a, f) s)) = (if sr_pendingReload s then 1 else 0)"
    and "\<not> sr_pendingReload (fst (frame_step key (clk, a, f) s))"
    using history_sent [OF s1(1)] s1 by (simp_all add: frame_step_def f)
qed

section \<open>Properties\<close>

text \<open>
  C12: the session page never loses its connection for good: with a gateway URL, in every state the
  page reaches while it is mounted, whatever frames, failures, closes, timers, session changes and
  user actions came, either its current client's socket has not closed or the reconnect timer is
  set.
\<close>

theorem session_connection_kept:
  assumes "gateway_url opts = Some url"
    and "s = fst (useSessionRealtime opts key clk evs)" and "sr_mounted s"
  shows "sr_timer s \<noteq> None \<or> (\<exists>n. sr_current s = Some n \<and> n < sr_clientCount s
    \<and> rc_ready (sr_clients s n) 0 \<noteq> ClosedState)"
  using conn_ok_run [OF assms(1), of key clk evs] assms(2,3) by (auto simp: conn_ok_def conn_def)

definition demo_hook :: hook_options where
  "demo_hook = \<lparr>ho_gatewayUrl = Some ''ws://g'', ho_fallbackToMock = None, ho_loadClock = (\<lambda>_. 0)\<rparr>"

definition demo_run :: "sr_event list \<Rightarrow> sr_state" where
  "demo_run evs = fst (useSessionRealtime demo_hook ''a'' (\<lambda>_. 0) (map (Pair (\<lambda>_. 0)) evs))"

lemma session_connection_kept_witness:
  "sr_mounted (demo_run [SocketClosed 0]) \<and> (\<exists>t. sr_timer (demo_run [SocketClosed 0]) = Some t)"
proof -
  have m: "sr_mounted (demo_run [SocketClosed 0])" "sr_current (demo_run [SocketClosed 0]) = Some 0"
    "rc_ready (sr_clients (demo_run [SocketClosed 0]) 0) 0 = ClosedState"
    by code_simp+
  have u: "gateway_url demo_hook = Some ''ws://g''" by (simp add: gateway_url_def demo_hook_def nonempty_def)
  show ?thesis
    using session_connection_kept [OF u demo_run_def [of "[SocketClosed 0]"] m(1)] m by auto
qed

text \<open>
  Changing the session while connected leaves two connections: the old socket's close event
  comes after \<open>closedByUserRef\<close> has been reset for the new session, so it schedules a reconnect of
  the old session's closure; when that timer fires both sockets live, the hook's current client is
  the one of the old session, and leaving the page closes only that one.
\<close>

theorem session_switch_doubles:
  assumes "gateway_url opts = Some url" and "sr_mounted s" and "key \<noteq> sr_key s" and "sr_current s = Some n"
    and "n < sr_clientCount s" and "sr_clientKey s n = sr_key s" and "rc_socket (sr_clients s n) = Some 0"
    and "rc_ready (sr_clients s n) 0 \<in> {Connecting, OpenState}"
    and "rc_pending (sr_clients s n) = []" and "sr_micro s = []"
    and "reduce_all (sr_queue s) (sr_shown s) = Inr v"
    and "s' = fst (for_each (sr_step opts)
           [(clk, SwitchSession key), (clk1, SocketClosed n), (clk2, ReconnectTimer (sr_timerCount s))] s)"
    and "m = sr_clientCount s"
  shows "hook_live s' m \<and> hook_live s' (Suc m) \<and> sr_key s' = key \<and> sr_clientKey s' m = key
    \<and> sr_current s' = Some (Suc m) \<and> sr_clientKey s' (Suc m) = sr_key s
    \<and> (let s'' = fst (sr_step opts (clk3, Unmounted) s') in
        hook_live s'' m \<and> \<not> hook_live s'' (Suc m) \<and> \<not> sr_mounted s'')"
proof -
  define s1 where "s1 = fst (sr_step opts (clk, SwitchSession key) s)"
  note w = switched [OF assms(1-5,7,8,10,11) s1_def]
  define s2 where "s2 = fst (sr_step opts (clk1, SocketClosed n) s1)"
  have c: "rc_ready (sr_clients s1 n) 0 = Closing" "rc_pending (sr_clients s1 n) = []" "n < sr_clientCount s1"
    using w(5,10) assms(5,7-9) by (auto simp: rc_close_def)
  note o = old_socket_closed [OF w(2,6) c(3,1,2) w(9) s2_def]
  define s3 where "s3 = fst (sr_step opts (clk2, ReconnectTimer (sr_timerCount s)) s2)"
  have t: "sr_timer s2 = Some (sr_timerCount s, sr_key s)" using o(1) w(7,8) assms(5,6) by simp
  note r = reconnected [OF assms(1) t o(7) s3_def]
  have s': "s' = s3" unfolding assms(12) s1_def s2_def s3_def by simp
  have cl: "sr_clients s3 m = connected_client url" "sr_clients s3 (Suc m) = connected_client url"
    using r(6) o(4,6) w(5,10) assms(5,13) by auto
  have facts: "sr_clientCount s3 = Suc (Suc m)" "sr_mounted s3" "sr_current s3 = Some (Suc m)" "sr_micro s3 = []"
    using r o w assms(13) by simp_all
  define s4 where "s4 = fst (sr_step opts (clk3, Unmounted) s3)"
  have socket: "rc_socket (sr_clients s3 (Suc m)) = Some 0"
    unfolding cl by (simp add: connected_client_def rc_connect_def new_client_def)
  have "snd (rc_close (sr_clients s3 (Suc m))) = [WsClose 0]" using socket by (simp add: rc_close_def)
  then have "sr_micro (fst (hook_unmount s3)) = [] \<and> \<not> sr_mounted (fst (hook_unmount s3))
      \<and> sr_clientCount (fst (hook_unmount s3)) = sr_clientCount s3
      \<and> sr_clients (fst (hook_unmount s3)) = (sr_clients s3)(Suc m := fst (rc_close (sr_clients s3 (Suc m))))"
    using facts by (cases "sr_timer s3") (simp_all add: hook_unmount_def hook_defs Let_def split_beta)
  then have u: "\<not> sr_mounted s4" "sr_clientCount s4 = Suc (Suc m)"
    "sr_clients s4 = (sr_clients s3)(Suc m := fst (rc_close (sr_clients s3 (Suc m))))"
    unfolding s4_def sr_step_def using facts by (simp_all add: no_micro)
  have "rc_ready (fst (rc_close (sr_clients s3 (Suc m)))) 0 = Closing"
    using socket cl by (simp add: rc_close_def)
  with u cl have "hook_live s4 m \<and> \<not> hook_live s4 (Suc m) \<and> \<not> sr_mounted s4"
    by (simp add: hook_live_def)
  moreover have "hook_live s3 m" "hook_live s3 (Suc m)"
    using cl facts by (simp_all add: hook_live_def)
  ultimately show ?thesis
    unfolding s' Let_def s4_def [symmetric] using r o w facts assms(13) by simp
qed

lemma session_switch_doubles_witness:
  "hook_live (demo_run [SwitchSession ''b'', SocketClosed 0, ReconnectTimer 0]) 1
   \<and> hook_live (demo_run [SwitchSession ''b'', SocketClosed 0, ReconnectTimer 0]) 2
   \<and> sr_clientKey (demo_run [SwitchSession ''b'', SocketClosed 0, ReconnectTimer 0]) 2 = ''a''"
proof -
  let ?s = "demo_run []"
  have u: "gateway_url demo_hook = Some ''ws://g''" by (simp add: gateway_url_def demo_hook_def nonempty_def)
  have f: "sr_mounted ?s" "''b'' \<noteq> sr_key ?s" "sr_current ?s = Some 0" "0 < sr_clientCount ?s"
    "sr_clientKey ?s 0 = sr_key ?s" "rc_socket (sr_clients ?s 0) = Some 0"
    "rc_ready (sr_clients ?s 0) 0 \<in> {Connecting, OpenState}" "rc_pending (sr_clients ?s 0) = []" "sr_micro ?s = []"
    "sr_clientCount ?s = 1" "sr_timerCount ?s = 0" "sr_key ?s = ''a''"
    by code_simp+
  have "isl (reduce_all (sr_queue ?s) (sr_shown ?s)) = False" by code_simp
  then obtain v where v: "reduce_all (sr_queue ?s) (sr_shown ?s) = Inr v"
    by (cases "reduce_all (sr_queue ?s) (sr_shown ?s)") auto
  have "demo_run [SwitchSession ''b'', SocketClosed 0, ReconnectTimer 0] = fst (for_each (sr_step demo_hook)
      [((\<lambda>_. 0), SwitchSession ''b''), ((\<lambda>_. 0), SocketClosed 0), ((\<lambda>_. 0), ReconnectTimer (sr_timerCount ?s))] ?s)"
    unfolding f(11) by (simp add: demo_run_def useSessionRealtime_def del: for_each.simps) simp
  from session_switch_doubles [OF u f(1-9) v this f(10) [symmetric]] show ?thesis
    unfolding f(12) by (simp add: numeral_2_eq_2)
qed

text \<open>
  A new message of the session is fetched exactly once: between its \<open>session.message\<close> event and
  the end of a run, whatever other frames come between and whatever runs the page believed active
  at each of them, the current client sends exactly one \<open>chat.history\<close> request: at once when no run
  is active, and otherwise at the frame that ends the run.
\<close>

theorem message_reload_once:
  assumes "open_current s" and "\<not> sr_pendingReload s" and "own_message key f1" and "isTerminalRunFrame f2"
    and "\<forall>x\<in>set mid. \<not> own_message key (snd (snd x)) \<and> \<not> isTerminalRunFrame (snd (snd x))"
  shows "history_requests (snd (for_each (frame_step key) ((clk1, a1, f1) # mid @ [(clk2, a2, f2)]) s)) = 1
    \<and> history_requests (snd (frame_step key (clk1, a1, f1) s)) = (if truthy a1 then 0 else 1)
    \<and> \<not> sr_pendingReload (fst (for_each (frame_step key) ((clk1, a1, f1) # mid @ [(clk2, a2, f2)]) s))"
proof -
  have app: "for_each g (xs @ ys) s = seq (for_each g xs) (for_each g ys) s"
    for g :: "clock \<times> jsval \<times> json \<Rightarrow> sr_act" and xs ys s
    by (induction xs arbitrary: s) (simp_all add: seq_def split_beta)
  let ?s1 = "fst (frame_step key (clk1, a1, f1) s)"
  let ?s2 = "fst (for_each (frame_step key) mid ?s1)"
  note o = own_frame [OF assms(3,1), of clk1 a1]
  have q: "snd (for_each (frame_step key) mid ?s1) = []" "open_current ?s2"
    "sr_pendingReload ?s2 = truthy a1"
    using quiet_frames [OF assms(5), of ?s1] o assms(2) by auto
  show ?thesis
    using o q terminal_frame [OF assms(4) q(2), of key clk2 a2] by (simp add: app)
qed

lemma message_reload_once_witness:
  "history_requests (snd (for_each (frame_step ''a'')
      [(\<lambda>_. 0, Some (JStr ''run-1''), mock_event ''session.message'' 1 [(''sessionKey'', JStr ''a'')]),
       (\<lambda>_. 0, Some (JStr ''run-1''), mock_event ''tick'' 2 []),
       (\<lambda>_. 0, Some (JStr ''run-1''), mock_event ''chat'' 3 [(''state'', JStr ''final'')])]
      (demo_run [SocketOpened 0]))) = 1"
proof -
  let ?s = "demo_run [SocketOpened 0]"
  have "sr_current ?s = Some 0" "rc_socket (sr_clients ?s 0) = Some 0" "rc_ready (sr_clients ?s 0) 0 = OpenState"
    by code_simp+
  then have o: "open_current ?s" by (simp add: open_current_def)
  have p: "\<not> sr_pendingReload ?s" by code_simp
  have f: "own_message ''a'' (mock_event ''session.message'' 1 [(''sessionKey'', JStr ''a'')])"
    "isTerminalRunFrame (mock_event ''chat'' 3 [(''state'', JStr ''final'')])"
    "\<not> own_message ''a'' (mock_event ''tick'' 2 [])" "\<not> isTerminalRunFrame (mock_event ''tick'' 2 [])"
    by code_simp+
  show ?thesis
    using message_reload_once [OF o p f(1,2), where mid = "[(\<lambda>_. 0, Some (JStr ''run-1''), mock_event ''tick'' 2 [])]"
      and ?clk1.0 = "\<lambda>_. 0" and ?a1.0 = "Some (JStr ''run-1'')" and ?clk2.0 = "\<lambda>_. 0" and ?a2.0 = "Some (JStr ''run-1'')"]
      f(3,4) by (simp del: for_each.simps)
qed

end
