(* ===== verification/EndToEnd.thy ===== *)
theory EndToEnd
  imports SessionRealtime
begin

text \<open>
  The chain of the session page: its hook, the browser's client, the realtime gateway, the
  connection to OpenClaw, and back. Frames travel between the processes as JSON texts, so each
  side gets the other's frame as \<open>json_wire\<close> of what was sent.
\<close>

section \<open>Frames on the wire\<close>

lemma request_on_wire:
  "isRequestFrame (json_wire (frame_json (RequestF rf))) = Some (rf\<lparr>rf_payload := map_option json_wire (rf_payload rf)\<rparr>)"
proof -
  obtain kvs where k: "frame_json (RequestF rf) = JObj kvs" using frame_object by blast
  have "is_object (Some (json_wire (frame_json (RequestF rf))))" by (simp add: k del: frame_json.simps)
  then show ?thesis
    by (simp add: isRequestFrame_def getp_wire request_frame_fields del: frame_json.simps)
qed

text \<open>A client that gets the answer to its call \<open>k\<close>.\<close>

lemma client_answered:
  assumes "map_of (rc_pending c) (sf_id r) = Some k" and "sf_ok r"
  shows "rc_message (Some (json_wire (frame_json (ResponseF r)))) c
    = (c\<lparr>rc_pending := AList.delete (sf_id r) (rc_pending c)\<rparr>,
       [RcSettle k (Inr (map_option json_wire (sf_payload r))), OnFrame (json_wire (frame_json (ResponseF r)))])"
proof -
  let ?v = "json_wire (frame_json (ResponseF r))"
  have f: "getp ?v ''type'' = Some (JStr ''res'')" "as_str (getp ?v ''id'') = Some (sf_id r)"
    "truthy (getp ?v ''ok'')" "getp ?v ''payload'' = map_option json_wire (sf_payload r)"
    using assms(2) by (simp_all add: getp_wire response_frame_fields del: frame_json.simps)
  have "rc_message (Some ?v) c = act_all
      [skip, resolvePending ?v, skip, skip, emit [OnFrame ?v]] c"
    using frame_object [of "ResponseF r"] f(1) by (auto simp: rc_message_def Let_def simp del: frame_json.simps)
  then show ?thesis
    using assms(1) f by (simp add: resolvePending_def response_result_def seq_def del: frame_json.simps)
qed

lemma request_made:
  assumes "rc_socket c = Some n" and "rc_ready c n = OpenState"
  shows "rc_request k m (Some p) now c =
     (c\<lparr>rc_requestId := Suc (rc_requestId c),
        rc_pending := AList.update (request_id now (Suc (rc_requestId c))) k (rc_pending c)\<rparr>,
      [WsSend n (frame_json (RequestF \<lparr>rf_id = request_id now (Suc (rc_requestId c)), rf_method = m,
         rf_payload = Some p\<rparr>))])"
  using assms by (simp add: rc_request_def Let_def seq_def)

section \<open>The page asks for the history\<close>

lemma history_asked:
  assumes "sr_current h = Some m" and "rc_socket (sr_clients h m) = Some 0"
    and "rc_ready (sr_clients h m) 0 = OpenState" and "sr_micro h = []"
    and "c = sr_clients h m" and "rid = request_id (nat (clk 0)) (Suc (rc_requestId c))"
    and "h1 = fst (sr_step opts (clk, LoadHistory) h)"
  shows "snd (sr_step opts (clk, LoadHistory) h) = [ClientIO m (WsSend 0 (frame_json (RequestF
        \<lparr>rf_id = rid, rf_method = ''chat.history'', rf_payload = Some (history_payload (sr_key h))\<rparr>)))]"
    and "sr_clients h1 m = c\<lparr>rc_requestId := Suc (rc_requestId c), rc_pending := AList.update rid (sr_nextCall h) (rc_pending c)\<rparr>"
    and "map_of (sr_calls h1) (sr_nextCall h) = Some ManualUse" and "sr_micro h1 = []" and "sr_queue h1 = sr_queue h"
    and "sr_clientCount h1 = sr_clientCount h" and "sr_mounted h1 = sr_mounted h"
    and "sr_shown h1 = sr_shown h"
proof -
  note r = request_made [OF assms(2,3)]
  have a: "sr_event_act opts clk LoadHistory h = (h\<lparr>sr_nextCall := Suc (sr_nextCall h),
      sr_calls := (sr_nextCall h, ManualUse) # sr_calls h,
      sr_clients := (sr_clients h)(m := c\<lparr>rc_requestId := Suc (rc_requestId c),
        rc_pending := AList.update rid (sr_nextCall h) (rc_pending c)\<rparr>)\<rparr>,
      [ClientIO m (WsSend 0 (frame_json (RequestF
        \<lparr>rf_id = rid, rf_method = ''chat.history'', rf_payload = Some (history_payload (sr_key h))\<rparr>)))])"
    using assms(1,4-6) r
    by (simp add: loadHistory_returned_def sr_loadHistory_def call_client_def on_client_def Let_def seq_def
        del: frame_json.simps)
  have "sr_step opts (clk, LoadHistory) h = sr_event_act opts clk LoadHistory h"
    unfolding sr_step_def using a assms(4) by (simp add: seq_def run_micro_def del: frame_json.simps sr_event_act.simps)
  then show "snd (sr_step opts (clk, LoadHistory) h) = [ClientIO m (WsSend 0 (frame_json (RequestF
        \<lparr>rf_id = rid, rf_method = ''chat.history'', rf_payload = Some (history_payload (sr_key h))\<rparr>)))]"
    and "sr_clients h1 m = c\<lparr>rc_requestId := Suc (rc_requestId c), rc_pending := AList.update rid (sr_nextCall h) (rc_pending c)\<rparr>"
    and "map_of (sr_calls h1) (sr_nextCall h) = Some ManualUse" and "sr_micro h1 = []" and "sr_queue h1 = sr_queue h"
    and "sr_clientCount h1 = sr_clientCount h" and "sr_mounted h1 = sr_mounted h"
    and "sr_shown h1 = sr_shown h"
    unfolding assms(7) using a assms(4) by simp_all
qed

lemma history_arrives:
  assumes "m < sr_clientCount h" and "rc_ready (sr_clients h m) 0 = OpenState" and "sr_mounted h" and "sr_micro h = []"
    and "map_of (rc_pending (sr_clients h m)) (sf_id r) = Some k" and "map_of (sr_calls h) k = Some ManualUse"
    and "sf_ok r"
    and "h' = fst (sr_step opts (clk, sr_event.SocketMessage m (Some (json_wire (frame_json (ResponseF r))))) h)"
  shows "sr_queue h' = sr_queue h @ [(clk, HistoryLoaded (toHistoryMessages (map_option json_wire (sf_payload r))))]"
    and "sr_shown h' = sr_shown h" and "sr_mounted h'" and "sr_micro h' = []"
proof -
  let ?v = "json_wire (frame_json (ResponseF r))"
  have "getp ?v ''type'' = Some (JStr ''res'')"
    by (simp add: getp_wire response_frame_fields del: frame_json.simps)
  then have f: "handleFrame clk key ?v = skip" for key by (simp add: handleFrame_def Let_def del: frame_json.simps)
  define h1 where "h1 = fst (sr_event_act opts clk (sr_event.SocketMessage m (Some ?v)) h)"
  have h1: "sr_queue h1 = sr_queue h" "sr_micro h1 = [(k, Inr (map_option json_wire (sf_payload r)))]"
    "sr_calls h1 = sr_calls h" "sr_mounted h1" "sr_shown h1 = sr_shown h"
    using assms client_answered [OF assms(5,7)] f
    by (simp_all add: h1_def client_event_def on_client_def Let_def del: frame_json.simps)
  then show "sr_queue h' = sr_queue h @ [(clk, HistoryLoaded (toHistoryMessages (map_option json_wire (sf_payload r))))]"
    and "sr_shown h' = sr_shown h" and "sr_mounted h'" and "sr_micro h' = []"
    using assms(6) unfolding assms(8) sr_step_def fst_seq fst_conv snd_conv h1_def [symmetric]
    by (simp_all add: run_micro_def settle_first_def settle_late_def dispatch_def)
qed

text \<open>A render that has nothing before it that fails shows the history.\<close>

lemma history_rendered:
  assumes "sr_mounted h" and "sr_queue h = q @ [(clk, HistoryLoaded ms)]" and "reduce_all q (sr_shown h) = Inr v"
    and "sr_micro h = []"
  shows "chatMessages (sr_shown (fst (sr_step opts (clk', Rendered) h))) = ms"
proof -
  have "reduce_all (sr_queue h) (sr_shown h) = Inr (v\<lparr>chatMessages := ms, chatLoading := False,
      connectionStatus := CConnected, lastError := None\<rparr>)"
    unfolding assms(2) by (simp add: reduce_all_append assms(3) realtimeReducer_def)
  then have "chatMessages (sr_shown (fst (sr_event_act opts clk' Rendered h))) = ms
      \<and> sr_micro (fst (sr_event_act opts clk' Rendered h)) = []"
    using assms(1,2,4) by (simp add: render_def run_effect_def)
  then show ?thesis
    unfolding sr_step_def fst_seq fst_conv snd_conv by (simp add: no_micro del: sr_event_act.simps)
qed

section \<open>Properties\<close>

text \<open>
  C2: the history of a session, from the page to OpenClaw and back into the page: with every
  connection open, the page's reload sends one frame, on which the gateway sends exactly one frame
  to OpenClaw, a \<open>chat.history\<close> request for the page's session, and none to a browser; OpenClaw's
  answer to it causes exactly one frame, to that browser, and none to OpenClaw; and the next render
  shows exactly the messages of the answer.
\<close>

theorem history_end_to_end:
  assumes "sr_mounted h" and "sr_micro h = []" and "sr_current h = Some m" and "m < sr_clientCount h"
    and "rc_socket (sr_clients h m) = Some 0" and "rc_ready (sr_clients h m) 0 = OpenState"
    and "reduce_all (sr_queue h) (sr_shown h) = Inr v"
    and "truthy (gs_hello (bk_source g))" and "gs_socket (bk_source g) = Some n"
    and "gs_ready (bk_source g) n = OpenState" and "go_backend gopts = SourceBackend"
    and "rg_contexts (bk_gateway g) c = Some ctx" and "calls_ok (bk_gateway g)"
    and "i = ''chat.history:'' @ uuid" and "i \<notin> fst ` set (gs_pending (bk_source g))"
    and "gs_connectRequestId (bk_source g) \<noteq> Some i"
    and "h1 = fst (sr_step opts (clk1, LoadHistory) h)"
  shows "\<exists>f r. snd (sr_step opts (clk1, LoadHistory) h) = [ClientIO m (WsSend 0 f)]
    \<and> (let g1 = client_side gopts oc clk uuid (ClientMessage c (Some (json_wire f))) g;
           answer = source_side gopts oc clk (gs_event.SocketMessage n (Some (res_json i p)) u) (fst g1);
           h2 = fst (sr_step opts (clk2, sr_event.SocketMessage m (Some (json_wire (frame_json r)))) h1)
       in sent_upstream (snd g1) = [(n, request_json i ''chat.history'' (Some (history_payload (sr_key h))))]
        \<and> sent_to_clients (snd g1) = [] \<and> sent_upstream (snd answer) = []
        \<and> sent_to_clients (snd answer) = [(c, r)]
        \<and> chatMessages (sr_shown (fst (sr_step opts (clk3, Rendered) h2))) = toHistoryMessages (Some (json_wire p)))"
proof -
  define rid where "rid = request_id (nat (clk1 0)) (Suc (rc_requestId (sr_clients h m)))"
  define rf where "rf = \<lparr>rf_id = rid, rf_method = ''chat.history'', rf_payload = Some (history_payload (sr_key h))\<rparr>"
  define r where "r = \<lparr>sf_id = rid, sf_ok = True, sf_payload = Some p, sf_error = None\<rparr>"
  note asked = history_asked [where opts = opts and clk = clk1, OF assms(3,5,6,2) refl rid_def assms(17)]
  have wire: "isRequestFrame (json_wire (frame_json (RequestF rf))) = Some rf"
    using request_on_wire [of rf] by (simp add: rf_def history_payload_def del: frame_json.simps)
  have i: "i = rf_method rf @ '':'' @ uuid" using assms(14) by (simp add: rf_def)
  note gate = gateway_roundtrip [OF assms(8-12) wire assms(13) i assms(15,16), of oc clk p u]
  define h2 where "h2 = fst (sr_step opts (clk2, sr_event.SocketMessage m (Some (json_wire (frame_json (ResponseF r))))) h1)"
  have h1: "m < sr_clientCount h1" "rc_ready (sr_clients h1 m) 0 = OpenState" "sr_mounted h1" "sr_micro h1 = []"
    "map_of (rc_pending (sr_clients h1 m)) (sf_id r) = Some (sr_nextCall h)" "sf_ok r"
    using asked assms(1,4,6) by (simp_all add: r_def map_of_update_eq)
  note arrived = history_arrives [OF h1(1-5) asked(3) h1(6) h2_def]
  have "chatMessages (sr_shown (fst (sr_step opts (clk3, Rendered) h2))) = toHistoryMessages (Some (json_wire p))"
    using history_rendered [OF arrived(3,1), where opts = opts and clk' = clk3 and v = v] arrived(2,4) asked(5,8) assms(7) by (simp add: r_def)
  then show ?thesis
    using gate asked(1) by (intro exI [of _ "frame_json (RequestF rf)"] exI [of _ "ResponseF r"])
      (simp add: Let_def h2_def r_def rf_def del: frame_json.simps)
qed

lemma history_end_to_end_witness:
  "\<exists>f r. snd (sr_step demo_hook (\<lambda>_. 0, LoadHistory) (demo_run [sr_event.SocketOpened 0])) = [ClientIO 0 (WsSend 0 f)]
    \<and> chatMessages (sr_shown (fst (sr_step demo_hook (\<lambda>_. 0, Rendered) (fst (sr_step demo_hook
        (\<lambda>_. 0, sr_event.SocketMessage 0 (Some (json_wire (frame_json r))))
        (fst (sr_step demo_hook (\<lambda>_. 0, LoadHistory) (demo_run [sr_event.SocketOpened 0]))))))))
      = [\<lparr>cm_id = ''history:0'', cm_role = RoleUser, cm_text = ''hi''\<rparr>]"
proof -
  let ?h = "demo_run [sr_event.SocketOpened 0]"
  let ?p = "JObj [(''items'', JArr [JObj [(''role'', JStr ''user''), (''text'', JStr ''hi'')]])]"
  have h: "sr_mounted ?h" "sr_micro ?h = []" "sr_current ?h = Some 0" "0 < sr_clientCount ?h"
    "rc_socket (sr_clients ?h 0) = Some 0" "rc_ready (sr_clients ?h 0) 0 = OpenState"
    by code_simp+
  have "isl (reduce_all (sr_queue ?h) (sr_shown ?h)) = False" by code_simp
  then obtain v where v: "reduce_all (sr_queue ?h) (sr_shown ?h) = Inr v"
    by (cases "reduce_all (sr_queue ?h) (sr_shown ?h)") auto
  have g: "truthy (gs_hello (bk_source demo_backed))" "gs_socket (bk_source demo_backed) = Some 0"
    "gs_ready (bk_source demo_backed) 0 = OpenState" "go_backend demo_options = SourceBackend"
    "rg_contexts (bk_gateway demo_backed) 0 = Some (resolveClientContext demo_options None ''u'' ''t'')"
    "calls_ok (bk_gateway demo_backed)" "''chat.history:77'' = ''chat.history:'' @ ''77''"
    "''chat.history:77'' \<notin> fst ` set (gs_pending (bk_source demo_backed))"
    "gs_connectRequestId (bk_source demo_backed) \<noteq> Some ''chat.history:77''"
    by (simp_all add: demo_backed_def demo_options_def calls_ok_def new_gateway_def new_source_def)
  have m: "toHistoryMessages (Some (json_wire ?p)) = [\<lparr>cm_id = ''history:0'', cm_role = RoleUser, cm_text = ''hi''\<rparr>]"
    by code_simp
  show ?thesis
    using history_end_to_end [OF h v g refl, where opts = demo_hook and p = ?p and u = "''x''" and clk = "\<lambda>_. 0"
      and ?clk1.0 = "\<lambda>_. 0" and ?clk2.0 = "\<lambda>_. 0" and ?clk3.0 = "\<lambda>_. 0" and oc = no_options]
    unfolding m Let_def by blast
qed

end
