(* ===== verification/OpenClawText.thy ===== *)
theory OpenClawText
  imports Config
begin

text \<open>
  The string coercions that the OpenClaw gateway shares
  (openclaw/src/shared/string-coerce.ts), on optional texts. Lower-casing is that of ASCII.
\<close>

definition normalizeNullableString :: "string option \<Rightarrow> string option" where
  "normalizeNullableString v =
     (case v of None \<Rightarrow> None | Some s \<Rightarrow> let t = trim s in if t = [] then None else Some t)"

definition normalizeOptionalString :: "string option \<Rightarrow> string option" where
  "normalizeOptionalString v = normalizeNullableString v"

definition normalizeOptionalLowercaseString :: "string option \<Rightarrow> string option" where
  "normalizeOptionalLowercaseString v = map_option ascii_lower (normalizeOptionalString v)"

definition normalizeLowercaseStringOrEmpty :: "string option \<Rightarrow> string" where
  "normalizeLowercaseStringOrEmpty v = nullish (normalizeOptionalLowercaseString v) []"

text \<open>An optional text in a condition: JavaScript reads the empty text as false.\<close>

definition truthy_string :: "string option \<Rightarrow> bool" where
  "truthy_string s \<longleftrightarrow> s \<noteq> None \<and> s \<noteq> Some []"

lemma truthy_string_simps [simp]: "\<not> truthy_string None" "truthy_string (Some s) \<longleftrightarrow> s \<noteq> []"
  by (simp_all add: truthy_string_def)

lemma normalizeOptionalString_truthy [simp]:
  "truthy_string (normalizeOptionalString v) \<longleftrightarrow> normalizeOptionalString v \<noteq> None"
  by (simp add: normalizeOptionalString_def normalizeNullableString_def Let_def split: option.split)

end
