(* ===== verification/ExecApprovals.thy ===== *)
theory ExecApprovals
  imports Effects OpenClawText
begin

text \<open>
  The approval manager of the OpenClaw gateway (openclaw/src/gateway/exec-approval-manager.ts),
  whose requests and decisions the product shows as approvals. Promises and timers are numbered;
  an entry of the table is told apart from a later one under the same id by its promise. The
  request is any value. Ids that are lowercased are ASCII texts. Who asked is filled in by the
  handlers between creation and registration and is not read here.
\<close>

section \<open>State\<close>

datatype approval_decision = AllowOnce | AllowAlways | Deny

record 'p approval_record =
  ar_id :: string
  ar_request :: 'p
  ar_createdAtMs :: int
  ar_expiresAtMs :: int
  ar_requestedByConnId :: "string option"
  ar_requestedByDeviceId :: "string option"
  ar_requestedByClientId :: "string option"
  ar_resolvedAtMs :: "int option"
  ar_decision :: "approval_decision option"
  ar_resolvedBy :: "string option"

record 'p pending_entry =
  pe_record :: "'p approval_record"
  pe_promise :: nat
  pe_timer :: nat

datatype approval_timer = ExpireTimer string | GraceTimer string nat

record 'p approval_manager =
  am_pending :: "(string \<times> 'p pending_entry) list"
  am_timers :: "(nat \<times> approval_timer) list"
  am_timerCount :: nat
  am_promiseCount :: nat

datatype approval_effect =
    SettleApproval nat "approval_decision option"
  | SetApprovalTimer nat int
  | ClearApprovalTimer nat

type_synonym 'p am_act = "('p approval_manager, approval_effect) act"

definition new_manager :: "'p approval_manager" where
  "new_manager = \<lparr>am_pending = [], am_timers = [], am_timerCount = 0, am_promiseCount = 0\<rparr>"

section \<open>Operations\<close>

text \<open>\<open>uuid\<close> is what \<open>randomUUID()\<close> returns.\<close>

definition create_approval :: "string \<Rightarrow> int \<Rightarrow> 'p \<Rightarrow> int \<Rightarrow> string option \<Rightarrow> 'p approval_record" where
  "create_approval uuid now request timeoutMs i =
     \<lparr>ar_id = (case i of Some x \<Rightarrow> if trim x \<noteq> [] then trim x else uuid | None \<Rightarrow> uuid),
      ar_request = request, ar_createdAtMs = now, ar_expiresAtMs = now + timeoutMs,
      ar_requestedByConnId = None, ar_requestedByDeviceId = None, ar_requestedByClientId = None,
      ar_resolvedAtMs = None, ar_decision = None, ar_resolvedBy = None\<rparr>"

definition add_entry :: "'p approval_record \<Rightarrow> int \<Rightarrow> 'p am_act" where
  "add_entry rec timeoutMs = with_state (\<lambda>s. seq
     (emit [SetApprovalTimer (am_timerCount s) timeoutMs])
     (update (\<lambda>s. s\<lparr>
        am_timers := am_timers s @ [(am_timerCount s, ExpireTimer (ar_id rec))],
        am_pending := am_pending s @ [(ar_id rec,
          \<lparr>pe_record = rec, pe_promise = am_promiseCount s, pe_timer = am_timerCount s\<rparr>)],
        am_timerCount := Suc (am_timerCount s), am_promiseCount := Suc (am_promiseCount s)\<rparr>)))"

text \<open>The promise of a registration, or the error it throws.\<close>

definition register_result :: "'p approval_record \<Rightarrow> 'p approval_manager \<Rightarrow> js_error + nat" where
  "register_result rec s =
     (case map_of (am_pending s) (ar_id rec) of
        Some e \<Rightarrow> if ar_resolvedAtMs (pe_record e) = None then Inr (pe_promise e)
                 else Inl (PlainError (''approval id '' @ [CHR 0x27] @ ar_id rec @ [CHR 0x27] @ '' already resolved''))
      | None \<Rightarrow> Inr (am_promiseCount s))"

definition register_approval :: "'p approval_record \<Rightarrow> int \<Rightarrow> 'p am_act" where
  "register_approval rec timeoutMs = with_state (\<lambda>s.
     case map_of (am_pending s) (ar_id rec) of Some e \<Rightarrow> skip | None \<Rightarrow> add_entry rec timeoutMs)"

text \<open>An unresolved entry under the id: what \<open>resolve\<close> and \<open>expire\<close> need to return true.\<close>

definition unresolved :: "'p approval_manager \<Rightarrow> string \<Rightarrow> 'p pending_entry option" where
  "unresolved s i = (case map_of (am_pending s) i of
     Some e \<Rightarrow> if ar_resolvedAtMs (pe_record e) = None then Some e else None | None \<Rightarrow> None)"

definition settle_entry :: "string \<Rightarrow> approval_decision option \<Rightarrow> string option \<Rightarrow> int \<Rightarrow> 'p am_act" where
  "settle_entry i decision by now = with_state (\<lambda>s.
     case unresolved s i of
       None \<Rightarrow> skip
     | Some e \<Rightarrow>
         (let rec = (pe_record e)\<lparr>ar_resolvedAtMs := Some now, ar_decision := decision, ar_resolvedBy := by\<rparr> in seq
           (update (\<lambda>s. s\<lparr>
              am_pending := AList.update i (e\<lparr>pe_record := rec\<rparr>) (am_pending s),
              am_timers := AList.delete (pe_timer e) (am_timers s) @ [(am_timerCount s, GraceTimer i (pe_promise e))],
              am_timerCount := Suc (am_timerCount s)\<rparr>))
           (emit [ClearApprovalTimer (pe_timer e), SettleApproval (pe_promise e) decision,
                  SetApprovalTimer (am_timerCount s) 15000])))"

definition resolve_approval :: "string \<Rightarrow> approval_decision \<Rightarrow> string option \<Rightarrow> int \<Rightarrow> 'p am_act" where
  "resolve_approval i decision by now = settle_entry i (Some decision) by now"

definition expire_approval :: "string \<Rightarrow> string option \<Rightarrow> int \<Rightarrow> 'p am_act" where
  "expire_approval i by now = settle_entry i None by now"

definition resolve_result :: "'p approval_manager \<Rightarrow> string \<Rightarrow> bool" where
  "resolve_result s i \<longleftrightarrow> unresolved s i \<noteq> None"

definition getSnapshot_approval :: "'p approval_manager \<Rightarrow> string \<Rightarrow> 'p approval_record option" where
  "getSnapshot_approval s i = map_option pe_record (map_of (am_pending s) i)"

definition listPendingRecords :: "'p approval_manager \<Rightarrow> 'p approval_record list" where
  "listPendingRecords s = filter (\<lambda>r. ar_resolvedAtMs r = None) (map (pe_record \<circ> snd) (am_pending s))"

definition consume_result :: "'p approval_manager \<Rightarrow> string \<Rightarrow> bool" where
  "consume_result s i \<longleftrightarrow> (case map_of (am_pending s) i of
     None \<Rightarrow> False | Some e \<Rightarrow> ar_decision (pe_record e) = Some AllowOnce)"

definition consumeAllowOnce :: "string \<Rightarrow> 'p am_act" where
  "consumeAllowOnce i = with_state (\<lambda>s.
     case map_of (am_pending s) i of
       None \<Rightarrow> skip
     | Some e \<Rightarrow>
         if ar_decision (pe_record e) \<noteq> Some AllowOnce then skip
         else update (\<lambda>s. s\<lparr>am_pending :=
           AList.update i (e\<lparr>pe_record := (pe_record e)\<lparr>ar_decision := None\<rparr>\<rparr>) (am_pending s)\<rparr>))"

definition awaitDecision :: "'p approval_manager \<Rightarrow> string \<Rightarrow> nat option" where
  "awaitDecision s i = map_option pe_promise (map_of (am_pending s) i)"

datatype id_lookup = Exact string | Prefix string | Ambiguous "string list" | NoMatch

definition prefix_matches :: "'p approval_manager \<Rightarrow> string \<Rightarrow> string list" where
  "prefix_matches s lowerPrefix = map fst (filter (\<lambda>(i, e). ar_resolvedAtMs (pe_record e) = None
     \<and> take (length lowerPrefix) (normalizeLowercaseStringOrEmpty (Some i)) = lowerPrefix) (am_pending s))"

definition lookupPendingId :: "'p approval_manager \<Rightarrow> string \<Rightarrow> id_lookup" where
  "lookupPendingId s input =
     (let normalized = trim input in
      if normalized = [] then NoMatch
      else case map_of (am_pending s) normalized of
        Some e \<Rightarrow> if ar_resolvedAtMs (pe_record e) = None then Exact normalized else NoMatch
      | None \<Rightarrow>
          (case prefix_matches s (normalizeLowercaseStringOrEmpty (Some normalized)) of
             [] \<Rightarrow> NoMatch
           | [i] \<Rightarrow> Prefix i
           | is \<Rightarrow> Ambiguous is))"

section \<open>Steps\<close>

text \<open>
  The timer with number \<open>t\<close> fires: an expiry, or the end of the time for which a resolved entry
  is kept, which removes it unless it has been replaced.
\<close>

definition approval_timer_fired :: "nat \<Rightarrow> int \<Rightarrow> 'p am_act" where
  "approval_timer_fired t now = with_state (\<lambda>s.
     case map_of (am_timers s) t of
       None \<Rightarrow> skip
     | Some use \<Rightarrow> seq (update (\<lambda>s. s\<lparr>am_timers := AList.delete t (am_timers s)\<rparr>))
         (case use of
            ExpireTimer i \<Rightarrow> expire_approval i None now
          | GraceTimer i k \<Rightarrow> update (\<lambda>s.
              if map_option pe_promise (map_of (am_pending s) i) = Some k
              then s\<lparr>am_pending := AList.delete i (am_pending s)\<rparr> else s)))"

datatype 'p approval_event =
    RegisterNew string int 'p int "string option"
  | ResolveApproval string approval_decision "string option" int
  | ExpireApproval string "string option" int
  | ConsumeAllowOnce string
  | ApprovalTimer nat int

fun am_step :: "'p approval_event \<Rightarrow> 'p am_act" where
  "am_step (RegisterNew uuid now request timeoutMs i) =
     register_approval (create_approval uuid now request timeoutMs i) timeoutMs"
| "am_step (ResolveApproval i decision by now) = resolve_approval i decision by now"
| "am_step (ExpireApproval i by now) = expire_approval i by now"
| "am_step (ConsumeAllowOnce i) = consumeAllowOnce i"
| "am_step (ApprovalTimer t now) = approval_timer_fired t now"

definition am_run :: "'p approval_event list \<Rightarrow> 'p am_act" where
  "am_run evs = for_each am_step evs"

section \<open>The table\<close>

text \<open>
  What holds of every reachable state: ids are distinct, timers have been given out, an
  unresolved entry has its expiry timer armed, and a resolved one the timer that removes it.
\<close>

definition entry_ok :: "'p approval_manager \<Rightarrow> string \<Rightarrow> 'p pending_entry \<Rightarrow> bool" where
  "entry_ok s i e \<longleftrightarrow>
     (if ar_resolvedAtMs (pe_record e) = None
      then map_of (am_timers s) (pe_timer e) = Some (ExpireTimer i) \<and> ar_decision (pe_record e) = None
      else \<exists>t. map_of (am_timers s) t = Some (GraceTimer i (pe_promise e)))"

definition grace_ok :: "'p approval_manager \<Rightarrow> string \<Rightarrow> nat \<Rightarrow> bool" where
  "grace_ok s i k \<longleftrightarrow> k < am_promiseCount s \<and> (\<forall>e. map_of (am_pending s) i = Some e
     \<longrightarrow> pe_promise e = k \<longrightarrow> ar_resolvedAtMs (pe_record e) \<noteq> None)"

definition expire_ok :: "'p approval_manager \<Rightarrow> string \<Rightarrow> nat \<Rightarrow> bool" where
  "expire_ok s i t \<longleftrightarrow> (\<exists>e. unresolved s i = Some e \<and> pe_timer e = t)"

definition am_ok :: "'p approval_manager \<Rightarrow> bool" where
  "am_ok s \<longleftrightarrow> distinct (map fst (am_pending s)) \<and> distinct (map fst (am_timers s))
     \<and> (\<forall>x\<in>set (am_timers s). fst x < am_timerCount s)
     \<and> (\<forall>i e. map_of (am_pending s) i = Some e \<longrightarrow> pe_promise e < am_promiseCount s \<and> entry_ok s i e)
     \<and> (\<forall>t i k. map_of (am_timers s) t = Some (GraceTimer i k) \<longrightarrow> grace_ok s i k)
     \<and> (\<forall>t i. map_of (am_timers s) t = Some (ExpireTimer i) \<longrightarrow> expire_ok s i t)"

lemma am_okI:
  assumes "distinct (map fst (am_pending s))" and "distinct (map fst (am_timers s))"
    and "\<And>t. t \<in> fst ` set (am_timers s) \<Longrightarrow> t < am_timerCount s"
    and "\<And>i e. map_of (am_pending s) i = Some e \<Longrightarrow> pe_promise e < am_promiseCount s \<and> entry_ok s i e"
    and "\<And>t i k. map_of (am_timers s) t = Some (GraceTimer i k) \<Longrightarrow> grace_ok s i k"
    and "\<And>t i. map_of (am_timers s) t = Some (ExpireTimer i) \<Longrightarrow> expire_ok s i t"
  shows "am_ok s"
  using assms unfolding am_ok_def by blast

lemma am_okD:
  assumes "am_ok s"
  shows "distinct (map fst (am_pending s))" and "distinct (map fst (am_timers s))"
    and "t \<in> fst ` set (am_timers s) \<Longrightarrow> t < am_timerCount s"
    and "map_of (am_pending s) i = Some e \<Longrightarrow> pe_promise e < am_promiseCount s"
    and "map_of (am_pending s) i = Some e \<Longrightarrow> entry_ok s i e"
    and "map_of (am_timers s) t = Some (GraceTimer i k) \<Longrightarrow> grace_ok s i k"
    and "map_of (am_timers s) t = Some (ExpireTimer i) \<Longrightarrow> expire_ok s i t"
  using assms unfolding am_ok_def by blast+

lemma timer_fresh: "am_ok s \<Longrightarrow> am_timerCount s \<notin> fst ` set (am_timers s)"
  using am_okD(3) by blast

lemma timer_fresh_map: "am_ok s \<Longrightarrow> map_of (am_timers s) (am_timerCount s) = None"
  using timer_fresh by (simp add: map_of_eq_None_iff)

lemmas alist_simps = AList.update_conv' AList.delete_conv' AList.distinct_update AList.distinct_delete
  AList.update_keys AList.delete_keys

lemma keys_delete: "fst ` set (AList.delete k al) = fst ` set al - {k}"
proof -
  have "set (map fst (AList.delete k al)) = set (map fst al) - {k}"
    by (simp only: AList.delete_keys set_removeAll)
  then show ?thesis by simp
qed

lemma am_ok_new [simp]: "am_ok new_manager"
  by (simp add: new_manager_def am_ok_def)

text \<open>What adding, settling and the timers leave in the state.\<close>

definition settle_with :: "string \<Rightarrow> approval_decision option \<Rightarrow> string option \<Rightarrow> int
  \<Rightarrow> 'p pending_entry \<Rightarrow> 'p pending_entry" where
  "settle_with i d by now e = e\<lparr>pe_record :=
     (pe_record e)\<lparr>ar_resolvedAtMs := Some now, ar_decision := d, ar_resolvedBy := by\<rparr>\<rparr>"

lemma unresolved_Some:
  "unresolved s i = Some e \<longleftrightarrow> map_of (am_pending s) i = Some e \<and> ar_resolvedAtMs (pe_record e) = None"
  by (auto simp: unresolved_def split: option.splits)

lemma settle_entry_None: "unresolved s i = None \<Longrightarrow> settle_entry i d by now s = (s, [])"
  by (simp add: settle_entry_def)

lemma settle_entry_Some:
  "unresolved s i = Some e \<Longrightarrow> settle_entry i d by now s =
     (s\<lparr>am_pending := AList.update i (settle_with i d by now e) (am_pending s),
        am_timers := AList.delete (pe_timer e) (am_timers s) @ [(am_timerCount s, GraceTimer i (pe_promise e))],
        am_timerCount := Suc (am_timerCount s)\<rparr>,
      [ClearApprovalTimer (pe_timer e), SettleApproval (pe_promise e) d,
       SetApprovalTimer (am_timerCount s) 15000])"
  by (simp add: settle_entry_def settle_with_def Let_def)

lemma settle_with_simps [simp]:
  "pe_promise (settle_with i d by now e) = pe_promise e"
  "pe_timer (settle_with i d by now e) = pe_timer e"
  "ar_resolvedAtMs (pe_record (settle_with i d by now e)) = Some now"
  "ar_decision (pe_record (settle_with i d by now e)) = d"
  by (simp_all add: settle_with_def)

lemma am_ok_settle:
  assumes ok: "am_ok s"
  shows "am_ok (fst (settle_entry i d by now s))"
proof (cases "unresolved s i")
  case None
  then show ?thesis using ok by (simp add: settle_entry_None)
next
  case (Some e)
  then have e: "map_of (am_pending s) i = Some e" "ar_resolvedAtMs (pe_record e) = None"
    by (simp_all add: unresolved_Some)
  have te: "map_of (am_timers s) (pe_timer e) = Some (ExpireTimer i)"
    using am_okD(5)[OF ok e(1)] e(2) by (simp add: entry_ok_def)
  define e' where "e' = settle_with i d by now e"
  have e': "pe_promise e' = pe_promise e" "ar_resolvedAtMs (pe_record e') = Some now"
    by (simp_all add: e'_def)
  define s' where "s' = fst (settle_entry i d by now s)"
  have same: "am_pending s' = AList.update i e' (am_pending s)" "am_promiseCount s' = am_promiseCount s"
    "am_timers s' = AList.delete (pe_timer e) (am_timers s) @ [(am_timerCount s, GraceTimer i (pe_promise e))]"
    "am_timerCount s' = Suc (am_timerCount s)"
    using Some by (simp_all add: s'_def e'_def settle_entry_Some)
  have p: "map_of (am_pending s') = (map_of (am_pending s))(i \<mapsto> e')"
    by (simp add: same alist_simps)
  have t: "map_of (am_timers s') = (map_of (am_timers s))(pe_timer e := None, am_timerCount s \<mapsto> GraceTimer i (pe_promise e))"
    using timer_fresh_map[OF ok] by (auto simp: same alist_simps map_add_def fun_eq_iff split: option.splits)
  have fresh: "t' \<noteq> am_timerCount s" if "map_of (am_timers s) t' = Some x" for t' x
    using timer_fresh_map[OF ok] that by auto
  have "am_ok s'"
  proof (rule am_okI)
    show "distinct (map fst (am_pending s'))" using am_okD(1)[OF ok] by (simp add: same alist_simps)
    show "distinct (map fst (am_timers s'))"
      using am_okD(2)[OF ok] timer_fresh[OF ok] by (simp add: same alist_simps distinct_removeAll)
    show "t' < am_timerCount s'" if "t' \<in> fst ` set (am_timers s')" for t'
    proof (cases "t' = am_timerCount s")
      case False
      then have "t' \<in> fst ` set (am_timers s)" using that by (simp add: same(3) keys_delete)
      then show ?thesis using am_okD(3)[OF ok] same(4) by fastforce
    qed (simp add: same(4))
    show "pe_promise f < am_promiseCount s' \<and> entry_ok s' j f" if f: "map_of (am_pending s') j = Some f" for j f
    proof (cases "j = i")
      case True
      then have fe: "f = e'" using f p by simp
      have "map_of (am_timers s') (am_timerCount s) = Some (GraceTimer i (pe_promise e'))"
        using t by (simp add: e')
      then have "entry_ok s' i e'" by (auto simp: entry_ok_def e')
      then show ?thesis using am_okD(4)[OF ok e(1)] True by (simp add: fe e' same(2))
    next
      case False
      then have f': "map_of (am_pending s) j = Some f" using f p by simp
      have o: "entry_ok s j f" using am_okD(5)[OF ok f'] .
      have "entry_ok s' j f"
      proof (cases "ar_resolvedAtMs (pe_record f) = None")
        case True
        with o have "map_of (am_timers s) (pe_timer f) = Some (ExpireTimer j)" by (simp add: entry_ok_def)
        moreover from this have "pe_timer f \<noteq> pe_timer e" using te False by auto
        ultimately show ?thesis using True o fresh t by (simp add: entry_ok_def)
      next
        case N: False
        with o obtain t' where t': "map_of (am_timers s) t' = Some (GraceTimer j (pe_promise f))"
          by (auto simp: entry_ok_def)
        then have "t' \<noteq> pe_timer e" "t' \<noteq> am_timerCount s" using te fresh by auto
        then have "map_of (am_timers s') t' = Some (GraceTimer j (pe_promise f))" using t' t by simp
        then show ?thesis using N by (auto simp: entry_ok_def)
      qed
      then show ?thesis using am_okD(4)[OF ok f'] by (simp add: same(2))
    qed
    show "grace_ok s' j k" if g: "map_of (am_timers s') t' = Some (GraceTimer j k)" for t' j k
    proof (cases "t' = am_timerCount s")
      case True
      then have "j = i" "k = pe_promise e" using g t by auto
      then show ?thesis using am_okD(4)[OF ok e(1)] p by (simp add: grace_ok_def e' same(2))
    next
      case False
      then have "map_of (am_timers s) t' = Some (GraceTimer j k)" using g t by (auto split: if_splits)
      then have "grace_ok s j k" by (rule am_okD(6)[OF ok])
      then show ?thesis using p e' by (simp add: grace_ok_def same(2))
    qed
    show "expire_ok s' j t'" if x: "map_of (am_timers s') t' = Some (ExpireTimer j)" for t' j
    proof -
      have x': "map_of (am_timers s) t' = Some (ExpireTimer j)" "t' \<noteq> pe_timer e"
        using x t by (auto split: if_splits)
      then obtain f where f: "unresolved s j = Some f" "pe_timer f = t'"
        using am_okD(7)[OF ok] by (auto simp: expire_ok_def)
      then have "j \<noteq> i" using x' Some by auto
      then show ?thesis using f p by (simp add: expire_ok_def unresolved_Some)
    qed
  qed
  then show ?thesis by (simp add: s'_def)
qed

lemma am_ok_register:
  assumes ok: "am_ok s"
  shows "am_ok (fst (register_approval (create_approval uuid now r timeoutMs i) timeoutMs s))"
proof (cases "map_of (am_pending s) (ar_id (create_approval uuid now r timeoutMs i))")
  case None
  define rec where "rec = create_approval uuid now r timeoutMs i"
  define e where "e = \<lparr>pe_record = rec, pe_promise = am_promiseCount s, pe_timer = am_timerCount s\<rparr>"
  define s' where "s' = fst (register_approval rec timeoutMs s)"
  have rec: "ar_resolvedAtMs rec = None" "ar_decision rec = None"
    by (simp_all add: rec_def create_approval_def)
  have s': "s' = s\<lparr>am_timers := am_timers s @ [(am_timerCount s, ExpireTimer (ar_id rec))],
        am_pending := am_pending s @ [(ar_id rec, e)],
        am_timerCount := Suc (am_timerCount s), am_promiseCount := Suc (am_promiseCount s)\<rparr>"
    using None by (simp add: s'_def register_approval_def add_entry_def rec_def e_def)
  have cnt: "am_promiseCount s' = Suc (am_promiseCount s)" by (simp add: s')
  have new: "map_of (am_pending s) (ar_id rec) = None" using None by (simp add: rec_def)
  then have p: "map_of (am_pending s') = (map_of (am_pending s))(ar_id rec \<mapsto> e)"
    by (auto simp: s' map_add_def fun_eq_iff split: option.splits)
  have t: "map_of (am_timers s') = (map_of (am_timers s))(am_timerCount s \<mapsto> ExpireTimer (ar_id rec))"
    using timer_fresh_map[OF ok] by (auto simp: s' map_add_def fun_eq_iff split: option.splits)
  have fresh': "map_of (am_timers s) t' = Some x \<Longrightarrow> t' \<noteq> am_timerCount s" for t' x
    using timer_fresh_map[OF ok] by auto
  have "am_ok s'"
  proof (rule am_okI)
    show "distinct (map fst (am_pending s'))"
      using am_okD(1)[OF ok] new by (simp add: s' map_of_eq_None_iff)
    show "distinct (map fst (am_timers s'))"
      using am_okD(2)[OF ok] timer_fresh[OF ok] by (simp add: s')
    show "t' < am_timerCount s'" if "t' \<in> fst ` set (am_timers s')" for t'
      using that am_okD(3)[OF ok] by (fastforce simp: s')
    show "pe_promise f < am_promiseCount s' \<and> entry_ok s' j f" if f: "map_of (am_pending s') j = Some f" for j f
    proof (cases "j = ar_id rec")
      case True
      then have fe: "f = e" using f p by simp
      have "entry_ok s' j e" using True t rec by (simp add: entry_ok_def e_def)
      then show ?thesis by (simp add: fe e_def cnt)
    next
      case False
      then have f': "map_of (am_pending s) j = Some f" using f p by simp
      have "entry_ok s' j f" using am_okD(5)[OF ok f'] t fresh'
        by (auto simp: entry_ok_def split: if_splits)
      then show ?thesis using am_okD(4)[OF ok f'] by (simp add: cnt)
    qed
    show "grace_ok s' j k" if g: "map_of (am_timers s') t' = Some (GraceTimer j k)" for t' j k
    proof -
      have "map_of (am_timers s) t' = Some (GraceTimer j k)" using g t by (auto split: if_splits)
      then have "grace_ok s j k" by (rule am_okD(6)[OF ok])
      then show ?thesis using p by (auto simp: grace_ok_def e_def cnt)
    qed
    show "expire_ok s' j t'" if x: "map_of (am_timers s') t' = Some (ExpireTimer j)" for t' j
    proof (cases "t' = am_timerCount s")
      case True
      then have "j = ar_id rec" using x t by simp
      then show ?thesis using True p rec by (simp add: expire_ok_def unresolved_Some e_def)
    next
      case False
      then have "map_of (am_timers s) t' = Some (ExpireTimer j)" using x t by simp
      then obtain f where f: "unresolved s j = Some f" "pe_timer f = t'"
        using am_okD(7)[OF ok] by (auto simp: expire_ok_def)
      then have "j \<noteq> ar_id rec" using new by (auto simp: unresolved_Some)
      then show ?thesis using f p by (simp add: expire_ok_def unresolved_Some)
    qed
  qed
  then show ?thesis by (simp add: s'_def rec_def)
qed (use ok in \<open>simp add: register_approval_def\<close>)

text \<open>A change of the recorded decision or the removal of a resolved entry keeps the table in order.\<close>

lemma am_ok_consume:
  assumes ok: "am_ok s"
  shows "am_ok (fst (consumeAllowOnce i s))"
proof (cases "consume_result s i")
  case True
  then obtain e where e: "map_of (am_pending s) i = Some e" "ar_decision (pe_record e) = Some AllowOnce"
    by (auto simp: consume_result_def split: option.splits)
  define e' where "e' = e\<lparr>pe_record := (pe_record e)\<lparr>ar_decision := None\<rparr>\<rparr>"
  define s' where "s' = fst (consumeAllowOnce i s)"
  have s': "s' = s\<lparr>am_pending := AList.update i e' (am_pending s)\<rparr>"
    using e by (simp add: s'_def e'_def consumeAllowOnce_def)
  have p: "map_of (am_pending s') = (map_of (am_pending s))(i \<mapsto> e')"
    by (simp add: s' alist_simps)
  have e'_simps: "pe_promise e' = pe_promise e" "pe_timer e' = pe_timer e"
    "ar_resolvedAtMs (pe_record e') = ar_resolvedAtMs (pe_record e)" "ar_decision (pe_record e') = None"
    by (simp_all add: e'_def)
  have same: "am_timers s' = am_timers s" "am_promiseCount s' = am_promiseCount s" "am_timerCount s' = am_timerCount s"
    by (simp_all add: s')
  have "am_ok s'"
  proof (rule am_okI)
    show "distinct (map fst (am_pending s'))" using am_okD(1)[OF ok] by (simp add: s' alist_simps)
    show "distinct (map fst (am_timers s'))" using am_okD(2)[OF ok] by (simp add: same)
    show "t < am_timerCount s'" if "t \<in> fst ` set (am_timers s')" for t
      using that am_okD(3)[OF ok] by (simp add: same)
    show "pe_promise f < am_promiseCount s' \<and> entry_ok s' j f" if f: "map_of (am_pending s') j = Some f" for j f
    proof (cases "j = i")
      case True
      then have fe: "f = e'" using f p by simp
      show ?thesis using am_okD(4)[OF ok e(1)] am_okD(5)[OF ok e(1)] True
        by (simp add: fe entry_ok_def e'_simps same split: if_splits)
    next
      case False
      then have f': "map_of (am_pending s) j = Some f" using f p by simp
      show ?thesis using am_okD(4)[OF ok f'] am_okD(5)[OF ok f'] by (simp add: entry_ok_def same)
    qed
    show "grace_ok s' j k" if g: "map_of (am_timers s') t = Some (GraceTimer j k)" for t j k
    proof -
      have "grace_ok s j k" using g am_okD(6)[OF ok] by (simp add: same)
      then show ?thesis using e p by (auto simp: grace_ok_def e'_simps same)
    qed
    show "expire_ok s' j t" if x: "map_of (am_timers s') t = Some (ExpireTimer j)" for t j
    proof -
      have "expire_ok s j t" using x am_okD(7)[OF ok] by (simp add: same)
      then show ?thesis using e p by (auto simp: expire_ok_def unresolved_Some e'_simps)
    qed
  qed
  then show ?thesis by (simp add: s'_def)
next
  case False
  then show ?thesis using ok by (simp add: consume_result_def consumeAllowOnce_def split: option.splits)
qed

text \<open>Firing a grace timer: the entry it was set for is gone, and no other.\<close>

lemma am_ok_grace:
  assumes ok: "am_ok s" and g: "map_of (am_timers s) t = Some (GraceTimer i k)"
  shows "am_ok (fst (approval_timer_fired t now s))"
proof -
  define s' where "s' = fst (approval_timer_fired t now s)"
  have same: "am_timers s' = AList.delete t (am_timers s)" "am_promiseCount s' = am_promiseCount s"
    "am_timerCount s' = am_timerCount s"
    using g by (simp_all add: s'_def approval_timer_fired_def)
  have p: "am_pending s' = (if map_option pe_promise (map_of (am_pending s) i) = Some k
      then AList.delete i (am_pending s) else am_pending s)"
    using g by (auto simp: s'_def approval_timer_fired_def)
  have old: "map_of (am_pending s) j = Some f \<and> \<not> (j = i \<and> pe_promise f = k)"
    if "map_of (am_pending s') j = Some f" for j f
    using that by (auto simp: p alist_simps split: if_splits)
  have "am_ok s'"
  proof (rule am_okI)
    show "distinct (map fst (am_pending s'))"
      using am_okD(1)[OF ok] by (simp add: p alist_simps distinct_removeAll)
    show "distinct (map fst (am_timers s'))"
      using am_okD(2)[OF ok] by (simp add: same alist_simps distinct_removeAll)
    show "t' < am_timerCount s'" if "t' \<in> fst ` set (am_timers s')" for t'
      using that am_okD(3)[OF ok] by (simp add: same keys_delete)
    show "pe_promise f < am_promiseCount s' \<and> entry_ok s' j f" if f: "map_of (am_pending s') j = Some f" for j f
    proof -
      have f': "map_of (am_pending s) j = Some f" and n: "\<not> (j = i \<and> pe_promise f = k)"
        using old[OF f] by blast+
      have "entry_ok s j f" using am_okD(5)[OF ok f'] .
      have "entry_ok s' j f"
      proof (cases "ar_resolvedAtMs (pe_record f) = None")
        case True
        then show ?thesis using \<open>entry_ok s j f\<close> g by (auto simp: entry_ok_def same alist_simps)
      next
        case False
        then obtain t' where t': "map_of (am_timers s) t' = Some (GraceTimer j (pe_promise f))"
          using \<open>entry_ok s j f\<close> by (auto simp: entry_ok_def)
        then have "t' \<noteq> t" using g n by auto
        then have "map_of (am_timers s') t' = Some (GraceTimer j (pe_promise f))"
          using t' by (simp add: same alist_simps)
        then show ?thesis using False by (auto simp: entry_ok_def)
      qed
      then show ?thesis using am_okD(4)[OF ok f'] by (simp add: same)
    qed
    show "grace_ok s' j l" if gr: "map_of (am_timers s') t' = Some (GraceTimer j l)" for t' j l
    proof -
      have "map_of (am_timers s) t' = Some (GraceTimer j l)"
        using gr by (simp add: same alist_simps split: if_splits)
      then have "grace_ok s j l" by (rule am_okD(6)[OF ok])
      then show ?thesis using old by (auto simp: grace_ok_def same)
    qed
    show "expire_ok s' j t'" if x: "map_of (am_timers s') t' = Some (ExpireTimer j)" for t' j
    proof -
      have "map_of (am_timers s) t' = Some (ExpireTimer j)"
        using x by (simp add: same alist_simps split: if_splits)
      then obtain f where f: "map_of (am_pending s) j = Some f" "ar_resolvedAtMs (pe_record f) = None"
        "pe_timer f = t'"
        using am_okD(7)[OF ok] by (auto simp: expire_ok_def unresolved_Some)
      have "\<not> (j = i \<and> pe_promise f = k)" using am_okD(6)[OF ok g] f by (auto simp: grace_ok_def)
      then have "map_of (am_pending s') j = Some f" using f(1) by (auto simp: p alist_simps)
      then show ?thesis using f by (simp add: expire_ok_def unresolved_Some)
    qed
  qed
  then show ?thesis by (simp add: s'_def)
qed

text \<open>
  Firing an expiry timer is the expiry, with the timer already gone. The entry it was armed for,
  if it is still unresolved, is settled there, so that the table needs no timer for it.
\<close>

lemma settle_after_delete:
  assumes "unresolved s i = Some e" and "pe_timer e = t"
  shows "settle_entry i d by now (s\<lparr>am_timers := AList.delete t (am_timers s)\<rparr>) = settle_entry i d by now s"
proof -
  have "unresolved (s\<lparr>am_timers := AList.delete t (am_timers s)\<rparr>) i = Some e"
    using assms(1) by (simp add: unresolved_Some)
  then show ?thesis using assms by (simp add: settle_entry_Some AList.delete_idem keys_delete)
qed

lemma expire_timer_fired:
  assumes ok: "am_ok s" and t: "map_of (am_timers s) t = Some (ExpireTimer i)"
  shows "\<exists>e. unresolved s i = Some e \<and> pe_timer e = t
    \<and> approval_timer_fired t now s = settle_entry i None None now s"
proof -
  obtain e where e: "unresolved s i = Some e" "pe_timer e = t"
    using am_okD(7)[OF ok t] by (auto simp: expire_ok_def)
  have "approval_timer_fired t now s = settle_entry i None None now s"
    using t settle_after_delete[OF e] by (simp add: approval_timer_fired_def expire_approval_def)
  then show ?thesis using e by blast
qed

lemma am_ok_step:
  assumes ok: "am_ok s"
  shows "am_ok (fst (am_step ev s))"
proof (cases ev)
  case (ApprovalTimer t now)
  show ?thesis
  proof (cases "map_of (am_timers s) t")
    case None
    then show ?thesis using ok ApprovalTimer by (simp add: approval_timer_fired_def)
  next
    case (Some use)
    show ?thesis
    proof (cases "use")
      case (ExpireTimer i)
      then show ?thesis
        using Some expire_timer_fired[OF ok, of t i now] am_ok_settle[OF ok] ApprovalTimer by auto
    next
      case (GraceTimer i k)
      then show ?thesis using Some am_ok_grace[OF ok] ApprovalTimer by simp
    qed
  qed
qed (simp_all add: ok am_ok_register am_ok_settle am_ok_consume resolve_approval_def expire_approval_def)

lemma am_ok_run: "am_ok s \<Longrightarrow> am_ok (fst (am_run evs s))"
  by (induction evs arbitrary: s) (simp_all add: am_run_def am_ok_step)

section \<open>Promises\<close>

text \<open>The promises nobody has settled yet, and the one an effect settles.\<close>

definition am_owed :: "'p approval_manager \<Rightarrow> nat multiset" where
  "am_owed s = image_mset (\<lambda>x. pe_promise (snd x))
     (filter_mset (\<lambda>x. ar_resolvedAtMs (pe_record (snd x)) = None) (mset (am_pending s)))"

fun am_paid :: "approval_effect \<Rightarrow> nat multiset" where
  "am_paid (SettleApproval k d) = {#k#}"
| "am_paid _ = {#}"

interpretation promises: account am_owed am_paid
  by unfold_locales

lemma mset_alist_update:
  "distinct (map fst al) \<Longrightarrow> map_of al k = Some v
   \<Longrightarrow> add_mset (k, v) (mset (AList.update k w al)) = add_mset (k, w) (mset al)"
proof (induction al)
  case (Cons x al)
  then show ?case by (cases x) (auto simp: add_mset_commute)
qed simp

lemma mset_alist_delete:
  "distinct (map fst al) \<Longrightarrow> map_of al k = Some v \<Longrightarrow> add_mset (k, v) (mset (AList.delete k al)) = mset al"
proof (induction al)
  case (Cons x al)
  then show ?case by (cases x) (auto simp: AList.delete_idem add_mset_commute)
qed simp

definition owed_of :: "(string \<times> 'p pending_entry) multiset \<Rightarrow> nat multiset" where
  "owed_of m = image_mset (\<lambda>x. pe_promise (snd x))
     (filter_mset (\<lambda>x. ar_resolvedAtMs (pe_record (snd x)) = None) m)"

lemma owed_of_add [simp]:
  "owed_of (add_mset (i, e) m) =
     (if ar_resolvedAtMs (pe_record e) = None then add_mset (pe_promise e) (owed_of m) else owed_of m)"
  by (simp add: owed_of_def)

lemma am_owed_of: "am_owed s = owed_of (mset (am_pending s))"
  by (simp add: am_owed_def owed_of_def)

lemma owed_update:
  assumes "am_ok s" and "map_of (am_pending s) i = Some e"
  shows "owed_of (add_mset (i, e) (mset (AList.update i f (am_pending s))))
    = owed_of (add_mset (i, f) (mset (am_pending s)))"
  using mset_alist_update[OF am_okD(1)[OF assms(1)] assms(2)] by simp

lemma settle_balanced:
  assumes ok: "am_ok s"
  shows "promises.balanced {#} (settle_entry i d by now) s"
proof (cases "unresolved s i")
  case (Some e)
  then have e: "map_of (am_pending s) i = Some e" "ar_resolvedAtMs (pe_record e) = None"
    by (simp_all add: unresolved_Some)
  show ?thesis
    using owed_update[OF ok e(1), of "settle_with i d by now e"] e Some
    by (simp add: promises.balanced_def settle_entry_Some am_owed_of)
qed (simp add: promises.balanced_def settle_entry_None)

lemma settle_promiseCount [simp]: "am_promiseCount (fst (settle_entry i d by now s)) = am_promiseCount s"
  by (cases "unresolved s i") (simp_all add: settle_entry_None settle_entry_Some)

lemma consume_balanced:
  assumes ok: "am_ok s"
  shows "promises.balanced {#} (consumeAllowOnce i) s"
proof (cases "map_of (am_pending s) i")
  case (Some e)
  define f where "f = e\<lparr>pe_record := (pe_record e)\<lparr>ar_decision := None\<rparr>\<rparr>"
  have "pe_promise f = pe_promise e" "ar_resolvedAtMs (pe_record f) = ar_resolvedAtMs (pe_record e)"
    by (simp_all add: f_def)
  then show ?thesis
    using owed_update[OF ok Some, of f] Some
    by (simp add: promises.balanced_def consumeAllowOnce_def am_owed_of f_def split: if_splits)
qed (simp add: promises.balanced_def consumeAllowOnce_def)

lemma grace_balanced:
  assumes ok: "am_ok s" and g: "map_of (am_timers s) t = Some (GraceTimer i k)"
  shows "promises.balanced {#} (approval_timer_fired t now) s"
proof (cases "map_option pe_promise (map_of (am_pending s) i) = Some k")
  case True
  then obtain e where e: "map_of (am_pending s) i = Some e" "pe_promise e = k" by auto
  have "ar_resolvedAtMs (pe_record e) \<noteq> None" using am_okD(6)[OF ok g] e by (auto simp: grace_ok_def)
  moreover have "owed_of (add_mset (i, e) (mset (AList.delete i (am_pending s)))) = am_owed s"
    using mset_alist_delete[OF am_okD(1)[OF ok] e(1)] by (simp add: am_owed_of)
  ultimately show ?thesis
    using g e by (auto simp: promises.balanced_def approval_timer_fired_def am_owed_of)
next
  case False
  then show ?thesis using g by (auto simp: promises.balanced_def approval_timer_fired_def am_owed_of)
qed

lemma timer_promiseCount [simp]:
  "am_promiseCount (fst (approval_timer_fired t now s)) = am_promiseCount s"
  by (simp add: approval_timer_fired_def expire_approval_def split: option.split approval_timer.split)

lemma register_balanced:
  "promises.balanced (mset [am_promiseCount s..<am_promiseCount (fst (register_approval (create_approval u n r m i) m s))])
     (register_approval (create_approval u n r m i) m) s"
  by (simp add: promises.balanced_def register_approval_def add_entry_def am_owed_of create_approval_def
      split: option.split)

lemma am_step_balanced:
  assumes ok: "am_ok s"
  shows "promises.balanced (mset [am_promiseCount s..<am_promiseCount (fst (am_step ev s))]) (am_step ev) s"
proof (cases ev)
  case (RegisterNew uuid now r timeoutMs i)
  then show ?thesis using register_balanced by simp
next
  case (ResolveApproval i d b now)
  then show ?thesis using settle_balanced[OF ok] by (simp add: resolve_approval_def)
next
  case (ExpireApproval i b now)
  then show ?thesis using settle_balanced[OF ok] by (simp add: expire_approval_def)
next
  case (ConsumeAllowOnce i)
  moreover have "am_promiseCount (fst (consumeAllowOnce i s)) = am_promiseCount s"
    by (simp add: consumeAllowOnce_def split: option.split)
  ultimately show ?thesis using consume_balanced[OF ok] by simp
next
  case (ApprovalTimer t now)
  show ?thesis
  proof (cases "map_of (am_timers s) t")
    case None
    then show ?thesis using ApprovalTimer by (simp add: approval_timer_fired_def promises.balanced_def)
  next
    case (Some u)
    show ?thesis
    proof (cases u)
      case (ExpireTimer i)
      then have "approval_timer_fired t now s = settle_entry i None None now s"
        using expire_timer_fired[OF ok] Some by blast
      then show ?thesis using settle_balanced[OF ok, of i None None now] ApprovalTimer
        by (simp add: promises.balanced_def)
    next
      case (GraceTimer i k)
      then show ?thesis using grace_balanced[OF ok] Some ApprovalTimer by simp
    qed
  qed
qed

lemma am_step_promiseCount: "am_promiseCount s \<le> am_promiseCount (fst (am_step ev s))"
proof (cases ev)
  case (RegisterNew uuid now r timeoutMs i)
  then show ?thesis by (simp add: register_approval_def add_entry_def split: option.split)
qed (simp_all add: resolve_approval_def expire_approval_def consumeAllowOnce_def split: option.split)

lemma am_run_promiseCount: "am_promiseCount s \<le> am_promiseCount (fst (am_run evs s))"
proof (induction evs arbitrary: s)
  case (Cons ev evs)
  then show ?case using am_step_promiseCount[of s ev] by (simp add: am_run_def) (meson le_trans)
qed (simp add: am_run_def)

lemma mset_upt_split: "a \<le> b \<Longrightarrow> b \<le> c \<Longrightarrow> mset [a..<b] + mset [b..<c] = mset [a..<(c::nat)]"
  by (metis mset_append upt_add_eq_append le_add_diff_inverse)

lemma am_run_balanced:
  "am_ok s \<Longrightarrow> promises.balanced (mset [am_promiseCount s..<am_promiseCount (fst (am_run evs s))]) (am_run evs) s"
proof (induction evs arbitrary: s)
  case Nil
  then show ?case by (simp add: am_run_def promises.balanced_def)
next
  case (Cons ev evs)
  let ?s = "fst (am_step ev s)"
  have run: "am_run (ev # evs) = seq (am_step ev) (am_run evs)" by (simp add: am_run_def)
  have b: "promises.balanced (mset [am_promiseCount ?s..<am_promiseCount (fst (am_run evs ?s))]) (am_run evs) ?s"
    by (rule Cons.IH[OF am_ok_step[OF Cons.prems]])
  have "fst (am_run (ev # evs) s) = fst (am_run evs ?s)" by (simp add: run)
  then show ?case
    using promises.balanced_seq[OF am_step_balanced[OF Cons.prems] b
        mset_upt_split[OF am_step_promiseCount am_run_promiseCount]]
    by (simp only: run)
qed

text \<open>Every promise the manager has given out is settled once or still waits, and never both.\<close>

theorem approvals_settled_once:
  "am_owed (fst (am_run evs new_manager)) + sum_list (map am_paid (snd (am_run evs new_manager)))
   = mset [0..<am_promiseCount (fst (am_run evs (new_manager :: 'p approval_manager)))]"
proof -
  have "am_owed (new_manager :: 'p approval_manager) = {#}" "am_promiseCount (new_manager :: 'p approval_manager) = 0"
    by (simp_all add: new_manager_def am_owed_def)
  then show ?thesis
    using am_run_balanced[of "new_manager :: 'p approval_manager" evs] by (simp add: promises.balanced_def)
qed

section \<open>Timers run out\<close>

text \<open>Timers that are armed when they fire, one after the other.\<close>

primrec fires :: "nat list \<Rightarrow> int \<Rightarrow> 'p approval_manager \<Rightarrow> bool" where
  "fires [] now s = True"
| "fires (t # ts) now s =
     (map_of (am_timers s) t \<noteq> None \<and> fires ts now (fst (approval_timer_fired t now s)))"

definition fire_all :: "nat list \<Rightarrow> int \<Rightarrow> 'p am_act" where
  "fire_all ts now = am_run (map (\<lambda>t. ApprovalTimer t now) ts)"

fun timer_weight :: "approval_timer \<Rightarrow> nat" where
  "timer_weight (ExpireTimer i) = 2"
| "timer_weight (GraceTimer i k) = 1"

definition am_weight :: "'p approval_manager \<Rightarrow> nat" where
  "am_weight s = sum_list (map (\<lambda>x. timer_weight (snd x)) (am_timers s))"

lemma weight_delete:
  "distinct (map fst al) \<Longrightarrow> map_of al t = Some u
   \<Longrightarrow> sum_list (map (\<lambda>x. timer_weight (snd x)) (AList.delete t al)) + timer_weight u
      = sum_list (map (\<lambda>x. timer_weight (snd x)) al)"
proof (induction al)
  case (Cons x al)
  then show ?case by (cases x) (auto simp: AList.delete_idem)
qed simp

lemma weight_le: "am_weight s \<le> 2 * length (am_timers s)"
proof -
  have "timer_weight u \<le> 2" for u by (cases u) simp_all
  then have "sum_list (map (\<lambda>x. timer_weight (snd x)) al) \<le> 2 * length al" for al :: "(nat \<times> approval_timer) list"
    by (induction al) (auto intro: order_trans[OF add_mono])
  then show ?thesis by (simp add: am_weight_def)
qed

lemma fired_weight:
  assumes ok: "am_ok s" and t: "map_of (am_timers s) t = Some u"
  shows "am_weight s = Suc (am_weight (fst (approval_timer_fired t now s)))"
proof (cases u)
  case (ExpireTimer i)
  then obtain e where e: "unresolved s i = Some e" "pe_timer e = t"
    "approval_timer_fired t now s = settle_entry i None None now s"
    using expire_timer_fired[OF ok] t by blast
  then show ?thesis
    using weight_delete[OF am_okD(2)[OF ok] t] ExpireTimer
    by (simp add: settle_entry_Some am_weight_def)
next
  case (GraceTimer i k)
  then show ?thesis
    using weight_delete[OF am_okD(2)[OF ok] t] t
    by (simp add: approval_timer_fired_def am_weight_def if_distrib[of am_timers] cong: if_cong)
qed

lemma fires_weight:
  "am_ok s \<Longrightarrow> fires ts now s \<Longrightarrow> length ts + am_weight (fst (fire_all ts now s)) = am_weight s"
proof (induction ts arbitrary: s)
  case (Cons t ts)
  then obtain u where u: "map_of (am_timers s) t = Some u" by auto
  have "am_ok (fst (approval_timer_fired t now s))"
    using am_ok_step[OF Cons.prems(1), of "ApprovalTimer t now"] by simp
  then show ?case
    using Cons fired_weight[OF Cons.prems(1) u, of now] by (simp add: fire_all_def am_run_def)
qed (simp add: fire_all_def am_run_def)

lemma no_timers_no_entries: "am_ok s \<Longrightarrow> am_timers s = [] \<Longrightarrow> am_pending s = []"
proof (rule ccontr)
  assume ok: "am_ok s" and t: "am_timers s = []" and "am_pending s \<noteq> []"
  then obtain i e xs where "am_pending s = (i, e) # xs" by (cases "am_pending s") auto
  then have "map_of (am_pending s) i = Some e" by simp
  from am_okD(5)[OF ok this] t show False by (simp add: entry_ok_def split: if_splits)
qed

lemma am_run_append: "fst (am_run (xs @ ys) s) = fst (am_run ys (fst (am_run xs s)))"
  "snd (am_run (xs @ ys) s) = snd (am_run xs s) @ snd (am_run ys (fst (am_run xs s)))"
  by (induction xs arbitrary: s) (simp_all add: am_run_def)

text \<open>
  C8: left to its timers the manager comes to rest. However the armed timers are ordered, at most
  two per timer that is armed can fire, and once none is armed the table is empty.
\<close>

theorem approvals_run_out:
  assumes "fires ts now (fst (am_run evs new_manager))"
  shows "length ts \<le> 2 * length (am_timers (fst (am_run evs new_manager)))
    \<and> (am_timers (fst (fire_all ts now (fst (am_run evs new_manager)))) = []
       \<longleftrightarrow> length ts = am_weight (fst (am_run evs (new_manager :: 'p approval_manager))))
    \<and> (am_timers (fst (fire_all ts now (fst (am_run evs new_manager)))) = []
       \<longrightarrow> am_pending (fst (fire_all ts now (fst (am_run evs new_manager)))) = [])"
proof -
  let ?s = "fst (am_run evs (new_manager :: 'p approval_manager))"
  let ?e = "fst (fire_all ts now ?s)"
  have ok: "am_ok ?s" by (simp add: am_ok_run)
  have ok': "am_ok ?e" unfolding fire_all_def by (rule am_ok_run[OF ok])
  have w: "length ts + am_weight ?e = am_weight ?s" using fires_weight[OF ok assms] .
  have "am_weight ?e = 0 \<longleftrightarrow> am_timers ?e = []"
  proof (cases "am_timers ?e")
    case (Cons x xs)
    then show ?thesis by (cases "snd x") (simp_all add: am_weight_def)
  qed (simp add: am_weight_def)
  then show ?thesis using w weight_le[of ?s] no_timers_no_entries[OF ok'] by auto
qed

section \<open>Allow once\<close>

text \<open>What the calls of a run return.\<close>

fun am_returns :: "'p approval_event \<Rightarrow> 'p approval_manager \<Rightarrow> bool" where
  "am_returns (ResolveApproval i decision by now) s = resolve_result s i"
| "am_returns (ExpireApproval i by now) s = resolve_result s i"
| "am_returns (ConsumeAllowOnce i) s = consume_result s i"
| "am_returns _ s = False"

primrec am_trace :: "'p approval_event list \<Rightarrow> 'p approval_manager \<Rightarrow> ('p approval_event \<times> bool) list" where
  "am_trace [] s = []"
| "am_trace (ev # evs) s = (ev, am_returns ev s) # am_trace evs (fst (am_step ev s))"

fun is_consume :: "string \<Rightarrow> 'p approval_event \<times> bool \<Rightarrow> bool" where
  "is_consume i (ConsumeAllowOnce j, ok) = (ok \<and> j = i)"
| "is_consume i _ = False"

fun is_allow_once :: "string \<Rightarrow> 'p approval_event \<times> bool \<Rightarrow> bool" where
  "is_allow_once i (ResolveApproval j d by now, ok) = (ok \<and> j = i \<and> d = AllowOnce)"
| "is_allow_once i _ = False"

lemma consume_result_map:
  "consume_result s i \<longleftrightarrow> (\<exists>e. map_of (am_pending s) i = Some e \<and> ar_decision (pe_record e) = Some AllowOnce)"
  by (simp add: consume_result_def split: option.split)

lemma consume_after_settle:
  assumes "consume_result (fst (settle_entry j d by now s)) i"
  shows "consume_result s i \<or> (unresolved s j \<noteq> None \<and> j = i \<and> d = Some AllowOnce)"
proof (cases "unresolved s j")
  case None
  then show ?thesis using assms by (simp add: settle_entry_None)
next
  case (Some e)
  then show ?thesis using assms
    by (auto simp: settle_entry_Some consume_result_map alist_simps split: if_splits)
qed

lemma consume_after_consume:
  "consume_result (fst (consumeAllowOnce j s)) i \<longleftrightarrow> consume_result s i \<and> j \<noteq> i"
proof (cases "consume_result s j")
  case True
  then show ?thesis
    by (auto simp: consume_result_map consumeAllowOnce_def alist_simps split: if_splits)
next
  case False
  then have "consumeAllowOnce j s = (s, [])"
    by (simp add: consume_result_def consumeAllowOnce_def split: option.splits)
  then show ?thesis using False by auto
qed

lemma allow_once_step:
  assumes ok: "am_ok s"
  shows "of_bool (is_consume i (ev, am_returns ev s)) + of_bool (consume_result (fst (am_step ev s)) i)
    \<le> of_bool (is_allow_once i (ev, am_returns ev s)) + (of_bool (consume_result s i) :: nat)"
proof (cases ev)
  case (RegisterNew uuid now r timeoutMs j)
  have "consume_result (fst (am_step ev s)) i \<longrightarrow> consume_result s i"
    using RegisterNew
    by (auto simp: register_approval_def add_entry_def consume_result_map create_approval_def
        split: option.splits if_splits)
  then show ?thesis using RegisterNew by auto
next
  case (ResolveApproval j d b now)
  then show ?thesis using consume_after_settle[of j "Some d" b now s i]
    by (auto simp: resolve_approval_def resolve_result_def)
next
  case (ExpireApproval j b now)
  then show ?thesis using consume_after_settle[of j None b now s i]
    by (auto simp: expire_approval_def)
next
  case (ConsumeAllowOnce j)
  then show ?thesis by (simp add: consume_after_consume)
next
  case (ApprovalTimer t now)
  have "consume_result (fst (approval_timer_fired t now s)) i \<longrightarrow> consume_result s i"
  proof (cases "map_of (am_timers s) t")
    case None
    then show ?thesis by (simp add: approval_timer_fired_def)
  next
    case (Some u)
    show ?thesis
    proof (cases u)
      case (ExpireTimer j)
      then have "approval_timer_fired t now s = settle_entry j None None now s"
        using expire_timer_fired[OF ok] Some by blast
      then show ?thesis using consume_after_settle[of j None None now s i] by auto
    next
      case (GraceTimer j k)
      then show ?thesis using Some
        by (auto simp: approval_timer_fired_def consume_result_map alist_simps split: if_splits)
    qed
  qed
  then show ?thesis using ApprovalTimer by auto
qed

lemma allow_once_run:
  "am_ok s \<Longrightarrow>
   length (filter (is_consume i) (am_trace evs s)) + of_bool (consume_result (fst (am_run evs s)) i)
   \<le> length (filter (is_allow_once i) (am_trace evs s)) + (of_bool (consume_result s i) :: nat)"
proof (induction evs arbitrary: s)
  case (Cons ev evs)
  have "am_ok (fst (am_step ev s))" by (rule am_ok_step[OF Cons.prems])
  from Cons.IH[OF this] allow_once_step[OF Cons.prems, of i ev] show ?case
    by (simp add: am_run_def of_bool_def split: if_splits)
qed (simp add: am_run_def)

text \<open>
  C6: an approval given once is used at most once. Whatever the order of requests, decisions,
  expiries and timers, an id is consumed no more often than a user allowed it once, and less
  often while a decision is still there to be consumed.
\<close>

theorem allow_once_consumed_once:
  "length (filter (is_consume i) (am_trace evs (new_manager :: 'p approval_manager)))
     + of_bool (consume_result (fst (am_run evs (new_manager :: 'p approval_manager))) i)
   \<le> length (filter (is_allow_once i) (am_trace evs (new_manager :: 'p approval_manager)))"
proof -
  have "\<not> consume_result (new_manager :: 'p approval_manager) i"
    by (simp add: consume_result_map new_manager_def)
  then show ?thesis using allow_once_run[of "new_manager :: 'p approval_manager" i evs] by simp
qed

section \<open>Finding a pending approval by a prefix\<close>

definition id_has_prefix :: "string \<Rightarrow> string \<Rightarrow> bool" where
  "id_has_prefix input i \<longleftrightarrow>
     take (length (normalizeLowercaseStringOrEmpty (Some input))) (normalizeLowercaseStringOrEmpty (Some i))
       = normalizeLowercaseStringOrEmpty (Some input)"

lemma prefix_matches_set:
  assumes "distinct (map fst (am_pending s))"
  shows "set (prefix_matches s (normalizeLowercaseStringOrEmpty (Some input)))
    = {i. unresolved s i \<noteq> None \<and> id_has_prefix input i}"
proof -
  have "unresolved s i \<noteq> None \<longleftrightarrow> (\<exists>e. (i, e) \<in> set (am_pending s) \<and> ar_resolvedAtMs (pe_record e) = None)" for i
    using assms by (auto simp: unresolved_Some map_of_eq_Some_iff simp del: not_None_eq simp: not_None_eq[where 'a = "'a pending_entry"])
  moreover have "set (prefix_matches s p) = {i. \<exists>e. (i, e) \<in> set (am_pending s)
      \<and> ar_resolvedAtMs (pe_record e) = None \<and> take (length p) (normalizeLowercaseStringOrEmpty (Some i)) = p}" for p
    by (force simp: prefix_matches_def)
  ultimately show ?thesis by (auto simp: id_has_prefix_def)
qed

lemma prefix_matches_distinct:
  "distinct (map fst (am_pending s)) \<Longrightarrow> distinct (prefix_matches s p)"
  by (simp add: prefix_matches_def distinct_map_filter)

lemma distinct_singleton:
  assumes "distinct xs"
  shows "xs = [x] \<longleftrightarrow> set xs = {x}"
proof
  assume x: "set xs = {x}"
  then obtain y ys where xs: "xs = y # ys" by (cases xs) auto
  then have "set ys \<subseteq> {x}" "y = x" using x by auto
  then have "ys = []" using assms xs by (cases ys) auto
  then show "xs = [x]" using xs \<open>y = x\<close> by simp
qed simp

lemma lookup_Prefix:
  assumes ok: "am_ok s"
  shows "lookupPendingId s input = Prefix i \<longleftrightarrow>
    trim input \<noteq> [] \<and> map_of (am_pending s) (trim input) = None
    \<and> {j. unresolved s j \<noteq> None \<and> id_has_prefix (trim input) j} = {i}"
proof -
  let ?m = "prefix_matches s (normalizeLowercaseStringOrEmpty (Some (trim input)))"
  have m: "set ?m = {j. unresolved s j \<noteq> None \<and> id_has_prefix (trim input) j}"
    using prefix_matches_set[OF am_okD(1)[OF ok]] .
  have d: "distinct ?m" using prefix_matches_distinct[OF am_okD(1)[OF ok]] .
  have one: "?m = [i] \<longleftrightarrow> set ?m = {i}" using distinct_singleton[OF d] by blast
  show ?thesis unfolding m[symmetric] one[symmetric]
  proof (cases "map_of (am_pending s) (trim input)")
    case None
    have "(case m of [] \<Rightarrow> NoMatch | [i] \<Rightarrow> Prefix i | i # k # xs \<Rightarrow> Ambiguous (i # k # xs)) = Prefix i \<longleftrightarrow> m = [i]"
      for m :: "string list"
      by (cases m; cases "tl m") auto
    with None show "lookupPendingId s input = Prefix i \<longleftrightarrow>
        trim input \<noteq> [] \<and> map_of (am_pending s) (trim input) = None \<and> ?m = [i]"
      by (simp add: lookupPendingId_def Let_def)
  qed (simp add: lookupPendingId_def Let_def)
qed

text \<open>
  An approval is found by a prefix of its id exactly when it is the only one still pending
  whose id has that prefix, the case of letters aside, and no entry has the text as its whole id.
\<close>

theorem prefix_lookup_unique:
  "lookupPendingId (fst (am_run evs (new_manager :: 'p approval_manager))) input = Prefix i \<longleftrightarrow>
    trim input \<noteq> []
    \<and> getSnapshot_approval (fst (am_run evs (new_manager :: 'p approval_manager))) (trim input) = None
    \<and> {j. resolve_result (fst (am_run evs (new_manager :: 'p approval_manager))) j
           \<and> id_has_prefix (trim input) j} = {i}"
proof -
  have "am_ok (fst (am_run evs (new_manager :: 'p approval_manager)))" by (simp add: am_ok_run)
  then show ?thesis
    by (simp add: lookup_Prefix getSnapshot_approval_def resolve_result_def)
qed

text \<open>A request that nobody answers, and one that is allowed once and used.\<close>

definition approval_example :: "unit approval_event list" where
  "approval_example = [RegisterNew ''u-1'' 1000 () 500 (Some ''ap-1''), RegisterNew ''u-2'' 1001 () 500 None,
     ResolveApproval ''ap-1'' AllowOnce (Some ''ops'') 1100, ConsumeAllowOnce ''ap-1'', ConsumeAllowOnce ''ap-1'']"

theorem approvals_run_out_witness:
  "am_timers (fst (fire_all [1, 2, 3] 2000 (fst (am_run approval_example new_manager)))) = []
   \<and> 3 \<le> 2 * length (am_timers (fst (am_run approval_example (new_manager :: unit approval_manager))))"
proof -
  have f: "fires [1, 2, 3] 2000 (fst (am_run approval_example new_manager))" by code_simp
  have "am_timers (fst (fire_all [1, 2, 3] 2000 (fst (am_run approval_example new_manager)))) = []"
    by code_simp
  then show ?thesis using approvals_run_out[OF f] by simp
qed

end
