(* ===== verification/AuthRateLimit.thy ===== *)
theory AuthRateLimit
  imports Prelude "HOL-Library.AList"
begin

text \<open>
  The rate limiter of the OpenClaw gateway's authentication
  (openclaw/src/gateway/auth-rate-limit.ts): a table of recent failures by scope and address, with
  a sliding window and a lockout. Reading an address (openclaw/src/gateway/net.ts) rests on the
  package ipaddr.js, so the canonical form of an address and whether it is a loopback one are two
  functions; times are whole milliseconds.
\<close>

section \<open>Configuration\<close>

record rate_limit_config =
  cfg_maxAttempts :: "int option"
  cfg_windowMs :: "int option"
  cfg_lockoutMs :: "int option"
  cfg_exemptLoopback :: "bool option"
  cfg_pruneIntervalMs :: "int option"

record rate_limiter_settings =
  rl_maxAttempts :: int
  rl_windowMs :: int
  rl_lockoutMs :: int
  rl_exemptLoopback :: bool
  rl_pruneTimer :: "int option"

definition limiter_settings :: "rate_limit_config option \<Rightarrow> rate_limiter_settings" where
  "limiter_settings config =
     (let interval = nullish (Option.bind config cfg_pruneIntervalMs) 60000 in
     \<lparr>rl_maxAttempts = nullish (Option.bind config cfg_maxAttempts) 10,
      rl_windowMs = nullish (Option.bind config cfg_windowMs) 60000,
      rl_lockoutMs = nullish (Option.bind config cfg_lockoutMs) 300000,
      rl_exemptLoopback = nullish (Option.bind config cfg_exemptLoopback) True,
      rl_pruneTimer = (if interval > 0 then Some interval else None)\<rparr>)"

record net_addresses =
  na_resolveClientIp :: "string option \<Rightarrow> string option"
  na_isLoopback :: "string \<Rightarrow> bool"

section \<open>Keys\<close>

definition normalizeRateLimitClientIp :: "net_addresses \<Rightarrow> string option \<Rightarrow> string" where
  "normalizeRateLimitClientIp net ip =
     (case ip of
        Some s \<Rightarrow> if take 15 s = ''browser-origin:'' then s else nullish (na_resolveClientIp net ip) ''unknown''
      | None \<Rightarrow> nullish (na_resolveClientIp net ip) ''unknown'')"

definition normalizeScope :: "string option \<Rightarrow> string" where
  "normalizeScope scope =
     (let t = trim (nullish scope ''default'') in if t = [] then ''default'' else t)"

definition resolveKey :: "net_addresses \<Rightarrow> string option \<Rightarrow> string option \<Rightarrow> string \<times> string" where
  "resolveKey net rawIp rawScope =
     (let ip = normalizeRateLimitClientIp net rawIp in (normalizeScope rawScope @ '':'' @ ip, ip))"

definition isExempt :: "net_addresses \<Rightarrow> rate_limiter_settings \<Rightarrow> string \<Rightarrow> bool" where
  "isExempt net cfg ip \<longleftrightarrow> rl_exemptLoopback cfg \<and> na_isLoopback net ip"

section \<open>The table\<close>

record rate_limit_entry =
  re_attempts :: "int list"
  re_lockedUntil :: "int option"

type_synonym rate_table = "(string \<times> rate_limit_entry) list"

record rate_limit_check =
  rc_allowed :: bool
  rc_remaining :: int
  rc_retryAfterMs :: int

text \<open>A lock that counts: JavaScript reads the instant 0 as no lock.\<close>

definition lock_of :: "rate_limit_entry \<Rightarrow> int option" where
  "lock_of e = (case re_lockedUntil e of Some u \<Rightarrow> if u = 0 then None else Some u | None \<Rightarrow> None)"

definition locked :: "rate_limit_entry \<Rightarrow> int \<Rightarrow> bool" where
  "locked e now \<longleftrightarrow> (case lock_of e of Some u \<Rightarrow> now < u | None \<Rightarrow> False)"

definition slideWindow :: "rate_limiter_settings \<Rightarrow> int \<Rightarrow> rate_limit_entry \<Rightarrow> rate_limit_entry" where
  "slideWindow cfg now e = e\<lparr>re_attempts := filter (\<lambda>ts. ts > now - rl_windowMs cfg) (re_attempts e)\<rparr>"

text \<open>What \<open>check\<close> makes of the entry of a client that is not locked out.\<close>

definition refreshed :: "rate_limiter_settings \<Rightarrow> int \<Rightarrow> rate_limit_entry \<Rightarrow> rate_limit_entry" where
  "refreshed cfg now e = slideWindow cfg now
     (if lock_of e \<noteq> None then e\<lparr>re_lockedUntil := None, re_attempts := []\<rparr> else e)"

definition check_limit :: "net_addresses \<Rightarrow> rate_limiter_settings \<Rightarrow> string option \<Rightarrow> string option \<Rightarrow> int
  \<Rightarrow> rate_table \<Rightarrow> rate_limit_check \<times> rate_table" where
  "check_limit net cfg rawIp rawScope now entries =
     (let (key, ip) = resolveKey net rawIp rawScope;
          free = \<lparr>rc_allowed = True, rc_remaining = rl_maxAttempts cfg, rc_retryAfterMs = 0\<rparr> in
      if isExempt net cfg ip then (free, entries)
      else case map_of entries key of
        None \<Rightarrow> (free, entries)
      | Some e \<Rightarrow>
          if locked e now
          then (\<lparr>rc_allowed = False, rc_remaining = 0, rc_retryAfterMs = the (lock_of e) - now\<rparr>, entries)
          else (let f = refreshed cfg now e;
                    remaining = max 0 (rl_maxAttempts cfg - int (length (re_attempts f))) in
            (\<lparr>rc_allowed = remaining > 0, rc_remaining = remaining, rc_retryAfterMs = 0\<rparr>,
             AList.update key f entries)))"

definition failed_entry :: "rate_limiter_settings \<Rightarrow> int \<Rightarrow> rate_limit_entry \<Rightarrow> rate_limit_entry" where
  "failed_entry cfg now e =
     (let f = slideWindow cfg now e; g = f\<lparr>re_attempts := re_attempts f @ [now]\<rparr> in
      if int (length (re_attempts g)) \<ge> rl_maxAttempts cfg
      then g\<lparr>re_lockedUntil := Some (now + rl_lockoutMs cfg)\<rparr> else g)"

definition recordFailure :: "net_addresses \<Rightarrow> rate_limiter_settings \<Rightarrow> string option \<Rightarrow> string option \<Rightarrow> int
  \<Rightarrow> rate_table \<Rightarrow> rate_table" where
  "recordFailure net cfg rawIp rawScope now entries =
     (let (key, ip) = resolveKey net rawIp rawScope in
      if isExempt net cfg ip then entries
      else (let e = (case map_of entries key of Some e \<Rightarrow> e | None \<Rightarrow> \<lparr>re_attempts = [], re_lockedUntil = None\<rparr>) in
        if locked e now then entries else AList.update key (failed_entry cfg now e) entries))"

definition reset_limit :: "net_addresses \<Rightarrow> string option \<Rightarrow> string option \<Rightarrow> rate_table \<Rightarrow> rate_table" where
  "reset_limit net rawIp rawScope entries = AList.delete (fst (resolveKey net rawIp rawScope)) entries"

definition prune_entry :: "rate_limiter_settings \<Rightarrow> int \<Rightarrow> string \<times> rate_limit_entry
  \<Rightarrow> (string \<times> rate_limit_entry) list" where
  "prune_entry cfg now x =
     (if locked (snd x) now then [x]
      else (let f = slideWindow cfg now (snd x) in if re_attempts f = [] then [] else [(fst x, f)]))"

definition prune_limit :: "rate_limiter_settings \<Rightarrow> int \<Rightarrow> rate_table \<Rightarrow> rate_table" where
  "prune_limit cfg now entries = concat (map (prune_entry cfg now) entries)"

definition size_limit :: "rate_table \<Rightarrow> nat" where
  "size_limit entries = length entries"

definition dispose_limit :: "rate_table \<Rightarrow> rate_table" where
  "dispose_limit entries = []"

section \<open>One entry at a time\<close>

text \<open>The steps on the entry of one key, and what the table's operations do to that entry.\<close>

lemma map_of_prune:
  "distinct (map fst entries) \<Longrightarrow>
   map_of (prune_limit cfg now entries) key =
     (case map_of entries key of
        None \<Rightarrow> None
      | Some e \<Rightarrow> (if locked e now then Some e
          else (let f = slideWindow cfg now e in if re_attempts f = [] then None else Some f)))"
proof (induction entries)
  case (Cons x entries)
  obtain k e where x: "x = (k, e)" by (cases x)
  have IH: "map_of (prune_limit cfg now entries) key =
     (case map_of entries key of
        None \<Rightarrow> None
      | Some e \<Rightarrow> (if locked e now then Some e
          else (let f = slideWindow cfg now e in if re_attempts f = [] then None else Some f)))"
    using Cons by simp
  have split: "prune_limit cfg now ((k, e) # entries) = prune_entry cfg now (k, e) @ prune_limit cfg now entries"
    by (simp add: prune_limit_def)
  show ?case
  proof (cases "k = key")
    case True
    then have "map_of entries key = None" using Cons.prems x by (simp add: map_of_eq_None_iff)
    then show ?thesis using IH True split by (simp add: x prune_entry_def Let_def)
  next
    case False
    then show ?thesis using IH split by (simp add: x prune_entry_def Let_def)
  qed
qed (simp add: prune_limit_def)

lemma prune_keys: "set (map fst (prune_limit cfg now entries)) \<subseteq> set (map fst entries)"
  by (force simp: prune_limit_def prune_entry_def Let_def split: if_splits)

lemma distinct_prune: "distinct (map fst entries) \<Longrightarrow> distinct (map fst (prune_limit cfg now entries))"
proof (induction entries)
  case (Cons x entries)
  have "fst x \<notin> set (map fst (prune_limit cfg now entries))"
    using Cons.prems prune_keys[of cfg now entries] by auto
  moreover have "prune_limit cfg now (x # entries) = prune_entry cfg now x @ prune_limit cfg now entries"
    by (simp add: prune_limit_def)
  ultimately show ?case using Cons by (simp add: prune_entry_def Let_def)
qed (simp add: prune_limit_def)

section \<open>The window\<close>

text \<open>
  How an entry stands for the wrong guesses \<open>G\<close> of its client: from now on no window holds more of
  them than of the entry's own instants, and a lock lasts until the newest of them is out.
\<close>

definition recent :: "int \<Rightarrow> int \<Rightarrow> int list \<Rightarrow> nat" where
  "recent w t xs = length (filter (\<lambda>g. g > t - w) xs)"

definition stands_for :: "rate_limiter_settings \<Rightarrow> int \<Rightarrow> rate_limit_entry option \<Rightarrow> int list \<Rightarrow> bool" where
  "stands_for cfg now oe G \<longleftrightarrow> (case oe of
     None \<Rightarrow> \<forall>g\<in>set G. g \<le> now - rl_windowMs cfg
   | Some e \<Rightarrow> (\<forall>t\<ge>now. recent (rl_windowMs cfg) t G \<le> recent (rl_windowMs cfg) t (re_attempts e))
       \<and> (\<forall>u. re_lockedUntil e = Some u \<longrightarrow> u \<noteq> 0 \<and> (\<forall>g\<in>set G. g + rl_lockoutMs cfg \<le> u)))"

lemma recent_simps [simp]:
  "recent w t [] = 0" "recent w t (xs @ ys) = recent w t xs + recent w t ys"
  by (simp_all add: recent_def)

lemma recent_le_length: "recent w t xs \<le> length xs"
  by (simp add: recent_def)

lemma recent_slide: "s \<le> t \<Longrightarrow> recent w t (filter (\<lambda>g. g > s - w) xs) = recent w t xs"
proof -
  assume "s \<le> t"
  then have "filter (\<lambda>g. g > t - w) (filter (\<lambda>g. g > s - w) xs) = filter (\<lambda>g. g > t - w) xs"
    by (auto intro!: filter_cong)
  then show ?thesis by (simp only: recent_def)
qed

lemma recent_0: "recent w t xs = 0 \<longleftrightarrow> (\<forall>g\<in>set xs. g \<le> t - w)"
  by (auto simp: recent_def filter_empty_conv not_less)

lemma recent_late: "(\<forall>g\<in>set G. g \<le> s - w) \<Longrightarrow> s \<le> t \<Longrightarrow> recent w t G = 0"
  by (force simp: recent_0)

lemma stands_for_later: "stands_for cfg now oe G \<Longrightarrow> now \<le> t \<Longrightarrow> stands_for cfg t oe G"
  by (fastforce simp: stands_for_def split: option.splits)

lemma lock_of_eq:
  assumes "stands_for cfg now (Some e) G"
  shows "lock_of e = re_lockedUntil e"
  using assms by (auto simp: stands_for_def lock_of_def split: option.splits)

lemma refreshed_stands_for:
  assumes s: "stands_for cfg now (Some e) G" and "now \<le> t" and n: "\<not> locked e t"
    and lw: "rl_windowMs cfg \<le> rl_lockoutMs cfg"
  shows "stands_for cfg t (Some (refreshed cfg t e)) G" and "re_lockedUntil (refreshed cfg t e) = None"
proof -
  have lock: "lock_of e = re_lockedUntil e" by (rule lock_of_eq[OF s])
  show r: "re_lockedUntil (refreshed cfg t e) = None"
    using lock by (simp add: refreshed_def slideWindow_def)
  show "stands_for cfg t (Some (refreshed cfg t e)) G"
  proof (cases "re_lockedUntil e")
    case None
    then have "re_attempts (refreshed cfg t e) = filter (\<lambda>g. g > t - rl_windowMs cfg) (re_attempts e)"
      using lock by (simp add: refreshed_def slideWindow_def)
    then show ?thesis using stands_for_later[OF s \<open>now \<le> t\<close>] r
      by (simp add: stands_for_def recent_slide)
  next
    case (Some u)
    then have "u \<le> t" using n lock by (simp add: locked_def)
    then have "\<forall>g\<in>set G. g \<le> t - rl_windowMs cfg"
      using s Some lw by (force simp: stands_for_def)
    then have "recent (rl_windowMs cfg) t' G = 0" if "t \<le> t'" for t' using recent_late that by blast
    then show ?thesis using r by (simp add: stands_for_def)
  qed
qed

lemma failed_stands_for:
  assumes s: "stands_for cfg t oe G" and e: "e = (case oe of Some e \<Rightarrow> e | None \<Rightarrow> \<lparr>re_attempts = [], re_lockedUntil = None\<rparr>)"
    and u: "re_lockedUntil e = None" and G: "\<forall>g\<in>set G. g \<le> t" and t: "0 < t" "0 \<le> rl_lockoutMs cfg"
  shows "stands_for cfg t (Some (failed_entry cfg t e)) (G @ [t])"
proof -
  let ?a = "filter (\<lambda>g. g > t - rl_windowMs cfg) (re_attempts e)"
  have le: "recent (rl_windowMs cfg) t' G \<le> recent (rl_windowMs cfg) t' ?a" if "t \<le> t'" for t'
  proof (cases oe)
    case None
    then show ?thesis using s that by (simp add: stands_for_def recent_late)
  next
    case (Some e')
    then show ?thesis using s that e by (simp add: stands_for_def recent_slide)
  qed
  have "re_attempts (failed_entry cfg t e) = ?a @ [t]"
    by (simp add: failed_entry_def slideWindow_def Let_def)
  moreover have "re_lockedUntil (failed_entry cfg t e) = Some v \<Longrightarrow> v = t + rl_lockoutMs cfg" for v
    using u by (simp add: failed_entry_def slideWindow_def Let_def split: if_splits)
  ultimately show ?thesis using le G t by (force simp: stands_for_def)
qed

lemma pruned_stands_for:
  assumes s: "stands_for cfg now oe G" and "now \<le> t"
    and p: "oe' = (case oe of
        None \<Rightarrow> None
      | Some e \<Rightarrow> (if locked e t then Some e
          else (let f = slideWindow cfg t e in if re_attempts f = [] then None else Some f)))"
  shows "stands_for cfg t oe' G"
proof (cases oe)
  case None
  then show ?thesis using stands_for_later[OF s \<open>now \<le> t\<close>] p by simp
next
  case (Some e)
  have s': "stands_for cfg t (Some e) G" using stands_for_later[OF s \<open>now \<le> t\<close>] Some by simp
  let ?f = "slideWindow cfg t e"
  have f: "re_attempts ?f = filter (\<lambda>g. g > t - rl_windowMs cfg) (re_attempts e)"
    "re_lockedUntil ?f = re_lockedUntil e"
    by (simp_all add: slideWindow_def)
  have sf: "stands_for cfg t (Some ?f) G"
    using s' by (simp add: stands_for_def f recent_slide)
  have "stands_for cfg t None G" if "re_attempts ?f = []"
  proof -
    have "recent (rl_windowMs cfg) t G \<le> recent (rl_windowMs cfg) t (re_attempts ?f)"
      using sf by (simp add: stands_for_def)
    then show ?thesis using that by (simp add: stands_for_def recent_0[symmetric])
  qed
  then show ?thesis using Some p s' sf by (simp add: Let_def)
qed

text \<open>No window of the configured length holds more than the configured number of guesses.\<close>

definition windows_ok :: "rate_limiter_settings \<Rightarrow> int list \<Rightarrow> bool" where
  "windows_ok cfg G \<longleftrightarrow> (\<forall>T. int (length (filter (\<lambda>g. T < g \<and> g \<le> T + rl_windowMs cfg) G)) \<le> rl_maxAttempts cfg)"

lemma windows_ok_guess:
  assumes w: "windows_ok cfg G" and G: "\<forall>g\<in>set G. g \<le> t"
    and r: "int (recent (rl_windowMs cfg) t G) < rl_maxAttempts cfg"
  shows "windows_ok cfg (G @ [t])"
  unfolding windows_ok_def
proof
  fix T
  show "int (length (filter (\<lambda>g. T < g \<and> g \<le> T + rl_windowMs cfg) (G @ [t]))) \<le> rl_maxAttempts cfg"
  proof (cases "T < t \<and> t \<le> T + rl_windowMs cfg")
    case True
    then have "length (filter (\<lambda>g. T < g \<and> g \<le> T + rl_windowMs cfg) G) \<le> recent (rl_windowMs cfg) t G"
      unfolding recent_def by (induction G) auto
    then show ?thesis using True r by simp
  next
    case False
    then show ?thesis using w by (auto simp: windows_ok_def)
  qed
qed

end
