(* ===== verification/GatewayAuth.thy ===== *)
theory GatewayAuth
  imports AuthRateLimit OpenClawText
begin

text \<open>
  Who may connect to the OpenClaw gateway: the shared token or password, the trusted proxy and
  Tailscale of openclaw/src/gateway/auth.ts under the rate limiter, and what a connect frame's
  credentials amount to (openclaw/src/gateway/server/ws-connection/auth-context.ts). SHA-256 is
  taken to tell different secrets apart, so comparing digests is comparing texts. What the
  Tailscale daemon answers comes with the request, and so do the addresses that
  openclaw/src/gateway/net.ts resolves and the verdict on a browser's origin. Attempts whose
  lookup is awaited are serialised by the code, so an attempt is one step. A connect frame that names
  a device goes on to its tokens; what their stores say comes with the frame. The readiness probe
  of server-http.ts compares the same secret without the limiter.
\<close>

section \<open>Results\<close>

datatype auth_mode = ModeNone | ModeToken | ModePassword | ModeTrustedProxy

datatype auth_method =
    MethodNone | MethodToken | MethodPassword | MethodTailscale | MethodDeviceToken
  | MethodBootstrapToken | MethodTrustedProxy

record trusted_proxy_config =
  tp_userHeader :: string
  tp_requiredHeaders :: "string list"
  tp_allowUsers :: "string list"

record resolved_auth =
  ra_mode :: auth_mode
  ra_token :: "string option"
  ra_password :: "string option"
  ra_allowTailscale :: bool
  ra_trustedProxy :: "trusted_proxy_config option"

record auth_result =
  au_ok :: bool
  au_method :: "auth_method option"
  au_user :: "string option"
  au_reason :: "string option"
  au_rateLimited :: bool
  au_retryAfterMs :: "int option"

definition auth_accept :: "auth_method \<Rightarrow> string option \<Rightarrow> auth_result" where
  "auth_accept m user = \<lparr>au_ok = True, au_method = Some m, au_user = user, au_reason = None,
     au_rateLimited = False, au_retryAfterMs = None\<rparr>"

definition auth_refuse :: "string \<Rightarrow> auth_result" where
  "auth_refuse reason = \<lparr>au_ok = False, au_method = None, au_user = None, au_reason = Some reason,
     au_rateLimited = False, au_retryAfterMs = None\<rparr>"

definition auth_limited :: "int \<Rightarrow> auth_result" where
  "auth_limited retryAfterMs = \<lparr>au_ok = False, au_method = None, au_user = None,
     au_reason = Some ''rate_limited'', au_rateLimited = True, au_retryAfterMs = Some retryAfterMs\<rparr>"

record connect_secrets =
  cs_token :: "string option"
  cs_password :: "string option"

text \<open>
  A request: the client's address for the limiter, the peer of the socket, the first value of each
  header, the configured proxies and whether the peer is one of them, the origin and the verdict
  on it, and for Tailscale the forwarded address and who the daemon says it belongs to.
\<close>

record auth_request =
  aq_ip :: "string option"
  aq_remoteAddr :: "string option"
  aq_headers :: "string \<Rightarrow> string option"
  aq_trustedProxies :: "string list"
  aq_fromTrustedProxy :: bool
  aq_origin :: "string option"
  aq_originOk :: bool
  aq_tailscaleIp :: "string option"
  aq_whois :: "string option"

datatype auth_surface = SurfaceHttp | SurfaceWsControlUi

section \<open>Tailscale\<close>

definition isLoopbackAddress :: "net_addresses \<Rightarrow> string option \<Rightarrow> bool" where
  "isLoopbackAddress net ip \<longleftrightarrow> (case ip of None \<Rightarrow> False | Some a \<Rightarrow> na_isLoopback net a)"

definition isLocalDirectRequest :: "net_addresses \<Rightarrow> auth_request \<Rightarrow> bool" where
  "isLocalDirectRequest net req \<longleftrightarrow>
     \<not> (\<exists>h\<in>set [''forwarded'', ''x-forwarded-for'', ''x-forwarded-proto'', ''x-real-ip'', ''x-forwarded-host''].
          truthy_string (aq_headers req h))
     \<and> isLoopbackAddress net (aq_remoteAddr req)"

definition getTailscaleUser :: "auth_request \<Rightarrow> string option" where
  "getTailscaleUser req = normalizeOptionalString (aq_headers req ''tailscale-user-login'')"

definition isTailscaleProxyRequest :: "net_addresses \<Rightarrow> auth_request \<Rightarrow> bool" where
  "isTailscaleProxyRequest net req \<longleftrightarrow> isLoopbackAddress net (aq_remoteAddr req)
     \<and> (\<forall>h\<in>set [''x-forwarded-for'', ''x-forwarded-proto'', ''x-forwarded-host''].
          truthy_string (aq_headers req h))"

definition resolveVerifiedTailscaleUser :: "net_addresses \<Rightarrow> auth_request \<Rightarrow> string + string" where
  "resolveVerifiedTailscaleUser net req =
     (case getTailscaleUser req of
        None \<Rightarrow> Inl ''tailscale_user_missing''
      | Some user \<Rightarrow>
          if \<not> isTailscaleProxyRequest net req then Inl ''tailscale_proxy_missing''
          else if \<not> truthy_string (aq_tailscaleIp req) then Inl ''tailscale_whois_failed''
          else if \<not> truthy_string (aq_whois req) then Inl ''tailscale_whois_failed''
          else if normalizeLowercaseStringOrEmpty (aq_whois req) \<noteq> normalizeLowercaseStringOrEmpty (Some user)
          then Inl ''tailscale_user_mismatch''
          else Inr (the (aq_whois req)))"

section \<open>A trusted proxy\<close>

definition authorizeTrustedProxy :: "net_addresses \<Rightarrow> auth_request \<Rightarrow> trusted_proxy_config \<Rightarrow> string + string" where
  "authorizeTrustedProxy net req tp =
     (if \<not> truthy_string (aq_remoteAddr req) \<or> \<not> aq_fromTrustedProxy req
      then Inl ''trusted_proxy_untrusted_source''
      else if isLoopbackAddress net (aq_remoteAddr req) then Inl ''trusted_proxy_loopback_source''
      else case List.find (\<lambda>h. normalizeOptionalString (aq_headers req (normalizeLowercaseStringOrEmpty (Some h))) = None)
                  (tp_requiredHeaders tp) of
        Some h \<Rightarrow> Inl (''trusted_proxy_missing_header_'' @ h)
      | None \<Rightarrow>
          (case normalizeOptionalString (aq_headers req (normalizeLowercaseStringOrEmpty (Some (tp_userHeader tp)))) of
             None \<Rightarrow> Inl ''trusted_proxy_user_missing''
           | Some user \<Rightarrow>
               if tp_allowUsers tp \<noteq> [] \<and> user \<notin> set (tp_allowUsers tp)
               then Inl ''trusted_proxy_user_not_allowed'' else Inr user))"

definition authorizeTrustedProxyBrowserOrigin :: "auth_surface \<Rightarrow> auth_request \<Rightarrow> string option" where
  "authorizeTrustedProxyBrowserOrigin surface req =
     (if surface \<noteq> SurfaceHttp then None
      else if normalizeOptionalString (aq_origin req) = None then None
      else if aq_originOk req then None else Some ''trusted_proxy_origin_not_allowed'')"

definition authorizeByProxy :: "net_addresses \<Rightarrow> resolved_auth \<Rightarrow> auth_request \<Rightarrow> auth_surface \<Rightarrow> auth_result" where
  "authorizeByProxy net auth req surface =
     (case ra_trustedProxy auth of
        None \<Rightarrow> auth_refuse ''trusted_proxy_config_missing''
      | Some tp \<Rightarrow>
          if aq_trustedProxies req = [] then auth_refuse ''trusted_proxy_no_proxies_configured''
          else (case authorizeTrustedProxy net req tp of
             Inl reason \<Rightarrow> auth_refuse reason
           | Inr user \<Rightarrow> (case authorizeTrustedProxyBrowserOrigin surface req of
                Some reason \<Rightarrow> auth_refuse reason
              | None \<Rightarrow> auth_accept MethodTrustedProxy (Some user))))"

section \<open>Shared secrets\<close>

definition safeEqualSecret :: "string option \<Rightarrow> string option \<Rightarrow> bool" where
  "safeEqualSecret provided expected \<longleftrightarrow> provided \<noteq> None \<and> provided = expected"

definition limiter_failure :: "net_addresses \<Rightarrow> rate_limiter_settings option \<Rightarrow> string option \<Rightarrow> string \<Rightarrow> int
  \<Rightarrow> rate_table \<Rightarrow> rate_table" where
  "limiter_failure net l ip scope now tbl =
     (case l of None \<Rightarrow> tbl | Some cfg \<Rightarrow> recordFailure net cfg ip (Some scope) now tbl)"

definition limiter_reset :: "net_addresses \<Rightarrow> rate_limiter_settings option \<Rightarrow> string option \<Rightarrow> string
  \<Rightarrow> rate_table \<Rightarrow> rate_table" where
  "limiter_reset net l ip scope tbl =
     (case l of None \<Rightarrow> tbl | Some cfg \<Rightarrow> reset_limit net ip (Some scope) tbl)"

definition authorizeTokenAuth :: "net_addresses \<Rightarrow> string option \<Rightarrow> string option \<Rightarrow> rate_limiter_settings option
  \<Rightarrow> string option \<Rightarrow> string \<Rightarrow> int \<Rightarrow> rate_table \<Rightarrow> auth_result \<times> rate_table" where
  "authorizeTokenAuth net authToken connectToken l ip scope now tbl =
     (if \<not> truthy_string authToken then (auth_refuse ''token_missing_config'', tbl)
      else if \<not> truthy_string connectToken then (auth_refuse ''token_missing'', tbl)
      else if \<not> safeEqualSecret connectToken authToken
      then (auth_refuse ''token_mismatch'', limiter_failure net l ip scope now tbl)
      else (auth_accept MethodToken None, limiter_reset net l ip scope tbl))"

definition authorizePassword :: "net_addresses \<Rightarrow> string option \<Rightarrow> string option \<Rightarrow> rate_limiter_settings option
  \<Rightarrow> string option \<Rightarrow> string \<Rightarrow> int \<Rightarrow> rate_table \<Rightarrow> auth_result \<times> rate_table" where
  "authorizePassword net authPassword password l ip scope now tbl =
     (if \<not> truthy_string authPassword then (auth_refuse ''password_missing_config'', tbl)
      else if \<not> truthy_string password then (auth_refuse ''password_missing'', tbl)
      else if \<not> safeEqualSecret password authPassword
      then (auth_refuse ''password_mismatch'', limiter_failure net l ip scope now tbl)
      else (auth_accept MethodPassword None, limiter_reset net l ip scope tbl))"

definition hasExplicitSharedSecretAuth :: "connect_secrets option \<Rightarrow> bool" where
  "hasExplicitSharedSecretAuth c \<longleftrightarrow>
     truthy_string (normalizeOptionalString (Option.bind c cs_token))
     \<or> truthy_string (normalizeOptionalString (Option.bind c cs_password))"

definition limiter_check :: "net_addresses \<Rightarrow> rate_limiter_settings option \<Rightarrow> string option \<Rightarrow> string \<Rightarrow> int
  \<Rightarrow> rate_table \<Rightarrow> int option \<times> rate_table" where
  "limiter_check net l ip scope now tbl =
     (case l of
        None \<Rightarrow> (None, tbl)
      | Some cfg \<Rightarrow> (let (c, t) = check_limit net cfg ip (Some scope) now tbl in
          (if rc_allowed c then None else Some (rc_retryAfterMs c), t)))"

definition authorizeBySecret :: "net_addresses \<Rightarrow> resolved_auth \<Rightarrow> connect_secrets option \<Rightarrow> auth_request
  \<Rightarrow> auth_surface \<Rightarrow> rate_limiter_settings option \<Rightarrow> string \<Rightarrow> int \<Rightarrow> rate_table \<Rightarrow> auth_result \<times> rate_table" where
  "authorizeBySecret net auth connectAuth req surface l scope now tbl =
     (let (limited, tbl1) = limiter_check net l (aq_ip req) scope now tbl in
      case limited of
        Some retryAfterMs \<Rightarrow> (auth_limited retryAfterMs, tbl1)
      | None \<Rightarrow>
          (case (if surface = SurfaceWsControlUi \<and> ra_allowTailscale auth \<and> \<not> isLocalDirectRequest net req
                   \<and> \<not> hasExplicitSharedSecretAuth connectAuth
                 then resolveVerifiedTailscaleUser net req else Inl []) of
             Inr login \<Rightarrow> (auth_accept MethodTailscale (Some login), limiter_reset net l (aq_ip req) scope tbl1)
           | Inl reason \<Rightarrow>
               if ra_mode auth = ModeToken
               then authorizeTokenAuth net (ra_token auth) (Option.bind connectAuth cs_token) l (aq_ip req) scope now tbl1
               else authorizePassword net (ra_password auth) (Option.bind connectAuth cs_password) l (aq_ip req) scope now tbl1))"

definition authorizeGatewayConnect :: "net_addresses \<Rightarrow> resolved_auth \<Rightarrow> connect_secrets option \<Rightarrow> auth_request
  \<Rightarrow> auth_surface \<Rightarrow> rate_limiter_settings option \<Rightarrow> string \<Rightarrow> int \<Rightarrow> rate_table \<Rightarrow> auth_result \<times> rate_table" where
  "authorizeGatewayConnect net auth connectAuth req surface l scope now tbl =
     (case ra_mode auth of
        ModeTrustedProxy \<Rightarrow> (authorizeByProxy net auth req surface, tbl)
      | ModeNone \<Rightarrow> (auth_accept MethodNone None, tbl)
      | _ \<Rightarrow> authorizeBySecret net auth connectAuth req surface l scope now tbl)"

section \<open>Credentials of a connect frame\<close>

record handshake_auth =
  ha_token :: "string option"
  ha_bootstrapToken :: "string option"
  ha_deviceToken :: "string option"
  ha_password :: "string option"

record connect_auth_state =
  ca_authResult :: auth_result
  ca_authOk :: bool
  ca_authMethod :: auth_method
  ca_sharedAuthOk :: bool
  ca_sharedAuthProvided :: bool
  ca_bootstrapTokenCandidate :: "string option"
  ca_deviceTokenCandidate :: "(string \<times> bool) option"

definition resolveSharedConnectAuth :: "handshake_auth option \<Rightarrow> connect_secrets option" where
  "resolveSharedConnectAuth c =
     (let token = normalizeOptionalString (Option.bind c ha_token);
          password = normalizeOptionalString (Option.bind c ha_password) in
      if token = None \<and> password = None then None else Some \<lparr>cs_token = token, cs_password = password\<rparr>)"

text \<open>The token and whether it was given as a device token.\<close>

definition resolveDeviceTokenCandidate :: "handshake_auth option \<Rightarrow> (string \<times> bool) option" where
  "resolveDeviceTokenCandidate c =
     (case normalizeOptionalString (Option.bind c ha_deviceToken) of
        Some t \<Rightarrow> Some (t, True)
      | None \<Rightarrow> map_option (\<lambda>t. (t, False)) (normalizeOptionalString (Option.bind c ha_token)))"

definition resolveConnectAuthState :: "net_addresses \<Rightarrow> resolved_auth \<Rightarrow> handshake_auth option \<Rightarrow> bool \<Rightarrow> auth_request
  \<Rightarrow> rate_limiter_settings option \<Rightarrow> int \<Rightarrow> rate_table \<Rightarrow> connect_auth_state \<times> rate_table" where
  "resolveConnectAuthState net auth connectAuth hasDevice req l now tbl =
     (let shared = resolveSharedConnectAuth connectAuth;
          (res, tbl1) = authorizeGatewayConnect net auth shared req SurfaceWsControlUi
            (if shared \<noteq> None then l else None) ''shared-secret'' now tbl;
          sharedResult = map_option (\<lambda>c. fst (authorizeGatewayConnect net (auth\<lparr>ra_allowTailscale := False\<rparr>)
            (Some c) req SurfaceHttp None ''shared-secret'' now tbl1)) shared;
          sharedOk = (case sharedResult of
              None \<Rightarrow> False
            | Some r \<Rightarrow> au_ok r \<and> (au_method r = Some MethodToken \<or> au_method r = Some MethodPassword))
            \<or> (au_ok res \<and> au_method res = Some MethodTrustedProxy) in
      (\<lparr>ca_authResult = res, ca_authOk = au_ok res,
        ca_authMethod = nullish (au_method res) (if ra_mode auth = ModePassword then MethodPassword else MethodToken),
        ca_sharedAuthOk = sharedOk, ca_sharedAuthProvided = (shared \<noteq> None),
        ca_bootstrapTokenCandidate =
          (if hasDevice then normalizeOptionalString (Option.bind connectAuth ha_bootstrapToken) else None),
        ca_deviceTokenCandidate = (if hasDevice then resolveDeviceTokenCandidate connectAuth else None)\<rparr>, tbl1))"

text \<open>
  The decision when the frame names a device whose signature has been checked: the bootstrap token,
  then the device token under its own scope of the limiter. What the stores of such tokens say comes
  with the call.
\<close>

definition resolveConnectAuthDecision :: "net_addresses \<Rightarrow> connect_auth_state \<Rightarrow> bool \<Rightarrow> bool
  \<Rightarrow> rate_limiter_settings option \<Rightarrow> string option \<Rightarrow> (string \<Rightarrow> bool \<times> string option) \<Rightarrow> (string \<Rightarrow> bool)
  \<Rightarrow> int \<Rightarrow> rate_table \<Rightarrow> (auth_result \<times> bool \<times> auth_method) \<times> rate_table" where
  "resolveConnectAuthDecision net st hasDevice hasShared l ip bootstrapOk deviceOk now tbl =
     (let (res, ok, m) = (case (if hasDevice then ca_bootstrapTokenCandidate st else None) of
              None \<Rightarrow> (ca_authResult st, ca_authOk st, ca_authMethod st)
            | Some b \<Rightarrow>
                if fst (bootstrapOk b) then (ca_authResult st, True, MethodBootstrapToken)
                else if \<not> ca_authOk st
                then (auth_refuse (nullish (snd (bootstrapOk b)) ''bootstrap_token_invalid''), ca_authOk st, ca_authMethod st)
                else (ca_authResult st, ca_authOk st, ca_authMethod st)) in
      case (if \<not> hasDevice \<or> ok then None else ca_deviceTokenCandidate st) of
        None \<Rightarrow> ((res, ok, m), tbl)
      | Some (d, explicit) \<Rightarrow>
          (let (limited, tbl1) = limiter_check net l ip ''device-token'' now tbl in
           case limited of
             Some retryAfterMs \<Rightarrow> ((auth_limited retryAfterMs, ok, m), tbl1)
           | None \<Rightarrow>
               if deviceOk d
               then ((res, True, MethodDeviceToken),
                     (let tbl2 = limiter_reset net l ip ''device-token'' tbl1 in
                      if hasShared then limiter_reset net l ip ''shared-secret'' tbl2 else tbl2))
               else ((auth_refuse (if explicit then ''device_token_mismatch''
                        else nullish (au_reason res) ''device_token_mismatch''), ok, m),
                     limiter_failure net l ip ''device-token'' now tbl1)))"

section \<open>The readiness probe\<close>

text \<open>
  The probe shows its details to local callers and to those with the secret, given as the bearer
  token and compared as either secret (openclaw/src/gateway/server-http.ts).
\<close>

definition canRevealReadinessDetails :: "net_addresses \<Rightarrow> resolved_auth \<Rightarrow> string option \<Rightarrow> auth_request \<Rightarrow> int \<Rightarrow> bool" where
  "canRevealReadinessDetails net auth bearer req now =
     (if isLocalDirectRequest net req then True
      else if ra_mode auth = ModeNone then False
      else au_ok (fst (authorizeGatewayConnect net auth
        (if truthy_string bearer then Some \<lparr>cs_token = bearer, cs_password = bearer\<rparr> else None)
        req SurfaceHttp None ''shared-secret'' now [])))"

text \<open>A wrong secret was compared, and lost.\<close>

definition wrong_guess :: "auth_result \<Rightarrow> bool" where
  "wrong_guess r \<longleftrightarrow> au_reason r = Some ''token_mismatch'' \<or> au_reason r = Some ''password_mismatch''"

section \<open>Guessing\<close>

lemma wrong_guess_simps [simp]:
  "\<not> wrong_guess (auth_accept m u)" "\<not> wrong_guess (auth_limited n)"
  "wrong_guess (auth_refuse ''token_mismatch'')" "wrong_guess (auth_refuse ''password_mismatch'')"
  "\<not> wrong_guess (auth_refuse ''token_missing_config'')" "\<not> wrong_guess (auth_refuse ''token_missing'')"
  "\<not> wrong_guess (auth_refuse ''password_missing_config'')" "\<not> wrong_guess (auth_refuse ''password_missing'')"
  by (simp_all add: wrong_guess_def auth_accept_def auth_limited_def auth_refuse_def)

lemma au_ok_simps [simp]:
  "au_ok (auth_accept m u)" "\<not> au_ok (auth_limited n)" "\<not> au_ok (auth_refuse r)"
  "au_method (auth_accept m u) = Some m"
  by (simp_all add: auth_accept_def auth_limited_def auth_refuse_def)

lemma proxy_not_wrong [simp]: "\<not> wrong_guess (authorizeByProxy net auth req surface)"
proof -
  have "\<not> wrong_guess (auth_refuse (''trusted_proxy_'' @ x))" for x
    by (simp add: wrong_guess_def auth_refuse_def)
  from this[of "''config_missing''"] this[of "''no_proxies_configured''"] this[of "''untrusted_source''"]
    this[of "''loopback_source''"] this[of "''missing_header_'' @ h" for h] this[of "''user_missing''"]
    this[of "''user_not_allowed''"] this[of "''origin_not_allowed''"]
  show ?thesis
    by (simp add: authorizeByProxy_def authorizeTrustedProxy_def authorizeTrustedProxyBrowserOrigin_def
        split: option.split)
qed

lemma shared_secret_key:
  "resolveKey net ip (Some ''shared-secret'') = (''shared-secret:'' @ normalizeRateLimitClientIp net ip, normalizeRateLimitClientIp net ip)"
  by (simp add: resolveKey_def normalizeScope_def trim_eval Let_def)

text \<open>The four ways an attempt under a limiter can end.\<close>

lemma token_outcomes:
  "authorizeTokenAuth net authToken token (Some cfg) ip scope now tbl \<in>
     {(auth_refuse ''token_missing_config'', tbl), (auth_refuse ''token_missing'', tbl),
      (auth_refuse ''token_mismatch'', recordFailure net cfg ip (Some scope) now tbl),
      (auth_accept MethodToken None, reset_limit net ip (Some scope) tbl)}"
  by (simp add: authorizeTokenAuth_def limiter_failure_def limiter_reset_def)

lemma password_outcomes:
  "authorizePassword net authPassword password (Some cfg) ip scope now tbl \<in>
     {(auth_refuse ''password_missing_config'', tbl), (auth_refuse ''password_missing'', tbl),
      (auth_refuse ''password_mismatch'', recordFailure net cfg ip (Some scope) now tbl),
      (auth_accept MethodPassword None, reset_limit net ip (Some scope) tbl)}"
  by (simp add: authorizePassword_def limiter_failure_def limiter_reset_def)

definition attempt_outcome :: "net_addresses \<Rightarrow> rate_limiter_settings \<Rightarrow> string option \<Rightarrow> string \<Rightarrow> int
  \<Rightarrow> rate_table \<Rightarrow> auth_result \<times> rate_table \<Rightarrow> bool" where
  "attempt_outcome net cfg ip scope now tbl x \<longleftrightarrow>
     (snd x = tbl \<and> \<not> wrong_guess (fst x) \<and> \<not> au_ok (fst x))
   \<or> (snd x = reset_limit net ip (Some scope) tbl \<and> au_ok (fst x) \<and> \<not> wrong_guess (fst x))
   \<or> (snd x = recordFailure net cfg ip (Some scope) now tbl \<and> wrong_guess (fst x) \<and> \<not> au_ok (fst x))"

lemma attempt_outcomes:
  "attempt_outcome net cfg ip scope now tbl (authorizeTokenAuth net a t (Some cfg) ip scope now tbl)"
  "attempt_outcome net cfg ip scope now tbl (authorizePassword net a t (Some cfg) ip scope now tbl)"
  using token_outcomes[of net a t cfg ip scope now tbl] password_outcomes[of net a t cfg ip scope now tbl]
  by (elim insertE emptyE; simp only: attempt_outcome_def fst_conv snd_conv wrong_guess_simps au_ok_simps simp_thms)+

lemma auth_outcomes:
  assumes a: "authorizeGatewayConnect net auth cred req surface (Some cfg) scope now tbl = (r, tbl')"
    and c: "check_limit net cfg (aq_ip req) (Some scope) now tbl = (c, tbl1)"
  obtains (same) "tbl' = tbl" "\<not> wrong_guess r" | (check) "tbl' = tbl1" "\<not> wrong_guess r" "\<not> au_ok r"
    | (reset) "tbl' = reset_limit net (aq_ip req) (Some scope) tbl1" "au_ok r"
    | (guess) "tbl' = recordFailure net cfg (aq_ip req) (Some scope) now tbl1" "wrong_guess r" "\<not> au_ok r" "rc_allowed c"
proof (cases "ra_mode auth \<in> {ModeToken, ModePassword}")
  case False
  then have "tbl' = tbl" "\<not> wrong_guess r"
    using a by (cases "ra_mode auth"; auto simp: authorizeGatewayConnect_def)+
  then show thesis by (rule same)
next
  case True
  then have s: "authorizeBySecret net auth cred req surface (Some cfg) scope now tbl = (r, tbl')"
    using a by (auto simp: authorizeGatewayConnect_def)
  show thesis
  proof (cases "rc_allowed c")
    case False
    then have "r = auth_limited (rc_retryAfterMs c)" "tbl' = tbl1"
      using s c by (simp_all add: authorizeBySecret_def limiter_check_def)
    then show thesis using check by simp
  next
    case allowed: True
    let ?ts = "if surface = SurfaceWsControlUi \<and> ra_allowTailscale auth \<and> \<not> isLocalDirectRequest net req
        \<and> \<not> hasExplicitSharedSecretAuth cred then resolveVerifiedTailscaleUser net req else Inl []"
    show thesis
    proof (cases ?ts)
      case (Inr login)
      then have "r = auth_accept MethodTailscale (Some login)" "tbl' = reset_limit net (aq_ip req) (Some scope) tbl1"
        using s c allowed by (simp_all add: authorizeBySecret_def limiter_check_def limiter_reset_def)
      then show thesis using reset by simp
    next
      case (Inl reason)
      then have "attempt_outcome net cfg (aq_ip req) scope now tbl1 (r, tbl')"
        using s c allowed attempt_outcomes
        by (simp add: authorizeBySecret_def limiter_check_def split: if_splits) metis+
      then show thesis using allowed check reset guess by (auto simp: attempt_outcome_def)
    qed
  qed
qed

text \<open>What the limiter's operations do to the entry of one key.\<close>

lemma check_limit_cases:
  assumes "check_limit net cfg ip (Some scope) now tbl = (c, tbl1)" and "resolveKey net ip (Some scope) = (k, a)"
    and "\<not> isExempt net cfg a"
  obtains (free) "map_of tbl k = None" "tbl1 = tbl"
    | (kept) e where "map_of tbl k = Some e" "tbl1 = tbl" "\<not> rc_allowed c"
    | (slid) e where "map_of tbl k = Some e" "\<not> locked e now" "tbl1 = AList.update k (refreshed cfg now e) tbl"
        "rc_allowed c \<longrightarrow> int (length (re_attempts (refreshed cfg now e))) < rl_maxAttempts cfg"
proof (cases "map_of tbl k")
  case None
  with assms have "tbl1 = tbl" by (simp add: check_limit_def Let_def)
  with None show thesis by (rule free)
next
  case (Some e)
  show thesis
  proof (cases "locked e now")
    case True
    with assms Some have "tbl1 = tbl" "\<not> rc_allowed c" by (auto simp: check_limit_def Let_def)
    with Some show thesis by (rule kept)
  next
    case False
    with assms Some have "tbl1 = AList.update k (refreshed cfg now e) tbl"
      "rc_allowed c \<longrightarrow> int (length (re_attempts (refreshed cfg now e))) < rl_maxAttempts cfg"
      by (auto simp: check_limit_def Let_def)
    with Some False show thesis by (rule slid)
  qed
qed

lemma check_limit_other:
  assumes "check_limit net cfg ip scope now tbl = (c, tbl1)" and "fst (resolveKey net ip scope) \<noteq> k"
  shows "map_of tbl1 k = map_of tbl k"
  using assms
  by (auto simp: check_limit_def Let_def AList.update_conv' split: option.splits if_splits prod.splits)

lemma check_limit_distinct:
  "check_limit net cfg ip scope now tbl = (c, tbl1) \<Longrightarrow> distinct (map fst tbl) \<Longrightarrow> distinct (map fst tbl1)"
  by (auto simp: check_limit_def Let_def AList.distinct_update split: option.splits if_splits prod.splits)

lemma recordFailure_other:
  "fst (resolveKey net ip scope) \<noteq> k \<Longrightarrow> map_of (recordFailure net cfg ip scope now tbl) k = map_of tbl k"
  by (auto simp: recordFailure_def Let_def AList.update_conv' split: prod.splits)

lemma recordFailure_distinct:
  "distinct (map fst tbl) \<Longrightarrow> distinct (map fst (recordFailure net cfg ip scope now tbl))"
  by (auto simp: recordFailure_def Let_def AList.distinct_update split: prod.splits)

lemma reset_limit_map:
  "map_of (reset_limit net ip scope tbl) k = (if fst (resolveKey net ip scope) = k then None else map_of tbl k)"
  by (auto simp: reset_limit_def AList.delete_conv')

lemma reset_limit_distinct: "distinct (map fst tbl) \<Longrightarrow> distinct (map fst (reset_limit net ip scope tbl))"
  by (simp add: reset_limit_def AList.distinct_delete)

section \<open>How often a secret can be guessed\<close>

text \<open>
  What reaches the limiter: an attempt at an HTTP endpoint, a connect frame and the tick that prunes
  the table. A connect frame brings its credentials, whether it names a device (then with
  \<open>Some\<close> of whether the device's signature was accepted, and of what the stores of tokens say)
  and whether the frame has a token or password at all.
\<close>

record device_checks =
  dc_signatureOk :: bool
  dc_bootstrapOk :: "string \<Rightarrow> bool \<times> string option"
  dc_deviceOk :: "string \<Rightarrow> bool"

datatype auth_event =
    Attempt "connect_secrets option" auth_request auth_surface int
  | Handshake "handshake_auth option" "device_checks option" auth_request int
  | PruneTick int

fun auth_time :: "auth_event \<Rightarrow> int" where
  "auth_time (Attempt cred req surface now) = now"
| "auth_time (Handshake cred device req now) = now"
| "auth_time (PruneTick now) = now"

definition has_shared_auth :: "handshake_auth option \<Rightarrow> bool" where
  "has_shared_auth c \<longleftrightarrow> truthy_string (Option.bind c ha_token) \<or> truthy_string (Option.bind c ha_password)"

text \<open>A connect frame under the limiter: what the shared secret says, whether it is let in, the table.\<close>

definition handshake_auth_step :: "net_addresses \<Rightarrow> resolved_auth \<Rightarrow> rate_limiter_settings \<Rightarrow> handshake_auth option
  \<Rightarrow> device_checks option \<Rightarrow> auth_request \<Rightarrow> int \<Rightarrow> rate_table \<Rightarrow> connect_auth_state \<times> bool \<times> rate_table" where
  "handshake_auth_step net auth cfg cred device req now tbl =
     (let (st, tbl1) = resolveConnectAuthState net auth cred (device \<noteq> None) req (Some cfg) now tbl in
      case device of
        None \<Rightarrow> (st, ca_authOk st, tbl1)
      | Some d \<Rightarrow>
          if \<not> dc_signatureOk d then (st, ca_authOk st, tbl1)
          else (let ((res, ok, m), tbl2) = resolveConnectAuthDecision net st True (has_shared_auth cred) (Some cfg) (aq_ip req)
                  (dc_bootstrapOk d) (dc_deviceOk d) now tbl1 in (st, ok, tbl2)))"

text \<open>
  A run of attempts from all addresses, with the instants of the wrong guesses that the client \<open>c\<close>
  has made since its credentials were last accepted.
\<close>

fun auth_step :: "net_addresses \<Rightarrow> resolved_auth \<Rightarrow> rate_limiter_settings \<Rightarrow> string \<Rightarrow> auth_event
  \<Rightarrow> rate_table \<times> int list \<Rightarrow> rate_table \<times> int list" where
  "auth_step net auth cfg c (Attempt cred req surface now) (tbl, G) =
     (let (r, tbl1) = authorizeGatewayConnect net auth cred req surface (Some cfg) ''shared-secret'' now tbl in
      (tbl1, if normalizeRateLimitClientIp net (aq_ip req) \<noteq> c then G
             else if au_ok r then [] else if wrong_guess r then G @ [now] else G))"
| "auth_step net auth cfg c (Handshake cred device req now) (tbl, G) =
     (let (st, ok, tbl1) = handshake_auth_step net auth cfg cred device req now tbl in
      (tbl1, if normalizeRateLimitClientIp net (aq_ip req) \<noteq> c then G
             else if ok then [] else if wrong_guess (ca_authResult st) then G @ [now] else G))"
| "auth_step net auth cfg c (PruneTick now) (tbl, G) = (prune_limit cfg now tbl, G)"

definition auth_run :: "net_addresses \<Rightarrow> resolved_auth \<Rightarrow> rate_limiter_settings \<Rightarrow> string \<Rightarrow> auth_event list
  \<Rightarrow> rate_table \<times> int list" where
  "auth_run net auth cfg c evs = fold (auth_step net auth cfg c) evs ([], [])"

definition limiter_ok :: "rate_limiter_settings \<Rightarrow> bool" where
  "limiter_ok cfg \<longleftrightarrow> 0 < rl_maxAttempts cfg \<and> 0 \<le> rl_windowMs cfg \<and> rl_windowMs cfg \<le> rl_lockoutMs cfg"

definition guessed :: "rate_limiter_settings \<Rightarrow> string \<Rightarrow> int \<Rightarrow> rate_table \<times> int list \<Rightarrow> bool" where
  "guessed cfg c now x \<longleftrightarrow> distinct (map fst (fst x)) \<and> stands_for cfg now (map_of (fst x) (''shared-secret:'' @ c)) (snd x)
     \<and> windows_ok cfg (snd x) \<and> (\<forall>g\<in>set (snd x). g \<le> now)"

lemma guessedI:
  "distinct (map fst tbl) \<Longrightarrow> stands_for cfg now (map_of tbl (''shared-secret:'' @ c)) G \<Longrightarrow> windows_ok cfg G
   \<Longrightarrow> \<forall>g\<in>set G. g \<le> now \<Longrightarrow> guessed cfg c now (tbl, G)"
  by (simp add: guessed_def)

lemma stands_for_fresh: "stands_for cfg now None []"
  by (simp add: stands_for_def)

lemma stands_for_empty: "stands_for cfg now oe G \<Longrightarrow> stands_for cfg now oe []"
  by (auto simp: stands_for_def split: option.splits)

lemma check_stands_for:
  assumes c: "check_limit net cfg ip (Some ''shared-secret'') t tbl = (r, tbl1)"
    and s: "stands_for cfg now (map_of tbl k) G" and "now \<le> t"
    and key: "resolveKey net ip (Some ''shared-secret'') = (k, c)" and n: "\<not> isExempt net cfg c" and ok: "limiter_ok cfg"
  shows "stands_for cfg t (map_of tbl1 k) G"
    and "rc_allowed r \<Longrightarrow> (case map_of tbl1 k of
           None \<Rightarrow> True
         | Some e \<Rightarrow> re_lockedUntil e = None \<and> int (length (re_attempts e)) < rl_maxAttempts cfg)"
proof -
  have late: "stands_for cfg t (map_of tbl k) G" by (rule stands_for_later[OF s \<open>now \<le> t\<close>])
  show "stands_for cfg t (map_of tbl1 k) G"
    using c key n
  proof (cases rule: check_limit_cases)
    case (slid e)
    then show ?thesis
      using refreshed_stands_for(1)[of cfg now e G t] s \<open>now \<le> t\<close> ok
      by (simp add: AList.update_conv' limiter_ok_def)
  qed (use late in simp_all)
  show "case map_of tbl1 k of None \<Rightarrow> True
      | Some e \<Rightarrow> re_lockedUntil e = None \<and> int (length (re_attempts e)) < rl_maxAttempts cfg" if "rc_allowed r"
    using c key n
  proof (cases rule: check_limit_cases)
    case (slid e)
    then show ?thesis
      using refreshed_stands_for(2)[of cfg now e G t] s \<open>now \<le> t\<close> ok that
      by (simp add: AList.update_conv' limiter_ok_def)
  qed (use that in simp_all)
qed

lemma failure_stands_for:
  assumes s: "stands_for cfg t (map_of tbl (''shared-secret:'' @ c)) G"
    and a: "case map_of tbl (''shared-secret:'' @ c) of None \<Rightarrow> True
         | Some e \<Rightarrow> re_lockedUntil e = None \<and> int (length (re_attempts e)) < rl_maxAttempts cfg"
    and k: "normalizeRateLimitClientIp net ip = c" and n: "\<not> isExempt net cfg c" and ok: "limiter_ok cfg"
    and G: "\<forall>g\<in>set G. g \<le> t" and w: "windows_ok cfg G" and t: "0 < t"
  shows "stands_for cfg t (map_of (recordFailure net cfg ip (Some ''shared-secret'') t tbl) (''shared-secret:'' @ c)) (G @ [t])"
    and "windows_ok cfg (G @ [t])"
proof -
  let ?k = "''shared-secret:'' @ c"
  define e where "e = (case map_of tbl ?k of Some e \<Rightarrow> e | None \<Rightarrow> \<lparr>re_attempts = [], re_lockedUntil = None\<rparr>)"
  have u: "re_lockedUntil e = None" using a by (simp add: e_def split: option.splits)
  then have "\<not> locked e t" by (simp add: locked_def lock_of_def)
  then have "map_of (recordFailure net cfg ip (Some ''shared-secret'') t tbl) ?k = Some (failed_entry cfg t e)"
    using k n unfolding e_def by (simp add: recordFailure_def shared_secret_key Let_def AList.update_conv')
  moreover have "stands_for cfg t (Some (failed_entry cfg t e)) (G @ [t])"
    using failed_stands_for[OF s e_def u G t] ok by (simp add: limiter_ok_def)
  ultimately show "stands_for cfg t (map_of (recordFailure net cfg ip (Some ''shared-secret'') t tbl) ?k) (G @ [t])"
    by simp
  have "int (recent (rl_windowMs cfg) t G) < rl_maxAttempts cfg"
  proof (cases "map_of tbl ?k")
    case None
    then have "recent (rl_windowMs cfg) t G = 0" using s by (simp add: stands_for_def recent_0)
    then show ?thesis using ok by (simp add: limiter_ok_def)
  next
    case (Some e')
    then have "recent (rl_windowMs cfg) t G \<le> length (re_attempts e')"
      using s recent_le_length order_trans by (fastforce simp: stands_for_def)
    then show ?thesis using a Some by simp
  qed
  then show "windows_ok cfg (G @ [t])" by (rule windows_ok_guess[OF w G])
qed

text \<open>An attempt under the limiter.\<close>

lemma attempt_guessed:
  assumes g: "guessed cfg c now (tbl, G)" and le: "now \<le> t" and pos: "0 < t"
    and n: "\<not> isExempt net cfg c" and ok: "limiter_ok cfg"
    and a: "authorizeGatewayConnect net auth cred req surface (Some cfg) ''shared-secret'' t tbl = (r, tbl')"
  shows "guessed cfg c t (tbl', if normalizeRateLimitClientIp net (aq_ip req) \<noteq> c then G
             else if au_ok r then [] else if wrong_guess r then G @ [t] else G)"
proof -
  let ?k = "''shared-secret:'' @ c"
  have d: "distinct (map fst tbl)" and s: "stands_for cfg now (map_of tbl ?k) G" and w: "windows_ok cfg G"
    and G: "\<forall>g\<in>set G. g \<le> now" using g by (simp_all add: guessed_def)
  have G': "\<forall>g\<in>set G. g \<le> t" using G le by force
  have late: "stands_for cfg t (map_of tbl ?k) G" by (rule stands_for_later[OF s le])
  have w0: "windows_ok cfg []" using ok by (simp add: windows_ok_def limiter_ok_def)
  obtain ck tbl1 where ck: "check_limit net cfg (aq_ip req) (Some ''shared-secret'') t tbl = (ck, tbl1)"
    by fastforce
  have d1: "distinct (map fst tbl1)" by (rule check_limit_distinct[OF ck d])
  have d': "distinct (map fst tbl')"
    using a ck by (cases rule: auth_outcomes) (use d d1 in \<open>simp_all add: recordFailure_distinct reset_limit_distinct\<close>)
  show ?thesis
  proof (cases "normalizeRateLimitClientIp net (aq_ip req) = c")
    case False
    then have key: "fst (resolveKey net (aq_ip req) (Some ''shared-secret'')) \<noteq> ?k"
      by (simp add: shared_secret_key)
    have "map_of tbl' ?k = map_of tbl ?k"
      using a ck by (cases rule: auth_outcomes)
        (simp_all only: check_limit_other[OF ck key] recordFailure_other[OF key] reset_limit_map key if_False)
    then show ?thesis using False d' w G' late by (simp add: guessed_def)
  next
    case True
    have key: "resolveKey net (aq_ip req) (Some ''shared-secret'') = (?k, c)"
      using True by (simp add: shared_secret_key)
    note own = check_stands_for[OF ck s le key n ok]
    have gone: "map_of (reset_limit net (aq_ip req) (Some ''shared-secret'') tbl1) ?k = None"
      using True by (simp add: reset_limit_map shared_secret_key)
    show ?thesis
      using a ck
    proof (cases rule: auth_outcomes)
      case same
      then show ?thesis using True late w w0 G' d stands_for_empty[OF late]
        by (auto intro!: guessedI)
    next
      case check
      then show ?thesis using True own(1) w G' d1 by (auto intro!: guessedI)
    next
      case reset
      then show ?thesis using True w0 d' gone stands_for_fresh by (auto intro!: guessedI)
    next
      case guess
      show ?thesis
        using failure_stands_for[OF own(1) own(2)[OF guess(4)] True n ok G' w pos] guess True d' G'
        by (auto intro!: guessedI)
    qed
  qed
qed

text \<open>Without a limiter an attempt leaves the table alone; without a secret nothing is guessed.\<close>

lemma attempt_unlimited:
  assumes "authorizeGatewayConnect net auth cred req surface None scope now tbl = (r, tbl')"
  shows "tbl' = tbl"
  using assms
  by (cases "ra_mode auth") (auto simp: authorizeGatewayConnect_def authorizeBySecret_def limiter_check_def limiter_reset_def
      limiter_failure_def authorizeTokenAuth_def authorizePassword_def split: if_splits sum.splits)

lemma attempt_without_secret:
  assumes "authorizeGatewayConnect net auth None req surface l scope now tbl = (r, tbl')"
  shows "\<not> wrong_guess r"
  using assms
  by (cases "ra_mode auth") (auto simp: authorizeGatewayConnect_def authorizeBySecret_def authorizeTokenAuth_def
      authorizePassword_def Let_def split: if_splits sum.splits prod.splits option.splits)

lemma state_guessed:
  assumes g: "guessed cfg c now (tbl, G)" and le: "now \<le> t" and pos: "0 < t"
    and n: "\<not> isExempt net cfg c" and ok: "limiter_ok cfg"
    and st: "resolveConnectAuthState net auth cred hasDevice req (Some cfg) t tbl = (st, tbl')"
  shows "guessed cfg c t (tbl', if normalizeRateLimitClientIp net (aq_ip req) \<noteq> c then G
             else if ca_authOk st then [] else if wrong_guess (ca_authResult st) then G @ [t] else G)"
proof -
  let ?shared = "resolveSharedConnectAuth cred"
  obtain r tbl1 where a: "authorizeGatewayConnect net auth ?shared req SurfaceWsControlUi
      (if ?shared \<noteq> None then Some cfg else None) ''shared-secret'' t tbl = (r, tbl1)" by fastforce
  have res: "ca_authResult st = r" "ca_authOk st = au_ok r" "tbl' = tbl1"
    using st a by (auto simp: resolveConnectAuthState_def Let_def)
  show ?thesis
  proof (cases "?shared = None")
    case True
    then have "tbl1 = tbl" "\<not> wrong_guess r"
      using a attempt_unlimited attempt_without_secret by simp_all
    moreover have "guessed cfg c t (tbl, G)"
    proof -
      have "g \<le> t" if "g \<in> set G" for g using g le that by (force simp: guessed_def)
      then show ?thesis using g stands_for_later[of cfg now _ G t] le by (simp add: guessed_def)
    qed
    moreover from this have "guessed cfg c t (tbl, [])"
      using ok stands_for_empty by (auto simp: guessed_def windows_ok_def limiter_ok_def)
    ultimately show ?thesis using res by simp
  next
    case False
    then have "authorizeGatewayConnect net auth ?shared req SurfaceWsControlUi (Some cfg) ''shared-secret'' t tbl = (r, tbl1)"
      using a by simp
    from attempt_guessed[OF g le pos n ok this] show ?thesis unfolding res .
  qed
qed

text \<open>The decision on a device's tokens uses another key, and can only open the one of the secret.\<close>

lemma device_key: "fst (resolveKey net ip (Some ''device-token'')) \<noteq> ''shared-secret:'' @ c"
  by (simp add: resolveKey_def normalizeScope_def trim_eval Let_def)

lemma decision_table:
  assumes "resolveConnectAuthDecision net st hasDevice hasShared (Some cfg) ip bootstrapOk deviceOk now tbl = ((res, ok, m), tbl')"
    and "distinct (map fst tbl)"
  shows "distinct (map fst tbl')" and "ca_authOk st \<Longrightarrow> ok"
    and "map_of tbl' (''shared-secret:'' @ c) = map_of tbl (''shared-secret:'' @ c)
      \<or> ok \<and> normalizeRateLimitClientIp net ip = c \<and> map_of tbl' (''shared-secret:'' @ c) = None"
proof -
  obtain ck tbl1 where ck: "check_limit net cfg ip (Some ''device-token'') now tbl = (ck, tbl1)" by fastforce
  obtain k where k: "k = ''shared-secret:'' @ c" by blast
  have dk: "fst (resolveKey net ip (Some ''device-token'')) \<noteq> k" using device_key k by blast
  have sk: "fst (resolveKey net ip (Some ''shared-secret'')) = k \<longleftrightarrow> normalizeRateLimitClientIp net ip = c"
    by (simp add: shared_secret_key k)
  have same: "map_of tbl1 k = map_of tbl k" "distinct (map fst tbl1)"
    using check_limit_other[OF ck dk] check_limit_distinct[OF ck assms(2)] by simp_all
  let ?r = "reset_limit net ip (Some ''device-token'') tbl1"
  let ?f = "recordFailure net cfg ip (Some ''device-token'') now tbl1"
  have "ca_authOk st \<and> ok \<and> tbl' = tbl \<or> \<not> ca_authOk st \<and> (tbl' = tbl \<or> tbl' = tbl1 \<or> tbl' = ?f
      \<or> ok \<and> (tbl' = ?r \<or> tbl' = reset_limit net ip (Some ''shared-secret'') ?r))"
    using assms(1) ck
    by (auto simp: resolveConnectAuthDecision_def Let_def limiter_check_def limiter_reset_def limiter_failure_def
        split: option.splits if_splits prod.splits)
  then consider (same) "tbl' = tbl" "ca_authOk st \<longrightarrow> ok" | (checked) "tbl' = tbl1" "\<not> ca_authOk st" | (failed) "tbl' = ?f" "\<not> ca_authOk st"
    | (device) "tbl' = ?r" "ok" | (both) "tbl' = reset_limit net ip (Some ''shared-secret'') ?r" "ok" by blast
  then have "distinct (map fst tbl') \<and> (ca_authOk st \<longrightarrow> ok)
    \<and> (map_of tbl' k = map_of tbl k \<or> ok \<and> normalizeRateLimitClientIp net ip = c \<and> map_of tbl' k = None)"
  proof cases
    case failed
    have "map_of ?f k = map_of tbl1 k" using recordFailure_other[OF dk] by blast
    then show ?thesis using failed same recordFailure_distinct by simp
  next
    case device
    have "map_of ?r k = map_of tbl1 k" by (simp only: reset_limit_map dk if_False)
    then show ?thesis using device same reset_limit_distinct by simp
  next
    case both
    have "map_of tbl' k = (if normalizeRateLimitClientIp net ip = c then None else map_of tbl1 k)"
      using dk sk by (simp only: both(1) reset_limit_map if_False)
    moreover have "distinct (map fst tbl')" using both(1) same(2) reset_limit_distinct by simp
    ultimately show ?thesis using both(2) same(1) by simp
  qed (use same assms(2) in simp_all)
  then show "distinct (map fst tbl')" and "ca_authOk st \<Longrightarrow> ok"
    and "map_of tbl' (''shared-secret:'' @ c) = map_of tbl (''shared-secret:'' @ c)
      \<or> ok \<and> normalizeRateLimitClientIp net ip = c \<and> map_of tbl' (''shared-secret:'' @ c) = None"
    unfolding k[symmetric] by simp_all
qed

lemma handshake_guessed:
  assumes g: "guessed cfg c now (tbl, G)" and le: "now \<le> t" and pos: "0 < t"
    and n: "\<not> isExempt net cfg c" and ok: "limiter_ok cfg"
    and h: "handshake_auth_step net auth cfg cred device req t tbl = (st, acc, tbl')"
  shows "guessed cfg c t (tbl', if normalizeRateLimitClientIp net (aq_ip req) \<noteq> c then G
             else if acc then [] else if wrong_guess (ca_authResult st) then G @ [t] else G)"
proof -
  obtain st1 tbl1 where st: "resolveConnectAuthState net auth cred (device \<noteq> None) req (Some cfg) t tbl = (st1, tbl1)"
    by fastforce
  note own = state_guessed[OF g le pos n ok st]
  show ?thesis
  proof (cases "\<exists>d. device = Some d \<and> dc_signatureOk d")
    case False
    then have eq: "st = st1" "acc = ca_authOk st1" "tbl' = tbl1"
      using h st by (auto simp: handshake_auth_step_def split: option.splits)
    from own show ?thesis unfolding eq .
  next
    case True
    then obtain d where d: "device = Some d" "dc_signatureOk d" by blast
    obtain res m where dec: "resolveConnectAuthDecision net st True (has_shared_auth cred) (Some cfg) (aq_ip req)
        (dc_bootstrapOk d) (dc_deviceOk d) t tbl1 = ((res, acc, m), tbl')" and "st1 = st"
      using h st d by (auto simp: handshake_auth_step_def Let_def split: prod.splits)
    note o = own[unfolded \<open>st1 = st\<close>]
    have dist: "distinct (map fst tbl1)" using o by (simp add: guessed_def)
    note tab = decision_table[OF dec dist]
    let ?G = "if normalizeRateLimitClientIp net (aq_ip req) \<noteq> c then G
             else if ca_authOk st then [] else if wrong_guess (ca_authResult st) then G @ [t] else G"
    have w0: "windows_ok cfg []" using ok by (simp add: windows_ok_def limiter_ok_def)
    show ?thesis
    proof (cases "normalizeRateLimitClientIp net (aq_ip req) = c \<and> acc")
      case True
      have "stands_for cfg t (map_of tbl' (''shared-secret:'' @ c)) []"
        using tab(3)[of c] o stands_for_empty stands_for_fresh by (auto simp: guessed_def)
      then show ?thesis using True tab(1) w0 by (auto intro!: guessedI)
    next
      case False
      then have "map_of tbl' (''shared-secret:'' @ c) = map_of tbl1 (''shared-secret:'' @ c)" using tab(3)[of c] by blast
      moreover have "(if normalizeRateLimitClientIp net (aq_ip req) \<noteq> c then G
             else if acc then [] else if wrong_guess (ca_authResult st) then G @ [t] else G) = ?G"
        using False tab(2) by auto
      ultimately show ?thesis using o tab(1) by (simp add: guessed_def)
    qed
  qed
qed

lemma auth_step_guessed:
  assumes g: "guessed cfg c now x" and "now \<le> auth_time ev" and "0 < auth_time ev"
    and n: "\<not> isExempt net cfg c" and ok: "limiter_ok cfg"
  shows "guessed cfg c (auth_time ev) (auth_step net auth cfg c ev x)"
proof -
  obtain tbl G where x: "x = (tbl, G)" by (cases x)
  show ?thesis
  proof (cases ev)
    case (PruneTick t)
    have d: "distinct (map fst tbl)" and s: "stands_for cfg now (map_of tbl (''shared-secret:'' @ c)) G" and w: "windows_ok cfg G"
      and G: "\<forall>g\<in>set G. g \<le> now" using g by (simp_all add: guessed_def x)
    have "stands_for cfg t (map_of (prune_limit cfg t tbl) (''shared-secret:'' @ c)) G"
      using pruned_stands_for[OF s _ map_of_prune[OF d]] \<open>now \<le> auth_time ev\<close> PruneTick by simp
    then show ?thesis using PruneTick x w G \<open>now \<le> auth_time ev\<close> distinct_prune[OF d] by (force simp: guessed_def)
  next
    case (Attempt cred req surface t)
    then show ?thesis using attempt_guessed[OF g[unfolded x] _ _ n ok] assms(2,3) x by (simp split: prod.split)
  next
    case (Handshake cred device req t)
    then show ?thesis using handshake_guessed[OF g[unfolded x] _ _ n ok] assms(2,3) x by (simp split: prod.split)
  qed
qed

lemma auth_fold_guessed:
  assumes "\<not> isExempt net cfg c" and "limiter_ok cfg"
  shows "guessed cfg c now x \<Longrightarrow> sorted (now # map auth_time evs) \<Longrightarrow> 0 < now
    \<Longrightarrow> \<exists>t. guessed cfg c t (fold (auth_step net auth cfg c) evs x)"
proof (induction evs arbitrary: now x)
  case Nil
  then show ?case by auto
next
  case (Cons ev evs)
  have "guessed cfg c (auth_time ev) (auth_step net auth cfg c ev x)"
    by (rule auth_step_guessed[OF Cons.prems(1) _ _ assms]) (use Cons.prems in auto)
  moreover have "sorted (auth_time ev # map auth_time evs)" "0 < auth_time ev"
    using Cons.prems by auto
  ultimately show ?case using Cons.IH[of "auth_time ev" "auth_step net auth cfg c ev x"] by simp
qed

text \<open>At most \<open>maxAttempts\<close> wrong guesses in any stretch of \<open>windowMs\<close>.\<close>

lemma limiter_bounds_guesses:
  assumes "limiter_ok cfg" and "\<not> isExempt net cfg c" and "sorted (map auth_time evs)"
    and "\<forall>ev\<in>set evs. 0 < auth_time ev"
  shows "int (length (filter (\<lambda>g. T < g \<and> g \<le> T + rl_windowMs cfg) (snd (auth_run net auth cfg c evs))))
    \<le> rl_maxAttempts cfg"
proof (cases evs)
  case Nil
  then show ?thesis using assms(1) by (simp add: auth_run_def limiter_ok_def)
next
  case (Cons ev evs')
  have "guessed cfg c (auth_time ev) ([], [])"
    using assms(1) by (simp add: guessed_def stands_for_fresh windows_ok_def limiter_ok_def)
  moreover have "sorted (auth_time ev # map auth_time evs)" "0 < auth_time ev"
    using assms(3,4) Cons by auto
  ultimately obtain t where "guessed cfg c t (auth_run net auth cfg c evs)"
    using auth_fold_guessed[OF assms(2,1)] unfolding auth_run_def by blast
  then show ?thesis by (simp add: guessed_def windows_ok_def)
qed

definition example_limiter :: rate_limiter_settings where
  "example_limiter = limiter_settings (Some \<lparr>cfg_maxAttempts = Some 2, cfg_windowMs = None,
     cfg_lockoutMs = None, cfg_exemptLoopback = None, cfg_pruneIntervalMs = None\<rparr>)"

definition example_net :: net_addresses where
  "example_net = \<lparr>na_resolveClientIp = (\<lambda>a. a), na_isLoopback = (\<lambda>a. a = ''127.0.0.1'')\<rparr>"

definition example_guess :: "string \<Rightarrow> int \<Rightarrow> auth_event" where
  "example_guess token now = Attempt (Some \<lparr>cs_token = Some token, cs_password = None\<rparr>)
     \<lparr>aq_ip = Some ''203.0.113.7'', aq_remoteAddr = Some ''203.0.113.7'', aq_headers = (\<lambda>h. None),
      aq_trustedProxies = [], aq_fromTrustedProxy = False, aq_origin = None, aq_originOk = False,
      aq_tailscaleIp = None, aq_whois = None\<rparr> SurfaceWsControlUi now"

definition example_auth :: resolved_auth where
  "example_auth = \<lparr>ra_mode = ModeToken, ra_token = Some ''secret'', ra_password = None,
     ra_allowTailscale = False, ra_trustedProxy = None\<rparr>"

text \<open>
  The readiness probe compares the secret without the limiter and tells a caller from afar whether
  it was right, as often as it asks.
\<close>

theorem probe_tells_secret:
  assumes "ra_mode auth = ModeToken" and "ra_token auth = Some secret" and "secret \<noteq> []"
    and "\<not> isLocalDirectRequest net req" and "guess \<noteq> []"
  shows "canRevealReadinessDetails net auth (Some guess) req now \<longleftrightarrow> guess = secret"
  using assms
  by (simp add: canRevealReadinessDetails_def authorizeGatewayConnect_def authorizeBySecret_def limiter_check_def
      authorizeTokenAuth_def safeEqualSecret_def truthy_string_def)

end
