(* ===== verification/GatewayAccess.thy ===== *)
theory GatewayAccess
  imports GatewayAuth
begin

text \<open>
  What a connected client of the OpenClaw gateway may call: the scopes of the methods
  (openclaw/src/gateway/method-scopes.ts, shared/gateway-method-policy.ts), roles
  (gateway/role-policy.ts), the dispatch of a request (gateway/server-methods.ts), and the
  handshake of a client without a device identity
  (gateway/server/ws-connection/connect-policy.ts and message-handler.ts). The scopes that plugins
  register, the table of handlers and the budget for control-plane writes are arguments. At the end:
  how far the limiter of AuthRateLimit keeps a secret from being guessed by connect frames.
\<close>

section \<open>Scopes\<close>

definition ADMIN_SCOPE :: string where "ADMIN_SCOPE = ''operator.admin''"
definition READ_SCOPE :: string where "READ_SCOPE = ''operator.read''"
definition WRITE_SCOPE :: string where "WRITE_SCOPE = ''operator.write''"
definition APPROVALS_SCOPE :: string where "APPROVALS_SCOPE = ''operator.approvals''"
definition PAIRING_SCOPE :: string where "PAIRING_SCOPE = ''operator.pairing''"
definition TALK_SECRETS_SCOPE :: string where "TALK_SECRETS_SCOPE = ''operator.talk.secrets''"

lemmas scope_defs = ADMIN_SCOPE_def READ_SCOPE_def WRITE_SCOPE_def APPROVALS_SCOPE_def PAIRING_SCOPE_def
  TALK_SECRETS_SCOPE_def

definition CLI_DEFAULT_OPERATOR_SCOPES :: "string list" where
  "CLI_DEFAULT_OPERATOR_SCOPES =
     [ADMIN_SCOPE, READ_SCOPE, WRITE_SCOPE, APPROVALS_SCOPE, PAIRING_SCOPE, TALK_SECRETS_SCOPE]"

definition NODE_ROLE_METHODS :: "string list" where
  "NODE_ROLE_METHODS =
    [''node.invoke.result'', ''node.event'', ''node.pending.drain'',
    ''node.canvas.capability.refresh'', ''node.pending.pull'', ''node.pending.ack'',
    ''skills.bins'']"

definition METHOD_SCOPE_GROUPS :: "(string \<times> string list) list" where
  "METHOD_SCOPE_GROUPS =
    [(APPROVALS_SCOPE,
      [''exec.approval.get'', ''exec.approval.list'', ''exec.approval.request'',
       ''exec.approval.waitDecision'', ''exec.approval.resolve'', ''plugin.approval.list'',
       ''plugin.approval.request'', ''plugin.approval.waitDecision'', ''plugin.approval.resolve'']),
     (PAIRING_SCOPE,
      [''node.pair.request'', ''node.pair.list'', ''node.pair.reject'', ''node.pair.verify'',
       ''node.pair.approve'', ''device.pair.list'', ''device.pair.approve'',
       ''device.pair.reject'', ''device.pair.remove'', ''device.token.rotate'',
       ''device.token.revoke'', ''node.rename'']),
     (READ_SCOPE,
      [''assistant.media.get'', ''health'', ''doctor.memory.status'', ''doctor.memory.dreamDiary'',
       ''logs.tail'', ''channels.status'', ''status'', ''usage.status'', ''usage.cost'',
       ''tts.status'', ''tts.providers'', ''commands.list'', ''models.list'',
       ''models.authStatus'', ''tools.catalog'', ''tools.effective'', ''agents.list'',
       ''agent.identity.get'', ''skills.status'', ''skills.search'', ''skills.detail'',
       ''voicewake.get'', ''sessions.list'', ''sessions.get'', ''sessions.preview'',
       ''sessions.resolve'', ''sessions.compaction.list'', ''sessions.compaction.get'',
       ''sessions.subscribe'', ''sessions.unsubscribe'', ''sessions.messages.subscribe'',
       ''sessions.messages.unsubscribe'', ''sessions.usage'', ''sessions.usage.timeseries'',
       ''sessions.usage.logs'', ''cron.list'', ''cron.status'', ''cron.runs'',
       ''gateway.identity.get'', ''system-presence'', ''last-heartbeat'', ''node.list'',
       ''node.describe'', ''chat.history'', ''config.get'', ''config.schema.lookup'',
       ''talk.config'', ''agents.files.list'', ''agents.files.get'']),
     (WRITE_SCOPE,
      [''message.action'', ''send'', ''poll'', ''agent'', ''agent.wait'', ''wake'', ''talk.mode'',
       ''talk.speak'', ''tts.enable'', ''tts.disable'', ''tts.convert'', ''tts.setProvider'',
       ''voicewake.set'', ''node.invoke'', ''chat.send'', ''chat.abort'', ''sessions.create'',
       ''sessions.send'', ''sessions.steer'', ''sessions.abort'', ''sessions.compaction.branch'',
       ''doctor.memory.backfillDreamDiary'', ''doctor.memory.resetDreamDiary'',
       ''doctor.memory.resetGroundedShortTerm'', ''doctor.memory.repairDreamingArtifacts'',
       ''doctor.memory.dedupeDreamDiary'', ''push.test'', ''node.pending.enqueue'']),
     (ADMIN_SCOPE,
      [''channels.logout'', ''agents.create'', ''agents.update'', ''agents.delete'',
       ''skills.install'', ''skills.update'', ''secrets.reload'', ''secrets.resolve'',
       ''cron.add'', ''cron.update'', ''cron.remove'', ''cron.run'', ''sessions.patch'',
       ''sessions.reset'', ''sessions.delete'', ''sessions.compact'',
       ''sessions.compaction.restore'', ''connect'', ''chat.inject'', ''web.login.start'',
       ''web.login.wait'', ''set-heartbeats'', ''system-event'', ''agents.files.set'']),
     (TALK_SECRETS_SCOPE,
      [])]"

text \<open>A \<open>Map\<close> built from pairs: a later pair replaces an earlier one.\<close>

definition METHOD_SCOPE_BY_NAME :: "(string \<times> string) list" where
  "METHOD_SCOPE_BY_NAME =
     concat (map (\<lambda>(scope, methods). map (\<lambda>method. (method, scope)) methods) METHOD_SCOPE_GROUPS)"

definition RESERVED_ADMIN_GATEWAY_METHOD_PREFIXES :: "string list" where
  "RESERVED_ADMIN_GATEWAY_METHOD_PREFIXES = [''exec.approvals.'', ''config.'', ''wizard.'', ''update.'']"

definition isReservedAdminGatewayMethod :: "string \<Rightarrow> bool" where
  "isReservedAdminGatewayMethod method \<longleftrightarrow>
     list_ex (\<lambda>prefix. take (length prefix) method = prefix) RESERVED_ADMIN_GATEWAY_METHOD_PREFIXES"

definition resolveReservedGatewayMethodScope :: "string \<Rightarrow> string option" where
  "resolveReservedGatewayMethodScope method =
     (if isReservedAdminGatewayMethod method then Some ADMIN_SCOPE else None)"

text \<open>A plugin's scope for a method, and whether it had to give way to the reserved one.\<close>

definition normalizePluginGatewayMethodScope :: "string \<Rightarrow> string option \<Rightarrow> string option \<times> bool" where
  "normalizePluginGatewayMethodScope method scope =
     (case resolveReservedGatewayMethodScope method of
        None \<Rightarrow> (scope, False)
      | Some reserved \<Rightarrow>
          if \<not> truthy_string scope \<or> scope = Some reserved then (scope, False) else (Some reserved, True))"

definition resolveScopedMethod :: "(string \<Rightarrow> string option) \<Rightarrow> string \<Rightarrow> string option" where
  "resolveScopedMethod plugins method =
     (case map_of (rev METHOD_SCOPE_BY_NAME) method of
        Some scope \<Rightarrow> Some scope
      | None \<Rightarrow> (case resolveReservedGatewayMethodScope method of
          Some scope \<Rightarrow> Some scope
        | None \<Rightarrow> if truthy_string (plugins method) then plugins method else None))"

definition isApprovalMethod :: "(string \<Rightarrow> string option) \<Rightarrow> string \<Rightarrow> bool" where
  "isApprovalMethod plugins method \<longleftrightarrow> resolveScopedMethod plugins method = Some APPROVALS_SCOPE"

definition isPairingMethod :: "(string \<Rightarrow> string option) \<Rightarrow> string \<Rightarrow> bool" where
  "isPairingMethod plugins method \<longleftrightarrow> resolveScopedMethod plugins method = Some PAIRING_SCOPE"

definition isReadMethod :: "(string \<Rightarrow> string option) \<Rightarrow> string \<Rightarrow> bool" where
  "isReadMethod plugins method \<longleftrightarrow> resolveScopedMethod plugins method = Some READ_SCOPE"

definition isWriteMethod :: "(string \<Rightarrow> string option) \<Rightarrow> string \<Rightarrow> bool" where
  "isWriteMethod plugins method \<longleftrightarrow> resolveScopedMethod plugins method = Some WRITE_SCOPE"

definition isAdminOnlyMethod :: "(string \<Rightarrow> string option) \<Rightarrow> string \<Rightarrow> bool" where
  "isAdminOnlyMethod plugins method \<longleftrightarrow> resolveScopedMethod plugins method = Some ADMIN_SCOPE"

definition isNodeRoleMethod :: "string \<Rightarrow> bool" where
  "isNodeRoleMethod method \<longleftrightarrow> method \<in> set NODE_ROLE_METHODS"

definition resolveLeastPrivilegeOperatorScopesForMethod :: "(string \<Rightarrow> string option) \<Rightarrow> string \<Rightarrow> string list" where
  "resolveLeastPrivilegeOperatorScopesForMethod plugins method =
     (case resolveScopedMethod plugins method of Some scope \<Rightarrow> [scope] | None \<Rightarrow> [])"

datatype scope_auth = Allowed | MissingScope string

definition authorizeOperatorScopesForMethod :: "(string \<Rightarrow> string option) \<Rightarrow> string \<Rightarrow> string list \<Rightarrow> scope_auth" where
  "authorizeOperatorScopesForMethod plugins method scopes =
     (if ADMIN_SCOPE \<in> set scopes then Allowed
      else (let required = nullish (resolveScopedMethod plugins method) ADMIN_SCOPE in
        if required = READ_SCOPE
        then (if READ_SCOPE \<in> set scopes \<or> WRITE_SCOPE \<in> set scopes then Allowed else MissingScope READ_SCOPE)
        else if required \<in> set scopes then Allowed else MissingScope required))"

definition isGatewayMethodClassified :: "(string \<Rightarrow> string option) \<Rightarrow> string \<Rightarrow> bool" where
  "isGatewayMethodClassified plugins method \<longleftrightarrow>
     isNodeRoleMethod method \<or> resolveScopedMethod plugins method \<noteq> None"

section \<open>Roles\<close>

datatype gateway_role = RoleOperator | RoleNode

definition role_text :: "gateway_role \<Rightarrow> string" where
  "role_text r = (case r of RoleOperator \<Rightarrow> ''operator'' | RoleNode \<Rightarrow> ''node'')"

definition parseGatewayRole :: "string \<Rightarrow> gateway_role option" where
  "parseGatewayRole roleRaw =
     (if roleRaw = ''operator'' then Some RoleOperator else if roleRaw = ''node'' then Some RoleNode else None)"

definition roleCanSkipDeviceIdentity :: "gateway_role \<Rightarrow> bool \<Rightarrow> bool" where
  "roleCanSkipDeviceIdentity role sharedAuthOk \<longleftrightarrow> role = RoleOperator \<and> sharedAuthOk"

definition isRoleAuthorizedForMethod :: "gateway_role \<Rightarrow> string \<Rightarrow> bool" where
  "isRoleAuthorizedForMethod role method \<longleftrightarrow>
     (if isNodeRoleMethod method then role = RoleNode else role = RoleOperator)"

section \<open>Dispatch\<close>

record error_shape =
  es_code :: string
  es_message :: string
  es_retryAfterMs :: "int option"
  es_details :: "(string \<times> string) list"

definition errorShape :: "string \<Rightarrow> string \<Rightarrow> error_shape" where
  "errorShape code message = \<lparr>es_code = code, es_message = message, es_retryAfterMs = None, es_details = []\<rparr>"

record gateway_client =
  gc_role :: "string option"
  gc_scopes :: "string list option"

definition authorizeGatewayMethod :: "(string \<Rightarrow> string option) \<Rightarrow> string \<Rightarrow> gateway_client option \<Rightarrow> error_shape option" where
  "authorizeGatewayMethod plugins method client =
     (case client of
        None \<Rightarrow> None
      | Some c \<Rightarrow>
          if method = ''health'' then None
          else (let roleRaw = nullish (gc_role c) ''operator''; scopes = nullish (gc_scopes c) [] in
            (case parseGatewayRole roleRaw of
               None \<Rightarrow> Some (errorShape ''INVALID_REQUEST'' (''unauthorized role: '' @ roleRaw))
             | Some role \<Rightarrow>
                 if \<not> isRoleAuthorizedForMethod role method
                 then Some (errorShape ''INVALID_REQUEST'' (''unauthorized role: '' @ role_text role))
                 else if role = RoleNode then None
                 else if ADMIN_SCOPE \<in> set scopes then None
                 else (case authorizeOperatorScopesForMethod plugins method scopes of
                     Allowed \<Rightarrow> None
                   | MissingScope s \<Rightarrow> Some (errorShape ''INVALID_REQUEST'' (''missing scope: '' @ s))))))"

definition CONTROL_PLANE_WRITE_METHODS :: "string list" where
  "CONTROL_PLANE_WRITE_METHODS = [''config.apply'', ''config.patch'', ''update.run'']"

text \<open>A request is answered with an error or handed to its handler.\<close>

datatype dispatch = RespondError error_shape | InvokeHandler string

definition handleGatewayRequest :: "(string \<Rightarrow> string option) \<Rightarrow> string set \<Rightarrow> int option \<Rightarrow> (string \<Rightarrow> bool)
  \<Rightarrow> gateway_client option \<Rightarrow> string \<Rightarrow> dispatch" where
  "handleGatewayRequest plugins unavailable budgetRetryMs handlers client method =
     (case authorizeGatewayMethod plugins method client of
        Some e \<Rightarrow> RespondError e
      | None \<Rightarrow>
          if method \<in> unavailable
          then RespondError \<lparr>es_code = ''UNAVAILABLE'',
            es_message = method @ '' unavailable during gateway startup'',
            es_retryAfterMs = Some 500, es_details = [(''method'', method)]\<rparr>
          else (case (if method \<in> set CONTROL_PLANE_WRITE_METHODS then budgetRetryMs else None) of
              Some retryAfterMs \<Rightarrow> RespondError \<lparr>es_code = ''UNAVAILABLE'',
                es_message = ''rate limit exceeded for '' @ method @ ''; retry after ''
                  @ nat_str (nat ((retryAfterMs + 999) div 1000)) @ ''s'',
                es_retryAfterMs = Some retryAfterMs,
                es_details = [(''method'', method), (''limit'', ''3 per 60s'')]\<rparr>
            | None \<Rightarrow>
                if handlers method then InvokeHandler method
                else RespondError (errorShape ''INVALID_REQUEST'' (''unknown method: '' @ method))))"

section \<open>The handshake without a device\<close>

record control_ui_config =
  cu_allowInsecureAuth :: bool
  cu_dangerouslyDisableDeviceAuth :: bool

record control_ui_policy =
  cp_isControlUi :: bool
  cp_allowInsecureAuthConfigured :: bool
  cp_dangerouslyDisableDeviceAuth :: bool
  cp_allowBypass :: bool
  cp_hasDevice :: bool

definition resolveControlUiAuthPolicy :: "bool \<Rightarrow> control_ui_config \<Rightarrow> bool \<Rightarrow> control_ui_policy" where
  "resolveControlUiAuthPolicy isControlUi cfg deviceGiven =
     (let insecure = isControlUi \<and> cu_allowInsecureAuth cfg;
          disabled = isControlUi \<and> cu_dangerouslyDisableDeviceAuth cfg in
      \<lparr>cp_isControlUi = isControlUi, cp_allowInsecureAuthConfigured = insecure,
       cp_dangerouslyDisableDeviceAuth = disabled, cp_allowBypass = disabled,
       cp_hasDevice = (\<not> disabled \<and> deviceGiven)\<rparr>)"

definition shouldSkipControlUiPairing :: "control_ui_policy \<Rightarrow> gateway_role \<Rightarrow> bool \<Rightarrow> auth_mode option \<Rightarrow> bool" where
  "shouldSkipControlUiPairing policy role trustedProxyAuthOk authMode \<longleftrightarrow>
     trustedProxyAuthOk
     \<or> (cp_isControlUi policy \<and> role = RoleOperator \<and> authMode = Some ModeNone)
     \<or> (role = RoleOperator \<and> cp_allowBypass policy)"

definition isTrustedProxyControlUiOperatorAuth :: "bool \<Rightarrow> gateway_role \<Rightarrow> auth_mode \<Rightarrow> bool \<Rightarrow> auth_method \<Rightarrow> bool" where
  "isTrustedProxyControlUiOperatorAuth isControlUi role authMode authOk authMethod \<longleftrightarrow>
     isControlUi \<and> role = RoleOperator \<and> authMode = ModeTrustedProxy \<and> authOk \<and> authMethod = MethodTrustedProxy"

datatype missing_device = MDAllow | MDControlUiInsecureAuth | MDUnauthorized | MDDeviceRequired

definition evaluateMissingDeviceIdentity :: "bool \<Rightarrow> gateway_role \<Rightarrow> bool \<Rightarrow> control_ui_policy \<Rightarrow> bool \<Rightarrow> bool
  \<Rightarrow> bool \<Rightarrow> bool \<Rightarrow> bool \<Rightarrow> missing_device" where
  "evaluateMissingDeviceIdentity hasDevice role isControlUi policy trustedProxyAuthOk sharedAuthOk authOk hasSharedAuth isLocal =
     (if hasDevice then MDAllow
      else if isControlUi \<and> trustedProxyAuthOk then MDAllow
      else if isControlUi \<and> cp_allowBypass policy \<and> role = RoleOperator then MDAllow
      else if isControlUi \<and> \<not> cp_allowBypass policy \<and> (\<not> cp_allowInsecureAuthConfigured policy \<or> \<not> isLocal)
      then MDControlUiInsecureAuth
      else if roleCanSkipDeviceIdentity role sharedAuthOk then MDAllow
      else if \<not> authOk \<and> hasSharedAuth then MDUnauthorized
      else MDDeviceRequired)"

definition shouldClearUnboundScopesForMissingDeviceIdentity :: "missing_device \<Rightarrow> control_ui_policy \<Rightarrow> bool
  \<Rightarrow> auth_method \<Rightarrow> bool \<Rightarrow> bool" where
  "shouldClearUnboundScopesForMissingDeviceIdentity decision policy preserveLocal authMethod trustedProxyAuthOk \<longleftrightarrow>
     decision \<noteq> MDAllow
     \<or> (\<not> cp_allowBypass policy \<and> \<not> preserveLocal
        \<and> (authMethod = MethodToken \<or> authMethod = MethodPassword \<or> authMethod = MethodTrustedProxy
           \<or> trustedProxyAuthOk))"

record connect_params =
  co_clientId :: string
  co_clientMode :: string
  co_minProtocol :: int
  co_maxProtocol :: int
  co_role :: "string option"
  co_scopes :: "string list"
  co_auth :: "handshake_auth option"
  co_device :: bool

text \<open>
  What the connection knows besides the frame: whether the peer is local, the configuration of the
  control UI, whether an origin has to be checked and what the check says, the limiter, and whether
  the shared secret has been rotated since.
\<close>

record connect_context =
  cx_isLocalClient :: bool
  cx_controlUi :: control_ui_config
  cx_enforceOrigin :: bool
  cx_originOk :: bool
  cx_auth :: resolved_auth
  cx_limiter :: "rate_limiter_settings option"
  cx_request :: auth_request
  cx_secretRotated :: bool

datatype connect_outcome =
    RefusedConnect string string nat
  | DeviceChecks gateway_role "string list"
  | Connected gateway_role "string list" auth_method

definition isOperatorUiClient :: "string \<Rightarrow> bool" where
  "isOperatorUiClient i \<longleftrightarrow> (let n = normalizeOptionalLowercaseString (Some i) in
     n = Some ''openclaw-control-ui'' \<or> n = Some ''openclaw-tui'')"

definition isBrowserOperatorUiClient :: "string \<Rightarrow> bool" where
  "isBrowserOperatorUiClient i \<longleftrightarrow> normalizeOptionalLowercaseString (Some i) = Some ''openclaw-control-ui''"

definition isWebchatClient :: "string \<Rightarrow> string \<Rightarrow> bool" where
  "isWebchatClient i mode \<longleftrightarrow> normalizeOptionalLowercaseString (Some mode) = Some ''webchat''
     \<or> normalizeOptionalLowercaseString (Some i) = Some ''webchat-ui''"

text \<open>From the credentials on: the decision on a missing device, then on the credentials.\<close>

definition finish_connect :: "connect_params \<Rightarrow> connect_context \<Rightarrow> gateway_role \<Rightarrow> control_ui_policy
  \<Rightarrow> connect_auth_state \<Rightarrow> connect_outcome" where
  "finish_connect p cx role policy st =
     (let isControlUi = cp_isControlUi policy;
          hasShared = (truthy_string (Option.bind (co_auth p) ha_token) \<or> truthy_string (Option.bind (co_auth p) ha_password));
          proxyOk = isTrustedProxyControlUiOperatorAuth isControlUi role (ra_mode (cx_auth cx)) (ca_authOk st) (ca_authMethod st);
          preserveLocal = (isControlUi \<and> cp_allowInsecureAuthConfigured policy \<and> cx_isLocalClient cx
            \<and> (ca_authMethod st = MethodToken \<or> ca_authMethod st = MethodPassword));
          decision = evaluateMissingDeviceIdentity (cp_hasDevice policy) role isControlUi policy proxyOk
            (ca_sharedAuthOk st) (ca_authOk st) hasShared (cx_isLocalClient cx);
          scopes = (if \<not> cp_hasDevice policy
              \<and> shouldClearUnboundScopesForMissingDeviceIdentity decision policy preserveLocal (ca_authMethod st) proxyOk
            then [] else co_scopes p) in
      case decision of
        MDControlUiInsecureAuth \<Rightarrow> RefusedConnect ''control-ui-insecure-auth'' ''INVALID_REQUEST'' 1008
      | MDUnauthorized \<Rightarrow> RefusedConnect ''unauthorized'' ''INVALID_REQUEST'' 1008
      | MDDeviceRequired \<Rightarrow> RefusedConnect ''device-required'' ''NOT_PAIRED'' 1008
      | MDAllow \<Rightarrow>
          if cp_hasDevice policy then DeviceChecks role scopes
          else if \<not> ca_authOk st then RefusedConnect ''unauthorized'' ''INVALID_REQUEST'' 1008
          else if (ca_authMethod st = MethodToken \<or> ca_authMethod st = MethodPassword) \<and> cx_secretRotated cx
          then RefusedConnect ''gateway-auth-rotated'' [] 4001
          else Connected role scopes (ca_authMethod st))"

definition connect_handshake :: "net_addresses \<Rightarrow> connect_params \<Rightarrow> connect_context \<Rightarrow> int \<Rightarrow> rate_table
  \<Rightarrow> connect_outcome \<times> rate_table" where
  "connect_handshake net p cx now tbl =
     (if co_maxProtocol p < 3 \<or> co_minProtocol p > 3
      then (RefusedConnect ''protocol-mismatch'' ''INVALID_REQUEST'' 1002, tbl)
      else case parseGatewayRole (nullish (co_role p) ''operator'') of
        None \<Rightarrow> (RefusedConnect ''invalid-role'' ''INVALID_REQUEST'' 1008, tbl)
      | Some role \<Rightarrow>
          if (cx_enforceOrigin cx \<or> isBrowserOperatorUiClient (co_clientId p) \<or> isWebchatClient (co_clientId p) (co_clientMode p))
             \<and> \<not> cx_originOk cx
          then (RefusedConnect ''origin-mismatch'' ''INVALID_REQUEST'' 1008, tbl)
          else (let policy = resolveControlUiAuthPolicy (isOperatorUiClient (co_clientId p)) (cx_controlUi cx) (co_device p);
                    (st, tbl1) = resolveConnectAuthState net (cx_auth cx) (co_auth p) (cp_hasDevice policy)
                      (cx_request cx) (cx_limiter cx) now tbl in
             (finish_connect p cx role policy st, tbl1)))"

section \<open>Which scopes suffice\<close>

lemma scope_neq [simp]:
  "ADMIN_SCOPE \<noteq> READ_SCOPE" "READ_SCOPE \<noteq> ADMIN_SCOPE" "ADMIN_SCOPE \<noteq> WRITE_SCOPE" "WRITE_SCOPE \<noteq> ADMIN_SCOPE"
  "READ_SCOPE \<noteq> WRITE_SCOPE" "WRITE_SCOPE \<noteq> READ_SCOPE" "APPROVALS_SCOPE \<noteq> ADMIN_SCOPE" "ADMIN_SCOPE \<noteq> APPROVALS_SCOPE"
  "APPROVALS_SCOPE \<noteq> READ_SCOPE" "PAIRING_SCOPE \<noteq> READ_SCOPE" "PAIRING_SCOPE \<noteq> ADMIN_SCOPE" "ADMIN_SCOPE \<noteq> PAIRING_SCOPE"
  "PAIRING_SCOPE \<noteq> WRITE_SCOPE" "PAIRING_SCOPE \<noteq> APPROVALS_SCOPE" "APPROVALS_SCOPE \<noteq> PAIRING_SCOPE"
  "READ_SCOPE \<noteq> PAIRING_SCOPE" "WRITE_SCOPE \<noteq> PAIRING_SCOPE" "APPROVALS_SCOPE \<noteq> WRITE_SCOPE" "WRITE_SCOPE \<noteq> APPROVALS_SCOPE"
  "READ_SCOPE \<noteq> APPROVALS_SCOPE"
  by (simp_all add: scope_defs)

lemma authorize_allowed:
  "authorizeOperatorScopesForMethod plugins method scopes = Allowed \<longleftrightarrow>
     ADMIN_SCOPE \<in> set scopes
     \<or> (\<exists>s. resolveScopedMethod plugins method = Some s
          \<and> (s \<in> set scopes \<or> (s = READ_SCOPE \<and> WRITE_SCOPE \<in> set scopes)))"
  by (cases "resolveScopedMethod plugins method") (auto simp: authorizeOperatorScopesForMethod_def Let_def)

text \<open>
  The least scopes of a method are enough for it, and nothing less is. The scopes the gateway
  names as least open a method exactly when it has a scope at all, and a client without the admin
  scope may call a method exactly when it holds them, the write scope counting as the read scope.
\<close>

theorem least_privilege_exact:
  "(authorizeOperatorScopesForMethod plugins method (resolveLeastPrivilegeOperatorScopesForMethod plugins method) = Allowed
      \<longleftrightarrow> resolveScopedMethod plugins method \<noteq> None)
   \<and> (authorizeOperatorScopesForMethod plugins method scopes = Allowed \<longleftrightarrow>
        ADMIN_SCOPE \<in> set scopes
        \<or> (\<exists>s. resolveLeastPrivilegeOperatorScopesForMethod plugins method = [s]
             \<and> (s \<in> set scopes \<or> (s = READ_SCOPE \<and> WRITE_SCOPE \<in> set scopes))))"
  by (cases "resolveScopedMethod plugins method")
    (auto simp: authorize_allowed resolveLeastPrivilegeOperatorScopesForMethod_def)

section \<open>Clients without a device\<close>

lemma normalizeOptionalString_idem:
  "normalizeOptionalString v = Some y \<Longrightarrow> normalizeOptionalString (Some y) = Some y"
  by (auto simp: normalizeOptionalString_def normalizeNullableString_def Let_def split: option.splits if_splits)

lemma normalizeOptionalString_nonempty: "normalizeOptionalString v = Some y \<Longrightarrow> y \<noteq> []"
  by (auto simp: normalizeOptionalString_def normalizeNullableString_def Let_def split: option.splits if_splits)

lemma shared_explicit:
  assumes "resolveSharedConnectAuth c = Some s"
  shows "hasExplicitSharedSecretAuth (Some s)"
proof -
  let ?t = "normalizeOptionalString (Option.bind c ha_token)"
  let ?p = "normalizeOptionalString (Option.bind c ha_password)"
  have s: "s = \<lparr>cs_token = ?t, cs_password = ?p\<rparr>" and n: "\<not> (?t = None \<and> ?p = None)"
    using assms by (auto simp: resolveSharedConnectAuth_def Let_def split: if_splits)
  from n consider y where "?t = Some y" | y where "?p = Some y" by auto
  then show ?thesis
    by cases (simp_all add: s hasExplicitSharedSecretAuth_def normalizeOptionalString_idem normalizeOptionalString_nonempty)
qed

lemma secret_method:
  assumes "au_ok (fst (authorizeTokenAuth net a t l ip scope now tbl))"
  shows "au_method (fst (authorizeTokenAuth net a t l ip scope now tbl)) = Some MethodToken"
  using assms by (simp add: authorizeTokenAuth_def split: if_splits)

lemma password_method:
  assumes "au_ok (fst (authorizePassword net a t l ip scope now tbl))"
  shows "au_method (fst (authorizePassword net a t l ip scope now tbl)) = Some MethodPassword"
  using assms by (simp add: authorizePassword_def split: if_splits)

lemma bySecret_method:
  assumes "hasExplicitSharedSecretAuth cred"
    and "au_ok (fst (authorizeBySecret net auth cred req surface l scope now tbl))"
  shows "au_method (fst (authorizeBySecret net auth cred req surface l scope now tbl)) \<in> {Some MethodToken, Some MethodPassword}"
proof -
  obtain lim tbl1 where c: "limiter_check net l (aq_ip req) scope now tbl = (lim, tbl1)" by fastforce
  show ?thesis using assms c secret_method password_method
    by (auto simp: authorizeBySecret_def split: option.splits if_splits)
qed

lemma proxy_method:
  "au_ok (authorizeByProxy net auth req surface) \<Longrightarrow> au_method (authorizeByProxy net auth req surface) = Some MethodTrustedProxy"
  by (simp add: authorizeByProxy_def split: option.splits if_splits sum.splits)

text \<open>When the shared secret is good, the attempt itself was accepted for it or by the proxy.\<close>

lemma connect_state_method:
  assumes st: "resolveConnectAuthState net auth c hasDevice req l now tbl = (st, tbl1)"
    and ok: "ca_sharedAuthOk st" "ca_authOk st"
  shows "ca_authMethod st \<in> {MethodToken, MethodPassword, MethodTrustedProxy}"
proof -
  let ?shared = "resolveSharedConnectAuth c"
  obtain r t where r: "authorizeGatewayConnect net auth ?shared req SurfaceWsControlUi
      (if ?shared \<noteq> None then l else None) ''shared-secret'' now tbl = (r, t)" by fastforce
  have r_ok: "au_ok r" and m: "ca_authMethod st = nullish (au_method r) (if ra_mode auth = ModePassword then MethodPassword else MethodToken)"
    using st ok r by (auto simp: resolveConnectAuthState_def Let_def)
  have shared: "(case map_option (\<lambda>c. fst (authorizeGatewayConnect net (auth\<lparr>ra_allowTailscale := False\<rparr>)
        (Some c) req SurfaceHttp None ''shared-secret'' now t)) ?shared of None \<Rightarrow> False
      | Some x \<Rightarrow> au_ok x \<and> (au_method x = Some MethodToken \<or> au_method x = Some MethodPassword))
      \<or> au_method r = Some MethodTrustedProxy"
    using st ok r by (auto simp: resolveConnectAuthState_def Let_def)
  show ?thesis
  proof (cases "ra_mode auth \<in> {ModeToken, ModePassword}")
    case True
    then have r': "r = fst (authorizeBySecret net auth ?shared req SurfaceWsControlUi
      (if ?shared \<noteq> None then l else None) ''shared-secret'' now tbl)"
      using r by (auto simp: authorizeGatewayConnect_def)
    show ?thesis
    proof (cases ?shared)
      case None
      then have "au_method r = Some MethodTrustedProxy" using shared by simp
      then show ?thesis using m by simp
    next
      case (Some s)
      then show ?thesis using bySecret_method[OF shared_explicit[OF Some]] r_ok m unfolding r' by fastforce
    qed
  next
    case False
    then consider "ra_mode auth = ModeNone" | "ra_mode auth = ModeTrustedProxy" by (cases "ra_mode auth") auto
    then show ?thesis
    proof cases
      case 1
      then have "au_method r = Some MethodNone" using r by (auto simp: authorizeGatewayConnect_def)
      then show ?thesis using shared 1
        by (auto simp: authorizeGatewayConnect_def split: option.splits)
    next
      case 2
      then have "r = authorizeByProxy net auth req SurfaceWsControlUi" using r by (simp add: authorizeGatewayConnect_def)
      then show ?thesis using proxy_method r_ok m by simp
    qed
  qed
qed

lemma finish_connect_Connected:
  assumes "finish_connect p cx r policy st = Connected role scopes m"
  shows "r = role" and "\<not> cp_hasDevice policy" and "ca_authOk st" and "m = ca_authMethod st"
    and "\<not> cp_isControlUi policy \<Longrightarrow> role = RoleOperator \<and> ca_sharedAuthOk st"
    and "\<not> cp_isControlUi policy \<Longrightarrow> \<not> cp_allowBypass policy
      \<Longrightarrow> m \<in> {MethodToken, MethodPassword, MethodTrustedProxy} \<Longrightarrow> scopes = []"
  using assms
  by (auto simp: finish_connect_def Let_def evaluateMissingDeviceIdentity_def roleCanSkipDeviceIdentity_def
      shouldClearUnboundScopesForMissingDeviceIdentity_def split: missing_device.splits if_splits)

lemma connect_handshake_Connected:
  assumes c: "connect_handshake net p cx now tbl = (Connected role scopes m, tbl')"
  obtains st where
    "resolveConnectAuthState net (cx_auth cx) (co_auth p)
       (cp_hasDevice (resolveControlUiAuthPolicy (isOperatorUiClient (co_clientId p)) (cx_controlUi cx) (co_device p)))
       (cx_request cx) (cx_limiter cx) now tbl = (st, tbl')"
    "finish_connect p cx role (resolveControlUiAuthPolicy (isOperatorUiClient (co_clientId p)) (cx_controlUi cx) (co_device p)) st
       = Connected role scopes m"
proof -
  let ?policy = "resolveControlUiAuthPolicy (isOperatorUiClient (co_clientId p)) (cx_controlUi cx) (co_device p)"
  obtain st t where st: "resolveConnectAuthState net (cx_auth cx) (co_auth p) (cp_hasDevice ?policy)
       (cx_request cx) (cx_limiter cx) now tbl = (st, t)" by fastforce
  show thesis
  proof (cases "parseGatewayRole (nullish (co_role p) ''operator'')")
    case None
    then show thesis using c by (simp add: connect_handshake_def split: if_splits)
  next
    case (Some r)
    then have f: "finish_connect p cx r ?policy st = Connected role scopes m" and t: "t = tbl'"
      using c st by (simp_all add: connect_handshake_def Let_def split: if_splits)
    have "r = role" by (rule finish_connect_Connected(1)[OF f])
    then show thesis using that st f t by simp
  qed
qed

lemma connected_without_device:
  assumes "connect_handshake net p cx now tbl = (Connected role scopes m, tbl')"
    and "\<not> isOperatorUiClient (co_clientId p)"
  shows "role = RoleOperator \<and> scopes = []"
proof -
  obtain st where st: "resolveConnectAuthState net (cx_auth cx) (co_auth p)
       (cp_hasDevice (resolveControlUiAuthPolicy (isOperatorUiClient (co_clientId p)) (cx_controlUi cx) (co_device p)))
       (cx_request cx) (cx_limiter cx) now tbl = (st, tbl')"
    and f: "finish_connect p cx role (resolveControlUiAuthPolicy (isOperatorUiClient (co_clientId p)) (cx_controlUi cx) (co_device p)) st
       = Connected role scopes m"
    using connect_handshake_Connected[OF assms(1)] by blast
  have ui: "\<not> cp_isControlUi (resolveControlUiAuthPolicy (isOperatorUiClient (co_clientId p)) (cx_controlUi cx) (co_device p))"
    "\<not> cp_allowBypass (resolveControlUiAuthPolicy (isOperatorUiClient (co_clientId p)) (cx_controlUi cx) (co_device p))"
    using assms(2) by (simp_all add: resolveControlUiAuthPolicy_def Let_def)
  note facts = finish_connect_Connected[OF f]
  have "m \<in> {MethodToken, MethodPassword, MethodTrustedProxy}"
    using connect_state_method[OF st] facts(3,4) facts(5)[OF ui(1)] by blast
  then show ?thesis using facts(5)[OF ui(1)] facts(6)[OF ui] by blast
qed

text \<open>
  C9: a client does not give itself permissions. A client that presents no device, and is not one of
  the gateway's own user interfaces, is let in as an operator only, and whatever scopes its connect
  frame claims it is let in with none.
\<close>

theorem deviceless_clients_have_no_scopes:
  assumes "connect_handshake net p cx now tbl = (Connected role scopes m, tbl')"
    and "\<not> isOperatorUiClient (co_clientId p)"
  shows "role = RoleOperator \<and> scopes = []"
  by (rule connected_without_device[OF assms])

text \<open>A backend with the right token, on the gateway's own host.\<close>

definition backend_params :: connect_params where
  "backend_params =
     \<lparr>co_clientId = ''gateway-client'', co_clientMode = ''backend'', co_minProtocol = 3, co_maxProtocol = 3,
      co_role = Some ''operator'', co_scopes = [''operator.read'', ''operator.write'', ''operator.approvals''],
      co_auth = Some \<lparr>ha_token = Some ''secret'', ha_bootstrapToken = None, ha_deviceToken = None, ha_password = None\<rparr>,
      co_device = False\<rparr>"

definition backend_context :: connect_context where
  "backend_context = \<lparr>cx_isLocalClient = True,
     cx_controlUi = \<lparr>cu_allowInsecureAuth = False, cu_dangerouslyDisableDeviceAuth = False\<rparr>,
     cx_enforceOrigin = False, cx_originOk = False, cx_auth = example_auth, cx_limiter = None,
     cx_request = \<lparr>aq_ip = Some ''127.0.0.1'', aq_remoteAddr = Some ''127.0.0.1'', aq_headers = (\<lambda>h. None),
       aq_trustedProxies = [], aq_fromTrustedProxy = False, aq_origin = None, aq_originOk = False,
       aq_tailscaleIp = None, aq_whois = None\<rparr>,
     cx_secretRotated = False\<rparr>"

lemma backend_connected:
  "connect_handshake example_net backend_params backend_context 1000 [] = (Connected RoleOperator [] MethodToken, [])"
  by code_simp

theorem deviceless_clients_have_no_scopes_witness:
  "\<exists>role scopes m. connect_handshake example_net backend_params backend_context 1000 [] = (Connected role scopes m, [])
     \<and> role = RoleOperator \<and> scopes = []"
proof -
  have "\<not> isOperatorUiClient (co_clientId backend_params)" by code_simp
  from deviceless_clients_have_no_scopes[OF backend_connected this] show ?thesis
    using backend_connected by blast
qed

section \<open>What a client that is locked out learns\<close>














end
