(* ===== verification/OpenClawBroadcast.thy ===== *)
theory OpenClawBroadcast
  imports GatewayAccess Effects
begin

text \<open>
  How the OpenClaw gateway sends its events (openclaw/src/gateway/server-broadcast.ts): an event
  goes to the connected clients whose scopes admit it; a broadcast to all has a number, one to
  chosen connections has none; a client whose buffer is full is skipped or closed. The set of
  clients is a list in the order they connected, a connection is told by its id, and the sockets'
  buffered amounts come with the broadcast.
\<close>

section \<open>Who may see an event\<close>

definition EVENT_SCOPE_GUARDS :: "(string \<times> string list) list" where
  "EVENT_SCOPE_GUARDS =
    [(''exec.approval.requested'', [APPROVALS_SCOPE]), (''exec.approval.resolved'', [APPROVALS_SCOPE]),
     (''plugin.approval.requested'', [APPROVALS_SCOPE]), (''plugin.approval.resolved'', [APPROVALS_SCOPE]),
     (''device.pair.requested'', [PAIRING_SCOPE]), (''device.pair.resolved'', [PAIRING_SCOPE]),
     (''node.pair.requested'', [PAIRING_SCOPE]), (''node.pair.resolved'', [PAIRING_SCOPE]),
     (''sessions.changed'', [READ_SCOPE]), (''session.message'', [READ_SCOPE]), (''session.tool'', [READ_SCOPE])]"

record ws_client =
  wc_connId :: string
  wc_connect :: gateway_client
  wc_bufferedAmount :: int

definition hasEventScope :: "gateway_client \<Rightarrow> string \<Rightarrow> bool" where
  "hasEventScope c event \<longleftrightarrow>
     (case map_of EVENT_SCOPE_GUARDS event of
        None \<Rightarrow> True
      | Some required \<Rightarrow>
          (let role = nullish (gc_role c) ''operator''; scopes = nullish (gc_scopes c) [] in
           if role \<noteq> ''operator'' then False
           else if ADMIN_SCOPE \<in> set scopes then True
           else if READ_SCOPE \<in> set required then READ_SCOPE \<in> set scopes \<or> WRITE_SCOPE \<in> set scopes
           else list_ex (\<lambda>scope. scope \<in> set scopes) required))"

section \<open>Broadcasting\<close>

definition MAX_BUFFERED_BYTES :: int where "MAX_BUFFERED_BYTES = 50 * 1024 * 1024"

record broadcast_opts =
  bo_dropIfSlow :: bool
  bo_stateVersion :: jsval

datatype broadcast_effect = SendFrame string json | CloseSocketSlow string

definition event_frame :: "string \<Rightarrow> jsval \<Rightarrow> nat option \<Rightarrow> broadcast_opts \<Rightarrow> json" where
  "event_frame event payload eventSeq opts =
     mk_obj [(''type'', Some (JStr ''event'')), (''event'', Some (JStr event)), (''payload'', payload),
       (''seq'', map_option (\<lambda>n. js_int (int n)) eventSeq), (''stateVersion'', bo_stateVersion opts)]"

definition deliver :: "string \<Rightarrow> json \<Rightarrow> broadcast_opts \<Rightarrow> string list option \<Rightarrow> ws_client \<Rightarrow> broadcast_effect list" where
  "deliver event frame opts target c =
     (let slow = wc_bufferedAmount c > MAX_BUFFERED_BYTES in
      if (case target of Some ids \<Rightarrow> wc_connId c \<notin> set ids | None \<Rightarrow> False) then []
      else if \<not> hasEventScope (wc_connect c) event then []
      else if slow \<and> bo_dropIfSlow opts then []
      else if slow then [CloseSocketSlow (wc_connId c)]
      else [SendFrame (wc_connId c) frame])"

text \<open>The state is the number of the last broadcast.\<close>

definition broadcastInternal :: "ws_client list \<Rightarrow> string \<Rightarrow> jsval \<Rightarrow> broadcast_opts \<Rightarrow> string list option
  \<Rightarrow> (nat, broadcast_effect) act" where
  "broadcastInternal clients event payload opts target = with_state (\<lambda>n.
     if clients = [] then skip
     else (let eventSeq = (if target = None then Some (Suc n) else None) in
       seq (update (\<lambda>n. if target = None then Suc n else n))
         (emit (concat (map (deliver event (event_frame event payload eventSeq opts) opts target) clients)))))"

definition broadcast :: "ws_client list \<Rightarrow> string \<Rightarrow> jsval \<Rightarrow> broadcast_opts \<Rightarrow> (nat, broadcast_effect) act" where
  "broadcast clients event payload opts = broadcastInternal clients event payload opts None"

definition broadcastToConnIds :: "ws_client list \<Rightarrow> string \<Rightarrow> jsval \<Rightarrow> string list \<Rightarrow> broadcast_opts
  \<Rightarrow> (nat, broadcast_effect) act" where
  "broadcastToConnIds clients event payload connIds opts =
     (if connIds = [] then skip else broadcastInternal clients event payload opts (Some connIds))"

section \<open>Delivery\<close>

definition admitted :: "ws_client \<Rightarrow> string \<Rightarrow> string list option \<Rightarrow> bool" where
  "admitted c event target \<longleftrightarrow>
     (case target of Some ids \<Rightarrow> wc_connId c \<in> set ids | None \<Rightarrow> True) \<and> hasEventScope (wc_connect c) event
     \<and> wc_bufferedAmount c \<le> MAX_BUFFERED_BYTES"

text \<open>The frames that go to one connection, and their numbers.\<close>

fun frame_to :: "string \<Rightarrow> broadcast_effect \<Rightarrow> json list" where
  "frame_to i (SendFrame j f) = (if i = j then [f] else [])"
| "frame_to i (CloseSocketSlow j) = []"

definition frames_to :: "string \<Rightarrow> broadcast_effect list \<Rightarrow> json list" where
  "frames_to i es = concat (map (frame_to i) es)"

lemma frames_to_simps [simp]:
  "frames_to i [] = []" "frames_to i (e # es) = frame_to i e @ frames_to i es"
  "frames_to i (xs @ ys) = frames_to i xs @ frames_to i ys"
  by (simp_all add: frames_to_def)

lemma deliver_frames:
  "frames_to i (deliver event frame opts target c) = (if wc_connId c = i \<and> admitted c event target then [frame] else [])"
  by (auto simp: deliver_def admitted_def Let_def split: option.split)

definition sees :: "string \<Rightarrow> ws_client list \<Rightarrow> string \<Rightarrow> string list option \<Rightarrow> bool" where
  "sees i clients event target \<longleftrightarrow> (\<exists>c\<in>set clients. wc_connId c = i \<and> admitted c event target)"

lemma delivered_frames:
  "distinct (map wc_connId clients) \<Longrightarrow>
   frames_to i (concat (map (deliver event frame opts target) clients)) = (if sees i clients event target then [frame] else [])"
proof (induction clients)
  case (Cons c clients)
  have "\<not> sees i clients event target" if i: "wc_connId c = i"
  proof
    assume "sees i clients event target"
    then obtain d where d: "d \<in> set clients" "wc_connId d = i" unfolding sees_def by blast
    then have "wc_connId c \<in> wc_connId ` set clients" using i by (metis image_eqI)
    then show False using Cons.prems by simp
  qed
  then show ?case using Cons by (auto simp: deliver_frames sees_def)
qed (simp add: sees_def)

lemma broadcast_frames:
  assumes "distinct (map wc_connId clients)"
  shows "frames_to i (snd (broadcastInternal clients event payload opts target n))
    = (if sees i clients event target
       then [event_frame event payload (if target = None then Some (Suc n) else None) opts] else [])"
  using delivered_frames[OF assms]
  by (cases "clients = []") (simp_all add: broadcastInternal_def Let_def sees_def)

text \<open>
  An event reaches exactly the connections it is meant for: those that were chosen, if any were,
  whose scopes admit it and whose buffer is not full, each once and with the same frame.
\<close>

theorem broadcast_reaches_admitted:
  assumes "distinct (map wc_connId clients)"
  shows "frames_to i (snd (broadcastInternal clients event payload opts target n))
    = (if sees i clients event target
       then [event_frame event payload (if target = None then Some (Suc n) else None) opts] else [])"
  by (rule broadcast_frames[OF assms])

section \<open>Numbers\<close>

datatype broadcast_call =
    ToAll "ws_client list" string jsval broadcast_opts
  | ToConns "ws_client list" string jsval "string list" broadcast_opts

fun bc_step :: "broadcast_call \<Rightarrow> (nat, broadcast_effect) act" where
  "bc_step (ToAll clients event payload opts) = broadcast clients event payload opts"
| "bc_step (ToConns clients event payload connIds opts) = broadcastToConnIds clients event payload connIds opts"

definition bc_run :: "broadcast_call list \<Rightarrow> (nat, broadcast_effect) act" where
  "bc_run calls = for_each bc_step calls"

fun call_clients :: "broadcast_call \<Rightarrow> ws_client list" where
  "call_clients (ToAll clients event payload opts) = clients"
| "call_clients (ToConns clients event payload connIds opts) = clients"

definition call_ok :: "broadcast_call \<Rightarrow> bool" where
  "call_ok call \<longleftrightarrow> call_clients call \<noteq> [] \<and> distinct (map wc_connId (call_clients call))"

fun is_ToAll :: "broadcast_call \<Rightarrow> bool" where
  "is_ToAll (ToAll clients event payload opts) = True"
| "is_ToAll _ = False"

definition to_all :: "broadcast_call list \<Rightarrow> broadcast_call list" where
  "to_all calls = filter is_ToAll calls"

fun call_seen :: "string \<Rightarrow> broadcast_call \<Rightarrow> bool" where
  "call_seen i (ToAll clients event payload opts) = sees i clients event None"
| "call_seen i (ToConns clients event payload connIds opts) = sees i clients event (Some connIds)"

definition seqs_to :: "string \<Rightarrow> broadcast_effect list \<Rightarrow> json list" where
  "seqs_to i es = List.map_filter (\<lambda>f. getp f ''seq'') (frames_to i es)"

lemma seqs_to_simps [simp]: "seqs_to i [] = []" "seqs_to i (xs @ ys) = seqs_to i xs @ seqs_to i ys"
  by (simp_all add: seqs_to_def List.map_filter_def)

lemma event_frame_seq: "getp (event_frame event payload s opts) ''seq'' = map_option (\<lambda>n. js_int (int n)) s"
  by (simp add: event_frame_def getp_mk_obj)

lemma bc_step_seqs:
  assumes "call_ok call"
  shows "seqs_to i (snd (bc_step call n)) =
      (if is_ToAll call \<and> call_seen i call then [js_int (int (Suc n))] else [])
    \<and> fst (bc_step call n) = (if is_ToAll call then Suc n else n)"
proof (cases call)
  case (ToAll clients event payload opts)
  then have "distinct (map wc_connId clients)" "clients \<noteq> []" using assms by (simp_all add: call_ok_def)
  then show ?thesis using ToAll
    by (simp add: broadcast_def seqs_to_def broadcast_frames event_frame_seq List.map_filter_def)
       (simp add: broadcastInternal_def Let_def)
next
  case (ToConns clients event payload connIds opts)
  then have "distinct (map wc_connId clients)" "clients \<noteq> []" using assms by (simp_all add: call_ok_def)
  then show ?thesis using ToConns
    by (simp add: broadcastToConnIds_def seqs_to_def broadcast_frames event_frame_seq List.map_filter_def)
       (simp add: broadcastInternal_def Let_def)
qed

lemma upt_Suc_filter: "filter P [Suc a..<Suc b] = map Suc (filter (\<lambda>k. P (Suc k)) [a..<b])"
  by (simp add: filter_map o_def del: upt_Suc flip: map_Suc_upt)

lemma bc_run_seqs:
  "\<forall>call\<in>set calls. call_ok call \<Longrightarrow>
   seqs_to i (snd (bc_run calls n)) =
     map (\<lambda>k. js_int (int (Suc (n + k)))) (filter (\<lambda>k. call_seen i (to_all calls ! k)) [0..<length (to_all calls)])"
proof (induction calls arbitrary: n)
  case Nil
  then show ?case by (simp add: bc_run_def to_all_def)
next
  case (Cons call calls)
  have step: "seqs_to i (snd (bc_step call n)) =
      (if is_ToAll call \<and> call_seen i call then [js_int (int (Suc n))] else [])"
    "fst (bc_step call n) = (if is_ToAll call then Suc n else n)"
    using bc_step_seqs[of call i n] Cons.prems by simp_all
  show ?case
  proof (cases "is_ToAll call")
    case False
    then show ?thesis using Cons step by (simp add: bc_run_def to_all_def)
  next
    case True
    then have ta: "to_all (call # calls) = call # to_all calls" by (simp add: to_all_def)
    have run: "seqs_to i (snd (bc_run (call # calls) n)) =
        (if call_seen i call then [js_int (int (Suc n))] else [])
        @ map (\<lambda>k. js_int (int (Suc (Suc n + k)))) (filter (\<lambda>k. call_seen i (to_all calls ! k)) [0..<length (to_all calls)])"
      using Cons step True by (simp add: bc_run_def)
    have up: "[0..<length (to_all (call # calls))] = 0 # [Suc 0..<Suc (length (to_all calls))]"
      by (simp add: ta upt_conv_Cons del: upt_Suc)
    show ?thesis unfolding run up by (simp add: ta upt_Suc_filter o_def del: upt_Suc)
  qed
qed

text \<open>
  C32: a connection can tell what it has missed. Over any run of broadcasts and targeted events, with
  clients coming and going, the numbers it receives are those of the broadcasts it was admitted to,
  in order: what is withheld from it, for its scopes or its full buffer, is a gap, and a targeted
  event never is.
\<close>

theorem broadcast_numbers_show_gaps:
  assumes "\<forall>call\<in>set calls. call_ok call"
  shows "seqs_to i (snd (bc_run calls 0)) =
    map (\<lambda>k. js_int (int (Suc k))) (filter (\<lambda>k. call_seen i (to_all calls ! k)) [0..<length (to_all calls)])"
  using bc_run_seqs[OF assms, of i 0] by simp

definition reader_client :: "string \<Rightarrow> string list \<Rightarrow> ws_client" where
  "reader_client i scopes = \<lparr>wc_connId = i, wc_connect = \<lparr>gc_role = Some ''operator'', gc_scopes = Some scopes\<rparr>,
     wc_bufferedAmount = 0\<rparr>"

definition plain_opts :: broadcast_opts where
  "plain_opts = \<lparr>bo_dropIfSlow = True, bo_stateVersion = None\<rparr>"

definition broadcast_example :: "broadcast_call list" where
  "broadcast_example =
     (let cs = [reader_client ''a'' [READ_SCOPE], reader_client ''b'' [READ_SCOPE, PAIRING_SCOPE]] in
      [ToAll cs ''chat'' None plain_opts, ToAll cs ''device.pair.requested'' None plain_opts,
       ToConns cs ''session.message'' None [''a''] plain_opts, ToAll cs ''sessions.changed'' None plain_opts])"

theorem broadcast_reaches_admitted_witness:
  "frames_to ''a'' (snd (broadcastInternal [reader_client ''a'' [READ_SCOPE], reader_client ''b'' []]
      ''session.message'' None plain_opts None 4)) = [event_frame ''session.message'' None (Some 5) plain_opts]"
proof -
  let ?cs = "[reader_client ''a'' [READ_SCOPE], reader_client ''b'' []]"
  have d: "distinct (map wc_connId ?cs)" and s: "sees ''a'' ?cs ''session.message'' None"
    by code_simp+
  show ?thesis using broadcast_reaches_admitted[OF d, of "''a''" "''session.message''" None plain_opts None 4] s
    by simp
qed

theorem broadcast_numbers_show_gaps_witness:
  "seqs_to ''a'' (snd (bc_run broadcast_example 0)) = [js_int 1, js_int 3]"
proof -
  have ok: "\<forall>call\<in>set broadcast_example. call_ok call" by code_simp
  have f: "filter (\<lambda>k. call_seen ''a'' (to_all broadcast_example ! k)) [0..<length (to_all broadcast_example)] = [0, 2]"
    by code_simp
  show ?thesis using broadcast_numbers_show_gaps[OF ok, of "''a''"] unfolding f by simp
qed

section \<open>Events and methods\<close>

lemma guards_cases:
  assumes "map_of EVENT_SCOPE_GUARDS event = Some required"
  shows "required \<in> {[APPROVALS_SCOPE], [PAIRING_SCOPE], [READ_SCOPE]}"
proof -
  have "required \<in> snd ` set EVENT_SCOPE_GUARDS" using assms by (force dest: map_of_SomeD)
  then show ?thesis by (auto simp: EVENT_SCOPE_GUARDS_def)
qed

text \<open>
  The guards on events agree with the scopes of methods. An operator is sent a guarded event
  exactly when it may call the methods of the event's scope.
\<close>

theorem event_guards_agree_with_methods:
  assumes "map_of EVENT_SCOPE_GUARDS event = Some [scope]" and "resolveScopedMethod plugins method = Some scope"
  shows "hasEventScope \<lparr>gc_role = Some ''operator'', gc_scopes = Some scopes\<rparr> event
    \<longleftrightarrow> authorizeOperatorScopesForMethod plugins method scopes = Allowed"
  using guards_cases[OF assms(1)] assms
  by (auto simp: hasEventScope_def authorize_allowed list_ex_iff)

theorem event_guards_agree_with_methods_witness:
  "hasEventScope \<lparr>gc_role = Some ''operator'', gc_scopes = Some [WRITE_SCOPE]\<rparr> ''session.message''
    \<longleftrightarrow> authorizeOperatorScopesForMethod (\<lambda>m. None) ''sessions.subscribe'' [WRITE_SCOPE] = Allowed"
proof -
  have g: "map_of EVENT_SCOPE_GUARDS ''session.message'' = Some [READ_SCOPE]"
    and m: "resolveScopedMethod (\<lambda>m. None) ''sessions.subscribe'' = Some READ_SCOPE"
    by code_simp+
  show ?thesis by (rule event_guards_agree_with_methods[OF g m])
qed

end
