(* ===== verification/OpenClawBridge.thy ===== *)
theory OpenClawBridge
  imports GatewaySource OpenClawBroadcast
begin

text \<open>
  The product's adapter (packages/openclaw-adapter/src/index.ts) as a client of the OpenClaw
  gateway: the connect frame it sends, read by the gateway's handshake, what the gateway answers
  to its requests and which events it sends it.
\<close>

section \<open>The connect frame as the gateway reads it\<close>

definition json_int :: "jsval \<Rightarrow> int" where
  "json_int v = (case v of Some (JNum (Fin x)) \<Rightarrow> floor x | _ \<Rightarrow> 0)"

definition json_strings :: "jsval \<Rightarrow> string list" where
  "json_strings v = (case v of Some (JArr vs) \<Rightarrow> List.map_filter (\<lambda>v. as_str (Some v)) vs | _ \<Rightarrow> [])"

definition handshake_auth_of :: "json \<Rightarrow> handshake_auth" where
  "handshake_auth_of a = \<lparr>ha_token = as_str (getp a ''token''), ha_bootstrapToken = as_str (getp a ''bootstrapToken''),
     ha_deviceToken = as_str (getp a ''deviceToken''), ha_password = as_str (getp a ''password'')\<rparr>"

definition connect_params_of :: "json \<Rightarrow> connect_params" where
  "connect_params_of p =
     (let client = nullish (getp p ''client'') (JObj []) in
      \<lparr>co_clientId = nullish (as_str (getp client ''id'')) [], co_clientMode = nullish (as_str (getp client ''mode'')) [],
       co_minProtocol = json_int (getp p ''minProtocol''), co_maxProtocol = json_int (getp p ''maxProtocol''),
       co_role = as_str (getp p ''role''), co_scopes = json_strings (getp p ''scopes''),
       co_auth = map_option handshake_auth_of (getp p ''auth''), co_device = truthy (getp p ''device'')\<rparr>)"

definition error_response :: "string \<Rightarrow> error_shape \<Rightarrow> json" where
  "error_response i e = mk_obj
     [(''type'', Some (JStr ''res'')), (''id'', Some (JStr i)), (''ok'', Some (JBool False)), (''payload'', None),
      (''error'', Some (mk_obj
         [(''code'', Some (JStr (es_code e))), (''message'', Some (JStr (es_message e))),
          (''retryable'', map_option (\<lambda>n. JBool True) (es_retryAfterMs e)),
          (''retryAfterMs'', map_option js_int (es_retryAfterMs e)),
          (''details'', if es_details e = [] then None
             else Some (JObj (map (\<lambda>(k, v). (k, JStr v)) (es_details e))))]))]"

text \<open>The client that a handshake leaves connected.\<close>

definition connected_client :: "gateway_role \<Rightarrow> string list \<Rightarrow> gateway_client" where
  "connected_client role scopes = \<lparr>gc_role = Some (role_text role), gc_scopes = Some scopes\<rparr>"

lemma adapter_clientId:
  "co_clientId (connect_params_of (connect_payload opts)) = nullish (ci_id (oc_client opts)) ''gateway-client''"
  by (simp add: connect_params_of_def connect_payload_def getp_mk_obj Let_def)

lemma adapter_device: "\<not> co_device (connect_params_of (connect_payload opts))"
  by (simp add: connect_params_of_def connect_payload_def getp_mk_obj Let_def)

section \<open>The adapter's connection\<close>

text \<open>What an operator without scopes is told of every method but \<open>health\<close>.\<close>

definition adapter_refusal :: "(string \<Rightarrow> string option) \<Rightarrow> string \<Rightarrow> error_shape" where
  "adapter_refusal plugins method = errorShape ''INVALID_REQUEST''
     (if isNodeRoleMethod method then ''unauthorized role: operator''
      else ''missing scope: '' @ nullish (resolveScopedMethod plugins method) ADMIN_SCOPE)"

lemma unscoped_refused:
  "handleGatewayRequest plugins unavailable budget handlers (Some (connected_client RoleOperator [])) method
    = (if method = ''health'' then handleGatewayRequest plugins unavailable budget handlers None method
       else RespondError (adapter_refusal plugins method))"
proof -
  have a: "authorizeOperatorScopesForMethod plugins method []
      = MissingScope (nullish (resolveScopedMethod plugins method) ADMIN_SCOPE)"
    by (simp add: authorizeOperatorScopesForMethod_def Let_def)
  have c: "authorizeGatewayMethod plugins method (Some (connected_client RoleOperator []))
      = (if method = ''health'' then None else Some (adapter_refusal plugins method))"
  proof (cases "method = ''health''")
    case True
    show ?thesis unfolding authorizeGatewayMethod_def option.case if_P[OF True] ..
  next
    case False
    show ?thesis unfolding authorizeGatewayMethod_def option.case if_not_P[OF False]
      by (simp add: connected_client_def role_text_def parseGatewayRole_def isRoleAuthorizedForMethod_def a Let_def adapter_refusal_def)
  qed
  show ?thesis
  proof (cases "method = ''health''")
    case True
    have "authorizeGatewayMethod plugins method None = None" by (simp add: authorizeGatewayMethod_def)
    then show ?thesis unfolding if_P[OF True] handleGatewayRequest_def c by simp
  next
    case False
    show ?thesis unfolding if_not_P[OF False] handleGatewayRequest_def c by simp
  qed
qed

lemma error_response_fields:
  "getp (error_response i e) ''type'' = Some (JStr ''res'')" "getp (error_response i e) ''id'' = Some (JStr i)"
  "getp (error_response i e) ''ok'' = Some (JBool False)"
  "\<exists>x. getp (error_response i e) ''error'' = Some x \<and> x \<noteq> JNull \<and> getp x ''message'' = Some (JStr (es_message e))"
  by (simp_all add: error_response_def getp_mk_obj) (simp add: mk_obj_def)

lemma error_response_object: "is_object (Some (error_response i e))"
  by (simp add: error_response_def mk_obj_def)

lemma error_response_failure: "response_failure (error_response i e) method = PlainError (es_message e)"
proof -
  obtain x where x: "getp (error_response i e) ''error'' = Some x" "x \<noteq> JNull" "getp x ''message'' = Some (JStr (es_message e))"
    using error_response_fields(4) by blast
  then show ?thesis by (cases x) (simp_all add: response_failure_def Let_def)
qed

lemma error_response_rejects:
  assumes "map_of (gs_pending s) i = Some (method, External k)" and "gs_connectRequestId s \<noteq> Some i"
  shows "snd (handleMessage opts clk n (Some (error_response i e)) uuid s)
    = [ClearTimer i, Settle k (Inl (PlainError (es_message e)))]"
  using assms
  by (simp add: handleMessage_def error_response_object error_response_fields handle_response_def error_response_failure)

text \<open>
  C10: what the adapter's connection is good for. The adapter presents no device, so however it
  authenticates, unless it is configured with the client id of one of the gateway's own user
  interfaces, it is let in as an operator without the scopes it asks for. The gateway then refuses
  every request it forwards except \<open>health\<close>, which it handles like that of any caller: methods
  of nodes with ''unauthorized role: operator'', all others, \<open>chat.send\<close> and \<open>chat.history\<close> among
  them, with the scope that is missing; and the adapter's call ends with that error.
\<close>

theorem adapter_requests_are_refused:
  assumes "connect_handshake net (connect_params_of (connect_payload opts)) cx now tbl = (Connected role scopes m, tbl')"
    and "\<not> isOperatorUiClient (nullish (ci_id (oc_client opts)) ''gateway-client'')"
    and "map_of (gs_pending s) i = Some (method, External k)" and "gs_connectRequestId s \<noteq> Some i"
  shows "handleGatewayRequest plugins unavailable budget handlers (Some (connected_client role scopes)) method
      = (if method = ''health'' then handleGatewayRequest plugins unavailable budget handlers None method
         else RespondError (adapter_refusal plugins method))
    \<and> snd (handleMessage opts clk n (Some (error_response i (adapter_refusal plugins method))) uuid s)
      = [ClearTimer i, Settle k (Inl (PlainError (es_message (adapter_refusal plugins method))))]"
proof -
  have "role = RoleOperator \<and> scopes = []"
    using connected_without_device[OF assms(1)] assms(2) adapter_clientId by simp
  then show ?thesis using unscoped_refused error_response_rejects[OF assms(3,4)] by blast
qed

text \<open>
  C33: what the adapter gets to see, unless it is configured with the client id of one of the
  gateway's own user interfaces. Of an event that a scope guards (a request for an approval, a change
  of a session, a message of one) its connection is sent nothing. Of any other it is sent one frame,
  if it is among the recipients when the event is for some connections only (as the tool events of a
  run are, for those registered for the run) and if its buffer is not too full; otherwise it is sent
  nothing. A frame to all carries the next sequence number, one to some carries none.
\<close>

theorem adapter_sees_unguarded_events:
  assumes "connect_handshake net (connect_params_of (connect_payload opts)) cx now tbl = (Connected role scopes m, tbl')"
    and "\<not> isOperatorUiClient (nullish (ci_id (oc_client opts)) ''gateway-client'')"
    and "distinct (map wc_connId clients)" and "c \<in> set clients" and "wc_connect c = connected_client role scopes"
  shows "frames_to (wc_connId c) (snd (broadcastInternal clients event payload bopts target n))
    = (if map_of EVENT_SCOPE_GUARDS event = None \<and> wc_bufferedAmount c \<le> MAX_BUFFERED_BYTES
          \<and> (case target of Some ids \<Rightarrow> wc_connId c \<in> set ids | None \<Rightarrow> True)
       then [event_frame event payload (if target = None then Some (Suc n) else None) bopts] else [])"
proof -
  have none: "role = RoleOperator \<and> scopes = []"
    using connected_without_device[OF assms(1)] assms(2) adapter_clientId by simp
  have scope: "hasEventScope (wc_connect c) event \<longleftrightarrow> map_of EVENT_SCOPE_GUARDS event = None"
    using assms(5) none guards_cases[of event]
    by (auto simp: hasEventScope_def connected_client_def role_text_def split: option.split)
  have "sees (wc_connId c) clients event target \<longleftrightarrow> admitted c event target"
  proof -
    have "d = c" if "d \<in> set clients" "wc_connId d = wc_connId c" for d
      using that assms(3,4) by (metis distinct_map inj_onD)
    then show ?thesis using assms(4) unfolding sees_def by blast
  qed
  then show ?thesis
    using broadcast_frames[OF assms(3), of "wc_connId c" event payload bopts target n]
    by (auto simp: admitted_def scope)
qed

text \<open>
  The scopes the adapter asks for would open every method that the product calls except the one
  that stops a run: the gateway has no method \<open>chat.stop\<close>, and what has no scope needs the admin one.
\<close>

theorem default_scopes_do_not_stop:
  assumes "plugins ''chat.stop'' = None"
    and "client = connected_client RoleOperator (co_scopes (connect_params_of (connect_payload (opts\<lparr>oc_scopes := None\<rparr>))))"
  shows "authorizeGatewayMethod plugins ''sessions.subscribe'' (Some client) = None
    \<and> authorizeGatewayMethod plugins ''chat.history'' (Some client) = None
    \<and> authorizeGatewayMethod plugins ''chat.send'' (Some client) = None
    \<and> authorizeGatewayMethod plugins ''chat.stop'' (Some client)
        = Some (errorShape ''INVALID_REQUEST'' ''missing scope: operator.admin'')"
proof -
  have scopes: "gc_scopes client = Some [''operator.read'', ''operator.write'', ''operator.approvals'']"
    and role: "gc_role client = Some ''operator''"
    by (simp_all add: assms(2) connected_client_def role_text_def connect_params_of_def connect_payload_def getp_mk_obj
        Let_def json_strings_def strings_json_def List.map_filter_def)
  have m: "map_of (rev METHOD_SCOPE_BY_NAME) ''sessions.subscribe'' = Some READ_SCOPE"
    "map_of (rev METHOD_SCOPE_BY_NAME) ''chat.history'' = Some READ_SCOPE"
    "map_of (rev METHOD_SCOPE_BY_NAME) ''chat.send'' = Some WRITE_SCOPE"
    "map_of (rev METHOD_SCOPE_BY_NAME) ''chat.stop'' = None"
    "isNodeRoleMethod ''sessions.subscribe'' = False" "isNodeRoleMethod ''chat.history'' = False"
    "isNodeRoleMethod ''chat.send'' = False" "isNodeRoleMethod ''chat.stop'' = False"
    "isReservedAdminGatewayMethod ''chat.stop'' = False"
    by code_simp+
  have operator: "authorizeGatewayMethod plugins meth (Some client) =
      (case authorizeOperatorScopesForMethod plugins meth [''operator.read'', ''operator.write'', ''operator.approvals''] of
         Allowed \<Rightarrow> None | MissingScope s \<Rightarrow> Some (errorShape ''INVALID_REQUEST'' (''missing scope: '' @ s)))"
    if "meth \<noteq> ''health''" "isNodeRoleMethod meth = False" for meth
    using that scopes role
    by (simp add: authorizeGatewayMethod_def parseGatewayRole_def isRoleAuthorizedForMethod_def Let_def
        ADMIN_SCOPE_def split: scope_auth.split)
  have s: "resolveScopedMethod plugins ''sessions.subscribe'' = Some READ_SCOPE"
    "resolveScopedMethod plugins ''chat.history'' = Some READ_SCOPE"
    "resolveScopedMethod plugins ''chat.send'' = Some WRITE_SCOPE"
    "resolveScopedMethod plugins ''chat.stop'' = None"
    using m assms(1) by (simp_all only: resolveScopedMethod_def option.case resolveReservedGatewayMethodScope_def if_False truthy_string_simps)
  show ?thesis
    using operator[of "''sessions.subscribe''"] operator[of "''chat.history''"] operator[of "''chat.send''"]
      operator[of "''chat.stop''"] m s
    by (simp add: authorizeOperatorScopesForMethod_def scope_defs)
qed

section \<open>An adapter with the right token\<close>

definition bridge_opts :: openclaw_config where
  "bridge_opts = \<lparr>oc_url = ''ws://127.0.0.1:18789'', oc_token = Some ''secret'', oc_password = None, oc_role = None,
     oc_scopes = None, oc_caps = None, oc_protocolVersion = None, oc_autoSubscribeSessions = None,
     oc_reconnectDelayMs = None, oc_requestTimeoutMs = None,
     oc_client = \<lparr>ci_id = None, ci_displayName = None, ci_version = None, ci_platform = None, ci_mode = None,
       ci_instanceId = None\<rparr>\<rparr>"

lemma bridge_params:
  "connect_params_of (connect_payload bridge_opts) =
     backend_params"
  by (simp add: backend_params_def connect_params_of_def connect_payload_def bridge_opts_def getp_mk_obj Let_def json_int_def
      json_strings_def strings_json_def List.map_filter_def auth_json_def put_text_def handshake_auth_of_def
      obj_put_def floor_numeral)

lemma bridge_connected:
  "connect_handshake example_net (connect_params_of (connect_payload bridge_opts)) backend_context 1000 []
    = (Connected RoleOperator [] MethodToken, [])"
  unfolding bridge_params by (rule backend_connected)

lemma bridge_not_ui: "\<not> isOperatorUiClient (nullish (ci_id (oc_client bridge_opts)) ''gateway-client'')"
  by code_simp

theorem adapter_requests_are_refused_witness:
  "handleGatewayRequest (\<lambda>m. None) {} None (\<lambda>m. True) (Some (connected_client RoleOperator [])) ''chat.send''
      = RespondError (errorShape ''INVALID_REQUEST'' (''missing scope: '' @ WRITE_SCOPE))
    \<and> snd (handleMessage bridge_opts (\<lambda>k. 0) 0
        (Some (error_response ''r1'' (errorShape ''INVALID_REQUEST'' (''missing scope: '' @ WRITE_SCOPE)))) ''u''
        (new_source\<lparr>gs_pending := [(''r1'', ''chat.send'', External 7)]\<rparr>))
      = [ClearTimer ''r1'', Settle 7 (Inl (PlainError (''missing scope: '' @ WRITE_SCOPE)))]"
proof -
  let ?s = "new_source\<lparr>gs_pending := [(''r1'', ''chat.send'', External 7)]\<rparr>"
  have p: "map_of (gs_pending ?s) ''r1'' = Some (''chat.send'', External 7)" "gs_connectRequestId ?s \<noteq> Some ''r1''"
    by (simp_all add: new_source_def)
  have "\<not> isNodeRoleMethod ''chat.send''" and "resolveScopedMethod (\<lambda>m. None) ''chat.send'' = Some WRITE_SCOPE"
    by code_simp+
  then have r: "adapter_refusal (\<lambda>m. None) ''chat.send'' = errorShape ''INVALID_REQUEST'' (''missing scope: '' @ WRITE_SCOPE)"
    by (simp add: adapter_refusal_def)
  have m: "es_message (errorShape ''INVALID_REQUEST'' (''missing scope: '' @ WRITE_SCOPE)) = ''missing scope: '' @ WRITE_SCOPE"
    by (simp add: errorShape_def)
  have d: "''chat.send'' \<noteq> ''health''" by simp
  show ?thesis
    using adapter_requests_are_refused[OF bridge_connected bridge_not_ui p,
        where plugins = "\<lambda>m. None" and unavailable = "{}" and budget = None and handlers = "\<lambda>m. True"
          and clk = "\<lambda>k. 0" and n = 0 and uuid = "''u''"]
    unfolding r m if_not_P[OF d] .
qed

theorem adapter_sees_unguarded_events_witness:
  "frames_to ''bridge'' (snd (broadcastInternal
      [\<lparr>wc_connId = ''bridge'', wc_connect = connected_client RoleOperator [], wc_bufferedAmount = 0\<rparr>]
      ''exec.approval.requested'' None plain_opts None 0)) = []"
proof -
  let ?c = "\<lparr>wc_connId = ''bridge'', wc_connect = connected_client RoleOperator [], wc_bufferedAmount = 0\<rparr>"
  have g: "map_of EVENT_SCOPE_GUARDS ''exec.approval.requested'' \<noteq> None" by code_simp
  have "frames_to (wc_connId ?c) (snd (broadcastInternal [?c] ''exec.approval.requested'' None plain_opts None 0)) = []"
    using adapter_sees_unguarded_events[OF bridge_connected bridge_not_ui, of "[?c]" ?c "''exec.approval.requested''" None plain_opts None 0] g
    by simp
  then show ?thesis by simp
qed

theorem default_scopes_do_not_stop_witness:
  "authorizeGatewayMethod (\<lambda>m. None) ''chat.stop'' (Some (connected_client RoleOperator
      (co_scopes (connect_params_of (connect_payload (bridge_opts\<lparr>oc_scopes := None\<rparr>))))))
     = Some (errorShape ''INVALID_REQUEST'' ''missing scope: operator.admin'')"
  using default_scopes_do_not_stop[of "\<lambda>m. None" "connected_client RoleOperator
      (co_scopes (connect_params_of (connect_payload (bridge_opts\<lparr>oc_scopes := None\<rparr>))))" bridge_opts] by simp

end
