(* ===== verification/CommandQueue.thy ===== *)
theory CommandQueue
  imports OpenClawText "HOL-Library.AList" "HOL-Library.Multiset"
begin

text \<open>
  The command queue of the OpenClaw gateway (openclaw/src/process/command-queue.ts and lanes.ts),
  which decides when the runs that the product asks for are started, and the lane limits the
  gateway sets from its configuration (gateway/server-lanes.ts, config/agent-limits.ts).

  A command is its synchronous part, the calls it makes into the queue before its first
  \<open>await\<close>, and either a synchronous throw or a promise that is settled later. A closure may
  queue itself again, so that the calls that a command brings with it need not come to an end:
  commands are a codatatype. The control of the code (loops, nested calls, what is left to do
  after them) is a stack of frames, run until it is empty, if it ever is. The clock stands still
  during one such run. A promise that the queue hands out is a number. Log lines are left out.
\<close>

section \<open>State\<close>

text \<open>What \<open>Math.max(1, Math.floor(n))\<close> makes of a number: a limit below which nothing lies for NaN.\<close>

datatype lane_limit = Limit int | NoLimit | NeverBelow

fun limit_of :: "jnum \<Rightarrow> lane_limit" where
  "limit_of (Fin q) = Limit (max 1 (floor q))"
| "limit_of PosInf = NoLimit"
| "limit_of NegInf = Limit 1"
| "limit_of NaN = NeverBelow"

text \<open>\<open>n < limit\<close>.\<close>

fun below :: "nat \<Rightarrow> lane_limit \<Rightarrow> bool" where
  "below n (Limit m) \<longleftrightarrow> int n < m"
| "below n NoLimit \<longleftrightarrow> True"
| "below n NeverBelow \<longleftrightarrow> False"

text \<open>
  A command (the closure \<open>task\<close>) makes its calls in order and then throws or waits. A call that
  queues a command names the lane, the command, \<open>warnAfterMs\<close> and the calls that \<open>onWait\<close> makes.
\<close>

codatatype command = Command (cmd_calls: "queue_call list") (cmd_throws: "string option")
and queue_call =
    EnqueueIn string command int "queue_call list option"
  | SetConcurrency string jnum
  | ClearLane string
  | MarkDraining
  | ResetAll
  | WaitForActive int

text \<open>The calls that a call brings with it: those of its command and of its callback.\<close>

fun brought :: "queue_call \<Rightarrow> queue_call list" where
  "brought (EnqueueIn l task w onWait) = cmd_calls task @ nullish onWait []"
| "brought c = []"

record queue_entry =
  qe_promise :: nat
  qe_task :: command
  qe_enqueuedAt :: int
  qe_warnAfterMs :: int
  qe_onWait :: "queue_call list option"

record lane_state =
  ls_queue :: "queue_entry list"
  ls_activeTaskIds :: "nat list"
  ls_maxConcurrent :: lane_limit
  ls_draining :: bool
  ls_generation :: nat

record task_waiter =
  tw_promise :: nat
  tw_activeTaskIds :: "nat list"

datatype queue_error = CommandLaneClearedError string | GatewayDrainingError | TaskFailed string

datatype outcome = Resolved string | Rejected queue_error

text \<open>A task whose promise is still open: its entry's promise, lane and generation.\<close>

record running_task =
  rt_promise :: nat
  rt_lane :: string
  rt_generation :: nat

datatype queue_effect =
    Settle nat outcome
  | WaitOver nat bool
  | OnWait nat int nat
  | Started string nat nat

record command_queue =
  cq_gatewayDraining :: bool
  cq_lanes :: "(string \<times> lane_state) list"
  cq_waiters :: "task_waiter list"
  cq_nextTaskId :: nat
  cq_running :: "(nat \<times> running_task) list"
  cq_promises :: nat
  cq_waits :: nat
  cq_now :: int
  cq_trace :: "queue_effect list"

definition queue_error_message :: "queue_error \<Rightarrow> string" where
  "queue_error_message e = (case e of
     CommandLaneClearedError l \<Rightarrow>
       if l \<noteq> [] then ''Command lane '' @ [CHR 0x22] @ l @ [CHR 0x22] @ '' cleared'' else ''Command lane cleared''
   | GatewayDrainingError \<Rightarrow> ''Gateway is draining for restart; new tasks are not accepted''
   | TaskFailed m \<Rightarrow> m)"

definition initial_queue :: command_queue where
  "initial_queue = \<lparr>cq_gatewayDraining = False, cq_lanes = [], cq_waiters = [], cq_nextTaskId = 1,
     cq_running = [], cq_promises = 0, cq_waits = 0, cq_now = 0, cq_trace = []\<rparr>"

section \<open>Lanes\<close>

definition MainLane :: string where "MainLane = ''main''"
definition CronLane :: string where "CronLane = ''cron''"
definition SubagentLane :: string where "SubagentLane = ''subagent''"

definition normalizeLane :: "string \<Rightarrow> string" where
  "normalizeLane lane = (if trim lane \<noteq> [] then trim lane else MainLane)"

definition created_lane :: lane_state where
  "created_lane = \<lparr>ls_queue = [], ls_activeTaskIds = [], ls_maxConcurrent = Limit 1,
     ls_draining = False, ls_generation = 0\<rparr>"

definition getLaneState :: "command_queue \<Rightarrow> string \<Rightarrow> lane_state" where
  "getLaneState s l = (case map_of (cq_lanes s) l of Some x \<Rightarrow> x | None \<Rightarrow> created_lane)"

definition getLaneDepth :: "lane_state \<Rightarrow> nat" where
  "getLaneDepth x = length (ls_queue x) + length (ls_activeTaskIds x)"

text \<open>An assignment to a field of a lane's state, which is created by being looked up.\<close>

definition on_lane :: "string \<Rightarrow> (lane_state \<Rightarrow> lane_state) \<Rightarrow> command_queue \<Rightarrow> command_queue" where
  "on_lane l f s = s\<lparr>cq_lanes := AList.update l (f (getLaneState s l)) (cq_lanes s)\<rparr>"

definition emits :: "queue_effect list \<Rightarrow> command_queue \<Rightarrow> command_queue" where
  "emits es s = s\<lparr>cq_trace := cq_trace s @ es\<rparr>"

section \<open>Waiters\<close>

definition active_ids :: "command_queue \<Rightarrow> nat list" where
  "active_ids s = concat (map (ls_activeTaskIds \<circ> snd) (cq_lanes s))"

definition hasPendingActiveTasks :: "command_queue \<Rightarrow> nat list \<Rightarrow> bool" where
  "hasPendingActiveTasks s ids \<longleftrightarrow> list_ex (\<lambda>t. t \<in> set ids) (active_ids s)"

definition resolveActiveTaskWaiter :: "nat \<Rightarrow> bool \<Rightarrow> command_queue \<Rightarrow> command_queue" where
  "resolveActiveTaskWaiter w drained s =
     (if w \<notin> tw_promise ` set (cq_waiters s) then s
      else emits [WaitOver w drained] (s\<lparr>cq_waiters := filter (\<lambda>x. tw_promise x \<noteq> w) (cq_waiters s)\<rparr>))"

definition notify_one :: "task_waiter \<Rightarrow> command_queue \<Rightarrow> command_queue" where
  "notify_one x s = (if tw_activeTaskIds x = [] \<or> \<not> hasPendingActiveTasks s (tw_activeTaskIds x)
     then resolveActiveTaskWaiter (tw_promise x) True s else s)"

definition notifyActiveTaskWaiters :: "command_queue \<Rightarrow> command_queue" where
  "notifyActiveTaskWaiters s = fold notify_one (cq_waiters s) s"

section \<open>Frames\<close>

text \<open>
  What is left to do, innermost first: calls into the queue, the start of an entry that has
  been taken from its lane, the loop of a lane, the end of a task, the settling of a promise,
  a call of \<open>drainLane\<close> and one of \<open>notifyActiveTaskWaiters\<close>.
\<close>

datatype frame =
    Calls "queue_call list"
  | Start string queue_entry
  | Pump string
  | Ended string nat nat nat outcome
  | SettleWith nat outcome
  | DrainLane string
  | Notify

definition enqueueCommandInLane ::
  "string \<Rightarrow> command \<Rightarrow> int \<Rightarrow> queue_call list option \<Rightarrow> command_queue \<Rightarrow> command_queue \<times> frame list" where
  "enqueueCommandInLane lane task warnAfterMs onWait s =
     (let i = cq_promises s; s = s\<lparr>cq_promises := Suc i\<rparr>; cleaned = normalizeLane lane in
      if cq_gatewayDraining s then (emits [Settle i (Rejected GatewayDrainingError)] s, [])
      else (on_lane cleaned (\<lambda>x. x\<lparr>ls_queue := ls_queue x @
              [\<lparr>qe_promise = i, qe_task = task, qe_enqueuedAt = cq_now s,
                qe_warnAfterMs = warnAfterMs, qe_onWait = onWait\<rparr>]\<rparr>) s,
            [DrainLane cleaned]))"

definition setCommandLaneConcurrency :: "string \<Rightarrow> jnum \<Rightarrow> command_queue \<Rightarrow> command_queue \<times> frame list" where
  "setCommandLaneConcurrency lane n s =
     (on_lane (normalizeLane lane) (\<lambda>x. x\<lparr>ls_maxConcurrent := limit_of n\<rparr>) s,
      [DrainLane (normalizeLane lane)])"

definition clearCommandLane :: "string \<Rightarrow> command_queue \<Rightarrow> command_queue" where
  "clearCommandLane lane s =
     (let cleaned = normalizeLane lane in
      case map_of (cq_lanes s) cleaned of
        None \<Rightarrow> s
      | Some x \<Rightarrow> emits (map (\<lambda>e. Settle (qe_promise e) (Rejected (CommandLaneClearedError cleaned))) (ls_queue x))
          (on_lane cleaned (\<lambda>x. x\<lparr>ls_queue := []\<rparr>) s))"

definition reset_lane :: "lane_state \<Rightarrow> lane_state" where
  "reset_lane x = x\<lparr>ls_generation := Suc (ls_generation x), ls_activeTaskIds := [], ls_draining := False\<rparr>"

definition resetAllLanes :: "command_queue \<Rightarrow> command_queue \<times> frame list" where
  "resetAllLanes s =
     (s\<lparr>cq_gatewayDraining := False, cq_lanes := map (\<lambda>(l, x). (l, reset_lane x)) (cq_lanes s)\<rparr>,
      map (\<lambda>(l, x). DrainLane l) (filter (\<lambda>(l, x). ls_queue x \<noteq> []) (cq_lanes s)) @ [Notify])"

definition waitForActiveTasks :: "int \<Rightarrow> command_queue \<Rightarrow> command_queue \<times> frame list" where
  "waitForActiveTasks timeoutMs s =
     (let w = cq_waits s; s = s\<lparr>cq_waits := Suc w\<rparr>; activeAtStart = remdups (active_ids s) in
      if activeAtStart = [] then (emits [WaitOver w True] s, [])
      else if timeoutMs \<le> 0 then (emits [WaitOver w False] s, [])
      else (s\<lparr>cq_waiters := cq_waiters s @ [\<lparr>tw_promise = w, tw_activeTaskIds = activeAtStart\<rparr>]\<rparr>, [Notify]))"

fun do_call :: "queue_call \<Rightarrow> command_queue \<Rightarrow> command_queue \<times> frame list" where
  "do_call (EnqueueIn lane task warn onWait) s = enqueueCommandInLane lane task warn onWait s"
| "do_call (SetConcurrency lane n) s = setCommandLaneConcurrency lane n s"
| "do_call (ClearLane lane) s = (clearCommandLane lane s, [])"
| "do_call MarkDraining s = (s\<lparr>cq_gatewayDraining := True\<rparr>, [])"
| "do_call ResetAll s = resetAllLanes s"
| "do_call (WaitForActive timeoutMs) s = waitForActiveTasks timeoutMs s"

definition enqueueCommand :: "command \<Rightarrow> int \<Rightarrow> queue_call list option \<Rightarrow> command_queue \<Rightarrow> command_queue \<times> frame list" where
  "enqueueCommand task warnAfterMs onWait = enqueueCommandInLane MainLane task warnAfterMs onWait"

text \<open>A deadline that is not given is two seconds.\<close>

definition warn_after :: "int option \<Rightarrow> int" where
  "warn_after opts = nullish opts 2000"

definition getQueueSize :: "command_queue \<Rightarrow> string \<Rightarrow> nat" where
  "getQueueSize s lane = (case map_of (cq_lanes s) (normalizeLane lane) of None \<Rightarrow> 0 | Some x \<Rightarrow> getLaneDepth x)"

definition getTotalQueueSize :: "command_queue \<Rightarrow> nat" where
  "getTotalQueueSize s = sum_list (map (getLaneDepth \<circ> snd) (cq_lanes s))"

definition getActiveTaskCount :: "command_queue \<Rightarrow> nat" where
  "getActiveTaskCount s = sum_list (map (length \<circ> ls_activeTaskIds \<circ> snd) (cq_lanes s))"

section \<open>Limits from the configuration\<close>

definition DEFAULT_AGENT_MAX_CONCURRENT :: rat where "DEFAULT_AGENT_MAX_CONCURRENT = 4"
definition DEFAULT_SUBAGENT_MAX_CONCURRENT :: rat where "DEFAULT_SUBAGENT_MAX_CONCURRENT = 8"

text \<open>The arguments are the values found at the configuration's paths, \<open>None\<close> where a part is missing.\<close>

definition resolveAgentMaxConcurrent :: "jsval \<Rightarrow> rat" where
  "resolveAgentMaxConcurrent raw = (case as_finite raw of
     Some q \<Rightarrow> max 1 (of_int (floor q)) | None \<Rightarrow> DEFAULT_AGENT_MAX_CONCURRENT)"

definition resolveSubagentMaxConcurrent :: "jsval \<Rightarrow> rat" where
  "resolveSubagentMaxConcurrent raw = (case as_finite raw of
     Some q \<Rightarrow> max 1 (of_int (floor q)) | None \<Rightarrow> DEFAULT_SUBAGENT_MAX_CONCURRENT)"

definition applyGatewayLaneConcurrency :: "jnum option \<Rightarrow> jsval \<Rightarrow> jsval \<Rightarrow> queue_call list" where
  "applyGatewayLaneConcurrency cronMaxConcurrentRuns agentMax subagentMax =
     [SetConcurrency CronLane (nullish cronMaxConcurrentRuns (Fin 1)),
      SetConcurrency MainLane (Fin (resolveAgentMaxConcurrent agentMax)),
      SetConcurrency SubagentLane (Fin (resolveSubagentMaxConcurrent subagentMax))]"

section \<open>The loop\<close>

text \<open>One iteration of the loop of a lane: the slot is taken only after \<open>onWait\<close> has returned.\<close>

definition pump_frames :: "string \<Rightarrow> queue_entry \<Rightarrow> frame list" where
  "pump_frames l e = [Start l e, Pump l]"

definition pump :: "string \<Rightarrow> command_queue \<Rightarrow> command_queue \<times> frame list" where
  "pump l s = (let x = getLaneState s l in
     case ls_queue x of
       e # rest \<Rightarrow>
         if below (length (ls_activeTaskIds x)) (ls_maxConcurrent x)
         then (let s = on_lane l (\<lambda>x. x\<lparr>ls_queue := rest\<rparr>) s; waitedMs = cq_now s - qe_enqueuedAt e in
           if qe_warnAfterMs e \<le> waitedMs
           then (case qe_onWait e of
                   None \<Rightarrow> (s, pump_frames l e)
                 | Some cs \<Rightarrow> (emits [OnWait (qe_promise e) waitedMs (length rest)] s, Calls cs # pump_frames l e))
           else (s, pump_frames l e))
         else (on_lane l (\<lambda>x. x\<lparr>ls_draining := False\<rparr>) s, [])
     | [] \<Rightarrow> (on_lane l (\<lambda>x. x\<lparr>ls_draining := False\<rparr>) s, []))"

definition start_task :: "string \<Rightarrow> queue_entry \<Rightarrow> command_queue \<Rightarrow> command_queue \<times> frame list" where
  "start_task l e s =
     (let t = cq_nextTaskId s; g = ls_generation (getLaneState s l);
          s = emits [Started l (qe_promise e) t]
                (on_lane l (\<lambda>x. x\<lparr>ls_activeTaskIds := List.insert t (ls_activeTaskIds x)\<rparr>)
                  (s\<lparr>cq_nextTaskId := Suc t\<rparr>)) in
      case cmd_throws (qe_task e) of
        Some m \<Rightarrow> (s, [Calls (cmd_calls (qe_task e)), Ended l t g (qe_promise e) (Rejected (TaskFailed m))])
      | None \<Rightarrow> (s\<lparr>cq_running := cq_running s @
            [(t, \<lparr>rt_promise = qe_promise e, rt_lane = l, rt_generation = g\<rparr>)]\<rparr>,
          [Calls (cmd_calls (qe_task e))]))"

definition task_ended :: "string \<Rightarrow> nat \<Rightarrow> nat \<Rightarrow> nat \<Rightarrow> outcome \<Rightarrow> command_queue \<Rightarrow> command_queue \<times> frame list" where
  "task_ended l t g i out s =
     (if g \<noteq> ls_generation (getLaneState s l) then (s, [SettleWith i out])
      else (on_lane l (\<lambda>x. x\<lparr>ls_activeTaskIds := removeAll t (ls_activeTaskIds x)\<rparr>) s,
            [Notify, Pump l, SettleWith i out]))"

definition drainLane :: "string \<Rightarrow> command_queue \<Rightarrow> command_queue \<times> frame list" where
  "drainLane l s =
     (if ls_draining (getLaneState s l) then (s, [])
      else (on_lane l (\<lambda>x. x\<lparr>ls_draining := True\<rparr>) s, [Pump l]))"

fun frame_step :: "frame \<Rightarrow> command_queue \<Rightarrow> command_queue \<times> frame list" where
  "frame_step (Calls []) s = (s, [])"
| "frame_step (Calls (c # cs)) s = (case do_call c s of (s', fs) \<Rightarrow> (s', fs @ [Calls cs]))"
| "frame_step (Start l e) s = start_task l e s"
| "frame_step (Pump l) s = pump l s"
| "frame_step (Ended l t g i out) s = task_ended l t g i out s"
| "frame_step (SettleWith i out) s = (emits [Settle i out] s, [])"
| "frame_step (DrainLane l) s = drainLane l s"
| "frame_step Notify s = (notifyActiveTaskWaiters s, [])"

text \<open>One step of the stack machine.\<close>

fun machine_step :: "command_queue \<times> frame list \<Rightarrow> command_queue \<times> frame list" where
  "machine_step (s, []) = (s, [])"
| "machine_step (s, f # fs) = (case frame_step f s of (s', gs) \<Rightarrow> (s', gs @ fs))"

section \<open>Conditions that calls hand on\<close>

text \<open>A condition on calls, for the entries that wait and for the frames.\<close>

definition entry_all :: "(queue_call \<Rightarrow> bool) \<Rightarrow> queue_entry \<Rightarrow> bool" where
  "entry_all P e \<longleftrightarrow> (\<exists>lane. P (EnqueueIn lane (qe_task e) (qe_warnAfterMs e) (qe_onWait e)))"

fun frame_all :: "(queue_call \<Rightarrow> bool) \<Rightarrow> frame \<Rightarrow> bool" where
  "frame_all P (Calls cs) \<longleftrightarrow> list_all P cs"
| "frame_all P (Start l e) \<longleftrightarrow> entry_all P e"
| "frame_all P f \<longleftrightarrow> True"

definition everywhere :: "(queue_call \<Rightarrow> bool) \<Rightarrow> command_queue \<Rightarrow> frame list \<Rightarrow> bool" where
  "everywhere P s fs \<longleftrightarrow> (\<forall>l. list_all (entry_all P) (ls_queue (getLaneState s l))) \<and> list_all (frame_all P) fs"

text \<open>The calls that it brings with it are finitely many, with those that they bring, and so on.\<close>

inductive finite_call :: "queue_call \<Rightarrow> bool" where
  finite_call: "(\<forall>d \<in> set (brought c). finite_call d) \<Longrightarrow> finite_call c"

section \<open>The stack empties\<close>

text \<open>
  First measure: the calls that are still to be made, in frames and in the commands that wait,
  where they are finitely many. Every call uses one up, whatever it pushes. Second: a weight of
  the frames and of the entries that wait, which every other step lowers.
\<close>

inductive call_costs :: "queue_call \<Rightarrow> nat \<Rightarrow> bool" and calls_cost :: "queue_call list \<Rightarrow> nat \<Rightarrow> bool" where
  cost_call: "calls_cost (brought c) n \<Longrightarrow> call_costs c (Suc n)"
| cost_none: "calls_cost [] 0"
| cost_more: "call_costs c n \<Longrightarrow> calls_cost cs m \<Longrightarrow> calls_cost (c # cs) (n + m)"

inductive_cases call_costsE: "call_costs c n"
inductive_cases calls_cost_NilE: "calls_cost [] n"
inductive_cases calls_cost_ConsE: "calls_cost (c # cs) n"

definition call_work :: "queue_call \<Rightarrow> nat" where
  "call_work c = (THE n. call_costs c n)"

definition calls_work :: "queue_call list \<Rightarrow> nat" where
  "calls_work cs = (THE n. calls_cost cs n)"

definition entry_work :: "queue_entry \<Rightarrow> nat" where
  "entry_work e = calls_work (cmd_calls (qe_task e)) + calls_work (nullish (qe_onWait e) [])"

fun frame_work :: "frame \<Rightarrow> nat" where
  "frame_work (Calls cs) = calls_work cs"
| "frame_work (Start l e) = calls_work (cmd_calls (qe_task e))"
| "frame_work f = 0"

text \<open>A quantity of the lanes, added up.\<close>

definition lane_total :: "(lane_state \<Rightarrow> 'a::comm_monoid_add) \<Rightarrow> command_queue \<Rightarrow> 'a" where
  "lane_total h s = sum_list (map (h \<circ> snd) (cq_lanes s))"

fun frame_weight :: "frame \<Rightarrow> nat" where
  "frame_weight (Calls cs) = 1"
| "frame_weight (Start l e) = 7"
| "frame_weight (Pump l) = 1"
| "frame_weight (Ended l t g i out) = 5"
| "frame_weight (SettleWith i out) = 1"
| "frame_weight (DrainLane l) = 2"
| "frame_weight Notify = 1"

definition queue_work :: "lane_state \<Rightarrow> nat" where
  "queue_work x = sum_list (map entry_work (ls_queue x))"

definition queue_length :: "lane_state \<Rightarrow> nat" where
  "queue_length x = length (ls_queue x)"

definition machine_work :: "command_queue \<times> frame list \<Rightarrow> nat" where
  "machine_work c = lane_total queue_work (fst c) + sum_list (map frame_work (snd c))"

definition machine_weight :: "command_queue \<times> frame list \<Rightarrow> nat" where
  "machine_weight c = 9 * lane_total queue_length (fst c) + sum_list (map frame_weight (snd c))"

lemma costs_unique:
  "call_costs c n \<Longrightarrow> call_costs c n' \<Longrightarrow> n' = n"
  "calls_cost cs m \<Longrightarrow> calls_cost cs m' \<Longrightarrow> m' = m"
proof (induction arbitrary: n' and m' rule: call_costs_calls_cost.inducts)
  case (cost_call c n)
  from cost_call.prems show ?case by (rule call_costsE) (use cost_call.IH in simp)
next
  case cost_none
  then show ?case by (rule calls_cost_NilE) simp
next
  case (cost_more c n cs m)
  from cost_more.prems show ?case by (rule calls_cost_ConsE) (use cost_more.IH in simp)
qed

lemma costs_work: "call_costs c n \<Longrightarrow> call_work c = n" "calls_cost cs m \<Longrightarrow> calls_work cs = m"
  by (auto simp: call_work_def calls_work_def intro: costs_unique)

lemma calls_have_costs: "list_all (\<lambda>c. \<exists>n. call_costs c n) cs \<Longrightarrow> \<exists>m. calls_cost cs m"
  by (induction cs) (auto intro: cost_none cost_more)

lemma finite_costs: "finite_call c \<Longrightarrow> \<exists>n. call_costs c n"
proof (induction rule: finite_call.induct)
  case (finite_call c)
  then have "list_all (\<lambda>d. \<exists>n. call_costs d n) (brought c)" by (auto simp: list_all_iff)
  from calls_have_costs[OF this] show ?case by (auto intro: cost_call)
qed

lemma finite_calls_cost: "list_all finite_call cs \<Longrightarrow> \<exists>m. calls_cost cs m"
  using calls_have_costs finite_costs by (simp add: list_all_iff)

lemma finite_brought: "finite_call c \<Longrightarrow> list_all finite_call (brought c)"
  by (auto elim: finite_call.cases simp: list_all_iff)

lemma calls_work_Nil [simp]: "calls_work [] = 0"
  using costs_work(2)[OF cost_none] .

lemma calls_work_Cons: "list_all finite_call (c # cs) \<Longrightarrow> calls_work (c # cs) = call_work c + calls_work cs"
  using finite_costs[of c] finite_calls_cost[of cs] costs_work cost_more by fastforce

lemma calls_work_append:
  "list_all finite_call (cs @ ds) \<Longrightarrow> calls_work (cs @ ds) = calls_work cs + calls_work ds"
  by (induction cs) (simp_all add: calls_work_Cons)

lemma call_work_brought:
  assumes "finite_call c" shows "call_work c = Suc (calls_work (brought c))"
proof -
  obtain n where "calls_cost (brought c) n" using finite_calls_cost[OF finite_brought[OF assms]] by blast
  then show ?thesis using costs_work cost_call by metis
qed

lemma on_lane_simps [simp]:
  "cq_gatewayDraining (on_lane l f s) = cq_gatewayDraining s" "cq_waiters (on_lane l f s) = cq_waiters s"
  "cq_nextTaskId (on_lane l f s) = cq_nextTaskId s" "cq_running (on_lane l f s) = cq_running s"
  "cq_promises (on_lane l f s) = cq_promises s" "cq_waits (on_lane l f s) = cq_waits s"
  "cq_now (on_lane l f s) = cq_now s" "cq_trace (on_lane l f s) = cq_trace s"
  "getLaneState (on_lane l f s) k = (if k = l then f (getLaneState s l) else getLaneState s k)"
  by (simp_all add: on_lane_def getLaneState_def AList.update_conv')

lemma emits_simps [simp]:
  "cq_gatewayDraining (emits es s) = cq_gatewayDraining s" "cq_waiters (emits es s) = cq_waiters s"
  "cq_nextTaskId (emits es s) = cq_nextTaskId s" "cq_running (emits es s) = cq_running s"
  "cq_promises (emits es s) = cq_promises s" "cq_waits (emits es s) = cq_waits s"
  "cq_now (emits es s) = cq_now s" "cq_trace (emits es s) = cq_trace s @ es"
  "cq_lanes (emits es s) = cq_lanes s" "getLaneState (emits es s) k = getLaneState s k"
  "lane_total h (emits es s) = lane_total h s"
  by (simp_all add: emits_def getLaneState_def lane_total_def)

lemma getLaneState_update [simp]:
  "getLaneState (s\<lparr>cq_gatewayDraining := a\<rparr>) k = getLaneState s k"
  "getLaneState (s\<lparr>cq_waiters := b\<rparr>) k = getLaneState s k"
  "getLaneState (s\<lparr>cq_nextTaskId := c\<rparr>) k = getLaneState s k"
  "getLaneState (s\<lparr>cq_running := d\<rparr>) k = getLaneState s k"
  "getLaneState (s\<lparr>cq_promises := e\<rparr>) k = getLaneState s k"
  "getLaneState (s\<lparr>cq_waits := m\<rparr>) k = getLaneState s k"
  "getLaneState (s\<lparr>cq_now := n\<rparr>) k = getLaneState s k"
  by (simp_all add: getLaneState_def)

lemma lane_total_update [simp]:
  "lane_total h (s\<lparr>cq_gatewayDraining := a\<rparr>) = lane_total h s"
  "lane_total h (s\<lparr>cq_waiters := b\<rparr>) = lane_total h s"
  "lane_total h (s\<lparr>cq_nextTaskId := c\<rparr>) = lane_total h s"
  "lane_total h (s\<lparr>cq_running := d\<rparr>) = lane_total h s"
  "lane_total h (s\<lparr>cq_promises := e\<rparr>) = lane_total h s"
  "lane_total h (s\<lparr>cq_waits := m\<rparr>) = lane_total h s"
  "lane_total h (s\<lparr>cq_now := n\<rparr>) = lane_total h s"
  by (simp_all add: lane_total_def)

lemma sum_list_alist_update:
  fixes h :: "'b \<Rightarrow> 'a::comm_monoid_add"
  shows "sum_list (map (h \<circ> snd) (AList.update k v al)) + (case map_of al k of Some x \<Rightarrow> h x | None \<Rightarrow> 0)
    = sum_list (map (h \<circ> snd) al) + h v"
  by (induction al) (auto simp: ac_simps)

lemma lane_total_on_lane:
  assumes "h created_lane = 0"
  shows "lane_total h (on_lane l f s) + h (getLaneState s l) = lane_total h s + h (f (getLaneState s l))"
  using sum_list_alist_update[of h l "f (getLaneState s l)" "cq_lanes s"] assms
  by (cases "map_of (cq_lanes s) l") (simp_all add: lane_total_def on_lane_def getLaneState_def)

text \<open>A lane counts for at least what it holds.\<close>

lemma lane_total_same:
  fixes h :: "lane_state \<Rightarrow> 'a::cancel_comm_monoid_add"
  assumes "h created_lane = 0" and "h (f (getLaneState s l)) = h (getLaneState s l)"
  shows "lane_total h (on_lane l f s) = lane_total h s"
  using lane_total_on_lane[of h l f s] assms by simp

lemma getLaneState_reset:
  "getLaneState (fst (resetAllLanes s)) l
     = (if map_of (cq_lanes s) l = None then created_lane else reset_lane (getLaneState s l))"
proof -
  have "map_of (map (\<lambda>(l, x). (l, reset_lane x)) xs) l = map_option reset_lane (map_of xs l)" for xs
    by (induction xs) auto
  then show ?thesis by (simp add: resetAllLanes_def getLaneState_def split: option.split)
qed

lemma getLaneState_clear:
  "getLaneState (clearCommandLane lane s) l
     = (if l = normalizeLane lane then (getLaneState s l)\<lparr>ls_queue := []\<rparr> else getLaneState s l)"
proof (cases "map_of (cq_lanes s) (normalizeLane lane)")
  case None
  then show ?thesis by (simp add: clearCommandLane_def getLaneState_def created_lane_def)
qed (simp add: clearCommandLane_def Let_def)

lemma notify_lanes [simp]: "cq_lanes (notifyActiveTaskWaiters s) = cq_lanes s"
proof -
  have "cq_lanes (fold notify_one ws s) = cq_lanes s" for ws
    by (induction ws arbitrary: s) (simp_all add: notify_one_def resolveActiveTaskWaiter_def)
  then show ?thesis by (simp add: notifyActiveTaskWaiters_def)
qed

lemma getLaneState_notify [simp]: "getLaneState (notifyActiveTaskWaiters s) l = getLaneState s l"
  by (simp add: getLaneState_def)

lemma getLaneState_waiter [simp]: "getLaneState (resolveActiveTaskWaiter w b s) l = getLaneState s l"
  by (simp add: resolveActiveTaskWaiter_def)

text \<open>
  The contract of a condition that a call hands on to the calls it brings with it: whatever the
  machine does, it holds of the entries that wait and of the calls still to be made.
\<close>

locale handed_on =
  fixes P :: "queue_call \<Rightarrow> bool"
  assumes brings: "P c \<Longrightarrow> list_all P (brought c)"
begin

lemma entry_brings:
  assumes "entry_all P e"
  shows "list_all P (cmd_calls (qe_task e))" and "list_all P (nullish (qe_onWait e) [])"
proof -
  obtain lane where "P (EnqueueIn lane (qe_task e) (qe_warnAfterMs e) (qe_onWait e))"
    using assms by (auto simp: entry_all_def)
  from brings[OF this]
  show "list_all P (cmd_calls (qe_task e))" and "list_all P (nullish (qe_onWait e) [])" by simp_all
qed

lemma everywhere_call:
  assumes "everywhere P s (Calls (c # cs) # fs)" and "do_call c s = (s', gs)"
  shows "everywhere P s' (gs @ Calls cs # fs)"
proof -
  have P: "P c" using assms(1) by (simp add: everywhere_def)
  show ?thesis
  proof (cases c)
    case (EnqueueIn lane task warn onWait)
    then show ?thesis using assms P
      by (auto simp: everywhere_def enqueueCommandInLane_def Let_def entry_all_def split: if_splits)
  next
    case (SetConcurrency lane n)
    then show ?thesis using assms by (auto simp: everywhere_def setCommandLaneConcurrency_def)
  next
    case (ClearLane lane)
    then show ?thesis using assms by (auto simp: everywhere_def getLaneState_clear)
  next
    case ResetAll
    have "list_all (frame_all P) (snd (resetAllLanes s))"
      by (auto simp: resetAllLanes_def list_all_iff)
    moreover have "list_all (entry_all P) (ls_queue (getLaneState (fst (resetAllLanes s)) l))" for l
      using assms(1) by (simp add: everywhere_def getLaneState_reset created_lane_def reset_lane_def)
    ultimately show ?thesis using ResetAll assms by (auto simp: everywhere_def)
  next
    case (WaitForActive n)
    then show ?thesis using assms by (auto simp: everywhere_def waitForActiveTasks_def Let_def split: if_splits)
  qed (use assms in \<open>auto simp: everywhere_def\<close>)
qed

lemma everywhere_frame:
  assumes "everywhere P s (f # fs)" and "frame_step f s = (s', gs)"
  shows "everywhere P s' (gs @ fs)"
proof (cases f)
  case (Calls cs)
  show ?thesis
  proof (cases cs)
    case (Cons c rest)
    obtain s1 hs where c: "do_call c s = (s1, hs)" by fastforce
    then show ?thesis using assms everywhere_call[OF _ c, of rest fs] Calls Cons by auto
  qed (use assms Calls in \<open>auto simp: everywhere_def\<close>)
next
  case (Start l e)
  have "list_all P (cmd_calls (qe_task e))"
    using assms(1) Start by (auto simp: everywhere_def dest: entry_brings)
  then show ?thesis using assms Start
    by (auto simp: everywhere_def start_task_def Let_def split: option.splits)
next
  case (Pump l)
  show ?thesis
  proof (cases "ls_queue (getLaneState s l)")
    case Nil
    then show ?thesis using assms Pump by (auto simp: everywhere_def pump_def)
  next
    case (Cons e rest)
    then have "entry_all P e" and "list_all (entry_all P) rest"
      using assms(1)[unfolded everywhere_def, THEN conjunct1, rule_format, of l] by simp_all
    moreover from this have "list_all P (nullish (qe_onWait e) [])" by (simp add: entry_brings)
    ultimately show ?thesis using assms Pump Cons
      by (auto simp: everywhere_def pump_def Let_def pump_frames_def split: if_splits option.splits)
  qed
next
  case (Ended l t g i out)
  then show ?thesis using assms by (auto simp: everywhere_def task_ended_def split: if_splits)
next
  case (DrainLane l)
  then show ?thesis using assms by (auto simp: everywhere_def drainLane_def split: if_splits)
qed (use assms in \<open>auto simp: everywhere_def\<close>)

end

interpretation finitely: handed_on finite_call
  by unfold_locales (rule finite_brought)

lemma queue_work_created [simp]: "queue_work created_lane = 0" "queue_length created_lane = 0"
  by (simp_all add: queue_work_def queue_length_def created_lane_def)

lemma queue_work_update [simp]:
  "queue_work (x\<lparr>ls_activeTaskIds := a\<rparr>) = queue_work x" "queue_work (x\<lparr>ls_maxConcurrent := b\<rparr>) = queue_work x"
  "queue_work (x\<lparr>ls_draining := c\<rparr>) = queue_work x" "queue_work (x\<lparr>ls_generation := d\<rparr>) = queue_work x"
  "queue_work (x\<lparr>ls_queue := q\<rparr>) = sum_list (map entry_work q)"
  "queue_length (x\<lparr>ls_activeTaskIds := a\<rparr>) = queue_length x" "queue_length (x\<lparr>ls_maxConcurrent := b\<rparr>) = queue_length x"
  "queue_length (x\<lparr>ls_draining := c\<rparr>) = queue_length x" "queue_length (x\<lparr>ls_generation := d\<rparr>) = queue_length x"
  "queue_length (x\<lparr>ls_queue := q\<rparr>) = length q"
  by (simp_all add: queue_work_def queue_length_def)

lemma reset_total: "queue_work (reset_lane x) = queue_work x"
  by (simp add: reset_lane_def)

lemma work_on_lane:
  "lane_total queue_work (on_lane l f s) + queue_work (getLaneState s l)
     = lane_total queue_work s + queue_work (f (getLaneState s l))"
  by (rule lane_total_on_lane) simp

lemma length_on_lane:
  "lane_total queue_length (on_lane l f s) + queue_length (getLaneState s l)
     = lane_total queue_length s + queue_length (f (getLaneState s l))"
  by (rule lane_total_on_lane) simp

lemma work_push [simp]:
  "lane_total queue_work (on_lane l (\<lambda>x. x\<lparr>ls_queue := ls_queue x @ q\<rparr>) s)
     = lane_total queue_work s + sum_list (map entry_work q)"
  using work_on_lane[of l "\<lambda>x. x\<lparr>ls_queue := ls_queue x @ q\<rparr>" s] by (simp add: queue_work_def)

lemma lane_total_reset:
  "(\<And>x. h (reset_lane x) = h x) \<Longrightarrow> lane_total h (fst (resetAllLanes s)) = lane_total h s"
  by (simp add: lane_total_def resetAllLanes_def comp_def split_def)

lemma frame_work_drains: "sum_list (map (frame_work \<circ> (\<lambda>(l, x). DrainLane l)) xs) = 0"
  by (induction xs) auto

lemma do_call_work:
  assumes "do_call c s = (s', gs)" and "finite_call c"
  shows "machine_work (s', gs) < lane_total queue_work s + call_work c"
proof (cases c)
  case (EnqueueIn lane task warn onWait)
  have "call_work c = Suc (calls_work (cmd_calls task) + calls_work (nullish onWait []))"
    using call_work_brought[OF assms(2)] finite_brought[OF assms(2)] EnqueueIn by (simp add: calls_work_append)
  then show ?thesis
    using EnqueueIn assms(1)
    by (auto simp: enqueueCommandInLane_def Let_def machine_work_def entry_work_def split: if_splits)
next
  case (SetConcurrency lane n)
  then show ?thesis
    using assms call_work_brought[OF assms(2)]
    by (auto simp: setCommandLaneConcurrency_def machine_work_def lane_total_same)
next
  case (ClearLane lane)
  then show ?thesis
    using assms call_work_brought[OF assms(2)] work_on_lane[of "normalizeLane lane" "\<lambda>x. x\<lparr>ls_queue := []\<rparr>" s]
    by (auto simp: clearCommandLane_def Let_def machine_work_def split: option.splits)
next
  case ResetAll
  then have "s' = fst (resetAllLanes s)" and "gs = snd (resetAllLanes s)" using assms by simp_all
  then show ?thesis
    using ResetAll call_work_brought[OF assms(2)] lane_total_reset[of queue_work s] reset_total
    by (simp add: machine_work_def, simp add: resetAllLanes_def frame_work_drains)
next
  case (WaitForActive n)
  then show ?thesis using assms call_work_brought[OF assms(2)]
    by (auto simp: waitForActiveTasks_def Let_def machine_work_def split: if_splits)
qed (use assms call_work_brought[OF assms(2)] in \<open>auto simp: machine_work_def\<close>)

lemma pump_decreases:
  assumes "pump l s = (s', gs)"
  shows "machine_work (s', gs) \<le> machine_work (s, [Pump l])
    \<and> machine_weight (s', gs) < machine_weight (s, [Pump l])"
proof (cases "ls_queue (getLaneState s l)")
  case Nil
  then show ?thesis
    using assms by (auto simp: pump_def machine_work_def machine_weight_def lane_total_same)
next
  case (Cons e rest)
  let ?x = "getLaneState s l"
  have w: "lane_total queue_work (on_lane l (\<lambda>x. x\<lparr>ls_queue := rest\<rparr>) s) + entry_work e = lane_total queue_work s"
    using work_on_lane[of l "\<lambda>x. x\<lparr>ls_queue := rest\<rparr>" s] Cons by (simp add: queue_work_def)
  have n: "Suc (lane_total queue_length (on_lane l (\<lambda>x. x\<lparr>ls_queue := rest\<rparr>) s)) = lane_total queue_length s"
    using length_on_lane[of l "\<lambda>x. x\<lparr>ls_queue := rest\<rparr>" s] Cons by (simp add: queue_length_def)
  show ?thesis
  proof (cases "below (length (ls_activeTaskIds ?x)) (ls_maxConcurrent ?x)")
    case True
    then show ?thesis
      using assms Cons w n
      by (auto simp: pump_def Let_def machine_work_def machine_weight_def pump_frames_def entry_work_def
          split: if_splits option.splits)
  next
    case False
    then show ?thesis
      using assms Cons by (auto simp: pump_def machine_work_def machine_weight_def lane_total_same)
  qed
qed

lemma lane_total_notify [simp]: "lane_total h (notifyActiveTaskWaiters s) = lane_total h s"
  by (simp add: lane_total_def)

lemma frame_step_decreases:
  assumes "frame_step f s = (s', gs)" and "frame_all finite_call f"
  shows "machine_work (s', gs) < machine_work (s, [f])
    \<or> machine_work (s', gs) \<le> machine_work (s, [f]) \<and> machine_weight (s', gs) < machine_weight (s, [f])"
proof (cases f)
  case (Calls cs)
  show ?thesis
  proof (cases cs)
    case (Cons c rest)
    obtain s1 fs where c: "do_call c s = (s1, fs)" by fastforce
    then have "s' = s1" and "gs = fs @ [Calls rest]" using assms Calls Cons by simp_all
    with do_call_work[OF c] show ?thesis
      using Calls Cons assms(2) by (simp add: machine_work_def calls_work_Cons)
  qed (use assms Calls in \<open>auto simp: machine_work_def machine_weight_def\<close>)
next
  case (Start l e)
  then show ?thesis
    using assms
    by (auto simp: start_task_def Let_def machine_work_def machine_weight_def lane_total_same split: option.splits)
next
  case (Pump l)
  then show ?thesis using assms pump_decreases[of l s s' gs] by simp
next
  case (Ended l t g i out)
  then show ?thesis
    using assms by (auto simp: task_ended_def machine_work_def machine_weight_def lane_total_same split: if_splits)
next
  case (DrainLane l)
  then show ?thesis
    using assms by (auto simp: drainLane_def machine_work_def machine_weight_def lane_total_same split: if_splits)
qed (use assms in \<open>auto simp: machine_work_def machine_weight_def\<close>)

text \<open>The stack run until it is empty: nothing is returned when it never is.\<close>

partial_function (option) run_frames :: "command_queue \<Rightarrow> frame list \<Rightarrow> command_queue option" where
  "run_frames s fs = (case fs of
     [] \<Rightarrow> Some s
   | f # gs \<Rightarrow> (case frame_step f s of (s', hs) \<Rightarrow> run_frames s' (hs @ gs)))"

declare run_frames.simps [code]

lemma run_frames_simps:
  "run_frames s [] = Some s"
  "run_frames s (f # fs) = (case frame_step f s of (s', gs) \<Rightarrow> run_frames s' (gs @ fs))"
  by (simp_all add: run_frames.simps)

lemma run_frames_step: "run_frames s (f # fs) = run_frames (fst (machine_step (s, f # fs))) (snd (machine_step (s, f # fs)))"
  by (simp add: run_frames_simps split: prod.split)

lemma run_frames_machine:
  "run_frames s fs = Some s' \<longleftrightarrow> (\<exists>n. (machine_step ^^ n) (s, fs) = (s', []))"
proof
  assume ret: "run_frames s fs = Some s'"
  show "\<exists>n. (machine_step ^^ n) (s, fs) = (s', [])"
  proof (rule run_frames.raw_induct[where P = "\<lambda>s fs s'. \<exists>n. (machine_step ^^ n) (s, fs) = (s', [])", OF _ ret])
    fix f s fs s'
    assume IH: "\<And>s fs s'. f s fs = Some s' \<Longrightarrow> \<exists>n. (machine_step ^^ n) (s, fs) = (s', [])"
      and eq: "(case fs of [] \<Rightarrow> Some s | g # gs \<Rightarrow> (case frame_step g s of (s', hs) \<Rightarrow> f s' (hs @ gs))) = Some s'"
    show "\<exists>n. (machine_step ^^ n) (s, fs) = (s', [])"
    proof (cases fs)
      case Nil
      then have "(machine_step ^^ 0) (s, fs) = (s', [])" using eq by simp
      then show ?thesis ..
    next
      case (Cons g gs)
      obtain s1 hs where r: "frame_step g s = (s1, hs)" by fastforce
      then have "f s1 (hs @ gs) = Some s'" using eq Cons by simp
      from IH[OF this] obtain n where "(machine_step ^^ n) (s1, hs @ gs) = (s', [])" ..
      then have "(machine_step ^^ Suc n) (s, fs) = (s', [])"
        using r Cons by (simp add: funpow_Suc_right del: funpow.simps)
      then show ?thesis ..
    qed
  qed
next
  have "(machine_step ^^ n) (s, fs) = (s', []) \<Longrightarrow> run_frames s fs = Some s'" for n
  proof (induction n arbitrary: s fs)
    case (Suc n)
    show ?case
    proof (cases fs)
      case Nil
      have "(machine_step ^^ k) (s, []) = (s, [])" for k by (induction k) simp_all
      then show ?thesis using Suc.prems Nil by (simp add: run_frames_simps)
    next
      case (Cons g gs)
      then show ?thesis using Suc by (cases "frame_step g s") (simp add: run_frames_simps funpow_Suc_right del: funpow.simps)
    qed
  qed (simp add: run_frames_simps)
  then show "\<exists>n. (machine_step ^^ n) (s, fs) = (s', []) \<Longrightarrow> run_frames s fs = Some s'" by blast
qed

lemma machine_append:
  "machine_work (s, fs @ gs) = machine_work (s, fs) + sum_list (map frame_work gs)"
  "machine_weight (s, fs @ gs) = machine_weight (s, fs) + sum_list (map frame_weight gs)"
  by (simp_all add: machine_work_def machine_weight_def)

lemma machine_cons:
  "machine_work (s, f # fs) = machine_work (s, [f]) + sum_list (map frame_work fs)"
  "machine_weight (s, f # fs) = machine_weight (s, [f]) + sum_list (map frame_weight fs)"
  by (simp_all add: machine_work_def machine_weight_def)

text \<open>Where commands bring finitely many calls with them, the stack empties.\<close>

lemma run_frames_returns:
  assumes "everywhere finite_call s fs" shows "\<exists>s'. run_frames s fs = Some s' \<and> everywhere finite_call s' []"
proof -
  have "everywhere finite_call (fst c) (snd c) \<Longrightarrow> \<exists>s'. run_frames (fst c) (snd c) = Some s' \<and> everywhere finite_call s' []" for c
  proof (induction c rule: wf_induct_rule[OF wf_measures[of "[machine_work, machine_weight]"]])
    case (1 c)
    show ?case
    proof (cases "snd c")
      case Nil
      then show ?thesis using 1(2) by (simp add: run_frames_simps)
    next
      case (Cons f fs)
      obtain s' gs where r: "frame_step f (fst c) = (s', gs)" by fastforce
      have fin: "everywhere finite_call (fst c) (f # fs)" using 1(2) Cons by simp
      then have "frame_all finite_call f" by (simp add: everywhere_def)
      from frame_step_decreases[OF r this]
      have "((s', gs @ fs), (fst c, f # fs)) \<in> measures [machine_work, machine_weight]"
        unfolding in_measures by (auto simp: machine_append machine_cons[of "fst c" f fs])
      then have "((s', gs @ fs), c) \<in> measures [machine_work, machine_weight]" using Cons by (metis prod.collapse)
      from 1(1)[OF this] show ?thesis
        using finitely.everywhere_frame[OF fin r] r Cons by (simp add: run_frames_simps)
    qed
  qed
  from this[of "(s, fs)"] assms show ?thesis by simp
qed

section \<open>Steps\<close>

text \<open>
  Code outside makes a call, the promise of a running task is settled, the timeout of a waiter
  fires, time passes.
\<close>

datatype queue_event =
    QueueCall queue_call
  | TaskOver nat outcome
  | WaitTimeout nat
  | TimePasses nat

text \<open>What an event changes at once, and the code that it starts.\<close>

fun queue_enter :: "queue_event \<Rightarrow> command_queue \<Rightarrow> command_queue \<times> frame list" where
  "queue_enter (QueueCall c) s = (s, [Calls [c]])"
| "queue_enter (TaskOver t out) s = (case map_of (cq_running s) t of
     None \<Rightarrow> (s, [])
   | Some r \<Rightarrow> (s\<lparr>cq_running := AList.delete t (cq_running s)\<rparr>,
       [Ended (rt_lane r) t (rt_generation r) (rt_promise r) out]))"
| "queue_enter (WaitTimeout w) s = (resolveActiveTaskWaiter w False s, [])"
| "queue_enter (TimePasses d) s = (s\<lparr>cq_now := cq_now s + int d\<rparr>, [])"

definition queue_step :: "queue_event \<Rightarrow> command_queue \<Rightarrow> command_queue option" where
  "queue_step ev s = run_frames (fst (queue_enter ev s)) (snd (queue_enter ev s))"

fun queue_run :: "queue_event list \<Rightarrow> command_queue \<Rightarrow> command_queue option" where
  "queue_run [] s = Some s"
| "queue_run (ev # evs) s = (case queue_step ev s of None \<Rightarrow> None | Some s' \<Rightarrow> queue_run evs s')"

definition queue_after :: "queue_event list \<Rightarrow> command_queue option" where
  "queue_after evs = queue_run evs initial_queue"

text \<open>
  The states that the queue goes through, with the code that is left to run: an event enters
  when the stack is empty. The list holds the events so far.
\<close>

inductive queue_reaches :: "queue_event list \<Rightarrow> command_queue \<times> frame list \<Rightarrow> bool" where
  queue_starts: "queue_reaches [] (initial_queue, [])"
| queue_enters: "queue_reaches evs (s, []) \<Longrightarrow> queue_reaches (evs @ [ev]) (queue_enter ev s)"
| queue_runs: "queue_reaches evs c \<Longrightarrow> queue_reaches evs (machine_step c)"

lemma queue_reaches_more: "queue_reaches evs c \<Longrightarrow> queue_reaches evs ((machine_step ^^ n) c)"
  by (induction n) (auto intro: queue_runs)

lemma queue_run_reaches:
  "queue_reaches evs (s, []) \<Longrightarrow> queue_run evs' s = Some s' \<Longrightarrow> queue_reaches (evs @ evs') (s', [])"
proof (induction evs' arbitrary: evs s)
  case (Cons ev evs')
  obtain s1 where s1: "queue_step ev s = Some s1" and r: "queue_run evs' s1 = Some s'"
    using Cons.prems(2) by (auto split: option.splits)
  obtain n where n: "(machine_step ^^ n) (queue_enter ev s) = (s1, [])"
    using s1 by (auto simp: queue_step_def run_frames_machine)
  have "queue_reaches (evs @ [ev]) (s1, [])"
    using queue_reaches_more[OF queue_enters[OF Cons.prems(1), of ev], of n] n by simp
  from Cons.IH[OF this r] show ?case by simp
qed simp

lemma queue_after_reaches: "queue_after evs = Some s \<Longrightarrow> queue_reaches evs (s, [])"
  using queue_run_reaches[OF queue_starts] by (simp add: queue_after_def)

lemma queue_run_append:
  "queue_run (evs @ evs') s = (case queue_run evs s of None \<Rightarrow> None | Some s' \<Rightarrow> queue_run evs' s')"
  by (induction evs arbitrary: s) (simp_all split: option.split)

text \<open>The states with an empty stack are those that the events lead to.\<close>

lemma queue_reaches_after:
  "queue_reaches evs (s, []) \<longleftrightarrow> queue_after evs = Some s"
proof
  have "queue_reaches evs c \<Longrightarrow> run_frames (fst c) (snd c) = queue_after evs" for c
  proof (induction rule: queue_reaches.induct)
    case (queue_enters evs s ev)
    then have "queue_run evs initial_queue = Some s" by (simp add: run_frames_simps queue_after_def)
    then show ?case by (simp add: queue_after_def queue_run_append queue_step_def split: option.split)
  next
    case (queue_runs evs c)
    then show ?case by (cases "(fst c, snd c)" rule: machine_step.cases) (auto simp: run_frames_simps split: prod.splits)
  qed (simp add: run_frames_simps queue_after_def)
  from this[of "(s, [])"] show "queue_reaches evs (s, []) \<Longrightarrow> queue_after evs = Some s" by (simp add: run_frames_simps)
qed (rule queue_after_reaches)

text \<open>
  The contract of an invariant of the machine: every frame keeps it, and so does every event
  that is let in, which starts from an empty stack.
\<close>

locale machine_invariant =
  fixes inv :: "command_queue \<Rightarrow> frame list \<Rightarrow> bool" and admitted :: "queue_call \<Rightarrow> bool"
  assumes frame_keeps: "inv s (f # fs) \<Longrightarrow> frame_step f s = (s', gs) \<Longrightarrow> inv s' (gs @ fs)"
    and call_enters: "inv s [] \<Longrightarrow> admitted c \<Longrightarrow> inv s [Calls [c]]"
    and task_enters: "inv s [] \<Longrightarrow> map_of (cq_running s) t = Some r \<Longrightarrow>
      inv (s\<lparr>cq_running := AList.delete t (cq_running s)\<rparr>) [Ended (rt_lane r) t (rt_generation r) (rt_promise r) out]"
    and timeout_keeps: "inv s [] \<Longrightarrow> inv (resolveActiveTaskWaiter w False s) []"
    and time_keeps: "inv s [] \<Longrightarrow> inv (s\<lparr>cq_now := cq_now s + int d\<rparr>) []"
begin

lemma machine_keeps: "inv (fst c) (snd c) \<Longrightarrow> inv (fst (machine_step c)) (snd (machine_step c))"
  by (cases c rule: machine_step.cases) (auto split: prod.splits dest: frame_keeps)

lemma enter_keeps:
  assumes "inv s []" and "\<And>c. ev = QueueCall c \<Longrightarrow> admitted c"
  shows "inv (fst (queue_enter ev s)) (snd (queue_enter ev s))"
  using assms by (cases ev) (auto intro: call_enters task_enters timeout_keeps time_keeps split: option.split)

lemma reached_keeps:
  assumes "queue_reaches evs c" and "inv initial_queue []" and "\<And>c. QueueCall c \<in> set evs \<Longrightarrow> admitted c"
  shows "inv (fst c) (snd c)"
  using assms
proof (induction rule: queue_reaches.induct)
  case (queue_enters evs s ev)
  then have "inv s []" by simp
  then show ?case by (rule enter_keeps) (use queue_enters.prems in simp)
qed (simp_all add: machine_keeps)

end

end
