(* ===== verification/QueueInvariants.thy ===== *)
theory QueueInvariants
  imports CommandQueue
begin

text \<open>
  What the command queue of CommandQueue keeps: no startable command is left waiting, every
  promise is accounted for, slots are held by running tasks, waiters wait for running tasks,
  commands start in order, a lane of limit one runs one command of a generation at a time, and the
  code returns when the calls it makes are finitely many. Each is an
  instance of \<open>machine_invariant\<close>; the properties read them off the reachable states.
\<close>

section \<open>No lane is left waiting\<close>

definition ready :: "lane_state \<Rightarrow> bool" where
  "ready x \<longleftrightarrow> ls_queue x \<noteq> [] \<and> below (length (ls_activeTaskIds x)) (ls_maxConcurrent x)"

text \<open>A lane that can start something is about to be pumped; the flag is set only by a loop.\<close>

definition awake :: "command_queue \<Rightarrow> frame list \<Rightarrow> bool" where
  "awake s fs \<longleftrightarrow> (\<forall>l. (ready (getLaneState s l) \<longrightarrow> Pump l \<in> set fs \<or> DrainLane l \<in> set fs)
     \<and> (ls_draining (getLaneState s l) \<longrightarrow> Pump l \<in> set fs))"

lemma awakeI:
  assumes "\<And>l. ready (getLaneState s l) \<Longrightarrow> Pump l \<in> set fs \<or> DrainLane l \<in> set fs"
    and "\<And>l. ls_draining (getLaneState s l) \<Longrightarrow> Pump l \<in> set fs"
  shows "awake s fs"
  using assms unfolding awake_def by blast

lemma awakeD:
  assumes "awake s fs"
  shows "ready (getLaneState s l) \<Longrightarrow> Pump l \<in> set fs \<or> DrainLane l \<in> set fs"
    and "ls_draining (getLaneState s l) \<Longrightarrow> Pump l \<in> set fs"
  using assms unfolding awake_def by blast+

lemma ready_simps [simp]:
  "\<not> ready created_lane" "\<not> ls_draining created_lane" "\<not> ready (x\<lparr>ls_queue := []\<rparr>)"
  "ready (x\<lparr>ls_draining := b\<rparr>) = ready x" "ready (x\<lparr>ls_generation := g\<rparr>) = ready x"
  by (simp_all add: ready_def created_lane_def)

lemma reset_drains:
  assumes "map_of (cq_lanes s) l \<noteq> None" and "ls_queue (getLaneState s l) \<noteq> []"
  shows "DrainLane l \<in> set (snd (resetAllLanes s))"
proof -
  obtain x where x: "map_of (cq_lanes s) l = Some x" using assms(1) by blast
  then have "(l, x) \<in> set (filter (\<lambda>(l, x). ls_queue x \<noteq> []) (cq_lanes s))"
    using assms(2) map_of_SomeD[OF x] by (simp add: getLaneState_def)
  then show ?thesis by (force simp: resetAllLanes_def)
qed

lemma awake_reset:
  "awake (fst (resetAllLanes s)) (snd (resetAllLanes s) @ fs)"
proof (rule awakeI)
  fix l
  show "Pump l \<in> set (snd (resetAllLanes s) @ fs) \<or> DrainLane l \<in> set (snd (resetAllLanes s) @ fs)"
    if "ready (getLaneState (fst (resetAllLanes s)) l)"
    using that reset_drains[of s l]
    by (auto simp: getLaneState_reset ready_def reset_lane_def created_lane_def split: if_splits)
  show "Pump l \<in> set (snd (resetAllLanes s) @ fs)" if "ls_draining (getLaneState (fst (resetAllLanes s)) l)"
    using that by (auto simp: getLaneState_reset reset_lane_def split: if_splits)
qed

lemma awake_call:
  assumes "awake s (Calls (c # cs) # fs)" and "do_call c s = (s', gs)"
  shows "awake s' (gs @ Calls cs # fs)"
proof -
  note d = assms(1)[unfolded awake_def]
  show ?thesis
  proof (cases c)
    case (EnqueueIn lane task warn onWait)
    then show ?thesis using assms(2) d
      by (auto simp: awake_def enqueueCommandInLane_def Let_def split: if_splits)
  next
    case (SetConcurrency lane n)
    then show ?thesis using assms(2) d
      by (auto simp: awake_def setCommandLaneConcurrency_def split: if_splits)
  next
    case (ClearLane lane)
    then show ?thesis using assms(2) d
      by (auto simp: awake_def getLaneState_clear split: if_splits)
  next
    case ResetAll
    then show ?thesis using assms(2) awake_reset[of s "Calls cs # fs"] by simp
  next
    case (WaitForActive n)
    then show ?thesis using assms(2) d
      by (auto simp: awake_def waitForActiveTasks_def Let_def split: if_splits)
  qed (use assms(2) d in \<open>auto simp: awake_def\<close>)
qed

lemma ready_insert:
  assumes "ready (x\<lparr>ls_activeTaskIds := List.insert t (ls_activeTaskIds x)\<rparr>)"
  shows "ready x"
  using assms by (cases "ls_maxConcurrent x") (auto simp: ready_def List.insert_def split: if_splits)

lemma awake_frame:
  assumes "awake s (f # fs)" and "frame_step f s = (s', gs)"
  shows "awake s' (gs @ fs)"
proof -
  note d = assms(1)[unfolded awake_def]
  show ?thesis
  proof (cases f)
    case (Calls cs)
    show ?thesis
    proof (cases cs)
      case (Cons c rest)
      obtain s1 hs where c: "do_call c s = (s1, hs)" by fastforce
      then show ?thesis using assms awake_call[OF _ c, of rest fs] Calls Cons by auto
    qed (use assms(2) d Calls in \<open>auto simp: awake_def\<close>)
  next
    case (Start l e)
    then show ?thesis using assms(2) d
      by (auto simp: awake_def start_task_def Let_def dest!: ready_insert split: if_splits option.splits)
  next
    case (Pump l)
    then show ?thesis using assms(2) d
      by (auto simp: awake_def pump_def Let_def pump_frames_def ready_def split: if_splits option.splits list.splits)
  next
    case (Ended l t g i out)
    then show ?thesis using assms(2) d
      by (auto simp: awake_def task_ended_def split: if_splits)
  next
    case (DrainLane l)
    then show ?thesis using assms(2) d
      by (auto simp: awake_def drainLane_def split: if_splits)
  qed (use assms(2) d in \<open>auto simp: awake_def\<close>)
qed

interpretation wakeful: machine_invariant awake "\<lambda>c. True"
proof
  show "awake s' (gs @ fs)" if "awake s (f # fs)" and "frame_step f s = (s', gs)" for s f fs s' gs
    using that by (rule awake_frame)
qed (auto simp: awake_def)

section \<open>Every promise is accounted for\<close>

fun settles :: "queue_effect \<Rightarrow> nat list" where
  "settles (Settle i out) = [i]"
| "settles e = []"

fun frame_promises :: "frame \<Rightarrow> nat list" where
  "frame_promises (Start l e) = [qe_promise e]"
| "frame_promises (Ended l t g i out) = [i]"
| "frame_promises (SettleWith i out) = [i]"
| "frame_promises f = []"

definition settled_promises :: "command_queue \<Rightarrow> nat list" where
  "settled_promises s = concat (map settles (cq_trace s))"

definition queued_promises :: "lane_state \<Rightarrow> nat multiset" where
  "queued_promises x = mset (map qe_promise (ls_queue x))"

definition open_promises :: "command_queue \<Rightarrow> nat multiset" where
  "open_promises s = lane_total queued_promises s + mset (map (rt_promise \<circ> snd) (cq_running s))"

text \<open>Task numbers are given out once.\<close>

definition running_ok :: "command_queue \<Rightarrow> bool" where
  "running_ok s \<longleftrightarrow> distinct (map fst (cq_running s)) \<and> list_all (\<lambda>t. t < cq_nextTaskId s) (map fst (cq_running s))"

definition numbers :: "nat \<Rightarrow> nat multiset" where
  "numbers n = mset [0..<n]"

definition accounted :: "command_queue \<Rightarrow> frame list \<Rightarrow> bool" where
  "accounted s fs \<longleftrightarrow> running_ok s
     \<and> open_promises s + mset (settled_promises s) + mset (concat (map frame_promises fs)) = numbers (cq_promises s)"

lemma numbers_simps [simp]: "numbers 0 = {#}" "numbers (Suc n) = add_mset n (numbers n)"
  unfolding numbers_def by simp_all

lemma running_ok_simps [simp]:
  "running_ok (on_lane l f s) = running_ok s" "running_ok (emits es s) = running_ok s"
  "running_ok (s\<lparr>cq_promises := m\<rparr>) = running_ok s" "running_ok (s\<lparr>cq_waiters := w\<rparr>) = running_ok s"
  "running_ok (s\<lparr>cq_gatewayDraining := b\<rparr>) = running_ok s" "running_ok (s\<lparr>cq_now := k\<rparr>) = running_ok s"
  "running_ok (s\<lparr>cq_waits := j\<rparr>) = running_ok s" "running_ok (s\<lparr>cq_lanes := ls\<rparr>) = running_ok s"
  by (simp_all add: running_ok_def)

lemma running_ok_next [simp]: "running_ok s \<Longrightarrow> running_ok (s\<lparr>cq_nextTaskId := Suc (cq_nextTaskId s)\<rparr>)"
  by (auto simp: running_ok_def list_all_iff)

lemma running_fresh: "running_ok s \<Longrightarrow> map_of (cq_running s) (cq_nextTaskId s) = None"
  by (auto simp: running_ok_def list_all_iff map_of_eq_None_iff)

lemma running_ok_start [simp]:
  assumes "running_ok s" and "t = cq_nextTaskId s" and "cq_nextTaskId s' = Suc t" and "cq_running s' = cq_running s"
  shows "running_ok (s'\<lparr>cq_running := cq_running s @ [(t, r)]\<rparr>)"
  using assms by (auto simp: running_ok_def list_all_iff)

lemma running_ok_delete [simp]:
  assumes "running_ok s"
  shows "running_ok (s\<lparr>cq_running := AList.delete t (cq_running s)\<rparr>)"
  using assms by (auto simp: running_ok_def AList.delete_keys distinct_removeAll list_all_iff)

lemma queued_promises_simps [simp]:
  "queued_promises created_lane = {#}"
  "queued_promises (x\<lparr>ls_activeTaskIds := a\<rparr>) = queued_promises x" "queued_promises (x\<lparr>ls_maxConcurrent := b\<rparr>) = queued_promises x"
  "queued_promises (x\<lparr>ls_draining := c\<rparr>) = queued_promises x" "queued_promises (x\<lparr>ls_generation := d\<rparr>) = queued_promises x"
  "queued_promises (x\<lparr>ls_queue := q\<rparr>) = mset (map qe_promise q)" "queued_promises (reset_lane x) = queued_promises x"
  by (simp_all add: queued_promises_def created_lane_def reset_lane_def)

lemma promises_on_lane:
  "lane_total queued_promises (on_lane l f s) + queued_promises (getLaneState s l)
     = lane_total queued_promises s + queued_promises (f (getLaneState s l))"
  by (rule lane_total_on_lane) simp

lemma promises_push [simp]:
  "lane_total queued_promises (on_lane l (\<lambda>x. x\<lparr>ls_queue := ls_queue x @ q\<rparr>) s)
     = lane_total queued_promises s + mset (map qe_promise q)"
  using promises_on_lane[of l "\<lambda>x. x\<lparr>ls_queue := ls_queue x @ q\<rparr>" s] by (simp add: queued_promises_def)

lemma promises_pop:
  assumes "ls_queue (getLaneState s l) = e # rest"
  shows "lane_total queued_promises s = add_mset (qe_promise e) (lane_total queued_promises (on_lane l (\<lambda>x. x\<lparr>ls_queue := rest\<rparr>) s))"
  using promises_on_lane[of l "\<lambda>x. x\<lparr>ls_queue := rest\<rparr>" s] assms by (simp add: queued_promises_def)

lemma settled_emits [simp]: "settled_promises (emits es s) = settled_promises s @ concat (map settles es)"
  by (simp add: settled_promises_def)

lemma settled_simps [simp]:
  "settled_promises (on_lane l f s) = settled_promises s" "settled_promises (s\<lparr>cq_running := r\<rparr>) = settled_promises s"
  "settled_promises (s\<lparr>cq_nextTaskId := n\<rparr>) = settled_promises s" "settled_promises (s\<lparr>cq_promises := m\<rparr>) = settled_promises s"
  "settled_promises (s\<lparr>cq_waiters := w\<rparr>) = settled_promises s" "settled_promises (s\<lparr>cq_gatewayDraining := b\<rparr>) = settled_promises s"
  "settled_promises (s\<lparr>cq_now := k\<rparr>) = settled_promises s" "settled_promises (s\<lparr>cq_waits := j\<rparr>) = settled_promises s"
  "settled_promises (s\<lparr>cq_lanes := ls\<rparr>) = settled_promises s"
  by (simp_all add: settled_promises_def)

lemma waiter_fields [simp]:
  "cq_running (resolveActiveTaskWaiter w b s) = cq_running s" "cq_nextTaskId (resolveActiveTaskWaiter w b s) = cq_nextTaskId s"
  "cq_promises (resolveActiveTaskWaiter w b s) = cq_promises s" "cq_lanes (resolveActiveTaskWaiter w b s) = cq_lanes s"
  "cq_waits (resolveActiveTaskWaiter w b s) = cq_waits s" "cq_gatewayDraining (resolveActiveTaskWaiter w b s) = cq_gatewayDraining s"
  "settled_promises (resolveActiveTaskWaiter w b s) = settled_promises s"
  "lane_total h (resolveActiveTaskWaiter w b s) = lane_total h s"
  "running_ok (resolveActiveTaskWaiter w b s) = running_ok s"
  by (simp_all add: resolveActiveTaskWaiter_def)

lemma notify_fields [simp]:
  "cq_running (notifyActiveTaskWaiters s) = cq_running s" "cq_nextTaskId (notifyActiveTaskWaiters s) = cq_nextTaskId s"
  "cq_promises (notifyActiveTaskWaiters s) = cq_promises s" "cq_waits (notifyActiveTaskWaiters s) = cq_waits s"
  "settled_promises (notifyActiveTaskWaiters s) = settled_promises s"
proof -
  have "cq_running (fold notify_one ws s) = cq_running s \<and> cq_nextTaskId (fold notify_one ws s) = cq_nextTaskId s
    \<and> cq_promises (fold notify_one ws s) = cq_promises s \<and> cq_waits (fold notify_one ws s) = cq_waits s
    \<and> settled_promises (fold notify_one ws s) = settled_promises s" for ws
    by (induction ws arbitrary: s) (simp_all add: notify_one_def)
  then show "cq_running (notifyActiveTaskWaiters s) = cq_running s" "cq_nextTaskId (notifyActiveTaskWaiters s) = cq_nextTaskId s"
    "cq_promises (notifyActiveTaskWaiters s) = cq_promises s" "cq_waits (notifyActiveTaskWaiters s) = cq_waits s"
    "settled_promises (notifyActiveTaskWaiters s) = settled_promises s"
    by (simp_all add: notifyActiveTaskWaiters_def)
qed

lemma running_ok_notify [simp]: "running_ok (notifyActiveTaskWaiters s) = running_ok s"
  by (simp add: running_ok_def)

lemma reset_fields [simp]:
  "cq_running (fst (resetAllLanes s)) = cq_running s" "cq_nextTaskId (fst (resetAllLanes s)) = cq_nextTaskId s"
  "cq_promises (fst (resetAllLanes s)) = cq_promises s" "cq_waits (fst (resetAllLanes s)) = cq_waits s"
  "cq_waiters (fst (resetAllLanes s)) = cq_waiters s" "settled_promises (fst (resetAllLanes s)) = settled_promises s"
  "running_ok (fst (resetAllLanes s)) = running_ok s"
  by (simp_all add: resetAllLanes_def running_ok_def)

lemma reset_frame_promises [simp]: "concat (map frame_promises (snd (resetAllLanes s))) = []"
  by (auto simp: resetAllLanes_def split_def)

lemma clear_accounts:
  "open_promises (clearCommandLane lane s) + mset (settled_promises (clearCommandLane lane s))
     = open_promises s + mset (settled_promises s)"
proof (cases "map_of (cq_lanes s) (normalizeLane lane)")
  case (Some x)
  have "concat (map (settles \<circ> (\<lambda>e. Settle (qe_promise e) out)) q) = map qe_promise q"
    for out and q :: "queue_entry list"
    by (induction q) auto
  then show ?thesis
    using Some promises_on_lane[of "normalizeLane lane" "\<lambda>x. x\<lparr>ls_queue := []\<rparr>" s]
    by (simp add: clearCommandLane_def Let_def open_promises_def getLaneState_def queued_promises_def ac_simps)
qed (simp add: clearCommandLane_def)

lemma running_ok_clear [simp]: "running_ok (clearCommandLane lane s) = running_ok s"
  by (simp add: clearCommandLane_def Let_def split: option.split)

lemma clear_fields [simp]:
  "cq_running (clearCommandLane lane s) = cq_running s" "cq_nextTaskId (clearCommandLane lane s) = cq_nextTaskId s"
  "cq_promises (clearCommandLane lane s) = cq_promises s" "cq_waiters (clearCommandLane lane s) = cq_waiters s"
  "cq_waits (clearCommandLane lane s) = cq_waits s"
  by (simp_all add: clearCommandLane_def Let_def split: option.split)

lemma accounted_call:
  assumes "accounted s (Calls (c # cs) # fs)" and "do_call c s = (s', gs)"
  shows "accounted s' (gs @ Calls cs # fs)"
proof (cases c)
  case (EnqueueIn lane task warn onWait)
  then show ?thesis using assms
    by (auto simp: enqueueCommandInLane_def Let_def accounted_def open_promises_def split: if_splits)
next
  case (SetConcurrency lane n)
  then show ?thesis using assms
    by (auto simp: setCommandLaneConcurrency_def accounted_def open_promises_def lane_total_same)
next
  case (ClearLane lane)
  then have g: "s' = clearCommandLane lane s" "gs = []" using assms(2) by simp_all
  show ?thesis using assms(1) g by (simp add: accounted_def clear_accounts)
next
  case ResetAll
  then have g: "s' = fst (resetAllLanes s)" "gs = snd (resetAllLanes s)" using assms by simp_all
  have "open_promises s' = open_promises s" unfolding g by (simp add: open_promises_def lane_total_reset)
  then show ?thesis using assms(1) by (simp add: g accounted_def)
next
  case (WaitForActive n)
  then show ?thesis using assms
    by (auto simp: waitForActiveTasks_def Let_def accounted_def open_promises_def split: if_splits)
qed (use assms in \<open>auto simp: accounted_def open_promises_def\<close>)

lemma accounted_frame:
  assumes "accounted s (f # fs)" and "frame_step f s = (s', gs)"
  shows "accounted s' (gs @ fs)"
proof (cases f)
  case (Calls cs)
  show ?thesis
  proof (cases cs)
    case (Cons c rest)
    obtain s1 hs where c: "do_call c s = (s1, hs)" by fastforce
    then show ?thesis using assms accounted_call[OF _ c, of rest fs] Calls Cons by auto
  qed (use assms Calls in \<open>auto simp: accounted_def\<close>)
next
  case (Start l e)
  then show ?thesis using assms
    by (auto simp: start_task_def Let_def accounted_def open_promises_def lane_total_same less_Suc_eq split: option.splits)
next
  case (Pump l)
  show ?thesis
  proof (cases "ls_queue (getLaneState s l)")
    case Nil
    then show ?thesis using assms Pump by (auto simp: pump_def accounted_def open_promises_def lane_total_same)
  next
    case (Cons e rest)
    then show ?thesis using assms Pump promises_pop[OF Cons]
      by (auto simp: pump_def Let_def accounted_def open_promises_def pump_frames_def lane_total_same
          split: if_splits option.splits)
  qed
next
  case (Ended l t g i out)
  then show ?thesis using assms
    by (auto simp: task_ended_def accounted_def open_promises_def lane_total_same split: if_splits)
next
  case (DrainLane l)
  then show ?thesis using assms
    by (auto simp: drainLane_def accounted_def open_promises_def lane_total_same split: if_splits)
qed (use assms in \<open>auto simp: accounted_def open_promises_def\<close>)

lemma running_delete:
  assumes "distinct (map fst xs)" and "map_of xs k = Some v"
  shows "mset (map (g \<circ> snd) xs) = add_mset (g v) (mset (map (g \<circ> snd) (AList.delete k xs)))"
  using assms
proof (induction xs)
  case (Cons x xs)
  then show ?case by (auto split: if_splits)
qed simp

interpretation accounts: machine_invariant accounted "\<lambda>c. True"
proof
  show "accounted s' (gs @ fs)" if "accounted s (f # fs)" and "frame_step f s = (s', gs)" for s f fs s' gs
    using that by (rule accounted_frame)
  show "accounted (s\<lparr>cq_running := AList.delete t (cq_running s)\<rparr>) [Ended (rt_lane r) t (rt_generation r) (rt_promise r) out]"
    if "accounted s []" and "map_of (cq_running s) t = Some r" for s t r out
    using that running_delete[of "cq_running s" t r rt_promise]
    by (auto simp: accounted_def open_promises_def running_ok_def[of s])
qed (auto simp: accounted_def open_promises_def)

section \<open>Slots are held by running tasks\<close>

text \<open>
  A slot of a lane is held by a task of the lane's current generation that has not ended; no
  such task is without its slot, and none is of a later generation.
\<close>

fun ends :: "string \<Rightarrow> nat \<Rightarrow> nat \<Rightarrow> frame \<Rightarrow> bool" where
  "ends l t g (Ended l' t' g' i out) \<longleftrightarrow> l' = l \<and> t' = t \<and> g' = g"
| "ends l t g f \<longleftrightarrow> False"

definition ending :: "frame list \<Rightarrow> string \<Rightarrow> nat \<Rightarrow> nat \<Rightarrow> bool" where
  "ending fs l t g \<longleftrightarrow> list_ex (ends l t g) fs"

definition holds_slot :: "command_queue \<Rightarrow> frame list \<Rightarrow> string \<Rightarrow> nat \<Rightarrow> bool" where
  "holds_slot s fs l t \<longleftrightarrow>
     (\<exists>r. map_of (cq_running s) t = Some r \<and> rt_lane r = l \<and> rt_generation r = ls_generation (getLaneState s l))
     \<or> ending fs l t (ls_generation (getLaneState s l))"

definition has_slot :: "command_queue \<Rightarrow> running_task \<Rightarrow> nat \<Rightarrow> bool" where
  "has_slot s r t \<longleftrightarrow> rt_generation r \<le> ls_generation (getLaneState s (rt_lane r))
     \<and> (rt_generation r = ls_generation (getLaneState s (rt_lane r))
         \<longrightarrow> t \<in> set (ls_activeTaskIds (getLaneState s (rt_lane r))))"

definition slots :: "command_queue \<Rightarrow> frame list \<Rightarrow> bool" where
  "slots s fs \<longleftrightarrow> running_ok s
     \<and> (\<forall>l. distinct (ls_activeTaskIds (getLaneState s l)))
     \<and> (\<forall>l. \<forall>t\<in>set (ls_activeTaskIds (getLaneState s l)). t < cq_nextTaskId s \<and> holds_slot s fs l t)
     \<and> (\<forall>t r. map_of (cq_running s) t = Some r \<longrightarrow> has_slot s r t)
     \<and> (\<forall>l t g. ending fs l t g \<longrightarrow> map_of (cq_running s) t = None \<and> t < cq_nextTaskId s
          \<and> g \<le> ls_generation (getLaneState s l))"

lemma ending_simps [simp]:
  "\<not> ending [] l t g" "ending (f # fs) l t g \<longleftrightarrow> ends l t g f \<or> ending fs l t g"
  "ending (fs @ gs) l t g \<longleftrightarrow> ending fs l t g \<or> ending gs l t g"
  by (simp_all add: ending_def)

lemma slotsI:
  assumes "running_ok s"
    and "\<And>l. distinct (ls_activeTaskIds (getLaneState s l))"
    and "\<And>l t. t \<in> set (ls_activeTaskIds (getLaneState s l)) \<Longrightarrow> t < cq_nextTaskId s"
    and "\<And>l t. t \<in> set (ls_activeTaskIds (getLaneState s l)) \<Longrightarrow> holds_slot s fs l t"
    and "\<And>t r. map_of (cq_running s) t = Some r \<Longrightarrow> has_slot s r t"
    and "\<And>l t g. ending fs l t g \<Longrightarrow> map_of (cq_running s) t = None \<and> t < cq_nextTaskId s
          \<and> g \<le> ls_generation (getLaneState s l)"
  shows "slots s fs"
  using assms unfolding slots_def by blast

lemma slotsD:
  assumes "slots s fs"
  shows "running_ok s"
    and "distinct (ls_activeTaskIds (getLaneState s l))"
    and "t \<in> set (ls_activeTaskIds (getLaneState s l)) \<Longrightarrow> t < cq_nextTaskId s"
    and "t \<in> set (ls_activeTaskIds (getLaneState s l)) \<Longrightarrow> holds_slot s fs l t"
    and "map_of (cq_running s) t = Some r \<Longrightarrow> has_slot s r t"
    and "ending fs l t g \<Longrightarrow> map_of (cq_running s) t = None"
    and "ending fs l t g \<Longrightarrow> t < cq_nextTaskId s"
    and "ending fs l t g \<Longrightarrow> g \<le> ls_generation (getLaneState s l)"
  using assms by (simp_all add: slots_def)

text \<open>Steps that touch neither the slots nor the tasks.\<close>

definition same_slots :: "command_queue \<Rightarrow> command_queue \<Rightarrow> bool" where
  "same_slots s s' \<longleftrightarrow> cq_running s' = cq_running s \<and> cq_nextTaskId s' = cq_nextTaskId s
     \<and> (\<forall>l. ls_activeTaskIds (getLaneState s' l) = ls_activeTaskIds (getLaneState s l)
          \<and> ls_generation (getLaneState s' l) = ls_generation (getLaneState s l))"

lemma slots_same:
  assumes "slots s fs" and "same_slots s s'" and "\<And>l t g. ending fs' l t g = ending fs l t g"
  shows "slots s' fs'"
proof -
  have "running_ok s' = running_ok s" "holds_slot s' fs' = holds_slot s fs" "has_slot s' = has_slot s"
    using assms(2,3) by (simp_all add: same_slots_def running_ok_def holds_slot_def has_slot_def fun_eq_iff)
  then show ?thesis using assms by (simp add: slots_def same_slots_def)
qed

lemma same_slots_frame:
  assumes "frame_step f s = (s', gs)" and "f = Calls [] \<or> f = Pump l \<or> f = SettleWith i out \<or> f = DrainLane l \<or> f = Notify"
  shows "same_slots s s' \<and> (\<forall>l t g. \<not> ending (f # gs) l t g)"
  using assms
  by (elim disjE) (auto simp: same_slots_def pump_def pump_frames_def drainLane_def Let_def
      split: if_splits list.splits option.splits)

lemma same_slots_call:
  assumes "do_call c s = (s', gs)" and "c \<noteq> ResetAll"
  shows "same_slots s s' \<and> (\<forall>l t g. \<not> ending gs l t g)"
  using assms
  by (cases c) (auto simp: same_slots_def enqueueCommandInLane_def setCommandLaneConcurrency_def
      getLaneState_clear waitForActiveTasks_def Let_def split: if_splits)

lemma slots_reset:
  assumes "slots s fs"
  shows "slots (fst (resetAllLanes s)) (snd (resetAllLanes s) @ fs)"
proof (rule slotsI)
  let ?s = "fst (resetAllLanes s)"
  have none: "ls_activeTaskIds (getLaneState ?s l) = []" for l
    by (simp add: getLaneState_reset reset_lane_def created_lane_def)
  have gen: "ls_generation (getLaneState ?s l) =
      (if map_of (cq_lanes s) l = None then 0 else Suc (ls_generation (getLaneState s l)))" for l
    by (simp add: getLaneState_reset reset_lane_def created_lane_def)
  have le: "ls_generation (getLaneState s l) \<le> ls_generation (getLaneState ?s l)" for l
    by (simp add: gen) (simp add: getLaneState_def created_lane_def)
  show "running_ok ?s" using slotsD(1)[OF assms] by simp
  show "distinct (ls_activeTaskIds (getLaneState ?s l))" for l by (simp add: none)
  show "t < cq_nextTaskId ?s" "holds_slot ?s (snd (resetAllLanes s) @ fs) l t"
    if "t \<in> set (ls_activeTaskIds (getLaneState ?s l))" for l t using that by (simp_all add: none)
  show "has_slot ?s r t" if r: "map_of (cq_running ?s) t = Some r" for t r
  proof (cases "map_of (cq_lanes s) (rt_lane r)")
    case None
    then have "getLaneState s (rt_lane r) = created_lane" "getLaneState ?s (rt_lane r) = created_lane"
      by (simp_all add: getLaneState_def[of s] getLaneState_reset)
    then show ?thesis using slotsD(5)[OF assms, of t r] r by (simp add: has_slot_def)
  next
    case (Some x)
    then show ?thesis using slotsD(5)[OF assms, of t r] r by (simp add: has_slot_def gen)
  qed
  have "\<not> ending (snd (resetAllLanes s)) l t g" for l t g
    by (auto simp: resetAllLanes_def ending_def list_ex_iff)
  then show "map_of (cq_running ?s) t = None \<and> t < cq_nextTaskId ?s \<and> g \<le> ls_generation (getLaneState ?s l)"
    if "ending (snd (resetAllLanes s) @ fs) l t g" for l t g
    using that slotsD(6-8)[OF assms, of l t g] le[of l] by auto
qed

lemma slots_start:
  assumes "slots s (Start l e # fs)" and "start_task l e s = (s', gs)"
  shows "slots s' (gs @ fs)"
proof (rule slotsI)
  note d = slotsD[OF assms(1)]
  define t0 where "t0 = cq_nextTaskId s"
  define g0 where "g0 = ls_generation (getLaneState s l)"
  have lane: "ls_activeTaskIds (getLaneState s' k) = (if k = l then t0 # ls_activeTaskIds (getLaneState s k) else ls_activeTaskIds (getLaneState s k))"
    "ls_generation (getLaneState s' k) = ls_generation (getLaneState s k)" for k
    using assms(2) d(3)[of t0 l] unfolding t0_def
    by (auto simp: start_task_def Let_def List.insert_def split: option.splits)
  have next': "cq_nextTaskId s' = Suc t0"
    using assms(2) by (auto simp: start_task_def Let_def t0_def split: option.splits)
  define r where "r = \<lparr>rt_promise = qe_promise e, rt_lane = l, rt_generation = g0\<rparr>"
  have r: "rt_lane r = l" "rt_generation r = g0" by (simp_all add: r_def)
  have cases: "cq_running s' = cq_running s @ [(t0, r)] \<and> (\<forall>l t g. \<not> ending gs l t g)
      \<or> cq_running s' = cq_running s \<and> (\<forall>l' t g. ending gs l' t g \<longleftrightarrow> l' = l \<and> t = t0 \<and> g = g0)"
    using assms(2) by (auto simp: start_task_def Let_def t0_def g0_def r_def split: option.splits)
  have fresh: "map_of (cq_running s) t0 = None" using running_fresh[OF d(1)] by (simp add: t0_def)
  show "running_ok s'" using cases d(1) next' by (fastforce simp: running_ok_def list_all_iff t0_def)
  show "distinct (ls_activeTaskIds (getLaneState s' k))" for k using d(2)[of k] d(3)[of t0 k] by (auto simp: lane t0_def)
  show "t < cq_nextTaskId s'" if "t \<in> set (ls_activeTaskIds (getLaneState s' k))" for k t
    using that d(3)[of t k] by (auto simp: lane next' t0_def split: if_splits)
  show "holds_slot s' (gs @ fs) k t" if t: "t \<in> set (ls_activeTaskIds (getLaneState s' k))" for k t
  proof (cases "k = l \<and> t = t0")
    case True
    then show ?thesis using cases r fresh by (auto simp: holds_slot_def lane g0_def map_add_def)
  next
    case False
    then have "holds_slot s (Start l e # fs) k t" using t d(4)[of t k] by (auto simp: lane split: if_splits)
    then show ?thesis using cases by (auto simp: holds_slot_def lane map_add_def)
  qed
  show "has_slot s' r' t" if "map_of (cq_running s') t = Some r'" for t r'
  proof (cases "t = t0")
    case True
    then have "r' = r" using that cases fresh by (auto simp: map_add_def)
    then show ?thesis using True r by (simp add: has_slot_def lane g0_def)
  next
    case False
    then have "map_of (cq_running s) t = Some r'" using that cases by (auto simp: map_add_def split: option.splits)
    then show ?thesis using d(5)[of t r'] by (auto simp: has_slot_def lane)
  qed
  show "map_of (cq_running s') t = None \<and> t < cq_nextTaskId s' \<and> g \<le> ls_generation (getLaneState s' k)"
    if "ending (gs @ fs) k t g" for k t g
    using that cases d(6-8)[of k t g] fresh by (auto simp: lane next' t0_def g0_def map_add_def)
qed

lemma slots_ended:
  assumes "slots s (Ended l t g i out # fs)" and "task_ended l t g i out s = (s', gs)"
  shows "slots s' (gs @ fs)"
proof (cases "g = ls_generation (getLaneState s l)")
  note d = slotsD[OF assms(1)]
  have gone: "map_of (cq_running s) t = None" using d(6)[of l t g] by simp
  case True
  then have s': "s' = on_lane l (\<lambda>x. x\<lparr>ls_activeTaskIds := removeAll t (ls_activeTaskIds x)\<rparr>) s"
    and gs: "gs = [Notify, Pump l, SettleWith i out]" using assms(2) by (simp_all add: task_ended_def)
  have lane: "ls_activeTaskIds (getLaneState s' k) = (if k = l then removeAll t (ls_activeTaskIds (getLaneState s k))
      else ls_activeTaskIds (getLaneState s k))"
    "ls_generation (getLaneState s' k) = ls_generation (getLaneState s k)" for k by (simp_all add: s')
  show ?thesis
  proof (rule slotsI)
    show "running_ok s'" using d(1) by (simp add: s')
    show "distinct (ls_activeTaskIds (getLaneState s' k))" for k using d(2) by (simp add: lane distinct_removeAll)
    show "u < cq_nextTaskId s'" if "u \<in> set (ls_activeTaskIds (getLaneState s' k))" for k u
      using that d(3)[of u k] by (auto simp: lane s' split: if_splits)
    show "holds_slot s' (gs @ fs) k u" if "u \<in> set (ls_activeTaskIds (getLaneState s' k))" for k u
      using that d(4)[of u k] by (auto simp: lane holds_slot_def gs s' split: if_splits)
    show "has_slot s' r u" if "map_of (cq_running s') u = Some r" for u r
      using that d(5)[of u r] gone by (auto simp: lane has_slot_def s')
    show "map_of (cq_running s') u = None \<and> u < cq_nextTaskId s' \<and> h \<le> ls_generation (getLaneState s' k)"
      if "ending (gs @ fs) k u h" for k u h
      using that d(6-8)[of k u h] by (auto simp: lane gs s')
  qed
next
  note d = slotsD[OF assms(1)]
  case False
  then have s': "s' = s" and gs: "gs = [SettleWith i out]" using assms(2) by (simp_all add: task_ended_def)
  show ?thesis
  proof (rule slotsI)
    show "holds_slot s' (gs @ fs) k u" if "u \<in> set (ls_activeTaskIds (getLaneState s' k))" for k u
      using that d(4)[of u k] False by (auto simp: holds_slot_def gs s')
    show "map_of (cq_running s') u = None \<and> u < cq_nextTaskId s' \<and> h \<le> ls_generation (getLaneState s' k)"
      if "ending (gs @ fs) k u h" for k u h
      using that d(6-8)[of k u h] by (auto simp: gs s')
  qed (use d in \<open>auto simp: s'\<close>)
qed

lemma slots_frame:
  assumes "slots s (f # fs)" and "frame_step f s = (s', gs)"
  shows "slots s' (gs @ fs)"
proof (cases f)
  case (Calls cs)
  show ?thesis
  proof (cases cs)
    case (Cons c rest)
    obtain s1 hs where c: "do_call c s = (s1, hs)" by fastforce
    then have g: "s' = s1" "gs = hs @ [Calls rest]" using assms Calls Cons by auto
    have "slots s (Calls rest # fs)" using assms(1) Calls by (auto intro: slots_same simp: same_slots_def)
    then show ?thesis
      using slots_reset[of s "Calls rest # fs"] slots_same[of s _ s1 "hs @ Calls rest # fs"] same_slots_call[OF c] c
      by (cases "c = ResetAll") (auto simp: g)
  next
    case Nil
    then show ?thesis using same_slots_frame[OF assms(2)] slots_same[OF assms(1)] Calls by auto
  qed
next
  case (Start l e)
  then show ?thesis using assms slots_start[of s l e fs] by simp
next
  case (Ended l t g i out)
  then show ?thesis using assms slots_ended[of s l t g i out fs] by simp
qed (use same_slots_frame[OF assms(2)] slots_same[OF assms(1)] in auto)

lemma slots_task:
  assumes "slots s []" and r: "map_of (cq_running s) t = Some r"
  shows "slots (s\<lparr>cq_running := AList.delete t (cq_running s)\<rparr>) [Ended (rt_lane r) t (rt_generation r) (rt_promise r) out]"
    (is "slots ?s ?fs")
proof (rule slotsI)
  note d = slotsD[OF assms(1)]
  have running: "map_of (cq_running ?s) u = (if u = t then None else map_of (cq_running s) u)" for u
    by (simp add: AList.delete_conv')
  have t: "t < cq_nextTaskId s"
    using d(1) map_of_SomeD[OF r] by (force simp: running_ok_def list_all_iff)
  show "running_ok ?s" using d(1) by simp
  show "holds_slot ?s ?fs k u" if "u \<in> set (ls_activeTaskIds (getLaneState ?s k))" for k u
    using that d(4)[of u k] r running[of u] by (auto simp: holds_slot_def)
  show "has_slot ?s r' u" if "map_of (cq_running ?s) u = Some r'" for u r'
    using that d(5)[of u r'] running[of u] by (auto simp: has_slot_def split: if_splits)
  show "map_of (cq_running ?s) u = None \<and> u < cq_nextTaskId ?s \<and> h \<le> ls_generation (getLaneState ?s k)"
    if "ending ?fs k u h" for k u h
    using that t running[of u] d(5)[OF r] by (auto simp: has_slot_def)
qed (use slotsD[OF assms(1)] in auto)

interpretation slotted: machine_invariant slots "\<lambda>c. True"
proof
  show "slots s' (gs @ fs)" if "slots s (f # fs)" and "frame_step f s = (s', gs)" for s f fs s' gs
    using that by (rule slots_frame)
  show "slots (s\<lparr>cq_running := AList.delete t (cq_running s)\<rparr>) [Ended (rt_lane r) t (rt_generation r) (rt_promise r) out]"
    if "slots s []" and "map_of (cq_running s) t = Some r" for s t r out
    using that by (rule slots_task)
  show "slots s [] \<Longrightarrow> slots s [Calls [c]]" for s c by (erule slots_same) (simp_all add: same_slots_def)
  show "slots s [] \<Longrightarrow> slots (resolveActiveTaskWaiter w False s) []" for s w
    by (erule slots_same) (simp_all add: same_slots_def)
  show "slots s [] \<Longrightarrow> slots (s\<lparr>cq_now := cq_now s + int d\<rparr>) []" for s d
    by (erule slots_same) (simp_all add: same_slots_def)
qed

section \<open>Waiters\<close>

fun waits_over :: "queue_effect \<Rightarrow> nat list" where
  "waits_over (WaitOver w b) = [w]"
| "waits_over e = []"

definition waits_balance :: "command_queue \<Rightarrow> bool" where
  "waits_balance s \<longleftrightarrow> mset (map tw_promise (cq_waiters s)) + mset (concat (map waits_over (cq_trace s))) = numbers (cq_waits s)"

definition waiter_waits :: "command_queue \<Rightarrow> task_waiter \<Rightarrow> bool" where
  "waiter_waits s x \<longleftrightarrow> tw_activeTaskIds x \<noteq> [] \<and> hasPendingActiveTasks s (tw_activeTaskIds x)"

definition waiting :: "command_queue \<Rightarrow> frame list \<Rightarrow> bool" where
  "waiting s fs \<longleftrightarrow> waits_balance s \<and> (Notify \<in> set fs \<or> list_all (waiter_waits s) (cq_waiters s))"

lemma distinct_numbers: "mset xs + mset ys = numbers n \<Longrightarrow> distinct xs"
proof -
  assume "mset xs + mset ys = numbers n"
  then have "mset (xs @ ys) = mset [0..<n]" by (simp add: numbers_def)
  then have "distinct (xs @ ys)" using mset_eq_imp_distinct_iff distinct_upt by blast
  then show "distinct xs" by simp
qed

lemma mset_drop_one:
  assumes "distinct (map f xs)" and "w \<in> f ` set xs"
  shows "mset (map f xs) = add_mset w (mset (map f (filter (\<lambda>x. f x \<noteq> w) xs)))"
  using assms
proof (induction xs)
  case (Cons x xs)
  have "filter (\<lambda>y. f y \<noteq> f x) xs = xs" if "f x \<notin> f ` set xs"
    using that by (metis (mono_tags, lifting) filter_True imageI)
  then have "filter_mset (\<lambda>y. f y \<noteq> f x) (mset xs) = mset xs" if "f x \<notin> f ` set xs"
    using that by (metis mset_filter)
  with Cons show ?case by auto
qed simp

lemma resolve_balance:
  assumes "waits_balance s"
  shows "waits_balance (resolveActiveTaskWaiter w b s)"
proof (cases "w \<in> tw_promise ` set (cq_waiters s)")
  case True
  have "distinct (map tw_promise (cq_waiters s))"
    using assms distinct_numbers by (auto simp: waits_balance_def)
  from mset_drop_one[OF this True] show ?thesis
    using True assms by (simp add: waits_balance_def resolveActiveTaskWaiter_def)
qed (use assms in \<open>simp add: resolveActiveTaskWaiter_def\<close>)

lemma notify_balance:
  assumes "waits_balance s"
  shows "waits_balance (notifyActiveTaskWaiters s)"
proof -
  have "waits_balance (fold notify_one ws s)" if "waits_balance s" for ws s
    using that by (induction ws arbitrary: s) (simp_all add: notify_one_def resolve_balance)
  with assms show ?thesis by (simp add: notifyActiveTaskWaiters_def)
qed

lemma waiter_waits_lanes:
  assumes "cq_lanes s' = cq_lanes s"
  shows "waiter_waits s' = waiter_waits s"
  using assms by (simp add: waiter_waits_def hasPendingActiveTasks_def active_ids_def fun_eq_iff)

lemma notify_waits: "list_all (waiter_waits s) (cq_waiters (notifyActiveTaskWaiters s))"
proof -
  have "set (cq_waiters (fold notify_one ws t)) \<subseteq> set (cq_waiters t)
      - {x. \<exists>w\<in>set ws. tw_promise x = tw_promise w \<and> \<not> waiter_waits t w}" for ws t
  proof (induction ws arbitrary: t)
    case (Cons w ws)
    have lanes: "cq_lanes (notify_one w t) = cq_lanes t" by (simp add: notify_one_def)
    have "set (cq_waiters (notify_one w t)) \<subseteq> set (cq_waiters t)
        - {x. tw_promise x = tw_promise w \<and> \<not> waiter_waits t w}"
      by (auto simp: notify_one_def resolveActiveTaskWaiter_def waiter_waits_def image_iff)
    with Cons[of "notify_one w t"] show ?case by (auto simp: waiter_waits_lanes[OF lanes])
  qed simp
  from this[of "cq_waiters s" s] show ?thesis
    by (auto simp: notifyActiveTaskWaiters_def list_all_iff)
qed

text \<open>Only the end of a task and a reset take ids away, and both notify afterwards.\<close>

definition keeps_ids :: "command_queue \<Rightarrow> command_queue \<Rightarrow> bool" where
  "keeps_ids s s' \<longleftrightarrow> cq_waiters s' = cq_waiters s \<and> set (active_ids s) \<subseteq> set (active_ids s')"

definition active_mset :: "lane_state \<Rightarrow> nat multiset" where
  "active_mset x = mset (ls_activeTaskIds x)"

lemma active_ids_total: "set (active_ids s) = set_mset (lane_total active_mset s)"
proof -
  have "set (concat (map (ls_activeTaskIds \<circ> snd) xs)) = set_mset (sum_list (map (active_mset \<circ> snd) xs))" for xs
    by (induction xs) (simp_all add: active_mset_def)
  then show ?thesis by (simp add: active_ids_def lane_total_def)
qed

lemma active_on_lane:
  assumes "active_mset (getLaneState s l) \<subseteq># active_mset (f (getLaneState s l))"
  shows "set (active_ids s) \<subseteq> set (active_ids (on_lane l f s))"
proof -
  have "lane_total active_mset (on_lane l f s) + active_mset (getLaneState s l)
      = lane_total active_mset s + active_mset (f (getLaneState s l))"
    by (rule lane_total_on_lane) (simp add: active_mset_def created_lane_def)
  with assms have "lane_total active_mset s \<subseteq># lane_total active_mset (on_lane l f s)"
    by (metis mset_subset_eq_add_right mset_subset_eq_mono_add_left_cancel subset_mset.add_le_cancel_right
        subset_mset.add_left_mono)
  then show ?thesis unfolding active_ids_total by (rule set_mset_mono)
qed

lemma active_mset_simps [simp]:
  "active_mset (x\<lparr>ls_queue := q\<rparr>) = active_mset x" "active_mset (x\<lparr>ls_maxConcurrent := b\<rparr>) = active_mset x"
  "active_mset (x\<lparr>ls_draining := c\<rparr>) = active_mset x"
  "active_mset x \<subseteq># active_mset (x\<lparr>ls_activeTaskIds := List.insert t (ls_activeTaskIds x)\<rparr>)"
  by (simp_all add: active_mset_def List.insert_def)

lemma active_ids_simps [simp]:
  "active_ids (emits es s) = active_ids s" "active_ids (s\<lparr>cq_gatewayDraining := a\<rparr>) = active_ids s"
  "active_ids (s\<lparr>cq_waiters := b\<rparr>) = active_ids s" "active_ids (s\<lparr>cq_nextTaskId := c\<rparr>) = active_ids s"
  "active_ids (s\<lparr>cq_running := d\<rparr>) = active_ids s" "active_ids (s\<lparr>cq_promises := e\<rparr>) = active_ids s"
  "active_ids (s\<lparr>cq_waits := m\<rparr>) = active_ids s" "active_ids (s\<lparr>cq_now := n\<rparr>) = active_ids s"
  by (simp_all add: active_ids_def)

lemma waiting_keeps:
  assumes "waiting s (f # fs)" and "f \<noteq> Notify" and "waits_balance s'" and "keeps_ids s s'"
  shows "waiting s' (gs @ fs)"
proof -
  have "waiter_waits s' x" if "waiter_waits s x" for x
    using that assms(4) by (auto simp: keeps_ids_def waiter_waits_def hasPendingActiveTasks_def list_ex_iff)
  then show ?thesis using assms by (auto simp: waiting_def keeps_ids_def list_all_iff)
qed

lemma waiting_notifies:
  "waits_balance s' \<Longrightarrow> Notify \<in> set gs \<Longrightarrow> waiting s' (gs @ fs)"
  by (simp add: waiting_def)

lemma balance_simps [simp]:
  "waits_balance (on_lane l f s) = waits_balance s" "waits_balance (s\<lparr>cq_gatewayDraining := a\<rparr>) = waits_balance s"
  "waits_balance (s\<lparr>cq_nextTaskId := c\<rparr>) = waits_balance s" "waits_balance (s\<lparr>cq_running := d\<rparr>) = waits_balance s"
  "waits_balance (s\<lparr>cq_promises := e\<rparr>) = waits_balance s" "waits_balance (s\<lparr>cq_now := n\<rparr>) = waits_balance s"
  "waits_balance (fst (resetAllLanes s)) = waits_balance s"
  "concat (map waits_over es) = [] \<Longrightarrow> waits_balance (emits es s) = waits_balance s"
  by (simp_all add: waits_balance_def resetAllLanes_def del: concat_eq_Nil_conv)

lemma active_on_lane_same [simp]:
  assumes "active_mset (f (getLaneState s l)) = active_mset (getLaneState s l)"
  shows "set (active_ids (on_lane l f s)) = set (active_ids s)"
proof -
  have "lane_total active_mset (on_lane l f s) = lane_total active_mset s"
    by (rule lane_total_same) (use assms in \<open>simp_all add: active_mset_def created_lane_def\<close>)
  then show ?thesis by (simp add: active_ids_total)
qed

lemma clear_keeps: "keeps_ids s (clearCommandLane lane s) \<and> waits_balance (clearCommandLane lane s) = waits_balance s"
proof -
  have "concat (map (waits_over \<circ> (\<lambda>e. Settle (qe_promise e) out)) q) = []" for out and q :: "queue_entry list"
    by (induction q) auto
  then show ?thesis by (simp add: clearCommandLane_def Let_def keeps_ids_def split: option.split)
qed

lemma waiting_call:
  assumes "waiting s (Calls (c # cs) # fs)" and "do_call c s = (s', gs)"
  shows "waiting s' (gs @ Calls cs # fs)"
proof -
  have b: "waits_balance s" using assms(1) by (simp add: waiting_def)
  have frames: "gs @ Calls cs # fs = (gs @ [Calls cs]) @ fs" by simp
  show ?thesis
  proof (cases c)
    case (EnqueueIn lane task warn onWait)
    then show ?thesis unfolding frames using assms(2) b
      by (intro waiting_keeps[OF assms(1)]) (auto simp: enqueueCommandInLane_def Let_def keeps_ids_def split: if_splits)
  next
    case (SetConcurrency lane n)
    then show ?thesis unfolding frames using assms(2) b
      by (intro waiting_keeps[OF assms(1)]) (auto simp: setCommandLaneConcurrency_def keeps_ids_def)
  next
    case (ClearLane lane)
    then show ?thesis unfolding frames using assms(2) b clear_keeps[of s lane]
      by (intro waiting_keeps[OF assms(1)]) auto
  next
    case MarkDraining
    then show ?thesis unfolding frames using assms(2) b
      by (intro waiting_keeps[OF assms(1)]) (auto simp: keeps_ids_def)
  next
    case ResetAll
    have "Notify \<in> set (snd (resetAllLanes s))" by (simp add: resetAllLanes_def)
    then show ?thesis using ResetAll assms(2) b balance_simps(7)[of s] by (intro waiting_notifies) auto
  next
    case (WaitForActive n)
    show ?thesis
    proof (cases "gs = []")
      case True
      then have "waits_balance s'" and "keeps_ids s s'"
        using WaitForActive assms(2) b
        by (auto simp: waitForActiveTasks_def Let_def waits_balance_def keeps_ids_def split: if_splits)
      then show ?thesis unfolding frames by (intro waiting_keeps[OF assms(1)]) simp_all
    next
      case False
      then show ?thesis using WaitForActive assms(2) b
        by (intro waiting_notifies) (auto simp: waitForActiveTasks_def Let_def waits_balance_def split: if_splits)
    qed
  qed
qed

lemma waiting_frame:
  assumes "waiting s (f # fs)" and "frame_step f s = (s', gs)"
  shows "waiting s' (gs @ fs)"
proof -
  have b: "waits_balance s" using assms(1) by (simp add: waiting_def)
  show ?thesis
  proof (cases f)
    case (Calls cs)
    show ?thesis
    proof (cases cs)
      case Nil
      then show ?thesis using assms(2) Calls b by (intro waiting_keeps[OF assms(1)]) (auto simp: keeps_ids_def)
    next
      case (Cons c rest)
      obtain s1 hs where c: "do_call c s = (s1, hs)" by fastforce
      then show ?thesis using assms waiting_call[OF _ c, of rest fs] Calls Cons by auto
    qed
  next
    case (Start l e)
    have "set (active_ids (s\<lparr>cq_nextTaskId := n\<rparr>)) \<subseteq> set (active_ids (on_lane l (\<lambda>x. x\<lparr>ls_activeTaskIds :=
        List.insert t (ls_activeTaskIds x)\<rparr>) (s\<lparr>cq_nextTaskId := n\<rparr>)))" for n t
      by (rule active_on_lane) simp
    from this[of "Suc (cq_nextTaskId s)" "cq_nextTaskId s"] show ?thesis using assms(2) Start b
      by (intro waiting_keeps[OF assms(1)]) (auto simp: start_task_def Let_def keeps_ids_def split: option.splits)
  next
    case (Pump l)
    then show ?thesis using assms(2) b
      by (intro waiting_keeps[OF assms(1)])
        (auto simp: pump_def Let_def keeps_ids_def split: if_splits option.splits list.splits)
  next
    case (Ended l t g i out)
    show ?thesis
    proof (cases "g = ls_generation (getLaneState s l)")
      case True
      then show ?thesis using assms(2) Ended b by (intro waiting_notifies) (auto simp: task_ended_def)
    next
      case False
      then show ?thesis using assms(2) Ended b
        by (intro waiting_keeps[OF assms(1)]) (auto simp: task_ended_def keeps_ids_def)
    qed
  next
    case (SettleWith i out)
    then show ?thesis using assms(2) b by (intro waiting_keeps[OF assms(1)]) (auto simp: keeps_ids_def)
  next
    case (DrainLane l)
    then show ?thesis using assms(2) b
      by (intro waiting_keeps[OF assms(1)]) (auto simp: drainLane_def keeps_ids_def split: if_splits)
  next
    case Notify
    have "waiter_waits (notifyActiveTaskWaiters s) = waiter_waits s" by (rule waiter_waits_lanes) simp
    then show ?thesis using assms(2) Notify b notify_waits[of s] by (auto simp: waiting_def notify_balance)
  qed
qed

interpretation waited: machine_invariant waiting "\<lambda>c. True"
proof
  show "waiting s' (gs @ fs)" if "waiting s (f # fs)" and "frame_step f s = (s', gs)" for s f fs s' gs
    using that by (rule waiting_frame)
  show "waiting (resolveActiveTaskWaiter w False s) []" if "waiting s []" for s w
  proof -
    have "waiter_waits (resolveActiveTaskWaiter w False s) = waiter_waits s" by (rule waiter_waits_lanes) simp
    then show ?thesis using that resolve_balance[of s w False]
      by (auto simp: waiting_def list_all_iff resolveActiveTaskWaiter_def split: if_splits)
  qed
  have same: "waiter_waits (s\<lparr>cq_running := r\<rparr>) = waiter_waits s" "waiter_waits (s\<lparr>cq_now := n\<rparr>) = waiter_waits s"
    for s r n by (auto intro!: waiter_waits_lanes)
  show "waiting (s\<lparr>cq_now := cq_now s + int d\<rparr>) []" if "waiting s []" for s d
    using that by (simp add: waiting_def same)
  show "waiting (s\<lparr>cq_running := AList.delete t (cq_running s)\<rparr>) [Ended (rt_lane r) t (rt_generation r) (rt_promise r) out]"
    if "waiting s []" for s t r out
    using that by (simp add: waiting_def same)
qed (simp add: waiting_def)

section \<open>Order and limits\<close>

text \<open>A condition on calls, for a call and every call that it brings with it, without end.\<close>

coinductive throughout :: "(queue_call \<Rightarrow> bool) \<Rightarrow> queue_call \<Rightarrow> bool" for P where
  throughout: "P c \<Longrightarrow> \<forall>d \<in> set (brought c). throughout P d \<Longrightarrow> throughout P c"

lemma throughoutD: "throughout P c \<Longrightarrow> P c" "throughout P c \<Longrightarrow> d \<in> set (brought c) \<Longrightarrow> throughout P d"
  by (auto elim: throughout.cases)

interpretation handed: handed_on "throughout P" for P
  by unfold_locales (simp add: list_all_iff throughoutD(2))

text \<open>The callback \<open>onWait\<close> makes no calls into the queue; a lane's limit is left alone.\<close>

fun quiet_wait :: "queue_call \<Rightarrow> bool" where
  "quiet_wait (EnqueueIn l c w onWait) \<longleftrightarrow> (case onWait of None \<Rightarrow> True | Some cs \<Rightarrow> cs = [])"
| "quiet_wait c \<longleftrightarrow> True"

fun leaves_limit :: "string \<Rightarrow> queue_call \<Rightarrow> bool" where
  "leaves_limit l (SetConcurrency lane n) \<longleftrightarrow> normalizeLane lane \<noteq> l"
| "leaves_limit l c \<longleftrightarrow> True"

interpretation spread: machine_invariant "everywhere (throughout P)" "throughout P" for P
proof
  show "everywhere (throughout P) s' (gs @ fs)"
    if "everywhere (throughout P) s (f # fs)" and "frame_step f s = (s', gs)" for s f fs s' gs
    using that by (rule handed.everywhere_frame)
qed (simp_all add: everywhere_def)

lemma emits_nil [simp]: "emits [] s = s"
  by (simp add: emits_def)

text \<open>With quiet callbacks an entry that has left its lane is started at once.\<close>

fun starts :: "frame \<Rightarrow> bool" where
  "starts (Start l e) \<longleftrightarrow> True"
| "starts f \<longleftrightarrow> False"

fun tidy :: "frame list \<Rightarrow> bool" where
  "tidy (Start l e # fs) \<longleftrightarrow> \<not> list_ex starts fs"
| "tidy (Calls [] # Start l e # fs) \<longleftrightarrow> \<not> list_ex starts fs"
| "tidy fs \<longleftrightarrow> \<not> list_ex starts fs"

lemma tidy_none [simp]: "\<not> list_ex starts fs \<Longrightarrow> tidy fs"
  by (cases fs rule: tidy.cases) auto

lemma tidy_tail: "tidy (f # fs) \<Longrightarrow> f \<noteq> Calls [] \<Longrightarrow> \<not> list_ex starts fs"
  by (cases "f # fs" rule: tidy.cases) auto

lemma tidy_calls: "tidy (Calls [] # fs) \<Longrightarrow> tidy fs"
  by (cases "Calls [] # fs" rule: tidy.cases) auto

lemma call_starts_nothing: "do_call c s = (s', gs) \<Longrightarrow> \<not> list_ex starts gs"
  by (cases c) (auto simp: enqueueCommandInLane_def setCommandLaneConcurrency_def resetAllLanes_def
      waitForActiveTasks_def Let_def list_ex_iff split: if_splits)

definition orderly :: "command_queue \<Rightarrow> frame list \<Rightarrow> bool" where
  "orderly s fs \<longleftrightarrow> everywhere (throughout quiet_wait) s fs \<and> tidy fs"

lemma pump_cases:
  assumes "pump l s = (s', gs)" and "everywhere (throughout quiet_wait) s (Pump l # fs)"
  obtains (stop) "s' = on_lane l (\<lambda>x. x\<lparr>ls_draining := False\<rparr>) s" "gs = []"
  | (go) e rest pre es where "ls_queue (getLaneState s l) = e # rest"
      "below (length (ls_activeTaskIds (getLaneState s l))) (ls_maxConcurrent (getLaneState s l))"
      "s' = emits es (on_lane l (\<lambda>x. x\<lparr>ls_queue := rest\<rparr>) s)" "es = [] \<or> (\<exists>m n. es = [OnWait (qe_promise e) m n])"
      "gs = pre @ [Start l e, Pump l]" "pre = [] \<or> pre = [Calls []]"
proof (cases "ls_queue (getLaneState s l)")
  case Nil
  then show thesis using assms(1) stop by (auto simp: pump_def)
next
  case (Cons e rest)
  have "entry_all (throughout quiet_wait) e"
    using assms(2)[unfolded everywhere_def, THEN conjunct1, rule_format, of l] Cons by simp
  then have q: "qe_onWait e = None \<or> qe_onWait e = Some []" by (auto simp: entry_all_def dest!: throughoutD(1) split: option.splits)
  show thesis
  proof (cases "below (length (ls_activeTaskIds (getLaneState s l))) (ls_maxConcurrent (getLaneState s l))")
    case False
    then show thesis using assms(1) Cons stop by (auto simp: pump_def)
  next
    case True
    define told where "told \<longleftrightarrow> qe_warnAfterMs e \<le> cq_now s - qe_enqueuedAt e \<and> qe_onWait e \<noteq> None"
    define es where "es = (if told then [OnWait (qe_promise e) (cq_now s - qe_enqueuedAt e) (length rest)] else [])"
    define pre where "pre = (if told then [Calls []] else [])"
    have eqs: "s' = emits es (on_lane l (\<lambda>x. x\<lparr>ls_queue := rest\<rparr>) s)" "gs = pre @ [Start l e, Pump l]"
      using assms(1) Cons q True
      by (auto simp: pump_def Let_def pump_frames_def es_def pre_def told_def split: if_splits)
    show thesis by (rule go[OF Cons True eqs(1) _ eqs(2)]) (simp_all add: es_def pre_def)
  qed
qed

lemma orderly_frame:
  assumes "orderly s (f # fs)" and "frame_step f s = (s', gs)"
  shows "orderly s' (gs @ fs)"
proof -
  have e: "everywhere (throughout quiet_wait) s' (gs @ fs)" using assms handed.everywhere_frame by (auto simp: orderly_def)
  have t: "tidy (f # fs)" using assms(1) by (simp add: orderly_def)
  have "tidy (gs @ fs)"
  proof (cases f)
    case (Calls cs)
    show ?thesis
    proof (cases cs)
      case Nil
      then show ?thesis using assms(2) Calls t tidy_calls by auto
    next
      case (Cons c rest)
      obtain s1 hs where c: "do_call c s = (s1, hs)" by fastforce
      then show ?thesis using assms(2) Calls Cons tidy_tail[OF t] call_starts_nothing[OF c] by auto
    qed
  next
    case (Start l e)
    then show ?thesis using assms(2) tidy_tail[OF t]
      by (auto simp: start_task_def Let_def split: option.splits)
  next
    case (Pump l)
    then have p: "pump l s = (s', gs)" "everywhere (throughout quiet_wait) s (Pump l # fs)" and "\<not> list_ex starts fs"
      using assms tidy_tail[OF t] by (auto simp: orderly_def)
    then show ?thesis by (cases rule: pump_cases[OF p]) auto
  next
    case (Ended l t g i out)
    then show ?thesis using assms(2) tidy_tail[OF t] by (auto simp: task_ended_def split: if_splits)
  next
    case (DrainLane l)
    then show ?thesis using assms(2) tidy_tail[OF t] by (auto simp: drainLane_def split: if_splits)
  qed (use assms(2) tidy_tail[OF t] in auto)
  with e show ?thesis by (simp add: orderly_def)
qed

text \<open>The promises of a lane's entries: started, about to be started, waiting.\<close>

fun starts_in :: "string \<Rightarrow> queue_effect \<Rightarrow> nat list" where
  "starts_in l (Started l' i t) = (if l' = l then [i] else [])"
| "starts_in l e = []"

fun frame_starts :: "string \<Rightarrow> frame \<Rightarrow> nat list" where
  "frame_starts l (Start l' e) = (if l' = l then [qe_promise e] else [])"
| "frame_starts l f = []"

definition coming :: "string \<Rightarrow> frame list \<Rightarrow> nat list" where
  "coming l fs = concat (map (frame_starts l) fs)"

lemma coming_simps [simp]:
  "coming l [] = []" "coming l (f # fs) = frame_starts l f @ coming l fs" "coming l (fs @ gs) = coming l fs @ coming l gs"
  by (simp_all add: coming_def)

definition started_in :: "string \<Rightarrow> command_queue \<Rightarrow> nat list" where
  "started_in l s = concat (map (starts_in l) (cq_trace s))"

definition line :: "string \<Rightarrow> command_queue \<Rightarrow> frame list \<Rightarrow> nat list" where
  "line l s fs = started_in l s @ coming l fs @ map qe_promise (ls_queue (getLaneState s l))"

definition ascending :: "nat list \<Rightarrow> nat \<Rightarrow> bool" where
  "ascending xs n \<longleftrightarrow> sorted_wrt (<) xs \<and> list_all (\<lambda>i. i < n) xs"

definition in_order :: "command_queue \<Rightarrow> frame list \<Rightarrow> bool" where
  "in_order s fs \<longleftrightarrow> orderly s fs \<and> (\<forall>l. ascending (line l s fs) (cq_promises s))"

lemma no_frame_starts: "\<not> list_ex starts fs \<Longrightarrow> coming l fs = []"
proof (induction fs)
  case (Cons f fs)
  then show ?case by (cases f) auto
qed simp

lemma ascending_push: "ascending xs n \<Longrightarrow> ascending (xs @ [n]) (Suc n)"
  by (auto simp: ascending_def sorted_wrt_append list_all_iff)

lemma ascending_Suc: "ascending xs n \<Longrightarrow> ascending xs (Suc n)"
  by (auto simp: ascending_def list_all_iff)

lemma ascending_prefix: "ascending (xs @ ys) n \<Longrightarrow> ascending xs n"
  by (auto simp: ascending_def sorted_wrt_append)

lemma started_simps [simp]:
  "started_in l (on_lane k f s) = started_in l s" "started_in l (s\<lparr>cq_running := r\<rparr>) = started_in l s"
  "started_in l (s\<lparr>cq_nextTaskId := n\<rparr>) = started_in l s" "started_in l (s\<lparr>cq_promises := m\<rparr>) = started_in l s"
  "started_in l (s\<lparr>cq_waiters := w\<rparr>) = started_in l s" "started_in l (s\<lparr>cq_gatewayDraining := b\<rparr>) = started_in l s"
  "started_in l (s\<lparr>cq_now := k'\<rparr>) = started_in l s" "started_in l (s\<lparr>cq_waits := j\<rparr>) = started_in l s"
  "started_in l (s\<lparr>cq_lanes := ls\<rparr>) = started_in l s" "started_in l (fst (resetAllLanes s)) = started_in l s"
  "started_in l (emits es s) = started_in l s @ concat (map (starts_in l) es)"
  by (simp_all add: started_in_def resetAllLanes_def)

lemma started_waiter [simp]: "started_in l (resolveActiveTaskWaiter w b s) = started_in l s"
  by (simp add: resolveActiveTaskWaiter_def)

lemma started_notify [simp]: "started_in l (notifyActiveTaskWaiters s) = started_in l s"
proof -
  have "started_in l (fold notify_one ws s) = started_in l s" for ws
    by (induction ws arbitrary: s) (simp_all add: notify_one_def)
  then show ?thesis by (simp add: notifyActiveTaskWaiters_def)
qed

lemma started_clear [simp]: "started_in l (clearCommandLane lane s) = started_in l s"
proof -
  have "concat (map (starts_in l \<circ> (\<lambda>e. Settle (qe_promise e) out)) q) = []" for out and q :: "queue_entry list"
    by (induction q) auto
  then show ?thesis by (simp add: clearCommandLane_def Let_def split: option.split)
qed

lemma line_call:
  assumes "\<forall>l. ascending (line l s (Calls (c # cs) # fs)) (cq_promises s)" and "do_call c s = (s', gs)"
  shows "\<forall>l. ascending (line l s' (gs @ Calls cs # fs)) (cq_promises s')"
proof -
  have n: "coming l gs = []" for l
    using call_starts_nothing[OF assms(2)] by (rule no_frame_starts)
  have a: "ascending (started_in l s @ coming l fs @ map qe_promise (ls_queue (getLaneState s l)))
      (cq_promises s)" for l using assms(1) by (simp add: line_def)
  have goal: "ascending (started_in l s' @ coming l fs @ map qe_promise (ls_queue (getLaneState s' l)))
      (cq_promises s')" for l
  proof (cases c)
    case (EnqueueIn lane task warn onWait)
    show ?thesis
    proof (cases "cq_gatewayDraining s")
      case True
      then show ?thesis using assms(2) EnqueueIn ascending_Suc[OF a[of l]]
        by (auto simp: enqueueCommandInLane_def Let_def)
    next
      case False
      then show ?thesis using assms(2) EnqueueIn ascending_Suc[OF a[of l]] ascending_push[OF a[of l]]
        by (auto simp: enqueueCommandInLane_def Let_def)
    qed
  next
    case (SetConcurrency lane k)
    then show ?thesis using assms(2) a[of l] by (auto simp: setCommandLaneConcurrency_def)
  next
    case (ClearLane lane)
    have "ascending (started_in l s @ coming l fs) (cq_promises s)"
      using ascending_prefix[of "started_in l s @ coming l fs"] a[of l] by simp
    then show ?thesis using assms(2) a[of l] ClearLane by (auto simp: getLaneState_clear)
  next
    case ResetAll
    have "ls_queue (getLaneState (fst (resetAllLanes s)) l) = ls_queue (getLaneState s l)"
      by (cases "map_of (cq_lanes s) l") (simp_all add: getLaneState_reset reset_lane_def, simp add: getLaneState_def)
    then show ?thesis using ResetAll assms(2) a[of l] reset_fields(3)[of s] started_simps(10)[of l s] by auto
  next
    case (WaitForActive k)
    then show ?thesis using assms(2) a[of l] by (auto simp: waitForActiveTasks_def Let_def split: if_splits)
  qed (use assms(2) a[of l] in auto)
  then show ?thesis by (simp add: line_def n)
qed

lemma line_frame:
  assumes "orderly s (f # fs)" and "\<forall>l. ascending (line l s (f # fs)) (cq_promises s)" and "frame_step f s = (s', gs)"
  shows "\<forall>l. ascending (line l s' (gs @ fs)) (cq_promises s')"
proof (cases "f = Calls [] \<or> (\<exists>c cs. f = Calls (c # cs))")
  case True
  then show ?thesis
  proof (elim disjE exE)
    fix c cs
    assume f: "f = Calls (c # cs)"
    obtain s1 hs where c: "do_call c s = (s1, hs)" by fastforce
    then have g: "s' = s1" "gs @ fs = hs @ Calls cs # fs" using assms(3) f by auto
    show ?thesis unfolding g using line_call[OF assms(2)[unfolded f] c] .
  qed (use assms(2,3) in \<open>simp add: line_def\<close>)
next
  case False
  then have none: "\<not> list_ex starts fs" using assms(1) tidy_tail[of f fs] by (auto simp: orderly_def)
  note empty = no_frame_starts[OF none]
  have same: "\<forall>l. line l s' (gs @ fs) = line l s (f # fs) \<and> cq_promises s' = cq_promises s"
  proof (cases f)
    case (Start k e)
    then show ?thesis using assms(3)
      by (auto simp: start_task_def Let_def line_def empty split: option.splits)
  next
    case (Pump k)
    then have p: "pump k s = (s', gs)" "everywhere (throughout quiet_wait) s (Pump k # fs)"
      using assms(1,3) by (auto simp: orderly_def)
    show ?thesis using Pump by (cases rule: pump_cases[OF p]) (auto simp: line_def empty)
  next
    case (Ended k t g i out)
    then show ?thesis using assms(3) by (auto simp: task_ended_def line_def split: if_splits)
  next
    case (DrainLane k)
    then show ?thesis using assms(3) by (auto simp: drainLane_def line_def split: if_splits)
  next
    case (Calls cs)
    then show ?thesis using False by (cases cs) auto
  qed (use assms(3) in \<open>auto simp: line_def\<close>)
  then show ?thesis using assms(2) by simp
qed

interpretation ordered: machine_invariant in_order "throughout quiet_wait"
proof
  show "in_order s' (gs @ fs)" if "in_order s (f # fs)" and "frame_step f s = (s', gs)" for s f fs s' gs
    using that orderly_frame line_frame unfolding in_order_def by blast
qed (auto simp: in_order_def orderly_def everywhere_def line_def)

text \<open>A lane whose limit is left alone starts with the limit one.\<close>

definition exclusive :: "string \<Rightarrow> command_queue \<Rightarrow> frame list \<Rightarrow> bool" where
  "exclusive l s fs \<longleftrightarrow> orderly s fs \<and> everywhere (throughout (leaves_limit l)) s fs
     \<and> ls_maxConcurrent (getLaneState s l) = Limit 1
     \<and> length (ls_activeTaskIds (getLaneState s l)) + length (coming l fs) \<le> 1"

lemma exclusive_call:
  assumes "exclusive l s (Calls (c # cs) # fs)" and "do_call c s = (s', gs)"
  shows "ls_maxConcurrent (getLaneState s' l) = Limit 1"
    and "length (ls_activeTaskIds (getLaneState s' l)) + length (coming l (gs @ Calls cs # fs)) \<le> 1"
proof -
  have n: "coming l gs = []"
    using call_starts_nothing[OF assms(2)] by (rule no_frame_starts)
  have a: "ls_maxConcurrent (getLaneState s l) = Limit 1" "leaves_limit l c"
    "length (ls_activeTaskIds (getLaneState s l)) + length (coming l fs) \<le> 1"
    using assms(1) by (auto simp: exclusive_def everywhere_def dest: throughoutD(1))
  have "ls_maxConcurrent (getLaneState s' l) = Limit 1
      \<and> length (ls_activeTaskIds (getLaneState s' l)) \<le> length (ls_activeTaskIds (getLaneState s l))"
  proof (cases c)
    case ResetAll
    then have "s' = fst (resetAllLanes s)" using assms(2) by simp
    then show ?thesis using a by (simp add: getLaneState_reset reset_lane_def created_lane_def)
  qed (use assms(2) a in \<open>auto simp: enqueueCommandInLane_def setCommandLaneConcurrency_def getLaneState_clear
      waitForActiveTasks_def Let_def split: if_splits\<close>)
  then show "ls_maxConcurrent (getLaneState s' l) = Limit 1"
    and "length (ls_activeTaskIds (getLaneState s' l)) + length (coming l (gs @ Calls cs # fs)) \<le> 1"
    using a n by simp_all
qed

lemma exclusive_frame:
  assumes "exclusive l s (f # fs)" and "frame_step f s = (s', gs)"
  shows "exclusive l s' (gs @ fs)"
proof -
  have o: "orderly s (f # fs)" and e: "everywhere (throughout (leaves_limit l)) s (f # fs)" using assms(1) by (simp_all add: exclusive_def)
  have "ls_maxConcurrent (getLaneState s' l) = Limit 1
     \<and> length (ls_activeTaskIds (getLaneState s' l)) + length (coming l (gs @ fs)) \<le> 1"
  proof (cases f)
    case (Calls cs)
    show ?thesis
    proof (cases cs)
      case (Cons c rest)
      obtain s1 hs where c: "do_call c s = (s1, hs)" by fastforce
      then show ?thesis using exclusive_call[OF _ c, of l rest fs] assms Calls Cons by auto
    qed (use assms Calls in \<open>auto simp: exclusive_def\<close>)
  next
    case (Start k x)
    then show ?thesis using assms
      by (auto simp: exclusive_def start_task_def Let_def List.insert_def split: option.splits)
  next
    case (Pump k)
    then have p: "pump k s = (s', gs)" "everywhere (throughout quiet_wait) s (Pump k # fs)" and "\<not> list_ex starts fs"
      using o assms(2) tidy_tail[of f fs] by (auto simp: orderly_def)
    then show ?thesis using assms(1) no_frame_starts[of fs l]
      by (cases rule: pump_cases[OF p]) (auto simp: exclusive_def Pump)
  next
    case (Ended k t g i out)
    have "length (removeAll t (ls_activeTaskIds (getLaneState s k))) \<le> length (ls_activeTaskIds (getLaneState s k))"
      by simp
    then have "length (removeAll t (ls_activeTaskIds (getLaneState s k))) + n \<le> 1"
      if "length (ls_activeTaskIds (getLaneState s k)) + n \<le> 1" for n using that by linarith
    then show ?thesis using assms Ended
      by (auto simp: exclusive_def task_ended_def split: if_splits)
  next
    case (DrainLane k)
    then show ?thesis using assms by (auto simp: exclusive_def drainLane_def split: if_splits)
  qed (use assms in \<open>auto simp: exclusive_def\<close>)
  then show ?thesis
    using orderly_frame[OF o assms(2)] handed.everywhere_frame[OF e assms(2)] by (simp add: exclusive_def)
qed

interpretation serial: machine_invariant "exclusive l" "\<lambda>c. throughout quiet_wait c \<and> throughout (leaves_limit l) c" for l
proof
  show "exclusive l s' (gs @ fs)" if "exclusive l s (f # fs)" and "frame_step f s = (s', gs)" for s f fs s' gs
    using that by (rule exclusive_frame)
qed (auto simp: exclusive_def orderly_def everywhere_def)

text \<open>Lanes have distinct names.\<close>

definition named :: "command_queue \<Rightarrow> frame list \<Rightarrow> bool" where
  "named s fs \<longleftrightarrow> distinct (map fst (cq_lanes s))"

lemma named_on_lane [simp]: "distinct (map fst (cq_lanes s)) \<Longrightarrow> distinct (map fst (cq_lanes (on_lane l f s)))"
  by (simp add: on_lane_def AList.distinct_update)

lemma named_call:
  assumes "distinct (map fst (cq_lanes s))" and "do_call c s = (s', gs)"
  shows "distinct (map fst (cq_lanes s'))"
proof (cases c)
  case ResetAll
  have "map fst (cq_lanes (fst (resetAllLanes s))) = map fst (cq_lanes s)"
    by (simp add: resetAllLanes_def split_def comp_def)
  then show ?thesis using assms ResetAll by simp
qed (use assms in \<open>auto simp: enqueueCommandInLane_def setCommandLaneConcurrency_def clearCommandLane_def
    waitForActiveTasks_def Let_def split: if_splits option.splits\<close>)

interpretation names: machine_invariant named "\<lambda>c. True"
proof
  show "named s' (gs @ fs)" if "named s (f # fs)" and "frame_step f s = (s', gs)" for s f fs s' gs
  proof (cases f)
    case (Calls cs)
    then show ?thesis using that named_call[of s] by (cases cs) (auto simp: named_def split: prod.splits)
  qed (use that in \<open>auto simp: named_def start_task_def pump_def task_ended_def drainLane_def Let_def
      split: if_splits option.splits list.splits\<close>)
qed (simp_all add: named_def)

section \<open>The tasks of a generation\<close>

text \<open>The running tasks of a lane that were started in a generation of it; those of the current one.\<close>

definition tasks_in :: "string \<Rightarrow> nat \<Rightarrow> command_queue \<Rightarrow> (nat \<times> running_task) list" where
  "tasks_in l g s = filter (\<lambda>(t, r). rt_lane r = l \<and> rt_generation r = g) (cq_running s)"

definition tasks_of :: "string \<Rightarrow> command_queue \<Rightarrow> (nat \<times> running_task) list" where
  "tasks_of l s = tasks_in l (ls_generation (getLaneState s l)) s"

text \<open>A limit of one, generation by generation: a new task is the only one of the current generation.\<close>

definition one_each :: "string \<Rightarrow> command_queue \<Rightarrow> frame list \<Rightarrow> bool" where
  "one_each l s fs \<longleftrightarrow> exclusive l s fs \<and> slots s fs \<and> (\<forall>g. length (tasks_in l g s) \<le> 1)"

lemma running_unless_start:
  assumes "frame_step f s = (s', gs)" and "\<And>l e. f \<noteq> Start l e"
  shows "cq_running s' = cq_running s"
proof (cases f)
  case (Calls cs)
  show ?thesis
  proof (cases cs)
    case (Cons c rest)
    obtain s1 hs where c: "do_call c s = (s1, hs)" by fastforce
    have "cq_running s1 = cq_running s"
      using c by (cases c) (auto simp: enqueueCommandInLane_def setCommandLaneConcurrency_def
          resetAllLanes_def waitForActiveTasks_def Let_def split: if_splits)
    then show ?thesis using assms(1) Calls Cons c by auto
  qed (use assms Calls in auto)
next
  case (Pump l)
  then show ?thesis using assms by (auto simp: pump_def Let_def split: list.splits if_splits option.splits)
qed (use assms in \<open>auto simp: task_ended_def drainLane_def Let_def split: if_splits\<close>)

lemma no_task_in_generation:
  assumes "slots s fs" and "ls_activeTaskIds (getLaneState s l) = []"
  shows "tasks_in l (ls_generation (getLaneState s l)) s = []"
proof -
  have "rt_generation r \<noteq> ls_generation (getLaneState s l)" if "(t, r) \<in> set (cq_running s)" "rt_lane r = l" for t r
  proof -
    have "map_of (cq_running s) t = Some r"
      using that(1) slotsD(1)[OF assms(1)] by (simp add: running_ok_def map_of_is_SomeI)
    from slotsD(5)[OF assms(1) this] show ?thesis using that(2) assms(2) by (auto simp: has_slot_def)
  qed
  then show ?thesis by (auto simp: tasks_in_def filter_empty_conv)
qed

lemma one_each_start:
  assumes "one_each l s (Start k e # fs)" and "start_task k e s = (s', gs)"
  shows "length (tasks_in l g s') \<le> 1"
proof -
  have old: "length (tasks_in l g s) \<le> 1" and ex: "exclusive l s (Start k e # fs)" and sl: "slots s (Start k e # fs)"
    using assms(1) by (simp_all add: one_each_def)
  show ?thesis
  proof (cases "k = l \<and> g = ls_generation (getLaneState s l)")
    case True
    then have "ls_activeTaskIds (getLaneState s l) = []" using ex by (simp add: exclusive_def)
    from no_task_in_generation[OF sl this] show ?thesis
      using assms(2) True by (auto simp: start_task_def Let_def tasks_in_def split: option.splits)
  next
    case False
    then have "tasks_in l g s' = tasks_in l g s"
      using assms(2) by (auto simp: start_task_def Let_def tasks_in_def split: option.splits)
    then show ?thesis using old by simp
  qed
qed

interpretation serially: machine_invariant "one_each l" "\<lambda>c. throughout quiet_wait c \<and> throughout (leaves_limit l) c" for l
proof
  show "one_each l s' (gs @ fs)" if "one_each l s (f # fs)" and "frame_step f s = (s', gs)" for s f fs s' gs
  proof -
    have "length (tasks_in l g s') \<le> 1" for g
    proof (cases "\<exists>k e. f = Start k e")
      case True
      then show ?thesis using that one_each_start by (metis frame_step.simps(3))
    next
      case False
      then have "cq_running s' = cq_running s" using running_unless_start that(2) by blast
      then show ?thesis using that(1) by (simp add: one_each_def tasks_in_def)
    qed
    then show ?thesis using that exclusive_frame slots_frame unfolding one_each_def by blast
  qed
  show "one_each l (s\<lparr>cq_running := AList.delete t (cq_running s)\<rparr>) [Ended (rt_lane r) t (rt_generation r) (rt_promise r) out]"
    if "one_each l s []" and "map_of (cq_running s) t = Some r" for s t r out
  proof -
    have "length (tasks_in l g (s\<lparr>cq_running := AList.delete t (cq_running s)\<rparr>)) \<le> length (tasks_in l g s)" for g
    proof -
      have "length (filter P (AList.delete t xs)) \<le> length (filter P xs)" for P xs
        by (induction xs) (auto intro: le_SucI)
      then show ?thesis by (simp add: tasks_in_def)
    qed
    then have "length (tasks_in l g (s\<lparr>cq_running := AList.delete t (cq_running s)\<rparr>)) \<le> 1" for g
      using that(1) unfolding one_each_def by (meson le_trans)
    then show ?thesis
      using that serial.task_enters slotted.task_enters unfolding one_each_def by blast
  qed
qed (auto simp: one_each_def tasks_in_def intro: serial.call_enters slotted.call_enters
    serial.timeout_keeps slotted.timeout_keeps serial.time_keeps slotted.time_keeps)

section \<open>What the queue promises\<close>

lemma initial_lane [simp]: "getLaneState initial_queue l = created_lane"
  by (simp add: getLaneState_def initial_queue_def)

lemma initial_invariants:
  "awake initial_queue []" "accounted initial_queue []" "slots initial_queue []" "waiting initial_queue []"
  "in_order initial_queue []" "exclusive l initial_queue []" "named initial_queue []"
proof -
  show "awake initial_queue []" by (simp add: awake_def)
  show "accounted initial_queue []"
    by (simp add: accounted_def open_promises_def lane_total_def settled_promises_def running_ok_def initial_queue_def)
  show "slots initial_queue []"
    by (simp add: slots_def running_ok_def created_lane_def) (simp add: initial_queue_def)
  show "waiting initial_queue []" by (simp add: waiting_def waits_balance_def initial_queue_def)
  have o: "orderly initial_queue []" by (simp add: orderly_def everywhere_def created_lane_def)
  show "in_order initial_queue []"
    using o by (simp add: in_order_def line_def ascending_def created_lane_def) (simp add: started_in_def initial_queue_def)
  show "exclusive l initial_queue []"
    using o by (simp add: exclusive_def everywhere_def created_lane_def)
  show "named initial_queue []" by (simp add: named_def initial_queue_def)
qed


lemma initial_one_each: "one_each l initial_queue []"
  using initial_invariants by (simp add: one_each_def) (simp add: tasks_in_def initial_queue_def)

lemma queue_reaches_invariants:
  assumes "queue_reaches evs (s, fs)"
  shows "awake s fs" "accounted s fs" "slots s fs" "waiting s fs" "named s fs"
  using wakeful.reached_keeps[OF assms initial_invariants(1)] accounts.reached_keeps[OF assms initial_invariants(2)]
    slotted.reached_keeps[OF assms initial_invariants(3)] waited.reached_keeps[OF assms initial_invariants(4)]
    names.reached_keeps[OF assms initial_invariants(7)]
  by simp_all

lemmas queue_after_invariants = queue_reaches_invariants[OF queue_after_reaches]

lemma slots_count:
  assumes "slots s []"
  shows "length (ls_activeTaskIds (getLaneState s l)) = length (tasks_of l s)"
proof -
  note d = slotsD[OF assms]
  have dist: "distinct (map fst (cq_running s))" using d(1) by (simp add: running_ok_def)
  have "set (ls_activeTaskIds (getLaneState s l)) = set (map fst (tasks_of l s))"
  proof (rule set_eqI)
    fix t
    have "t \<in> set (map fst (tasks_of l s)) \<longleftrightarrow>
        (\<exists>r. map_of (cq_running s) t = Some r \<and> rt_lane r = l \<and> rt_generation r = ls_generation (getLaneState s l))"
      by (force simp: tasks_of_def tasks_in_def map_of_eq_Some_iff[OF dist] dist)
    then show "t \<in> set (ls_activeTaskIds (getLaneState s l)) \<longleftrightarrow> t \<in> set (map fst (tasks_of l s))"
      using d(4)[of t l] d(5)[of t] by (auto simp: holds_slot_def has_slot_def)
  qed
  moreover have "distinct (map fst (tasks_of l s))" using dist by (simp add: tasks_of_def tasks_in_def distinct_map_filter)
  ultimately show ?thesis using distinct_card d(2)[of l] by (metis length_map)
qed

lemma active_in_lane:
  assumes "distinct (map fst (cq_lanes s))" and "t \<in> set (active_ids s)"
  obtains l where "t \<in> set (ls_activeTaskIds (getLaneState s l))"
proof -
  obtain l x where "(l, x) \<in> set (cq_lanes s)" and t: "t \<in> set (ls_activeTaskIds x)"
    using assms(2) by (auto simp: active_ids_def)
  then have "getLaneState s l = x" using assms(1) by (simp add: getLaneState_def map_of_is_SomeI)
  then show thesis using t that by blast
qed

lemma waiter_has_running:
  assumes "queue_after evs = Some s" and "x \<in> set (cq_waiters s)"
  obtains t r where "t \<in> set (tw_activeTaskIds x)" and "map_of (cq_running s) t = Some r"
proof -
  note inv = queue_after_invariants[OF assms(1)]
  have "waiter_waits s x" using inv(4) assms(2) by (simp add: waiting_def list_all_iff)
  then obtain t where t: "t \<in> set (tw_activeTaskIds x)" "t \<in> set (active_ids s)"
    by (auto simp: waiter_waits_def hasPendingActiveTasks_def list_ex_iff)
  obtain l where "t \<in> set (ls_activeTaskIds (getLaneState s l))"
    using active_in_lane[OF _ t(2)] inv(5) by (auto simp: named_def)
  then have "holds_slot s [] l t" using slotsD(4)[OF inv(3)] by blast
  then show thesis using t(1) that by (auto simp: holds_slot_def)
qed

text \<open>
  C5: a command that is still queued when the queue's code has returned, after any sequence of
  events, waits only because its lane is full: as many tasks of the lane are running as its
  limit allows. No event leaves behind a command that could have been started.
\<close>

theorem queued_waits_for_running:
  assumes "queue_after evs = Some s" and "ls_queue (getLaneState s l) \<noteq> []"
  shows "\<not> below (length (tasks_of l s)) (ls_maxConcurrent (getLaneState s l))"
  using assms(2) awakeD(1)[OF queue_after_invariants(1)[OF assms(1)]] slots_count[OF queue_after_invariants(3)[OF assms(1)]]
  by (auto simp: ready_def)

text \<open>
  C13: every command given to the queue is, in every state that the queue goes through, also in
  the middle of a call, exactly one of waiting, in the hands of code that is about to start it or
  to settle it, running and settled, and it is settled once: the promises of these commands are
  together each promise handed out, once. Between two calls no code is left to run, and a command
  is waiting, running or settled.
\<close>

theorem commands_settled_once:
  assumes "queue_reaches evs (s, fs)"
  shows "open_promises s + mset (settled_promises s) + mset (concat (map frame_promises fs)) = numbers (cq_promises s)"
  using queue_reaches_invariants(2)[OF assms] by (simp add: accounted_def)

text \<open>
  C14: a lane whose limit nobody sets runs at most one command of each of its generations at a
  time, in every state that the queue goes through, whatever commands are queued (also ones that
  queue themselves again without end), as long as \<open>onWait\<close> callbacks do not call into the queue.
  Only \<open>resetAllLanes\<close> begins a new generation: it gives up on the command that is running and
  lets the next one start beside it. In the current generation no more than one task holds a slot,
  one that is still in its synchronous part included.
\<close>

theorem lane_runs_one:
  assumes "queue_reaches evs (s, fs)"
    and "\<And>c. QueueCall c \<in> set evs \<Longrightarrow> throughout quiet_wait c \<and> throughout (leaves_limit l) c"
  shows "length (tasks_in l g s) \<le> 1 \<and> length (ls_activeTaskIds (getLaneState s l)) \<le> 1"
proof -
  have "one_each l s fs" using serially.reached_keeps[OF assms(1) initial_one_each[of l] assms(2)] by simp
  then show ?thesis by (simp add: one_each_def exclusive_def)
qed

text \<open>
  C30: in every lane commands are started in the order in which they were queued, and those
  that wait come after all that were started, as long as \<open>onWait\<close> callbacks do not call into
  the queue: in every state that the queue goes through, the promises of the commands started so
  far and of those that wait, in this order, ascend.
\<close>

theorem commands_start_in_order:
  assumes "queue_reaches evs (s, fs)" and "\<And>c. QueueCall c \<in> set evs \<Longrightarrow> throughout quiet_wait c"
  shows "sorted_wrt (<) (started_in l s @ map qe_promise (ls_queue (getLaneState s l)))"
proof -
  have "in_order s fs"
    using ordered.reached_keeps[OF assms(1) initial_invariants(5)] assms(2) by simp
  then show ?thesis by (auto simp: in_order_def line_def ascending_def sorted_wrt_append)
qed

interpretation finitely_kept: machine_invariant "everywhere finite_call" finite_call
proof
  show "everywhere finite_call s' (gs @ fs)"
    if "everywhere finite_call s (f # fs)" and "frame_step f s = (s', gs)" for s f fs s' gs
    using that by (rule finitely.everywhere_frame)
qed (simp_all add: everywhere_def)

lemma reached_finite:
  assumes "queue_reaches evs (s, fs)" and "\<And>c. QueueCall c \<in> set evs \<Longrightarrow> finite_call c"
  shows "everywhere finite_call s fs"
  using finitely_kept.reached_keeps[OF assms(1)] assms(2) by (simp add: everywhere_def created_lane_def)

text \<open>
  C31: the queue's synchronous code returns if no command brings calls with it without end:
  when the commands and callbacks of all events so far bring finitely many calls with them,
  counted with the calls that these bring, then from every state that the queue goes through the
  stack machine empties its stack in finitely many steps, however the lanes, limits, resets and
  throwing commands play together, and the events have a result.
\<close>

theorem queue_code_returns:
  assumes "queue_reaches evs (s, fs)" and "\<And>c. QueueCall c \<in> set evs \<Longrightarrow> finite_call c"
  shows "\<exists>n s'. (machine_step ^^ n) (s, fs) = (s', []) \<and> queue_after evs = Some s'"
proof -
  obtain s' where "run_frames s fs = Some s'" using run_frames_returns reached_finite[OF assms] by blast
  then obtain n where n: "(machine_step ^^ n) (s, fs) = (s', [])" by (auto simp: run_frames_machine)
  then have "queue_after evs = Some s'"
    using queue_reaches_more[OF assms(1), of n] by (simp add: queue_reaches_after)
  with n show ?thesis by blast
qed

section \<open>A run that never returns\<close>

text \<open>
  The proviso on finite calls is needed: a command that queues itself again before its first
  \<open>await\<close>, in a lane without a limit, keeps the loop of the lane going for ever.
\<close>

primcorec again :: command and again_call :: queue_call where
  "again = Command [again_call] None"
| "again_call = EnqueueIn ''main'' again 2000 None"

definition again_entry :: "queue_entry \<Rightarrow> bool" where
  "again_entry e \<longleftrightarrow> qe_task e = again \<and> qe_onWait e = None"

text \<open>The stacks that come round, with the loop of the lane below.\<close>

inductive comes_round :: "lane_state \<Rightarrow> frame list \<Rightarrow> bool" where
  call_again: "comes_round x (Calls [again_call] # Pump ''main'' # fs)"
| drain_again: "ls_queue x \<noteq> [] \<Longrightarrow> comes_round x (DrainLane ''main'' # Calls [] # Pump ''main'' # fs)"
| called_again: "ls_queue x \<noteq> [] \<Longrightarrow> comes_round x (Calls [] # Pump ''main'' # fs)"
| pump_again: "ls_queue x \<noteq> [] \<Longrightarrow> comes_round x (Pump ''main'' # fs)"
| start_again: "again_entry e \<Longrightarrow> comes_round x (Start ''main'' e # Pump ''main'' # fs)"

definition endless :: "command_queue \<times> frame list \<Rightarrow> bool" where
  "endless c \<longleftrightarrow> \<not> cq_gatewayDraining (fst c) \<and> ls_maxConcurrent (getLaneState (fst c) ''main'') = NoLimit
     \<and> ls_draining (getLaneState (fst c) ''main'') \<and> list_all again_entry (ls_queue (getLaneState (fst c) ''main''))
     \<and> comes_round (getLaneState (fst c) ''main'') (snd c)"

lemma normalizeLane_main [simp]: "normalizeLane ''main'' = ''main''"
  by code_simp

lemma endless_step:
  assumes "endless c" shows "endless (machine_step c)"
proof -
  obtain s fs where c: "c = (s, fs)" by fastforce
  let ?x = "getLaneState s ''main''"
  have d: "\<not> cq_gatewayDraining s" "ls_maxConcurrent ?x = NoLimit" "ls_draining ?x"
    "list_all again_entry (ls_queue ?x)" "comes_round ?x fs"
    using assms c by (simp_all add: endless_def)
  from d(5) show ?thesis
  proof cases
    case (call_again fs)
    then show ?thesis using d(1-4) c
      by (auto simp: endless_def again_call.code enqueueCommandInLane_def again_entry_def Let_def
          intro: comes_round.intros)
  next
    case (drain_again fs)
    then show ?thesis using d(1-4) c by (simp add: endless_def drainLane_def comes_round.intros)
  next
    case (called_again fs)
    then show ?thesis using d(1-4) c by (simp add: endless_def comes_round.intros)
  next
    case (pump_again fs)
    then obtain e rest where e: "ls_queue ?x = e # rest" by (cases "ls_queue ?x") auto
    then show ?thesis using d(1-4) c pump_again
      by (auto simp: endless_def pump_def Let_def pump_frames_def again_entry_def intro: comes_round.intros)
  next
    case (start_again e fs)
    then have "cmd_calls (qe_task e) = [again_call]" "cmd_throws (qe_task e) = None"
      by (auto simp: again_entry_def)
    then show ?thesis using d(1-4) c start_again
      by (simp add: endless_def start_task_def Let_def comes_round.intros)
  qed
qed

lemma comes_round_Nil: "\<not> comes_round x []"
  by (auto elim: comes_round.cases)

lemma endless_never_returns:
  assumes "endless (s, fs)" shows "run_frames s fs = None"
proof -
  have "endless ((machine_step ^^ n) (s, fs))" for n
    using assms by (induction n) (auto intro: endless_step)
  then have "(machine_step ^^ n) (s, fs) \<noteq> (s', [])" for n s'
    by (metis comes_round_Nil endless_def snd_conv)
  then show ?thesis using run_frames_machine by (metis not_Some_eq)
qed

theorem self_queueing_never_returns:
  "queue_after [QueueCall (SetConcurrency ''main'' PosInf), QueueCall again_call] = None"
proof -
  let ?s = "initial_queue\<lparr>cq_lanes := [(''main'', created_lane\<lparr>ls_maxConcurrent := NoLimit\<rparr>)]\<rparr>"
  have set: "queue_step (QueueCall (SetConcurrency ''main'' PosInf)) initial_queue = Some ?s"
    by code_simp
  let ?t = "on_lane ''main'' (\<lambda>x. x\<lparr>ls_draining := True\<rparr>)
    (on_lane ''main'' (\<lambda>x. x\<lparr>ls_queue := ls_queue x @ [\<lparr>qe_promise = 0, qe_task = again, qe_enqueuedAt = 0,
       qe_warnAfterMs = 2000, qe_onWait = None\<rparr>]\<rparr>) (?s\<lparr>cq_promises := Suc 0\<rparr>))"
  have l: "getLaneState ?s ''main'' = created_lane\<lparr>ls_maxConcurrent := NoLimit\<rparr>" by (simp add: getLaneState_def)
  have b: "cq_promises ?s = 0" "cq_now ?s = 0" "\<not> cq_gatewayDraining ?s" by (simp_all add: initial_queue_def)
  have c: "\<not> ls_draining created_lane" "ls_queue created_lane = []" by (simp_all add: created_lane_def)
  have "run_frames ?s [Calls [again_call]] = run_frames ?t [Pump ''main'', Calls []]"
    using l b c by (simp add: run_frames_simps again_call.code enqueueCommandInLane_def drainLane_def Let_def)
  moreover have "endless (?t, [Pump ''main'', Calls []])"
    using l b c by (simp add: endless_def again_entry_def comes_round.intros)
  ultimately show ?thesis
    using endless_never_returns by (simp add: queue_after_def set) (simp add: queue_step_def)
qed

text \<open>Concrete runs.\<close>

definition one_call :: "string \<Rightarrow> queue_event" where
  "one_call l = QueueCall (EnqueueIn l (Command [] None) 2000 None)"

definition nested_call :: queue_event where
  "nested_call = QueueCall (EnqueueIn ''main'' (Command [EnqueueIn ''main'' (Command [] None) 0 None] None) 0 None)"

definition two_queued :: "queue_event list" where
  "two_queued = [one_call ''main'', one_call ''  '', TimePasses 3000, TaskOver 1 (Resolved ''done''), nested_call]"

definition restarted :: "queue_event list" where
  "restarted = [one_call ''main'', one_call ''main'', QueueCall ResetAll]"

definition reached_by :: "queue_event list \<Rightarrow> command_queue" where
  "reached_by evs = the (queue_after evs)"

lemma runs_return: "queue_after two_queued = Some (reached_by two_queued)" "queue_after restarted = Some (reached_by restarted)"
proof -
  have "queue_after two_queued \<noteq> None" "queue_after restarted \<noteq> None" by code_simp+
  then show "queue_after two_queued = Some (reached_by two_queued)" "queue_after restarted = Some (reached_by restarted)"
    by (auto simp: reached_by_def)
qed

lemma throughout_simps [simp]:
  "throughout P (EnqueueIn l c w onWait) \<longleftrightarrow> P (EnqueueIn l c w onWait)
     \<and> list_all (throughout P) (cmd_calls c) \<and> list_all (throughout P) (nullish onWait [])"
  "throughout P (SetConcurrency l n) \<longleftrightarrow> P (SetConcurrency l n)" "throughout P (ClearLane l) \<longleftrightarrow> P (ClearLane l)"
  "throughout P MarkDraining \<longleftrightarrow> P MarkDraining" "throughout P ResetAll \<longleftrightarrow> P ResetAll"
  "throughout P (WaitForActive m) \<longleftrightarrow> P (WaitForActive m)"
  by (subst throughout.simps; force simp: list_all_iff)+

lemma finite_call_simps [simp]:
  "finite_call (EnqueueIn l c w onWait) \<longleftrightarrow> list_all finite_call (cmd_calls c) \<and> list_all finite_call (nullish onWait [])"
  "finite_call (SetConcurrency l n)" "finite_call (ClearLane l)" "finite_call MarkDraining" "finite_call ResetAll"
  "finite_call (WaitForActive m)"
  by (subst finite_call.simps; force simp: list_all_iff)+

lemma queued_waits_for_running_witness:
  "ls_queue (getLaneState (reached_by two_queued) ''main'') \<noteq> []
   \<and> \<not> below (length (tasks_of ''main'' (reached_by two_queued))) (ls_maxConcurrent (getLaneState (reached_by two_queued) ''main''))"
proof -
  have q: "ls_queue (getLaneState (reached_by two_queued) ''main'') \<noteq> []" by code_simp
  from q queued_waits_for_running[OF runs_return(1) q] show ?thesis ..
qed

lemma commands_settled_once_witness:
  "open_promises (reached_by restarted) + mset (settled_promises (reached_by restarted)) + mset (concat (map frame_promises []))
     = numbers 2 \<and> cq_promises (reached_by restarted) = 2"
proof -
  have n: "cq_promises (reached_by restarted) = 2" by code_simp
  from commands_settled_once[OF queue_after_reaches[OF runs_return(2)]] n show ?thesis by simp
qed

lemma concrete_calls:
  assumes "QueueCall c \<in> set two_queued \<or> QueueCall c \<in> set restarted"
  shows "throughout quiet_wait c \<and> throughout (leaves_limit ''main'') c \<and> finite_call c"
  using assms by (auto simp: two_queued_def restarted_def one_call_def nested_call_def)

text \<open>After a reset the abandoned command and the next one run side by side, one of each generation.\<close>

lemma lane_runs_one_witness:
  "length (tasks_in ''main'' 0 (reached_by restarted)) \<le> 1 \<and> length (tasks_in ''main'' 1 (reached_by restarted)) \<le> 1
   \<and> map (rt_generation \<circ> snd) (cq_running (reached_by restarted)) = [0, 1]"
proof -
  have "length (tasks_in ''main'' g (reached_by restarted)) \<le> 1" for g
    by (rule lane_runs_one[THEN conjunct1, OF queue_after_reaches[OF runs_return(2)]]) (use concrete_calls in blast)
  moreover have "map (rt_generation \<circ> snd) (cq_running (reached_by restarted)) = [0, 1]" by code_simp
  ultimately show ?thesis by blast
qed

lemma commands_start_in_order_witness:
  "sorted_wrt (<) (started_in ''main'' (reached_by two_queued) @ map qe_promise (ls_queue (getLaneState (reached_by two_queued) ''main'')))
   \<and> started_in ''main'' (reached_by two_queued) = [0, 1]"
proof -
  have "sorted_wrt (<) (started_in ''main'' (reached_by two_queued) @ map qe_promise (ls_queue (getLaneState (reached_by two_queued) ''main'')))"
    by (rule commands_start_in_order[OF queue_after_reaches[OF runs_return(1)]]) (use concrete_calls in blast)
  moreover have "started_in ''main'' (reached_by two_queued) = [0, 1]" by code_simp
  ultimately show ?thesis ..
qed

lemma queue_code_returns_witness:
  "\<exists>n s'. (machine_step ^^ n) (queue_enter nested_call initial_queue) = (s', []) \<and> queue_after [nested_call] = Some s'"
proof -
  have r: "queue_reaches ([] @ [nested_call]) (queue_enter nested_call initial_queue)"
    by (rule queue_enters[OF queue_starts])
  have "queue_enter nested_call initial_queue = (initial_queue, [Calls [EnqueueIn ''main'' (Command [EnqueueIn ''main'' (Command [] None) 0 None] None) 0 None]])"
    by (simp add: nested_call_def)
  with queue_code_returns[of "[] @ [nested_call]" "fst (queue_enter nested_call initial_queue)" "snd (queue_enter nested_call initial_queue)"] r
  show ?thesis by (simp add: nested_call_def)
qed

text \<open>
  The proviso on \<open>onWait\<close> is needed. When a task has ended, the loop runs without the draining
  flag; a callback that queues a command in the same lane starts a second loop, which takes the
  slot of the entry that is being started.
\<close>

definition reentrant_wait :: "queue_event list" where
  "reentrant_wait = [one_call ''main'',
     QueueCall (EnqueueIn ''main'' (Command [] None) 0 (Some [EnqueueIn ''main'' (Command [] None) 2000 None])),
     TaskOver 1 (Resolved ''done'')]"

theorem onWait_overfills_lane:
  "map_option (\<lambda>s. (ls_maxConcurrent (getLaneState s ''main''), length (tasks_of ''main'' s), started_in ''main'' s))
     (queue_after reentrant_wait) = Some (Limit 1, 2, [0, 2, 1])"
  by code_simp

text \<open>A task of an earlier generation frees no slot and starts nothing: only its promise is settled.\<close>

lemma stale_completion_ignored:
  assumes "map_of (cq_running s) t = Some r" and "rt_generation r \<noteq> ls_generation (getLaneState s (rt_lane r))"
  shows "queue_step (TaskOver t out) s
    = Some (emits [Settle (rt_promise r) out] (s\<lparr>cq_running := AList.delete t (cq_running s)\<rparr>))"
  using assms by (simp add: queue_step_def task_ended_def run_frames_simps)

text \<open>The limits that the gateway sets for agents and subagents are at least one.\<close>

lemma gateway_limits:
  "limit_of (Fin (resolveAgentMaxConcurrent a)) = Limit (floor (resolveAgentMaxConcurrent a))"
  "1 \<le> floor (resolveAgentMaxConcurrent a)"
  "limit_of (Fin (resolveSubagentMaxConcurrent a)) = Limit (floor (resolveSubagentMaxConcurrent a))"
  "1 \<le> floor (resolveSubagentMaxConcurrent a)"
  by (auto simp: resolveAgentMaxConcurrent_def resolveSubagentMaxConcurrent_def DEFAULT_AGENT_MAX_CONCURRENT_def
      DEFAULT_SUBAGENT_MAX_CONCURRENT_def max_def split: option.split)

end
