(* ===== verification/ReplyText.thy ===== *)
theory ReplyText
  imports OpenClawText
begin

text \<open>
  The texts that OpenClaw takes out of an assistant's reply before a chat client sees it: inline
  directive tags (openclaw/src/utils/directive-tags.ts), the silent reply token
  (auto-reply/tokens.ts) and the control replies (gateway/control-reply-text.ts). The regular
  expressions are written as recognisers: their alternatives exclude each other, so that greedy
  matching never has to take a choice back. Case is that of ASCII; whether a text starts with a
  letter or number of Unicode is a parameter.
\<close>

section \<open>Case\<close>

definition ascii_upper :: "string \<Rightarrow> string" where
  "ascii_upper = map (\<lambda>c. let n = of_char c :: nat in if 97 \<le> n \<and> n \<le> 122 then char_of (n - 32) else c)"

text \<open>What is left of a text that starts with \<open>w\<close>, the case aside.\<close>

definition after_word :: "string \<Rightarrow> string \<Rightarrow> string option" where
  "after_word w s = (if length w \<le> length s \<and> ascii_upper (take (length w) s) = ascii_upper w
     then Some (drop (length w) s) else None)"

definition after_exact :: "string \<Rightarrow> string \<Rightarrow> string option" where
  "after_exact w s = (if take (length w) s = w then Some (drop (length w) s) else None)"

section \<open>Silent replies\<close>

definition SILENT_REPLY_TOKEN :: string where "SILENT_REPLY_TOKEN = ''NO_REPLY''"

definition isSilentReplyText :: "string \<Rightarrow> string \<Rightarrow> bool" where
  "isSilentReplyText text token \<longleftrightarrow> text \<noteq> [] \<and> ascii_upper (trim text) = ascii_upper token"

text \<open>The token, any number of times with white space after it, and once with a word attached.\<close>

fun attached :: "(string \<Rightarrow> bool) \<Rightarrow> string \<Rightarrow> nat \<Rightarrow> string \<Rightarrow> bool" where
  "attached word token 0 s \<longleftrightarrow> False"
| "attached word token (Suc n) s \<longleftrightarrow> (case after_word token s of
     None \<Rightarrow> False
   | Some r \<Rightarrow> word r \<or> ws_len r \<noteq> 0 \<and> attached word token n (trim_start r))"

definition startsWithSilentToken :: "(string \<Rightarrow> bool) \<Rightarrow> string \<Rightarrow> string \<Rightarrow> bool" where
  "startsWithSilentToken word text token \<longleftrightarrow> text \<noteq> [] \<and> attached word token (length text) (trim_start text)"

fun drop_tokens :: "string \<Rightarrow> nat \<Rightarrow> string \<Rightarrow> string" where
  "drop_tokens token 0 s = s"
| "drop_tokens token (Suc n) s = (case after_word token (trim_start s) of
     None \<Rightarrow> s | Some r \<Rightarrow> drop_tokens token n r)"

definition stripLeadingSilentToken :: "string \<Rightarrow> string \<Rightarrow> string" where
  "stripLeadingSilentToken text token = trim (drop_tokens token (length text) text)"

section \<open>Control replies\<close>

definition SUPPRESSED_CONTROL_REPLY_TOKENS :: "string list" where
  "SUPPRESSED_CONTROL_REPLY_TOKENS = [SILENT_REPLY_TOKEN, ''ANNOUNCE_SKIP'', ''REPLY_SKIP'']"

definition min_bare_prefix :: "string \<Rightarrow> nat" where
  "min_bare_prefix token = (if token = SILENT_REPLY_TOKEN then 2 else 3)"

definition control_char :: "char \<Rightarrow> bool" where
  "control_char c \<longleftrightarrow> (let n = of_char c :: nat in 65 \<le> n \<and> n \<le> 90 \<or> n = 95)"

definition normalizeSuppressedControlReplyFragment :: "string \<Rightarrow> string" where
  "normalizeSuppressedControlReplyFragment text =
     (let normalized = ascii_upper (trim text) in if list_all control_char normalized then normalized else [])"

definition isSuppressedControlReplyText :: "string \<Rightarrow> bool" where
  "isSuppressedControlReplyText text \<longleftrightarrow>
     list_ex (isSilentReplyText (trim text)) SUPPRESSED_CONTROL_REPLY_TOKENS"

definition leads_to :: "string \<Rightarrow> string \<Rightarrow> string \<Rightarrow> bool" where
  "leads_to trimmed normalized token \<longleftrightarrow>
     normalized \<noteq> ascii_upper token
     \<and> take (length normalized) (ascii_upper token) = normalized
     \<and> (CHR ''_'' \<in> set normalized
        \<or> \<not> (token \<noteq> SILENT_REPLY_TOKEN \<and> trimmed \<noteq> ascii_upper trimmed) \<and> min_bare_prefix token \<le> length normalized)"

definition isSuppressedControlReplyLeadFragment :: "string \<Rightarrow> bool" where
  "isSuppressedControlReplyLeadFragment text \<longleftrightarrow>
     (let normalized = normalizeSuppressedControlReplyFragment text in
      normalized \<noteq> [] \<and> list_ex (leads_to (trim text) normalized) SUPPRESSED_CONTROL_REPLY_TOKENS)"

section \<open>Inline directive tags\<close>

definition opt_then :: "'a option \<Rightarrow> ('a \<Rightarrow> 'b option) \<Rightarrow> 'b option" where
  "opt_then v k = (case v of None \<Rightarrow> None | Some x \<Rightarrow> k x)"

text \<open>What is left after a tag, when the text starts with one.\<close>

definition close_tag :: "string \<Rightarrow> string option" where
  "close_tag s = after_exact '']]'' (trim_start s)"

definition audio_tag :: "string \<Rightarrow> string option" where
  "audio_tag s = opt_then (after_exact ''[['' s) (\<lambda>r.
     opt_then (after_word ''audio_as_voice'' (trim_start r)) close_tag)"

text \<open>
  The id of a reply tag: white space, something but brackets and line feeds, white space. It
  reaches to the first closing bracket; a line feed is white space at its ends.
\<close>

definition reply_id :: "string \<Rightarrow> bool" where
  "reply_id x \<longleftrightarrow> (if trim x = [] then list_ex (\<lambda>c. c \<noteq> CHR 0x0A) x else CHR 0x0A \<notin> set (trim x))"

definition reply_tag :: "string \<Rightarrow> string option" where
  "reply_tag s = opt_then (after_exact ''[['' s) (\<lambda>r. let b = trim_start r in
     case opt_then (after_word ''reply_to_current'' b) close_tag of
       Some rest \<Rightarrow> Some rest
     | None \<Rightarrow> opt_then (after_word ''reply_to'' b) (\<lambda>r.
         opt_then (after_exact '':'' (trim_start r)) (\<lambda>r.
           if reply_id (takeWhile (\<lambda>c. c \<noteq> CHR '']'') r) then after_exact '']]'' (dropWhile (\<lambda>c. c \<noteq> CHR '']'') r)
           else None)))"

text \<open>\<open>replace\<close> of every match by nothing; a match is never empty.\<close>

function remove_all :: "(string \<Rightarrow> string option) \<Rightarrow> string \<Rightarrow> string" where
  "remove_all tag [] = []"
| "remove_all tag (c # cs) = (case tag (c # cs) of
     Some rest \<Rightarrow> if length rest \<le> length cs then remove_all tag rest else c # remove_all tag cs
   | None \<Rightarrow> c # remove_all tag cs)"
  by pat_completeness auto
termination by (relation "measure (length \<circ> snd)") auto

definition stripInlineDirectiveTagsForDisplay :: "string \<Rightarrow> string" where
  "stripInlineDirectiveTagsForDisplay text =
     (if text = [] then text else remove_all reply_tag (remove_all audio_tag text))"

section \<open>Plain texts\<close>

text \<open>A text without an opening bracket has no tag.\<close>

lemma tags_need_bracket:
  assumes "CHR ''['' \<notin> set s"
  shows "audio_tag s = None" and "reply_tag s = None"
proof -
  have "after_exact ''[['' s = None" using assms by (cases s) (auto simp: after_exact_def)
  then show "audio_tag s = None" and "reply_tag s = None"
    by (simp_all add: audio_tag_def reply_tag_def opt_then_def)
qed

lemma remove_all_none:
  assumes "\<And>t. set t \<subseteq> set s \<Longrightarrow> tag t = None"
  shows "remove_all tag s = s"
  using assms by (induction s) auto

lemma strip_plain:
  assumes "CHR ''['' \<notin> set s"
  shows "stripInlineDirectiveTagsForDisplay s = s"
proof -
  have "remove_all audio_tag s = s" and "remove_all reply_tag s = s"
    by (rule remove_all_none, use assms tags_need_bracket in blast)+
  then show ?thesis by (simp add: stripInlineDirectiveTagsForDisplay_def)
qed

lemma strip_length: "length (stripInlineDirectiveTagsForDisplay s) \<le> length s"
proof -
  have r: "length (remove_all tag t) \<le> length t" for tag t
    by (induction tag t rule: remove_all.induct) (auto split: option.splits)
  show ?thesis using r[of reply_tag "remove_all audio_tag s"] r[of audio_tag s]
    by (simp add: stripInlineDirectiveTagsForDisplay_def)
qed

lemma reply_text_examples:
  "stripInlineDirectiveTagsForDisplay ''[[reply_to: 12 ]]Hi[[reply_to:]]'' = ''Hi[[reply_to:]]''"
  "isSuppressedControlReplyLeadFragment ''NO'' \<and> \<not> isSuppressedControlReplyLeadFragment ''Ann''"
  by code_simp+

end
