(* ===== verification/ChatRegistries.thy ===== *)
theory ChatRegistries
  imports OpenClawText "HOL-Library.AList"
begin

text \<open>
  The registries of OpenClaw's chat gateway (openclaw/src/gateway/server-chat.ts): which client
  runs belong to a session, who is told of session changes and of a session's messages, and who
  receives the tool events of a run; and that who is told of a session is who the calls say. Sets of connections are lists without repetition, in the order
  in which \<open>Set\<close> iterates.
\<close>

section \<open>Runs of a session\<close>

record chat_run_entry =
  cr_sessionKey :: string
  cr_clientRunId :: string

type_synonym chat_run_registry = "(string \<times> chat_run_entry list) list"

definition add_chat_run :: "string \<Rightarrow> chat_run_entry \<Rightarrow> chat_run_registry \<Rightarrow> chat_run_registry" where
  "add_chat_run sessionId e reg = (case map_of reg sessionId of
     Some q \<Rightarrow> AList.update sessionId (q @ [e]) reg | None \<Rightarrow> AList.update sessionId [e] reg)"

definition peek_chat_run :: "string \<Rightarrow> chat_run_registry \<Rightarrow> chat_run_entry option" where
  "peek_chat_run sessionId reg = (case map_of reg sessionId of Some (e # q) \<Rightarrow> Some e | _ \<Rightarrow> None)"

definition put_queue :: "string \<Rightarrow> chat_run_entry list \<Rightarrow> chat_run_registry \<Rightarrow> chat_run_registry" where
  "put_queue sessionId q reg = (if q = [] then AList.delete sessionId reg else AList.update sessionId q reg)"

definition shift_chat_run :: "string \<Rightarrow> chat_run_registry \<Rightarrow> chat_run_entry option \<times> chat_run_registry" where
  "shift_chat_run sessionId reg = (case map_of reg sessionId of
     Some (e # q) \<Rightarrow> (Some e, put_queue sessionId q reg) | _ \<Rightarrow> (None, reg))"

definition chat_run_matches :: "string \<Rightarrow> string option \<Rightarrow> chat_run_entry \<Rightarrow> bool" where
  "chat_run_matches clientRunId sessionKey e \<longleftrightarrow>
     cr_clientRunId e = clientRunId \<and> (truthy_string sessionKey \<longrightarrow> sessionKey = Some (cr_sessionKey e))"

fun splice_first :: "('a \<Rightarrow> bool) \<Rightarrow> 'a list \<Rightarrow> ('a \<times> 'a list) option" where
  "splice_first P [] = None"
| "splice_first P (x # xs) = (if P x then Some (x, xs)
     else map_option (\<lambda>(y, ys). (y, x # ys)) (splice_first P xs))"

definition remove_chat_run :: "string \<Rightarrow> string \<Rightarrow> string option \<Rightarrow> chat_run_registry
  \<Rightarrow> chat_run_entry option \<times> chat_run_registry" where
  "remove_chat_run sessionId clientRunId sessionKey reg = (case map_of reg sessionId of
     None \<Rightarrow> (None, reg)
   | Some q \<Rightarrow> (case splice_first (chat_run_matches clientRunId sessionKey) q of
       None \<Rightarrow> (None, reg) | Some (e, q') \<Rightarrow> (Some e, put_queue sessionId q' reg)))"

section \<open>Subscribers of session events\<close>

definition subscribe_events :: "string \<Rightarrow> string list \<Rightarrow> string list" where
  "subscribe_events connId ids = (if trim connId = [] \<or> trim connId \<in> set ids then ids else ids @ [trim connId])"

definition unsubscribe_events :: "string \<Rightarrow> string list \<Rightarrow> string list" where
  "unsubscribe_events connId ids = (if trim connId = [] then ids else removeAll (trim connId) ids)"

section \<open>Subscribers of a session's messages\<close>

record message_subscribers =
  ms_sessions :: "(string \<times> string list) list"
  ms_conns :: "(string \<times> string list) list"

definition no_subscribers :: message_subscribers where
  "no_subscribers = \<lparr>ms_sessions = [], ms_conns = []\<rparr>"

definition set_add :: "'a \<Rightarrow> 'a list \<Rightarrow> 'a list" where
  "set_add x xs = (if x \<in> set xs then xs else xs @ [x])"

definition add_to :: "string \<Rightarrow> string \<Rightarrow> (string \<times> string list) list \<Rightarrow> (string \<times> string list) list" where
  "add_to k x m = AList.update k (set_add x (nullish (map_of m k) [])) m"

text \<open>An element leaves the set under a key, and the key goes with its last element.\<close>

definition remove_from :: "string \<Rightarrow> string \<Rightarrow> (string \<times> string list) list \<Rightarrow> (string \<times> string list) list" where
  "remove_from k x m = (case map_of m k of
     None \<Rightarrow> m
   | Some xs \<Rightarrow> if removeAll x xs = [] then AList.delete k m else AList.update k (removeAll x xs) m)"

definition subscribe_messages :: "string \<Rightarrow> string \<Rightarrow> message_subscribers \<Rightarrow> message_subscribers" where
  "subscribe_messages connId sessionKey s =
     (let c = trim connId; k = trim sessionKey in
      if c = [] \<or> k = [] then s
      else s\<lparr>ms_sessions := add_to k c (ms_sessions s), ms_conns := add_to c k (ms_conns s)\<rparr>)"

definition unsubscribe_messages :: "string \<Rightarrow> string \<Rightarrow> message_subscribers \<Rightarrow> message_subscribers" where
  "unsubscribe_messages connId sessionKey s =
     (let c = trim connId; k = trim sessionKey in
      if c = [] \<or> k = [] then s
      else s\<lparr>ms_sessions := remove_from k c (ms_sessions s), ms_conns := remove_from c k (ms_conns s)\<rparr>)"

definition unsubscribe_all :: "string \<Rightarrow> message_subscribers \<Rightarrow> message_subscribers" where
  "unsubscribe_all connId s =
     (let c = trim connId in
      if c = [] then s
      else case map_of (ms_conns s) c of
        None \<Rightarrow> s
      | Some ks \<Rightarrow> s\<lparr>ms_sessions := fold (\<lambda>k. remove_from k c) ks (ms_sessions s),
                     ms_conns := AList.delete c (ms_conns s)\<rparr>)"

definition message_subscribers_of :: "string \<Rightarrow> message_subscribers \<Rightarrow> string list" where
  "message_subscribers_of sessionKey s =
     (if trim sessionKey = [] then [] else nullish (map_of (ms_sessions s) (trim sessionKey)) [])"

datatype subscriber_call =
    SubscribeMessages string string
  | UnsubscribeMessages string string
  | UnsubscribeAll string
  | ClearSubscribers

fun subscriber_step :: "subscriber_call \<Rightarrow> message_subscribers \<Rightarrow> message_subscribers" where
  "subscriber_step (SubscribeMessages c k) s = subscribe_messages c k s"
| "subscriber_step (UnsubscribeMessages c k) s = unsubscribe_messages c k s"
| "subscriber_step (UnsubscribeAll c) s = unsubscribe_all c s"
| "subscriber_step ClearSubscribers s = no_subscribers"

definition subscribers_after :: "subscriber_call list \<Rightarrow> message_subscribers" where
  "subscribers_after calls = fold subscriber_step calls no_subscribers"

section \<open>Recipients of tool events\<close>

definition TOOL_EVENT_RECIPIENT_TTL_MS :: int where "TOOL_EVENT_RECIPIENT_TTL_MS = 10 * 60 * 1000"
definition TOOL_EVENT_RECIPIENT_FINAL_GRACE_MS :: int where "TOOL_EVENT_RECIPIENT_FINAL_GRACE_MS = 30 * 1000"

record tool_recipients =
  tr_connIds :: "string list"
  tr_updatedAt :: int
  tr_finalizedAt :: "int option"

type_synonym recipient_table = "(string \<times> tool_recipients) list"

text \<open>A run is kept until its cutoff. The time zero counts as not finalized.\<close>

definition recipient_cutoff :: "tool_recipients \<Rightarrow> int" where
  "recipient_cutoff e = (case tr_finalizedAt e of
     Some t \<Rightarrow> if t \<noteq> 0 then t + TOOL_EVENT_RECIPIENT_FINAL_GRACE_MS else tr_updatedAt e + TOOL_EVENT_RECIPIENT_TTL_MS
   | None \<Rightarrow> tr_updatedAt e + TOOL_EVENT_RECIPIENT_TTL_MS)"

definition prune_recipients :: "int \<Rightarrow> recipient_table \<Rightarrow> recipient_table" where
  "prune_recipients now m = filter (\<lambda>(r, e). now < recipient_cutoff e) m"

definition add_recipient :: "int \<Rightarrow> string \<Rightarrow> string \<Rightarrow> recipient_table \<Rightarrow> recipient_table" where
  "add_recipient now runId connId m =
     (if runId = [] \<or> connId = [] then m
      else prune_recipients now (AList.update runId (case map_of m runId of
         Some e \<Rightarrow> e\<lparr>tr_connIds := set_add connId (tr_connIds e), tr_updatedAt := now\<rparr>
       | None \<Rightarrow> \<lparr>tr_connIds = [connId], tr_updatedAt = now, tr_finalizedAt = None\<rparr>) m))"

definition get_recipients :: "int \<Rightarrow> string \<Rightarrow> recipient_table \<Rightarrow> string list option \<times> recipient_table" where
  "get_recipients now runId m = (case map_of m runId of
     None \<Rightarrow> (None, m)
   | Some e \<Rightarrow> (Some (tr_connIds e), prune_recipients now (AList.update runId (e\<lparr>tr_updatedAt := now\<rparr>) m)))"

definition mark_final :: "int \<Rightarrow> string \<Rightarrow> recipient_table \<Rightarrow> recipient_table" where
  "mark_final now runId m = (case map_of m runId of
     None \<Rightarrow> m
   | Some e \<Rightarrow> prune_recipients now (AList.update runId (e\<lparr>tr_finalizedAt := Some now\<rparr>) m))"

section \<open>The two sides of the message subscriptions agree\<close>

text \<open>
  The connections under a session and the sessions under a connection are one relation, without
  blanks, empty sets or repetitions.
\<close>

definition listed :: "(string \<times> string list) list \<Rightarrow> string \<Rightarrow> string list" where
  "listed m k = nullish (map_of m k) []"

definition subscribers_ok :: "message_subscribers \<Rightarrow> bool" where
  "subscribers_ok s \<longleftrightarrow>
     (\<forall>c k. c \<in> set (listed (ms_sessions s) k) \<longleftrightarrow> k \<in> set (listed (ms_conns s) c))
     \<and> map_of (ms_conns s) [] = None
     \<and> (\<forall>k. map_of (ms_sessions s) k \<noteq> Some []) \<and> (\<forall>c. map_of (ms_conns s) c \<noteq> Some [])"

lemma set_add_set [simp]: "set (set_add x xs) = insert x (set xs)" "set_add x xs \<noteq> []"
  by (auto simp: set_add_def)

lemma listed_add: "set (listed (add_to k x m) j) = (if j = k then insert x (set (listed m k)) else set (listed m j))"
  by (simp add: listed_def add_to_def AList.update_conv')

lemma map_of_remove_from:
  "map_of (remove_from k x m) j = (if j = k \<and> removeAll x (listed m k) = [] then None
     else if j = k then Some (removeAll x (listed m k)) else map_of m j)"
  by (cases "map_of m k") (auto simp: remove_from_def listed_def AList.update_conv' AList.delete_conv')

lemma map_of_remove_other [simp]: "j \<noteq> k \<Longrightarrow> map_of (remove_from k x m) j = map_of m j"
  by (simp add: map_of_remove_from)

lemma listed_remove: "set (listed (remove_from k x m) j) = (if j = k then set (listed m k) - {x} else set (listed m j))"
proof -
  have "set (listed m k) - {x} = {}" if "removeAll x (listed m k) = []"
    using that by (metis list.set(1) set_removeAll)
  then show ?thesis
    by (auto simp: listed_def[of "remove_from k x m" j] map_of_remove_from listed_def[of m j])
qed

lemma map_of_add_other [simp]: "j \<noteq> k \<Longrightarrow> map_of (add_to k x m) j = map_of m j"
  by (simp add: add_to_def AList.update_conv')

lemma nonempty_add: "(\<forall>j. map_of m j \<noteq> Some []) \<Longrightarrow> map_of (add_to k x m) j \<noteq> Some []"
  by (simp add: add_to_def AList.update_conv')

lemma nonempty_remove: "(\<forall>j. map_of m j \<noteq> Some []) \<Longrightarrow> map_of (remove_from k x m) j \<noteq> Some []"
  by (simp add: map_of_remove_from)

lemma listed_remove_all:
  "set (listed (fold (\<lambda>k. remove_from k x) ks m) j) = (if j \<in> set ks then set (listed m j) - {x} else set (listed m j))"
  by (induction ks arbitrary: m) (auto simp: listed_remove)

lemma nonempty_remove_all:
  "(\<forall>j. map_of m j \<noteq> Some []) \<Longrightarrow> (\<forall>j. map_of (fold (\<lambda>k. remove_from k x) ks m) j \<noteq> Some [])"
  by (induction ks arbitrary: m) (simp_all add: nonempty_remove)

lemma subscribers_ok_step:
  assumes "subscribers_ok s"
  shows "subscribers_ok (subscriber_step a s)"
proof (cases a)
  case (SubscribeMessages c k)
  then show ?thesis using assms
    by (auto simp: subscribe_messages_def Let_def subscribers_ok_def listed_add nonempty_add)
next
  case (UnsubscribeMessages c k)
  then show ?thesis using assms
    by (auto simp: unsubscribe_messages_def Let_def subscribers_ok_def listed_remove nonempty_remove)
next
  case (UnsubscribeAll c)
  show ?thesis
  proof (cases "trim c = [] \<or> map_of (ms_conns s) (trim c) = None")
    case True
    then show ?thesis using assms UnsubscribeAll by (auto simp: unsubscribe_all_def Let_def)
  next
    case False
    then obtain ks where ks: "map_of (ms_conns s) (trim c) = Some ks" by blast
    have l: "listed (ms_conns s) (trim c) = ks" by (simp add: listed_def ks)
    have d: "listed (AList.delete (trim c) (ms_conns s)) j = (if j = trim c then [] else listed (ms_conns s) j)" for j
      by (simp add: listed_def AList.delete_conv')
    have n: "map_of (AList.delete (trim c) (ms_conns s)) j \<noteq> Some []" for j
      using assms by (simp add: subscribers_ok_def AList.delete_conv')
    have step: "unsubscribe_all c s = s\<lparr>ms_sessions := fold (\<lambda>k. remove_from k (trim c)) ks (ms_sessions s),
        ms_conns := AList.delete (trim c) (ms_conns s)\<rparr>" using False ks by (simp add: unsubscribe_all_def Let_def)
    show ?thesis
      using assms l nonempty_remove_all[of "ms_sessions s" "trim c" ks] n
      unfolding UnsubscribeAll subscriber_step.simps step subscribers_ok_def
      by (auto simp: listed_remove_all d AList.delete_conv')
  qed
qed (simp add: subscribers_ok_def no_subscribers_def listed_def)

lemma subscribers_ok_after: "subscribers_ok (subscribers_after calls)"
proof -
  have "subscribers_ok s \<Longrightarrow> subscribers_ok (fold subscriber_step calls s)" for s
    by (induction calls arbitrary: s) (simp_all add: subscribers_ok_step)
  then show ?thesis by (simp add: subscribers_after_def subscribers_ok_def no_subscribers_def listed_def)
qed

text \<open>
  The registration as the callers see it, without the tables: what a call says of a connection
  and a session, and the last call that says something.
\<close>

fun says :: "string \<Rightarrow> string \<Rightarrow> subscriber_call \<Rightarrow> bool option" where
  "says c k (SubscribeMessages connId sessionKey) = (if trim connId = c \<and> trim sessionKey = k then Some True else None)"
| "says c k (UnsubscribeMessages connId sessionKey) = (if trim connId = c \<and> trim sessionKey = k then Some False else None)"
| "says c k (UnsubscribeAll connId) = (if trim connId = c then Some False else None)"
| "says c k ClearSubscribers = Some False"

definition registered :: "subscriber_call list \<Rightarrow> string \<Rightarrow> string \<Rightarrow> bool" where
  "registered calls c k \<longleftrightarrow> c \<noteq> [] \<and> k \<noteq> [] \<and> fold (\<lambda>a b. nullish (says c k a) b) calls False"

lemma listed_all_step:
  assumes "subscribers_ok s"
  shows "c \<in> set (listed (ms_sessions (unsubscribe_all d s)) k) \<longleftrightarrow> c \<in> set (listed (ms_sessions s) k) \<and> (trim d = [] \<or> c \<noteq> trim d)"
proof (cases "trim d = [] \<or> map_of (ms_conns s) (trim d) = None")
  case True
  have "c \<notin> set (listed (ms_sessions s) k)" if "map_of (ms_conns s) c = None" for c
    using assms that by (auto simp: subscribers_ok_def listed_def[of "ms_conns s"])
  with True show ?thesis by (auto simp: unsubscribe_all_def Let_def)
next
  case False
  then obtain ks where ks: "map_of (ms_conns s) (trim d) = Some ks" by blast
  have "trim d \<in> set (listed (ms_sessions s) k) \<longleftrightarrow> k \<in> set ks"
    using assms ks by (simp add: subscribers_ok_def listed_def[of "ms_conns s"])
  then show ?thesis using False ks by (auto simp: unsubscribe_all_def Let_def listed_remove_all)
qed

lemma nobody_blank:
  assumes "subscribers_ok s" and "c \<in> set (listed (ms_sessions s) k)" shows "c \<noteq> []"
  using assms by (auto simp: subscribers_ok_def listed_def[of "ms_conns s"])

lemma listed_step:
  assumes "subscribers_ok s" and "c \<noteq> []" and "k \<noteq> []"
  shows "c \<in> set (listed (ms_sessions (subscriber_step a s)) k) \<longleftrightarrow> nullish (says c k a) (c \<in> set (listed (ms_sessions s) k))"
proof (cases a)
  case (SubscribeMessages d j)
  then show ?thesis using assms(2,3) by (auto simp: subscribe_messages_def Let_def listed_add)
next
  case (UnsubscribeMessages d j)
  then show ?thesis using assms(2,3) by (auto simp: unsubscribe_messages_def Let_def listed_remove)
next
  case (UnsubscribeAll d)
  then show ?thesis using listed_all_step[OF assms(1), of c d k] assms(2) by auto
qed (simp add: no_subscribers_def listed_def)

lemma listed_blank_step:
  assumes "listed (ms_sessions s) [] = []" and "subscribers_ok s"
  shows "listed (ms_sessions (subscriber_step a s)) [] = []"
proof (cases a)
  case (SubscribeMessages d j)
  then show ?thesis using assms(1) by (auto simp: subscribe_messages_def Let_def listed_def)
next
  case (UnsubscribeMessages d j)
  then show ?thesis using assms(1) by (auto simp: unsubscribe_messages_def Let_def listed_def)
next
  case (UnsubscribeAll d)
  have "set (listed (ms_sessions (unsubscribe_all d s)) []) = {}"
    using listed_all_step[OF assms(2), of _ d "[]"] assms(1) by (intro equals0I) simp
  then show ?thesis using UnsubscribeAll by (metis set_empty subscriber_step.simps(3))
qed (simp add: no_subscribers_def listed_def)

definition sessions_distinct :: "message_subscribers \<Rightarrow> bool" where
  "sessions_distinct s \<longleftrightarrow> (\<forall>k. distinct (listed (ms_sessions s) k))"

lemma distinct_set_add: "distinct xs \<Longrightarrow> distinct (set_add x xs)"
  by (simp add: set_add_def)

lemma distinct_add: "\<forall>k. distinct (listed m k) \<Longrightarrow> distinct (listed (add_to j x m) k)"
  using distinct_set_add[of "listed m j" x] by (simp add: listed_def add_to_def AList.update_conv')

lemma distinct_remove: "\<forall>k. distinct (listed m k) \<Longrightarrow> distinct (listed (remove_from j x m) k)"
  unfolding listed_def[of "remove_from j x m" k] map_of_remove_from
  by (auto simp: distinct_removeAll listed_def)

lemma distinct_remove_all: "\<forall>k. distinct (listed m k) \<Longrightarrow> \<forall>k. distinct (listed (fold (\<lambda>j. remove_from j x) js m) k)"
  by (induction js arbitrary: m) (simp_all add: distinct_remove)

lemma sessions_distinct_step: "sessions_distinct s \<Longrightarrow> sessions_distinct (subscriber_step a s)"
  by (cases a) (auto simp: sessions_distinct_def subscribe_messages_def unsubscribe_messages_def unsubscribe_all_def
      Let_def no_subscribers_def listed_def[of "[]"] distinct_add distinct_remove distinct_remove_all split: option.split)

lemma subscribers_after_registered:
  "c \<in> set (listed (ms_sessions (subscribers_after calls)) k) \<longleftrightarrow> registered calls c k"
proof (induction calls rule: rev_induct)
  case Nil
  then show ?case by (simp add: subscribers_after_def no_subscribers_def listed_def registered_def)
next
  case (snoc a calls)
  let ?s = "subscribers_after calls"
  have after: "subscribers_after (calls @ [a]) = subscriber_step a ?s" by (simp add: subscribers_after_def)
  have blank: "listed (ms_sessions (subscribers_after cs)) [] = []" for cs
  proof (induction cs rule: rev_induct)
    case (snoc b cs)
    then show ?case using listed_blank_step[OF _ subscribers_ok_after[of cs]] by (simp add: subscribers_after_def)
  qed (simp add: subscribers_after_def no_subscribers_def listed_def)
  show ?case
  proof (cases "c = [] \<or> k = []")
    case True
    then show ?thesis
      using nobody_blank[OF subscribers_ok_after, of c "calls @ [a]" k] blank[of "calls @ [a]"]
      by (auto simp: registered_def)
  next
    case False
    then show ?thesis
      using listed_step[OF subscribers_ok_after, of c k a calls] snoc
      by (simp add: after registered_def)
  qed
qed

lemma subscribers_after_distinct: "distinct (listed (ms_sessions (subscribers_after calls)) k)"
proof -
  have "sessions_distinct s \<Longrightarrow> sessions_distinct (fold subscriber_step calls s)" for s
    by (induction calls arbitrary: s) (simp_all add: sessions_distinct_step)
  then have "sessions_distinct (subscribers_after calls)"
    by (simp add: subscribers_after_def) (simp add: sessions_distinct_def no_subscribers_def listed_def)
  then show ?thesis by (simp add: sessions_distinct_def)
qed

text \<open>
  C20: after any calls a connection is told of a session's messages exactly when it is registered
  for the session, and once: when the last of the calls to subscribe the connection to the
  session, to unsubscribe it from the session, to unsubscribe it from all sessions and to clear
  the registry was the one that subscribes, names being read without the blanks around them and
  blank ones ignored. The sessions kept under the connection are the same registrations.
\<close>

theorem subscriptions_agree:
  "(c \<in> set (message_subscribers_of k (subscribers_after calls)) \<longleftrightarrow> registered calls c (trim k))
   \<and> distinct (message_subscribers_of k (subscribers_after calls))
   \<and> (j \<in> set (listed (ms_conns (subscribers_after calls)) c) \<longleftrightarrow> registered calls c j)"
  using subscribers_after_registered[of c calls "trim k"] subscribers_after_registered[of c calls j]
    subscribers_after_distinct[of calls "trim k"] subscribers_ok_after[of calls]
  by (auto simp: message_subscribers_of_def subscribers_ok_def listed_def[of "ms_sessions _" "trim k"] registered_def)

end
