(* ===== verification/AgentEvents.thy ===== *)
theory AgentEvents
  imports JsValue OpenClawText
begin

text \<open>
  The events that OpenClaw's agents report (openclaw/src/infra/agent-events.ts): what is known of a
  run, the numbers its events get, and the sweep of runs that are no longer heard of. The
  listeners are modelled where they are registered (ServerChat).
\<close>

record agent_event =
  ae_runId :: string
  ae_seq :: nat
  ae_stream :: string
  ae_ts :: int
  ae_data :: entries
  ae_sessionKey :: "string option"

record run_context =
  xc_sessionKey :: "string option"
  xc_verboseLevel :: "string option"
  xc_isHeartbeat :: "bool option"
  xc_isControlUiVisible :: "bool option"
  xc_registeredAt :: "int option"
  xc_lastActiveAt :: "int option"

record agent_events =
  ag_seqByRun :: "(string \<times> nat) list"
  ag_runContextById :: "(string \<times> run_context) list"

definition no_agent_events :: agent_events where
  "no_agent_events = \<lparr>ag_seqByRun = [], ag_runContextById = []\<rparr>"

definition merge_context :: "run_context \<Rightarrow> run_context \<Rightarrow> run_context" where
  "merge_context context existing = existing\<lparr>
     xc_sessionKey := (if truthy_string (xc_sessionKey context) then xc_sessionKey context else xc_sessionKey existing),
     xc_verboseLevel := (if truthy_string (xc_verboseLevel context) then xc_verboseLevel context else xc_verboseLevel existing),
     xc_isControlUiVisible := (if xc_isControlUiVisible context \<noteq> None then xc_isControlUiVisible context
       else xc_isControlUiVisible existing),
     xc_isHeartbeat := (if xc_isHeartbeat context \<noteq> None then xc_isHeartbeat context else xc_isHeartbeat existing)\<rparr>"

definition registerAgentRunContext :: "int \<Rightarrow> string \<Rightarrow> run_context \<Rightarrow> agent_events \<Rightarrow> agent_events" where
  "registerAgentRunContext now runId context s =
     (if runId = [] then s
      else s\<lparr>ag_runContextById := AList.update runId
        (case map_of (ag_runContextById s) runId of
           None \<Rightarrow> context\<lparr>xc_registeredAt := Some (nullish (xc_registeredAt context) now)\<rparr>
         | Some existing \<Rightarrow> merge_context context existing) (ag_runContextById s)\<rparr>)"

definition getAgentRunContext :: "string \<Rightarrow> agent_events \<Rightarrow> run_context option" where
  "getAgentRunContext runId s = map_of (ag_runContextById s) runId"

definition clearAgentRunContext :: "string \<Rightarrow> agent_events \<Rightarrow> agent_events" where
  "clearAgentRunContext runId s = s\<lparr>ag_runContextById := AList.delete runId (ag_runContextById s),
     ag_seqByRun := AList.delete runId (ag_seqByRun s)\<rparr>"

text \<open>A run is stale when it was last heard of, or else registered, more than \<open>maxAgeMs\<close> ago.\<close>

definition stale_context :: "int \<Rightarrow> int \<Rightarrow> run_context \<Rightarrow> bool" where
  "stale_context now maxAgeMs x = (case nullish_opt (xc_lastActiveAt x) (xc_registeredAt x) of
     None \<Rightarrow> True | Some t \<Rightarrow> t = 0 \<or> now - t > maxAgeMs)"

definition sweepStaleRunContexts :: "int \<Rightarrow> int \<Rightarrow> agent_events \<Rightarrow> agent_events" where
  "sweepStaleRunContexts now maxAgeMs s = fold (\<lambda>(runId, x) s.
     if stale_context now maxAgeMs x then clearAgentRunContext runId s else s) (ag_runContextById s) s"

text \<open>The event with its number, its time and its session, for the listeners.\<close>

definition emitAgentEvent :: "int \<Rightarrow> string \<Rightarrow> string \<Rightarrow> entries \<Rightarrow> string option \<Rightarrow> agent_events
  \<Rightarrow> agent_event \<times> agent_events" where
  "emitAgentEvent now runId stream data sessionKey s =
     (let nextSeq = nullish (map_of (ag_seqByRun s) runId) 0 + 1;
          context = map_of (ag_runContextById s) runId;
          isControlUiVisible = nullish (Option.bind context xc_isControlUiVisible) True;
          eventSessionKey = (case sessionKey of Some k \<Rightarrow> if trim k \<noteq> [] then Some k else None | None \<Rightarrow> None)
      in (\<lparr>ae_runId = runId, ae_seq = nextSeq, ae_stream = stream, ae_ts = now, ae_data = data,
           ae_sessionKey = (if isControlUiVisible then nullish_opt eventSessionKey (Option.bind context xc_sessionKey) else None)\<rparr>,
          s\<lparr>ag_seqByRun := AList.update runId nextSeq (ag_seqByRun s),
            ag_runContextById := (case context of
                None \<Rightarrow> ag_runContextById s
              | Some x \<Rightarrow> AList.update runId (x\<lparr>xc_lastActiveAt := Some now\<rparr>) (ag_runContextById s))\<rparr>))"

text \<open>The reports of items, plans, approvals, command output and patches.\<close>

definition emitAgentStream :: "string \<Rightarrow> int \<Rightarrow> string \<Rightarrow> entries \<Rightarrow> string option \<Rightarrow> agent_events
  \<Rightarrow> agent_event \<times> agent_events" where
  "emitAgentStream stream now runId data sessionKey =
     emitAgentEvent now runId stream data (if truthy_string sessionKey then sessionKey else None)"

definition emitAgentItemEvent where "emitAgentItemEvent = emitAgentStream ''item''"
definition emitAgentPlanEvent where "emitAgentPlanEvent = emitAgentStream ''plan''"
definition emitAgentApprovalEvent where "emitAgentApprovalEvent = emitAgentStream ''approval''"
definition emitAgentCommandOutputEvent where "emitAgentCommandOutputEvent = emitAgentStream ''command_output''"
definition emitAgentPatchSummaryEvent where "emitAgentPatchSummaryEvent = emitAgentStream ''patch''"

lemma emit_seq:
  "map_of (ag_seqByRun (snd (emitAgentEvent now r st d k s))) q
     = (if q = r then Some (ae_seq (fst (emitAgentEvent now r st d k s))) else map_of (ag_seqByRun s) q)"
  by (simp add: emitAgentEvent_def Let_def AList.update_conv')

lemma emit_fields [simp]:
  "ae_runId (fst (emitAgentEvent now r st d k s)) = r" "ae_stream (fst (emitAgentEvent now r st d k s)) = st"
  "ae_data (fst (emitAgentEvent now r st d k s)) = d"
  "ae_seq (fst (emitAgentEvent now r st d k s)) = Suc (nullish (map_of (ag_seqByRun s) r) 0)"
  by (simp_all add: emitAgentEvent_def Let_def)

lemma clear_seq: "map_of (ag_seqByRun (clearAgentRunContext r s)) q = (if q = r then None else map_of (ag_seqByRun s) q)"
  by (simp add: clearAgentRunContext_def AList.delete_conv')

end
