(* ===== verification/SessionLifecycle.thy ===== *)
theory SessionLifecycle
  imports AgentEvents
begin

text \<open>
  How a lifecycle event of a run changes the row of its session
  (openclaw/src/gateway/session-lifecycle-state.ts). A row is the list of its fields; a field
  without a value is missing.
\<close>

datatype lifecycle_kind = LifecycleStart | LifecycleEnd | LifecycleError

definition isFiniteTimestamp :: "jsval \<Rightarrow> rat option" where
  "isFiniteTimestamp v = (case as_finite v of Some q \<Rightarrow> if 0 < q then Some q else None | None \<Rightarrow> None)"

definition resolveLifecyclePhase :: "agent_event \<Rightarrow> lifecycle_kind option" where
  "resolveLifecyclePhase e = (case as_str (map_of (ae_data e) ''phase'') of
     None \<Rightarrow> None
   | Some p \<Rightarrow> if p = ''start'' then Some LifecycleStart else if p = ''end'' then Some LifecycleEnd
              else if p = ''error'' then Some LifecycleError else None)"

definition resolveTerminalStatus :: "agent_event \<Rightarrow> string" where
  "resolveTerminalStatus e =
     (if resolveLifecyclePhase e = Some LifecycleError then ''failed''
      else if as_str (map_of (ae_data e) ''stopReason'') = Some ''aborted'' then ''killed''
      else if map_of (ae_data e) ''aborted'' = Some (JBool True) then ''timeout'' else ''done'')"

definition resolveLifecycleStartedAt :: "jsval \<Rightarrow> agent_event \<Rightarrow> rat option" where
  "resolveLifecycleStartedAt existing e =
     nullish_opt (isFiniteTimestamp (map_of (ae_data e) ''startedAt''))
       (nullish_opt (isFiniteTimestamp existing) (isFiniteTimestamp (Some (js_int (ae_ts e)))))"

definition resolveLifecycleEndedAt :: "agent_event \<Rightarrow> rat option" where
  "resolveLifecycleEndedAt e =
     nullish_opt (isFiniteTimestamp (map_of (ae_data e) ''endedAt'')) (isFiniteTimestamp (Some (js_int (ae_ts e))))"

definition resolveRuntimeMs :: "rat option \<Rightarrow> rat option \<Rightarrow> jsval \<Rightarrow> rat option" where
  "resolveRuntimeMs startedAt endedAt existing = (case (startedAt, endedAt) of
     (Some a, Some b) \<Rightarrow> Some (max 0 (b - a))
   | _ \<Rightarrow> (case as_finite existing of Some q \<Rightarrow> if 0 \<le> q then Some q else None | None \<Rightarrow> None))"

definition js_rat :: "rat option \<Rightarrow> jsval" where
  "js_rat q = map_option (\<lambda>q. JNum (Fin q)) q"

definition lifecycle_snapshot :: "jsval \<Rightarrow> string \<Rightarrow> rat option \<Rightarrow> rat option \<Rightarrow> rat option \<Rightarrow> bool \<Rightarrow> (string \<times> jsval) list" where
  "lifecycle_snapshot updatedAt status startedAt endedAt runtimeMs aborted =
     [(''updatedAt'', updatedAt), (''status'', Some (JStr status)), (''startedAt'', js_rat startedAt),
      (''endedAt'', js_rat endedAt), (''runtimeMs'', js_rat runtimeMs), (''abortedLastRun'', Some (JBool aborted))]"

text \<open>The session's fields after the event; the empty list when the event is none of the three.\<close>

definition deriveGatewaySessionLifecycleSnapshot :: "entries \<Rightarrow> agent_event \<Rightarrow> (string \<times> jsval) list" where
  "deriveGatewaySessionLifecycleSnapshot session e =
     (let startedAt = resolveLifecycleStartedAt (map_of session ''startedAt'') e in
      case resolveLifecyclePhase e of
        None \<Rightarrow> []
      | Some LifecycleStart \<Rightarrow>
          lifecycle_snapshot (js_nullish (js_rat startedAt) (map_of session ''updatedAt'')) ''running'' startedAt None None False
      | Some p \<Rightarrow>
          (let endedAt = resolveLifecycleEndedAt e in
           lifecycle_snapshot (js_nullish (js_rat endedAt) (map_of session ''updatedAt'')) (resolveTerminalStatus e) startedAt
             endedAt (resolveRuntimeMs startedAt endedAt (map_of session ''runtimeMs''))
             (resolveTerminalStatus e = ''killed'')))"

definition derivePersistedSessionLifecyclePatch :: "entries \<Rightarrow> agent_event \<Rightarrow> (string \<times> jsval) list" where
  "derivePersistedSessionLifecyclePatch entry e =
     (let snapshot = deriveGatewaySessionLifecycleSnapshot entry e in
      (''updatedAt'', case map_of snapshot ''updatedAt'' of Some (Some (JNum n)) \<Rightarrow> Some (JNum n) | _ \<Rightarrow> None)
        # filter (\<lambda>(k, v). k \<noteq> ''updatedAt'') snapshot)"

text \<open>A terminal event leaves the session terminal, with a duration that is not negative.\<close>

lemma terminal_status:
  "resolveTerminalStatus e \<in> {''failed'', ''killed'', ''timeout'', ''done''}"
  by (simp add: resolveTerminalStatus_def)

lemma runtime_nonneg:
  assumes "resolveRuntimeMs a b x = Some q"
  shows "0 \<le> q"
  using assms by (auto simp: resolveRuntimeMs_def split: option.splits if_splits)

lemma lifecycle_row:
  assumes "resolveLifecyclePhase e \<noteq> None"
  obtains u st sa ea rt ab where "deriveGatewaySessionLifecycleSnapshot row e = lifecycle_snapshot u st sa ea rt ab"
    and "st = (if resolveLifecyclePhase e = Some LifecycleStart then ''running'' else resolveTerminalStatus e)"
    and "\<And>q. rt = Some q \<Longrightarrow> 0 \<le> q"
proof (cases "resolveLifecyclePhase e = Some LifecycleStart")
  case True
  then show thesis
    by (intro that[of "js_nullish (js_rat (resolveLifecycleStartedAt (map_of row ''startedAt'') e)) (map_of row ''updatedAt'')"
        "''running''" "resolveLifecycleStartedAt (map_of row ''startedAt'') e" None None False])
      (simp_all add: deriveGatewaySessionLifecycleSnapshot_def Let_def)
next
  case False
  then obtain p where p: "resolveLifecyclePhase e = Some p" "p = LifecycleEnd \<or> p = LifecycleError"
    using assms by (cases "resolveLifecyclePhase e") (auto, metis lifecycle_kind.exhaust)
  show thesis
    by (rule that) (use p runtime_nonneg in \<open>auto simp: deriveGatewaySessionLifecycleSnapshot_def Let_def\<close>)
qed

end
