(* ===== verification/ActFrames.thy ===== *)
theory ActFrames
  imports Effects
begin

text \<open>
  Rules for event handlers: what part of the state a handler leaves alone (\<open>frame\<close>), what it
  keeps true and which effects it does not have (\<open>guard\<close>), and how many effects of a kind it
  may have for what it was given (\<open>budget\<close>).
\<close>

section \<open>Frames\<close>

lemma fold_same: "(\<And>x s. f (g x s) = f s) \<Longrightarrow> f (fold g xs s) = f s"
  by (induction xs arbitrary: s) simp_all

locale frame =
  fixes view :: "'s \<Rightarrow> 'v"
begin

definition framed :: "('s, 'e) act \<Rightarrow> bool" where
  "framed a \<longleftrightarrow> (\<forall>s. view (fst (a s)) = view s)"

lemma framedD: "framed a \<Longrightarrow> view (fst (a s)) = view s"
  by (simp add: framed_def)

lemma framed_skip [simp]: "framed skip"
  by (simp add: framed_def)

lemma framed_emit [simp]: "framed (emit es)"
  by (simp add: framed_def)

lemma framed_update: "(\<And>s. view (f s) = view s) \<Longrightarrow> framed (update f)"
  by (simp add: framed_def)

lemma framed_seq [simp]: "framed a \<Longrightarrow> framed b \<Longrightarrow> framed (seq a b)"
  by (simp add: framed_def)

lemma framed_with_state: "(\<And>s. framed (k s)) \<Longrightarrow> framed (with_state k)"
  by (simp add: framed_def)

end

section \<open>Guards\<close>

text \<open>
  \<open>kept\<close>: the handler keeps \<open>ok\<close>; \<open>mute\<close>: it has no bad effect; \<open>hushed\<close>: it has none where
  \<open>ok\<close> holds.
\<close>

locale guard =
  fixes ok :: "'s \<Rightarrow> bool" and bad :: "'e \<Rightarrow> bool"
begin

definition kept :: "('s, 'e) act \<Rightarrow> bool" where
  "kept a \<longleftrightarrow> (\<forall>s. ok s \<longrightarrow> ok (fst (a s)))"

definition mute :: "('s, 'e) act \<Rightarrow> bool" where
  "mute a \<longleftrightarrow> (\<forall>s. \<forall>e \<in> set (snd (a s)). \<not> bad e)"

definition hushed :: "('s, 'e) act \<Rightarrow> bool" where
  "hushed a \<longleftrightarrow> (\<forall>s. ok s \<longrightarrow> (\<forall>e \<in> set (snd (a s)). \<not> bad e))"

lemma kept_skip [simp]: "kept skip"
  by (simp add: kept_def)

lemma kept_emit [simp]: "kept (emit es)"
  by (simp add: kept_def)

lemma kept_update: "(\<And>s. ok s \<Longrightarrow> ok (f s)) \<Longrightarrow> kept (update f)"
  by (simp add: kept_def)

lemma kept_seq [simp]: "kept a \<Longrightarrow> kept b \<Longrightarrow> kept (seq a b)"
  by (simp add: kept_def)

lemma kept_with_state: "(\<And>s. ok s \<Longrightarrow> kept (k s)) \<Longrightarrow> kept (with_state k)"
  by (simp add: kept_def)

lemma kept_for_each: "(\<And>x. x \<in> set xs \<Longrightarrow> kept (f x)) \<Longrightarrow> kept (for_each f xs)"
  by (induction xs) simp_all

lemma mute_skip [simp]: "mute skip"
  by (simp add: mute_def)

lemma mute_update [simp]: "mute (update f)"
  by (simp add: mute_def)

lemma mute_emit: "(\<And>e. e \<in> set es \<Longrightarrow> \<not> bad e) \<Longrightarrow> mute (emit es)"
  by (simp add: mute_def)

lemma mute_seq [simp]: "mute a \<Longrightarrow> mute b \<Longrightarrow> mute (seq a b)"
  by (auto simp: mute_def)

lemma mute_with_state: "(\<And>s. mute (k s)) \<Longrightarrow> mute (with_state k)"
  by (simp add: mute_def)

lemma mute_for_each: "(\<And>x. x \<in> set xs \<Longrightarrow> mute (f x)) \<Longrightarrow> mute (for_each f xs)"
  by (induction xs) simp_all

lemma mute_hushed: "mute a \<Longrightarrow> hushed a"
  by (simp add: mute_def hushed_def)

lemma hushed_seq: "hushed a \<Longrightarrow> kept a \<Longrightarrow> hushed b \<Longrightarrow> hushed (seq a b)"
  by (auto simp: hushed_def kept_def)

lemma hushed_with_state: "(\<And>s. ok s \<Longrightarrow> hushed (k s)) \<Longrightarrow> hushed (with_state k)"
  by (simp add: hushed_def)

end

section \<open>Budgets\<close>

text \<open>\<open>held s\<close> effects may still come from what state \<open>s\<close> has in hand; a handler adds at most \<open>k\<close>.\<close>

locale budget =
  fixes held :: "'s \<Rightarrow> nat" and spent :: "'e \<Rightarrow> nat"
begin

definition total :: "'e list \<Rightarrow> nat" where
  "total es = sum_list (map spent es)"

definition within :: "nat \<Rightarrow> ('s, 'e) act \<Rightarrow> bool" where
  "within k a \<longleftrightarrow> (\<forall>s. held (fst (a s)) + total (snd (a s)) \<le> held s + k)"

lemma total_append [simp]: "total [] = 0" "total (x # xs) = spent x + total xs" "total (xs @ ys) = total xs + total ys"
  by (simp_all add: total_def)

lemma within_skip [simp]: "within 0 skip"
  by (simp add: within_def)

lemma within_update: "(\<And>s. held (f s) \<le> held s) \<Longrightarrow> within 0 (update f)"
  by (simp add: within_def)

lemma within_emit: "total es \<le> k \<Longrightarrow> within k (emit es)"
  by (simp add: within_def)

lemma within_mono: "within j a \<Longrightarrow> j \<le> k \<Longrightarrow> within k a"
  unfolding within_def by (meson add_left_mono order.trans)

lemma within_seq:
  assumes "within i a" and "within j b" and "i + j \<le> k"
  shows "within k (seq a b)"
proof -
  have "held (fst (b (fst (a s)))) + (total (snd (a s)) + total (snd (b (fst (a s))))) \<le> held s + k" for s
    using assms(1)[unfolded within_def, rule_format, of s] assms(2)[unfolded within_def, rule_format, of "fst (a s)"] assms(3)
    by linarith
  then show ?thesis by (simp add: within_def)
qed

lemma within_seq0: "within 0 a \<Longrightarrow> within k b \<Longrightarrow> within k (seq a b)" "within k a \<Longrightarrow> within 0 b \<Longrightarrow> within k (seq a b)"
  by (auto intro: within_seq)

lemma within_with_state: "(\<And>s. within k (f s)) \<Longrightarrow> within k (with_state f)"
  by (simp add: within_def)

lemma within_if: "within k a \<Longrightarrow> within k b \<Longrightarrow> within k (if c then a else b)"
  by simp

lemma within_option: "within k a \<Longrightarrow> (\<And>x. within k (f x)) \<Longrightarrow> within k (case v of None \<Rightarrow> a | Some x \<Rightarrow> f x)"
  by (cases v) simp_all

lemma within_one: "within 0 a \<Longrightarrow> within 1 a"
  by (erule within_mono) simp

lemma within_each: "(\<And>x. within 0 (f x)) \<Longrightarrow> within 0 (for_each f xs)"
  by (induction xs) (auto intro: within_seq0)

lemma within_for_each: "(\<And>x. x \<in> set xs \<Longrightarrow> within (k x) (f x)) \<Longrightarrow> within (sum_list (map k xs)) (for_each f xs)"
  by (induction xs) (auto intro: within_seq)

end

end
