(* ===== verification/ServerChat.thy ===== *)
theory ServerChat
  imports Effects JsonText ReplyText ChatRegistries SessionLifecycle
begin

text \<open>
  How OpenClaw's gateway turns the events of its agents into chat events
  (openclaw/src/gateway/server-chat.ts), how a run is aborted (gateway/chat-abort.ts), what the
  periodic sweep takes away (gateway/server-maintenance.ts) and what \<open>chat.send\<close> and \<open>chat.inject\<close>
  tell the chats themselves (gateway/server-methods/chat.ts). Stored state, the configuration and
  other code of the gateway are read through an environment; the clock stands still during one
  event. Times of \<open>setTimeout\<close> are numbered timers.
\<close>

section \<open>State\<close>

record abort_entry =
  ab_sessionKey :: string
  ab_expiresAtMs :: int

record chat_server =
  ch_registry :: chat_run_registry
  ch_rawBuffers :: "(string \<times> string) list"
  ch_buffers :: "(string \<times> string) list"
  ch_deltaSentAt :: "(string \<times> int) list"
  ch_deltaLastBroadcastLen :: "(string \<times> nat) list"
  ch_abortedRuns :: "(string \<times> int) list"
  ch_agentRunSeq :: "(string \<times> nat) list"
  ch_recipients :: recipient_table
  ch_subscribers :: "string list"
  ch_pendingErrors :: "(string \<times> nat) list"
  ch_timers :: "(nat \<times> agent_event \<times> bool) list"
  ch_timerCount :: nat
  ch_agents :: agent_events
  ch_aborts :: "(string \<times> abort_entry) list"

definition new_chat_server :: chat_server where
  "new_chat_server = \<lparr>ch_registry = [], ch_rawBuffers = [], ch_buffers = [], ch_deltaSentAt = [],
     ch_deltaLastBroadcastLen = [], ch_abortedRuns = [], ch_agentRunSeq = [], ch_recipients = [], ch_subscribers = [],
     ch_pendingErrors = [], ch_timers = [], ch_timerCount = 0, ch_agents = no_agent_events, ch_aborts = []\<rparr>"

text \<open>
  What an event reads from outside: the clock, whether the configuration shows heartbeats (none
  when it cannot be read), the stored row of a session, the session of a run, the verbose levels of
  a session and the default (none when they cannot be read), Unicode's letters and numbers, what
  is left of a heartbeat's reply, the kind and the text of an error, the grace for errors, and what is
  left of a message without the envelope of its channel (gateway/chat-sanitize.ts).
\<close>

record chat_env =
  ce_now :: int
  ce_showOk :: "bool option"
  ce_row :: "string \<Rightarrow> entries option"
  ce_sessionForRun :: "string \<Rightarrow> string option"
  ce_verbose :: "string \<Rightarrow> (string option \<times> string option) option"
  ce_word :: "string \<Rightarrow> bool"
  ce_heartbeat :: "string \<Rightarrow> bool \<times> bool \<times> string"
  ce_errorKind :: "jsval \<Rightarrow> string option"
  ce_formatForLog :: "json \<Rightarrow> string"
  ce_graceMs :: int
  ce_stripEnvelope :: "json \<Rightarrow> json"

datatype chat_effect =
    Broadcast string json bool
  | BroadcastTo string json "string list" bool
  | NodeSend string string json
  | PersistLifecycle string agent_event
  | SetChatTimer nat int
  | ClearChatTimer nat
  | AbortSignal string

type_synonym chat_act = "(chat_server, chat_effect) act"

section \<open>Texts\<close>

text \<open>\<open>length\<close> of a text: its UTF-16 units.\<close>

definition utf16_length :: "string \<Rightarrow> nat" where
  "utf16_length s = sum_list (map (\<lambda>c. let n = of_char c :: nat in
     if 128 \<le> n \<and> n < 192 then 0 else if 240 \<le> n then 2 else 1) s)"

fun overlap_append :: "nat \<Rightarrow> string \<Rightarrow> string \<Rightarrow> string" where
  "overlap_append 0 base suffix = base @ suffix"
| "overlap_append (Suc k) base suffix =
     (if drop (length base - Suc k) base = take (Suc k) suffix then base @ drop (Suc k) suffix
      else overlap_append k base suffix)"

definition ends_with :: "string \<Rightarrow> string \<Rightarrow> bool" where
  "ends_with base suffix \<longleftrightarrow> length suffix \<le> length base \<and> drop (length base - length suffix) base = suffix"

definition appendUniqueSuffix :: "string \<Rightarrow> string \<Rightarrow> string" where
  "appendUniqueSuffix base suffix =
     (if suffix = [] then base else if base = [] then suffix
      else if ends_with base suffix then base
      else overlap_append (min (length base) (length suffix)) base suffix)"

definition starts_with :: "string \<Rightarrow> string \<Rightarrow> bool" where
  "starts_with s p \<longleftrightarrow> take (length p) s = p"

definition resolveMergedAssistantText :: "string \<Rightarrow> string \<Rightarrow> string \<Rightarrow> string" where
  "resolveMergedAssistantText previousText nextText nextDelta =
     (if nextText \<noteq> [] \<and> previousText \<noteq> [] \<and> starts_with nextText previousText then nextText
      else if nextText \<noteq> [] \<and> previousText \<noteq> [] \<and> starts_with previousText nextText \<and> nextDelta = [] then previousText
      else if nextDelta \<noteq> [] then appendUniqueSuffix previousText nextDelta
      else if nextText \<noteq> [] then nextText
      else previousText)"

section \<open>Heartbeats\<close>

definition is_heartbeat :: "run_context option \<Rightarrow> bool" where
  "is_heartbeat x \<longleftrightarrow> Option.bind x xc_isHeartbeat = Some True"

definition resolveHeartbeatContext :: "agent_events \<Rightarrow> string \<Rightarrow> string \<Rightarrow> run_context option" where
  "resolveHeartbeatContext ag runId sourceRunId =
     (if is_heartbeat (getAgentRunContext runId ag) then getAgentRunContext runId ag
      else if sourceRunId \<noteq> [] \<and> sourceRunId \<noteq> runId \<and> is_heartbeat (getAgentRunContext sourceRunId ag)
      then getAgentRunContext sourceRunId ag
      else getAgentRunContext runId ag)"

definition shouldHideHeartbeatChatOutput :: "chat_env \<Rightarrow> agent_events \<Rightarrow> string \<Rightarrow> string \<Rightarrow> bool" where
  "shouldHideHeartbeatChatOutput env ag runId sourceRunId \<longleftrightarrow>
     is_heartbeat (resolveHeartbeatContext ag runId sourceRunId)
     \<and> (case ce_showOk env of Some shown \<Rightarrow> \<not> shown | None \<Rightarrow> True)"

definition normalizeHeartbeatChatFinalText :: "chat_env \<Rightarrow> agent_events \<Rightarrow> string \<Rightarrow> string \<Rightarrow> string \<Rightarrow> bool \<times> string" where
  "normalizeHeartbeatChatFinalText env ag runId sourceRunId text =
     (if \<not> shouldHideHeartbeatChatOutput env ag runId sourceRunId then (False, text)
      else (case ce_heartbeat env text of (didStrip, shouldSkip, stripped) \<Rightarrow>
        if \<not> didStrip then (False, text) else if shouldSkip then (True, []) else (False, stripped)))"

section \<open>Chat events\<close>

definition text_message :: "string \<Rightarrow> int \<Rightarrow> json" where
  "text_message text now = JObj [(''role'', JStr ''assistant''),
     (''content'', JArr [JObj [(''type'', JStr ''text''), (''text'', JStr text)]]), (''timestamp'', js_int now)]"

definition chat_payload :: "string \<Rightarrow> string \<Rightarrow> nat \<Rightarrow> string \<Rightarrow> (string \<times> jsval) list \<Rightarrow> json" where
  "chat_payload runId sessionKey n st more_fields =
     mk_obj ([(''runId'', Some (JStr runId)), (''sessionKey'', Some (JStr sessionKey)),
       (''seq'', Some (js_int (int n))), (''state'', Some (JStr st))] @ more_fields)"

definition send_chat :: "string \<Rightarrow> json \<Rightarrow> bool \<Rightarrow> chat_act" where
  "send_chat sessionKey payload dropIfSlow = emit [Broadcast ''chat'' payload dropIfSlow, NodeSend sessionKey ''chat'' payload]"

definition send_delta :: "chat_env \<Rightarrow> string \<Rightarrow> string \<Rightarrow> nat \<Rightarrow> string \<Rightarrow> chat_act" where
  "send_delta env sessionKey clientRunId n text = seq
     (update (\<lambda>s. s\<lparr>ch_deltaSentAt := AList.update clientRunId (ce_now env) (ch_deltaSentAt s),
        ch_deltaLastBroadcastLen := AList.update clientRunId (utf16_length text) (ch_deltaLastBroadcastLen s)\<rparr>))
     (send_chat sessionKey (chat_payload clientRunId sessionKey n ''delta''
        [(''message'', Some (text_message text (ce_now env)))]) True)"

definition set_buffer :: "string \<Rightarrow> string \<Rightarrow> chat_act" where
  "set_buffer clientRunId text = update (\<lambda>s. s\<lparr>ch_buffers := AList.update clientRunId text (ch_buffers s)\<rparr>)"

definition throttled_delta :: "chat_env \<Rightarrow> string \<Rightarrow> string \<Rightarrow> string \<Rightarrow> nat \<Rightarrow> string \<Rightarrow> chat_act" where
  "throttled_delta env sessionKey clientRunId sourceRunId n text = with_state (\<lambda>s.
     if isSuppressedControlReplyText text \<or> isSuppressedControlReplyLeadFragment text
        \<or> shouldHideHeartbeatChatOutput env (ch_agents s) clientRunId sourceRunId
        \<or> ce_now env - nullish (map_of (ch_deltaSentAt s) clientRunId) 0 < 150
     then skip else send_delta env sessionKey clientRunId n text)"

definition visible_text :: "chat_env \<Rightarrow> string \<Rightarrow> string" where
  "visible_text env merged = (if startsWithSilentToken (ce_word env) merged SILENT_REPLY_TOKEN
     then stripLeadingSilentToken merged SILENT_REPLY_TOKEN else merged)"

definition emitChatDelta :: "chat_env \<Rightarrow> string \<Rightarrow> string \<Rightarrow> string \<Rightarrow> nat \<Rightarrow> string \<Rightarrow> jsval \<Rightarrow> chat_act" where
  "emitChatDelta env sessionKey clientRunId sourceRunId n text delta = with_state (\<lambda>s.
     let cleanedDelta = (case as_str delta of Some d \<Rightarrow> stripInlineDirectiveTagsForDisplay d | None \<Rightarrow> []);
         merged = resolveMergedAssistantText (nullish (map_of (ch_rawBuffers s) clientRunId) [])
           (stripInlineDirectiveTagsForDisplay text) cleanedDelta in
     if merged = [] then skip
     else seq (update (\<lambda>s. s\<lparr>ch_rawBuffers := AList.update clientRunId merged (ch_rawBuffers s)\<rparr>))
       (if isSuppressedControlReplyText merged then set_buffer clientRunId []
        else if isSuppressedControlReplyLeadFragment merged then set_buffer clientRunId merged
        else seq (set_buffer clientRunId (visible_text env merged))
          (throttled_delta env sessionKey clientRunId sourceRunId n (visible_text env merged))))"

definition resolveBufferedChatTextState :: "chat_env \<Rightarrow> chat_server \<Rightarrow> string \<Rightarrow> string \<Rightarrow> string \<times> bool" where
  "resolveBufferedChatTextState env s clientRunId sourceRunId =
     (let bufferedText = trim (stripInlineDirectiveTagsForDisplay (nullish (map_of (ch_buffers s) clientRunId) []));
          (suppress, normalized) = normalizeHeartbeatChatFinalText env (ch_agents s) clientRunId sourceRunId bufferedText;
          text = trim normalized
      in (text, suppress \<or> isSuppressedControlReplyText text))"

definition flushBufferedChatDeltaIfNeeded :: "chat_env \<Rightarrow> string \<Rightarrow> string \<Rightarrow> string \<Rightarrow> nat \<Rightarrow> chat_act" where
  "flushBufferedChatDeltaIfNeeded env sessionKey clientRunId sourceRunId n = with_state (\<lambda>s.
     case resolveBufferedChatTextState env s clientRunId sourceRunId of (text, silent) \<Rightarrow>
       if text = [] \<or> silent \<or> isSuppressedControlReplyLeadFragment text
          \<or> shouldHideHeartbeatChatOutput env (ch_agents s) clientRunId sourceRunId
          \<or> utf16_length text \<le> nullish (map_of (ch_deltaLastBroadcastLen s) clientRunId) 0
       then skip else send_delta env sessionKey clientRunId n text)"

definition clearBufferedChatState :: "string \<Rightarrow> chat_act" where
  "clearBufferedChatState clientRunId = update (\<lambda>s. s\<lparr>
     ch_rawBuffers := AList.delete clientRunId (ch_rawBuffers s), ch_buffers := AList.delete clientRunId (ch_buffers s),
     ch_deltaSentAt := AList.delete clientRunId (ch_deltaSentAt s),
     ch_deltaLastBroadcastLen := AList.delete clientRunId (ch_deltaLastBroadcastLen s)\<rparr>)"

definition CHAT_ERROR_KINDS :: "string list" where
  "CHAT_ERROR_KINDS = [''refusal'', ''timeout'', ''rate_limit'', ''context_length'', ''unknown'']"

definition readChatErrorKind :: "jsval \<Rightarrow> string option" where
  "readChatErrorKind v = (case as_str v of Some k \<Rightarrow> if k \<in> set CHAT_ERROR_KINDS then Some k else None | None \<Rightarrow> None)"

definition optional_text :: "string option \<Rightarrow> jsval" where
  "optional_text v = (if truthy_string v then map_option JStr v else None)"

definition emitChatFinal :: "chat_env \<Rightarrow> string \<Rightarrow> string \<Rightarrow> string \<Rightarrow> nat \<Rightarrow> bool \<Rightarrow> jsval \<Rightarrow> string option
  \<Rightarrow> string option \<Rightarrow> chat_act" where
  "emitChatFinal env sessionKey clientRunId sourceRunId n failed error stopReason errorKind = with_state (\<lambda>s.
     case resolveBufferedChatTextState env s clientRunId sourceRunId of (text, silent) \<Rightarrow>
       seq (flushBufferedChatDeltaIfNeeded env sessionKey clientRunId sourceRunId n)
      (seq (clearBufferedChatState clientRunId)
        (send_chat sessionKey
          (if failed
           then chat_payload clientRunId sessionKey n ''error''
             [(''errorMessage'', if truthy error then map_option (\<lambda>e. JStr (ce_formatForLog env e)) error else None),
              (''errorKind'', optional_text errorKind)]
           else chat_payload clientRunId sessionKey n ''final''
             [(''stopReason'', optional_text stopReason),
              (''message'', if text \<noteq> [] \<and> \<not> silent then Some (text_message text (ce_now env)) else None)]) False)))"

section \<open>Session events\<close>

definition row_fields :: "string list" where
  "row_fields = [''kind'', ''channel'', ''subject'', ''groupChannel'', ''space'', ''chatType'', ''origin'', ''spawnedBy'',
     ''spawnedWorkspaceDir'', ''forkedFromParent'', ''spawnDepth'', ''subagentRole'', ''subagentControlScope'', ''label'',
     ''displayName'', ''deliveryContext'', ''parentSessionKey'', ''childSessions'', ''thinkingLevel'', ''fastMode'',
     ''verboseLevel'', ''traceLevel'', ''reasoningLevel'', ''elevatedLevel'', ''sendPolicy'', ''systemSent'', ''inputTokens'',
     ''outputTokens'', ''lastChannel'', ''lastTo'', ''lastAccountId'', ''lastThreadId'', ''totalTokens'', ''totalTokensFresh'',
     ''contextTokens'', ''estimatedCostUsd'', ''responseUsage'', ''modelProvider'', ''model'']"

definition lifecycle_fields :: "string list" where
  "lifecycle_fields = [''updatedAt'', ''status'', ''startedAt'', ''endedAt'', ''runtimeMs'', ''abortedLastRun'']"

definition present :: "(string \<times> jsval) list \<Rightarrow> entries" where
  "present fs = List.map_filter (\<lambda>(k, v). map_option (Pair k) v) fs"

text \<open>The fields of a stored row that the lifecycle reads; \<open>updatedAt\<close> may be null there.\<close>

definition lifecycle_session :: "entries option \<Rightarrow> entries" where
  "lifecycle_session row = (case row of
     None \<Rightarrow> []
   | Some r \<Rightarrow> present (map (\<lambda>k. (k, if k = ''updatedAt'' then js_nullish (map_of r k) None else map_of r k)) lifecycle_fields))"

definition buildSessionEventSnapshot :: "chat_env \<Rightarrow> string \<Rightarrow> agent_event option \<Rightarrow> entries" where
  "buildSessionEventSnapshot env sessionKey evt =
     (let row = ce_row env sessionKey;
          patch = (case evt of None \<Rightarrow> []
            | Some e \<Rightarrow> deriveGatewaySessionLifecycleSnapshot (lifecycle_session row) e);
          session = map_option (\<lambda>r. fold (\<lambda>(k, v). obj_put k v) patch r) row;
          snapshotSource = (case session of Some r \<Rightarrow> r | None \<Rightarrow> present patch)
      in present ([(''session'', map_option JObj session)]
        @ [(''updatedAt'', map_of snapshotSource ''updatedAt''), (''sessionId'', Option.bind row (\<lambda>r. map_of r ''sessionId''))]
        @ map (\<lambda>k. (k, Option.bind row (\<lambda>r. map_of r k))) row_fields
        @ map (\<lambda>k. (k, map_of snapshotSource k)) (tl lifecycle_fields)))"

definition sessions_changed :: "chat_env \<Rightarrow> string \<Rightarrow> string \<Rightarrow> agent_event \<Rightarrow> chat_act" where
  "sessions_changed env sessionKey phase evt = with_state (\<lambda>s. seq
     (emit [PersistLifecycle sessionKey evt])
     (if ch_subscribers s = [] then skip
      else emit [BroadcastTo ''sessions.changed'' (JObj (obj_spread
        [(''sessionKey'', JStr sessionKey), (''phase'', JStr phase), (''runId'', JStr (ae_runId evt)), (''ts'', js_int (ae_ts evt))]
        (buildSessionEventSnapshot env sessionKey (Some evt)))) (ch_subscribers s) True]))"

section \<open>The end of a run\<close>

definition data_text :: "agent_event \<Rightarrow> string \<Rightarrow> string option" where
  "data_text evt k = as_str (map_of (ae_data evt) k)"

definition lifecycle_phase_of :: "agent_event \<Rightarrow> string option" where
  "lifecycle_phase_of evt = (if ae_stream evt = ''lifecycle'' then data_text evt ''phase'' else None)"

definition clearPendingTerminalLifecycleError :: "string \<Rightarrow> chat_act" where
  "clearPendingTerminalLifecycleError runId = with_state (\<lambda>s.
     case map_of (ch_pendingErrors s) runId of
       None \<Rightarrow> skip
     | Some n \<Rightarrow> seq (update (\<lambda>s. s\<lparr>ch_timers := AList.delete n (ch_timers s),
           ch_pendingErrors := AList.delete runId (ch_pendingErrors s)\<rparr>)) (emit [ClearChatTimer n]))"

definition event_session_key :: "agent_event \<Rightarrow> string option" where
  "event_session_key evt = (case ae_sessionKey evt of Some k \<Rightarrow> if trim k \<noteq> [] then Some k else None | None \<Rightarrow> None)"

record chat_route =
  ro_link :: "chat_run_entry option"
  ro_visible :: bool
  ro_sessionKey :: "string option"
  ro_clientRunId :: string
  ro_aborted :: bool

definition route_of :: "chat_env \<Rightarrow> chat_server \<Rightarrow> agent_event \<Rightarrow> chat_route" where
  "route_of env s evt =
     (let chatLink = peek_chat_run (ae_runId evt) (ch_registry s);
          clientRunId = (case chatLink of Some e \<Rightarrow> cr_clientRunId e | None \<Rightarrow> ae_runId evt)
      in \<lparr>ro_link = chatLink,
          ro_visible = nullish (Option.bind (getAgentRunContext (ae_runId evt) (ch_agents s)) xc_isControlUiVisible) True,
          ro_sessionKey = nullish_opt (map_option cr_sessionKey chatLink)
            (nullish_opt (event_session_key evt) (ce_sessionForRun env (ae_runId evt))),
          ro_clientRunId = clientRunId,
          ro_aborted = (map_of (ch_abortedRuns s) clientRunId \<noteq> None \<or> map_of (ch_abortedRuns s) (ae_runId evt) \<noteq> None)\<rparr>)"

definition final_event :: "chat_env \<Rightarrow> string \<Rightarrow> string \<Rightarrow> agent_event \<Rightarrow> string \<Rightarrow> chat_act" where
  "final_event env sessionKey clientRunId evt phase =
     emitChatFinal env sessionKey clientRunId (ae_runId evt) (ae_seq evt) (phase = ''error'') (map_of (ae_data evt) ''error'')
       (data_text evt ''stopReason'')
       (nullish_opt (readChatErrorKind (map_of (ae_data evt) ''errorKind'')) (ce_errorKind env (map_of (ae_data evt) ''error'')))"

definition finish_chat :: "chat_env \<Rightarrow> string \<Rightarrow> chat_route \<Rightarrow> agent_event \<Rightarrow> string \<Rightarrow> bool \<Rightarrow> chat_act" where
  "finish_chat env sessionKey ro evt phase skipError =
     (if ro_aborted ro
      then seq (update (\<lambda>s. s\<lparr>ch_abortedRuns := AList.delete (ae_runId evt) (AList.delete (ro_clientRunId ro) (ch_abortedRuns s))\<rparr>))
        (seq (clearBufferedChatState (ro_clientRunId ro))
          (update (\<lambda>s. case ro_link ro of None \<Rightarrow> s
             | Some e \<Rightarrow> s\<lparr>ch_registry := snd (remove_chat_run (ae_runId evt) (ro_clientRunId ro) (Some sessionKey) (ch_registry s))\<rparr>)))
      else seq (update (\<lambda>s. case ro_link ro of None \<Rightarrow> s
             | Some e \<Rightarrow> s\<lparr>ch_registry := snd (shift_chat_run (ae_runId evt) (ch_registry s))\<rparr>))
        (if skipError \<and> phase = ''error'' then skip
         else final_event env sessionKey (ro_clientRunId ro) evt phase))"

definition forget_run :: "int \<Rightarrow> string \<Rightarrow> string \<Rightarrow> chat_act" where
  "forget_run now runId clientRunId = update (\<lambda>s. s\<lparr>ch_recipients := mark_final now runId (ch_recipients s),
     ch_agents := clearAgentRunContext runId (ch_agents s),
     ch_agentRunSeq := AList.delete clientRunId (AList.delete runId (ch_agentRunSeq s))\<rparr>)"

definition finalizeLifecycleEvent :: "chat_env \<Rightarrow> agent_event \<Rightarrow> bool \<Rightarrow> chat_act" where
  "finalizeLifecycleEvent env evt skipError =
     (case lifecycle_phase_of evt of
        None \<Rightarrow> skip
      | Some phase \<Rightarrow>
          if phase \<noteq> ''end'' \<and> phase \<noteq> ''error'' then skip
          else seq (clearPendingTerminalLifecycleError (ae_runId evt)) (with_state (\<lambda>s.
            let ro = route_of env s evt in
            seq (case ro_sessionKey ro of
                   Some k \<Rightarrow> if ro_visible ro \<and> k \<noteq> [] then finish_chat env k ro evt phase skipError else skip
                 | None \<Rightarrow> skip)
           (seq (forget_run (ce_now env) (ae_runId evt) (ro_clientRunId ro))
              (case ro_sessionKey ro of
                 Some k \<Rightarrow> if k \<noteq> [] then sessions_changed env k phase evt else skip
               | None \<Rightarrow> skip)))))"

definition scheduleTerminalLifecycleError :: "chat_env \<Rightarrow> agent_event \<Rightarrow> bool \<Rightarrow> chat_act" where
  "scheduleTerminalLifecycleError env evt skipError = seq
     (clearPendingTerminalLifecycleError (ae_runId evt))
     (with_state (\<lambda>s. seq
       (emit [SetChatTimer (ch_timerCount s) (max 1 (min (ce_graceMs env) 2147483647))])
       (update (\<lambda>s. s\<lparr>ch_timers := ch_timers s @ [(ch_timerCount s, evt, skipError)],
          ch_pendingErrors := AList.update (ae_runId evt) (ch_timerCount s) (ch_pendingErrors s),
          ch_timerCount := Suc (ch_timerCount s)\<rparr>))))"

definition error_timer_fired :: "chat_env \<Rightarrow> nat \<Rightarrow> chat_act" where
  "error_timer_fired env n = with_state (\<lambda>s. case map_of (ch_timers s) n of
     None \<Rightarrow> skip
   | Some (evt, skipError) \<Rightarrow> seq
       (update (\<lambda>s. s\<lparr>ch_timers := AList.delete n (ch_timers s),
          ch_pendingErrors := AList.delete (ae_runId evt) (ch_pendingErrors s)\<rparr>))
       (finalizeLifecycleEvent env evt skipError))"

section \<open>The handler\<close>

definition event_entries :: "agent_event \<Rightarrow> string \<Rightarrow> string option \<Rightarrow> entries \<Rightarrow> entries" where
  "event_entries evt runId sessionKey data = present [(''runId'', Some (JStr runId)), (''stream'', Some (JStr (ae_stream evt))),
     (''data'', Some (JObj data)), (''sessionKey'', map_option JStr (nullish_opt sessionKey (ae_sessionKey evt))),
     (''seq'', Some (js_int (int (ae_seq evt)))), (''ts'', Some (js_int (ae_ts evt)))]"

definition verbose_words :: "(string \<times> string list) list" where
  "verbose_words = [(''off'', [''off'', ''false'', ''no'', ''0'']), (''full'', [''full'', ''all'', ''everything'']),
     (''on'', [''on'', ''minimal'', ''true'', ''yes'', ''1''])]"

definition normalizeVerboseLevel :: "string option \<Rightarrow> string option" where
  "normalizeVerboseLevel raw = (case normalizeOptionalLowercaseString raw of
     None \<Rightarrow> None | Some key \<Rightarrow> map_option fst (find (\<lambda>(v, ws). key \<in> set ws) verbose_words))"

definition resolveToolVerboseLevel :: "chat_env \<Rightarrow> agent_events \<Rightarrow> string \<Rightarrow> string option \<Rightarrow> string" where
  "resolveToolVerboseLevel env ag runId sessionKey =
     (case normalizeVerboseLevel (Option.bind (getAgentRunContext runId ag) xc_verboseLevel) of
        Some v \<Rightarrow> v
      | None \<Rightarrow> (case sessionKey of
          None \<Rightarrow> ''off''
        | Some k \<Rightarrow> (case ce_verbose env k of
            None \<Rightarrow> ''off''
          | Some (entry, verboseDefault) \<Rightarrow>
              nullish (nullish_opt (normalizeVerboseLevel entry) (normalizeVerboseLevel verboseDefault)) ''off'')))"

text \<open>The session key when it is not empty.\<close>

definition route_key :: "chat_route \<Rightarrow> string option" where
  "route_key ro = (if truthy_string (ro_sessionKey ro) then ro_sessionKey ro else None)"

definition seq_gap :: "chat_server \<Rightarrow> agent_event \<Rightarrow> bool" where
  "seq_gap s evt \<longleftrightarrow> (let last = nullish (map_of (ch_agentRunSeq s) (ae_runId evt)) 0 in 0 < last \<and> ae_seq evt \<noteq> last + 1)"

definition gap_payload :: "chat_env \<Rightarrow> chat_server \<Rightarrow> chat_route \<Rightarrow> agent_event \<Rightarrow> json" where
  "gap_payload env s ro evt = mk_obj [(''runId'', Some (JStr (ro_clientRunId ro))), (''stream'', Some (JStr ''error'')),
     (''ts'', Some (js_int (ce_now env))), (''sessionKey'', map_option JStr (ro_sessionKey ro)),
     (''data'', Some (JObj [(''reason'', JStr ''seq gap''),
        (''expected'', js_int (int (nullish (map_of (ch_agentRunSeq s) (ae_runId evt)) 0 + 1))),
        (''received'', js_int (int (ae_seq evt)))]))]"

definition with_snapshot :: "chat_env \<Rightarrow> string \<Rightarrow> entries \<Rightarrow> json" where
  "with_snapshot env sessionKey payload = JObj (obj_spread payload (buildSessionEventSnapshot env sessionKey None))"

definition tool_payload :: "agent_event \<Rightarrow> chat_route \<Rightarrow> string \<Rightarrow> entries" where
  "tool_payload evt ro verbose = event_entries evt (ro_clientRunId ro) (route_key ro)
     (if ae_stream evt = ''tool'' \<and> verbose \<noteq> ''full''
      then AList.delete ''partialResult'' (AList.delete ''result'' (ae_data evt)) else ae_data evt)"

definition flush_before :: "chat_env \<Rightarrow> chat_route \<Rightarrow> agent_event \<Rightarrow> chat_act" where
  "flush_before env ro evt = (case route_key ro of
     Some k \<Rightarrow> if data_text evt ''phase'' = Some ''start'' \<and> ro_visible ro \<and> \<not> ro_aborted ro
       then flushBufferedChatDeltaIfNeeded env k (ro_clientRunId ro) (ae_runId evt) (ae_seq evt) else skip
   | None \<Rightarrow> skip)"

definition tool_event :: "chat_env \<Rightarrow> chat_route \<Rightarrow> agent_event \<Rightarrow> entries \<Rightarrow> chat_act" where
  "tool_event env ro evt payload = seq (flush_before env ro evt) (with_state (\<lambda>s.
     case get_recipients (ce_now env) (ae_runId evt) (ch_recipients s) of (ids, table) \<Rightarrow> seq
       (update (\<lambda>s. s\<lparr>ch_recipients := table\<rparr>))
      (seq (if nullish ids [] = [] then skip
            else emit [BroadcastTo ''agent''
              (case route_key ro of Some k \<Rightarrow> with_snapshot env k payload | None \<Rightarrow> JObj payload) (nullish ids []) False])
        (case route_key ro of
           Some k \<Rightarrow> if ch_subscribers s = [] then skip
             else emit [BroadcastTo ''session.tool'' (with_snapshot env k payload) (ch_subscribers s) True]
         | None \<Rightarrow> skip))))"

definition other_event :: "chat_env \<Rightarrow> chat_route \<Rightarrow> agent_event \<Rightarrow> entries \<Rightarrow> chat_act" where
  "other_event env ro evt payload = seq
     (if ae_stream evt = ''item'' then flush_before env ro evt else skip)
     (emit [Broadcast ''agent'' (JObj payload) False])"

definition session_chat :: "chat_env \<Rightarrow> chat_route \<Rightarrow> agent_event \<Rightarrow> entries \<Rightarrow> string \<Rightarrow> chat_act" where
  "session_chat env ro evt payload verbose = (case route_key ro of
     None \<Rightarrow> skip
   | Some k \<Rightarrow> if \<not> ro_visible ro then skip
       else seq (if ae_stream evt \<noteq> ''tool'' then emit [NodeSend k ''agent'' (JObj payload)]
                 else if verbose \<noteq> ''off'' then emit [NodeSend k ''agent'' (with_snapshot env k payload)] else skip)
         (case data_text evt ''text'' of
            Some text \<Rightarrow> if \<not> ro_aborted ro \<and> ae_stream evt = ''assistant''
              then emitChatDelta env k (ro_clientRunId ro) (ae_runId evt) (ae_seq evt) text (map_of (ae_data evt) ''delta'')
              else skip
          | None \<Rightarrow> skip))"

definition lifecycle_event :: "chat_env \<Rightarrow> chat_route \<Rightarrow> agent_event \<Rightarrow> chat_act" where
  "lifecycle_event env ro evt = (case lifecycle_phase_of evt of
     None \<Rightarrow> skip
   | Some phase \<Rightarrow>
       if phase = ''error'' then seq (clearBufferedChatState (ro_clientRunId ro)) (with_state (\<lambda>s.
         let skipError = (map_of (ch_aborts s) (ae_runId evt) \<noteq> None \<and> ro_link ro = None) in
         if ro_aborted ro \<or> ce_graceMs env \<le> 0 then finalizeLifecycleEvent env evt skipError
         else scheduleTerminalLifecycleError env evt skipError))
       else if phase = ''end'' then finalizeLifecycleEvent env evt False
       else if phase = ''start'' then (case route_key ro of Some k \<Rightarrow> sessions_changed env k phase evt | None \<Rightarrow> skip)
       else skip)"

definition agent_event_handler :: "chat_env \<Rightarrow> agent_event \<Rightarrow> chat_act" where
  "agent_event_handler env evt = seq
     (if lifecycle_phase_of evt = Some ''error'' then skip else clearPendingTerminalLifecycleError (ae_runId evt))
     (with_state (\<lambda>s.
       let ro = route_of env s evt;
           verbose = (if ae_stream evt = ''tool'' then resolveToolVerboseLevel env (ch_agents s) (ae_runId evt) (route_key ro)
             else ''off'');
           payload = tool_payload evt ro verbose in
       seq (if seq_gap s evt then emit [Broadcast ''agent'' (gap_payload env s ro evt) False] else skip)
      (seq (update (\<lambda>s. s\<lparr>ch_agentRunSeq := AList.update (ae_runId evt) (ae_seq evt) (ch_agentRunSeq s)\<rparr>))
      (seq (if ae_stream evt = ''tool'' then tool_event env ro evt payload else other_event env ro evt payload)
      (seq (session_chat env ro evt payload verbose)
        (lifecycle_event env ro evt))))))"

section \<open>Aborts and the sweep\<close>

definition resolveChatRunExpiresAtMs :: "int \<Rightarrow> int \<Rightarrow> int" where
  "resolveChatRunExpiresAtMs now timeoutMs =
     min (now + 24 * 60 * 60000) (max (now + 2 * 60000) (now + max 0 timeoutMs + 60000))"

definition broadcastChatAborted :: "chat_env \<Rightarrow> string \<Rightarrow> string \<Rightarrow> string option \<Rightarrow> string option \<Rightarrow> chat_act" where
  "broadcastChatAborted env runId sessionKey stopReason partialText = with_state (\<lambda>s.
     send_chat sessionKey (chat_payload runId sessionKey (nullish (map_of (ch_agentRunSeq s) runId) 0 + 1) ''aborted''
       [(''stopReason'', map_option JStr stopReason),
        (''message'', map_option (\<lambda>x. text_message x (ce_now env)) partialText)]) False)"

definition abort_result :: "chat_server \<Rightarrow> string \<Rightarrow> string \<Rightarrow> bool" where
  "abort_result s runId sessionKey \<longleftrightarrow> (case map_of (ch_aborts s) runId of
     None \<Rightarrow> False | Some a \<Rightarrow> ab_sessionKey a = sessionKey)"

definition abortChatRunById :: "chat_env \<Rightarrow> string \<Rightarrow> string \<Rightarrow> string option \<Rightarrow> chat_act" where
  "abortChatRunById env runId sessionKey stopReason = with_state (\<lambda>s.
     if \<not> abort_result s runId sessionKey then skip
     else (let partialText = (case map_of (ch_buffers s) runId of
               Some t \<Rightarrow> if trim t \<noteq> [] then Some t else None | None \<Rightarrow> None);
             removed = remove_chat_run runId runId (Some sessionKey) (ch_registry s) in
       seq (update (\<lambda>s. s\<lparr>ch_abortedRuns := AList.update runId (ce_now env) (ch_abortedRuns s)\<rparr>))
      (seq (emit [AbortSignal runId])
      (seq (update (\<lambda>s. s\<lparr>ch_aborts := AList.delete runId (ch_aborts s), ch_buffers := AList.delete runId (ch_buffers s),
           ch_deltaSentAt := AList.delete runId (ch_deltaSentAt s),
           ch_deltaLastBroadcastLen := AList.delete runId (ch_deltaLastBroadcastLen s), ch_registry := snd removed\<rparr>))
      (seq (broadcastChatAborted env runId sessionKey stopReason partialText)
        (update (\<lambda>s. s\<lparr>ch_agentRunSeq := (case fst removed of
             Some e \<Rightarrow> if cr_clientRunId e \<noteq> [] then AList.delete (cr_clientRunId e) (AList.delete runId (ch_agentRunSeq s))
               else AList.delete runId (ch_agentRunSeq s)
           | None \<Rightarrow> AList.delete runId (ch_agentRunSeq s))\<rparr>)))))))"

definition abortChatRunsForSessionKey :: "chat_env \<Rightarrow> string \<Rightarrow> string option \<Rightarrow> chat_act" where
  "abortChatRunsForSessionKey env sessionKey stopReason = with_state (\<lambda>s.
     for_each (\<lambda>(runId, a). if ab_sessionKey a \<noteq> sessionKey then skip else abortChatRunById env runId sessionKey stopReason)
       (ch_aborts s))"

definition AGENT_RUN_SEQ_MAX :: nat where "AGENT_RUN_SEQ_MAX = 10000"
definition ABORTED_RUN_TTL_MS :: int where "ABORTED_RUN_TTL_MS = 60 * 60000"

definition drop_chat_buffers :: "string \<Rightarrow> chat_server \<Rightarrow> chat_server" where
  "drop_chat_buffers runId s = s\<lparr>ch_buffers := AList.delete runId (ch_buffers s),
     ch_deltaSentAt := AList.delete runId (ch_deltaSentAt s),
     ch_deltaLastBroadcastLen := AList.delete runId (ch_deltaLastBroadcastLen s)\<rparr>"

text \<open>The part of the periodic cleanup that is about runs.\<close>

definition sweep_runs :: "chat_env \<Rightarrow> chat_act" where
  "sweep_runs env = seq
     (update (\<lambda>s. s\<lparr>ch_agentRunSeq := drop (length (ch_agentRunSeq s) - AGENT_RUN_SEQ_MAX) (ch_agentRunSeq s)\<rparr>))
    (seq (with_state (\<lambda>s. for_each (\<lambda>(runId, a). if ce_now env \<le> ab_expiresAtMs a then skip
        else abortChatRunById env runId (ab_sessionKey a) (Some ''timeout'')) (ch_aborts s)))
    (seq (update (\<lambda>s. fold (\<lambda>(runId, abortedAt) s. if ce_now env - abortedAt \<le> ABORTED_RUN_TTL_MS then s
        else drop_chat_buffers runId (s\<lparr>ch_abortedRuns := AList.delete runId (ch_abortedRuns s)\<rparr>)) (ch_abortedRuns s) s))
    (seq (update (\<lambda>s. fold (\<lambda>(runId, lastSentAt) s'.
        if map_of (ch_abortedRuns s) runId \<noteq> None \<or> map_of (ch_aborts s) runId \<noteq> None
           \<or> ce_now env - lastSentAt \<le> ABORTED_RUN_TTL_MS then s' else drop_chat_buffers runId s') (ch_deltaSentAt s) s))
      (update (\<lambda>s. s\<lparr>ch_agents := sweepStaleRunContexts (ce_now env) (30 * 60 * 1000) (ch_agents s)\<rparr>)))))"

section \<open>What chat.send and chat.inject tell\<close>

text \<open>The directives of the text parts of a message are not shown.\<close>

definition display_part :: "json \<Rightarrow> json" where
  "display_part part = (case part of
     JObj kvs \<Rightarrow> (if getp part ''type'' = Some (JStr ''text'') then
         (case as_str (getp part ''text'') of
            Some t \<Rightarrow> JObj (obj_put ''text'' (Some (JStr (stripInlineDirectiveTagsForDisplay t))) kvs)
          | None \<Rightarrow> part)
       else part)
   | _ \<Rightarrow> part)"

definition stripInlineDirectiveTagsFromMessageForDisplay :: "json \<Rightarrow> json" where
  "stripInlineDirectiveTagsFromMessageForDisplay message = (case message of
     JObj kvs \<Rightarrow> (case getp message ''content'' of
         Some (JArr parts) \<Rightarrow> JObj (obj_put ''content'' (Some (JArr (map display_part parts))) kvs)
       | _ \<Rightarrow> message)
   | _ \<Rightarrow> message)"

definition shown_message :: "chat_env \<Rightarrow> json \<Rightarrow> json" where
  "shown_message env message = stripInlineDirectiveTagsFromMessageForDisplay (ce_stripEnvelope env message)"

definition nextChatSeq :: "string \<Rightarrow> (nat \<Rightarrow> chat_act) \<Rightarrow> chat_act" where
  "nextChatSeq runId k = with_state (\<lambda>s. let next = nullish (map_of (ch_agentRunSeq s) runId) 0 + 1 in
     seq (update (\<lambda>s. s\<lparr>ch_agentRunSeq := AList.update runId next (ch_agentRunSeq s)\<rparr>)) (k next))"

definition drop_chat_seq :: "string \<Rightarrow> chat_act" where
  "drop_chat_seq runId = update (\<lambda>s. s\<lparr>ch_agentRunSeq := AList.delete runId (ch_agentRunSeq s)\<rparr>)"

definition broadcastChatFinal :: "chat_env \<Rightarrow> string \<Rightarrow> string \<Rightarrow> jsval \<Rightarrow> chat_act" where
  "broadcastChatFinal env runId sessionKey message = nextChatSeq runId (\<lambda>n. seq
     (send_chat sessionKey (chat_payload runId sessionKey n ''final''
        [(''message'', map_option (shown_message env) message)]) False)
     (drop_chat_seq runId))"

definition broadcastChatError :: "string \<Rightarrow> string \<Rightarrow> string \<Rightarrow> chat_act" where
  "broadcastChatError runId sessionKey errorMessage = nextChatSeq runId (\<lambda>n. seq
     (send_chat sessionKey (chat_payload runId sessionKey n ''error''
        [(''errorMessage'', Some (JStr errorMessage))]) False)
     (drop_chat_seq runId))"

definition broadcastSideResult :: "string \<Rightarrow> string \<Rightarrow> (nat \<Rightarrow> json) \<Rightarrow> chat_act" where
  "broadcastSideResult runId sessionKey payload = nextChatSeq runId (\<lambda>n.
     emit [Broadcast ''chat.side_result'' (payload n) False, NodeSend sessionKey ''chat.side_result'' (payload n)])"

text \<open>A reply delivered while \<open>chat.send\<close> was dispatched; the answer to a side question names the question.\<close>

record reply_payload =
  rp_text :: "string option"
  rp_btw_question :: "string option"
  rp_isError :: bool

definition isBtwReplyPayload :: "reply_payload \<Rightarrow> bool" where
  "isBtwReplyPayload p \<longleftrightarrow> trim (nullish (rp_btw_question p) []) \<noteq> [] \<and> trim (nullish (rp_text p) []) \<noteq> []"

definition side_text :: "reply_payload list \<Rightarrow> string" where
  "side_text btwReplies = trim (intercalate [CHR 0x0A, CHR 0x0A]
     (filter (\<lambda>t. t \<noteq> []) (map (\<lambda>p. trim (nullish (rp_text p) [])) btwReplies)))"

definition side_payload :: "chat_env \<Rightarrow> string \<Rightarrow> string \<Rightarrow> reply_payload list \<Rightarrow> nat \<Rightarrow> json" where
  "side_payload env runId sessionKey btwReplies n = JObj [(''kind'', JStr ''btw''), (''runId'', JStr runId),
     (''sessionKey'', JStr sessionKey), (''question'', JStr (trim (nullish (rp_btw_question (hd btwReplies)) []))),
     (''text'', JStr (side_text btwReplies)), (''isError'', JBool (list_ex rp_isError btwReplies)),
     (''ts'', js_int (ce_now env)), (''seq'', js_int (int n))]"

text \<open>
  The dispatch of \<open>chat.send\<close> is done. When it started no agent, the gateway itself tells the answer: the replies to side
  questions, or the message that the transcript got of the other replies.
\<close>

definition chat_send_replied :: "chat_env \<Rightarrow> string \<Rightarrow> string \<Rightarrow> bool \<Rightarrow> reply_payload list \<Rightarrow> jsval \<Rightarrow> chat_act" where
  "chat_send_replied env runId sessionKey agentRunStarted replies message =
     (if agentRunStarted then skip
      else let btwReplies = filter isBtwReplyPayload replies in
        if btwReplies \<noteq> [] \<and> side_text btwReplies \<noteq> []
        then seq (broadcastSideResult runId sessionKey (side_payload env runId sessionKey btwReplies))
          (broadcastChatFinal env runId sessionKey None)
        else broadcastChatFinal env runId sessionKey message)"

text \<open>A message put into a chat from outside has a run of its own and the number 0.\<close>

definition chat_inject :: "chat_env \<Rightarrow> string \<Rightarrow> string \<Rightarrow> json \<Rightarrow> chat_act" where
  "chat_inject env messageId sessionKey message = send_chat sessionKey
     (chat_payload (''inject-'' @ messageId) sessionKey 0 ''final'' [(''message'', Some (shown_message env message))]) False"

section \<open>Steps\<close>

text \<open>
  What comes to the gateway's chats. The end of \<open>chat.send\<close> is a reply or a failure, with \<open>EndAbortable\<close> after it (the
  \<open>finally\<close> of its dispatch); \<open>ClearContext\<close> is what an agent's command does when it is done (agents/agent-command.ts).
\<close>

datatype chat_input =
    AgentEmits string string entries "string option"
  | ErrorTimer nat
  | RegisterContext string run_context
  | AddChatRun string chat_run_entry
  | StartAbortable string abort_entry
  | EndAbortable string
  | AbortRun string string "string option"
  | AbortSession string "string option"
  | SubscribeEvents string
  | UnsubscribeEvents string
  | AddRecipient string string
  | Sweep
  | SendReplied string string bool "reply_payload list" jsval
  | SendFailed string string string
  | InjectChat string string json
  | ClearContext string

fun chat_step :: "chat_env \<times> chat_input \<Rightarrow> chat_act" where
  "chat_step (env, AgentEmits runId stream data key) = with_state (\<lambda>s.
     case emitAgentEvent (ce_now env) runId stream data key (ch_agents s) of (evt, ag) \<Rightarrow>
       seq (update (\<lambda>s. s\<lparr>ch_agents := ag\<rparr>)) (agent_event_handler env evt))"
| "chat_step (env, ErrorTimer n) = error_timer_fired env n"
| "chat_step (env, RegisterContext runId x) =
     update (\<lambda>s. s\<lparr>ch_agents := registerAgentRunContext (ce_now env) runId x (ch_agents s)\<rparr>)"
| "chat_step (env, AddChatRun sessionId e) = update (\<lambda>s. s\<lparr>ch_registry := add_chat_run sessionId e (ch_registry s)\<rparr>)"
| "chat_step (env, StartAbortable runId a) = update (\<lambda>s. s\<lparr>ch_aborts := AList.update runId a (ch_aborts s)\<rparr>)"
| "chat_step (env, EndAbortable runId) = update (\<lambda>s. s\<lparr>ch_aborts := AList.delete runId (ch_aborts s)\<rparr>)"
| "chat_step (env, AbortRun runId key reason) = abortChatRunById env runId key reason"
| "chat_step (env, AbortSession key reason) = abortChatRunsForSessionKey env key reason"
| "chat_step (env, SubscribeEvents c) = update (\<lambda>s. s\<lparr>ch_subscribers := subscribe_events c (ch_subscribers s)\<rparr>)"
| "chat_step (env, UnsubscribeEvents c) = update (\<lambda>s. s\<lparr>ch_subscribers := unsubscribe_events c (ch_subscribers s)\<rparr>)"
| "chat_step (env, AddRecipient runId c) =
     update (\<lambda>s. s\<lparr>ch_recipients := add_recipient (ce_now env) runId c (ch_recipients s)\<rparr>)"
| "chat_step (env, Sweep) = sweep_runs env"
| "chat_step (env, SendReplied runId key agentRunStarted replies message) =
     chat_send_replied env runId key agentRunStarted replies message"
| "chat_step (env, SendFailed runId key errorMessage) = broadcastChatError runId key errorMessage"
| "chat_step (env, InjectChat messageId key message) = chat_inject env messageId key message"
| "chat_step (env, ClearContext runId) = update (\<lambda>s. s\<lparr>ch_agents := clearAgentRunContext runId (ch_agents s)\<rparr>)"

definition chat_run :: "(chat_env \<times> chat_input) list \<Rightarrow> chat_act" where
  "chat_run evs = for_each chat_step evs"

end
