(* ===== verification/ChatInvariants.thy ===== *)
theory ChatInvariants
  imports ActFrames ServerChat
begin

text \<open>
  What holds of the chat gateway (ServerChat) after any events: the numbers of a run's events follow
  each other, a run's end is told once, an aborted run is told nothing more of but what its own
  \<open>chat.send\<close> answers. The rules of ActFrames are interpreted on the gateway's state.
\<close>

section \<open>What the events say\<close>

definition chat_told :: "chat_effect \<Rightarrow> json option" where
  "chat_told e = (case e of
     Broadcast ev p slow \<Rightarrow> if ev = ''chat'' then Some p else None
   | NodeSend k ev p \<Rightarrow> if ev = ''chat'' then Some p else None
   | _ \<Rightarrow> None)"

definition has_text :: "json \<Rightarrow> string \<Rightarrow> string list \<Rightarrow> bool" where
  "has_text p k vs \<longleftrightarrow> (case as_str (getp p k) of Some v \<Rightarrow> v \<in> set vs | None \<Rightarrow> False)"

text \<open>A delta, a final text or an error of a run.\<close>

definition speaks_of :: "string \<Rightarrow> chat_effect \<Rightarrow> bool" where
  "speaks_of r e \<longleftrightarrow> (case chat_told e of None \<Rightarrow> False
     | Some p \<Rightarrow> has_text p ''runId'' [r] \<and> has_text p ''state'' [''delta'', ''final'', ''error''])"

text \<open>A broadcast that ends a chat: its final text or its error.\<close>

definition ends_chat :: "chat_effect \<Rightarrow> nat" where
  "ends_chat e = (case e of Broadcast ev p slow \<Rightarrow>
     if ev = ''chat'' \<and> has_text p ''state'' [''final'', ''error''] then 1 else 0 | _ \<Rightarrow> 0)"

lemma chat_payload_fields [simp]:
  "getp (chat_payload r k n st more_fields) ''runId'' = Some (JStr r)"
  "getp (chat_payload r k n st more_fields) ''sessionKey'' = Some (JStr k)"
  "getp (chat_payload r k n st more_fields) ''state'' = Some (JStr st)"
  by (simp_all add: chat_payload_def mk_obj_def map_filter_simps)

lemma has_text_payload [simp]:
  "has_text (chat_payload r k n st more_fields) ''runId'' vs \<longleftrightarrow> r \<in> set vs"
  "has_text (chat_payload r k n st more_fields) ''state'' vs \<longleftrightarrow> st \<in> set vs"
  by (simp_all add: has_text_def)

lemma chat_told_simps [simp]:
  "chat_told (Broadcast ev p slow) = (if ev = ''chat'' then Some p else None)"
  "chat_told (NodeSend k ev p) = (if ev = ''chat'' then Some p else None)"
  "chat_told (BroadcastTo ev p ids slow) = None" "chat_told (PersistLifecycle k evt) = None"
  "chat_told (SetChatTimer n i) = None" "chat_told (ClearChatTimer n) = None" "chat_told (AbortSignal r) = None"
  by (simp_all add: chat_told_def)

lemma ends_chat_simps [simp]:
  "ends_chat (Broadcast ev p slow) = (if ev = ''chat'' \<and> has_text p ''state'' [''final'', ''error''] then 1 else 0)"
  "ends_chat (NodeSend k ev p) = 0"
  "ends_chat (BroadcastTo ev p ids slow) = 0" "ends_chat (PersistLifecycle k evt) = 0"
  "ends_chat (SetChatTimer n i) = 0" "ends_chat (ClearChatTimer n) = 0" "ends_chat (AbortSignal r) = 0"
  by (simp_all add: ends_chat_def)

section \<open>What the parts of the handler leave alone\<close>

definition chat_core :: "chat_server \<Rightarrow> agent_events \<times> (string \<times> nat) list \<times> (string \<times> int) list
  \<times> (nat \<times> agent_event \<times> bool) list \<times> (string \<times> nat) list \<times> nat" where
  "chat_core s = (ch_agents s, ch_agentRunSeq s, ch_abortedRuns s, ch_timers s, ch_pendingErrors s, ch_timerCount s)"

interpretation core: frame chat_core .

named_theorems core_frames

lemma core_send_chat [core_frames]: "core.framed (send_chat k p slow)"
  by (simp add: send_chat_def)

lemma core_send_delta [core_frames]: "core.framed (send_delta env k r n x)"
  unfolding send_delta_def by (intro core.framed_seq core.framed_update core_send_chat) (simp add: chat_core_def)

lemma core_set_buffer [core_frames]: "core.framed (set_buffer r x)"
  unfolding set_buffer_def by (intro core.framed_update) (simp add: chat_core_def)

lemma core_emitChatDelta [core_frames]: "core.framed (emitChatDelta env k r q n x d)"
  unfolding emitChatDelta_def throttled_delta_def Let_def
  by (intro core.framed_with_state)
    (auto intro!: core.framed_seq core.framed_update core.framed_with_state simp: chat_core_def core_frames)

lemma core_flush [core_frames]: "core.framed (flushBufferedChatDeltaIfNeeded env k r q n)"
  unfolding flushBufferedChatDeltaIfNeeded_def
  by (intro core.framed_with_state) (simp add: core_frames split: prod.split)

lemma core_clear [core_frames]: "core.framed (clearBufferedChatState r)"
  unfolding clearBufferedChatState_def by (intro core.framed_update) (simp add: chat_core_def)

lemma core_emitChatFinal [core_frames]: "core.framed (emitChatFinal env k r q n f err stop kind)"
  unfolding emitChatFinal_def
  by (intro core.framed_with_state) (simp add: core_frames split: prod.split)

lemma core_final_event [core_frames]: "core.framed (final_event env k r evt phase)"
  by (simp add: final_event_def core_frames)

lemma core_sessions_changed [core_frames]: "core.framed (sessions_changed env k phase evt)"
  unfolding sessions_changed_def by (intro core.framed_with_state) simp

lemma core_flush_before [core_frames]: "core.framed (flush_before env ro evt)"
  by (simp add: flush_before_def core_frames split: option.split)

lemma core_recipients: "core.framed (update (\<lambda>s. s\<lparr>ch_recipients := t\<rparr>))"
  by (intro core.framed_update) (simp add: chat_core_def)

lemma core_tool_event [core_frames]: "core.framed (tool_event env ro evt p)"
  unfolding tool_event_def
  by (intro core.framed_seq core.framed_with_state core_flush_before)
    (simp add: core_recipients split: prod.split option.split)

lemma core_other_event [core_frames]: "core.framed (other_event env ro evt p)"
  by (simp add: other_event_def core_frames)

lemma core_session_chat [core_frames]: "core.framed (session_chat env ro evt p v)"
  by (simp add: session_chat_def core_frames split: option.split)

lemma core_fields:
  assumes "core.framed a"
  shows "ch_agents (fst (a s)) = ch_agents s" "ch_agentRunSeq (fst (a s)) = ch_agentRunSeq s"
    "ch_abortedRuns (fst (a s)) = ch_abortedRuns s" "ch_timers (fst (a s)) = ch_timers s"
    "ch_pendingErrors (fst (a s)) = ch_pendingErrors s" "ch_timerCount (fst (a s)) = ch_timerCount s"
  using core.framedD[OF assms, of s] by (simp_all add: chat_core_def)

section \<open>A run's end is told once\<close>

interpretation ends: budget "\<lambda>s. length (ch_timers s)" ends_chat .

named_theorems ends_rules

lemma ends_update:
  assumes "\<And>s. ch_timers (f s) = ch_timers s"
  shows "ends.within 0 (update f)"
  by (rule ends.within_update) (simp add: assms)

lemma ends_send_chat:
  "ends.within (if has_text p ''state'' [''final'', ''error''] then 1 else 0) (send_chat k p slow)"
  unfolding send_chat_def by (rule ends.within_emit) simp

lemma ends_send_delta [ends_rules]: "ends.within 0 (send_delta env k r n x)"
  unfolding send_delta_def
  by (rule ends.within_seq0(1)[OF ends_update]) (simp, rule ends_send_chat[THEN ends.within_mono], simp)

lemma ends_set_buffer [ends_rules]: "ends.within 0 (set_buffer r x)"
  unfolding set_buffer_def by (rule ends_update) simp

lemma ends_throttled [ends_rules]: "ends.within 0 (throttled_delta env k r q n x)"
  unfolding throttled_delta_def by (rule ends.within_with_state) (simp add: ends_rules)

lemma ends_emitChatDelta [ends_rules]: "ends.within 0 (emitChatDelta env k r q n x d)"
  unfolding emitChatDelta_def Let_def
  by (rule ends.within_with_state) (auto intro!: ends.within_seq0(1) ends_update ends_rules)

lemma ends_flush [ends_rules]: "ends.within 0 (flushBufferedChatDeltaIfNeeded env k r q n)"
  unfolding flushBufferedChatDeltaIfNeeded_def
  by (rule ends.within_with_state) (simp add: ends_rules split: prod.split)

lemma ends_clear [ends_rules]: "ends.within 0 (clearBufferedChatState r)"
  unfolding clearBufferedChatState_def by (rule ends_update) simp

lemma ends_emitChatFinal: "ends.within 1 (emitChatFinal env k r q n f err stop kind)"
proof -
  have "ends.within 1 (send_chat k p False)" for p
    by (rule ends.within_mono[OF ends_send_chat]) simp
  then show ?thesis
    unfolding emitChatFinal_def
    by (intro ends.within_with_state) (auto intro!: ends.within_seq0(1) ends_rules split: prod.split)
qed

lemma ends_sessions_changed [ends_rules]: "ends.within 0 (sessions_changed env k phase evt)"
  unfolding sessions_changed_def
  by (intro ends.within_with_state ends.within_seq0(1)) (auto intro!: ends.within_emit)

lemma ends_flush_before [ends_rules]: "ends.within 0 (flush_before env ro evt)"
  by (simp add: flush_before_def ends_rules split: option.split)

lemma ends_tool_event [ends_rules]: "ends.within 0 (tool_event env ro evt p)"
  unfolding tool_event_def
  by (intro ends.within_seq0(1) ends.within_with_state ends_flush_before)
    (auto intro!: ends.within_seq0(1) ends_update ends.within_emit split: prod.split option.split)

lemma ends_other_event [ends_rules]: "ends.within 0 (other_event env ro evt p)"
  unfolding other_event_def by (rule ends.within_seq0(1)) (auto intro!: ends.within_emit simp: ends_rules)

lemma ends_session_chat [ends_rules]: "ends.within 0 (session_chat env ro evt p v)"
  unfolding session_chat_def
  by (auto intro!: ends.within_seq0(1) ends.within_emit simp: ends_rules split: option.split)

lemma length_alist_delete: "length (AList.delete k xs) \<le> length xs"
  by (simp add: AList.delete_eq)

lemma length_alist_delete_present: "map_of xs k \<noteq> None \<Longrightarrow> length (AList.delete k xs) < length xs"
  by (auto simp: AList.delete_eq dest!: map_of_SomeD intro!: length_filter_less)

lemma ends_clear_pending [ends_rules]: "ends.within 0 (clearPendingTerminalLifecycleError r)"
  unfolding clearPendingTerminalLifecycleError_def
  by (rule ends.within_with_state)
    (auto intro!: ends.within_seq0(1) ends.within_update ends.within_emit simp: length_alist_delete split: option.split)

lemma ends_finish_chat: "ends.within 1 (finish_chat env k ro evt phase skipError)"
proof -
  have "ends.within 1 (final_event env k r evt phase)" for r
    unfolding final_event_def by (rule ends_emitChatFinal)
  moreover have "ends.within 1 skip" by (rule ends.within_mono[OF ends.within_skip]) simp
  ultimately have fin: "ends.within 1 (if skipError \<and> phase = ''error'' then skip else final_event env k (ro_clientRunId ro) evt phase)"
    by (simp only: if_split) blast
  have ab: "ends.within 1 (seq (update (\<lambda>s. s\<lparr>ch_abortedRuns := AList.delete (ae_runId evt) (AList.delete (ro_clientRunId ro) (ch_abortedRuns s))\<rparr>))
      (seq (clearBufferedChatState (ro_clientRunId ro)) (update (\<lambda>s. case ro_link ro of None \<Rightarrow> s
         | Some e \<Rightarrow> s\<lparr>ch_registry := snd (remove_chat_run (ae_runId evt) (ro_clientRunId ro) (Some k) (ch_registry s))\<rparr>))))"
    by (rule ends.within_mono[of 0]) (auto intro!: ends.within_seq0(1) ends_update ends_rules split: option.split)
  show ?thesis
    unfolding finish_chat_def
    by (rule ends.within_if[OF ab ends.within_seq0(1)[OF ends_update fin]]) (simp split: option.split)
qed

lemma ends_finalize: "ends.within 1 (finalizeLifecycleEvent env evt skipError)"
proof -
  have forget: "ends.within 0 (forget_run now r c)" for now r c
    unfolding forget_run_def by (rule ends_update) simp
  show ?thesis
    unfolding finalizeLifecycleEvent_def Let_def
    by (intro ends.within_option ends.within_if ends.within_one[OF ends.within_skip] ends.within_seq0(1)[OF ends_clear_pending]
        ends.within_with_state ends.within_seq0(2) ends_finish_chat forget ends.within_skip ends_sessions_changed)
qed

lemma ends_schedule: "ends.within 1 (scheduleTerminalLifecycleError env evt skipError)"
  unfolding scheduleTerminalLifecycleError_def
  by (intro ends.within_seq0(1)[OF ends_clear_pending] ends.within_with_state) (simp add: ends.within_def)

definition terminal_phase :: "string option \<Rightarrow> bool" where
  "terminal_phase ph \<longleftrightarrow> ph = Some ''end'' \<or> ph = Some ''error''"

lemma ends_lifecycle_event:
  "ends.within (if terminal_phase (lifecycle_phase_of evt) then 1 else 0) (lifecycle_event env ro evt)"
proof (cases "terminal_phase (lifecycle_phase_of evt)")
  case True
  show ?thesis
    unfolding lifecycle_event_def Let_def if_P[OF True]
    by (intro ends.within_option ends.within_if ends.within_seq0(1)[OF ends_clear] ends.within_with_state ends_finalize ends_schedule
        ends.within_one[OF ends.within_skip] ends.within_one[OF ends_sessions_changed])
next
  case False
  have "ends.within 0 (lifecycle_event env ro evt)"
  proof (cases "lifecycle_phase_of evt")
    case (Some p)
    with False have "p \<noteq> ''end''" "p \<noteq> ''error''" by (auto simp: terminal_phase_def)
    then show ?thesis
      unfolding lifecycle_event_def Some option.case
      by (simp only: if_False) (intro ends.within_if ends.within_option ends.within_skip ends_sessions_changed)
  qed (simp add: lifecycle_event_def)
  then show ?thesis by (simp only: False if_False)
qed

lemma ends_handler:
  "ends.within (if terminal_phase (lifecycle_phase_of evt) then 1 else 0) (agent_event_handler env evt)"
  unfolding agent_event_handler_def Let_def
  by (intro ends.within_seq0(1) ends.within_with_state ends_lifecycle_event ends_session_chat)
    (auto intro!: ends_update ends.within_emit ends_rules)

lemma ends_abort [ends_rules]: "ends.within 0 (abortChatRunById env r k reason)"
proof -
  have "ends.within 0 (broadcastChatAborted env r k reason partial)" for partial
    unfolding broadcastChatAborted_def
    by (rule ends.within_with_state) (simp, rule ends_send_chat[THEN ends.within_mono], simp)
  moreover have "ends.within 0 (emit [AbortSignal r])" by (rule ends.within_emit) simp
  ultimately show ?thesis
    unfolding abortChatRunById_def Let_def
    by (intro ends.within_with_state ends.within_if ends.within_skip ends.within_seq0(1) ends_update) simp_all
qed

lemma ends_sweep: "ends.within 0 (sweep_runs env)"
proof -
  have drop: "ch_timers (drop_chat_buffers r s) = ch_timers s" for r s by (simp add: drop_chat_buffers_def)
  show ?thesis
    unfolding sweep_runs_def
    by (intro ends.within_seq0(1) ends.within_with_state ends.within_each ends_update)
      (auto simp: drop split: prod.split intro!: fold_same ends.within_if ends_abort)
qed

lemma ends_timer: "ends.within 0 (error_timer_fired env n)"
proof -
  have "length (ch_timers (fst (error_timer_fired env n s))) + ends.total (snd (error_timer_fired env n s))
      \<le> length (ch_timers s)" for s
  proof (cases "map_of (ch_timers s) n")
    case (Some v)
    then obtain evt skipError where v: "v = (evt, skipError)" by (cases v)
    let ?s = "s\<lparr>ch_timers := AList.delete n (ch_timers s),
      ch_pendingErrors := AList.delete (ae_runId evt) (ch_pendingErrors s)\<rparr>"
    have "length (ch_timers (fst (finalizeLifecycleEvent env evt skipError ?s)))
        + ends.total (snd (finalizeLifecycleEvent env evt skipError ?s)) \<le> length (ch_timers ?s) + 1"
      using ends_finalize[unfolded ends.within_def] by blast
    moreover have "length (ch_timers ?s) < length (ch_timers s)"
      using length_alist_delete_present[of "ch_timers s" n] Some by simp
    ultimately show ?thesis by (simp add: error_timer_fired_def Some v)
  qed (simp add: error_timer_fired_def)
  then show ?thesis by (simp add: ends.within_def)
qed

text \<open>What \<open>chat.send\<close> and \<open>chat.inject\<close> tell themselves.\<close>

lemma ends_nextChatSeq: "(\<And>n. ends.within k (f n)) \<Longrightarrow> ends.within k (nextChatSeq r f)"
  unfolding nextChatSeq_def Let_def by (intro ends.within_with_state ends.within_seq0(1)[OF ends_update]) simp_all

lemma ends_told: "ends.within 1 (send_chat k p slow)"
  by (rule ends.within_mono[OF ends_send_chat]) simp

lemma ends_drop_chat_seq: "ends.within 0 (drop_chat_seq r)"
  unfolding drop_chat_seq_def by (rule ends_update) simp

lemma ends_broadcast_final: "ends.within 1 (broadcastChatFinal env r k m)"
  unfolding broadcastChatFinal_def by (intro ends_nextChatSeq ends.within_seq0(2) ends_told ends_drop_chat_seq)

lemma ends_broadcast_error: "ends.within 1 (broadcastChatError r k x)"
  unfolding broadcastChatError_def by (intro ends_nextChatSeq ends.within_seq0(2) ends_told ends_drop_chat_seq)

lemma ends_replied: "ends.within (if started then 0 else 1) (chat_send_replied env r k started replies m)"
proof -
  have "ends.within 0 (broadcastSideResult r k p)" for p
    unfolding broadcastSideResult_def by (intro ends_nextChatSeq ends.within_emit) simp
  then show ?thesis
    unfolding chat_send_replied_def Let_def by (simp add: ends.within_seq0(1) ends_broadcast_final[simplified])
qed

text \<open>
  The input ends a chat: an agent reports that its run has ended, a \<open>chat.send\<close> that started no agent is answered,
  a \<open>chat.send\<close> has failed, or a message is injected.
\<close>

fun ending_input :: "chat_env \<times> chat_input \<Rightarrow> nat" where
  "ending_input (env, AgentEmits r st d k) =
     (if st = ''lifecycle'' \<and> terminal_phase (as_str (map_of d ''phase'')) then 1 else 0)"
| "ending_input (env, SendReplied r k started replies m) = (if started then 0 else 1)"
| "ending_input (env, SendFailed r k x) = 1"
| "ending_input (env, InjectChat m k x) = 1"
| "ending_input (env, _) = 0"

lemma emitted_phase:
  "lifecycle_phase_of (fst (emitAgentEvent now r st d k ag)) = (if st = ''lifecycle'' then as_str (map_of d ''phase'') else None)"
  by (simp add: lifecycle_phase_of_def data_text_def)

lemma ends_step: "ends.within (ending_input i) (chat_step i)"
proof (cases i rule: chat_step.cases)
  case (1 env r st d k)
  have "ends.within (ending_input i) (case emitAgentEvent (ce_now env) r st d k ag of (evt, ag) \<Rightarrow>
      seq (update (\<lambda>s. s\<lparr>ch_agents := ag\<rparr>)) (agent_event_handler env evt))" for ag
  proof -
    obtain evt ag' where e: "emitAgentEvent (ce_now env) r st d k ag = (evt, ag')" by fastforce
    have k: "ending_input i = (if terminal_phase (lifecycle_phase_of evt) then 1 else 0)"
      using emitted_phase[of "ce_now env" r st d k ag] by (simp add: 1 e) (simp add: terminal_phase_def)
    show ?thesis
      unfolding e k prod.case by (rule ends.within_seq0(1)[OF ends_update ends_handler]) simp
  qed
  then show ?thesis unfolding 1 chat_step.simps by (intro ends.within_with_state)
next
  case (8 env key reason)
  show ?thesis unfolding 8 chat_step.simps ending_input.simps abortChatRunsForSessionKey_def
    by (auto intro!: ends.within_with_state ends.within_each ends_abort split: prod.split)
next
  case (13 env r k started replies m)
  show ?thesis unfolding 13 chat_step.simps ending_input.simps by (rule ends_replied)
next
  case (15 env m k x)
  show ?thesis unfolding 15 chat_step.simps ending_input.simps chat_inject_def by (rule ends_told)
qed (auto intro!: ends_update ends_timer ends_abort ends_sweep ends_broadcast_error[simplified])

lemma chat_ends_bounded: "ends.within (sum_list (map ending_input evs)) (chat_run evs)"
  unfolding chat_run_def by (rule ends.within_for_each) (rule ends_step)

text \<open>
  C17: whatever comes to the gateway's chats, no more ends of chats are told (final texts and errors) than agents report ends of
  runs, calls of \<open>chat.send\<close> fail or are answered without an agent, and messages are injected; an error that still waits
  for a retry counts as one told.
\<close>

theorem chat_ends_once:
  "sum_list (map ends_chat (snd (chat_run evs new_chat_server))) + length (ch_timers (fst (chat_run evs new_chat_server)))
     \<le> sum_list (map ending_input evs)"
  using chat_ends_bounded[of evs, unfolded ends.within_def ends.total_def, rule_format, of new_chat_server]
  by (simp add: new_chat_server_def)

section \<open>The numbers of a run's events\<close>

text \<open>
  The last number that the handler saw of a run is the last one given out, or (for the runs \<open>w\<close>) the count
  of the run has been forgotten.
\<close>

definition numbered :: "(string \<Rightarrow> bool) \<Rightarrow> chat_server \<Rightarrow> bool" where
  "numbered w s \<longleftrightarrow> distinct (map fst (ch_agentRunSeq s))
     \<and> (\<forall>r n. map_of (ch_agentRunSeq s) r = Some n \<longrightarrow>
          map_of (ag_seqByRun (ch_agents s)) r = Some n \<or> w r \<and> map_of (ag_seqByRun (ch_agents s)) r = None)"

interpretation num: guard "numbered w" "\<lambda>e. False" for w .

lemma num_cong:
  "ch_agentRunSeq s' = ch_agentRunSeq s \<Longrightarrow> ag_seqByRun (ch_agents s') = ag_seqByRun (ch_agents s)
     \<Longrightarrow> numbered w s' \<longleftrightarrow> numbered w s"
  by (simp add: numbered_def)

lemma num_framed: "core.framed a \<Longrightarrow> num.kept w a"
  by (simp add: num.kept_def numbered_def core_fields)

lemma num_same:
  "(\<And>s. ch_agentRunSeq (f s) = ch_agentRunSeq s) \<Longrightarrow> (\<And>s. ag_seqByRun (ch_agents (f s)) = ag_seqByRun (ch_agents s))
     \<Longrightarrow> num.kept w (update f)"
  by (rule num.kept_update) (simp add: numbered_def)

lemma num_fewer:
  assumes "numbered w s" and "distinct (map fst m)" and "\<And>r n. map_of m r = Some n \<Longrightarrow> map_of (ch_agentRunSeq s) r = Some n"
  shows "numbered w (s\<lparr>ch_agentRunSeq := m\<rparr>)"
  using assms by (simp add: numbered_def)

lemma num_delete: "numbered w s \<Longrightarrow> numbered w (s\<lparr>ch_agentRunSeq := AList.delete r (ch_agentRunSeq s)\<rparr>)"
  by (rule num_fewer) (auto simp: numbered_def distinct_delete AList.delete_conv' split: if_splits)

lemma num_forget: "num.kept w (forget_run now r c)"
proof -
  have "numbered w (s\<lparr>ch_recipients := mark_final now r (ch_recipients s), ch_agents := clearAgentRunContext r (ch_agents s),
      ch_agentRunSeq := AList.delete c (AList.delete r (ch_agentRunSeq s))\<rparr>)" if "numbered w s" for s
    using that by (auto simp: numbered_def distinct_delete AList.delete_conv' clear_seq restrict_map_def split: if_splits)
  then show ?thesis unfolding forget_run_def by (rule num.kept_update)
qed

lemma num_if: "num.kept w a \<Longrightarrow> num.kept w b \<Longrightarrow> num.kept w (if c then a else b)"
  by simp

lemma num_option: "num.kept w a \<Longrightarrow> (\<And>x. num.kept w (b x)) \<Longrightarrow> num.kept w (case v of None \<Rightarrow> a | Some x \<Rightarrow> b x)"
  by (cases v) simp_all

lemma num_clear_pending: "num.kept w (clearPendingTerminalLifecycleError r)"
  unfolding clearPendingTerminalLifecycleError_def
  by (intro num.kept_with_state num_option num.kept_skip num.kept_seq num.kept_emit num_same) simp_all

lemma num_finish_chat: "num.kept w (finish_chat env k ro evt phase skipError)"
  unfolding finish_chat_def
  by (intro num_if num.kept_seq num_same num.kept_skip num_framed[OF core_clear] num_framed[OF core_final_event])
    (simp_all split: option.split)

lemma num_finalize: "num.kept w (finalizeLifecycleEvent env evt skipError)"
  unfolding finalizeLifecycleEvent_def Let_def
  by (intro num_option num_if num.kept_skip num.kept_seq num.kept_with_state num_clear_pending num_finish_chat num_forget
      num_framed[OF core_sessions_changed])

lemma num_schedule: "num.kept w (scheduleTerminalLifecycleError env evt skipError)"
  unfolding scheduleTerminalLifecycleError_def
  by (intro num.kept_seq num_clear_pending num.kept_with_state num.kept_emit num_same) simp_all

lemma num_lifecycle: "num.kept w (lifecycle_event env ro evt)"
  unfolding lifecycle_event_def Let_def
  by (intro num_option num_if num.kept_skip num.kept_seq num.kept_with_state num_framed[OF core_clear] num_finalize num_schedule
      num_framed[OF core_sessions_changed])

lemma clear_pending_fields [simp]:
  "ch_agents (fst (clearPendingTerminalLifecycleError r s)) = ch_agents s"
  "ch_agentRunSeq (fst (clearPendingTerminalLifecycleError r s)) = ch_agentRunSeq s"
  "ch_abortedRuns (fst (clearPendingTerminalLifecycleError r s)) = ch_abortedRuns s"
  "ch_registry (fst (clearPendingTerminalLifecycleError r s)) = ch_registry s"
  by (simp_all add: clearPendingTerminalLifecycleError_def split: option.split)

text \<open>The number of an event that has just been given out is the last one of its run.\<close>

lemma num_see:
  assumes "numbered w s" and "\<And>q. q \<noteq> r \<Longrightarrow> map_of (ag_seqByRun (ch_agents s')) q = map_of (ag_seqByRun (ch_agents s)) q"
    and "map_of (ag_seqByRun (ch_agents s')) r = Some n" and "ch_agentRunSeq s' = ch_agentRunSeq s"
  shows "numbered w (s'\<lparr>ch_agentRunSeq := AList.update r n (ch_agentRunSeq s')\<rparr>)"
  using assms by (auto simp: numbered_def distinct_update AList.update_conv' split: if_splits)

lemma num_handler:
  assumes "numbered w s" and "\<And>q. q \<noteq> ae_runId evt \<Longrightarrow>
      map_of (ag_seqByRun (ch_agents s')) q = map_of (ag_seqByRun (ch_agents s)) q"
    and "map_of (ag_seqByRun (ch_agents s')) (ae_runId evt) = Some (ae_seq evt)" and "ch_agentRunSeq s' = ch_agentRunSeq s"
  shows "numbered w (fst (agent_event_handler env evt s'))"
proof -
  define s1 where "s1 = fst ((if lifecycle_phase_of evt = Some ''error'' then skip
      else clearPendingTerminalLifecycleError (ae_runId evt)) s')"
  have s1: "ch_agents s1 = ch_agents s'" "ch_agentRunSeq s1 = ch_agentRunSeq s'" by (simp_all add: s1_def)
  have see: "numbered w (s1\<lparr>ch_agentRunSeq := AList.update (ae_runId evt) (ae_seq evt) (ch_agentRunSeq s1)\<rparr>)"
    by (rule num_see[OF assms(1)]) (simp_all add: s1 assms(2-4))
  have rest: "num.kept w (seq (if ae_stream evt = ''tool'' then tool_event env ro evt p else other_event env ro evt p)
      (seq (session_chat env ro evt p v) (lifecycle_event env ro evt)))" for ro p v
    by (intro num.kept_seq num_if num_lifecycle num_framed core_frames)
  have "fst (agent_event_handler env evt s') = fst (seq (if ae_stream evt = ''tool'' then tool_event env ro evt p else other_event env ro evt p)
      (seq (session_chat env ro evt p v) (lifecycle_event env ro evt))
      (s1\<lparr>ch_agentRunSeq := AList.update (ae_runId evt) (ae_seq evt) (ch_agentRunSeq s1)\<rparr>))"
    if "ro = route_of env s1 evt" and "v = (if ae_stream evt = ''tool'' then resolveToolVerboseLevel env (ch_agents s1) (ae_runId evt) (route_key ro)
             else ''off'')" and "p = tool_payload evt ro v" for ro p v
    unfolding agent_event_handler_def Let_def that s1_def by simp
  then show ?thesis using rest see unfolding num.kept_def by metis
qed

lemma num_abort: "num.kept w (abortChatRunById env r k reason)"
proof -
  have gone: "num.kept w (update (\<lambda>s. s\<lparr>ch_agentRunSeq := (case v of
      Some e \<Rightarrow> if cr_clientRunId e \<noteq> [] then AList.delete (cr_clientRunId e) (AList.delete r (ch_agentRunSeq s))
        else AList.delete r (ch_agentRunSeq s)
    | None \<Rightarrow> AList.delete r (ch_agentRunSeq s))\<rparr>))" for v
    by (rule num.kept_update, rule num_fewer, assumption)
      (auto simp: numbered_def AList.delete_eq distinct_map_filter split: option.splits if_splits)
  have told: "num.kept w (broadcastChatAborted env r k reason x)" for x
    unfolding broadcastChatAborted_def by (intro num.kept_with_state num_framed core_send_chat)
  show ?thesis
    unfolding abortChatRunById_def Let_def
    by (intro num.kept_with_state num_if num.kept_skip num.kept_seq gone told num.kept_emit num_same) simp_all
qed

lemma num_timer: "num.kept w (error_timer_fired env n)"
  unfolding error_timer_fired_def
  by (intro num.kept_with_state num_option num.kept_skip)
    (auto intro!: num.kept_seq num_finalize num_same split: prod.split)

text \<open>What \<open>chat.send\<close> and \<open>chat.inject\<close> tell takes the last number of their run away, at most.\<close>

lemma num_told:
  assumes "numbered w s" and "\<And>q. map_of m q \<in> {None, map_of (ch_agentRunSeq s) q}"
    and "distinct (map fst (ch_agentRunSeq s)) \<Longrightarrow> distinct (map fst m)"
  shows "numbered w (s\<lparr>ch_agentRunSeq := m\<rparr>)"
proof (rule num_fewer[OF assms(1)])
  show "distinct (map fst m)" using assms(1,3) by (simp add: numbered_def)
  show "map_of (ch_agentRunSeq s) q = Some n" if "map_of m q = Some n" for q n using assms(2)[of q] that by auto
qed

lemma send_chat_state [simp]: "fst (send_chat k p slow s) = s"
  by (simp add: send_chat_def)

lemma num_broadcast_error: "num.kept w (broadcastChatError r k x)"
  unfolding num.kept_def broadcastChatError_def nextChatSeq_def drop_chat_seq_def Let_def
  by (auto intro!: num_told simp: AList.delete_conv' AList.update_conv' distinct_delete distinct_update split: if_splits)

lemma num_replied: "num.kept w (chat_send_replied env r k started replies m)"
  unfolding num.kept_def chat_send_replied_def broadcastChatFinal_def broadcastSideResult_def nextChatSeq_def drop_chat_seq_def Let_def
  by (auto intro!: num_told simp: AList.delete_conv' AList.update_conv' distinct_delete distinct_update split: if_splits)

lemma num_clear_context: "w r \<Longrightarrow> num.kept w (update (\<lambda>s. s\<lparr>ch_agents := clearAgentRunContext r (ch_agents s)\<rparr>))"
  by (rule num.kept_update) (auto simp: numbered_def clear_seq)

lemma num_sweep: "num.kept (\<lambda>r. True) (sweep_runs env)"
proof -
  have drop: "numbered (\<lambda>r. True) (s\<lparr>ch_agentRunSeq := drop k (ch_agentRunSeq s)\<rparr>)" if "numbered (\<lambda>r. True) s" for s k
  proof (rule num_fewer[OF that])
    have d: "distinct (map fst (ch_agentRunSeq s))" using that by (simp add: numbered_def)
    then show "distinct (map fst (drop k (ch_agentRunSeq s)))" by (simp add: drop_map[symmetric])
    show "map_of (ch_agentRunSeq s) r = Some n" if "map_of (drop k (ch_agentRunSeq s)) r = Some n" for r n
      using map_of_SomeD[OF that] d by (auto dest: in_set_dropD)
  qed
  have clear: "map_of (ag_seqByRun (fold (\<lambda>(q, x) s. if stale_context now m x then clearAgentRunContext q s else s) xs ag)) r
      \<in> {None, map_of (ag_seqByRun ag) r}" for now m xs ag r
  proof (induction xs arbitrary: ag)
    case (Cons a xs)
    show ?case
      using Cons.IH[of "if stale_context now m (snd a) then clearAgentRunContext (fst a) ag else ag"]
      by (cases a) (auto simp: clear_seq split: if_splits)
  qed simp
  have stale: "numbered (\<lambda>r. True) (s\<lparr>ch_agents := sweepStaleRunContexts now m (ch_agents s)\<rparr>)"
    if "numbered (\<lambda>r. True) s" for s now m
    unfolding numbered_def sweepStaleRunContexts_def
    using that clear[of now m "ag_runContextById (ch_agents s)" "ch_agents s"] by (fastforce simp: numbered_def)
  have buf: "ch_agentRunSeq (drop_chat_buffers r s) = ch_agentRunSeq s" "ch_agents (drop_chat_buffers r s) = ch_agents s" for r s
    by (simp_all add: drop_chat_buffers_def)
  show ?thesis
    unfolding sweep_runs_def
    apply (intro num.kept_seq num.kept_with_state num.kept_for_each)
        apply (rule num.kept_update, rule drop, assumption)
       apply (auto intro!: num_abort split: prod.split)[1]
      apply (rule num_same; rule fold_same; auto simp: buf split: prod.split)
     apply (rule num_same; rule fold_same; auto simp: buf split: prod.split)
    apply (rule num.kept_update, rule stale, assumption)
    done
qed

text \<open>The events after which the gateway no longer knows how many events a run had.\<close>

definition forgets :: "string \<Rightarrow> chat_input \<Rightarrow> bool" where
  "forgets r i \<longleftrightarrow> i = Sweep \<or> i = ClearContext r"

lemma num_step:
  assumes "\<And>r. forgets r (snd i) \<Longrightarrow> w r"
  shows "num.kept w (chat_step i)"
proof (cases i rule: chat_step.cases)
  case (1 env r st d k)
  have "numbered w (fst (chat_step i s))" if "numbered w s" for s
  proof -
    obtain evt ag where e: "emitAgentEvent (ce_now env) r st d k (ch_agents s) = (evt, ag)" by fastforce
    have "numbered w (fst (agent_event_handler env evt (s\<lparr>ch_agents := ag\<rparr>)))"
      using that emit_seq[of "ce_now env" r st d k "ch_agents s"] emit_fields(1)[of "ce_now env" r st d k "ch_agents s"]
      by (intro num_handler[OF that]) (simp_all add: e)
    then show ?thesis by (simp add: 1 e)
  qed
  then show ?thesis by (simp add: num.kept_def)
next
  case (3 env r x)
  show ?thesis unfolding 3 by (auto intro!: num_same simp: registerAgentRunContext_def)
next
  case (8 env key reason)
  show ?thesis unfolding 8 chat_step.simps abortChatRunsForSessionKey_def
    by (auto intro!: num.kept_with_state num.kept_for_each num_abort split: prod.split)
next
  case (12 env)
  then have "w = (\<lambda>r. True)" using assms by (simp add: forgets_def fun_eq_iff)
  then show ?thesis using num_sweep 12 by simp
next
  case (13 env r k started replies m)
  show ?thesis unfolding 13 chat_step.simps by (rule num_replied)
next
  case (15 env m k x)
  show ?thesis unfolding 15 chat_step.simps chat_inject_def by (rule num_framed[OF core_send_chat])
next
  case (16 env r)
  then show ?thesis using num_clear_context assms by (simp add: forgets_def)
qed (auto intro!: num_same num_timer num_abort num_broadcast_error)

lemma num_run: "numbered (\<lambda>r. list_ex (forgets r) (map snd evs)) (fst (chat_run evs new_chat_server))"
proof -
  have "num.kept (\<lambda>r. list_ex (forgets r) (map snd evs)) (chat_run evs)"
    unfolding chat_run_def by (rule num.kept_for_each, rule num_step) (auto simp: list_ex_iff)
  moreover have "numbered (\<lambda>r. list_ex (forgets r) (map snd evs)) new_chat_server" by (simp add: numbered_def new_chat_server_def)
  ultimately show ?thesis by (simp add: num.kept_def)
qed

text \<open>
  C19: the handler reports a gap in a run's events only after a sweep came by or the run's agent command, when it was done,
  cleared what was known of the run: the event then carries the number 1 again. Without either, the next event
  of a run always has the number the handler expects.
\<close>

theorem gaps_only_after_clearing:
  assumes "s = fst (chat_run evs new_chat_server)"
    and "emitAgentEvent now r st d k (ch_agents s) = (evt, ag)"
    and "seq_gap (s\<lparr>ch_agents := ag\<rparr>) evt"
  shows "(Sweep \<in> snd ` set evs \<or> ClearContext r \<in> snd ` set evs) \<and> ae_seq evt = 1"
proof -
  have evt: "ae_runId evt = r" "ae_seq evt = Suc (nullish (map_of (ag_seqByRun (ch_agents s)) r) 0)"
    using emit_fields(1,4)[of now r st d k "ch_agents s"] assms(2) by simp_all
  have "numbered (\<lambda>r. list_ex (forgets r) (map snd evs)) s" unfolding assms(1) by (rule num_run)
  moreover obtain n where "map_of (ch_agentRunSeq s) r = Some n" "ae_seq evt \<noteq> Suc n"
    using assms(3) by (cases "map_of (ch_agentRunSeq s) r") (auto simp: seq_gap_def Let_def evt(1))
  ultimately have "list_ex (forgets r) (map snd evs) \<and> map_of (ag_seqByRun (ch_agents s)) r = None"
    unfolding numbered_def using evt(2) by fastforce
  then have "list_ex (forgets r) (map snd evs)" "ae_seq evt = 1" using evt(2) by simp_all
  then show ?thesis by (force simp: list_ex_iff forgets_def)
qed

text \<open>An environment in which nothing is stored and nothing is a heartbeat.\<close>

definition still_env :: "int \<Rightarrow> chat_env" where
  "still_env now = \<lparr>ce_now = now, ce_showOk = Some True, ce_row = (\<lambda>k. None), ce_sessionForRun = (\<lambda>r. None),
     ce_verbose = (\<lambda>k. None), ce_word = (\<lambda>s. False), ce_heartbeat = (\<lambda>s. (False, False, s)), ce_errorKind = (\<lambda>v. None),
     ce_formatForLog = (\<lambda>v. ''failed''), ce_graceMs = 15000, ce_stripEnvelope = (\<lambda>m. m)\<rparr>"

definition known_run :: run_context where
  "known_run = \<lparr>xc_sessionKey = None, xc_verboseLevel = None, xc_isHeartbeat = None,
     xc_isControlUiVisible = None, xc_registeredAt = None, xc_lastActiveAt = None\<rparr>"

text \<open>
  A run that waits for more than half an hour, as one that asks for an approval may; and a run whose agent command
  fails and clears what is known of the run, and that is tried again within the grace for errors.
\<close>

definition waiting_run :: "(chat_env \<times> chat_input) list" where
  "waiting_run = [(still_env 1000, RegisterContext ''r'' known_run),
     (still_env 1000, AgentEmits ''r'' ''approval'' [] None), (still_env 2002000, Sweep)]"

definition retried_run :: "(chat_env \<times> chat_input) list" where
  "retried_run = [(still_env 1000, AgentEmits ''r'' ''lifecycle'' [(''phase'', JStr ''error'')] None),
     (still_env 1000, ClearContext ''r'')]"

lemma forgotten_run:
  "ch_agentRunSeq (fst (chat_run waiting_run new_chat_server)) = [(''r'', 1)]"
  "ag_seqByRun (ch_agents (fst (chat_run waiting_run new_chat_server))) = []"
  by (simp_all add: chat_run_def waiting_run_def still_env_def known_run_def new_chat_server_def no_agent_events_def
      registerAgentRunContext_def emitAgentEvent_def agent_event_handler_def clearPendingTerminalLifecycleError_def
      lifecycle_phase_of_def route_of_def peek_chat_run_def event_session_key_def getAgentRunContext_def seq_gap_def
      other_event_def session_chat_def route_key_def lifecycle_event_def sweep_runs_def sweepStaleRunContexts_def
      stale_context_def clearAgentRunContext_def AGENT_RUN_SEQ_MAX_def)

lemma cleared_run:
  "ch_agentRunSeq (fst (chat_run retried_run new_chat_server)) = [(''r'', 1)]"
  "ag_seqByRun (ch_agents (fst (chat_run retried_run new_chat_server))) = []"
  by (simp_all add: chat_run_def retried_run_def still_env_def new_chat_server_def no_agent_events_def
      emitAgentEvent_def agent_event_handler_def clearPendingTerminalLifecycleError_def scheduleTerminalLifecycleError_def
      lifecycle_phase_of_def data_text_def route_of_def peek_chat_run_def event_session_key_def getAgentRunContext_def seq_gap_def
      other_event_def session_chat_def route_key_def lifecycle_event_def clearAgentRunContext_def clearBufferedChatState_def)

lemma gaps_only_after_clearing_witness:
  "(Sweep \<in> snd ` set waiting_run \<or> ClearContext ''r'' \<in> snd ` set waiting_run)
    \<and> ae_seq (fst (emitAgentEvent 2003000 ''r'' ''item'' [] None (ch_agents (fst (chat_run waiting_run new_chat_server))))) = 1
   \<and> (Sweep \<in> snd ` set retried_run \<or> ClearContext ''r'' \<in> snd ` set retried_run)
    \<and> ae_seq (fst (emitAgentEvent 2000 ''r'' ''item'' [] None (ch_agents (fst (chat_run retried_run new_chat_server))))) = 1"
proof -
  let ?e = "\<lambda>now evs. emitAgentEvent now ''r'' ''item'' [] None (ch_agents (fst (chat_run evs new_chat_server)))"
  have gap: "seq_gap (fst (chat_run evs new_chat_server)\<lparr>ch_agents := snd (?e now evs)\<rparr>) (fst (?e now evs))"
    if "map_of (ch_agentRunSeq (fst (chat_run evs new_chat_server))) ''r'' = Some 1"
      and "map_of (ag_seqByRun (ch_agents (fst (chat_run evs new_chat_server)))) ''r'' = None" for evs now
    using that by (simp add: seq_gap_def)
  have "seq_gap (fst (chat_run waiting_run new_chat_server)\<lparr>ch_agents := snd (?e 2003000 waiting_run)\<rparr>) (fst (?e 2003000 waiting_run))"
    by (rule gap) (simp_all add: forgotten_run)
  moreover have "seq_gap (fst (chat_run retried_run new_chat_server)\<lparr>ch_agents := snd (?e 2000 retried_run)\<rparr>) (fst (?e 2000 retried_run))"
    by (rule gap) (simp_all add: cleared_run)
  ultimately show ?thesis
    using gaps_only_after_clearing[OF refl prod.collapse[symmetric]] by blast
qed

section \<open>Errors that wait for a retry\<close>

text \<open>The timers that wait and the runs they wait for are numbered alike; no timer has a number still to come.\<close>

definition waiting_ok :: "chat_server \<Rightarrow> bool" where
  "waiting_ok s \<longleftrightarrow> distinct (map fst (ch_timers s))
     \<and> (\<forall>n evt skipError. (n, evt, skipError) \<in> set (ch_timers s) \<longrightarrow>
          map_of (ch_pendingErrors s) (ae_runId evt) = Some n \<and> n < ch_timerCount s)"

text \<open>No timer waits for a run.\<close>

definition no_wait :: "string \<Rightarrow> chat_server \<Rightarrow> bool" where
  "no_wait r s \<longleftrightarrow> (\<forall>(n, evt, skipError) \<in> set (ch_timers s). ae_runId evt \<noteq> r)"

interpretation wait: guard waiting_ok "\<lambda>e. False" .
interpretation idle: guard "no_wait r" "\<lambda>e. False" for r .

lemma waiting_okD:
  "waiting_ok s \<Longrightarrow> (n, evt, skipError) \<in> set (ch_timers s)
     \<Longrightarrow> map_of (ch_pendingErrors s) (ae_runId evt) = Some n \<and> n < ch_timerCount s"
  unfolding waiting_ok_def by blast

lemma wait_framed: "core.framed a \<Longrightarrow> wait.kept a" "core.framed a \<Longrightarrow> idle.kept r a"
  by (simp_all add: wait.kept_def idle.kept_def waiting_ok_def no_wait_def core_fields)

lemma wait_same:
  assumes "\<And>s. ch_timers (f s) = ch_timers s" and "\<And>s. ch_pendingErrors (f s) = ch_pendingErrors s"
    and "\<And>s. ch_timerCount (f s) = ch_timerCount s"
  shows "wait.kept (update f)" and "idle.kept r (update f)"
  using assms by (simp_all add: wait.kept_def idle.kept_def waiting_ok_def no_wait_def)

lemma wait_if: "wait.kept a \<Longrightarrow> wait.kept b \<Longrightarrow> wait.kept (if c then a else b)"
  "idle.kept r a \<Longrightarrow> idle.kept r b \<Longrightarrow> idle.kept r (if c then a else b)"
  by simp_all

lemma wait_option: "wait.kept a \<Longrightarrow> (\<And>x. wait.kept (f x)) \<Longrightarrow> wait.kept (case v of None \<Rightarrow> a | Some x \<Rightarrow> f x)"
  "idle.kept r a \<Longrightarrow> (\<And>x. idle.kept r (f x)) \<Longrightarrow> idle.kept r (case v of None \<Rightarrow> a | Some x \<Rightarrow> f x)"
  by (cases v; simp)+

lemma timers_after_delete: "set (AList.delete n xs) = {(k, v) \<in> set xs. k \<noteq> n}"
  by (auto simp: AList.delete_eq)

lemma wait_delete:
  assumes ok: "waiting_ok s" and n: "map_of (ch_pendingErrors s) r = Some n"
    and t: "ch_timers s' = AList.delete n (ch_timers s)" "ch_pendingErrors s' = AList.delete r (ch_pendingErrors s)"
      "ch_timerCount s' = ch_timerCount s"
  shows "waiting_ok s'" and "no_wait r s'"
proof -
  have other: "ae_runId evt \<noteq> r \<and> map_of (ch_pendingErrors s) (ae_runId evt) = Some k \<and> k < ch_timerCount s"
    if "(k, evt, skipError) \<in> set (ch_timers s')" for k evt skipError
  proof -
    have k: "(k, evt, skipError) \<in> set (ch_timers s)" "k \<noteq> n" using that by (auto simp: t timers_after_delete)
    then show ?thesis using waiting_okD[OF ok k(1)] n by auto
  qed
  then show "waiting_ok s'"
    using ok unfolding waiting_ok_def t(2,3) by (auto simp: t(1) distinct_delete AList.delete_conv')
  show "no_wait r s'" using other by (auto simp: no_wait_def)
qed

lemma wait_clear:
  assumes "waiting_ok s"
  shows "waiting_ok (fst (clearPendingTerminalLifecycleError r s))"
    and "no_wait r (fst (clearPendingTerminalLifecycleError r s))"
proof (atomize (full), cases "map_of (ch_pendingErrors s) r")
  case None
  then show "waiting_ok (fst (clearPendingTerminalLifecycleError r s)) \<and> no_wait r (fst (clearPendingTerminalLifecycleError r s))"
    using assms waiting_okD[OF assms] by (fastforce simp: clearPendingTerminalLifecycleError_def no_wait_def)
next
  case (Some n)
  have "fst (clearPendingTerminalLifecycleError r s) = s\<lparr>ch_timers := AList.delete n (ch_timers s),
      ch_pendingErrors := AList.delete r (ch_pendingErrors s)\<rparr>"
    by (simp add: clearPendingTerminalLifecycleError_def Some)
  then show "waiting_ok (fst (clearPendingTerminalLifecycleError r s)) \<and> no_wait r (fst (clearPendingTerminalLifecycleError r s))"
    using wait_delete[OF assms Some] by simp
qed

lemma wait_clear_kept: "wait.kept (clearPendingTerminalLifecycleError r)"
  by (simp add: wait.kept_def wait_clear(1))

lemma idle_clear_kept: "idle.kept r (clearPendingTerminalLifecycleError q)"
  by (auto simp: idle.kept_def no_wait_def clearPendingTerminalLifecycleError_def timers_after_delete split: option.split)

lemma wait_finish_chat: "wait.kept (finish_chat env k ro evt phase skipError)" "idle.kept r (finish_chat env k ro evt phase skipError)"
  unfolding finish_chat_def
  by (intro wait_if wait.kept_seq idle.kept_seq wait_same wait.kept_skip idle.kept_skip wait_framed core_clear core_final_event;
      simp split: option.split)+

lemma wait_forget: "wait.kept (forget_run now q c)" "idle.kept r (forget_run now q c)"
  unfolding forget_run_def by (intro wait_same; simp)+

lemma wait_finalize: "wait.kept (finalizeLifecycleEvent env evt skipError)"
  unfolding finalizeLifecycleEvent_def Let_def
  by (intro wait_option wait_if wait.kept_skip wait.kept_seq wait.kept_with_state wait_clear_kept wait_finish_chat wait_forget
      wait_framed core_sessions_changed)

lemma idle_finalize: "idle.kept r (finalizeLifecycleEvent env evt skipError)"
  unfolding finalizeLifecycleEvent_def Let_def
  by (intro wait_option wait_if idle.kept_skip idle.kept_seq idle.kept_with_state idle_clear_kept wait_finish_chat wait_forget
      wait_framed core_sessions_changed)

lemma wait_schedule: "wait.kept (scheduleTerminalLifecycleError env evt skipError)"
proof -
  have "waiting_ok (fst (scheduleTerminalLifecycleError env evt skipError s))" if ok: "waiting_ok s" for s
  proof -
    define s1 where "s1 = fst (clearPendingTerminalLifecycleError (ae_runId evt) s)"
    have s1: "waiting_ok s1" "no_wait (ae_runId evt) s1" using wait_clear[OF ok] by (simp_all add: s1_def)
    have "fst (scheduleTerminalLifecycleError env evt skipError s) = s1\<lparr>ch_timers := ch_timers s1 @ [(ch_timerCount s1, evt, skipError)],
          ch_pendingErrors := AList.update (ae_runId evt) (ch_timerCount s1) (ch_pendingErrors s1),
          ch_timerCount := Suc (ch_timerCount s1)\<rparr>"
      by (simp add: scheduleTerminalLifecycleError_def s1_def)
    moreover have "ch_timerCount s1 \<notin> fst ` set (ch_timers s1)" using s1(1) by (fastforce simp: waiting_ok_def)
    ultimately show ?thesis
      using s1 by (fastforce simp: waiting_ok_def no_wait_def AList.update_conv')
  qed
  then show ?thesis by (simp add: wait.kept_def)
qed

lemma wait_lifecycle: "wait.kept (lifecycle_event env ro evt)"
  unfolding lifecycle_event_def Let_def
  by (intro wait_option wait_if wait.kept_skip wait.kept_seq wait.kept_with_state wait_finalize wait_schedule
      wait_framed core_clear core_sessions_changed)

lemma idle_lifecycle:
  assumes "lifecycle_phase_of evt \<noteq> Some ''error''"
  shows "idle.kept r (lifecycle_event env ro evt)"
proof (cases "lifecycle_phase_of evt")
  case (Some p)
  with assms have "p \<noteq> ''error''" by auto
  then show ?thesis
    unfolding lifecycle_event_def Some option.case
    by (simp only: if_False) (intro wait_if wait_option idle.kept_skip idle_finalize wait_framed core_sessions_changed)
qed (simp add: lifecycle_event_def)

lemma wait_rest: "wait.kept (seq (if ae_stream evt = ''tool'' then tool_event env ro evt p else other_event env ro evt p)
    (seq (session_chat env ro evt p v) (lifecycle_event env ro evt)))"
  by (intro wait.kept_seq wait_if wait_lifecycle wait_framed core_frames)

lemma idle_rest:
  assumes "lifecycle_phase_of evt \<noteq> Some ''error''"
  shows "idle.kept r (seq (if ae_stream evt = ''tool'' then tool_event env ro evt p else other_event env ro evt p)
    (seq (session_chat env ro evt p v) (lifecycle_event env ro evt)))"
  by (intro idle.kept_seq wait_if idle_lifecycle[OF assms] wait_framed core_frames)

lemma wait_handler: "wait.kept (agent_event_handler env evt)"
  unfolding agent_event_handler_def Let_def
  by (intro wait.kept_seq[OF _ wait.kept_with_state] wait.kept_seq[of "if _ then emit _ else _"] wait.kept_seq[of "update _"]
      wait_rest wait_if wait.kept_skip wait.kept_emit wait_clear_kept wait_same) simp_all

lemma idle_handler:
  assumes "lifecycle_phase_of evt \<noteq> Some ''error''" and "waiting_ok s"
  shows "no_wait (ae_runId evt) (fst (agent_event_handler env evt s))"
proof -
  have "idle.kept (ae_runId evt) (agent_event_handler env evt)"
    unfolding agent_event_handler_def Let_def
    by (intro idle.kept_seq[OF _ idle.kept_with_state] idle.kept_seq[of _ "if _ then emit _ else _"] idle.kept_seq[of _ "update _"]
        idle_rest[OF assms(1)] wait_if idle.kept_skip idle.kept_emit idle_clear_kept wait_same) simp_all
  moreover have "clearPendingTerminalLifecycleError (ae_runId evt) (fst (clearPendingTerminalLifecycleError (ae_runId evt) s))
      = (fst (clearPendingTerminalLifecycleError (ae_runId evt) s), [])"
    by (simp add: clearPendingTerminalLifecycleError_def AList.delete_conv' split: option.split)
  then have "fst (agent_event_handler env evt s)
      = fst (agent_event_handler env evt (fst (clearPendingTerminalLifecycleError (ae_runId evt) s)))"
    using assms(1) by (simp add: agent_event_handler_def)
  ultimately show ?thesis using wait_clear(2)[OF assms(2)] unfolding idle.kept_def by metis
qed

lemma wait_abort: "wait.kept (abortChatRunById env r k reason)"
proof -
  have told: "wait.kept (broadcastChatAborted env r k reason x)" for x
    unfolding broadcastChatAborted_def by (intro wait.kept_with_state wait_framed core_send_chat)
  show ?thesis
    unfolding abortChatRunById_def Let_def
    by (intro wait.kept_with_state wait_if wait.kept_skip wait.kept_seq told wait.kept_emit wait_same) simp_all
qed

lemma wait_timer: "wait.kept (error_timer_fired env n)"
proof -
  have "waiting_ok (fst (error_timer_fired env n s))" if ok: "waiting_ok s" for s
  proof (cases "map_of (ch_timers s) n")
    case (Some v)
    then obtain evt skipError where v: "v = (evt, skipError)" by (cases v)
    have "map_of (ch_pendingErrors s) (ae_runId evt) = Some n"
      using waiting_okD[OF ok] map_of_SomeD[OF Some[unfolded v]] by blast
    then have "waiting_ok (s\<lparr>ch_timers := AList.delete n (ch_timers s),
        ch_pendingErrors := AList.delete (ae_runId evt) (ch_pendingErrors s)\<rparr>)"
      by (intro wait_delete(1)[OF ok]) simp_all
    then show ?thesis
      using wait_finalize[of env evt skipError] by (simp add: error_timer_fired_def Some v wait.kept_def)
  qed (simp add: error_timer_fired_def ok)
  then show ?thesis by (simp add: wait.kept_def)
qed

lemma wait_sweep: "wait.kept (sweep_runs env)"
proof -
  have buf: "ch_timers (drop_chat_buffers r s) = ch_timers s" "ch_pendingErrors (drop_chat_buffers r s) = ch_pendingErrors s"
    "ch_timerCount (drop_chat_buffers r s) = ch_timerCount s" for r s
    by (simp_all add: drop_chat_buffers_def)
  show ?thesis
    unfolding sweep_runs_def
    by (intro wait.kept_seq wait.kept_with_state wait.kept_for_each wait_same)
      (auto simp: buf split: prod.split intro!: fold_same wait_if wait_abort)
qed

lemma wait_nextChatSeq: "(\<And>n. wait.kept (f n)) \<Longrightarrow> wait.kept (nextChatSeq r f)"
  unfolding nextChatSeq_def Let_def by (intro wait.kept_with_state wait.kept_seq wait_same) simp_all

lemma wait_drop_chat_seq: "wait.kept (drop_chat_seq r)"
  unfolding drop_chat_seq_def by (intro wait_same) simp_all

lemma wait_told:
  "wait.kept (broadcastChatFinal env r k m)" "wait.kept (broadcastChatError r k x)" "wait.kept (broadcastSideResult r k p)"
  unfolding broadcastChatFinal_def broadcastChatError_def broadcastSideResult_def
  by (intro wait_nextChatSeq wait.kept_seq wait_framed core_send_chat wait_drop_chat_seq wait.kept_emit)+

lemma wait_replied: "wait.kept (chat_send_replied env r k started replies m)"
  unfolding chat_send_replied_def Let_def by (intro wait_if wait.kept_skip wait.kept_seq wait_told)

lemma wait_step: "wait.kept (chat_step i)"
proof (cases i rule: chat_step.cases)
  case (1 env r st d k)
  show ?thesis unfolding 1 chat_step.simps
    by (rule wait.kept_with_state) (auto intro!: wait.kept_seq wait_handler wait_same split: prod.split)
next
  case (8 env key reason)
  show ?thesis unfolding 8 chat_step.simps abortChatRunsForSessionKey_def
    by (auto intro!: wait.kept_with_state wait.kept_for_each wait_abort split: prod.split)
next
  case (13 env r k started replies m)
  show ?thesis unfolding 13 chat_step.simps by (rule wait_replied)
next
  case (15 env m k x)
  show ?thesis unfolding 15 chat_step.simps chat_inject_def by (rule wait_framed(1)[OF core_send_chat])
qed (auto intro!: wait_same wait_timer wait_abort wait_sweep wait_told)

lemma wait_run: "waiting_ok (fst (chat_run evs new_chat_server))"
proof -
  have "wait.kept (chat_run evs)" unfolding chat_run_def by (rule wait.kept_for_each) (rule wait_step)
  then show ?thesis by (simp add: wait.kept_def waiting_ok_def new_chat_server_def)
qed

lemma chat_run_snoc: "chat_run (evs @ [i]) s = seq (chat_run evs) (chat_step i) s"
proof -
  have "for_each chat_step (evs @ [i]) s = seq (for_each chat_step evs) (chat_step i) s" for s
    by (induction evs arbitrary: s) (simp_all add: seq_def split_beta)
  then show ?thesis by (simp add: chat_run_def)
qed

text \<open>
  C18: at any time at most one reported error of a run waits to be told, and any event of the run but another error
  takes it back, so that a run that goes on after an error is not told to have failed.
\<close>

theorem retry_takes_error_back:
  "distinct (map (\<lambda>(n, evt, skipError). ae_runId evt) (ch_timers (fst (chat_run evs new_chat_server))))
   \<and> (\<not> (st = ''lifecycle'' \<and> map_of d ''phase'' = Some (JStr ''error'')) \<longrightarrow>
      r \<notin> set (map (\<lambda>(n, evt, skipError). ae_runId evt)
        (ch_timers (fst (chat_run (evs @ [(env, AgentEmits r st d k)]) new_chat_server)))))"
proof -
  define s where "s = fst (chat_run evs new_chat_server)"
  have ok: "waiting_ok s" unfolding s_def by (rule wait_run)
  have one: "inj_on (\<lambda>(n, evt, skipError). ae_runId evt) (set (ch_timers s))"
  proof (rule inj_onI, clarsimp)
    fix n e b m f c
    assume a: "(n, e, b) \<in> set (ch_timers s)" "(m, f, c) \<in> set (ch_timers s)" "ae_runId e = ae_runId f"
    then have "n = m" using waiting_okD[OF ok a(1)] waiting_okD[OF ok a(2)] by simp
    then show "n = m \<and> e = f \<and> b = c" using ok a(1,2) by (auto simp: waiting_ok_def dest: eq_key_imp_eq_value)
  qed
  have d: "distinct (map (\<lambda>(n, evt, skipError). ae_runId evt) (ch_timers s))"
    using one ok by (simp add: distinct_map waiting_ok_def)
  have "r \<notin> set (map (\<lambda>(n, evt, skipError). ae_runId evt) (ch_timers (fst (chat_step (env, AgentEmits r st d k) s))))"
    if ne: "\<not> (st = ''lifecycle'' \<and> map_of d ''phase'' = Some (JStr ''error''))"
  proof -
    obtain evt ag where e: "emitAgentEvent (ce_now env) r st d k (ch_agents s) = (evt, ag)" by fastforce
    have r: "ae_runId evt = r" using emit_fields(1)[of "ce_now env" r st d k "ch_agents s"] e by simp
    have "lifecycle_phase_of evt \<noteq> Some ''error''"
      using emitted_phase[of "ce_now env" r st d k "ch_agents s"] ne e
      by (cases "map_of d ''phase''" rule: as_str.cases) (auto split: if_splits)
    moreover have "waiting_ok (s\<lparr>ch_agents := ag\<rparr>)" using ok by (simp add: waiting_ok_def)
    ultimately have "no_wait r (fst (agent_event_handler env evt (s\<lparr>ch_agents := ag\<rparr>)))"
      using idle_handler r by blast
    then show ?thesis by (force simp: e no_wait_def)
  qed
  then show ?thesis using d by (simp add: chat_run_snoc s_def)
qed

definition failed_once :: "(chat_env \<times> chat_input) list" where
  "failed_once = [(still_env 1, AgentEmits ''r'' ''lifecycle'' [(''phase'', JStr ''error'')] None)]"

lemma retry_takes_error_back_witness:
  "''r'' \<notin> set (map (\<lambda>(n, evt, skipError). ae_runId evt)
     (ch_timers (fst (chat_run (failed_once @ [(still_env 2, AgentEmits ''r'' ''lifecycle'' [(''phase'', JStr ''start'')] None)])
       new_chat_server))))"
  using retry_takes_error_back[of failed_once "''lifecycle''" "[(''phase'', JStr ''start'')]" "''r''" "still_env 2" None] by simp

section \<open>Aborted runs are told nothing more of\<close>



lemma speaks_simps [simp]:
  "speaks_of r (BroadcastTo ev p ids slow) = False" "speaks_of r (PersistLifecycle k evt) = False"
  "speaks_of r (SetChatTimer n i) = False" "speaks_of r (ClearChatTimer n) = False" "speaks_of r (AbortSignal q) = False"
  "speaks_of r (Broadcast ''agent'' p slow) = False" "speaks_of r (NodeSend k ''agent'' p) = False"
  by (simp_all add: speaks_of_def)






























definition states_told :: "string \<Rightarrow> chat_effect list \<Rightarrow> string list" where
  "states_told r es = List.map_filter (\<lambda>e. if speaks_of r e
     then Option.bind (chat_told e) (\<lambda>p. as_str (getp p ''state'')) else None) es"

lemma states_told_append [simp]: "states_told r [] = []" "states_told r (es @ fs) = states_told r es @ states_told r fs"
  by (simp_all add: states_told_def List.map_filter_def)





















end
