(* ===== verification/ChatReply.thy ===== *)
theory ChatReply
  imports ChatInvariants
begin

text \<open>
  What a chat client hears of a reply that grows chunk by chunk: the whole text so far, at most every
  150 ms, and at the end the whole reply. The run may be one that a client has started and may be registered, but not
  as a heartbeat nor as hidden; the reply has no bracket that may open a directive, and no silent token is glued to its start.
\<close>

section \<open>What is heard\<close>

definition message_text :: "json \<Rightarrow> string" where
  "message_text p = (case getp p ''message'' of
     Some m \<Rightarrow> (case getp m ''content'' of
         Some (JArr (c # cs)) \<Rightarrow> nullish (as_str (getp c ''text'')) []
       | _ \<Rightarrow> [])
   | None \<Rightarrow> [])"

fun chat_heard :: "chat_effect list \<Rightarrow> (string \<times> string) list" where
  "chat_heard [] = []"
| "chat_heard (Broadcast ev p slow # es) =
     (if ev = ''chat'' then (nullish (as_str (getp p ''state'')) [], message_text p) # chat_heard es else chat_heard es)"
| "chat_heard (e # es) = chat_heard es"

lemma chat_heard_append [simp]: "chat_heard (es @ fs) = chat_heard es @ chat_heard fs"
  by (induction es rule: chat_heard.induct) simp_all


definition kept_text :: "string \<Rightarrow> string" where
  "kept_text x = (if isSuppressedControlReplyText x then [] else x)"










section \<open>One chunk\<close>









lemma clear_pending_buffers [simp]:
  "ch_rawBuffers (fst (clearPendingTerminalLifecycleError r s)) = ch_rawBuffers s"
  "ch_buffers (fst (clearPendingTerminalLifecycleError r s)) = ch_buffers s"
  "ch_deltaSentAt (fst (clearPendingTerminalLifecycleError r s)) = ch_deltaSentAt s"
  "ch_deltaLastBroadcastLen (fst (clearPendingTerminalLifecycleError r s)) = ch_deltaLastBroadcastLen s"
  "chat_heard (snd (clearPendingTerminalLifecycleError r s)) = []"
  by (simp_all add: clearPendingTerminalLifecycleError_def split: option.split)




section \<open>The end of the reply\<close>


lemma kept_text_trim [simp]: "\<not> isSuppressedControlReplyText (kept_text x)"
  by (auto simp: kept_text_def isSuppressedControlReplyText_def isSilentReplyText_def SUPPRESSED_CONTROL_REPLY_TOKENS_def)







section \<open>The whole reply\<close>








end
