(* ===== verification/ControlPlaneLimit.thy ===== *)
theory ControlPlaneLimit
  imports GatewayAccess "HOL-Library.AList"
begin

text \<open>
  The limit on what a client may change of the gateway itself
  (openclaw/src/gateway/control-plane-rate-limit.ts) and the dispatch that asks it
  (server-methods.ts): windows of a minute with three writes each, in a table of bounded size.
\<close>

section \<open>The table\<close>

definition CONTROL_PLANE_RATE_LIMIT_MAX_REQUESTS :: nat where "CONTROL_PLANE_RATE_LIMIT_MAX_REQUESTS = 3"
definition CONTROL_PLANE_RATE_LIMIT_WINDOW_MS :: int where "CONTROL_PLANE_RATE_LIMIT_WINDOW_MS = 60000"
definition CONTROL_PLANE_BUCKET_MAX_STALE_MS :: int where "CONTROL_PLANE_BUCKET_MAX_STALE_MS = 5 * 60000"
definition CONTROL_PLANE_BUCKET_MAX_ENTRIES :: nat where "CONTROL_PLANE_BUCKET_MAX_ENTRIES = 10000"

lemmas control_plane_constants = CONTROL_PLANE_RATE_LIMIT_MAX_REQUESTS_def CONTROL_PLANE_RATE_LIMIT_WINDOW_MS_def
  CONTROL_PLANE_BUCKET_MAX_STALE_MS_def

record control_bucket =
  bu_count :: nat
  bu_windowStartMs :: int

type_synonym control_buckets = "(string \<times> control_bucket) list"

definition normalizePart :: "string option \<Rightarrow> string \<Rightarrow> string" where
  "normalizePart v fallback = (case v of
     None \<Rightarrow> fallback | Some s \<Rightarrow> if trim s \<noteq> [] then trim s else fallback)"

text \<open>Whom a client counts as: its device, its address and its connection.\<close>

record client_identity =
  ci_deviceId :: "string option"
  ci_clientIp :: "string option"
  ci_connId :: "string option"

definition resolveControlPlaneRateLimitKey :: "client_identity \<Rightarrow> string" where
  "resolveControlPlaneRateLimitKey c =
     (let deviceId = normalizePart (ci_deviceId c) ''unknown-device'';
          clientIp = normalizePart (ci_clientIp c) ''unknown-ip'';
          connId = normalizePart (ci_connId c) [] in
      if deviceId = ''unknown-device'' \<and> clientIp = ''unknown-ip'' \<and> connId \<noteq> []
      then deviceId @ ''|'' @ clientIp @ ''|conn='' @ connId
      else deviceId @ ''|'' @ clientIp)"

record write_budget =
  wb_allowed :: bool
  wb_retryAfterMs :: int
  wb_remaining :: nat

text \<open>A new key takes the place of the oldest one when the table is full.\<close>

definition make_room :: "string \<Rightarrow> control_buckets \<Rightarrow> control_buckets" where
  "make_room key m = (if map_of m key = None \<and> CONTROL_PLANE_BUCKET_MAX_ENTRIES \<le> length m
     then (case m of [] \<Rightarrow> m | (oldest, b) # rest \<Rightarrow> AList.delete oldest m) else m)"

definition open_window :: "string \<Rightarrow> int \<Rightarrow> control_buckets \<Rightarrow> write_budget \<times> control_buckets" where
  "open_window key now m =
     (\<lparr>wb_allowed = True, wb_retryAfterMs = 0, wb_remaining = CONTROL_PLANE_RATE_LIMIT_MAX_REQUESTS - 1\<rparr>,
      AList.update key \<lparr>bu_count = 1, bu_windowStartMs = now\<rparr> (make_room key m))"

definition consumeControlPlaneWriteBudget :: "string \<Rightarrow> int \<Rightarrow> control_buckets \<Rightarrow> write_budget \<times> control_buckets" where
  "consumeControlPlaneWriteBudget key now m = (case map_of m key of
     None \<Rightarrow> open_window key now m
   | Some b \<Rightarrow>
       if CONTROL_PLANE_RATE_LIMIT_WINDOW_MS \<le> now - bu_windowStartMs b then open_window key now m
       else if CONTROL_PLANE_RATE_LIMIT_MAX_REQUESTS \<le> bu_count b
       then (\<lparr>wb_allowed = False,
              wb_retryAfterMs = max 0 (bu_windowStartMs b + CONTROL_PLANE_RATE_LIMIT_WINDOW_MS - now), wb_remaining = 0\<rparr>, m)
       else (\<lparr>wb_allowed = True, wb_retryAfterMs = 0,
              wb_remaining = CONTROL_PLANE_RATE_LIMIT_MAX_REQUESTS - (bu_count b + 1)\<rparr>,
             AList.update key (b\<lparr>bu_count := bu_count b + 1\<rparr>) m))"

definition pruneStaleControlPlaneBuckets :: "int \<Rightarrow> control_buckets \<Rightarrow> control_buckets" where
  "pruneStaleControlPlaneBuckets now m =
     filter (\<lambda>(k, b). \<not> CONTROL_PLANE_BUCKET_MAX_STALE_MS < now - bu_windowStartMs b) m"

section \<open>The dispatch\<close>

record gateway_request =
  gr_at :: int
  gr_identity :: client_identity
  gr_client :: "gateway_client option"
  gr_method :: string

definition gr_key :: "gateway_request \<Rightarrow> string" where
  "gr_key r = resolveControlPlaneRateLimitKey (gr_identity r)"

text \<open>A request asks for budget when it is authorised, available and a write.\<close>

definition asks_budget :: "(string \<Rightarrow> string option) \<Rightarrow> string set \<Rightarrow> gateway_request \<Rightarrow> bool" where
  "asks_budget plugins unavailable r \<longleftrightarrow> authorizeGatewayMethod plugins (gr_method r) (gr_client r) = None
     \<and> gr_method r \<notin> unavailable \<and> gr_method r \<in> set CONTROL_PLANE_WRITE_METHODS"

definition dispatch_request :: "(string \<Rightarrow> string option) \<Rightarrow> string set \<Rightarrow> (string \<Rightarrow> bool) \<Rightarrow> gateway_request
  \<Rightarrow> control_buckets \<Rightarrow> dispatch \<times> control_buckets" where
  "dispatch_request plugins unavailable handlers r m =
     (if asks_budget plugins unavailable r
      then (case consumeControlPlaneWriteBudget (gr_key r) (gr_at r) m of
        (b, m') \<Rightarrow> (handleGatewayRequest plugins unavailable (if wb_allowed b then None else Some (wb_retryAfterMs b))
                     handlers (gr_client r) (gr_method r), m'))
      else (handleGatewayRequest plugins unavailable None handlers (gr_client r) (gr_method r), m))"

datatype control_event = Request gateway_request | PruneBuckets int

fun event_at :: "control_event \<Rightarrow> int" where
  "event_at (Request r) = gr_at r"
| "event_at (PruneBuckets now) = now"

text \<open>The requests with their answers, in order.\<close>

fun control_run :: "(string \<Rightarrow> string option) \<Rightarrow> string set \<Rightarrow> (string \<Rightarrow> bool) \<Rightarrow> control_event list
  \<Rightarrow> control_buckets \<Rightarrow> (gateway_request \<times> dispatch) list \<times> control_buckets" where
  "control_run plugins unavailable handlers [] m = ([], m)"
| "control_run plugins unavailable handlers (Request r # evs) m =
     (case dispatch_request plugins unavailable handlers r m of (d, m1) \<Rightarrow>
       case control_run plugins unavailable handlers evs m1 of (ds, m2) \<Rightarrow> ((r, d) # ds, m2))"
| "control_run plugins unavailable handlers (PruneBuckets now # evs) m =
     control_run plugins unavailable handlers evs (pruneStaleControlPlaneBuckets now m)"

section \<open>The size of the table\<close>

definition table_ok :: "string set \<Rightarrow> control_buckets \<Rightarrow> bool" where
  "table_ok ks m \<longleftrightarrow> distinct (map fst m) \<and> fst ` set m \<subseteq> ks \<and> length m \<le> CONTROL_PLANE_BUCKET_MAX_ENTRIES
     \<and> (\<forall>k b. map_of m k = Some b \<longrightarrow> 1 \<le> bu_count b \<and> bu_count b \<le> CONTROL_PLANE_RATE_LIMIT_MAX_REQUESTS)"

lemma length_update: "length (AList.update k v m) = (if map_of m k = None then Suc (length m) else length m)"
  by (induction m) auto

lemma length_delete_first:
  assumes "distinct (map fst (p # m))"
  shows "length (AList.delete (fst p) (p # m)) = length m"
proof -
  have "fst p \<notin> set (map fst m)" using assms by simp
  then have "filter (\<lambda>(k, v). fst p \<noteq> k) m = m" by (induction m) auto
  then show ?thesis by (cases p) (simp add: AList.delete_eq)
qed

lemma table_ok_sublist:
  assumes "table_ok ks m"
  shows "table_ok ks (filter P m)"
proof -
  have "map_of m k = Some b" if "map_of (filter P m) k = Some b" for k b
    using map_of_SomeD[OF that] assms by (simp add: table_ok_def)
  moreover have "length (filter P m) \<le> CONTROL_PLANE_BUCKET_MAX_ENTRIES"
    using assms le_trans[OF length_filter_le[of P m]] by (simp add: table_ok_def)
  ultimately show ?thesis using assms by (fastforce simp: table_ok_def distinct_map_filter)
qed

lemma make_room_ok:
  assumes "table_ok ks m"
  shows "table_ok ks (make_room k m)"
    and "map_of (make_room k m) k = None \<Longrightarrow> length (make_room k m) < CONTROL_PLANE_BUCKET_MAX_ENTRIES"
proof -
  have "table_ok ks (AList.delete q m)" for q
    unfolding AList.delete_eq by (rule table_ok_sublist[OF assms])
  then show "table_ok ks (make_room k m)"
    unfolding make_room_def using assms by (simp only: split: if_split list.split prod.split) blast
  show "length (make_room k m) < CONTROL_PLANE_BUCKET_MAX_ENTRIES" if "map_of (make_room k m) k = None"
  proof (cases m)
    case (Cons p rest)
    then show ?thesis
      using assms that length_delete_first[of p rest]
      by (auto simp: make_room_def table_ok_def not_le split: if_splits prod.splits)
  qed (simp add: make_room_def CONTROL_PLANE_BUCKET_MAX_ENTRIES_def)
qed

lemma update_ok:
  assumes "table_ok ks m" and "k \<in> ks" and "map_of m k = None \<Longrightarrow> length m < CONTROL_PLANE_BUCKET_MAX_ENTRIES"
    and "1 \<le> bu_count b" "bu_count b \<le> CONTROL_PLANE_RATE_LIMIT_MAX_REQUESTS"
  shows "table_ok ks (AList.update k b m)"
proof -
  have "length (AList.update k b m) \<le> CONTROL_PLANE_BUCKET_MAX_ENTRIES"
    using assms(1,3) by (auto simp: length_update table_ok_def)
  then show ?thesis
    using assms(1,2,4,5) by (auto simp: table_ok_def distinct_update AList.update_conv' AList.dom_update)
qed

lemma consume_ok:
  assumes "table_ok ks m" and "k \<in> ks"
  shows "table_ok ks (snd (consumeControlPlaneWriteBudget k now m))"
proof -
  have "table_ok ks (snd (open_window k now m))"
    using update_ok[OF make_room_ok(1)[OF assms(1)] assms(2) make_room_ok(2)[OF assms(1)]]
    by (simp add: open_window_def control_plane_constants)
  moreover have "table_ok ks (AList.update k (b\<lparr>bu_count := bu_count b + 1\<rparr>) m)"
    if "map_of m k = Some b" "bu_count b < CONTROL_PLANE_RATE_LIMIT_MAX_REQUESTS" for b
    using that by (intro update_ok[OF assms]) auto
  ultimately show ?thesis
    using assms(1) by (simp add: consumeControlPlaneWriteBudget_def split: option.split)
qed

lemma dispatch_ok:
  assumes "table_ok ks m" and "gr_key r \<in> ks"
  shows "table_ok ks (snd (dispatch_request plugins unavailable handlers r m))"
  using consume_ok[OF assms, of "gr_at r"] assms(1) by (simp add: dispatch_request_def split_beta)

text \<open>The table never has more than its maximal number of entries.\<close>

lemma control_table_bounded:
  "table_ok UNIV m \<Longrightarrow> table_ok UNIV (snd (control_run plugins unavailable handlers evs m))"
proof (induction evs arbitrary: m)
  case (Cons e evs)
  then show ?case
    by (cases e) (simp_all add: dispatch_ok pruneStaleControlPlaneBuckets_def table_ok_sublist split_beta)
qed simp

section \<open>How many writes there can be in a minute\<close>

text \<open>
  What a key can still be allowed between \<open>a\<close> and a minute later, when it is \<open>now\<close>: its window ends
  before, starts within, or ends within that minute.
\<close>

definition span_cap :: "int \<Rightarrow> int \<Rightarrow> control_bucket option \<Rightarrow> nat" where
  "span_cap a now v = (if a + CONTROL_PLANE_RATE_LIMIT_WINDOW_MS \<le> now then 0 else case v of
     None \<Rightarrow> 5
   | Some b \<Rightarrow>
       if bu_windowStartMs b + CONTROL_PLANE_RATE_LIMIT_WINDOW_MS \<le> a then 5
       else if a \<le> bu_windowStartMs b then CONTROL_PLANE_RATE_LIMIT_MAX_REQUESTS - bu_count b
       else 2 * CONTROL_PLANE_RATE_LIMIT_MAX_REQUESTS - bu_count b)"

definition in_span :: "int \<Rightarrow> int \<Rightarrow> nat" where
  "in_span a t = (if a \<le> t \<and> t < a + CONTROL_PLANE_RATE_LIMIT_WINDOW_MS then 1 else 0)"

lemma span_cap_later: "now \<le> t \<Longrightarrow> span_cap a t v \<le> span_cap a now v"
  by (simp add: span_cap_def split: option.split)

lemma no_eviction:
  assumes "table_ok ks m" and "k \<in> ks" and "finite ks" "card ks \<le> CONTROL_PLANE_BUCKET_MAX_ENTRIES"
  shows "make_room k m = m"
proof (cases "map_of m k = None")
  case True
  then have "fst ` set m \<subseteq> ks - {k}" using assms(1) by (auto simp: table_ok_def map_of_eq_None_iff)
  then have "card (fst ` set m) < card ks"
    using assms(2,3) by (meson card_Diff1_less card_mono finite_Diff le_less_trans)
  then have "length m < CONTROL_PLANE_BUCKET_MAX_ENTRIES"
    using assms(1,4) distinct_card[of "map fst m"] by (simp add: table_ok_def)
  then show ?thesis by (simp add: make_room_def)
qed (auto simp: make_room_def)

lemma consume_span:
  assumes "table_ok ks m" and "make_room k m = m" and "now \<le> t"
  shows "(if wb_allowed (fst (consumeControlPlaneWriteBudget k t m)) then in_span a t else 0)
      + span_cap a t (map_of (snd (consumeControlPlaneWriteBudget k t m)) k) \<le> span_cap a now (map_of m k)"
proof (cases "map_of m k")
  case None
  then show ?thesis
    using assms(2,3) by (auto simp: consumeControlPlaneWriteBudget_def open_window_def span_cap_def in_span_def control_plane_constants AList.update_conv')
next
  case (Some b)
  have c: "1 \<le> bu_count b" "bu_count b \<le> 3"
    using assms(1) Some by (auto simp: table_ok_def CONTROL_PLANE_RATE_LIMIT_MAX_REQUESTS_def)
  show ?thesis
    using assms(2,3) Some c
    by (auto simp: consumeControlPlaneWriteBudget_def open_window_def span_cap_def in_span_def control_plane_constants AList.update_conv')
qed

lemma consume_other:
  assumes "make_room k m = m" and "q \<noteq> k"
  shows "map_of (snd (consumeControlPlaneWriteBudget k t m)) q = map_of m q"
  using assms by (simp add: consumeControlPlaneWriteBudget_def open_window_def AList.update_conv' split: option.split)

lemma prune_span:
  assumes "now \<le> t" and "distinct (map fst m)"
  shows "span_cap a t (map_of (pruneStaleControlPlaneBuckets t m) k) \<le> span_cap a now (map_of m k)"
proof -
  have "map_of (pruneStaleControlPlaneBuckets t m) k = (case map_of m k of None \<Rightarrow> None
      | Some b \<Rightarrow> if CONTROL_PLANE_BUCKET_MAX_STALE_MS < t - bu_windowStartMs b then None else Some b)"
    using assms(2) unfolding pruneStaleControlPlaneBuckets_def
    by (induction m) (auto simp: image_iff split: option.splits dest!: map_of_SomeD)
  then show ?thesis
    using assms(1) by (auto simp: span_cap_def control_plane_constants split: option.split)
qed

text \<open>The answer hands a write of the key to its handler, in the minute from \<open>a\<close> on.\<close>

definition write_done :: "string \<Rightarrow> int \<Rightarrow> gateway_request \<times> dispatch \<Rightarrow> bool" where
  "write_done k a = (\<lambda>(r, d). gr_key r = k \<and> gr_method r \<in> set CONTROL_PLANE_WRITE_METHODS
     \<and> d = InvokeHandler (gr_method r) \<and> a \<le> gr_at r \<and> gr_at r < a + CONTROL_PLANE_RATE_LIMIT_WINDOW_MS)"

definition request_keys :: "control_event list \<Rightarrow> string set" where
  "request_keys evs = set (List.map_filter (\<lambda>e. case e of Request r \<Rightarrow> Some (gr_key r) | PruneBuckets now \<Rightarrow> None) evs)"

lemma dispatch_span:
  assumes ok: "table_ok ks m" and room: "make_room (gr_key r) m = m" and now: "now \<le> gr_at r"
  shows "(if write_done k a (r, fst (dispatch_request plugins unavailable handlers r m)) then 1 else 0)
      + span_cap a (gr_at r) (map_of (snd (dispatch_request plugins unavailable handlers r m)) k) \<le> span_cap a now (map_of m k)"
proof (cases "asks_budget plugins unavailable r")
  case False
  then have "\<not> write_done k a (r, fst (dispatch_request plugins unavailable handlers r m))"
    by (auto simp: write_done_def dispatch_request_def asks_budget_def handleGatewayRequest_def split: option.splits if_splits)
  then show ?thesis using False span_cap_later[OF now] by (simp add: dispatch_request_def)
next
  case True
  let ?c = "consumeControlPlaneWriteBudget (gr_key r) (gr_at r) m"
  have d: "fst (dispatch_request plugins unavailable handlers r m) = handleGatewayRequest plugins unavailable
      (if wb_allowed (fst ?c) then None else Some (wb_retryAfterMs (fst ?c))) handlers (gr_client r) (gr_method r)"
    and s: "snd (dispatch_request plugins unavailable handlers r m) = snd ?c"
    using True by (simp_all add: dispatch_request_def split_beta)
  have "wb_allowed (fst ?c)" if "write_done k a (r, fst (dispatch_request plugins unavailable handlers r m))"
    using that True unfolding d
    by (auto simp: write_done_def asks_budget_def handleGatewayRequest_def split: option.splits if_splits)
  then have "(if write_done k a (r, fst (dispatch_request plugins unavailable handlers r m)) then 1 else 0)
      \<le> (if gr_key r = k \<and> wb_allowed (fst ?c) then in_span a (gr_at r) else 0)"
    by (auto simp: write_done_def in_span_def)
  moreover have "(if gr_key r = k \<and> wb_allowed (fst ?c) then in_span a (gr_at r) else 0) + span_cap a (gr_at r) (map_of (snd ?c) k)
      \<le> span_cap a now (map_of m k)"
    using consume_span[OF ok room now, of a] consume_other[OF room, of k "gr_at r"] span_cap_later[OF now, of a "map_of m k"]
    by (cases "gr_key r = k") (auto split: if_splits)
  ultimately show ?thesis unfolding s by linarith
qed

lemma writes_within_cap:
  assumes "table_ok ks m" and "finite ks" "card ks \<le> CONTROL_PLANE_BUCKET_MAX_ENTRIES"
    and "request_keys evs \<subseteq> ks" and "sorted (now # map event_at evs)"
  shows "length (filter (write_done k a) (fst (control_run plugins unavailable handlers evs m))) \<le> span_cap a now (map_of m k)"
  using assms(1,4,5)
proof (induction evs arbitrary: m now)
  case (Cons e evs)
  show ?case
  proof (cases e)
    case (Request r)
    let ?d = "dispatch_request plugins unavailable handlers r m"
    have r: "gr_key r \<in> ks" "request_keys evs \<subseteq> ks" using Cons.prems(2) by (auto simp: Request request_keys_def map_filter_simps)
    have "length (filter (write_done k a) (fst (control_run plugins unavailable handlers evs (snd ?d)))) \<le> span_cap a (gr_at r) (map_of (snd ?d) k)"
      using Cons.prems(3) by (intro Cons.IH dispatch_ok Cons.prems(1) r) (simp add: Request)
    moreover have "(if write_done k a (r, fst ?d) then 1 else 0) + span_cap a (gr_at r) (map_of (snd ?d) k) \<le> span_cap a now (map_of m k)"
      using Cons.prems(3) by (intro dispatch_span[OF Cons.prems(1)] no_eviction[OF Cons.prems(1) r(1) assms(2,3)]) (simp add: Request)
    ultimately show ?thesis by (auto simp: Request split_beta split: if_splits)
  next
    case (PruneBuckets t)
    have "length (filter (write_done k a) (fst (control_run plugins unavailable handlers evs (pruneStaleControlPlaneBuckets t m))))
        \<le> span_cap a t (map_of (pruneStaleControlPlaneBuckets t m) k)"
      using Cons.prems by (intro Cons.IH) (auto simp: PruneBuckets request_keys_def map_filter_simps pruneStaleControlPlaneBuckets_def
          intro: table_ok_sublist)
    moreover have "span_cap a t (map_of (pruneStaleControlPlaneBuckets t m) k) \<le> span_cap a now (map_of m k)"
      using Cons.prems by (intro prune_span) (simp_all add: PruneBuckets table_ok_def)
    ultimately show ?thesis by (simp add: PruneBuckets)
  qed
qed simp

text \<open>
  C24: whatever the requests, in no stretch of a minute does one client have more than five writes to the gateway
  reach their handlers, as long as the clients are no more than the table holds. (Each window
  admits three, and a minute can overlap two windows.)
\<close>

theorem control_writes_limited:
  assumes "sorted (map event_at evs)" and "card (request_keys evs) \<le> CONTROL_PLANE_BUCKET_MAX_ENTRIES"
  shows "length (filter (write_done k a) (fst (control_run plugins unavailable handlers evs []))) \<le> 5"
proof (cases evs)
  case (Cons e es)
  have "sorted (event_at e # map event_at evs)" using assms(1) by (simp add: Cons)
  then have "length (filter (write_done k a) (fst (control_run plugins unavailable handlers evs []))) \<le> span_cap a (event_at e) (map_of [] k)"
    by (intro writes_within_cap[of "request_keys evs"] assms(2) order.refl) (simp_all add: table_ok_def request_keys_def)
  then show ?thesis by (auto simp: span_cap_def split: if_splits)
qed simp

text \<open>Five writes in a minute, where the answer to the sixth says \<open>3 per 60s\<close>.\<close>

definition admin_client :: gateway_client where
  "admin_client = \<lparr>gc_role = Some ''operator'', gc_scopes = Some [ADMIN_SCOPE]\<rparr>"

definition admin_writes :: "int list \<Rightarrow> control_event list" where
  "admin_writes ts = map (\<lambda>t. Request \<lparr>gr_at = t, gr_identity = \<lparr>ci_deviceId = Some ''d'', ci_clientIp = None, ci_connId = None\<rparr>,
     gr_client = Some admin_client, gr_method = ''config.patch''\<rparr>) ts"

lemma control_writes_limited_witness:
  "length (filter (write_done ''d|unknown-ip'' 59000)
     (fst (control_run (\<lambda>m. None) {} (\<lambda>m. True) (admin_writes [0, 59000, 59500, 60000, 60100, 60200, 60300]) []))) \<le> 5"
  by (rule control_writes_limited) (code_simp, code_simp)

lemma five_writes_in_a_minute:
  "length (filter (write_done ''d|unknown-ip'' 59000)
     (fst (control_run (\<lambda>m. None) {} (\<lambda>m. True) (admin_writes [0, 59000, 59500, 60000, 60100, 60200, 60300]) []))) = 5"
  by code_simp

end
