(* ===== verification/AgentJob.thy ===== *)
theory AgentJob
  imports AgentEvents ActFrames
begin

text \<open>
  The calls that wait for the end of an agent's run by its lifecycle events
  (openclaw/src/gateway/server-methods/agent-job.ts): the cache of ended runs, the errors held back for a
  retry, and the waiting calls with their two timers. Calls and timers are numbered; every input brings
  the time. The module's own listener is registered when it is loaded, before that of any call.
\<close>

section \<open>State\<close>

record run_snapshot =
  rs_runId :: string
  rs_status :: string
  rs_startedAt :: jsval
  rs_endedAt :: jsval
  rs_error :: "string option"
  rs_ts :: int

record pending_run_error =
  pr_snapshot :: run_snapshot
  pr_dueAt :: int
  pr_timer :: nat

datatype job_timer = PendingErrorTimer string | CallErrorTimer nat run_snapshot | CallTimeoutTimer nat

record job_call =
  jc_runId :: string
  jc_ignoreCached :: bool
  jc_errorTimer :: "nat option"
  jc_timeout :: "nat option"

record job_state =
  js_cache :: "(string \<times> run_snapshot) list"
  js_starts :: "(string \<times> json) list"
  js_pending :: "(string \<times> pending_run_error) list"
  js_calls :: "(nat \<times> job_call) list"
  js_timers :: "(nat \<times> job_timer) list"
  js_timerCount :: nat
  js_callCount :: nat

datatype job_effect = JobSettled nat "run_snapshot option" | SetJobTimer nat int | ClearJobTimer nat

type_synonym job_act = "(job_state, job_effect) act"

definition no_jobs :: job_state where
  "no_jobs = \<lparr>js_cache = [], js_starts = [], js_pending = [], js_calls = [], js_timers = [], js_timerCount = 0, js_callCount = 0\<rparr>"

definition AGENT_RUN_CACHE_TTL_MS :: int where "AGENT_RUN_CACHE_TTL_MS = 10 * 60000"
definition AGENT_RUN_ERROR_RETRY_GRACE_MS :: int where "AGENT_RUN_ERROR_RETRY_GRACE_MS = 15000"

definition set_timer :: "job_timer \<Rightarrow> int \<Rightarrow> job_act" where
  "set_timer t delay = with_state (\<lambda>s. seq
     (update (\<lambda>s. s\<lparr>js_timers := (js_timerCount s, t) # js_timers s, js_timerCount := Suc (js_timerCount s)\<rparr>))
     (emit [SetJobTimer (js_timerCount s) delay]))"

definition clear_timer :: "nat \<Rightarrow> job_act" where
  "clear_timer n = seq (update (\<lambda>s. s\<lparr>js_timers := AList.delete n (js_timers s)\<rparr>)) (emit [ClearJobTimer n])"

definition bounded_delay :: "int \<Rightarrow> int" where
  "bounded_delay ms = max 1 (min ms 2147483647)"

section \<open>The cache and the errors held back\<close>

definition pruneAgentRunCache :: "int \<Rightarrow> job_state \<Rightarrow> job_state" where
  "pruneAgentRunCache now s = s\<lparr>js_cache := filter (\<lambda>(r, e). \<not> AGENT_RUN_CACHE_TTL_MS < now - rs_ts e) (js_cache s)\<rparr>"

definition recordAgentRunSnapshot :: "run_snapshot \<Rightarrow> job_act" where
  "recordAgentRunSnapshot e = update (\<lambda>s. let s' = pruneAgentRunCache (rs_ts e) s in
     s'\<lparr>js_cache := AList.update (rs_runId e) e (js_cache s')\<rparr>)"

definition clearPendingAgentRunError :: "string \<Rightarrow> job_act" where
  "clearPendingAgentRunError runId = with_state (\<lambda>s. case map_of (js_pending s) runId of
     None \<Rightarrow> skip
   | Some p \<Rightarrow> seq (clear_timer (pr_timer p)) (update (\<lambda>s. s\<lparr>js_pending := AList.delete runId (js_pending s)\<rparr>)))"

definition schedulePendingAgentRunError :: "int \<Rightarrow> run_snapshot \<Rightarrow> job_act" where
  "schedulePendingAgentRunError now snapshot = seq (clearPendingAgentRunError (rs_runId snapshot))
     (with_state (\<lambda>s. seq (set_timer (PendingErrorTimer (rs_runId snapshot)) AGENT_RUN_ERROR_RETRY_GRACE_MS)
       (update (\<lambda>s'. s'\<lparr>js_pending := AList.update (rs_runId snapshot)
          \<lparr>pr_snapshot = snapshot, pr_dueAt = now + AGENT_RUN_ERROR_RETRY_GRACE_MS, pr_timer = js_timerCount s\<rparr> (js_pending s')\<rparr>))))"

definition number_field :: "jsval \<Rightarrow> jsval" where
  "number_field v = (if is_num v then v else None)"

definition createSnapshotFromLifecycleEvent :: "int \<Rightarrow> string \<Rightarrow> bool \<Rightarrow> entries \<Rightarrow> job_state \<Rightarrow> run_snapshot" where
  "createSnapshotFromLifecycleEvent now runId failed data s =
     \<lparr>rs_runId = runId,
      rs_status = (if failed then ''error'' else if truthy (map_of data ''aborted'') then ''timeout'' else ''ok''),
      rs_startedAt = nullish_opt (number_field (map_of data ''startedAt'')) (map_of (js_starts s) runId),
      rs_endedAt = number_field (map_of data ''endedAt''),
      rs_error = as_str (map_of data ''error''), rs_ts = now\<rparr>"

definition event_phase :: "agent_event \<Rightarrow> string option" where
  "event_phase evt = (if ae_stream evt = ''lifecycle'' then as_str (map_of (ae_data evt) ''phase'') else None)"

text \<open>The module's own listener.\<close>

definition run_listener :: "int \<Rightarrow> agent_event \<Rightarrow> job_act" where
  "run_listener now evt =
     (if event_phase evt = Some ''start''
      then seq (update (\<lambda>s. s\<lparr>js_starts := AList.update (ae_runId evt)
             (nullish (number_field (map_of (ae_data evt) ''startedAt'')) (js_int now)) (js_starts s)\<rparr>))
          (seq (clearPendingAgentRunError (ae_runId evt))
            (update (\<lambda>s. s\<lparr>js_cache := AList.delete (ae_runId evt) (js_cache s)\<rparr>)))
      else if event_phase evt = Some ''end'' \<or> event_phase evt = Some ''error''
      then with_state (\<lambda>s.
        let snapshot = createSnapshotFromLifecycleEvent now (ae_runId evt) (event_phase evt = Some ''error'') (ae_data evt) s in
        seq (update (\<lambda>s. s\<lparr>js_starts := AList.delete (ae_runId evt) (js_starts s)\<rparr>))
          (if event_phase evt = Some ''error'' then schedulePendingAgentRunError now snapshot
           else seq (clearPendingAgentRunError (ae_runId evt)) (recordAgentRunSnapshot snapshot)))
      else skip)"

section \<open>Waiting calls\<close>

definition clearPendingErrorTimer :: "nat \<Rightarrow> job_act" where
  "clearPendingErrorTimer i = with_state (\<lambda>s. case map_of (js_calls s) i of
     Some c \<Rightarrow> (case jc_errorTimer c of
       Some n \<Rightarrow> seq (clear_timer n) (update (\<lambda>s. s\<lparr>js_calls := AList.update i (c\<lparr>jc_errorTimer := None\<rparr>) (js_calls s)\<rparr>))
     | None \<Rightarrow> skip)
   | None \<Rightarrow> skip)"

definition finish_job :: "nat \<Rightarrow> run_snapshot option \<Rightarrow> job_act" where
  "finish_job i entry = with_state (\<lambda>s. case map_of (js_calls s) i of
     None \<Rightarrow> skip
   | Some c \<Rightarrow> seq (case jc_timeout c of Some n \<Rightarrow> clear_timer n | None \<Rightarrow> skip) (seq (clearPendingErrorTimer i)
       (seq (update (\<lambda>s. s\<lparr>js_calls := AList.delete i (js_calls s)\<rparr>)) (emit [JobSettled i entry]))))"

definition scheduleErrorFinish :: "nat \<Rightarrow> run_snapshot \<Rightarrow> int \<Rightarrow> job_act" where
  "scheduleErrorFinish i snapshot delayMs = seq (clearPendingErrorTimer i)
     (with_state (\<lambda>s. seq (set_timer (CallErrorTimer i snapshot) (bounded_delay delayMs))
       (update (\<lambda>s'. case map_of (js_calls s') i of
          None \<Rightarrow> s'
        | Some c \<Rightarrow> s'\<lparr>js_calls := AList.update i (c\<lparr>jc_errorTimer := Some (js_timerCount s)\<rparr>) (js_calls s')\<rparr>))))"

text \<open>What the cache has of the call's run, after it was pruned; nothing when the call ignores it.\<close>

definition with_cached :: "int \<Rightarrow> job_call \<Rightarrow> (run_snapshot option \<Rightarrow> job_act) \<Rightarrow> job_act" where
  "with_cached now c k = (if jc_ignoreCached c then k None
     else seq (update (pruneAgentRunCache now)) (with_state (\<lambda>s. k (map_of (js_cache s) (jc_runId c)))))"

text \<open>A call's own listener.\<close>

definition call_listener :: "int \<Rightarrow> agent_event \<Rightarrow> nat \<Rightarrow> job_act" where
  "call_listener now evt i = with_state (\<lambda>s. case map_of (js_calls s) i of
     None \<Rightarrow> skip
   | Some c \<Rightarrow>
       if ae_runId evt \<noteq> jc_runId c then skip
       else if event_phase evt = Some ''start'' then clearPendingErrorTimer i
       else if event_phase evt = Some ''end'' \<or> event_phase evt = Some ''error''
       then with_cached now c (\<lambda>latest. case latest of
           Some e \<Rightarrow> finish_job i (Some e)
         | None \<Rightarrow> with_state (\<lambda>s.
             let snapshot = createSnapshotFromLifecycleEvent now (ae_runId evt) (event_phase evt = Some ''error'') (ae_data evt) s in
             if event_phase evt = Some ''error'' then scheduleErrorFinish i snapshot AGENT_RUN_ERROR_RETRY_GRACE_MS
             else seq (recordAgentRunSnapshot snapshot) (finish_job i (Some snapshot))))
       else skip)"

definition set_deadline :: "nat \<Rightarrow> int \<Rightarrow> job_act" where
  "set_deadline i timeoutMs = with_state (\<lambda>s. seq (set_timer (CallTimeoutTimer i) (bounded_delay timeoutMs))
     (update (\<lambda>s'. case map_of (js_calls s') i of
        None \<Rightarrow> s'
      | Some c \<Rightarrow> s'\<lparr>js_calls := AList.update i (c\<lparr>jc_timeout := Some (js_timerCount s)\<rparr>) (js_calls s')\<rparr>)))"

definition schedule_known_error :: "int \<Rightarrow> nat \<Rightarrow> job_call \<Rightarrow> job_act" where
  "schedule_known_error now i c = with_state (\<lambda>s. case (if jc_ignoreCached c then None else map_of (js_pending s) (jc_runId c)) of
     None \<Rightarrow> skip
   | Some p \<Rightarrow> scheduleErrorFinish i (pr_snapshot p) (pr_dueAt p - now))"

definition waitForAgentJob :: "int \<Rightarrow> string \<Rightarrow> int \<Rightarrow> bool \<Rightarrow> bool \<Rightarrow> job_act" where
  "waitForAgentJob now runId timeoutMs aborted ignoreCached = with_state (\<lambda>s.
     let i = js_callCount s;
         c = \<lparr>jc_runId = runId, jc_ignoreCached = ignoreCached, jc_errorTimer = None, jc_timeout = None\<rparr> in
     seq (update (\<lambda>s. s\<lparr>js_callCount := Suc (js_callCount s)\<rparr>)) (with_cached now c (\<lambda>cached. case cached of
         Some e \<Rightarrow> emit [JobSettled i (Some e)]
       | None \<Rightarrow>
           if timeoutMs \<le> 0 \<or> aborted then emit [JobSettled i None]
           else seq (update (\<lambda>s. s\<lparr>js_calls := js_calls s @ [(i, c)]\<rparr>))
             (seq (schedule_known_error now i c) (set_deadline i timeoutMs)))))"

section \<open>Timers and steps\<close>

definition job_timer_fired :: "int \<Rightarrow> nat \<Rightarrow> job_act" where
  "job_timer_fired now n = with_state (\<lambda>s. case map_of (js_timers s) n of
     None \<Rightarrow> skip
   | Some t \<Rightarrow> seq (update (\<lambda>s. s\<lparr>js_timers := AList.delete n (js_timers s)\<rparr>))
       (case t of
          PendingErrorTimer r \<Rightarrow> (case map_of (js_pending s) r of
              None \<Rightarrow> skip
            | Some p \<Rightarrow> seq (update (\<lambda>s. s\<lparr>js_pending := AList.delete r (js_pending s)\<rparr>)) (recordAgentRunSnapshot (pr_snapshot p)))
        | CallErrorTimer i snapshot \<Rightarrow> (case map_of (js_calls s) i of
              None \<Rightarrow> skip
            | Some c \<Rightarrow> with_cached now c (\<lambda>latest. case latest of
                Some e \<Rightarrow> finish_job i (Some e)
              | None \<Rightarrow> seq (recordAgentRunSnapshot snapshot) (finish_job i (Some snapshot))))
        | CallTimeoutTimer i \<Rightarrow> finish_job i None))"

datatype job_input =
    WaitForRun string int bool bool
  | RunEvent agent_event
  | JobTimer nat
  | JobAborted nat

definition job_step :: "int \<times> job_input \<Rightarrow> job_act" where
  "job_step = (\<lambda>(now, i). case i of
     WaitForRun runId timeoutMs aborted ignoreCached \<Rightarrow> waitForAgentJob now runId timeoutMs aborted ignoreCached
   | RunEvent evt \<Rightarrow> seq (run_listener now evt) (with_state (\<lambda>s. for_each (\<lambda>(i, c). call_listener now evt i) (js_calls s)))
   | JobTimer n \<Rightarrow> job_timer_fired now n
   | JobAborted i \<Rightarrow> finish_job i None)"

definition job_run :: "(int \<times> job_input) list \<Rightarrow> job_act" where
  "job_run ins = for_each job_step ins"

section \<open>Timers and calls belong together\<close>

text \<open>What a timer in hand belongs to.\<close>

primrec owns :: "job_state \<Rightarrow> nat \<Rightarrow> job_timer \<Rightarrow> bool" where
  "owns s n (PendingErrorTimer r) \<longleftrightarrow> (\<exists>p. map_of (js_pending s) r = Some p \<and> pr_timer p = n)"
| "owns s n (CallErrorTimer i sn) \<longleftrightarrow> (\<exists>c. map_of (js_calls s) i = Some c \<and> jc_errorTimer c = Some n \<and> rs_runId sn = jc_runId c)"
| "owns s n (CallTimeoutTimer i) \<longleftrightarrow> (\<exists>c. map_of (js_calls s) i = Some c \<and> jc_timeout c = Some n)"

text \<open>Every timer has its owner and every owner its timer; the numbers of calls and timers are fresh.\<close>

definition jobs_ok :: "job_state \<Rightarrow> bool" where
  "jobs_ok s \<longleftrightarrow> distinct (map fst (js_calls s)) \<and> (\<forall>i c. map_of (js_calls s) i = Some c \<longrightarrow> i < js_callCount s)
     \<and> (\<forall>n t. map_of (js_timers s) n = Some t \<longrightarrow> n < js_timerCount s \<and> owns s n t)
     \<and> (\<forall>r p. map_of (js_pending s) r = Some p \<longrightarrow> map_of (js_timers s) (pr_timer p) = Some (PendingErrorTimer r))
     \<and> (\<forall>r p. map_of (js_pending s) r = Some p \<longrightarrow> rs_runId (pr_snapshot p) = r)
     \<and> (\<forall>i c n. map_of (js_calls s) i = Some c \<longrightarrow> jc_timeout c = Some n \<longrightarrow> map_of (js_timers s) n = Some (CallTimeoutTimer i))
     \<and> (\<forall>i c n. map_of (js_calls s) i = Some c \<longrightarrow> jc_errorTimer c = Some n \<longrightarrow>
          (\<exists>sn. map_of (js_timers s) n = Some (CallErrorTimer i sn)))"

text \<open>Calls without a deadline.\<close>

definition untimed :: "job_state \<Rightarrow> nat set" where
  "untimed s = {i. \<exists>c. map_of (js_calls s) i = Some c \<and> jc_timeout c = None}"

definition job_calls :: "job_state \<Rightarrow> nat multiset" where
  "job_calls s = mset (map fst (js_calls s))"

fun settled_jobs :: "job_effect \<Rightarrow> nat multiset" where
  "settled_jobs (JobSettled i e) = {#i#}"
| "settled_jobs _ = {#}"

interpretation jobs: account job_calls settled_jobs .

lemma jobs_okD:
  assumes "jobs_ok s"
  shows "distinct (map fst (js_calls s))"
    and "map_of (js_calls s) i = Some c \<Longrightarrow> i < js_callCount s"
    and "map_of (js_timers s) n = Some t \<Longrightarrow> n < js_timerCount s"
    and "map_of (js_timers s) n = Some t \<Longrightarrow> owns s n t"
    and "map_of (js_pending s) r = Some p \<Longrightarrow> map_of (js_timers s) (pr_timer p) = Some (PendingErrorTimer r)"
    and "map_of (js_pending s) r = Some p \<Longrightarrow> rs_runId (pr_snapshot p) = r"
    and "map_of (js_calls s) i = Some c \<Longrightarrow> jc_timeout c = Some n \<Longrightarrow> map_of (js_timers s) n = Some (CallTimeoutTimer i)"
    and "map_of (js_calls s) i = Some c \<Longrightarrow> jc_errorTimer c = Some n \<Longrightarrow> \<exists>sn. map_of (js_timers s) n = Some (CallErrorTimer i sn)"
  using assms unfolding jobs_ok_def by blast+

lemma owns_cong: "js_pending s' = js_pending s \<Longrightarrow> js_calls s' = js_calls s \<Longrightarrow> owns s' n t \<longleftrightarrow> owns s n t"
  by (cases t) simp_all

lemma jobs_ok_cong:
  assumes "js_pending s' = js_pending s" "js_calls s' = js_calls s" "js_timers s' = js_timers s"
    "js_callCount s' = js_callCount s" "js_timerCount s' = js_timerCount s"
  shows "jobs_ok s' \<longleftrightarrow> jobs_ok s"
proof -
  have "owns s' = owns s" using owns_cong[OF assms(1,2)] by (intro ext) simp
  then show ?thesis by (simp add: jobs_ok_def assms)
qed

lemma jobs_ok_cache [simp]:
  "jobs_ok (s\<lparr>js_cache := m\<rparr>) \<longleftrightarrow> jobs_ok s" "jobs_ok (s\<lparr>js_starts := st\<rparr>) \<longleftrightarrow> jobs_ok s"
  by (intro jobs_ok_cong; simp)+

lemma jobs_okI:
  assumes "distinct (map fst (js_calls s))" "\<And>i c. map_of (js_calls s) i = Some c \<Longrightarrow> i < js_callCount s"
    "\<And>n t. map_of (js_timers s) n = Some t \<Longrightarrow> n < js_timerCount s" "\<And>n t. map_of (js_timers s) n = Some t \<Longrightarrow> owns s n t"
    "\<And>r p. map_of (js_pending s) r = Some p \<Longrightarrow> map_of (js_timers s) (pr_timer p) = Some (PendingErrorTimer r) \<and> rs_runId (pr_snapshot p) = r"
    "\<And>i c n. map_of (js_calls s) i = Some c \<Longrightarrow> jc_timeout c = Some n \<Longrightarrow> map_of (js_timers s) n = Some (CallTimeoutTimer i)"
    "\<And>i c n. map_of (js_calls s) i = Some c \<Longrightarrow> jc_errorTimer c = Some n \<Longrightarrow> \<exists>sn. map_of (js_timers s) n = Some (CallErrorTimer i sn)"
  shows "jobs_ok s"
  unfolding jobs_ok_def
proof (intro conjI allI impI)
  show "distinct (map fst (js_calls s))" by (rule assms(1))
qed (erule assms(2), erule assms(3), erule assms(4), erule assms(5)[THEN conjunct1],
      erule assms(5)[THEN conjunct2], erule (1) assms(6), erule (1) assms(7))

text \<open>Timers are told apart by what they belong to.\<close>

lemma timers_apart:
  assumes ok: "jobs_ok s" and p: "map_of (js_pending s) r = Some p"
  shows "map_of (js_pending s) q = Some p' \<Longrightarrow> pr_timer p' = pr_timer p \<Longrightarrow> q = r"
    and "map_of (js_calls s) i = Some c \<Longrightarrow> jc_timeout c = Some n \<Longrightarrow> n \<noteq> pr_timer p"
    and "map_of (js_calls s) i = Some c \<Longrightarrow> jc_errorTimer c = Some n \<Longrightarrow> n \<noteq> pr_timer p"
proof -
  note t = jobs_okD(5)[OF ok p]
  show "q = r" if "map_of (js_pending s) q = Some p'" "pr_timer p' = pr_timer p"
    using jobs_okD(5)[OF ok that(1)] t that(2) by simp
  show "n \<noteq> pr_timer p" if "map_of (js_calls s) i = Some c" "jc_timeout c = Some n"
    using jobs_okD(7)[OF ok that] t by auto
  show "n \<noteq> pr_timer p" if "map_of (js_calls s) i = Some c" "jc_errorTimer c = Some n"
    using jobs_okD(8)[OF ok that] t by auto
qed

lemma call_timers_apart:
  assumes ok: "jobs_ok s" and c: "map_of (js_calls s) i = Some c"
  shows "jc_timeout c = Some n \<Longrightarrow> map_of (js_calls s) j = Some d \<Longrightarrow> jc_timeout d = Some n \<Longrightarrow> i = j"
    and "jc_errorTimer c = Some n \<Longrightarrow> map_of (js_calls s) j = Some d \<Longrightarrow> jc_errorTimer d = Some n \<Longrightarrow> i = j"
    and "jc_errorTimer c = Some n \<Longrightarrow> map_of (js_calls s) j = Some d \<Longrightarrow> jc_timeout d \<noteq> Some n"
    and "jc_timeout c = Some n \<Longrightarrow> map_of (js_calls s) j = Some d \<Longrightarrow> jc_errorTimer d \<noteq> Some n"
proof -
  show "i = j" if "jc_timeout c = Some n" "map_of (js_calls s) j = Some d" "jc_timeout d = Some n"
    using jobs_okD(7)[OF ok c that(1)] jobs_okD(7)[OF ok that(2,3)] by simp
  show "i = j" if "jc_errorTimer c = Some n" "map_of (js_calls s) j = Some d" "jc_errorTimer d = Some n"
    using jobs_okD(8)[OF ok c that(1)] jobs_okD(8)[OF ok that(2,3)] by auto
  show "jc_timeout d \<noteq> Some n" if "jc_errorTimer c = Some n" "map_of (js_calls s) j = Some d"
    using jobs_okD(8)[OF ok c that(1)] jobs_okD(7)[OF ok that(2), of n] by auto
  show "jc_errorTimer d \<noteq> Some n" if "jc_timeout c = Some n" "map_of (js_calls s) j = Some d"
    using jobs_okD(7)[OF ok c that(1)] jobs_okD(8)[OF ok that(2), of n] by auto
qed

lemma forget_pending_ok:
  assumes ok: "jobs_ok s" and p: "map_of (js_pending s) r = Some p"
  shows "jobs_ok (s\<lparr>js_timers := AList.delete (pr_timer p) (js_timers s), js_pending := AList.delete r (js_pending s)\<rparr>)"
    (is "jobs_ok ?s")
proof (rule jobs_okI)
  show "owns ?s n t" if "map_of (js_timers ?s) n = Some t" for n t
    using that jobs_okD(4)[OF ok, of n t] p by (cases t) (auto simp: AList.delete_conv' split: if_splits)
  show "map_of (js_timers ?s) (pr_timer p') = Some (PendingErrorTimer q) \<and> rs_runId (pr_snapshot p') = q"
    if "map_of (js_pending ?s) q = Some p'" for q p'
  proof -
    have q: "map_of (js_pending s) q = Some p'" "q \<noteq> r" using that by (auto simp: AList.delete_conv' split: if_splits)
    then show ?thesis using jobs_okD(5,6)[OF ok q(1)] timers_apart(1)[OF ok p q(1)] by (auto simp: AList.delete_conv')
  qed
qed (use jobs_okD[OF ok] timers_apart(2,3)[OF ok p] in \<open>auto simp: AList.delete_conv' split: if_splits\<close>)

lemma clear_error_state:
  "fst (clearPendingErrorTimer i s) = (case map_of (js_calls s) i of None \<Rightarrow> s
     | Some c \<Rightarrow> (case jc_errorTimer c of None \<Rightarrow> s
       | Some n \<Rightarrow> s\<lparr>js_timers := AList.delete n (js_timers s), js_calls := AList.update i (c\<lparr>jc_errorTimer := None\<rparr>) (js_calls s)\<rparr>))"
  by (simp add: clearPendingErrorTimer_def clear_timer_def split: option.split)

lemma clear_error_ok:
  assumes ok: "jobs_ok s"
  shows "jobs_ok (fst (clearPendingErrorTimer i s))"
proof (cases "map_of (js_calls s) i")
  case c: (Some c)
  show ?thesis
  proof (cases "jc_errorTimer c")
    case n: (Some n)
    let ?s = "s\<lparr>js_timers := AList.delete n (js_timers s), js_calls := AList.update i (c\<lparr>jc_errorTimer := None\<rparr>) (js_calls s)\<rparr>"
    have "jobs_ok ?s"
    proof (rule jobs_okI)
      show "owns ?s m t" if "map_of (js_timers ?s) m = Some t" for m t
        using that jobs_okD(4)[OF ok, of m t] c n
        by (cases t) (auto simp: AList.delete_conv' AList.update_conv' split: if_splits)
      show "map_of (js_timers ?s) (pr_timer p) = Some (PendingErrorTimer r) \<and> rs_runId (pr_snapshot p) = r"
        if "map_of (js_pending ?s) r = Some p" for r p
        using that jobs_okD(5,6)[OF ok, of r p] timers_apart(3)[OF ok _ c n] by (auto simp: AList.delete_conv')
      show "map_of (js_timers ?s) m = Some (CallTimeoutTimer j)"
        if "map_of (js_calls ?s) j = Some d" "jc_timeout d = Some m" for j d m
        using that jobs_okD(7)[OF ok] c call_timers_apart(3)[OF ok c n]
        by (fastforce simp: AList.delete_conv' AList.update_conv' split: if_splits)
      show "\<exists>sn. map_of (js_timers ?s) m = Some (CallErrorTimer j sn)"
        if "map_of (js_calls ?s) j = Some d" "jc_errorTimer d = Some m" for j d m
        using that jobs_okD(8)[OF ok] call_timers_apart(2)[OF ok c n]
        by (fastforce simp: AList.delete_conv' AList.update_conv' split: if_splits)
    qed (use jobs_okD[OF ok] c in \<open>auto simp: AList.delete_conv' AList.update_conv' distinct_update split: if_splits\<close>)
    then show ?thesis by (simp add: clear_error_state c n)
  qed (simp add: clear_error_state c ok)
qed (simp add: clear_error_state ok)

text \<open>A call that ends takes its timers with it.\<close>

definition without_timers :: "job_call \<Rightarrow> (nat \<times> job_timer) list \<Rightarrow> (nat \<times> job_timer) list" where
  "without_timers c T = (let U = (case jc_timeout c of Some n \<Rightarrow> AList.delete n T | None \<Rightarrow> T)
     in case jc_errorTimer c of Some n \<Rightarrow> AList.delete n U | None \<Rightarrow> U)"

lemma map_of_without_timers:
  "map_of (without_timers c T) n = (if jc_timeout c = Some n \<or> jc_errorTimer c = Some n then None else map_of T n)"
  by (auto simp: without_timers_def AList.delete_conv' split: option.split)

lemma finish_state:
  "fst (finish_job i e s) = (case map_of (js_calls s) i of None \<Rightarrow> s
     | Some c \<Rightarrow> s\<lparr>js_timers := without_timers c (js_timers s), js_calls := AList.delete i (js_calls s)\<rparr>)"
  by (auto simp: finish_job_def clear_error_state clear_timer_def without_timers_def AList.delete_update_same split: option.split)

lemma dropped_call_ok:
  assumes ok: "jobs_ok s" and c: "map_of (js_calls s) i = Some c"
    and s': "js_calls s' = AList.delete i (js_calls s)" "js_pending s' = js_pending s" "js_callCount s' = js_callCount s"
      "js_timerCount s' = js_timerCount s"
    and T: "\<And>n. map_of (js_timers s') n = (if jc_timeout c = Some n \<or> jc_errorTimer c = Some n then None else map_of (js_timers s) n)"
  shows "jobs_ok s'"
proof (rule jobs_okI)
  show "owns s' n t" if "map_of (js_timers s') n = Some t" for n t
    using that jobs_okD(4)[OF ok, of n t] c by (cases t) (auto simp: T s' AList.delete_conv' split: if_splits)
  show "map_of (js_timers s') (pr_timer p) = Some (PendingErrorTimer r) \<and> rs_runId (pr_snapshot p) = r"
    if "map_of (js_pending s') r = Some p" for r p
    using that jobs_okD(5,6)[OF ok, of r p] timers_apart(2,3)[OF ok _ c, of r p "pr_timer p"] by (auto simp: T s')
  show "map_of (js_timers s') m = Some (CallTimeoutTimer j)"
    if "map_of (js_calls s') j = Some d" "jc_timeout d = Some m" for j d m
    using that jobs_okD(7)[OF ok, of j d m] call_timers_apart(1,3)[OF ok c]
    by (auto simp: T s' AList.delete_conv' split: if_splits)
  show "\<exists>sn. map_of (js_timers s') m = Some (CallErrorTimer j sn)"
    if "map_of (js_calls s') j = Some d" "jc_errorTimer d = Some m" for j d m
    using that jobs_okD(8)[OF ok, of j d m] call_timers_apart(2,4)[OF ok c]
    by (auto simp: T s' AList.delete_conv' split: if_splits)
qed (use jobs_okD[OF ok] in \<open>auto simp: T s' AList.delete_conv' distinct_delete split: if_splits\<close>)

lemma job_finish_ok: "jobs_ok s \<Longrightarrow> jobs_ok (fst (finish_job i e s))"
  by (cases "map_of (js_calls s) i") (auto simp: finish_state map_of_without_timers intro!: dropped_call_ok[of s i])

lemma map_of_snoc: "map_of m k = None \<Longrightarrow> map_of (m @ [(k, v)]) = (map_of m)(k \<mapsto> v)"
  by (auto simp: fun_eq_iff map_add_def split: option.split)

lemma fresh_timer: "jobs_ok s \<Longrightarrow> map_of (js_timers s) (js_timerCount s) = None"
  using jobs_okD(3)[of s "js_timerCount s"] by (cases "map_of (js_timers s) (js_timerCount s)") auto

lemma fresh_call: "jobs_ok s \<Longrightarrow> map_of (js_calls s) (js_callCount s) = None"
  using jobs_okD(2)[of s "js_callCount s"] by (cases "map_of (js_calls s) (js_callCount s)") auto

text \<open>Setting a timer for a pending error, for the failure of a call, and for a call's deadline.\<close>

lemma set_pending_ok:
  assumes ok: "jobs_ok s" and none: "map_of (js_pending s) (rs_runId sn) = None"
  shows "jobs_ok (s\<lparr>js_timers := (js_timerCount s, PendingErrorTimer (rs_runId sn)) # js_timers s, js_timerCount := Suc (js_timerCount s),
      js_pending := AList.update (rs_runId sn) \<lparr>pr_snapshot = sn, pr_dueAt = d, pr_timer = js_timerCount s\<rparr> (js_pending s)\<rparr>)"
    (is "jobs_ok ?s")
proof (rule jobs_okI)
  show "n < js_timerCount ?s" if "map_of (js_timers ?s) n = Some t" for n t
    using that jobs_okD(3)[OF ok, of n t] by (auto split: if_splits)
  show "owns ?s n t" if "map_of (js_timers ?s) n = Some t" for n t
    using that jobs_okD(4)[OF ok, of n t] none by (cases t) (auto simp: AList.update_conv' split: if_splits)
  show "map_of (js_timers ?s) (pr_timer p) = Some (PendingErrorTimer r) \<and> rs_runId (pr_snapshot p) = r"
    if "map_of (js_pending ?s) r = Some p" for r p
    using that jobs_okD(5,6)[OF ok, of r p] fresh_timer[OF ok] by (auto simp: AList.update_conv' split: if_splits)
  show "map_of (js_timers ?s) n = Some (CallTimeoutTimer i)" if "map_of (js_calls ?s) i = Some c" "jc_timeout c = Some n" for i c n
    using that jobs_okD(7)[OF ok, of i c n] fresh_timer[OF ok] by auto
  show "\<exists>sn. map_of (js_timers ?s) n = Some (CallErrorTimer i sn)" if "map_of (js_calls ?s) i = Some c" "jc_errorTimer c = Some n" for i c n
    using that jobs_okD(8)[OF ok, of i c n] fresh_timer[OF ok] by auto
qed (use jobs_okD[OF ok] in auto)

lemma set_call_timer_ok:
  assumes ok: "jobs_ok s" and c: "map_of (js_calls s) i = Some c"
    and d: "jc_runId d = jc_runId c \<and> (t = CallTimeoutTimer i \<and> jc_timeout c = None \<and> jc_timeout d = Some (js_timerCount s) \<and> jc_errorTimer d = jc_errorTimer c
      \<or> t = CallErrorTimer i sn \<and> rs_runId sn = jc_runId c \<and> jc_errorTimer c = None \<and> jc_errorTimer d = Some (js_timerCount s) \<and> jc_timeout d = jc_timeout c)"
  shows "jobs_ok (s\<lparr>js_timers := (js_timerCount s, t) # js_timers s, js_timerCount := Suc (js_timerCount s),
      js_calls := AList.update i d (js_calls s)\<rparr>)"
    (is "jobs_ok ?s")
proof (rule jobs_okI)
  show "n < js_timerCount ?s" if "map_of (js_timers ?s) n = Some t" for n t
    using that jobs_okD(3)[OF ok, of n t] by (auto split: if_splits)
  show "owns ?s n t" if "map_of (js_timers ?s) n = Some t" for n t
    using that jobs_okD(4)[OF ok, of n t] c d by (cases t) (auto simp: AList.update_conv' split: if_splits)
  show "map_of (js_timers ?s) (pr_timer p) = Some (PendingErrorTimer r) \<and> rs_runId (pr_snapshot p) = r"
    if "map_of (js_pending ?s) r = Some p" for r p
    using that jobs_okD(5,6)[OF ok, of r p] fresh_timer[OF ok] by auto
  show "map_of (js_timers ?s) n = Some (CallTimeoutTimer j)" if "map_of (js_calls ?s) j = Some e" "jc_timeout e = Some n" for j e n
    using that jobs_okD(7)[OF ok, of j e n] jobs_okD(7)[OF ok c, of n] fresh_timer[OF ok] d
    by (cases "j = i") (auto simp: AList.update_conv')
  show "\<exists>sn. map_of (js_timers ?s) n = Some (CallErrorTimer j sn)" if "map_of (js_calls ?s) j = Some e" "jc_errorTimer e = Some n" for j e n
    using that jobs_okD(8)[OF ok, of j e n] jobs_okD(8)[OF ok c, of n] fresh_timer[OF ok] d
    by (cases "j = i") (auto simp: AList.update_conv')
qed (use jobs_okD[OF ok] c in \<open>auto simp: AList.update_conv' distinct_update split: if_splits\<close>)

lemma add_call_ok:
  assumes ok: "jobs_ok s" and c: "jc_errorTimer c = None" "jc_timeout c = None" and n: "js_callCount s = Suc i" "map_of (js_calls s) i = None"
  shows "jobs_ok (s\<lparr>js_calls := js_calls s @ [(i, c)]\<rparr>)" (is "jobs_ok ?s")
proof (rule jobs_okI)
  note C = map_of_snoc[OF n(2)]
  show "distinct (map fst (js_calls ?s))"
    using jobs_okD(1)[OF ok] n(2) by (simp add: map_of_eq_None_iff)
  show "j < js_callCount ?s" if "map_of (js_calls ?s) j = Some d" for j d
    using that jobs_okD(2)[OF ok] n by (auto simp: C split: if_splits)
  show "owns ?s m t" if "map_of (js_timers ?s) m = Some t" for m t
    using that jobs_okD(4)[OF ok, of m t] n(2) by (cases t) (auto simp: C)
  show "map_of (js_timers ?s) m = Some (CallTimeoutTimer j)" if "map_of (js_calls ?s) j = Some d" "jc_timeout d = Some m" for j d m
    using that jobs_okD(7)[OF ok, of j d m] c by (auto simp: C split: if_splits)
  show "\<exists>sn. map_of (js_timers ?s) m = Some (CallErrorTimer j sn)" if "map_of (js_calls ?s) j = Some d" "jc_errorTimer d = Some m" for j d m
    using that jobs_okD(8)[OF ok, of j d m] c by (auto simp: C split: if_splits)
qed (use jobs_okD[OF ok] in auto)

section \<open>Handlers keep the order and settle what they drop\<close>

definition jobs_sound :: "job_act \<Rightarrow> job_state \<Rightarrow> bool" where
  "jobs_sound a s \<longleftrightarrow> jobs_ok (fst (a s)) \<and> untimed (fst (a s)) \<subseteq> untimed s
     \<and> js_callCount (fst (a s)) = js_callCount s \<and> jobs.balanced {#} a s"

lemma jobs_sound_skip [simp]: "jobs_sound skip s \<longleftrightarrow> jobs_ok s"
  by (simp add: jobs_sound_def)

lemma jobs_sound_seq: "jobs_sound a s \<Longrightarrow> jobs_sound b (fst (a s)) \<Longrightarrow> jobs_sound (seq a b) s"
  unfolding jobs_sound_def by (auto intro: jobs.balanced_seq)

lemma jobs_sound_with_state [simp]: "jobs_sound (with_state k) s \<longleftrightarrow> jobs_sound (k s) s"
  by (simp add: jobs_sound_def jobs.balanced_def)

lemma jobs_sound_update:
  "jobs_ok (f s) \<Longrightarrow> js_calls (f s) = js_calls s \<Longrightarrow> js_callCount (f s) = js_callCount s \<Longrightarrow> jobs_sound (update f) s"
  by (simp add: jobs_sound_def jobs.balanced_def untimed_def job_calls_def)

lemma jobs_sound_for_each:
  "(\<And>x s. jobs_ok s \<Longrightarrow> jobs_sound (f x) s) \<Longrightarrow> jobs_ok s \<Longrightarrow> jobs_sound (for_each f xs) s"
proof (induction xs arbitrary: s)
  case (Cons x xs)
  have "jobs_sound (f x) s" by (rule Cons.prems)+
  moreover from this have "jobs_ok (fst (f x s))" by (simp add: jobs_sound_def)
  ultimately show ?case using Cons by (auto intro: jobs_sound_seq)
qed simp

lemma job_calls_update: "map_of (js_calls s) i = Some c \<Longrightarrow> job_calls (s\<lparr>js_calls := AList.update i d (js_calls s)\<rparr>) = job_calls s"
  by (auto simp: job_calls_def AList.update_keys dest: map_of_SomeD intro: rev_image_eqI)

lemma clear_pending_state:
  "fst (clearPendingAgentRunError r s) = (case map_of (js_pending s) r of None \<Rightarrow> s
     | Some p \<Rightarrow> s\<lparr>js_timers := AList.delete (pr_timer p) (js_timers s), js_pending := AList.delete r (js_pending s)\<rparr>)"
  by (simp add: clearPendingAgentRunError_def clear_timer_def split: option.split)

lemma clear_pending_sound: "jobs_ok s \<Longrightarrow> jobs_sound (clearPendingAgentRunError r) s"
  using forget_pending_ok[of s r]
  by (auto simp: jobs_sound_def clear_pending_state jobs.balanced_def clearPendingAgentRunError_def clear_timer_def untimed_def job_calls_def
      split: option.split)

lemma schedule_pending_sound:
  assumes "jobs_ok s"
  shows "jobs_sound (schedulePendingAgentRunError now sn) s"
  unfolding schedulePendingAgentRunError_def
proof (rule jobs_sound_seq)
  show "jobs_sound (clearPendingAgentRunError (rs_runId sn)) s" by (rule clear_pending_sound[OF assms])
  let ?s = "fst (clearPendingAgentRunError (rs_runId sn) s)"
  have "map_of (js_pending ?s) (rs_runId sn) = None"
    by (simp add: clear_pending_state AList.delete_conv' split: option.split)
  moreover have "jobs_ok ?s" using clear_pending_sound[OF assms] by (simp add: jobs_sound_def)
  ultimately show "jobs_sound (with_state (\<lambda>s. seq (set_timer (PendingErrorTimer (rs_runId sn)) AGENT_RUN_ERROR_RETRY_GRACE_MS)
      (update (\<lambda>s'. s'\<lparr>js_pending := AList.update (rs_runId sn)
          \<lparr>pr_snapshot = sn, pr_dueAt = now + AGENT_RUN_ERROR_RETRY_GRACE_MS, pr_timer = js_timerCount s\<rparr> (js_pending s')\<rparr>)))) ?s"
    using set_pending_ok[of ?s sn] by (simp add: jobs_sound_def set_timer_def jobs.balanced_def untimed_def job_calls_def)
qed

lemma clear_error_effects: "sum_list (map settled_jobs (snd (clearPendingErrorTimer i s))) = {#}"
  by (simp add: clearPendingErrorTimer_def clear_timer_def split: option.split)

lemma clear_error_sound: "jobs_ok s \<Longrightarrow> jobs_sound (clearPendingErrorTimer i) s"
  using clear_error_ok[of s i] job_calls_update[of "s\<lparr>js_timers := _\<rparr>" i]
  by (auto simp: jobs_sound_def jobs.balanced_def clear_error_effects clear_error_state untimed_def AList.update_conv' job_calls_def
      split: option.split)

lemma error_cleared:
  assumes "map_of (js_calls s) i = Some c"
  shows "map_of (js_calls (fst (clearPendingErrorTimer i s))) i = Some (c\<lparr>jc_errorTimer := None\<rparr>)"
  by (cases c; cases "jc_errorTimer c") (simp_all add: clear_error_state assms AList.update_conv')

lemma schedule_error_sound:
  assumes ok: "jobs_ok s" and c: "map_of (js_calls s) i = Some c" and r: "rs_runId sn = jc_runId c"
  shows "jobs_sound (scheduleErrorFinish i sn d) s"
  unfolding scheduleErrorFinish_def
proof (rule jobs_sound_seq)
  show e: "jobs_sound (clearPendingErrorTimer i) s" by (rule clear_error_sound[OF ok])
  let ?s = "fst (clearPendingErrorTimer i s)"
  note c' = error_cleared[OF c]
  have ok': "jobs_ok ?s" using e by (simp add: jobs_sound_def)
  show "jobs_sound (with_state (\<lambda>s. seq (set_timer (CallErrorTimer i sn) (bounded_delay d))
       (update (\<lambda>s'. case map_of (js_calls s') i of
          None \<Rightarrow> s'
        | Some c \<Rightarrow> s'\<lparr>js_calls := AList.update i (c\<lparr>jc_errorTimer := Some (js_timerCount s)\<rparr>) (js_calls s')\<rparr>)))) ?s"
    using set_call_timer_ok[OF ok' c', of "c\<lparr>jc_errorTimer := Some (js_timerCount ?s)\<rparr>" "CallErrorTimer i sn" sn] r c'
      job_calls_update[OF c']
    by (auto simp: jobs_sound_def set_timer_def jobs.balanced_def untimed_def AList.update_conv' job_calls_def split: if_splits)
qed

lemma error_scheduled:
  assumes "map_of (js_calls s) i = Some c"
  shows "\<exists>n. map_of (js_calls (fst (scheduleErrorFinish i sn d s))) i = Some (c\<lparr>jc_errorTimer := Some n\<rparr>)"
  by (intro exI[of _ "js_timerCount (fst (clearPendingErrorTimer i s))"])
    (simp add: scheduleErrorFinish_def set_timer_def error_cleared[OF assms] AList.update_conv')

lemma finish_effects:
  "sum_list (map settled_jobs (snd (finish_job i e s))) = (if map_of (js_calls s) i = None then {#} else {#i#})"
  by (auto simp: finish_job_def clear_error_effects clear_timer_def split: option.split)

lemma drop_call_owed:
  assumes "distinct (map fst (js_calls s))" and "map_of (js_calls s) i = Some c"
  shows "mset (map fst (AList.delete i (js_calls s))) + {#i#} = mset (map fst (js_calls s))"
proof -
  have "i \<in># mset (map fst (js_calls s))" using assms(2) by (auto dest!: map_of_SomeD intro!: image_eqI)
  then show ?thesis unfolding AList.delete_keys distinct_remove1_removeAll[OF assms(1), symmetric] by simp
qed

lemma finish_sound: "jobs_ok s \<Longrightarrow> jobs_sound (finish_job i e) s"
  using job_finish_ok[of s i e] drop_call_owed[OF jobs_okD(1), of s i]
  by (cases "map_of (js_calls s) i")
    (auto simp: jobs_sound_def jobs.balanced_def finish_effects finish_state untimed_def AList.delete_conv' job_calls_def split: if_splits)

lemma with_cached_sound:
  assumes "jobs_ok s" and "\<And>v s'. jobs_ok s' \<Longrightarrow> js_calls s' = js_calls s \<Longrightarrow> jobs_sound (k v) s'"
  shows "jobs_sound (with_cached now c k) s"
proof (cases "jc_ignoreCached c")
  case False
  have "jobs_ok (pruneAgentRunCache now s)" using assms(1) by (simp add: pruneAgentRunCache_def)
  then show ?thesis
    unfolding with_cached_def if_not_P[OF False] using assms
    by (intro jobs_sound_seq jobs_sound_update) (simp_all add: pruneAgentRunCache_def)
qed (simp add: with_cached_def assms)

lemma record_sound: "jobs_ok s \<Longrightarrow> jobs_sound (recordAgentRunSnapshot e) s"
  unfolding recordAgentRunSnapshot_def by (intro jobs_sound_update) (simp_all add: pruneAgentRunCache_def Let_def)

lemma snapshot_run [simp]: "rs_runId (createSnapshotFromLifecycleEvent now r f data s) = r"
  by (simp add: createSnapshotFromLifecycleEvent_def)

lemma jobs_soundD: "jobs_sound a s \<Longrightarrow> jobs_ok (fst (a s))"
  by (simp add: jobs_sound_def)

lemma call_listener_sound:
  assumes ok: "jobs_ok s"
  shows "jobs_sound (call_listener now evt i) s"
proof (cases "map_of (js_calls s) i")
  case (Some c)
  have recorded: "jobs_sound (seq (recordAgentRunSnapshot sn) (finish_job i (Some sn))) s'" if "jobs_ok s'" for sn s'
    using that by (intro jobs_sound_seq record_sound finish_sound jobs_soundD[OF record_sound])
  have fail: "jobs_sound (scheduleErrorFinish i (createSnapshotFromLifecycleEvent now (jc_runId c) f data s'') d) s'"
    if "jobs_ok s'" "js_calls s' = js_calls s" for s' s'' f data d
    using that Some by (intro schedule_error_sound[of s' i c]) simp_all
  show ?thesis
    unfolding call_listener_def jobs_sound_with_state Some option.case
    by (auto simp: ok Let_def intro!: clear_error_sound with_cached_sound recorded fail finish_sound split: option.split)
qed (simp add: call_listener_def ok)

lemma run_listener_sound:
  assumes ok: "jobs_ok s"
  shows "jobs_sound (run_listener now evt) s"
proof -
  have [intro]: "jobs_sound (update (\<lambda>s. s\<lparr>js_starts := f s\<rparr>)) s'" "jobs_sound (update (\<lambda>s. s\<lparr>js_cache := g s\<rparr>)) s'"
    if "jobs_ok s'" for s' f g
    using that by (auto intro: jobs_sound_update)
  have cleared: "jobs_sound (seq (clearPendingAgentRunError (ae_runId evt)) a) s'"
    if "jobs_ok s'" "\<And>s. jobs_ok s \<Longrightarrow> jobs_sound a s" for s' a
    using that by (auto intro!: jobs_sound_seq clear_pending_sound jobs_soundD[OF clear_pending_sound])
  show ?thesis
    unfolding run_listener_def Let_def
    by (auto simp: ok simp del: seq_update intro!: jobs_sound_seq cleared record_sound schedule_pending_sound)
qed

lemma fired_sound:
  assumes ok: "jobs_ok s"
  shows "jobs_sound (job_timer_fired now n) s"
proof (cases "map_of (js_timers s) n")
  case t: (Some t)
  note o = jobs_okD(4)[OF ok t]
  show ?thesis
  proof (cases t)
    case (PendingErrorTimer r)
    then obtain p where p: "map_of (js_pending s) r = Some p" "pr_timer p = n" using o by auto
    have "jobs_sound (update (\<lambda>s. s\<lparr>js_timers := AList.delete n (js_timers s), js_pending := AList.delete r (js_pending s)\<rparr>)) s"
      using forget_pending_ok[OF ok p(1)] p(2) by (intro jobs_sound_update) simp_all
    then have "jobs_sound (seq (update (\<lambda>s. s\<lparr>js_timers := AList.delete n (js_timers s), js_pending := AList.delete r (js_pending s)\<rparr>))
        (recordAgentRunSnapshot (pr_snapshot p))) s"
      by (rule jobs_sound_seq) (use forget_pending_ok[OF ok p(1)] p(2) in \<open>auto intro: record_sound\<close>)
    then show ?thesis by (simp add: job_timer_fired_def t PendingErrorTimer p jobs_sound_def jobs.balanced_def)
  next
    case (CallErrorTimer i sn)
    then obtain c where c: "map_of (js_calls s) i = Some c" "jc_errorTimer c = Some n" using o by auto
    define a where "a = job_timer_fired now n"
    have f: "js_calls (fst (a s)) = AList.delete i (js_calls s)" "js_pending (fst (a s)) = js_pending s"
      "js_callCount (fst (a s)) = js_callCount s" "js_timerCount (fst (a s)) = js_timerCount s"
      "map_of (js_timers (fst (a s))) m = (if jc_timeout c = Some m \<or> jc_errorTimer c = Some m then None else map_of (js_timers s) m)"
      "sum_list (map settled_jobs (snd (a s))) = {#i#}" for m
      by (auto simp: a_def job_timer_fired_def t CallErrorTimer c with_cached_def finish_state finish_effects pruneAgentRunCache_def
          recordAgentRunSnapshot_def map_of_without_timers AList.delete_conv' split: option.split)
    show ?thesis
      unfolding a_def[symmetric] jobs_sound_def jobs.balanced_def
      using dropped_call_ok[OF ok c(1) f(1-5)] drop_call_owed[OF jobs_okD(1)[OF ok] c(1)]
      by (auto simp: f untimed_def job_calls_def AList.delete_conv' split: if_splits)
  next
    case (CallTimeoutTimer i)
    then obtain c where c: "map_of (js_calls s) i = Some c" "jc_timeout c = Some n" using o by auto
    define a where "a = job_timer_fired now n"
    have f: "js_calls (fst (a s)) = AList.delete i (js_calls s)" "js_pending (fst (a s)) = js_pending s"
      "js_callCount (fst (a s)) = js_callCount s" "js_timerCount (fst (a s)) = js_timerCount s"
      "map_of (js_timers (fst (a s))) m = (if jc_timeout c = Some m \<or> jc_errorTimer c = Some m then None else map_of (js_timers s) m)"
      "sum_list (map settled_jobs (snd (a s))) = {#i#}" for m
      by (auto simp: a_def job_timer_fired_def t CallTimeoutTimer c finish_state finish_effects
          map_of_without_timers AList.delete_conv')
    show ?thesis
      unfolding a_def[symmetric] jobs_sound_def jobs.balanced_def
      using dropped_call_ok[OF ok c(1) f(1-5)] drop_call_owed[OF jobs_okD(1)[OF ok] c(1)]
      by (auto simp: f untimed_def job_calls_def AList.delete_conv' split: if_splits)
  qed
qed (simp add: job_timer_fired_def ok)

text \<open>A new call.\<close>

definition job_started :: "job_act \<Rightarrow> job_state \<Rightarrow> bool" where
  "job_started a s \<longleftrightarrow> jobs_ok (fst (a s)) \<and> untimed (fst (a s)) \<subseteq> untimed s
     \<and> js_callCount (fst (a s)) = Suc (js_callCount s) \<and> jobs.balanced {#js_callCount s#} a s"

lemma count_ok: "jobs_ok s \<Longrightarrow> jobs_ok (s\<lparr>js_callCount := Suc (js_callCount s)\<rparr>)"
  unfolding jobs_ok_def by (auto simp: less_Suc_eq owns_cong[of "s\<lparr>js_callCount := _\<rparr>" s])

lemma deadline_set:
  assumes ok: "jobs_ok s" and c: "map_of (js_calls s) i = Some c" "jc_timeout c = None"
  shows "jobs_ok (fst (set_deadline i ms s))" "untimed (fst (set_deadline i ms s)) = untimed s - {i}"
    "jobs.balanced {#} (set_deadline i ms) s" "js_callCount (fst (set_deadline i ms s)) = js_callCount s"
  using set_call_timer_ok[OF ok c(1), of "c\<lparr>jc_timeout := Some (js_timerCount s)\<rparr>" "CallTimeoutTimer i"] c job_calls_update[OF c(1)]
  by (auto simp: set_deadline_def set_timer_def untimed_def AList.update_conv' jobs.balanced_def job_calls_def split: if_splits)

lemma start_job_sound:
  assumes ok: "jobs_ok s"
  shows "job_started (waitForAgentJob now r ms ab ig) s"
proof -
  let ?i = "js_callCount s" let ?c = "\<lparr>jc_runId = r, jc_ignoreCached = ig, jc_errorTimer = None, jc_timeout = None\<rparr>"
  let ?wait = "seq (schedule_known_error now ?i ?c) (set_deadline ?i ms)"
  have waiting: "jobs_ok (fst (?wait s2)) \<and> untimed (fst (?wait s2)) \<subseteq> untimed s
      \<and> js_callCount (fst (?wait s2)) = Suc ?i \<and> jobs.balanced {#} ?wait s2 \<and> job_calls s2 = job_calls s + {#?i#}"
    if s2: "s2 = s1\<lparr>js_calls := js_calls s1 @ [(?i, ?c)]\<rparr>" and s1: "jobs_ok s1" "js_calls s1 = js_calls s" "js_callCount s1 = Suc ?i" for s1 s2
  proof -
    note none = fresh_call[OF ok]
    note C = map_of_snoc[OF none]
    have ok2: "jobs_ok s2" using add_call_ok[OF s1(1), of ?c ?i] s1(2,3) none by (simp add: s2)
    have c2: "map_of (js_calls s2) ?i = Some ?c" by (simp add: s2 s1(2) C del: map_of_append)
    have p: "jobs_sound (schedule_known_error now ?i ?c) s2"
      unfolding schedule_known_error_def jobs_sound_with_state
      by (auto simp: ok2 jobs_okD(6)[OF ok2] split: option.split intro!: schedule_error_sound[OF ok2 c2])
    let ?s3 = "fst (schedule_known_error now ?i ?c s2)"
    define k where "k = (if ig then None else map_of (js_pending s2) r)"
    have known: "schedule_known_error now ?i ?c s2
        = (case k of None \<Rightarrow> skip | Some p \<Rightarrow> scheduleErrorFinish ?i (pr_snapshot p) (pr_dueAt p - now)) s2"
      by (simp add: schedule_known_error_def k_def)
    obtain c3 where c3: "map_of (js_calls ?s3) ?i = Some c3" "jc_timeout c3 = None"
    proof (cases k)
      case None
      show ?thesis using that[of ?c] c2 unfolding known None by simp
    next
      case (Some q)
      obtain n where "map_of (js_calls (fst (scheduleErrorFinish ?i (pr_snapshot q) (pr_dueAt q - now) s2))) ?i
          = Some (?c\<lparr>jc_errorTimer := Some n\<rparr>)"
        using error_scheduled[OF c2] by blast
      then show ?thesis using that unfolding known Some by simp
    qed
    note d = deadline_set[OF jobs_soundD[OF p] c3, of ms]
    have u: "untimed s2 \<subseteq> insert ?i (untimed s)"
      by (auto simp: untimed_def s2 s1(2) C simp del: map_of_append split: if_splits)
    have b: "jobs.balanced {#} ?wait s2" using p d(3) by (auto simp: jobs_sound_def intro: jobs.balanced_seq)
    show ?thesis
      using p d(1,2,4) u b by (auto simp: jobs_sound_def s2 s1 job_calls_def)
  qed
  define s1 where "s1 = (if ig then s\<lparr>js_callCount := Suc ?i\<rparr> else pruneAgentRunCache now (s\<lparr>js_callCount := Suc ?i\<rparr>))"
  have s1: "jobs_ok s1" "js_calls s1 = js_calls s" "js_callCount s1 = Suc ?i"
    using count_ok[OF ok] by (simp_all add: s1_def pruneAgentRunCache_def)
  have run: "waitForAgentJob now r ms ab ig s = (case (if ig then None else map_of (js_cache s1) r) of
      Some e \<Rightarrow> (s1, [JobSettled ?i (Some e)])
    | None \<Rightarrow> if ms \<le> 0 \<or> ab then (s1, [JobSettled ?i None]) else ?wait (s1\<lparr>js_calls := js_calls s1 @ [(?i, ?c)]\<rparr>))"
    by (auto simp: waitForAgentJob_def Let_def with_cached_def s1_def split: option.split)
  show ?thesis
  proof (cases "(if ig then None else map_of (js_cache s1) r) = None \<and> \<not> (ms \<le> 0 \<or> ab)")
    case True
    then have r: "waitForAgentJob now r ms ab ig s = ?wait (s1\<lparr>js_calls := js_calls s1 @ [(?i, ?c)]\<rparr>)"
      unfolding run by (simp del: fst_seq snd_seq)
    show ?thesis
      using waiting[OF refl s1] unfolding job_started_def jobs.balanced_def r by (simp add: ac_simps del: fst_seq snd_seq)
  next
    case False
    then obtain e where r: "waitForAgentJob now r ms ab ig s = (s1, [JobSettled ?i e])"
      unfolding run by (cases "(if ig then None else map_of (js_cache s1) r)") auto
    show ?thesis
      using s1 unfolding job_started_def jobs.balanced_def r by (simp add: job_calls_def untimed_def)
  qed
qed

section \<open>Every call is settled once\<close>

fun new_jobs :: "job_input \<Rightarrow> job_state \<Rightarrow> nat multiset" where
  "new_jobs (WaitForRun r ms ab ig) s = {#js_callCount s#}"
| "new_jobs _ s = {#}"

lemma event_sound:
  assumes ok: "jobs_ok s"
  shows "jobs_sound (job_step (now, RunEvent evt)) s"
  unfolding job_step_def prod.case job_input.case
  by (intro jobs_sound_seq) (auto intro!: run_listener_sound jobs_sound_for_each call_listener_sound ok jobs_soundD[OF run_listener_sound])

lemma job_step_facts:
  assumes "jobs_ok s" and "untimed s = {}"
  shows "jobs_ok (fst (job_step i s)) \<and> untimed (fst (job_step i s)) = {}
    \<and> js_callCount (fst (job_step i s)) = js_callCount s + size (new_jobs (snd i) s) \<and> jobs.balanced (new_jobs (snd i) s) (job_step i) s"
proof (cases "snd i")
  case (WaitForRun r ms ab ig)
  then show ?thesis
    using start_job_sound[OF assms(1), of "fst i" r ms ab ig] assms(2) by (cases i) (simp add: job_step_def job_started_def)
next
  case (RunEvent evt)
  then show ?thesis using event_sound[OF assms(1), of "fst i" evt] assms(2) by (cases i) (simp add: jobs_sound_def)
next
  case (JobTimer n)
  then show ?thesis using fired_sound[OF assms(1), of "fst i" n] assms(2) by (cases i) (simp add: job_step_def jobs_sound_def)
next
  case (JobAborted n)
  then show ?thesis using finish_sound[OF assms(1), of n None] assms(2) by (cases i) (simp add: job_step_def jobs_sound_def)
qed

lemma job_run_facts:
  assumes "jobs_ok s" and "untimed s = {}"
  shows "jobs_ok (fst (job_run ins s)) \<and> untimed (fst (job_run ins s)) = {}
    \<and> job_calls (fst (job_run ins s)) + sum_list (map settled_jobs (snd (job_run ins s)))
      = job_calls s + mset [js_callCount s..<js_callCount (fst (job_run ins s))] \<and> js_callCount s \<le> js_callCount (fst (job_run ins s))"
  using assms
proof (induction ins arbitrary: s)
  case (Cons i ins)
  let ?s = "fst (job_step i s)"
  note f = job_step_facts[OF Cons.prems, of i]
  then have ok: "jobs_ok ?s" "untimed ?s = {}" and n: "js_callCount ?s = js_callCount s + size (new_jobs (snd i) s)"
    and b: "job_calls ?s + sum_list (map settled_jobs (snd (job_step i s))) = job_calls s + new_jobs (snd i) s"
    by (auto simp: jobs.balanced_def)
  note IH = Cons.IH[OF ok]
  have run: "job_run (i # ins) s = seq (job_step i) (job_run ins) s" by (simp add: job_run_def)
  have "new_jobs (snd i) s = mset [js_callCount s..<js_callCount ?s]"
    unfolding n by (cases "snd i") simp_all
  moreover have "[js_callCount s..<js_callCount (fst (job_run ins ?s))]
      = [js_callCount s..<js_callCount ?s] @ [js_callCount ?s..<js_callCount (fst (job_run ins ?s))]"
    using IH n upt_add_eq_append[of "js_callCount s" "js_callCount ?s" "js_callCount (fst (job_run ins ?s)) - js_callCount ?s"]
    by simp
  ultimately show ?case
    using IH b n unfolding run by (auto simp: ac_simps)
qed (simp add: job_run_def)

lemma no_jobs_ok: "jobs_ok no_jobs" "untimed no_jobs = {}"
  by (simp_all add: jobs_ok_def untimed_def no_jobs_def)

text \<open>The timers that calls and pending errors refer to, and a call whose deadline timer is set.\<close>

definition timers_in_use :: "job_state \<Rightarrow> nat set" where
  "timers_in_use s = (pr_timer \<circ> snd) ` set (js_pending s)
     \<union> (\<Union>(i, c) \<in> set (js_calls s). set_option (jc_timeout c) \<union> set_option (jc_errorTimer c))"

definition has_deadline :: "job_state \<Rightarrow> nat \<times> job_call \<Rightarrow> bool" where
  "has_deadline s = (\<lambda>(i, c). case jc_timeout c of None \<Rightarrow> False | Some n \<Rightarrow> map_of (js_timers s) n = Some (CallTimeoutTimer i))"

lemma owned_in_use:
  assumes "owns s n t"
  shows "n \<in> timers_in_use s"
proof (cases t)
  case (PendingErrorTimer r)
  then show ?thesis using assms by (auto simp: timers_in_use_def dest!: map_of_SomeD intro!: rev_image_eqI)
qed (use assms in \<open>force simp: timers_in_use_def dest!: map_of_SomeD\<close>)+

text \<open>
  After any events every call that waits for the end of a run by its lifecycle events has been settled exactly once or
  waits still, and then its own deadline timer is set; no timer is in hand but those that a waiting call or a pending
  error refers to.
\<close>

theorem job_waits_settled_once:
  "mset (map fst (js_calls (fst (job_run ins no_jobs)))) + sum_list (map settled_jobs (snd (job_run ins no_jobs)))
     = mset [0..<js_callCount (fst (job_run ins no_jobs))]
   \<and> list_all (has_deadline (fst (job_run ins no_jobs))) (js_calls (fst (job_run ins no_jobs)))
   \<and> fst ` set (js_timers (fst (job_run ins no_jobs))) \<subseteq> timers_in_use (fst (job_run ins no_jobs))"
proof -
  let ?s = "fst (job_run ins no_jobs)"
  note f = job_run_facts[OF no_jobs_ok, of ins]
  then have ok: "jobs_ok ?s" and u: "untimed ?s = {}" by simp_all
  have "has_deadline ?s (i, c)" if "(i, c) \<in> set (js_calls ?s)" for i c
  proof -
    have c: "map_of (js_calls ?s) i = Some c" using that jobs_okD(1)[OF ok] by simp
    then obtain n where n: "jc_timeout c = Some n" using u by (auto simp: untimed_def)
    then show ?thesis using jobs_okD(7)[OF ok c n] by (simp add: has_deadline_def)
  qed
  then have "list_all (has_deadline ?s) (js_calls ?s)" by (auto simp: list_all_iff)
  moreover have "n \<in> timers_in_use ?s" if "n \<in> fst ` set (js_timers ?s)" for n
  proof -
    have "map_of (js_timers ?s) n \<noteq> None" using that by (simp add: map_of_eq_None_iff)
    then show ?thesis using jobs_okD(4)[OF ok] owned_in_use by blast
  qed
  ultimately show ?thesis using f by (auto simp: job_calls_def no_jobs_def)
qed

section \<open>The end of a run settles its calls\<close>

text \<open>Calls of other runs are left alone; a call of the run is settled by its own listener.\<close>

definition of_run :: "string \<Rightarrow> job_call option \<Rightarrow> bool" where
  "of_run r v = (case v of Some c \<Rightarrow> jc_runId c = r | None \<Rightarrow> False)"

lemma calls_left:
  assumes "event_phase evt = Some ''end''"
  shows "map_of (js_calls (fst (call_listener now evt i s))) j =
     (if j = i \<and> of_run (ae_runId evt) (map_of (js_calls s) j) then None else map_of (js_calls s) j)"
  using assms
  by (auto simp: call_listener_def with_cached_def pruneAgentRunCache_def finish_state AList.delete_conv' Let_def recordAgentRunSnapshot_def
      of_run_def split: option.split)

lemma run_listener_calls: "js_calls (fst (run_listener now evt s)) = js_calls s"
  by (auto simp: run_listener_def clear_pending_state schedulePendingAgentRunError_def set_timer_def recordAgentRunSnapshot_def
      pruneAgentRunCache_def Let_def split: option.split)

lemma listeners_left:
  assumes "event_phase evt = Some ''end''"
  shows "map_of (js_calls (fst (for_each (\<lambda>(i, c). call_listener now evt i) cs s))) j =
    (if j \<in> fst ` set cs \<and> of_run (ae_runId evt) (map_of (js_calls s) j) then None else map_of (js_calls s) j)"
proof (induction cs arbitrary: s)
  case (Cons x cs)
  obtain i c where x: "x = (i, c)" by (cases x)
  have none: "\<not> of_run r None" for r by (simp add: of_run_def)
  show ?case
    unfolding x for_each.simps fst_seq prod.case Cons.IH calls_left[OF assms]
    by (cases "j = i"; cases "of_run (ae_runId evt) (map_of (js_calls s) j)") (simp_all add: none)
qed simp

text \<open>What calls are settled with, in the order of the effects.\<close>

fun answer_of :: "job_effect \<Rightarrow> (nat \<times> run_snapshot option) list" where
  "answer_of (JobSettled i e) = [(i, e)]"
| "answer_of _ = []"

definition job_answers :: "job_effect list \<Rightarrow> (nat \<times> run_snapshot option) list" where
  "job_answers es = concat (map answer_of es)"

lemma job_answers_simps [simp]:
  "job_answers [] = []" "job_answers (e # es) = answer_of e @ job_answers es" "job_answers (es @ fs) = job_answers es @ job_answers fs"
  by (simp_all add: job_answers_def)

text \<open>
  What the calls that wait for a run are owed at its end, in the order in which they were made:
  the snapshot in the cache; a call that ignores the cache gets one that lacks the start the module
  had noted, and leaves it in the cache for the calls after it.
\<close>

fun end_answers :: "string \<Rightarrow> run_snapshot \<Rightarrow> run_snapshot \<Rightarrow> (nat \<times> job_call) list \<Rightarrow> (nat \<times> run_snapshot option) list" where
  "end_answers r latest own [] = []"
| "end_answers r latest own ((i, c) # cs) =
     (if jc_runId c \<noteq> r then end_answers r latest own cs
      else if jc_ignoreCached c then (i, Some own) # end_answers r own own cs
      else (i, Some latest) # end_answers r latest own cs)"

lemma clear_error_answers [simp]: "job_answers (snd (clearPendingErrorTimer i s)) = []"
  by (auto simp: clearPendingErrorTimer_def clear_timer_def split: option.split)

lemma finish_answers: "map_of (js_calls s) i = Some c \<Longrightarrow> job_answers (snd (finish_job i e s)) = [(i, e)]"
  by (auto simp: finish_job_def clear_timer_def split: option.split)

lemma map_of_filter_first: "map_of m k = Some v \<Longrightarrow> P (k, v) \<Longrightarrow> map_of (filter P m) k = Some v"
  by (induction m) (auto split: if_splits)

lemma pruned_recent:
  assumes "map_of (js_cache s) r = Some e" and "rs_ts e = now"
  shows "map_of (js_cache (pruneAgentRunCache now s)) r = Some e"
  using assms by (auto simp: pruneAgentRunCache_def AGENT_RUN_CACHE_TTL_MS_def intro!: map_of_filter_first)

text \<open>The state in which the calls' listeners are told of the end.\<close>

definition end_noted :: "int \<Rightarrow> agent_event \<Rightarrow> run_snapshot \<Rightarrow> job_state \<Rightarrow> bool" where
  "end_noted now evt latest s \<longleftrightarrow> map_of (js_cache s) (ae_runId evt) = Some latest \<and> rs_ts latest = now
     \<and> map_of (js_starts s) (ae_runId evt) = None"

definition own_snapshot :: "int \<Rightarrow> agent_event \<Rightarrow> run_snapshot" where
  "own_snapshot now evt = createSnapshotFromLifecycleEvent now (ae_runId evt) False (ae_data evt) no_jobs"

lemma own_snapshot_of:
  "map_of (js_starts s) (ae_runId evt) = None \<Longrightarrow>
    createSnapshotFromLifecycleEvent now (ae_runId evt) False (ae_data evt) s = own_snapshot now evt"
  by (simp add: own_snapshot_def createSnapshotFromLifecycleEvent_def no_jobs_def)

lemma listener_answers:
  assumes "event_phase evt = Some ''end''" and "end_noted now evt latest s" and "map_of (js_calls s) i = Some c"
  shows "job_answers (snd (call_listener now evt i s)) = end_answers (ae_runId evt) latest (own_snapshot now evt) [(i, c)]
    \<and> end_noted now evt (if jc_runId c = ae_runId evt \<and> jc_ignoreCached c then own_snapshot now evt else latest) (fst (call_listener now evt i s))"
proof -
  have ph: "event_phase evt \<noteq> Some ''start''" "event_phase evt \<noteq> Some ''error''" using assms(1) by simp_all
  note st = assms(2)[unfolded end_noted_def]
  have ts: "rs_ts (own_snapshot now evt) = now" "rs_runId (own_snapshot now evt) = ae_runId evt"
    by (simp_all add: own_snapshot_def createSnapshotFromLifecycleEvent_def)
  show ?thesis
  proof (cases "jc_runId c = ae_runId evt")
    case False
    then show ?thesis using assms by (simp add: call_listener_def)
  next
    case mine: True
    show ?thesis
    proof (cases "jc_ignoreCached c")
      case True
      let ?s = "fst (recordAgentRunSnapshot (own_snapshot now evt) s)"
      have step: "call_listener now evt i s = seq (recordAgentRunSnapshot (own_snapshot now evt)) (finish_job i (Some (own_snapshot now evt))) s"
        using assms(1,3) ph mine True st own_snapshot_of by (simp add: call_listener_def with_cached_def Let_def)
      have c: "map_of (js_calls ?s) i = Some c" "map_of (js_cache ?s) (ae_runId evt) = Some (own_snapshot now evt)"
        "js_starts ?s = js_starts s"
        using assms(3) ts by (simp_all add: recordAgentRunSnapshot_def pruneAgentRunCache_def Let_def AList.update_conv')
      show ?thesis
        using c st ts mine True finish_answers[OF c(1)]
        by (simp add: step end_noted_def finish_state) (simp add: recordAgentRunSnapshot_def Let_def)
    next
      case False
      let ?s = "pruneAgentRunCache now s"
      have p: "map_of (js_cache ?s) (ae_runId evt) = Some latest" using pruned_recent st by blast
      have step: "call_listener now evt i s = seq (update (pruneAgentRunCache now)) (finish_job i (Some latest)) s"
        using assms(1,3) ph mine False p by (simp add: call_listener_def with_cached_def seq_def with_state_def update_def)
      have c: "map_of (js_calls ?s) i = Some c" "js_starts ?s = js_starts s"
        using assms(3) by (simp_all add: pruneAgentRunCache_def)
      show ?thesis
        using c p st mine False finish_answers[OF c(1)]
        by (simp add: step end_noted_def finish_state)
    qed
  qed
qed

lemma listeners_answers:
  assumes "event_phase evt = Some ''end''" and "end_noted now evt latest s" and "distinct (map fst cs)"
    and "\<And>i c. (i, c) \<in> set cs \<Longrightarrow> map_of (js_calls s) i = Some c"
  shows "job_answers (snd (for_each (\<lambda>(i, c). call_listener now evt i) cs s))
    = end_answers (ae_runId evt) latest (own_snapshot now evt) cs"
  using assms(2-4)
proof (induction cs arbitrary: latest s)
  case (Cons x cs)
  obtain i c where x: "x = (i, c)" by (cases x)
  have c: "map_of (js_calls s) i = Some c" using Cons.prems(3) x by simp
  let ?s = "fst (call_listener now evt i s)"
  have l: "map_of (js_calls ?s) k = Some d" if "(k, d) \<in> set cs" for k d
  proof -
    have "k \<noteq> i" using that Cons.prems(2) x by (auto simp: rev_image_eqI)
    then show ?thesis using Cons.prems(3)[of k d] that x by (simp add: calls_left[OF assms(1)])
  qed
  from listener_answers[OF assms(1) Cons.prems(1) c] Cons.IH[of _ ?s] Cons.prems(2) l
  show ?case using x by (auto simp: if_splits)
qed simp

lemma run_listener_end:
  assumes "event_phase evt = Some ''end''" and full: "full = createSnapshotFromLifecycleEvent now (ae_runId evt) False (ae_data evt) s"
  shows "end_noted now evt full (fst (run_listener now evt s)) \<and> job_answers (snd (run_listener now evt s)) = []"
proof -
  have "rs_ts full = now" "rs_runId full = ae_runId evt" by (simp_all add: full createSnapshotFromLifecycleEvent_def)
  then show ?thesis using assms(1)
    by (auto simp: run_listener_def Let_def clearPendingAgentRunError_def clear_timer_def recordAgentRunSnapshot_def
        pruneAgentRunCache_def end_noted_def AList.update_conv' AList.delete_conv' full[symmetric] split: option.split)
qed

text \<open>
  C38: when a run ends, the event settles each call that waits for the run, once, in the order in
  which the calls were made, and no other call: a call that may use the cache with the snapshot of
  the end (status \<open>ok\<close>, or \<open>timeout\<close> when the event says aborted; the start, end and error of the
  event, the start that was noted when the event has none), a call that ignores the cache with the
  same snapshot without the noted start, which also the calls after it then get. None is settled
  with nothing, as a timeout would. Settled calls no longer wait, the calls that wait for other
  runs wait on.
\<close>

theorem run_end_settles_calls:
  assumes "event_phase evt = Some ''end''"
  shows "job_answers (snd (job_step (now, RunEvent evt) (fst (job_run ins no_jobs))))
      = end_answers (ae_runId evt)
          (createSnapshotFromLifecycleEvent now (ae_runId evt) False (ae_data evt) (fst (job_run ins no_jobs)))
          (createSnapshotFromLifecycleEvent now (ae_runId evt) False (ae_data evt) no_jobs)
          (js_calls (fst (job_run ins no_jobs)))
    \<and> map_of (js_calls (fst (job_step (now, RunEvent evt) (fst (job_run ins no_jobs))))) i
      = (if of_run (ae_runId evt) (map_of (js_calls (fst (job_run ins no_jobs))) i) then None
         else map_of (js_calls (fst (job_run ins no_jobs))) i)"
proof -
  let ?s = "fst (job_run ins no_jobs)"
  have ok: "jobs_ok ?s" using job_run_facts no_jobs_ok by blast
  have "i \<in> fst ` set (js_calls ?s)" if "map_of (js_calls ?s) i = Some d" for d
    using that by (auto dest!: map_of_SomeD intro!: rev_image_eqI)
  moreover have "job_answers (snd (job_step (now, RunEvent evt) ?s)) = end_answers (ae_runId evt)
      (createSnapshotFromLifecycleEvent now (ae_runId evt) False (ae_data evt) ?s) (own_snapshot now evt) (js_calls ?s)"
    using run_listener_end[OF assms refl, where now = now and s = ?s] jobs_okD(1)[OF ok]
      listeners_answers[OF assms, where now = now and s = "fst (run_listener now evt ?s)" and cs = "js_calls ?s"]
    by (simp add: job_step_def run_listener_calls)
  ultimately show ?thesis
    by (auto simp: job_step_def listeners_left[OF assms] run_listener_calls of_run_def own_snapshot_def split: option.split)
qed

definition lifecycle_event_of :: "string \<Rightarrow> entries \<Rightarrow> agent_event" where
  "lifecycle_event_of r data = \<lparr>ae_runId = r, ae_seq = 1, ae_stream = ''lifecycle'', ae_ts = 0, ae_data = data, ae_sessionKey = None\<rparr>"

text \<open>Two calls wait for the run, one of them ignoring the cache, and one for another run.\<close>

definition three_waits :: "(int \<times> job_input) list" where
  "three_waits = [(0, RunEvent (lifecycle_event_of ''r'' [(''phase'', JStr ''start'')])), (1, WaitForRun ''r'' 1000 False False),
     (2, WaitForRun ''q'' 1000 False False), (3, WaitForRun ''r'' 1000 False True)]"

lemma run_end_settles_calls_witness:
  "map (\<lambda>(i, e). (i, map_option (\<lambda>e. (rs_status e, rs_startedAt e)) e))
     (job_answers (snd (job_step (9, RunEvent (lifecycle_event_of ''r'' [(''phase'', JStr ''end'')])) (fst (job_run three_waits no_jobs)))))
   = [(0, Some (''ok'', Some (js_int 0))), (2, Some (''ok'', None))]"
proof -
  let ?evt = "lifecycle_event_of ''r'' [(''phase'', JStr ''end'')]"
  have "event_phase ?evt = Some ''end''" by code_simp
  from run_end_settles_calls[OF this, of 9 three_waits]
  have "job_answers (snd (job_step (9, RunEvent ?evt) (fst (job_run three_waits no_jobs)))) = end_answers (ae_runId ?evt)
      (createSnapshotFromLifecycleEvent 9 (ae_runId ?evt) False (ae_data ?evt) (fst (job_run three_waits no_jobs)))
      (createSnapshotFromLifecycleEvent 9 (ae_runId ?evt) False (ae_data ?evt) no_jobs) (js_calls (fst (job_run three_waits no_jobs)))" by blast
  moreover have "map (\<lambda>(i, e). (i, map_option (\<lambda>e. (rs_status e, rs_startedAt e)) e)) (end_answers (ae_runId ?evt)
      (createSnapshotFromLifecycleEvent 9 (ae_runId ?evt) False (ae_data ?evt) (fst (job_run three_waits no_jobs)))
      (createSnapshotFromLifecycleEvent 9 (ae_runId ?evt) False (ae_data ?evt) no_jobs) (js_calls (fst (job_run three_waits no_jobs))))
    = [(0, Some (''ok'', Some (js_int 0))), (2, Some (''ok'', None))]" by code_simp
  ultimately show ?thesis by simp
qed

section \<open>A new start withdraws the failure\<close>

lemma start_listener_state:
  assumes "event_phase evt = Some ''start''"
  shows "map_of (js_calls (fst (call_listener now evt i s))) j =
      (if j = i \<and> of_run (ae_runId evt) (map_of (js_calls s) j) then map_option (\<lambda>c. c\<lparr>jc_errorTimer := None\<rparr>) (map_of (js_calls s) j)
       else map_of (js_calls s) j)"
    and "js_pending (fst (call_listener now evt i s)) = js_pending s" "js_cache (fst (call_listener now evt i s)) = js_cache s"
  using assms
  by (auto simp: call_listener_def clear_error_state of_run_def AList.update_conv' split: option.split)

lemma start_listeners_state:
  assumes "event_phase evt = Some ''start''"
  shows "map_of (js_calls (fst (for_each (\<lambda>(i, c). call_listener now evt i) cs s))) j =
      (if j \<in> fst ` set cs \<and> of_run (ae_runId evt) (map_of (js_calls s) j)
       then map_option (\<lambda>c. c\<lparr>jc_errorTimer := None\<rparr>) (map_of (js_calls s) j) else map_of (js_calls s) j)
    \<and> js_pending (fst (for_each (\<lambda>(i, c). call_listener now evt i) cs s)) = js_pending s
    \<and> js_cache (fst (for_each (\<lambda>(i, c). call_listener now evt i) cs s)) = js_cache s"
proof (induction cs arbitrary: s)
  case (Cons x cs)
  obtain i c where x: "x = (i, c)" by (cases x)
  have run: "of_run r (map_option (\<lambda>c. c\<lparr>jc_errorTimer := None\<rparr>) v) = of_run r v" for r v
    by (simp add: of_run_def split: option.split)
  have twice: "map_option (\<lambda>c. c\<lparr>jc_errorTimer := None\<rparr>) (map_option (\<lambda>c. c\<lparr>jc_errorTimer := None\<rparr>) v)
      = map_option (\<lambda>c. c\<lparr>jc_errorTimer := None\<rparr>) v" for v :: "job_call option"
    by (cases v) simp_all
  let ?s = "fst (call_listener now evt i s)"
  have IH: "map_of (js_calls (fst (for_each (\<lambda>(i, c). call_listener now evt i) cs ?s))) j =
      (if j \<in> fst ` set cs \<and> of_run (ae_runId evt) (map_of (js_calls ?s) j)
       then map_option (\<lambda>c. c\<lparr>jc_errorTimer := None\<rparr>) (map_of (js_calls ?s) j) else map_of (js_calls ?s) j)"
    "js_pending (fst (for_each (\<lambda>(i, c). call_listener now evt i) cs ?s)) = js_pending s"
    "js_cache (fst (for_each (\<lambda>(i, c). call_listener now evt i) cs ?s)) = js_cache s"
    using Cons.IH[of ?s] start_listener_state(2,3)[OF assms, of now i s] by simp_all
  show ?case
    unfolding x for_each.simps fst_seq prod.case IH start_listener_state(1)[OF assms]
    by (cases "j = i"; cases "of_run (ae_runId evt) (map_of (js_calls s) j)") (simp_all add: run twice)
qed simp

text \<open>Timers that would report a failure of the run.\<close>

definition failure_timers :: "string \<Rightarrow> job_state \<Rightarrow> nat set" where
  "failure_timers r s = {n. \<exists>t. map_of (js_timers s) n = Some t \<and>
     (case t of PendingErrorTimer q \<Rightarrow> q = r | CallErrorTimer i sn \<Rightarrow> rs_runId sn = r | CallTimeoutTimer i \<Rightarrow> False)}"

text \<open>
  C22: a run that starts again takes back its failure: whatever came before, after the start no error of the run is held
  back, no ended snapshot of it is cached, and no timer is set that would report its failure to anyone.
\<close>

theorem start_withdraws_failure:
  assumes "event_phase evt = Some ''start''"
  shows "map_of (js_pending (fst (job_run (ins @ [(now, RunEvent evt)]) no_jobs))) (ae_runId evt) = None
    \<and> map_of (js_cache (fst (job_run (ins @ [(now, RunEvent evt)]) no_jobs))) (ae_runId evt) = None
    \<and> failure_timers (ae_runId evt) (fst (job_run (ins @ [(now, RunEvent evt)]) no_jobs)) = {}"
proof -
  have app: "for_each f (xs @ ys) = seq (for_each f xs) (for_each f ys)" for f :: "'x \<Rightarrow> job_act" and xs ys
    by (induction xs) (simp_all add: fun_eq_iff seq_def split: prod.split)
  let ?s = "fst (job_run ins no_jobs)" let ?r = "ae_runId evt"
  let ?s1 = "fst (run_listener now evt ?s)" let ?s2 = "fst (job_step (now, RunEvent evt) ?s)"
  have run: "fst (job_run (ins @ [(now, RunEvent evt)]) no_jobs) = ?s2" by (simp add: job_run_def app)
  have ok: "jobs_ok ?s2" using event_sound job_run_facts[OF no_jobs_ok] by (blast dest: jobs_soundD)
  have s1: "js_calls ?s1 = js_calls ?s" "map_of (js_pending ?s1) ?r = None" "map_of (js_cache ?s1) ?r = None"
    using assms by (simp_all add: run_listener_calls) (auto simp: run_listener_def clear_pending_state AList.delete_conv' split: option.split)
  have step: "?s2 = fst (for_each (\<lambda>(i, c). call_listener now evt i) (js_calls ?s1) ?s1)"
    by (simp add: job_step_def)
  note l = start_listeners_state[OF assms, of now "js_calls ?s1" ?s1, folded step]
  have p: "map_of (js_pending ?s2) ?r = None" and c: "map_of (js_cache ?s2) ?r = None" using l s1 by simp_all
  have calm: "jc_errorTimer d = None" if "map_of (js_calls ?s2) i = Some d" "jc_runId d = ?r" for i d
  proof -
    have "map_of (js_calls ?s1) i \<noteq> None" using that(1) l[of i] by (auto split: if_splits)
    then have "i \<in> fst ` set (js_calls ?s1)" by (simp add: map_of_eq_None_iff)
    then show ?thesis using that l[of i] by (auto simp: of_run_def split: option.splits if_splits)
  qed
  have "failure_timers ?r ?s2 = {}"
  proof -
    have False if t: "map_of (js_timers ?s2) n = Some t"
      and f: "case t of PendingErrorTimer q \<Rightarrow> q = ?r | CallErrorTimer i sn \<Rightarrow> rs_runId sn = ?r | CallTimeoutTimer i \<Rightarrow> False" for n t
      using jobs_okD(4)[OF ok t] f p calm by (cases t) auto
    then show ?thesis by (auto simp: failure_timers_def)
  qed
  then show ?thesis unfolding run using p c by simp
qed

lemma start_withdraws_failure_witness:
  "failure_timers ''r'' (fst (job_run ([(0, WaitForRun ''r'' 90000 False False), (5, RunEvent (lifecycle_event_of ''r'' [(''phase'', JStr ''error'')]))]
      @ [(9, RunEvent (lifecycle_event_of ''r'' [(''phase'', JStr ''start'')]))]) no_jobs)) = {}"
proof -
  have "event_phase (lifecycle_event_of ''r'' [(''phase'', JStr ''start'')]) = Some ''start''" by code_simp
  moreover have "ae_runId (lifecycle_event_of ''r'' [(''phase'', JStr ''start'')]) = ''r''" by code_simp
  ultimately show ?thesis
    using start_withdraws_failure[of "lifecycle_event_of ''r'' [(''phase'', JStr ''start'')]"
        "[(0, WaitForRun ''r'' 90000 False False), (5, RunEvent (lifecycle_event_of ''r'' [(''phase'', JStr ''error'')]))]" 9]
    by (simp only: simp_thms)
qed

section \<open>The start time is lost when a call ignores the cache\<close>

text \<open>
  The module's listener forgets the start of the run before the call's listener builds its own snapshot, and that snapshot
  replaces the cached one: a run that started at 3 is reported, to this call and to all later ones, without a start.
\<close>

definition started_and_ended :: "bool \<Rightarrow> (int \<times> job_input) list" where
  "started_and_ended ignore = [(0, WaitForRun ''r'' 90000 False ignore),
     (4, RunEvent (lifecycle_event_of ''r'' [(''phase'', JStr ''start''), (''startedAt'', js_int 3)])),
     (9, RunEvent (lifecycle_event_of ''r'' [(''phase'', JStr ''end'')]))]"

lemma start_time_lost:
  "map_option rs_startedAt (map_of (js_cache (fst (job_run (started_and_ended True) no_jobs))) ''r'') = Some None"
  by code_simp

lemma start_time_kept:
  "map_option rs_startedAt (map_of (js_cache (fst (job_run (started_and_ended False) no_jobs))) ''r'') = Some (Some (js_int 3))"
  by code_simp

end
