(* ===== verification/AgentWait.thy ===== *)
theory AgentWait
  imports JsValue OpenClawText ActFrames "HOL-Library.AList"
begin

text \<open>
  The gateway's table of answered requests and the calls that wait in it for the end of a run
  (openclaw/src/gateway/server-methods/agent-wait-dedupe.ts), with the part of the periodic cleanup that is
  about the table (gateway/server-maintenance.ts). Calls are numbered; a call's timer has its number.
\<close>

section \<open>Terminal records\<close>

record dedupe_entry =
  de_ts :: int
  de_ok :: bool
  de_payload :: jsval
  de_errorMessage :: "string option"

record wait_snapshot =
  sn_status :: string
  sn_startedAt :: "rat option"
  sn_endedAt :: rat
  sn_error :: "string option"

type_synonym dedupe_table = "(string \<times> dedupe_entry) list"

definition payload_field :: "dedupe_entry \<Rightarrow> string \<Rightarrow> jsval" where
  "payload_field e k = (case de_payload e of Some v \<Rightarrow> getp v k | None \<Rightarrow> None)"

definition readTerminalSnapshotFromDedupeEntry :: "dedupe_entry \<Rightarrow> wait_snapshot option" where
  "readTerminalSnapshotFromDedupeEntry e =
     (let status = as_str (payload_field e ''status'');
          startedAt = as_finite (payload_field e ''startedAt'');
          endedAt = nullish (as_finite (payload_field e ''endedAt'')) (of_int (de_ts e));
          errorMessage = nullish_opt (as_str (payload_field e ''error''))
            (nullish_opt (as_str (payload_field e ''summary'')) (de_errorMessage e)) in
      if status = Some ''accepted'' \<or> status = Some ''started'' \<or> status = Some ''in_flight'' then None
      else if status = Some ''ok'' \<or> status = Some ''timeout''
      then Some \<lparr>sn_status = the status, sn_startedAt = startedAt, sn_endedAt = endedAt,
                 sn_error = (if status = Some ''timeout'' then errorMessage else None)\<rparr>
      else if status = Some ''error'' \<or> \<not> de_ok e
      then Some \<lparr>sn_status = ''error'', sn_startedAt = startedAt, sn_endedAt = endedAt, sn_error = errorMessage\<rparr>
      else None)"

definition chat_key :: "string \<Rightarrow> string" where "chat_key runId = ''chat:'' @ runId"
definition agent_key :: "string \<Rightarrow> string" where "agent_key runId = ''agent:'' @ runId"

definition read_at :: "dedupe_table \<Rightarrow> string \<Rightarrow> wait_snapshot option" where
  "read_at m k = Option.bind (map_of m k) readTerminalSnapshotFromDedupeEntry"

definition newer_chat :: "dedupe_table \<Rightarrow> string \<Rightarrow> bool" where
  "newer_chat m runId \<longleftrightarrow> (case (map_of m (chat_key runId), map_of m (agent_key runId)) of
     (Some c, Some a) \<Rightarrow> de_ts a < de_ts c | _ \<Rightarrow> False)"

definition readTerminalSnapshotFromGatewayDedupe :: "dedupe_table \<Rightarrow> string \<Rightarrow> bool \<Rightarrow> wait_snapshot option" where
  "readTerminalSnapshotFromGatewayDedupe m runId ignoreAgentTerminalSnapshot =
     (let chatSnapshot = read_at m (chat_key runId); agentSnapshot = read_at m (agent_key runId) in
      if ignoreAgentTerminalSnapshot then chatSnapshot
      else if map_of m (agent_key runId) \<noteq> None \<and> agentSnapshot = None
      then (if chatSnapshot \<noteq> None \<and> newer_chat m runId then chatSnapshot else None)
      else if agentSnapshot \<noteq> None \<and> chatSnapshot \<noteq> None
      then (if newer_chat m runId then chatSnapshot else agentSnapshot)
      else nullish_opt agentSnapshot chatSnapshot)"

definition parseRunIdFromDedupeKey :: "string \<Rightarrow> string option" where
  "parseRunIdFromDedupeKey key =
     (let rest = (if take 6 key = ''agent:'' then drop 6 key else if take 5 key = ''chat:'' then drop 5 key else []) in
      if rest = [] then None else Some rest)"

section \<open>Waiting calls\<close>

record wait_call =
  wc_runId :: string
  wc_ignoreAgent :: bool

record wait_state =
  ws_dedupe :: dedupe_table
  ws_waiters :: "(string \<times> nat list) list"
  ws_waiting :: "(nat \<times> wait_call) list"
  ws_timers :: "nat list"
  ws_count :: nat

datatype wait_effect = WaitSettled nat "wait_snapshot option" | SetWaitTimer nat int | ClearWaitTimer nat

type_synonym wait_act = "(wait_state, wait_effect) act"

definition no_waits :: wait_state where
  "no_waits = \<lparr>ws_dedupe = [], ws_waiters = [], ws_waiting = [], ws_timers = [], ws_count = 0\<rparr>"

definition addWaiter :: "string \<Rightarrow> nat \<Rightarrow> (string \<times> nat list) list \<Rightarrow> (string \<times> nat list) list" where
  "addWaiter runId i m = (if trim runId = [] then m
     else AList.update (trim runId) (nullish (map_of m (trim runId)) [] @ [i]) m)"

definition removeWaiter :: "string \<Rightarrow> nat \<Rightarrow> (string \<times> nat list) list \<Rightarrow> (string \<times> nat list) list" where
  "removeWaiter runId i m = (if trim runId = [] then m
     else case map_of m (trim runId) of
       None \<Rightarrow> m
     | Some ids \<Rightarrow> if removeAll i ids = [] then AList.delete (trim runId) m
                else AList.update (trim runId) (removeAll i ids) m)"

definition finish_wait :: "nat \<Rightarrow> wait_snapshot option \<Rightarrow> wait_act" where
  "finish_wait i snapshot = with_state (\<lambda>s. case map_of (ws_waiting s) i of
     None \<Rightarrow> skip
   | Some w \<Rightarrow> seq
       (update (\<lambda>s. s\<lparr>ws_waiting := AList.delete i (ws_waiting s), ws_timers := removeAll i (ws_timers s),
          ws_waiters := removeWaiter (wc_runId w) i (ws_waiters s)\<rparr>))
       (emit ((if i \<in> set (ws_timers s) then [ClearWaitTimer i] else []) @ [WaitSettled i snapshot])))"

definition read_for :: "dedupe_table \<Rightarrow> wait_call \<Rightarrow> wait_snapshot option" where
  "read_for m w = readTerminalSnapshotFromGatewayDedupe m (wc_runId w) (wc_ignoreAgent w)"

definition on_wake :: "nat \<Rightarrow> wait_act" where
  "on_wake i = with_state (\<lambda>s. case Option.bind (map_of (ws_waiting s) i) (read_for (ws_dedupe s)) of
     None \<Rightarrow> skip | Some snapshot \<Rightarrow> finish_wait i (Some snapshot))"

definition notifyWaiters :: "string \<Rightarrow> wait_act" where
  "notifyWaiters runId = (if trim runId = [] then skip
     else with_state (\<lambda>s. for_each on_wake (nullish (map_of (ws_waiters s) (trim runId)) [])))"

definition waitForTerminalGatewayDedupe :: "string \<Rightarrow> bool \<Rightarrow> int \<Rightarrow> bool \<Rightarrow> wait_act" where
  "waitForTerminalGatewayDedupe runId ignoreAgent timeoutMs aborted = with_state (\<lambda>s.
     let i = ws_count s; w = \<lparr>wc_runId = runId, wc_ignoreAgent = ignoreAgent\<rparr> in
     seq (update (\<lambda>s. s\<lparr>ws_count := Suc (ws_count s)\<rparr>))
       (case read_for (ws_dedupe s) w of
          Some snapshot \<Rightarrow> emit [WaitSettled i (Some snapshot)]
        | None \<Rightarrow>
            if timeoutMs \<le> 0 \<or> aborted then emit [WaitSettled i None]
            else seq (update (\<lambda>s. s\<lparr>ws_waiting := ws_waiting s @ [(i, w)], ws_waiters := addWaiter runId i (ws_waiters s)\<rparr>))
              (seq (on_wake i)
                (with_state (\<lambda>s. if map_of (ws_waiting s) i = None then skip
                   else seq (update (\<lambda>s. s\<lparr>ws_timers := ws_timers s @ [i]\<rparr>))
                     (emit [SetWaitTimer i (max 1 (min timeoutMs 2147483647))]))))))"

definition setGatewayDedupeEntry :: "string \<Rightarrow> dedupe_entry \<Rightarrow> wait_act" where
  "setGatewayDedupeEntry key e = seq
     (update (\<lambda>s. s\<lparr>ws_dedupe := AList.update key e (ws_dedupe s)\<rparr>))
     (case parseRunIdFromDedupeKey key of
        None \<Rightarrow> skip
      | Some runId \<Rightarrow> if readTerminalSnapshotFromDedupeEntry e = None then skip else notifyWaiters runId)"

section \<open>The cleanup of the table\<close>

definition DEDUPE_TTL_MS :: int where "DEDUPE_TTL_MS = 5 * 60000"
definition DEDUPE_MAX :: nat where "DEDUPE_MAX = 1000"

text \<open>\<open>for (let i = 0; i < dedupe.size - DEDUPE_MAX; i++)\<close> over the entries from the oldest on: the size is read anew.\<close>

fun trim_entries :: "nat \<Rightarrow> nat \<Rightarrow> dedupe_table \<Rightarrow> dedupe_table \<Rightarrow> dedupe_table" where
  "trim_entries limit i [] m = m"
| "trim_entries limit i (e # es) m =
     (if i < length m - limit then trim_entries limit (Suc i) es (AList.delete (fst e) m) else m)"

definition live_entries :: "int \<Rightarrow> dedupe_table \<Rightarrow> dedupe_table" where
  "live_entries now m = filter (\<lambda>(k, e). \<not> DEDUPE_TTL_MS < now - de_ts e) m"

definition clean_dedupe :: "int \<Rightarrow> dedupe_table \<Rightarrow> dedupe_table" where
  "clean_dedupe now m = (let m' = live_entries now m in
     if DEDUPE_MAX < length m' then trim_entries DEDUPE_MAX 0 (sort_key (\<lambda>(k, e). de_ts e) m') m' else m')"

section \<open>Steps\<close>

datatype wait_input =
    StartWait string bool int bool
  | WriteEntry string dedupe_entry
  | WaitTimer nat
  | WaitAborted nat
  | CleanEntries int

fun wait_step :: "wait_input \<Rightarrow> wait_act" where
  "wait_step (StartWait runId ignoreAgent timeoutMs aborted) = waitForTerminalGatewayDedupe runId ignoreAgent timeoutMs aborted"
| "wait_step (WriteEntry key e) = setGatewayDedupeEntry key e"
| "wait_step (WaitTimer i) = with_state (\<lambda>s. if i \<in> set (ws_timers s) then finish_wait i None else skip)"
| "wait_step (WaitAborted i) = finish_wait i None"
| "wait_step (CleanEntries now) = update (\<lambda>s. s\<lparr>ws_dedupe := clean_dedupe now (ws_dedupe s)\<rparr>)"

definition wait_run :: "wait_input list \<Rightarrow> wait_act" where
  "wait_run ins = for_each wait_step ins"

section \<open>The cleanup keeps half of what is too much\<close>

lemma length_delete_member:
  assumes "distinct (map fst m)" and "e \<in> set m"
  shows "Suc (length (AList.delete (fst e) m)) = length m"
proof -
  have "filter (\<lambda>(k, v). fst a \<noteq> k) m = m" if "a \<notin> set m" "fst a \<notin> fst ` set m" for a and m :: "('a \<times> 'b) list"
    using that(2) by (induction m) auto
  then have "Suc (length (filter (\<lambda>(k, v). fst e \<noteq> k) m)) = length m"
    using assms by (induction m) (auto simp: image_iff split_beta)
  then show ?thesis by (simp add: AList.delete_eq)
qed

lemma trim_arith:
  fixes n :: nat
  shows "Suc j = n \<Longrightarrow> i < n - limit \<Longrightarrow> j - (j - limit - Suc i + 1) div 2 = n - (n - limit - i + 1) div 2"
    and "limit < n \<Longrightarrow> n - (n - limit + 1) div 2 = limit + (n - limit) div 2"
proof -
  assume n: "Suc j = n" and i: "i < n - limit"
  define y where "y = n - limit - i"
  have y: "0 < y" "j - limit - Suc i = y - 2" using n i by (auto simp: y_def)
  have "(y - 2 + 1) div 2 + 1 = (y + 1) div 2"
  proof (cases "y = 1")
    case False
    then obtain z where "y = z + 2" using y(1) by (metis One_nat_def Suc_leI add.commute le_Suc_ex le_neq_implies_less numeral_2_eq_2)
    then show ?thesis by simp
  qed simp
  then show "j - (j - limit - Suc i + 1) div 2 = n - (n - limit - i + 1) div 2"
    unfolding y(2) y_def[symmetric] using n by (metis Suc_eq_plus1 diff_Suc_Suc)
next
  assume "limit < n"
  then obtain y where y: "n = limit + y" using less_imp_add_positive by metis
  have "y - (y + 1) div 2 = y div 2" and "(y + 1) div 2 \<le> y \<or> y = 0" by presburger+
  then show "n - (n - limit + 1) div 2 = limit + (n - limit) div 2" by (cases "y = 0") (simp_all add: y)
qed

lemma trim_length:
  assumes "distinct (map fst m)" and "set es \<subseteq> set m" and "distinct (map fst es)"
    and "(length m - limit - i + 1) div 2 \<le> length es"
  shows "length (trim_entries limit i es m) = length m - (length m - limit - i + 1) div 2"
  using assms
proof (induction es arbitrary: i m)
  case (Cons e es)
  show ?case
  proof (cases "i < length m - limit")
    case True
    let ?m = "AList.delete (fst e) m"
    have n: "Suc (length ?m) = length m" using Cons.prems(1,2) by (intro length_delete_member) simp_all
    have "set es \<subseteq> set ?m" using Cons.prems(2,3) by (auto simp: AList.delete_eq image_iff)
    then have "length (trim_entries limit (Suc i) es ?m) = length ?m - (length ?m - limit - Suc i + 1) div 2"
      using Cons.prems n True by (intro Cons.IH) (auto simp: distinct_delete)
    then show ?thesis using trim_arith(1)[OF n True] True by simp
  qed simp
qed simp

lemma trim_oldest:
  assumes "distinct (map fst m)"
  shows "length (trim_entries limit 0 (sort_key f m) m) = length m - (length m - limit + 1) div 2"
proof -
  have "distinct (map fst (sort_key f m))"
    using assms distinct_map[of fst m] distinct_map[of fst "sort_key f m"] by simp
  then show ?thesis using assms by (subst trim_length) auto
qed

text \<open>
  C37: the cleanup means to bring the table down to its limit, but takes away only half of what is above it (rounded
  up), because it compares a growing index with a shrinking size.
\<close>

theorem cleanup_keeps_half:
  assumes "distinct (map fst m)"
  shows "length (clean_dedupe now m) = (let n = length (live_entries now m) in
    if n \<le> DEDUPE_MAX then n else DEDUPE_MAX + (n - DEDUPE_MAX) div 2)"
proof -
  have "distinct (map fst (live_entries now m))"
    using assms by (simp add: live_entries_def distinct_map_filter)
  note trimmed = trim_oldest[OF this, of DEDUPE_MAX]
  show ?thesis
    using trim_arith(2)[of DEDUPE_MAX "length (live_entries now m)"]
    by (simp add: clean_dedupe_def Let_def trimmed not_le del: Suc_eq_plus1)
qed

lemma cleanup_keeps_half_witness:
  "length (clean_dedupe 20 [(''a'', \<lparr>de_ts = 10, de_ok = True, de_payload = None, de_errorMessage = None\<rparr>)])
     = (let n = length (live_entries 20 [(''a'', \<lparr>de_ts = 10, de_ok = True, de_payload = None, de_errorMessage = None\<rparr>)]) in
    if n \<le> DEDUPE_MAX then n else DEDUPE_MAX + (n - DEDUPE_MAX) div 2)"
  by (rule cleanup_keeps_half) simp

section \<open>Who waits is registered\<close>

definition waiters_at :: "(string \<times> nat list) list \<Rightarrow> string \<Rightarrow> nat set" where
  "waiters_at m r = set (nullish (map_of m r) [])"

text \<open>
  The calls that wait are numbered, the table of waiters holds exactly them, each under its run, and no empty set; the
  timers are those of the calls that wait.
\<close>

definition wait_ok :: "wait_state \<Rightarrow> bool" where
  "wait_ok s \<longleftrightarrow> distinct (map fst (ws_waiting s)) \<and> (\<forall>i w. map_of (ws_waiting s) i = Some w \<longrightarrow> i < ws_count s)
     \<and> (\<forall>i r. i \<in> waiters_at (ws_waiters s) r \<longleftrightarrow> r \<noteq> [] \<and> (\<exists>w. map_of (ws_waiting s) i = Some w \<and> trim (wc_runId w) = r))
     \<and> (\<forall>r. map_of (ws_waiters s) r \<noteq> Some [])"

lemma wait_okD:
  assumes "wait_ok s"
  shows "distinct (map fst (ws_waiting s))" "\<And>i w. map_of (ws_waiting s) i = Some w \<Longrightarrow> i < ws_count s"
    "\<And>i r. i \<in> waiters_at (ws_waiters s) r \<longleftrightarrow> r \<noteq> [] \<and> (\<exists>w. map_of (ws_waiting s) i = Some w \<and> trim (wc_runId w) = r)"
    "\<And>r. map_of (ws_waiters s) r \<noteq> Some []"
  using assms unfolding wait_ok_def by blast+

definition timed :: "wait_state \<Rightarrow> bool" where
  "timed s \<longleftrightarrow> set (ws_timers s) = fst ` set (ws_waiting s)"

lemma waiters_add:
  "waiters_at (addWaiter r i m) q = (if q = trim r \<and> q \<noteq> [] then insert i (waiters_at m q) else waiters_at m q)"
  by (simp add: waiters_at_def addWaiter_def AList.update_conv')

lemma waiters_remove:
  "waiters_at (removeWaiter r i m) q = (if q = trim r \<and> q \<noteq> [] then waiters_at m q - {i} else waiters_at m q)"
proof (cases "map_of m (trim r)")
  case (Some ids)
  have "set ids - {i} = {}" if "removeAll i ids = []" using that by (metis list.set(1) set_removeAll)
  then show ?thesis
    using Some by (auto simp: waiters_at_def removeWaiter_def AList.update_conv' AList.delete_conv')
qed (simp add: waiters_at_def removeWaiter_def)

lemma nonempty_waiters:
  "map_of (removeWaiter r i m) q = Some [] \<Longrightarrow> map_of m q = Some []"
  "map_of (addWaiter r i m) q = Some [] \<Longrightarrow> map_of m q = Some []"
  by (auto simp: removeWaiter_def addWaiter_def AList.update_conv' AList.delete_conv' split: if_splits option.splits)

lemma finish_absent: "map_of (ws_waiting s) i = None \<Longrightarrow> finish_wait i sn s = (s, [])"
  by (simp add: finish_wait_def)

lemma finish_fields:
  "map_of (ws_waiting (fst (finish_wait i sn s))) j = (if j = i then None else map_of (ws_waiting s) j)"
  "ws_dedupe (fst (finish_wait i sn s)) = ws_dedupe s" "ws_count (fst (finish_wait i sn s)) = ws_count s"
  by (auto simp: finish_wait_def AList.delete_conv' split: option.split)

lemma finish_ok:
  assumes "wait_ok s"
  shows "wait_ok (fst (finish_wait i sn s))"
proof (cases "map_of (ws_waiting s) i")
  case (Some w)
  have reg: "\<And>j r. j \<in> waiters_at (ws_waiters s) r \<longleftrightarrow> r \<noteq> [] \<and> (\<exists>w. map_of (ws_waiting s) j = Some w \<and> trim (wc_runId w) = r)"
    using assms unfolding wait_ok_def by blast
  have "j \<in> waiters_at (removeWaiter (wc_runId w) i (ws_waiters s)) r
      \<longleftrightarrow> r \<noteq> [] \<and> (\<exists>w. map_of (AList.delete i (ws_waiting s)) j = Some w \<and> trim (wc_runId w) = r)" for j r
  proof (cases "j = i")
    case True
    have "r = trim (wc_runId w)" if "i \<in> waiters_at (ws_waiters s) r" using that reg[of i r] Some by auto
    moreover have "r \<noteq> []" if "i \<in> waiters_at (ws_waiters s) r" using that reg[of i r] by blast
    ultimately show ?thesis using True by (auto simp: waiters_remove AList.delete_conv')
  next
    case False
    then have "j \<in> waiters_at (removeWaiter (wc_runId w) i (ws_waiters s)) r \<longleftrightarrow> j \<in> waiters_at (ws_waiters s) r"
      by (simp add: waiters_remove)
    then show ?thesis using reg[of j r] False by (simp add: AList.delete_conv')
  qed
  moreover have "fst (finish_wait i sn s) = s\<lparr>ws_waiting := AList.delete i (ws_waiting s), ws_timers := removeAll i (ws_timers s),
      ws_waiters := removeWaiter (wc_runId w) i (ws_waiters s)\<rparr>"
    by (simp add: finish_wait_def Some)
  moreover have "distinct (map fst (AList.delete i (ws_waiting s)))" "map_of (removeWaiter (wc_runId w) i (ws_waiters s)) r \<noteq> Some []"
    "map_of (AList.delete i (ws_waiting s)) j = Some v \<Longrightarrow> j < ws_count s" for r j v
    using assms nonempty_waiters(1)[of "wc_runId w" i "ws_waiters s" r]
    by (auto simp: wait_ok_def distinct_delete AList.delete_conv' split: if_splits)
  ultimately show ?thesis unfolding wait_ok_def by simp
qed (simp add: finish_absent assms)

lemma finish_timed:
  assumes "timed s"
  shows "timed (fst (finish_wait i sn s))"
proof -
  have "fst ` set (AList.delete i (ws_waiting s)) = fst ` set (ws_waiting s) - {i}"
    by (metis AList.delete_keys list.set_map set_removeAll)
  then show ?thesis using assms by (simp add: finish_wait_def timed_def split: option.split)
qed

lemma wake_fields:
  "map_of (ws_waiting (fst (on_wake i s))) j = (if j = i \<and> Option.bind (map_of (ws_waiting s) i) (read_for (ws_dedupe s)) \<noteq> None
     then None else map_of (ws_waiting s) j)"
  "ws_dedupe (fst (on_wake i s)) = ws_dedupe s" "ws_count (fst (on_wake i s)) = ws_count s"
  by (auto simp: on_wake_def finish_fields split: option.split)

lemma wake_ok: "wait_ok s \<Longrightarrow> wait_ok (fst (on_wake i s))" "timed s \<Longrightarrow> timed (fst (on_wake i s))"
  by (simp_all add: on_wake_def finish_ok finish_timed split: option.split)

lemma wake_all:
  "map_of (ws_waiting (fst (for_each on_wake ids s))) j
     = (if j \<in> set ids \<and> Option.bind (map_of (ws_waiting s) j) (read_for (ws_dedupe s)) \<noteq> None then None else map_of (ws_waiting s) j)"
  "ws_dedupe (fst (for_each on_wake ids s)) = ws_dedupe s" "ws_count (fst (for_each on_wake ids s)) = ws_count s"
  "wait_ok s \<Longrightarrow> wait_ok (fst (for_each on_wake ids s))" "timed s \<Longrightarrow> timed (fst (for_each on_wake ids s))"
  by (induction ids arbitrary: s) (auto simp: wake_fields wake_ok)

lemma notify_facts:
  "wait_ok s \<Longrightarrow> wait_ok (fst (notifyWaiters r s))" "timed s \<Longrightarrow> timed (fst (notifyWaiters r s))"
  "ws_dedupe (fst (notifyWaiters r s)) = ws_dedupe s" "ws_count (fst (notifyWaiters r s)) = ws_count s"
  "map_of (ws_waiting (fst (notifyWaiters r s))) j = (if trim r \<noteq> [] \<and> j \<in> waiters_at (ws_waiters s) (trim r)
      \<and> Option.bind (map_of (ws_waiting s) j) (read_for (ws_dedupe s)) \<noteq> None then None else map_of (ws_waiting s) j)"
  by (auto simp: notifyWaiters_def wake_all waiters_at_def)

lemma start_state:
  assumes "wait_ok s"
  shows "waitForTerminalGatewayDedupe r g timeoutMs aborted s =
    (let i = ws_count s; w = \<lparr>wc_runId = r, wc_ignoreAgent = g\<rparr>; s1 = s\<lparr>ws_count := Suc i\<rparr> in
     case read_for (ws_dedupe s) w of
       Some sn \<Rightarrow> (s1, [WaitSettled i (Some sn)])
     | None \<Rightarrow> if timeoutMs \<le> 0 \<or> aborted then (s1, [WaitSettled i None])
         else (s1\<lparr>ws_waiting := ws_waiting s @ [(i, w)], ws_waiters := addWaiter r i (ws_waiters s), ws_timers := ws_timers s @ [i]\<rparr>,
               [SetWaitTimer i (max 1 (min timeoutMs 2147483647))]))"
proof -
  have fresh: "map_of (ws_waiting s) (ws_count s) = None"
  proof (rule ccontr)
    assume "map_of (ws_waiting s) (ws_count s) \<noteq> None"
    then obtain v where "map_of (ws_waiting s) (ws_count s) = Some v" by blast
    then have "ws_count s < ws_count s" using assms unfolding wait_ok_def by blast
    then show False by simp
  qed
  then have "map_of (ws_waiting s @ [(ws_count s, w)]) (ws_count s) = Some w" for w
    by (simp add: map_add_def)
  then show ?thesis
    by (simp add: waitForTerminalGatewayDedupe_def on_wake_def seq_def Let_def split: option.split)
qed

lemma start_ok:
  assumes "wait_ok s"
  shows "wait_ok (fst (waitForTerminalGatewayDedupe r g timeoutMs aborted s))"
    and "timed s \<Longrightarrow> timed (fst (waitForTerminalGatewayDedupe r g timeoutMs aborted s))"
proof -
  let ?i = "ws_count s" let ?w = "\<lparr>wc_runId = r, wc_ignoreAgent = g\<rparr>"
  have count: "wait_ok (s\<lparr>ws_count := Suc ?i\<rparr>)" using assms by (auto simp: wait_ok_def less_Suc_eq)
  have fresh: "?i \<notin> fst ` set (ws_waiting s)"
    using assms unfolding wait_ok_def by (metis less_irrefl map_of_eq_None_iff not_None_eq)
  have m: "map_of (ws_waiting s @ [(?i, ?w)]) j = (if j = ?i then Some ?w else map_of (ws_waiting s) j)" for j
    using fresh by (auto simp: map_add_def map_of_eq_None_iff[symmetric] split: option.split)
  have "j \<in> waiters_at (addWaiter r ?i (ws_waiters s)) q
      \<longleftrightarrow> q \<noteq> [] \<and> (\<exists>w. map_of (ws_waiting s @ [(?i, ?w)]) j = Some w \<and> trim (wc_runId w) = q)" for j q
  proof (cases "j = ?i")
    case True
    have "?i \<notin> waiters_at (ws_waiters s) q" using assms fresh unfolding wait_ok_def by (metis map_of_eq_None_iff option.distinct(1))
    then show ?thesis unfolding True waiters_add m by auto
  next
    case False
    then have "j \<in> waiters_at (addWaiter r ?i (ws_waiters s)) q \<longleftrightarrow> j \<in> waiters_at (ws_waiters s) q"
      by (simp add: waiters_add)
    moreover have "j \<in> waiters_at (ws_waiters s) q \<longleftrightarrow> q \<noteq> [] \<and> (\<exists>w. map_of (ws_waiting s) j = Some w \<and> trim (wc_runId w) = q)"
      by (rule wait_okD(3)[OF assms])
    ultimately show ?thesis using False unfolding m by (simp only: if_False)
  qed
  moreover have "map_of (addWaiter r ?i (ws_waiters s)) q \<noteq> Some []" for q
    using nonempty_waiters(2) wait_okD(4)[OF assms] by blast
  moreover have "map_of (ws_waiting s @ [(?i, ?w)]) j = Some v \<Longrightarrow> j < Suc ?i" for j v
    using count unfolding wait_ok_def m by (auto split: if_splits)
  ultimately have added: "wait_ok (s\<lparr>ws_count := Suc ?i, ws_waiting := ws_waiting s @ [(?i, ?w)],
      ws_waiters := addWaiter r ?i (ws_waiters s), ws_timers := ws_timers s @ [?i]\<rparr>)"
    using assms fresh unfolding wait_ok_def by simp
  show "wait_ok (fst (waitForTerminalGatewayDedupe r g timeoutMs aborted s))"
    unfolding start_state[OF assms] Let_def using count added by (simp split: option.split)
  show "timed (fst (waitForTerminalGatewayDedupe r g timeoutMs aborted s))" if "timed s"
    unfolding start_state[OF assms] Let_def using that by (auto simp: timed_def split: option.split)
qed

lemma write_ok:
  "wait_ok s \<Longrightarrow> wait_ok (fst (setGatewayDedupeEntry k e s))" "timed s \<Longrightarrow> timed (fst (setGatewayDedupeEntry k e s))"
  by (auto simp: setGatewayDedupeEntry_def notify_facts wait_ok_def[of "_\<lparr>ws_dedupe := _\<rparr>"] timed_def[of "_\<lparr>ws_dedupe := _\<rparr>"]
      wait_ok_def[of s] timed_def[of s] intro!: notify_facts(1,2) split: option.split)

lemma step_ok:
  assumes "wait_ok s" and "timed s"
  shows "wait_ok (fst (wait_step i s)) \<and> timed (fst (wait_step i s))"
proof (cases i)
  case (CleanEntries now)
  then show ?thesis using assms by (simp add: wait_ok_def timed_def)
qed (use assms in \<open>simp_all add: start_ok write_ok finish_ok finish_timed\<close>)

section \<open>Every call is settled once\<close>

definition waiting_calls :: "wait_state \<Rightarrow> nat multiset" where
  "waiting_calls s = mset (map fst (ws_waiting s))"

fun settled_calls :: "wait_effect \<Rightarrow> nat multiset" where
  "settled_calls (WaitSettled i sn) = {#i#}"
| "settled_calls _ = {#}"

interpretation waits: account waiting_calls settled_calls .

lemma finish_balanced:
  assumes "wait_ok s"
  shows "waits.balanced {#} (finish_wait i sn) s"
proof (cases "map_of (ws_waiting s) i")
  case (Some w)
  have d: "distinct (map fst (ws_waiting s))" using assms by (simp add: wait_ok_def)
  have "mset (map fst (AList.delete i (ws_waiting s))) = mset (map fst (ws_waiting s)) - {#i#}"
    unfolding AList.delete_keys distinct_remove1_removeAll[OF d, symmetric] by simp
  moreover have "i \<in># mset (map fst (ws_waiting s))" using Some by (auto dest!: map_of_SomeD intro!: image_eqI)
  ultimately show ?thesis
    by (simp add: waits.balanced_def finish_wait_def Some waiting_calls_def)
qed (simp add: waits.balanced_def finish_absent)

lemma wake_balanced: "wait_ok s \<Longrightarrow> waits.balanced {#} (on_wake i) s"
  unfolding on_wake_def
  by (rule waits.balanced_with_state) (auto simp: finish_balanced split: option.split)

lemma notify_balanced:
  assumes "wait_ok s"
  shows "waits.balanced {#} (notifyWaiters r) s"
proof -
  have "waits.balanced (sum_list (map (\<lambda>i. {#}) ids)) (for_each on_wake ids) s \<and> wait_ok (fst (for_each on_wake ids s))" for ids
    by (rule waits.balanced_for_each) (simp_all add: wake_balanced wake_ok assms)
  moreover have "sum_list (map (\<lambda>i. {#}) ids) = ({#} :: nat multiset)" for ids :: "nat list"
    by (induction ids) simp_all
  ultimately show ?thesis
    unfolding notifyWaiters_def by (auto intro: waits.balanced_with_state simp del: sum_list_0)
qed

fun new_waits :: "wait_input \<Rightarrow> wait_state \<Rightarrow> nat multiset" where
  "new_waits (StartWait r g t a) s = {#ws_count s#}"
| "new_waits _ s = {#}"

lemma step_balanced:
  assumes "wait_ok s"
  shows "waits.balanced (new_waits i s) (wait_step i) s"
proof (cases i)
  case (StartWait r g t a)
  then show ?thesis
    unfolding StartWait waits.balanced_def wait_step.simps new_waits.simps start_state[OF assms] Let_def
    by (simp add: waiting_calls_def split: option.split)
next
  case (WriteEntry k e)
  have "wait_ok (s\<lparr>ws_dedupe := m\<rparr>)" for m using assms by (simp add: wait_ok_def)
  then show ?thesis
    unfolding WriteEntry wait_step.simps new_waits.simps setGatewayDedupeEntry_def
    by (intro waits.balanced_seq[of "{#}" _ _ "{#}"] waits.balanced_update)
      (auto simp: waiting_calls_def notify_balanced split: option.split)
next
  case (CleanEntries now)
  then show ?thesis by (auto intro!: waits.balanced_update simp: waiting_calls_def)
qed (auto intro!: waits.balanced_with_state simp: finish_balanced assms)

lemma step_count: "ws_count (fst (wait_step i s)) = ws_count s + size (new_waits i s)"
proof (cases i)
  case (StartWait r g t a)
  then show ?thesis
    by (auto simp: waitForTerminalGatewayDedupe_def Let_def wake_fields split: option.split)
qed (auto simp: setGatewayDedupeEntry_def notify_facts finish_fields split: option.split)

lemma wait_run_facts:
  assumes "wait_ok s" and "timed s"
  shows "wait_ok (fst (wait_run ins s)) \<and> timed (fst (wait_run ins s))
    \<and> waiting_calls (fst (wait_run ins s)) + sum_list (map settled_calls (snd (wait_run ins s)))
      = waiting_calls s + mset [ws_count s..<ws_count (fst (wait_run ins s))] \<and> ws_count s \<le> ws_count (fst (wait_run ins s))"
  using assms
proof (induction ins arbitrary: s)
  case (Cons i ins)
  let ?s = "fst (wait_step i s)"
  have ok: "wait_ok ?s" "timed ?s" using step_ok[OF Cons.prems, of i] by simp_all
  note IH = Cons.IH[OF ok]
  have run: "wait_run (i # ins) s = seq (wait_step i) (wait_run ins) s" by (simp add: wait_run_def)
  have b: "waiting_calls ?s + sum_list (map settled_calls (snd (wait_step i s))) = waiting_calls s + new_waits i s"
    using step_balanced[OF Cons.prems(1), of i] by (simp add: waits.balanced_def)
  have "new_waits i s = mset [ws_count s..<ws_count ?s]"
    unfolding step_count by (cases i) simp_all
  moreover have "[ws_count s..<ws_count (fst (wait_run ins ?s))] = [ws_count s..<ws_count ?s] @ [ws_count ?s..<ws_count (fst (wait_run ins ?s))]"
    using IH upt_add_eq_append[of "ws_count s" "ws_count ?s" "ws_count (fst (wait_run ins ?s)) - ws_count ?s"]
    by (simp add: step_count)
  ultimately show ?case
    using IH b unfolding run by (auto simp: step_count ac_simps)
qed (simp add: wait_run_def)

text \<open>
  After any events every call that waits for the end of a run has been settled exactly once or waits still, and
  then a timer is set that will settle it.
\<close>

theorem waits_settled_once:
  "mset (map fst (ws_waiting (fst (wait_run ins no_waits)))) + sum_list (map settled_calls (snd (wait_run ins no_waits)))
     = mset [0..<ws_count (fst (wait_run ins no_waits))]
   \<and> set (ws_timers (fst (wait_run ins no_waits))) = fst ` set (ws_waiting (fst (wait_run ins no_waits)))"
proof -
  have "wait_ok no_waits" "timed no_waits"
    by (simp_all add: wait_ok_def timed_def no_waits_def waiters_at_def)
  from wait_run_facts[OF this, of ins] show ?thesis
    by (simp add: timed_def waiting_calls_def no_waits_def)
qed

section \<open>Nobody waits for what is already there\<close>

text \<open>The keys of the table are distinct, and no registered call waits although its run has a terminal record.\<close>

definition calls_awake :: "wait_state \<Rightarrow> bool" where
  "calls_awake s \<longleftrightarrow> distinct (map fst (ws_dedupe s))
     \<and> (\<forall>i w. map_of (ws_waiting s) i = Some w \<longrightarrow> trim (wc_runId w) \<noteq> [] \<longrightarrow> read_for (ws_dedupe s) w = None)"

text \<open>A record is not replaced by an older one, and a cleanup finds no more records than the table may have.\<close>

fun newer_writes :: "wait_input \<Rightarrow> wait_state \<Rightarrow> bool" where
  "newer_writes (WriteEntry key e) s \<longleftrightarrow> (case map_of (ws_dedupe s) key of Some old \<Rightarrow> de_ts old \<le> de_ts e | None \<Rightarrow> True)"
| "newer_writes (CleanEntries now) s \<longleftrightarrow> length (live_entries now (ws_dedupe s)) \<le> DEDUPE_MAX"
| "newer_writes _ s \<longleftrightarrow> True"

primrec newer_writes_run :: "wait_input list \<Rightarrow> wait_state \<Rightarrow> bool" where
  "newer_writes_run [] s \<longleftrightarrow> True"
| "newer_writes_run (i # ins) s \<longleftrightarrow> newer_writes i s \<and> newer_writes_run ins (fst (wait_step i s))"

lemma keys_apart [simp]:
  "chat_key r \<noteq> agent_key q" "chat_key r = chat_key q \<longleftrightarrow> r = q" "agent_key r = agent_key q \<longleftrightarrow> r = q"
  by (simp_all add: chat_key_def agent_key_def)

lemma parse_keys: "r \<noteq> [] \<Longrightarrow> parseRunIdFromDedupeKey (chat_key r) = Some r" "r \<noteq> [] \<Longrightarrow> parseRunIdFromDedupeKey (agent_key r) = Some r"
  by (simp_all add: parseRunIdFromDedupeKey_def chat_key_def agent_key_def)

lemma parse_key_of:
  assumes "parseRunIdFromDedupeKey key = Some r"
  shows "key = chat_key r \<or> key = agent_key r"
proof -
  have rest: "r = x" if "(if x = [] then None else Some x) = Some r" for x :: string
    using that by (simp split: if_splits)
  note p = assms[unfolded parseRunIdFromDedupeKey_def Let_def]
  show ?thesis
  proof (cases "take 6 key = ''agent:''")
    case True
    have "r = drop 6 key" by (rule rest[OF p[unfolded if_P[OF True]]])
    then show ?thesis using append_take_drop_id[of 6 key] unfolding True agent_key_def by simp
  next
    case agent: False
    show ?thesis
    proof (cases "take 5 key = ''chat:''")
      case True
      have "r = drop 5 key" by (rule rest[OF p[unfolded if_not_P[OF agent] if_P[OF True]]])
      then show ?thesis using append_take_drop_id[of 5 key] unfolding True chat_key_def by simp
    next
      case False
      then show ?thesis using p[unfolded if_not_P[OF agent] if_not_P[OF False]] by simp
    qed
  qed
qed

text \<open>What a call reads depends on the two records of its run.\<close>

lemma read_for_cong:
  assumes "map_of m' (chat_key (wc_runId w)) = map_of m (chat_key (wc_runId w))"
    and "map_of m' (agent_key (wc_runId w)) = map_of m (agent_key (wc_runId w))"
  shows "read_for m' w = read_for m w"
  by (simp only: read_for_def readTerminalSnapshotFromGatewayDedupe_def read_at_def newer_chat_def assms)

text \<open>
  It reads nothing when: there is no terminal record of the chat, and it ignores the agent's or that is not terminal; or
  the agent's is not terminal and not older than the chat's.
\<close>

lemma read_for_none:
  "read_for m w = None \<longleftrightarrow>
     (read_at m (chat_key (wc_runId w)) = None \<and> (wc_ignoreAgent w \<or> read_at m (agent_key (wc_runId w)) = None)
      \<or> \<not> wc_ignoreAgent w \<and> map_of m (agent_key (wc_runId w)) \<noteq> None \<and> read_at m (agent_key (wc_runId w)) = None
        \<and> \<not> newer_chat m (wc_runId w))"
  by (auto simp: read_for_def readTerminalSnapshotFromGatewayDedupe_def Let_def nullish_opt_def split: option.splits)

lemma read_after_pending:
  assumes none: "read_for m w = None" and e: "readTerminalSnapshotFromDedupeEntry e = None"
    and ts: "\<And>old. map_of m key = Some old \<Longrightarrow> de_ts old \<le> de_ts e"
  shows "read_for (AList.update key e m) w = None"
proof -
  let ?c = "chat_key (wc_runId w)" let ?a = "agent_key (wc_runId w)"
  consider "key = ?c" | "key = ?a" | "key \<noteq> ?c" "key \<noteq> ?a" by blast
  then show ?thesis
  proof cases
    case 1
    then show ?thesis using none e
      by (auto simp: read_for_none read_at_def AList.update_conv' newer_chat_def split: option.splits)
  next
    case 2
    then show ?thesis using none e ts
      by (fastforce simp: read_for_none read_at_def AList.update_conv' newer_chat_def split: option.splits)
  next
    case 3
    then have "read_for (AList.update key e m) w = read_for m w"
      by (intro read_for_cong) (simp_all add: AList.update_conv')
    then show ?thesis using none by simp
  qed
qed

lemma read_after_cleanup:
  assumes none: "read_for m w = None" and d: "distinct (map fst m)"
  shows "read_for (live_entries now m) w = None"
proof -
  have live: "map_of (live_entries now m) k = (case map_of m k of None \<Rightarrow> None
      | Some e \<Rightarrow> if DEDUPE_TTL_MS < now - de_ts e then None else Some e)" for k
    using d unfolding live_entries_def
    by (induction m) (auto simp: image_iff split: option.splits dest!: map_of_SomeD)
  show ?thesis
    using none by (auto simp: read_for_none read_at_def newer_chat_def live split: option.splits if_splits)
qed

lemma calls_awake_fewer:
  assumes "calls_awake s" and "ws_dedupe s' = ws_dedupe s"
    and "\<And>j w. map_of (ws_waiting s') j = Some w \<Longrightarrow> map_of (ws_waiting s) j = Some w"
  shows "calls_awake s'"
  using assms unfolding calls_awake_def by metis

lemma calls_awake_write:
  assumes ok: "wait_ok s" and a: "calls_awake s"
    and ts: "\<And>old. map_of (ws_dedupe s) key = Some old \<Longrightarrow> de_ts old \<le> de_ts e"
  shows "calls_awake (fst (setGatewayDedupeEntry key e s))"
proof -
  let ?m = "AList.update key e (ws_dedupe s)" let ?s = "s\<lparr>ws_dedupe := ?m\<rparr>"
  have d: "distinct (map fst ?m)" using a by (simp add: calls_awake_def distinct_update)
  have other: "read_for ?m w = None" if w: "map_of (ws_waiting s) i = Some w" "trim (wc_runId w) \<noteq> []"
      and "parseRunIdFromDedupeKey key \<noteq> Some (wc_runId w)" for i w
  proof -
    have r: "wc_runId w \<noteq> []" using w(2) by auto
    then have "key \<noteq> chat_key (wc_runId w)" "key \<noteq> agent_key (wc_runId w)" using that(3) parse_keys[OF r] by auto
    then have "read_for ?m w = read_for (ws_dedupe s) w" by (intro read_for_cong) (simp_all add: AList.update_conv')
    then show ?thesis using a w unfolding calls_awake_def by simp
  qed
  have pending: "read_for ?m w = None"
    if "map_of (ws_waiting s) i = Some w" "trim (wc_runId w) \<noteq> []" "readTerminalSnapshotFromDedupeEntry e = None" for i w
    using that a by (intro read_after_pending ts) (auto simp: calls_awake_def)
  show ?thesis
  proof (cases "readTerminalSnapshotFromDedupeEntry e = None \<or> parseRunIdFromDedupeKey key = None")
    case True
    then have "fst (setGatewayDedupeEntry key e s) = ?s"
      by (auto simp: setGatewayDedupeEntry_def split: option.split)
    then show ?thesis using d other pending True by (auto simp: calls_awake_def)
  next
    case False
    then obtain r where r: "parseRunIdFromDedupeKey key = Some r" by auto
    then have f: "fst (setGatewayDedupeEntry key e s) = fst (notifyWaiters r ?s)"
      using False by (auto simp: setGatewayDedupeEntry_def)
    have "read_for ?m w = None"
      if w: "map_of (ws_waiting (fst (notifyWaiters r ?s))) j = Some w" and t: "trim (wc_runId w) \<noteq> []" for j w
    proof (cases "wc_runId w = r")
      case True
      have w': "map_of (ws_waiting s) j = Some w" using w unfolding notify_facts(5) by (auto split: if_splits)
      then have "j \<in> waiters_at (ws_waiters ?s) (trim r)" using wait_okD(3)[OF ok, of j "trim r"] True t by auto
      then have "Option.bind (map_of (ws_waiting s) j) (read_for ?m) = None"
        using w t True unfolding notify_facts(5) by (auto split: if_splits)
      then show ?thesis by (simp add: w')
    next
      case False
      have "map_of (ws_waiting s) j = Some w" using w unfolding notify_facts(5) by (auto split: if_splits)
      then show ?thesis using other t False r by simp
    qed
    then show ?thesis unfolding f calls_awake_def using d by (simp add: notify_facts(3))
  qed
qed

lemma calls_awake_step:
  assumes ok: "wait_ok s" and a: "calls_awake s" and o: "newer_writes i s"
  shows "calls_awake (fst (wait_step i s))"
proof (cases i)
  case (StartWait r g t ab)
  show ?thesis
    using a unfolding StartWait wait_step.simps start_state[OF ok] Let_def
    by (auto simp: calls_awake_def map_add_def split: option.splits if_splits)
next
  case (WriteEntry k e)
  then show ?thesis using o by (auto intro!: calls_awake_write[OF ok a])
next
  case (CleanEntries now)
  then have "clean_dedupe now (ws_dedupe s) = live_entries now (ws_dedupe s)" using o by (simp add: clean_dedupe_def Let_def)
  moreover have "distinct (map fst (live_entries now (ws_dedupe s)))"
    using a by (simp add: calls_awake_def live_entries_def distinct_map_filter)
  ultimately show ?thesis using a read_after_cleanup by (auto simp: CleanEntries calls_awake_def)
qed (auto intro: calls_awake_fewer[OF a] simp: finish_fields a split: if_splits)

text \<open>
  C23: as long as records are replaced by newer ones and the table does not overflow, no call waits for the end of a run
  of which the table already has a terminal record that the call would accept.
\<close>

theorem no_waiter_sleeps:
  assumes "newer_writes_run ins no_waits" and "map_of (ws_waiting (fst (wait_run ins no_waits))) i = Some w"
    and "trim (wc_runId w) \<noteq> []"
  shows "readTerminalSnapshotFromGatewayDedupe (ws_dedupe (fst (wait_run ins no_waits))) (wc_runId w) (wc_ignoreAgent w) = None"
proof -
  have "calls_awake (fst (wait_run ins s))" if "newer_writes_run ins s" "wait_ok s" "timed s" "calls_awake s" for s
    using that
  proof (induction ins arbitrary: s)
    case (Cons i ins)
    have "calls_awake (fst (wait_step i s))" using Cons.prems by (intro calls_awake_step) simp_all
    then show ?case using Cons step_ok[of s i] by (simp add: wait_run_def)
  qed (simp add: wait_run_def)
  from this[OF assms(1)] have "calls_awake (fst (wait_run ins no_waits))"
    by (simp add: wait_ok_def timed_def calls_awake_def no_waits_def waiters_at_def)
  then show ?thesis using assms(2,3) unfolding calls_awake_def read_for_def by blast
qed

definition chat_started :: dedupe_entry where
  "chat_started = \<lparr>de_ts = 10, de_ok = True, de_payload = Some (JObj [(''status'', JStr ''started'')]), de_errorMessage = None\<rparr>"

lemma no_waiter_sleeps_witness:
  "readTerminalSnapshotFromGatewayDedupe (ws_dedupe (fst (wait_run
      [WriteEntry ''chat:r'' chat_started, StartWait ''r'' True 5000 False] no_waits))) ''r'' True = None"
proof -
  let ?ins = "[WriteEntry ''chat:r'' chat_started, StartWait ''r'' True 5000 False]"
  have "newer_writes_run ?ins no_waits" by code_simp
  moreover have "map_of (ws_waiting (fst (wait_run ?ins no_waits))) 0 = Some \<lparr>wc_runId = ''r'', wc_ignoreAgent = True\<rparr>" by code_simp
  moreover have "trim ''r'' \<noteq> []" by code_simp
  ultimately show ?thesis
    using no_waiter_sleeps[of ?ins 0 "\<lparr>wc_runId = ''r'', wc_ignoreAgent = True\<rparr>"] by simp
qed

end
