(* ===== verification/AgentWaitCall.thy ===== *)
theory AgentWaitCall
  imports AgentJob AgentWait
begin

text \<open>
  The method agent.wait (openclaw/src/gateway/server-methods/agent.ts): a request that asks how a run ended races the
  run's lifecycle events (\<open>AgentJob\<close>) against the table of answered requests (\<open>AgentWait\<close>). Requests are numbered.
  A promise that settles runs the request's continuation before the next event; an abort of a call whose request is
  answered settles a promise nobody looks at any more.
\<close>

section \<open>Parameters of a request\<close>

definition is_natural :: "json \<Rightarrow> bool" where
  "is_natural v = (case v of JNum (Fin q) \<Rightarrow> 0 \<le> q \<and> of_int \<lfloor>q\<rfloor> = q | _ \<Rightarrow> False)"

definition validateAgentWaitParams :: "json \<Rightarrow> bool" where
  "validateAgentWaitParams p = (case p of
     JObj kvs \<Rightarrow> list_all (\<lambda>(k, v). k = ''runId'' \<or> k = ''timeoutMs'') kvs
       \<and> (case map_of kvs ''runId'' of Some (JStr r) \<Rightarrow> r \<noteq> [] | _ \<Rightarrow> False)
       \<and> (case map_of kvs ''timeoutMs'' of None \<Rightarrow> True | Some v \<Rightarrow> is_natural v)
   | _ \<Rightarrow> False)"

definition wait_run_id :: "json \<Rightarrow> string" where
  "wait_run_id p = trim (nullish (as_str (getp p ''runId'')) [])"

definition wait_timeout :: "json \<Rightarrow> int" where
  "wait_timeout p = (case as_finite (getp p ''timeoutMs'') of Some q \<Rightarrow> max 0 \<lfloor>q\<rfloor> | None \<Rightarrow> 30000)"

section \<open>State\<close>

datatype race_stage = Racing | AwaitDedupe | AwaitLifecycle

record race_call =
  rc_runId :: string
  rc_job :: nat
  rc_wait :: nat
  rc_stage :: race_stage

record agent_waits =
  aw_jobs :: job_state
  aw_waits :: wait_state
  aw_calls :: "(nat \<times> race_call) list"
  aw_count :: nat

datatype end_snapshot = LifecycleEnd run_snapshot | DedupeEnd wait_snapshot

datatype wait_answer = WaitRefused | WaitAnswer string "end_snapshot option"

datatype aw_effect = JobEff job_effect | WaitEff wait_effect | AnsweredWait nat wait_answer

type_synonym aw_act = "(agent_waits, aw_effect) act"

definition no_agent_waits :: agent_waits where
  "no_agent_waits = \<lparr>aw_jobs = no_jobs, aw_waits = no_waits, aw_calls = [], aw_count = 0\<rparr>"

text \<open>What the answer carries; without a snapshot only that the time is over.\<close>

definition wait_payload :: "string \<Rightarrow> end_snapshot option \<Rightarrow> json" where
  "wait_payload r v = (case v of
     None \<Rightarrow> mk_obj [(''runId'', Some (JStr r)), (''status'', Some (JStr ''timeout''))]
   | Some (LifecycleEnd e) \<Rightarrow> mk_obj [(''runId'', Some (JStr r)), (''status'', Some (JStr (rs_status e))), (''startedAt'', rs_startedAt e),
       (''endedAt'', rs_endedAt e), (''error'', map_option JStr (rs_error e))]
   | Some (DedupeEnd e) \<Rightarrow> mk_obj [(''runId'', Some (JStr r)), (''status'', Some (JStr (sn_status e))),
       (''startedAt'', map_option (\<lambda>q. JNum (Fin q)) (sn_startedAt e)), (''endedAt'', Some (JNum (Fin (sn_endedAt e)))),
       (''error'', map_option JStr (sn_error e))])"

section \<open>The race\<close>

definition on_jobs :: "job_act \<Rightarrow> aw_act" where
  "on_jobs a s = (case a (aw_jobs s) of (j, es) \<Rightarrow> (s\<lparr>aw_jobs := j\<rparr>, map JobEff es))"

definition on_waits :: "wait_act \<Rightarrow> aw_act" where
  "on_waits a s = (case a (aw_waits s) of (w, es) \<Rightarrow> (s\<lparr>aw_waits := w\<rparr>, map WaitEff es))"

definition answer_wait :: "nat \<Rightarrow> race_call \<Rightarrow> end_snapshot option \<Rightarrow> aw_act" where
  "answer_wait q c v = seq (update (\<lambda>s. s\<lparr>aw_calls := AList.delete q (aw_calls s)\<rparr>)) (emit [AnsweredWait q (WaitAnswer (rc_runId c) v)])"

definition set_stage :: "nat \<Rightarrow> race_call \<Rightarrow> race_stage \<Rightarrow> aw_act" where
  "set_stage q c st = update (\<lambda>s. s\<lparr>aw_calls := AList.update q (c\<lparr>rc_stage := st\<rparr>) (aw_calls s)\<rparr>)"

definition abort_both :: "race_call \<Rightarrow> aw_act" where
  "abort_both c = seq (on_jobs (finish_job (rc_job c) None)) (on_waits (finish_wait (rc_wait c) None))"

definition on_lifecycle :: "nat \<Rightarrow> run_snapshot option \<Rightarrow> aw_act" where
  "on_lifecycle k v = with_state (\<lambda>s. case find (\<lambda>(q, c). rc_job c = k \<and> rc_stage c \<noteq> AwaitDedupe) (aw_calls s) of
     None \<Rightarrow> skip
   | Some (q, c) \<Rightarrow>
       if rc_stage c = Racing then (case v of
           Some e \<Rightarrow> seq (on_waits (finish_wait (rc_wait c) None)) (answer_wait q c (Some (LifecycleEnd e)))
         | None \<Rightarrow> set_stage q c AwaitDedupe)
       else seq (abort_both c) (answer_wait q c (map_option LifecycleEnd v)))"

definition on_dedupe :: "nat \<Rightarrow> wait_snapshot option \<Rightarrow> aw_act" where
  "on_dedupe k v = with_state (\<lambda>s. case find (\<lambda>(q, c). rc_wait c = k \<and> rc_stage c \<noteq> AwaitLifecycle) (aw_calls s) of
     None \<Rightarrow> skip
   | Some (q, c) \<Rightarrow>
       if rc_stage c = Racing then (case v of
           Some e \<Rightarrow> seq (on_jobs (finish_job (rc_job c) None)) (answer_wait q c (Some (DedupeEnd e)))
         | None \<Rightarrow> set_stage q c AwaitLifecycle)
       else seq (abort_both c) (answer_wait q c (map_option DedupeEnd v)))"

fun on_settled :: "aw_effect \<Rightarrow> aw_act" where
  "on_settled (JobEff (JobSettled k v)) = on_lifecycle k v"
| "on_settled (WaitEff (WaitSettled k v)) = on_dedupe k v"
| "on_settled _ = skip"

text \<open>An action, and then the continuations of the promises it settled.\<close>

definition then_settle :: "aw_act \<Rightarrow> aw_act" where
  "then_settle a s = (case a s of (s1, es) \<Rightarrow> case for_each on_settled es s1 of (s2, es') \<Rightarrow> (s2, es @ es'))"

definition start_race :: "int \<Rightarrow> nat \<Rightarrow> string \<Rightarrow> int \<Rightarrow> bool \<Rightarrow> aw_act" where
  "start_race now q runId timeoutMs active = with_state (\<lambda>s.
     seq (on_jobs (waitForAgentJob now runId timeoutMs False active))
       (seq (on_waits (waitForTerminalGatewayDedupe runId active timeoutMs False))
         (update (\<lambda>s'. s'\<lparr>aw_calls := aw_calls s' @
            [(q, \<lparr>rc_runId = runId, rc_job = js_callCount (aw_jobs s), rc_wait = ws_count (aw_waits s), rc_stage = Racing\<rparr>)]\<rparr>))))"

text \<open>\<open>active\<close>: a chat run of this id is in progress (context.chatAbortControllers).\<close>

definition agent_wait :: "int \<Rightarrow> json \<Rightarrow> bool \<Rightarrow> aw_act" where
  "agent_wait now p active = with_state (\<lambda>s. seq (update (\<lambda>s. s\<lparr>aw_count := Suc (aw_count s)\<rparr>))
     (let q = aw_count s; runId = wait_run_id p in
      if \<not> validateAgentWaitParams p then emit [AnsweredWait q WaitRefused]
      else case readTerminalSnapshotFromGatewayDedupe (ws_dedupe (aw_waits s)) runId active of
        Some e \<Rightarrow> emit [AnsweredWait q (WaitAnswer runId (Some (DedupeEnd e)))]
      | None \<Rightarrow> then_settle (start_race now q runId (wait_timeout p) active)))"

section \<open>Steps\<close>

datatype aw_input =
    AgentWaitRequest json bool
  | AgentRunEvent agent_event
  | AgentJobTimer nat
  | DedupeWritten string dedupe_entry
  | DedupeWaitTimer nat
  | DedupeCleaned

definition aw_step :: "int \<times> aw_input \<Rightarrow> aw_act" where
  "aw_step = (\<lambda>(now, i). case i of
     AgentWaitRequest p active \<Rightarrow> agent_wait now p active
   | AgentRunEvent evt \<Rightarrow> then_settle (on_jobs (job_step (now, RunEvent evt)))
   | AgentJobTimer n \<Rightarrow> then_settle (on_jobs (job_step (now, JobTimer n)))
   | DedupeWritten k e \<Rightarrow> then_settle (on_waits (wait_step (WriteEntry k e)))
   | DedupeWaitTimer n \<Rightarrow> then_settle (on_waits (wait_step (WaitTimer n)))
   | DedupeCleaned \<Rightarrow> then_settle (on_waits (wait_step (CleanEntries now))))"

definition aw_run :: "(int \<times> aw_input) list \<Rightarrow> aw_act" where
  "aw_run ins = for_each aw_step ins"

section \<open>Requests and the calls they wait for\<close>

text \<open>The calls of a module that a request in progress still waits for.\<close>

definition job_targets :: "(nat \<times> race_call) list \<Rightarrow> nat set" where
  "job_targets cs = {j. \<exists>q c. map_of cs q = Some c \<and> rc_stage c \<noteq> AwaitDedupe \<and> rc_job c = j}"

definition wait_targets :: "(nat \<times> race_call) list \<Rightarrow> nat set" where
  "wait_targets cs = {w. \<exists>q c. map_of cs q = Some c \<and> rc_stage c \<noteq> AwaitLifecycle \<and> rc_wait c = w}"

definition job_settles :: "aw_effect list \<Rightarrow> nat set" where
  "job_settles es = {k. \<exists>v. JobEff (JobSettled k v) \<in> set es}"

definition wait_settles :: "aw_effect list \<Rightarrow> nat set" where
  "wait_settles es = {k. \<exists>v. WaitEff (WaitSettled k v) \<in> set es}"

definition calls_apart :: "(nat \<times> race_call) list \<Rightarrow> bool" where
  "calls_apart cs \<longleftrightarrow> distinct (map fst cs) \<and> (\<forall>q c p d. map_of cs q = Some c \<longrightarrow> map_of cs p = Some d
     \<longrightarrow> rc_job c = rc_job d \<or> rc_wait c = rc_wait d \<longrightarrow> q = p)"

text \<open>
  \<open>es\<close> are effects whose continuations have not run yet: the module's open calls are those that requests wait for
  and that have not settled.
\<close>

definition linked :: "aw_effect list \<Rightarrow> agent_waits \<Rightarrow> bool" where
  "linked es s \<longleftrightarrow> jobs_ok (aw_jobs s) \<and> untimed (aw_jobs s) = {} \<and> wait_ok (aw_waits s) \<and> timed (aw_waits s)
     \<and> calls_apart (aw_calls s)
     \<and> (\<forall>q c. map_of (aw_calls s) q = Some c \<longrightarrow> q < aw_count s \<and> rc_job c < js_callCount (aw_jobs s) \<and> rc_wait c < ws_count (aw_waits s))
     \<and> fst ` set (js_calls (aw_jobs s)) = job_targets (aw_calls s) - job_settles es
     \<and> fst ` set (ws_waiting (aw_waits s)) = wait_targets (aw_calls s) - wait_settles es"

lemma keys_left:
  assumes "mset ys + es = mset xs" and "distinct xs"
  shows "set ys = set xs - set_mset es"
proof -
  have one_of: "a + b = (if P then 1 else 0) \<Longrightarrow> a \<noteq> 0 \<longleftrightarrow> P \<and> \<not> b \<noteq> 0" for a b :: nat and P
    by (cases P) auto
  have "k \<in> set ys \<longleftrightarrow> k \<in> set xs \<and> k \<notin># es" for k
  proof -
    have "count (mset xs) k = (if k \<in> set xs then 1 else 0)"
      using assms(2) unfolding distinct_count_atmost_1 by (rule spec)
    moreover have "count (mset ys) k + count es k = count (mset xs) k" by (simp only: assms(1)[symmetric] count_union)
    ultimately have "count (mset ys) k \<noteq> 0 \<longleftrightarrow> k \<in> set xs \<and> \<not> count es k \<noteq> 0" by (intro one_of) (simp only:)
    then show ?thesis by (simp only: count_eq_zero_iff set_mset_mset not_not)
  qed
  then show ?thesis by auto
qed

lemma settled_set:
  "set_mset (sum_list (map settled_jobs es)) = {k. \<exists>v. JobSettled k v \<in> set es}"
  "set_mset (sum_list (map settled_calls es')) = {k. \<exists>v. WaitSettled k v \<in> set es'}"
proof -
  have "k \<in># settled_jobs e \<longleftrightarrow> (\<exists>v. e = JobSettled k v)" for e k by (cases e) auto
  then show "set_mset (sum_list (map settled_jobs es)) = {k. \<exists>v. JobSettled k v \<in> set es}"
    by (induction es) auto
  have "k \<in># settled_calls e \<longleftrightarrow> (\<exists>v. e = WaitSettled k v)" for e k by (cases e) auto
  then show "set_mset (sum_list (map settled_calls es')) = {k. \<exists>v. WaitSettled k v \<in> set es'}"
    by (induction es') auto
qed

lemma settles_simps [simp]:
  "job_settles [] = {}" "wait_settles [] = {}"
  "job_settles (map JobEff je) = {k. \<exists>v. JobSettled k v \<in> set je}" "wait_settles (map JobEff je) = {}"
  "job_settles (map WaitEff we) = {}" "wait_settles (map WaitEff we) = {k. \<exists>v. WaitSettled k v \<in> set we}"
  "job_settles (es @ es') = job_settles es \<union> job_settles es'" "wait_settles (es @ es') = wait_settles es \<union> wait_settles es'"
  by (auto simp: job_settles_def wait_settles_def)

lemma settles_Cons:
  "job_settles (e # es) = (case e of JobEff (JobSettled k v) \<Rightarrow> insert k (job_settles es) | _ \<Rightarrow> job_settles es)"
  "wait_settles (e # es) = (case e of WaitEff (WaitSettled k v) \<Rightarrow> insert k (wait_settles es) | _ \<Rightarrow> wait_settles es)"
  by (auto simp: job_settles_def wait_settles_def split: aw_effect.split job_effect.split wait_effect.split)

lemma on_simps [simp]:
  "fst (on_jobs a s) = s\<lparr>aw_jobs := fst (a (aw_jobs s))\<rparr>" "snd (on_jobs a s) = map JobEff (snd (a (aw_jobs s)))"
  "fst (on_waits b s) = s\<lparr>aw_waits := fst (b (aw_waits s))\<rparr>" "snd (on_waits b s) = map WaitEff (snd (b (aw_waits s)))"
  by (simp_all add: on_jobs_def on_waits_def split: prod.split)

lemma keys_deleted: "fst ` set (AList.delete i m) = fst ` set m - {i}"
  by (metis AList.delete_keys list.set_map set_removeAll)

lemma finished_job:
  assumes "jobs_ok s" and "untimed s = {}"
  shows "jobs_ok (fst (finish_job i e s))" "untimed (fst (finish_job i e s)) = {}" "js_callCount (fst (finish_job i e s)) = js_callCount s"
    "fst ` set (js_calls (fst (finish_job i e s))) = fst ` set (js_calls s) - {i}"
proof -
  show "fst ` set (js_calls (fst (finish_job i e s))) = fst ` set (js_calls s) - {i}"
  proof (cases "map_of (js_calls s) i")
    case None
    then have "i \<notin> fst ` set (js_calls s)" by (simp add: map_of_eq_None_iff)
    then show ?thesis using None by (simp add: finish_state)
  qed (simp add: finish_state keys_deleted)
qed (use finish_sound[OF assms(1), of i e] assms(2) in \<open>auto simp: jobs_sound_def\<close>)

lemma finished_wait:
  assumes "wait_ok s" and "timed s"
  shows "wait_ok (fst (finish_wait i e s))" "timed (fst (finish_wait i e s))" "ws_count (fst (finish_wait i e s)) = ws_count s"
    "fst ` set (ws_waiting (fst (finish_wait i e s))) = fst ` set (ws_waiting s) - {i}"
proof -
  show "fst ` set (ws_waiting (fst (finish_wait i e s))) = fst ` set (ws_waiting s) - {i}"
  proof (cases "map_of (ws_waiting s) i")
    case None
    then have "i \<notin> fst ` set (ws_waiting s)" by (simp add: map_of_eq_None_iff)
    then show ?thesis using None by (simp add: finish_absent)
  qed (simp add: finish_wait_def keys_deleted)
qed (use finish_ok[OF assms(1), of i e] finish_timed[OF assms(2), of i e] in \<open>auto simp: finish_fields\<close>)

text \<open>Dropping an answered request, and a request whose first promise brought nothing.\<close>

lemma calls_apartD:
  assumes "calls_apart cs" and "map_of cs q = Some c" and "map_of cs p = Some d"
  shows "rc_job d = rc_job c \<longleftrightarrow> p = q" "rc_wait d = rc_wait c \<longleftrightarrow> p = q"
proof -
  have "rc_job d = rc_job c \<or> rc_wait d = rc_wait c \<Longrightarrow> p = q"
    by (rule assms(1)[unfolded calls_apart_def, THEN conjunct2, rule_format, OF assms(3,2)])
  moreover have "p = q \<Longrightarrow> rc_job d = rc_job c \<and> rc_wait d = rc_wait c" using assms(2,3) by simp
  ultimately show "rc_job d = rc_job c \<longleftrightarrow> p = q" "rc_wait d = rc_wait c \<longleftrightarrow> p = q" by blast+
qed

lemma calls_apart_sub:
  assumes "calls_apart cs" and "distinct (map fst cs')"
    and "\<And>p d. map_of cs' p = Some d \<Longrightarrow> \<exists>d'. map_of cs p = Some d' \<and> rc_job d' = rc_job d \<and> rc_wait d' = rc_wait d"
  shows "calls_apart cs'"
  unfolding calls_apart_def
proof (intro conjI allI impI)
  fix q c p d assume "map_of cs' q = Some c" "map_of cs' p = Some d" and j: "rc_job c = rc_job d \<or> rc_wait c = rc_wait d"
  then obtain c' d' where "map_of cs q = Some c'" "rc_job c' = rc_job c" "rc_wait c' = rc_wait c"
      "map_of cs p = Some d'" "rc_job d' = rc_job d" "rc_wait d' = rc_wait d"
    using assms(3) by metis
  then show "q = p" using calls_apartD[OF assms(1), of q c' p d'] j by auto
qed (rule assms(2))

lemma targets_dropped:
  assumes a: "calls_apart cs" and c: "map_of cs q = Some c"
  shows "job_targets (AList.delete q cs) = job_targets cs - {rc_job c}" "wait_targets (AList.delete q cs) = wait_targets cs - {rc_wait c}"
    "calls_apart (AList.delete q cs)"
proof -
  show "job_targets (AList.delete q cs) = job_targets cs - {rc_job c}" "wait_targets (AList.delete q cs) = wait_targets cs - {rc_wait c}"
    using calls_apartD[OF a c] unfolding job_targets_def wait_targets_def AList.delete_conv'
    by (auto 4 4 split: if_splits)
  show "calls_apart (AList.delete q cs)"
    using a by (intro calls_apart_sub[OF a]) (auto simp: calls_apart_def distinct_delete AList.delete_conv' split: if_splits)
qed

lemma targets_updated:
  "job_targets (AList.update q d cs) = (if rc_stage d = AwaitDedupe then {} else {rc_job d}) \<union> job_targets (AList.delete q cs)"
  "wait_targets (AList.update q d cs) = (if rc_stage d = AwaitLifecycle then {} else {rc_wait d}) \<union> wait_targets (AList.delete q cs)"
proof -
  have m: "map_of (AList.update q d cs) p = Some e \<longleftrightarrow> (p = q \<and> e = d) \<or> map_of (AList.delete q cs) p = Some e" for p e
    by (auto simp: AList.update_conv' AList.delete_conv')
  show "job_targets (AList.update q d cs) = (if rc_stage d = AwaitDedupe then {} else {rc_job d}) \<union> job_targets (AList.delete q cs)"
    "wait_targets (AList.update q d cs) = (if rc_stage d = AwaitLifecycle then {} else {rc_wait d}) \<union> wait_targets (AList.delete q cs)"
    unfolding job_targets_def wait_targets_def m by auto
qed

lemma targets_staged:
  assumes a: "calls_apart cs" and c: "map_of cs q = Some c" and r: "rc_stage c = Racing"
  shows "job_targets (AList.update q (c\<lparr>rc_stage := AwaitDedupe\<rparr>) cs) = job_targets cs - {rc_job c}"
    "wait_targets (AList.update q (c\<lparr>rc_stage := AwaitDedupe\<rparr>) cs) = wait_targets cs"
    "wait_targets (AList.update q (c\<lparr>rc_stage := AwaitLifecycle\<rparr>) cs) = wait_targets cs - {rc_wait c}"
    "job_targets (AList.update q (c\<lparr>rc_stage := AwaitLifecycle\<rparr>) cs) = job_targets cs"
    "calls_apart (AList.update q (c\<lparr>rc_stage := st\<rparr>) cs)"
proof -
  have "rc_job c \<in> job_targets cs" "rc_wait c \<in> wait_targets cs"
    unfolding job_targets_def wait_targets_def mem_Collect_eq by (intro exI[of _ q] exI[of _ c]; simp add: c r)+
  then show "job_targets (AList.update q (c\<lparr>rc_stage := AwaitDedupe\<rparr>) cs) = job_targets cs - {rc_job c}"
    "wait_targets (AList.update q (c\<lparr>rc_stage := AwaitDedupe\<rparr>) cs) = wait_targets cs"
    "wait_targets (AList.update q (c\<lparr>rc_stage := AwaitLifecycle\<rparr>) cs) = wait_targets cs - {rc_wait c}"
    "job_targets (AList.update q (c\<lparr>rc_stage := AwaitLifecycle\<rparr>) cs) = job_targets cs"
    by (auto simp: targets_updated targets_dropped[OF a c])
  show "calls_apart (AList.update q (c\<lparr>rc_stage := st\<rparr>) cs)"
    using a c by (intro calls_apart_sub[OF a]) (auto simp: calls_apart_def distinct_update AList.update_conv' split: if_splits)
qed

text \<open>What answers and stages do to the link.\<close>

lemma linkedD:
  assumes "linked es s"
  shows "jobs_ok (aw_jobs s)" "untimed (aw_jobs s) = {}" "wait_ok (aw_waits s)" "timed (aw_waits s)" "calls_apart (aw_calls s)"
    "map_of (aw_calls s) q = Some c \<Longrightarrow> q < aw_count s \<and> rc_job c < js_callCount (aw_jobs s) \<and> rc_wait c < ws_count (aw_waits s)"
    "fst ` set (js_calls (aw_jobs s)) = job_targets (aw_calls s) - job_settles es"
    "fst ` set (ws_waiting (aw_waits s)) = wait_targets (aw_calls s) - wait_settles es"
  using assms unfolding linked_def by blast+

lemma linked_dropped:
  assumes l: "linked es s" and c: "map_of (aw_calls s) q = Some c"
    and j: "jobs_ok j" "untimed j = {}" "js_callCount j = js_callCount (aw_jobs s)" "fst ` set (js_calls j) = fst ` set (js_calls (aw_jobs s)) - {rc_job c}"
    and w: "wait_ok w" "timed w" "ws_count w = ws_count (aw_waits s)" "fst ` set (ws_waiting w) = fst ` set (ws_waiting (aw_waits s)) - {rc_wait c}"
    and es: "job_settles es - {rc_job c} = job_settles es' - {rc_job c}" "wait_settles es - {rc_wait c} = wait_settles es' - {rc_wait c}"
  shows "linked es' (s\<lparr>aw_jobs := j, aw_waits := w, aw_calls := AList.delete q (aw_calls s)\<rparr>)"
proof -
  note t = targets_dropped[OF linkedD(5)[OF l] c]
  have "fst ` set (js_calls j) = job_targets (AList.delete q (aw_calls s)) - job_settles es'"
    "fst ` set (ws_waiting w) = wait_targets (AList.delete q (aw_calls s)) - wait_settles es'"
    using es unfolding j(4) w(4) linkedD(7,8)[OF l] t by blast+
  then show ?thesis
    using linkedD(6)[OF l] t(3) j w by (auto simp: linked_def AList.delete_conv' split: if_splits)
qed

lemma linked_staged:
  assumes l: "linked es s" and c: "map_of (aw_calls s) q = Some c" and r: "rc_stage c = Racing"
    and es: "st = AwaitDedupe \<and> rc_job c \<in> job_settles es \<and> job_settles es - {rc_job c} = job_settles es' - {rc_job c} \<and> wait_settles es' = wait_settles es
      \<or> st = AwaitLifecycle \<and> rc_wait c \<in> wait_settles es \<and> wait_settles es - {rc_wait c} = wait_settles es' - {rc_wait c} \<and> job_settles es' = job_settles es"
  shows "linked es' (s\<lparr>aw_calls := AList.update q (c\<lparr>rc_stage := st\<rparr>) (aw_calls s)\<rparr>)"
proof -
  let ?cs = "AList.update q (c\<lparr>rc_stage := st\<rparr>) (aw_calls s)"
  note t = targets_staged[OF linkedD(5)[OF l] c r]
  from es have "fst ` set (js_calls (aw_jobs s)) = job_targets ?cs - job_settles es'"
    "fst ` set (ws_waiting (aw_waits s)) = wait_targets ?cs - wait_settles es'"
    unfolding linkedD(7,8)[OF l] by (elim disjE; clarsimp simp: t; blast)+
  then show ?thesis
    using linkedD(6)[OF l] t(5)[of st] linkedD(1-4)[OF l] linkedD(6)[OF l c]
    by (auto simp: linked_def AList.update_conv' split: if_splits)
qed

lemma answer_state: "fst (answer_wait q c v s) = s\<lparr>aw_calls := AList.delete q (aw_calls s)\<rparr>"
  by (simp add: answer_wait_def)

lemma on_lifecycle_linked:
  assumes l: "linked (JobEff (JobSettled k v) # es) s"
  shows "linked es (fst (on_lifecycle k v s))"
proof (cases "find (\<lambda>(q, c). rc_job c = k \<and> rc_stage c \<noteq> AwaitDedupe) (aw_calls s)")
  case None
  have "k \<notin> job_targets (aw_calls s)"
    using None by (auto simp: find_None_iff job_targets_def dest!: map_of_SomeD)
  then show ?thesis using l None by (auto simp: on_lifecycle_def linked_def settles_Cons)
next
  case (Some x)
  obtain q c where x: "x = (q, c)" by (cases x)
  have c: "map_of (aw_calls s) q = Some c" and k: "rc_job c = k" and st: "rc_stage c \<noteq> AwaitDedupe"
  proof -
    have "(q, c) \<in> set (aw_calls s) \<and> rc_job c = k \<and> rc_stage c \<noteq> AwaitDedupe"
      using Some x by (auto simp: find_Some_iff in_set_conv_nth)
    then show "map_of (aw_calls s) q = Some c" "rc_job c = k" "rc_stage c \<noteq> AwaitDedupe"
      using linkedD(5)[OF l] by (auto simp: calls_apart_def)
  qed
  have gone: "rc_job c \<notin> fst ` set (js_calls (aw_jobs s))"
    using linkedD(7)[OF l] k by (simp add: settles_Cons)
  note w = finished_wait[OF linkedD(3,4)[OF l], of "rc_wait c" None]
  note j = finished_job[OF linkedD(1,2)[OF l], of "rc_job c" None]
  have e: "job_settles (JobEff (JobSettled k v) # es) - {rc_job c} = job_settles es - {rc_job c}"
    "wait_settles (JobEff (JobSettled k v) # es) - {rc_wait c} = wait_settles es - {rc_wait c}"
    using k by (auto simp: settles_Cons)
  have keep: "linked es (s\<lparr>aw_waits := fst (finish_wait (rc_wait c) None (aw_waits s)), aw_calls := AList.delete q (aw_calls s)\<rparr>)"
    using linked_dropped[OF l c linkedD(1,2)[OF l] refl _ w e] gone by simp
  have both: "linked es (s\<lparr>aw_jobs := fst (finish_job (rc_job c) None (aw_jobs s)),
      aw_waits := fst (finish_wait (rc_wait c) None (aw_waits s)), aw_calls := AList.delete q (aw_calls s)\<rparr>)"
    by (rule linked_dropped[OF l c j w e])
  have stage: "linked es (s\<lparr>aw_calls := AList.update q (c\<lparr>rc_stage := AwaitDedupe\<rparr>) (aw_calls s)\<rparr>)" if "rc_stage c = Racing"
    using linked_staged[OF l c that, of AwaitDedupe es] e k by (auto simp: settles_Cons)
  show ?thesis
    using keep both stage
    by (auto simp: on_lifecycle_def Some x answer_state set_stage_def abort_both_def split: option.split)
qed

lemma on_dedupe_linked:
  assumes l: "linked (WaitEff (WaitSettled k v) # es) s"
  shows "linked es (fst (on_dedupe k v s))"
proof (cases "find (\<lambda>(q, c). rc_wait c = k \<and> rc_stage c \<noteq> AwaitLifecycle) (aw_calls s)")
  case None
  have "k \<notin> wait_targets (aw_calls s)"
    using None by (auto simp: find_None_iff wait_targets_def dest!: map_of_SomeD)
  then show ?thesis using l None by (auto simp: on_dedupe_def linked_def settles_Cons)
next
  case (Some x)
  obtain q c where x: "x = (q, c)" by (cases x)
  have c: "map_of (aw_calls s) q = Some c" and k: "rc_wait c = k" and st: "rc_stage c \<noteq> AwaitLifecycle"
  proof -
    have "(q, c) \<in> set (aw_calls s) \<and> rc_wait c = k \<and> rc_stage c \<noteq> AwaitLifecycle"
      using Some x by (auto simp: find_Some_iff in_set_conv_nth)
    then show "map_of (aw_calls s) q = Some c" "rc_wait c = k" "rc_stage c \<noteq> AwaitLifecycle"
      using linkedD(5)[OF l] by (auto simp: calls_apart_def)
  qed
  have gone: "rc_wait c \<notin> fst ` set (ws_waiting (aw_waits s))"
    using linkedD(8)[OF l] k by (simp add: settles_Cons)
  note w = finished_wait[OF linkedD(3,4)[OF l], of "rc_wait c" None]
  note j = finished_job[OF linkedD(1,2)[OF l], of "rc_job c" None]
  have e: "job_settles (WaitEff (WaitSettled k v) # es) - {rc_job c} = job_settles es - {rc_job c}"
    "wait_settles (WaitEff (WaitSettled k v) # es) - {rc_wait c} = wait_settles es - {rc_wait c}"
    using k by (auto simp: settles_Cons)
  have keep: "linked es (s\<lparr>aw_jobs := fst (finish_job (rc_job c) None (aw_jobs s)), aw_calls := AList.delete q (aw_calls s)\<rparr>)"
    using linked_dropped[OF l c j linkedD(3,4)[OF l] refl _ e] gone by simp
  have both: "linked es (s\<lparr>aw_jobs := fst (finish_job (rc_job c) None (aw_jobs s)),
      aw_waits := fst (finish_wait (rc_wait c) None (aw_waits s)), aw_calls := AList.delete q (aw_calls s)\<rparr>)"
    by (rule linked_dropped[OF l c j w e])
  have stage: "linked es (s\<lparr>aw_calls := AList.update q (c\<lparr>rc_stage := AwaitLifecycle\<rparr>) (aw_calls s)\<rparr>)" if "rc_stage c = Racing"
    using linked_staged[OF l c that, of AwaitLifecycle es] e k by (auto simp: settles_Cons)
  show ?thesis
    using keep both stage
    by (auto simp: on_dedupe_def Some x answer_state set_stage_def abort_both_def split: option.split)
qed

lemma linked_other:
  "job_settles (e # es) = job_settles es \<Longrightarrow> wait_settles (e # es) = wait_settles es \<Longrightarrow> linked (e # es) s \<longleftrightarrow> linked es s"
  by (simp add: linked_def)

lemma on_settled_linked:
  assumes "linked (e # es) s"
  shows "linked es (fst (on_settled e s))"
proof (cases "(\<exists>k v. e = JobEff (JobSettled k v)) \<or> (\<exists>k v. e = WaitEff (WaitSettled k v))")
  case True
  then show ?thesis using assms on_lifecycle_linked on_dedupe_linked by auto
next
  case False
  then have "on_settled e = skip" "job_settles (e # es) = job_settles es" "wait_settles (e # es) = wait_settles es"
    by (cases e rule: on_settled.cases; simp add: settles_Cons)+
  then show ?thesis using assms by (simp add: linked_other)
qed

lemma settled_all_linked: "linked es s \<Longrightarrow> linked [] (fst (for_each on_settled es s))"
proof (induction es arbitrary: s)
  case (Cons e es)
  then show ?case using on_settled_linked[OF Cons.prems] by simp
qed simp

lemma then_settle_simps:
  "fst (then_settle a s) = fst (for_each on_settled (snd (a s)) (fst (a s)))"
  "snd (then_settle a s) = snd (a s) @ snd (for_each on_settled (snd (a s)) (fst (a s)))"
  by (simp_all add: then_settle_def split: prod.split)

lemma then_settle_linked: "linked (snd (a s)) (fst (a s)) \<Longrightarrow> linked [] (fst (then_settle a s))"
  by (simp add: then_settle_simps settled_all_linked)

text \<open>An action of one of the modules.\<close>

lemma job_action_linked:
  assumes l: "linked [] s" and a: "jobs_sound a (aw_jobs s)"
  shows "linked (snd (on_jobs a s)) (fst (on_jobs a s))"
proof -
  let ?j = "fst (a (aw_jobs s))" let ?es = "snd (a (aw_jobs s))"
  have "mset (map fst (js_calls ?j)) + sum_list (map settled_jobs ?es) = mset (map fst (js_calls (aw_jobs s)))"
    using a by (simp add: jobs_sound_def jobs.balanced_def job_calls_def)
  from keys_left[OF this jobs_okD(1)[OF linkedD(1)[OF l]]]
  have "fst ` set (js_calls ?j) = fst ` set (js_calls (aw_jobs s)) - {k. \<exists>v. JobSettled k v \<in> set ?es}"
    unfolding settled_set by simp
  then show ?thesis using l a by (auto simp: linked_def jobs_sound_def)
qed

lemma wait_action_linked:
  assumes l: "linked [] s" and new: "new_waits i (aw_waits s) = {#}"
  shows "linked (snd (on_waits (wait_step i) s)) (fst (on_waits (wait_step i) s))"
proof -
  let ?w = "fst (wait_step i (aw_waits s))" let ?es = "snd (wait_step i (aw_waits s))"
  have ok: "wait_ok (aw_waits s)" "timed (aw_waits s)" using l by (simp_all add: linked_def)
  have m: "mset (map fst (ws_waiting ?w)) + sum_list (map settled_calls ?es) = mset (map fst (ws_waiting (aw_waits s)))"
    using step_balanced[OF ok(1), of i] new by (simp add: waits.balanced_def waiting_calls_def)
  have d: "distinct (map fst (ws_waiting (aw_waits s)))" using ok by (simp add: wait_ok_def)
  have "fst ` set (ws_waiting ?w) = fst ` set (ws_waiting (aw_waits s)) - {k. \<exists>v. WaitSettled k v \<in> set ?es}"
    using keys_left[OF m d] unfolding settled_set by simp
  then show ?thesis using l step_ok[OF ok, of i] step_count[of i "aw_waits s"] new by (auto simp: linked_def)
qed

text \<open>A new request.\<close>

lemma job_start_keys:
  assumes ok: "jobs_ok s" and a: "job_started a s"
  shows "fst ` set (js_calls (fst (a s))) = insert (js_callCount s) (fst ` set (js_calls s)) - {k. \<exists>v. JobSettled k v \<in> set (snd (a s))}"
proof -
  have m: "mset (map fst (js_calls (fst (a s)))) + sum_list (map settled_jobs (snd (a s))) = mset (js_callCount s # map fst (js_calls s))"
    using a by (simp add: job_started_def jobs.balanced_def job_calls_def)
  have "js_callCount s \<notin> fst ` set (js_calls s)" using fresh_call[OF ok] by (simp add: map_of_eq_None_iff)
  then have d: "distinct (js_callCount s # map fst (js_calls s))" using jobs_okD(1)[OF ok] by simp
  show ?thesis using keys_left[OF m d] unfolding settled_set by simp
qed

lemma wait_start_keys:
  assumes ok: "wait_ok s" and a_def: "a = wait_step (StartWait r g ms ab)"
  shows "fst ` set (ws_waiting (fst (a s))) = insert (ws_count s) (fst ` set (ws_waiting s)) - {k. \<exists>v. WaitSettled k v \<in> set (snd (a s))}"
proof -
  have m: "mset (map fst (ws_waiting (fst (a s)))) + sum_list (map settled_calls (snd (a s))) = mset (ws_count s # map fst (ws_waiting s))"
    using step_balanced[OF ok, of "StartWait r g ms ab"] by (simp add: waits.balanced_def waiting_calls_def a_def)
  have "ws_count s \<notin> fst ` set (ws_waiting s)"
    using ok unfolding wait_ok_def by (metis less_irrefl map_of_eq_None_iff not_None_eq)
  then have d: "distinct (ws_count s # map fst (ws_waiting s))" using ok by (simp add: wait_ok_def)
  show ?thesis using keys_left[OF m d] unfolding settled_set by simp
qed

lemma targets_added:
  assumes "map_of cs q = None" and "rc_stage c = Racing"
  shows "job_targets (cs @ [(q, c)]) = insert (rc_job c) (job_targets cs)" "wait_targets (cs @ [(q, c)]) = insert (rc_wait c) (wait_targets cs)"
proof -
  have m: "map_of (cs @ [(q, c)]) p = Some e \<longleftrightarrow> (p = q \<and> e = c) \<or> map_of cs p = Some e" for p e
    using assms(1) unfolding map_of_snoc[OF assms(1)] by auto
  show "job_targets (cs @ [(q, c)]) = insert (rc_job c) (job_targets cs)" "wait_targets (cs @ [(q, c)]) = insert (rc_wait c) (wait_targets cs)"
    using assms(2) unfolding job_targets_def wait_targets_def m by auto (rule exI[of _ q], rule exI[of _ c], simp)+
qed

lemma start_race_linked:
  assumes l: "linked [] s" and q: "q < aw_count s" "map_of (aw_calls s) q = None"
  shows "linked (snd (start_race now q r ms active s)) (fst (start_race now q r ms active s))"
proof -
  let ?c = "\<lparr>rc_runId = r, rc_job = js_callCount (aw_jobs s), rc_wait = ws_count (aw_waits s), rc_stage = Racing\<rparr>"
  let ?a = "waitForAgentJob now r ms False active" let ?b = "wait_step (StartWait r active ms False)"
  let ?j = "fst (?a (aw_jobs s))" let ?w = "fst (?b (aw_waits s))"
  note ok = linkedD(1-4)[OF l]
  have a: "job_started ?a (aw_jobs s)" by (rule start_job_sound[OF ok(1)])
  have j: "jobs_ok ?j" "untimed ?j = {}" "js_callCount ?j = Suc (js_callCount (aw_jobs s))"
    using a ok(2) by (auto simp: job_started_def)
  have w: "wait_ok ?w" "timed ?w" "ws_count ?w = Suc (ws_count (aw_waits s))"
    using step_ok[OF ok(3,4), of "StartWait r active ms False"] step_count[of "StartWait r active ms False" "aw_waits s"] by simp_all
  note m = map_of_snoc[OF q(2), of ?c]
  have "calls_apart (aw_calls s @ [(q, ?c)])"
    unfolding calls_apart_def
  proof (intro conjI allI impI)
    show "distinct (map fst (aw_calls s @ [(q, ?c)]))"
      using linkedD(5)[OF l] q(2) by (simp add: calls_apart_def map_of_eq_None_iff)
    fix p d p' d' assume "map_of (aw_calls s @ [(q, ?c)]) p = Some d" "map_of (aw_calls s @ [(q, ?c)]) p' = Some d'"
      and e: "rc_job d = rc_job d' \<or> rc_wait d = rc_wait d'"
    then show "p = p'"
      using linkedD(6)[OF l, of p d] linkedD(6)[OF l, of p' d'] calls_apartD[OF linkedD(5)[OF l], of p d p' d']
      unfolding m by (auto split: if_splits)
  qed
  moreover have "p < aw_count s \<and> rc_job d < Suc (js_callCount (aw_jobs s)) \<and> rc_wait d < Suc (ws_count (aw_waits s))"
    if "map_of (aw_calls s @ [(q, ?c)]) p = Some d" for p d
    using that linkedD(6)[OF l, of p d] q(1) unfolding m by (auto split: if_splits)
  moreover have "fst ` set (js_calls ?j) = job_targets (aw_calls s @ [(q, ?c)]) - {k. \<exists>v. JobSettled k v \<in> set (snd (?a (aw_jobs s)))}"
    "fst ` set (ws_waiting ?w) = wait_targets (aw_calls s @ [(q, ?c)]) - {k. \<exists>v. WaitSettled k v \<in> set (snd (?b (aw_waits s)))}"
    using job_start_keys[OF ok(1) a] wait_start_keys[OF ok(3) refl, of r active ms False] linkedD(7,8)[OF l] targets_added[OF q(2), of ?c]
    by simp_all
  ultimately show ?thesis
    using j w by (simp add: start_race_def linked_def del: map_of_append)
qed

section \<open>Every request is answered once\<close>

definition open_requests :: "agent_waits \<Rightarrow> nat multiset" where
  "open_requests s = mset (map fst (aw_calls s))"

fun answered :: "aw_effect \<Rightarrow> nat multiset" where
  "answered (AnsweredWait q a) = {#q#}"
| "answered _ = {#}"

interpretation requests: account open_requests answered .

lemma job_effects_answer_none [simp]: "sum_list (map (answered \<circ> JobEff) es) = {#}"
  by (induction es) simp_all

lemma wait_effects_answer_none [simp]: "sum_list (map (answered \<circ> WaitEff) es) = {#}"
  by (induction es) simp_all

lemma module_balanced: "requests.balanced {#} (on_jobs a) s" "requests.balanced {#} (on_waits b) s"
  by (simp_all add: requests.balanced_def open_requests_def)

lemma answer_balanced:
  assumes "distinct (map fst (aw_calls s))" and "map_of (aw_calls s) q = Some c"
  shows "requests.balanced {#} (answer_wait q c v) s"
proof -
  have "q \<in># mset (map fst (aw_calls s))" using assms(2) by (auto dest!: map_of_SomeD intro!: image_eqI)
  then have "mset (map fst (AList.delete q (aw_calls s))) + {#q#} = mset (map fst (aw_calls s))"
    unfolding AList.delete_keys distinct_remove1_removeAll[OF assms(1), symmetric] by simp
  then show ?thesis by (simp add: requests.balanced_def answer_wait_def open_requests_def)
qed

lemma stage_balanced: "map_of (aw_calls s) q = Some c \<Longrightarrow> requests.balanced {#} (set_stage q c st) s"
  unfolding set_stage_def
  by (rule requests.balanced_update) (auto simp: open_requests_def AList.update_keys dest: map_of_SomeD intro: rev_image_eqI)

lemma found_call:
  assumes "distinct (map fst cs)" and "find P cs = Some (q, c)"
  shows "map_of cs q = Some c"
  using assms by (auto simp: find_Some_iff in_set_conv_nth)

lemma on_lifecycle_balanced:
  assumes d: "distinct (map fst (aw_calls s))"
  shows "requests.balanced {#} (on_lifecycle k v) s"
proof (cases "find (\<lambda>(q, c). rc_job c = k \<and> rc_stage c \<noteq> AwaitDedupe) (aw_calls s)")
  case (Some x)
  obtain q c where x: "x = (q, c)" by (cases x)
  have c: "map_of (aw_calls s) q = Some c" using found_call[OF d] Some x by simp
  show ?thesis
    unfolding on_lifecycle_def abort_both_def
    by (rule requests.balanced_with_state)
      (auto simp: Some x c d intro!: requests.balanced_seq[of "{#}" _ _ "{#}"] module_balanced answer_balanced stage_balanced split: option.split)
qed (simp add: on_lifecycle_def requests.balanced_def)

lemma on_dedupe_balanced:
  assumes d: "distinct (map fst (aw_calls s))"
  shows "requests.balanced {#} (on_dedupe k v) s"
proof (cases "find (\<lambda>(q, c). rc_wait c = k \<and> rc_stage c \<noteq> AwaitLifecycle) (aw_calls s)")
  case (Some x)
  obtain q c where x: "x = (q, c)" by (cases x)
  have c: "map_of (aw_calls s) q = Some c" using found_call[OF d] Some x by simp
  show ?thesis
    unfolding on_dedupe_def abort_both_def
    by (rule requests.balanced_with_state)
      (auto simp: Some x c d intro!: requests.balanced_seq[of "{#}" _ _ "{#}"] module_balanced answer_balanced stage_balanced split: option.split)
qed (simp add: on_dedupe_def requests.balanced_def)

lemma on_settled_balanced: "distinct (map fst (aw_calls s)) \<Longrightarrow> requests.balanced {#} (on_settled e) s"
  by (cases e rule: on_settled.cases) (simp_all add: on_lifecycle_balanced on_dedupe_balanced)

lemma settled_all_balanced: "linked es s \<Longrightarrow> requests.balanced {#} (for_each on_settled es) s"
proof (induction es arbitrary: s)
  case (Cons e es)
  have "distinct (map fst (aw_calls s))" using linkedD(5)[OF Cons.prems] by (simp add: calls_apart_def)
  then show ?case
    using Cons.IH[OF on_settled_linked[OF Cons.prems]] by (auto intro: requests.balanced_seq[OF on_settled_balanced])
qed simp

lemma then_settle_balanced:
  assumes "requests.balanced n a s" and "linked (snd (a s)) (fst (a s))"
  shows "requests.balanced n (then_settle a) s"
  using requests.balanced_seq[OF assms(1) settled_all_balanced[OF assms(2)], of n]
  by (simp add: requests.balanced_def then_settle_simps)

fun new_request :: "aw_input \<Rightarrow> agent_waits \<Rightarrow> nat multiset" where
  "new_request (AgentWaitRequest p active) s = {#aw_count s#}"
| "new_request _ s = {#}"

lemma settle_count: "aw_count (fst (for_each on_settled es s)) = aw_count s"
proof (induction es arbitrary: s)
  case (Cons e es)
  have "aw_count (fst (on_settled e s)) = aw_count s"
    by (cases e rule: on_settled.cases)
      (auto simp: on_lifecycle_def on_dedupe_def abort_both_def answer_state set_stage_def split: option.split)
  then show ?case using Cons by simp
qed simp

lemma agent_wait_facts:
  assumes l: "linked [] s"
  shows "linked [] (fst (agent_wait now p active s)) \<and> aw_count (fst (agent_wait now p active s)) = Suc (aw_count s)
    \<and> requests.balanced {#aw_count s#} (agent_wait now p active) s"
proof -
  let ?s = "s\<lparr>aw_count := Suc (aw_count s)\<rparr>" let ?race = "start_race now (aw_count s) (wait_run_id p) (wait_timeout p) active"
  have q: "map_of (aw_calls s) (aw_count s) = None"
    using linkedD(6)[OF l, of "aw_count s"] by (cases "map_of (aw_calls s) (aw_count s)") auto
  have l': "linked [] ?s" using l by (auto simp: linked_def less_Suc_eq)
  have r: "linked (snd (?race ?s)) (fst (?race ?s))" by (rule start_race_linked[OF l']) (simp_all add: q)
  have b: "requests.balanced {#aw_count s#} ?race ?s"
    by (simp add: start_race_def requests.balanced_def open_requests_def)
  have c: "aw_count (fst (?race ?s)) = Suc (aw_count s)" by (simp add: start_race_def)
  let ?body = "(if \<not> validateAgentWaitParams p then emit [AnsweredWait (aw_count s) WaitRefused]
      else case readTerminalSnapshotFromGatewayDedupe (ws_dedupe (aw_waits s)) (wait_run_id p) active of
        Some e \<Rightarrow> emit [AnsweredWait (aw_count s) (WaitAnswer (wait_run_id p) (Some (DedupeEnd e)))]
      | None \<Rightarrow> then_settle ?race)"
  have run: "agent_wait now p active s = ?body ?s" by (simp add: agent_wait_def Let_def)
  have "linked [] (fst (?body ?s)) \<and> aw_count (fst (?body ?s)) = Suc (aw_count s) \<and> requests.balanced {#aw_count s#} ?body ?s"
    using then_settle_linked[of ?race ?s, OF r] then_settle_balanced[OF b r] l' c
    by (auto simp: then_settle_simps settle_count intro: requests.balanced_emit split: option.split)
  then show ?thesis unfolding requests.balanced_def run by (simp add: open_requests_def)
qed

lemma job_step_facts_aw:
  assumes l: "linked [] s" and a: "jobs_sound a (aw_jobs s)"
  shows "linked [] (fst (then_settle (on_jobs a) s)) \<and> aw_count (fst (then_settle (on_jobs a) s)) = aw_count s
    \<and> requests.balanced {#} (then_settle (on_jobs a)) s"
  using then_settle_linked[of "on_jobs a" s] then_settle_balanced[OF module_balanced(1)] job_action_linked[OF l a]
  by (simp add: then_settle_simps settle_count)

lemma wait_step_facts_aw:
  assumes l: "linked [] s" and new: "new_waits i (aw_waits s) = {#}"
  shows "linked [] (fst (then_settle (on_waits (wait_step i)) s)) \<and> aw_count (fst (then_settle (on_waits (wait_step i)) s)) = aw_count s
    \<and> requests.balanced {#} (then_settle (on_waits (wait_step i))) s"
  using then_settle_linked[of "on_waits (wait_step i)" s] then_settle_balanced[OF module_balanced(2)] wait_action_linked[OF l new]
  by (simp add: then_settle_simps settle_count)

lemma aw_step_facts:
  assumes l: "linked [] s"
  shows "linked [] (fst (aw_step i s)) \<and> aw_count (fst (aw_step i s)) = aw_count s + size (new_request (snd i) s)
    \<and> requests.balanced (new_request (snd i) s) (aw_step i) s"
proof -
  obtain now x where i: "i = (now, x)" by (cases i)
  have job: "jobs_sound (job_step (now, JobTimer n)) (aw_jobs s)" for n
    using fired_sound[OF linkedD(1)[OF l], of now n] by (simp add: job_step_def)
  show ?thesis
    using agent_wait_facts[OF l] job_step_facts_aw[OF l event_sound[OF linkedD(1)[OF l]]] job_step_facts_aw[OF l job] wait_step_facts_aw[OF l]
    by (cases x) (simp_all add: i aw_step_def del: wait_step.simps)
qed

lemma aw_run_facts:
  assumes "linked [] s"
  shows "linked [] (fst (aw_run ins s)) \<and> open_requests (fst (aw_run ins s)) + sum_list (map answered (snd (aw_run ins s)))
      = open_requests s + mset [aw_count s..<aw_count (fst (aw_run ins s))] \<and> aw_count s \<le> aw_count (fst (aw_run ins s))"
  using assms
proof (induction ins arbitrary: s)
  case (Cons i ins)
  let ?s = "fst (aw_step i s)"
  note f = aw_step_facts[OF Cons.prems, of i]
  then have n: "aw_count ?s = aw_count s + size (new_request (snd i) s)" and l: "linked [] ?s"
    and b: "open_requests ?s + sum_list (map answered (snd (aw_step i s))) = open_requests s + new_request (snd i) s"
    by (auto simp: requests.balanced_def)
  note IH = Cons.IH[OF l]
  have run: "aw_run (i # ins) s = seq (aw_step i) (aw_run ins) s" by (simp add: aw_run_def)
  have "new_request (snd i) s = mset [aw_count s..<aw_count ?s]"
    unfolding n by (cases "snd i") simp_all
  moreover have "[aw_count s..<aw_count (fst (aw_run ins ?s))] = [aw_count s..<aw_count ?s] @ [aw_count ?s..<aw_count (fst (aw_run ins ?s))]"
    using IH n upt_add_eq_append[of "aw_count s" "aw_count ?s" "aw_count (fst (aw_run ins ?s)) - aw_count ?s"] by simp
  ultimately show ?case
    using IH b n unfolding run by (auto simp: ac_simps)
qed (simp add: aw_run_def)

lemma no_agent_waits_linked: "linked [] no_agent_waits"
proof -
  have "wait_ok no_waits" "timed no_waits" by (simp_all add: wait_ok_def timed_def no_waits_def waiters_at_def)
  then show ?thesis
    using no_jobs_ok
    by (simp add: linked_def no_agent_waits_def calls_apart_def job_targets_def wait_targets_def) (simp add: no_jobs_def no_waits_def)
qed

text \<open>The deadlines that will end an open request: those of the calls it still waits for are set.\<close>

definition still_due :: "agent_waits \<Rightarrow> nat \<times> race_call \<Rightarrow> bool" where
  "still_due s = (\<lambda>(q, c).
     (rc_stage c = AwaitDedupe \<or> (case map_of (js_calls (aw_jobs s)) (rc_job c) of
        Some d \<Rightarrow> has_deadline (aw_jobs s) (rc_job c, d) | None \<Rightarrow> False))
     \<and> (rc_stage c = AwaitLifecycle \<or> rc_wait c \<in> set (ws_timers (aw_waits s))))"

text \<open>
  C21: every agent.wait request is answered exactly once or still open, and then the deadline of each call it waits for is set;
  a request waits for at least one of the two, and no call of either module is left open by a request that was answered.
\<close>

theorem agent_waits_answered_once:
  "mset (map fst (aw_calls (fst (aw_run ins no_agent_waits)))) + sum_list (map answered (snd (aw_run ins no_agent_waits)))
     = mset [0..<aw_count (fst (aw_run ins no_agent_waits))]
   \<and> list_all (still_due (fst (aw_run ins no_agent_waits))) (aw_calls (fst (aw_run ins no_agent_waits)))
   \<and> fst ` set (js_calls (aw_jobs (fst (aw_run ins no_agent_waits)))) = job_targets (aw_calls (fst (aw_run ins no_agent_waits)))
   \<and> fst ` set (ws_waiting (aw_waits (fst (aw_run ins no_agent_waits)))) = wait_targets (aw_calls (fst (aw_run ins no_agent_waits)))"
proof -
  let ?s = "fst (aw_run ins no_agent_waits)"
  note f = aw_run_facts[OF no_agent_waits_linked, of ins]
  then have l: "linked [] ?s" by blast
  have k: "fst ` set (js_calls (aw_jobs ?s)) = job_targets (aw_calls ?s)" "fst ` set (ws_waiting (aw_waits ?s)) = wait_targets (aw_calls ?s)"
    using linkedD(7,8)[OF l] by simp_all
  have "still_due ?s (q, c)" if "(q, c) \<in> set (aw_calls ?s)" for q c
  proof -
    have c: "map_of (aw_calls ?s) q = Some c" using that linkedD(5)[OF l] by (simp add: calls_apart_def)
    have "case map_of (js_calls (aw_jobs ?s)) (rc_job c) of Some d \<Rightarrow> has_deadline (aw_jobs ?s) (rc_job c, d) | None \<Rightarrow> False"
      if "rc_stage c \<noteq> AwaitDedupe"
    proof -
      have "rc_job c \<in> job_targets (aw_calls ?s)" unfolding job_targets_def using c that by blast
      then have "map_of (js_calls (aw_jobs ?s)) (rc_job c) \<noteq> None" unfolding k(1)[symmetric] by (simp add: map_of_eq_None_iff)
      then obtain d where d: "map_of (js_calls (aw_jobs ?s)) (rc_job c) = Some d" by blast
      then obtain n where n: "jc_timeout d = Some n" using linkedD(2)[OF l] by (auto simp: untimed_def)
      show ?thesis using jobs_okD(7)[OF linkedD(1)[OF l] d n] by (simp add: d has_deadline_def n)
    qed
    moreover have "rc_wait c \<in> set (ws_timers (aw_waits ?s))" if "rc_stage c \<noteq> AwaitLifecycle"
    proof -
      have "rc_wait c \<in> wait_targets (aw_calls ?s)" unfolding wait_targets_def using c that by blast
      then show ?thesis unfolding k(2)[symmetric] using linkedD(4)[OF l] by (simp add: timed_def)
    qed
    ultimately show ?thesis unfolding still_due_def by blast
  qed
  then have "list_all (still_due ?s) (aw_calls ?s)" by (auto simp: list_all_iff)
  then show ?thesis using f k by (simp add: open_requests_def) (simp add: no_agent_waits_def)
qed

end
