(* ===== verification/Spec2Isabelle.thy ===== *)
theory Spec2Isabelle
  imports Prelude JsValue ApiTypes Repository FileRepository Mirror Store Config HttpServer
    JsonText Contracts Adapter Effects GatewaySource RealtimeGateway
    MirrorClient GatewayServer RealtimeState RealtimeClient ApiClient
    Queries SessionRealtime EndToEnd
    OpenClawText ExecApprovals AuthRateLimit GatewayAuth GatewayAccess OpenClawBroadcast OpenClawBridge
    CommandQueue QueueInvariants
    ReplyText ChatRegistries AgentEvents SessionLifecycle ActFrames ServerChat ChatInvariants ChatReply
    ControlPlaneLimit AgentJob AgentWait AgentWaitCall
begin

text \<open>
  A verification library for vertx: the workspace product built around an OpenClaw gateway. The
  program's own code is in src/packages and src/app/web; src/openclaw is the upstream project,
  which it runs unmodified and talks to over a WebSocket, and of which the parts are modelled that
  decide what this connection is good for. This file holds the overview; the theorems stand in the
  theories, each after a text with its number.

  The parts and how they work together. OpenClaw's gateway emits events (chat, tools, runs,
  approvals) and answers requests. \<open>OpenClawGatewaySource\<close> keeps the connection to it,
  \<open>RealtimeBridgeAdapter\<close> turns each event into at most one product event frame with the
  workspace's context, and the realtime gateway publishes the frames to its WebSocket clients and
  forwards their requests. One client is the Product API server itself, whose mirror writes the
  events into its repository; the others are browsers. The Product API serves the repository over
  HTTP through a store with its own counters. In the browser an API client reads and writes through
  HTTP with mock data as a fallback, query hooks cache the answers, and the session page reduces
  the frames of its gateway client into what it shows. On OpenClaw's side a handshake decides who
  the connection is and which scopes it has, under a limit on wrong secrets; the scopes decide which
  methods it may call and which events it is sent; the requests and decisions it is sent as
  approvals live in the approval manager.

  Theories and sources.

  \<^item> \<open>Prelude\<close>, \<open>JsValue\<close>, \<open>Effects\<close>: shared ground. JSON values and JavaScript's reading of them
    (absent and null, truthiness, spread, numbers as exact rationals with the doubles' rounding
    where the code adds), keyed lists with their locale \<open>keyed_collection\<close>, strings as UTF-8 bytes,
    and handlers as state transformers that emit effects in order, with the locale \<open>account\<close> for the
    conservation of obligations.
  \<^item> \<open>ApiTypes\<close> (packages/api/src/index.ts): the product's records and its seed data.
  \<^item> \<open>Repository\<close>, \<open>FileRepository\<close> (packages/domain/src/index.ts,
    packages/product-api-server/src/file-repository.ts): the repository interface as a record of
    functions, the in-memory and the file-backed one; the locale \<open>product_repository\<close> is the contract
    the store and the mirror are proved against, interpreted for both.
  \<^item> \<open>Mirror\<close>, \<open>Store\<close> (packages/domain/src/index.ts): the realtime mirror and the store's operations.
  \<^item> \<open>Config\<close>, \<open>HttpServer\<close> (packages/product-api-server/src/index.ts): the environment of both
    servers, and the routes, errors and life cycle of the Product API server.
  \<^item> \<open>JsonText\<close>, \<open>Contracts\<close>, \<open>Adapter\<close> (packages/realtime-gateway-contracts, packages/openclaw-adapter):
    frames, the normalisation of OpenClaw's events and their numbering.
  \<^item> \<open>GatewaySource\<close> (packages/openclaw-adapter/src/index.ts): the connection to OpenClaw as a state
    machine over calls, socket callbacks and timers.
  \<^item> \<open>RealtimeGateway\<close>, \<open>GatewayServer\<close> (packages/realtime-gateway, packages/realtime-gateway-server):
    clients, requests and publishing; the process around it.
  \<^item> \<open>MirrorClient\<close> (packages/product-api-server/src/realtime-mirror-client.ts): the Product API's
    own connection to the gateway.
  \<^item> \<open>RealtimeState\<close>, \<open>RealtimeClient\<close>, \<open>SessionRealtime\<close> (app/web/src/shared/realtime): the session
    page's reducer, its WebSocket client and its hook; \<open>ApiClient\<close>, \<open>Queries\<close> (app/web/src/shared/api):
    the HTTP client against the server's model, the query keys and the mutations.
  \<^item> \<open>EndToEnd\<close>: the page's history request through browser client, gateway and OpenClaw connection
    and back into the page.
  \<^item> \<open>OpenClawText\<close>, \<open>ExecApprovals\<close>, \<open>AuthRateLimit\<close>, \<open>GatewayAuth\<close>, \<open>GatewayAccess\<close>,
    \<open>OpenClawBroadcast\<close> (openclaw/src/shared/string-coerce.ts, openclaw/src/gateway/
    exec-approval-manager.ts, auth-rate-limit.ts, auth.ts, method-scopes.ts, role-policy.ts,
    server-methods.ts, server-broadcast.ts, server/ws-connection): the gateway's approvals with their
    timers, its authentication (connect frames with and without a device's tokens, HTTP attempts and the
    readiness probe of server-http.ts), the scopes of methods, the handshake of a client without a device,
    what a client learns that is locked out, the dispatch of requests and the broadcasts.
  \<^item> \<open>OpenClawBridge\<close>: the adapter's connect frame through that handshake, the answers to its requests
    and the events it is sent.
  \<^item> \<open>CommandQueue\<close> and \<open>QueueInvariants\<close>: the lanes in which the gateway runs what it is asked to do
    (process/command-queue.ts), as a stack machine over commands that call back into the queue, for
    ever if they like, and what it keeps.
  \<^item> \<open>ReplyText\<close>, \<open>ChatRegistries\<close>, \<open>AgentEvents\<close>, \<open>SessionLifecycle\<close>, \<open>ServerChat\<close> (openclaw/src/gateway/
    control-reply-text.ts, server-chat.ts, session-lifecycle-state.ts, chat-abort.ts, server-maintenance.ts,
    server-methods/chat.ts, auto-reply/tokens.ts, utils/directive-tags.ts, infra/agent-events.ts): how the events of an agent's run
    become the chat events that the adapter receives, with the texts taken out of a reply, the throttle of
    its deltas, the delay of its errors, aborts, the periodic sweep, and what chat.send and chat.inject tell the
    chats themselves. \<open>ChatInvariants\<close> and \<open>ChatReply\<close>
    hold what is proved of them, by the rules of \<open>ActFrames\<close> for handlers: locales for what a handler leaves
    alone, keeps true and may send.
  \<^item> \<open>AgentJob\<close>, \<open>AgentWait\<close>, \<open>AgentWaitCall\<close> (openclaw/src/gateway/server-methods/agent-job.ts,
    agent-wait-dedupe.ts, agent.ts, server-maintenance.ts): the method agent.wait, which asks how a run ended:
    the run's lifecycle events with the errors held back for a retry, the table of answered requests with its
    waiters and its cleanup, and the race of the two. Each module counts its calls, sub-calls and timers; the
    composition feeds what a module settles to the requests that wait for it.
  \<^item> \<open>ControlPlaneLimit\<close> (openclaw/src/gateway/control-plane-rate-limit.ts, server-methods.ts): how often a
    client may change the gateway itself, and the dispatch that asks for it.

  What the lemmas show. Invariants of every reachable state: summaries agree with details and
  ids are distinct (\<open>Store\<close>), calls and requests are answered exactly once (\<open>GatewaySource\<close>,
  \<open>RealtimeGateway\<close>, \<open>RealtimeClient\<close>, by the locale \<open>account\<close>), a client lives or a reconnect timer is
  set (\<open>MirrorClient\<close>, \<open>SessionRealtime\<close>), the tool panel and the approvals are well formed
  (\<open>RealtimeState\<close>). Refinements: the file-backed server answers as the in-memory one, and what it
  wrote is what a restart reads, up to numbers that JSON text cannot hold (\<open>HttpServer\<close>, \<open>Mirror\<close>). Compositions: an OpenClaw event through
  adapter, gateway and mirror into the repository, a browser's request through the gateway to
  OpenClaw and back, the browser's API client and query cache against the server, the adapter
  against the gateway's handshake, dispatch and broadcasts. Bounds and termination: the
  command queue's code returns when what it is asked to do is finite, leaves no startable command waiting and starts
  commands in order; how many wrong secrets a client can have compared in a stretch of time, how many timers an
  approval can still fire; how many chats can be told to have ended, and that of an aborted run nothing is told but what
  its chat.send answers; an
  approval given once is used once, and every promise is settled once. A reply that grows is told whole
  and throttled as the reference says (\<open>ChatReply\<close>). Every agent.wait request is answered once and
  leaves nothing open in the modules it waited for (\<open>AgentWaitCall\<close>), a failure is not reported once the
  run has started again (\<open>AgentJob\<close>), and at most five control-plane writes of a client pass in a
  minute (\<open>ControlPlaneLimit\<close>). Functional
  behaviour of the operations with their error branches in each theory. Several theorems state
  what the code does where it departs from its purpose; the manifest lists them as findings.

  Modelling choices. Time is a parameter: a clock gives the readings of \<open>Date.now()\<close> in the order the
  code makes them. Sockets, timers, promises and calls are numbered, and what the outside does to
  them comes as explicit events in any order the platform allows; a theorem over a list of events
  holds for every interleaving. Loops of the source run over finite lists and need no fuel; splitting a
  text into its characters takes the text's length as fuel, enough because every character takes a
  byte; recursions on numbers (decimal digits, the exponent of a double) have termination
  measures. The loops of the command queue run code that calls the queue again, which may queue itself: commands are a
  codatatype, the run of the stack machine is a \<open>partial_function\<close> that yields nothing when it does not end, invariants
  hold of every state it passes through (\<open>queue_reaches\<close>), and for calls that bring finitely many others
  (\<open>finite_call\<close>) it ends by a lexicographic measure on what is left. Exceptions and rejected promises are values of a sum type with the message.

  Parameters, with the documented behaviour the theorems assume of them where they need it: the URL
  parser (keeps a plain path), \<open>fetch\<close>, react-query's key matching (a key matches itself and only keys
  it is a prefix of), what the operating system answers to \<open>listen\<close>, the JSON text of a frame
  beyond its value.

  Not modelled. The rest of OpenClaw (agents, channels, plugins, the handlers of its methods but agent.wait, device
  identity and pairing): upstream code behind a WebSocket protocol; the libraries ws,
  node:http, react and react-query beyond the events and calls above; the pages, widgets and styles
  of the web client, which render what the hooks return; torn or foreign state files;
  characters beyond the Basic Multilingual Plane where JavaScript counts UTF-16 units.
\<close>

end
